(* ===== verification/Go_Prelude.thy ===== *)
theory Go_Prelude
  imports Main "HOL-Library.Word" "HOL-Library.Sublist"
begin

text \<open>
  The part of the Go language and its standard library that the modelled packages share:
  byte strings with the \<open>strings\<close> and \<open>strconv\<close> functions the code calls, 64-bit
  signed arithmetic with its wrap-around (\<open>int64\<close>, \<open>time.Duration\<close>), and points in
  time as nanoseconds. A Go string is a list of bytes (\<^typ>\<open>string\<close>); case mapping and
  white space are those of ASCII, so bytes of multi-byte UTF-8 sequences are left alone.

  The collections declared here are used by every component: \<open>go_defs\<close> holds the
  definitions a proof unfolds to run the code, \<open>go_str\<close> the algebraic facts on strings.
\<close>

named_theorems go_defs "definitions unfolded when a proof runs the code"
named_theorems go_str "facts on Go strings"

section \<open>Strings: the functions of package strings\<close>

definition lower_char :: "char \<Rightarrow> char" where
  "lower_char c =
     (let n = of_char c :: nat in if 65 \<le> n \<and> n \<le> 90 then char_of (n + 32) else c)"

definition is_space :: "char \<Rightarrow> bool" where
  "is_space c = (let n = of_char c :: nat in n = 32 \<or> (9 \<le> n \<and> n \<le> 13))"

definition ToLower :: "string \<Rightarrow> string" where
  "ToLower s = map lower_char s"

definition EqualFold :: "string \<Rightarrow> string \<Rightarrow> bool" where
  "EqualFold a b \<longleftrightarrow> ToLower a = ToLower b"

definition TrimSpace :: "string \<Rightarrow> string" where
  "TrimSpace s = rev (dropWhile is_space (rev (dropWhile is_space s)))"

definition HasPrefix :: "string \<Rightarrow> string \<Rightarrow> bool" where
  "HasPrefix s p \<longleftrightarrow> prefix p s"

definition TrimPrefix :: "string \<Rightarrow> string \<Rightarrow> string" where
  "TrimPrefix s p = (if HasPrefix s p then drop (length p) s else s)"

definition ReplaceByte :: "string \<Rightarrow> char \<Rightarrow> char \<Rightarrow> string" where
  "ReplaceByte s old new = map (\<lambda>c. if c = old then new else c) s"

text \<open>\<open>strings.Index\<close>: the first position of \<open>sub\<close>, \<open>None\<close> for Go's \<open>-1\<close>.\<close>

fun Index :: "string \<Rightarrow> string \<Rightarrow> nat option" where
  "Index [] sub = (if sub = [] then Some 0 else None)"
| "Index (c # s) sub =
     (if HasPrefix (c # s) sub then Some 0 else map_option Suc (Index s sub))"

definition Contains :: "string \<Rightarrow> string \<Rightarrow> bool" where
  "Contains s sub \<longleftrightarrow> Index s sub \<noteq> None"

definition ContainsAny :: "string \<Rightarrow> string \<Rightarrow> bool" where
  "ContainsAny s chars \<longleftrightarrow> list_ex (\<lambda>c. c \<in> set chars) s"

text \<open>\<open>strings.Cut\<close>: text before and after the first separator, and whether it was found.\<close>

definition Cut :: "string \<Rightarrow> string \<Rightarrow> string \<times> string \<times> bool" where
  "Cut s sep =
     (case Index s sep of
        Some i \<Rightarrow> (take i s, drop (i + length sep) s, True)
      | None \<Rightarrow> (s, [], False))"

text \<open>\<open>strings.SplitN(s, sep, 2)\<close> for a non-empty separator.\<close>

definition SplitN2 :: "string \<Rightarrow> string \<Rightarrow> string list" where
  "SplitN2 s sep =
     (case Index s sep of
        Some i \<Rightarrow> [take i s, drop (i + length sep) s]
      | None \<Rightarrow> [s])"

lemma Index_bound: "Index s sub = Some i \<Longrightarrow> i + length sub \<le> length s"
proof (induction s arbitrary: i)
  case (Cons c s)
  show ?case
  proof (cases "HasPrefix (c # s) sub")
    case True
    with Cons.prems show ?thesis
      by (auto simp: HasPrefix_def dest: prefix_length_le)
  next
    case False
    with Cons show ?thesis by (auto split: if_splits)
  qed
qed (auto split: if_splits)

text \<open>\<open>strings.Split\<close>; an empty separator explodes the string.\<close>

function (sequential) Split :: "string \<Rightarrow> string \<Rightarrow> string list" where
  "Split s [] = map (\<lambda>c. [c]) s"
| "Split s (x # sep) =
     (case Index s (x # sep) of
        None \<Rightarrow> [s]
      | Some i \<Rightarrow> take i s # Split (drop (i + length (x # sep)) s) (x # sep))"
  by pat_completeness auto
termination
  by (relation "measure (\<lambda>(s, sep). length s)") (auto dest!: Index_bound)

definition Join :: "string list \<Rightarrow> string \<Rightarrow> string" where
  "Join parts sep = concat (case parts of [] \<Rightarrow> [] | p # ps \<Rightarrow> p # map (\<lambda>q. sep @ q) ps)"

text \<open>\<open>strings.LastIndexByte\<close>.\<close>

definition LastIndexByte :: "string \<Rightarrow> char \<Rightarrow> nat option" where
  "LastIndexByte s c =
     (if c \<in> set s then Some (length s - 1 - length (takeWhile (\<lambda>d. d \<noteq> c) (rev s))) else None)"

section \<open>Numbers in decimal: the functions of package strconv\<close>

datatype num_error = ErrSyntax | ErrRange

definition digit_char :: "nat \<Rightarrow> char" where
  "digit_char d = char_of (48 + d)"

definition digit_val :: "char \<Rightarrow> nat option" where
  "digit_val c = (let n = of_char c :: nat in if 48 \<le> n \<and> n \<le> 57 then Some (n - 48) else None)"

text \<open>\<open>strconv.FormatUint(n, 10)\<close> and \<open>strconv.FormatInt(n, 10)\<close>.\<close>

fun FormatUint :: "nat \<Rightarrow> string" where
  "FormatUint n =
     (if n < 10 then [digit_char n] else FormatUint (n div 10) @ [digit_char (n mod 10)])"

declare FormatUint.simps [simp del]

definition FormatInt :: "int \<Rightarrow> string" where
  "FormatInt i = (if i < 0 then CHR ''-'' # FormatUint (nat (- i)) else FormatUint (nat i))"

text \<open>
  The digit loop of \<open>strconv.ParseUint(s, 10, bitSize)\<close> with the accumulator \<open>n\<close>: a
  byte that is no digit is a syntax error, a value past \<open>maxVal\<close> a range error, whichever
  is met first.
\<close>

fun parse_digits :: "nat \<Rightarrow> nat \<Rightarrow> string \<Rightarrow> num_error + nat" where
  "parse_digits maxVal n [] = Inr n"
| "parse_digits maxVal n (c # s) =
     (case digit_val c of
        None \<Rightarrow> Inl ErrSyntax
      | Some d \<Rightarrow>
          if n * 10 + d > maxVal then Inl ErrRange else parse_digits maxVal (n * 10 + d) s)"

definition ParseUint :: "string \<Rightarrow> nat \<Rightarrow> num_error + nat" where
  "ParseUint s bits = (if s = [] then Inl ErrSyntax else parse_digits (2 ^ bits - 1) 0 s)"

definition ParseInt :: "string \<Rightarrow> nat \<Rightarrow> num_error + int" where
  "ParseInt s bits =
     (if s = [] then Inl ErrSyntax
      else
        let neg = (hd s = CHR ''-'');
            body = (if hd s = CHR ''+'' \<or> hd s = CHR ''-'' then tl s else s);
            cutoff = 2 ^ (bits - 1)
        in case ParseUint body bits of
             Inl e \<Rightarrow> Inl e
           | Inr un \<Rightarrow>
               if \<not> neg \<and> un \<ge> cutoff then Inl ErrRange
               else if neg \<and> un > cutoff then Inl ErrRange
               else Inr (if neg then - int un else int un))"

text \<open>\<open>hex.EncodeToString\<close>.\<close>

definition hex_digit :: "nat \<Rightarrow> char" where
  "hex_digit d = (if d < 10 then char_of (48 + d) else char_of (87 + d))"

definition hex_encode :: "string \<Rightarrow> string" where
  "hex_encode bs = concat (map (\<lambda>b. [hex_digit (of_char b div 16), hex_digit (of_char b mod 16)]) bs)"

section \<open>64-bit signed integers, durations and time\<close>

text \<open>
  \<open>int\<close>, \<open>int64\<close> and \<open>time.Duration\<close> are 64-bit two's complement; \<^term>\<open>int64 x\<close> is
  the value a Go expression has whose mathematical value is \<open>x\<close>.
\<close>

definition int64 :: "int \<Rightarrow> int" where
  "int64 x = (x + 2 ^ 63) mod 2 ^ 64 - 2 ^ 63"

abbreviation (input) max_int64 :: int where "max_int64 \<equiv> 9223372036854775807"
abbreviation (input) min_int64 :: int where "min_int64 \<equiv> - 9223372036854775808"

definition in_int64 :: "int \<Rightarrow> bool" where
  "in_int64 x \<longleftrightarrow> - (2 ^ 63) \<le> x \<and> x < 2 ^ 63"

type_synonym duration = int
type_synonym time = int

abbreviation (input) Millisecond :: duration where "Millisecond \<equiv> 1000000"
abbreviation (input) Second :: duration where "Second \<equiv> 1000000000"
abbreviation (input) Minute :: duration where "Minute \<equiv> 60000000000"

text \<open>
  Go's integer division truncates towards zero. \<open>Duration.Milliseconds()\<close> is division by
  one million.
\<close>

definition go_div :: "int \<Rightarrow> int \<Rightarrow> int" where
  "go_div a b = sgn a * sgn b * (\<bar>a\<bar> div \<bar>b\<bar>)"

definition Milliseconds :: "duration \<Rightarrow> int" where
  "Milliseconds d = go_div d Millisecond"

section \<open>Shared lemmas\<close>

subsection \<open>Characters\<close>

lemma lower_char_idem [simp]: "lower_char (lower_char c) = lower_char c"
  by (auto simp: lower_char_def Let_def)

lemma is_space_lower_char [simp]: "is_space (lower_char c) = is_space c"
  by (auto simp: is_space_def lower_char_def Let_def)

lemma ToLower_idem [simp]: "ToLower (ToLower s) = ToLower s"
  by (simp add: ToLower_def)

lemma ToLower_Nil [simp]: "ToLower [] = []"
  by (simp add: ToLower_def)

lemma ToLower_append [simp]: "ToLower (s @ t) = ToLower s @ ToLower t"
  by (simp add: ToLower_def)

lemma digit_val_digit_char [simp]: "d < 10 \<Longrightarrow> digit_val (digit_char d) = Some d"
  by (simp add: digit_val_def digit_char_def)

lemma digit_val_bound: "digit_val c = Some d \<Longrightarrow> d < 10"
  by (auto simp: digit_val_def Let_def split: if_splits)

subsection \<open>Trimming\<close>

lemma dropWhile_hd_fix: "xs = [] \<or> \<not> P (hd xs) \<Longrightarrow> dropWhile P xs = xs"
  by (cases xs) auto

lemma TrimSpace_fix:
  assumes "s = [] \<or> (\<not> is_space (hd s) \<and> \<not> is_space (last s))"
  shows "TrimSpace s = s"
proof (cases "s = []")
  case False
  with assms have "dropWhile is_space s = s" by (intro dropWhile_hd_fix) simp
  moreover from False assms have "dropWhile is_space (rev s) = rev s"
    by (intro dropWhile_hd_fix) (simp add: hd_rev)
  ultimately show ?thesis by (simp add: TrimSpace_def)
qed (simp add: TrimSpace_def)

lemma TrimSpace_ends:
  "TrimSpace s = [] \<or> (\<not> is_space (hd (TrimSpace s)) \<and> \<not> is_space (last (TrimSpace s)))"
proof -
  define t where "t = dropWhile is_space s"
  define u where "u = dropWhile is_space (rev t)"
  have ts: "TrimSpace s = rev u" by (simp add: TrimSpace_def t_def u_def)
  show ?thesis
  proof (cases "u = []")
    case False
    then have lst: "\<not> is_space (last (rev u))"
      using hd_dropWhile[of is_space "rev t"] by (simp add: u_def last_rev)
    from suffix_dropWhile[of is_space "rev t"] have "suffix u (rev t)" by (simp add: u_def)
    then have pre: "prefix (rev u) t" by (simp add: suffix_to_prefix)
    with False have "hd (rev u) = hd t" by (auto simp: prefix_def)
    moreover from pre False have "t \<noteq> []" by auto
    then have "\<not> is_space (hd t)" unfolding t_def by (rule hd_dropWhile)
    ultimately show ?thesis using lst ts by simp
  qed (simp add: ts)
qed

lemma TrimSpace_idem [simp]: "TrimSpace (TrimSpace s) = TrimSpace s"
  using TrimSpace_ends[of s] by (intro TrimSpace_fix) auto

subsection \<open>Searching and splitting\<close>

lemma HasPrefix_append [simp]: "HasPrefix (p @ s) p"
  by (simp add: HasPrefix_def)

lemma TrimPrefix_append [simp]: "TrimPrefix (p @ s) p = s"
  by (simp add: TrimPrefix_def)

lemma Index_split:
  "Index s sub = Some i \<Longrightarrow> s = take i s @ sub @ drop (i + length sub) s"
proof (induction s arbitrary: i)
  case (Cons c s)
  show ?case
  proof (cases "HasPrefix (c # s) sub")
    case True
    with Cons.prems show ?thesis by (auto simp: HasPrefix_def prefix_def)
  next
    case False
    with Cons show ?thesis by (auto split: if_splits)
  qed
qed (auto split: if_splits)

lemma Index_None_notin: "Index s [c] = None \<longleftrightarrow> c \<notin> set s"
  by (induction s) (auto simp: HasPrefix_def)

lemma Index_first: "Index s [c] = Some i \<Longrightarrow> c \<notin> set (take i s)"
  by (induction s arbitrary: i) (auto simp: HasPrefix_def split: if_splits)

lemma Index_byte_append: "c \<notin> set a \<Longrightarrow> Index (a @ c # b) [c] = Some (length a)"
  by (induction a) (auto simp: HasPrefix_def)

lemma Cut_byte: "c \<notin> set a \<Longrightarrow> Cut (a @ c # b) [c] = (a, b, True)"
  by (simp add: Cut_def Index_byte_append)

lemma Cut_found: "Cut s sep = (a, b, True) \<Longrightarrow> s = a @ sep @ b"
  by (auto simp: Cut_def split: option.splits dest: Index_split)

lemma Contains_iff: "Contains s sub \<longleftrightarrow> (\<exists>a b. s = a @ sub @ b)"
proof
  assume "Contains s sub"
  then show "\<exists>a b. s = a @ sub @ b" by (auto simp: Contains_def dest: Index_split)
next
  assume "\<exists>a b. s = a @ sub @ b"
  then obtain a b where s: "s = a @ sub @ b" by blast
  have "Index (a @ sub @ b) sub \<noteq> None"
  proof (induction a)
    case Nil
    have "prefix sub (sub @ b)" by simp
    then show ?case by (cases "sub @ b") (simp_all add: HasPrefix_def)
  qed auto
  with s show "Contains s sub" by (simp add: Contains_def)
qed

lemma Split_Join:
  "ps \<noteq> [] \<Longrightarrow> \<forall>p \<in> set ps. c \<notin> set p \<Longrightarrow> Split (Join ps [c]) [c] = ps"
proof (induction ps)
  case (Cons p ps)
  show ?case
  proof (cases ps)
    case Nil
    moreover have "Index p [c] = None" using Cons.prems by (simp add: Index_None_notin)
    ultimately show ?thesis by (simp add: Join_def)
  next
    case (Cons q qs)
    have "Join (p # ps) [c] = p @ c # Join ps [c]" using Cons by (simp add: Join_def)
    moreover have "Index (p @ c # Join ps [c]) [c] = Some (length p)" using Cons.prems by (intro Index_byte_append) simp
    ultimately show ?thesis using Cons.IH Cons Cons.prems by simp
  qed
qed simp

lemma Split_chars: "x \<in> set (Split s sep) \<Longrightarrow> set x \<subseteq> set s"
proof (induction s sep rule: Split.induct)
  case (2 s c sep)
  show ?case
  proof (cases "Index s (c # sep)")
    case (Some i)
    have sub: "set (take i s) \<subseteq> set s" "set (drop (i + length (c # sep)) s) \<subseteq> set s"
      by (rule set_take_subset, rule set_drop_subset)
    from 2 Some have "x = take i s \<or> set x \<subseteq> set (drop (i + length (c # sep)) s)" by auto
    with sub show ?thesis by blast
  qed (use 2 in simp)
qed auto

lemma lower_chars: "ToLower x = x \<longleftrightarrow> (\<forall>c \<in> set x. lower_char c = c)"
  by (simp add: ToLower_def map_idI) (metis map_eq_conv list.map_id0 id_apply)

lemma Split_lower: "ToLower s = s \<Longrightarrow> x \<in> set (Split s sep) \<Longrightarrow> ToLower x = x"
  using Split_chars by (fastforce simp: lower_chars)

lemma LastIndexByte_append:
  "c \<notin> set b \<Longrightarrow> LastIndexByte (a @ c # b) c = Some (length a)"
proof -
  assume "c \<notin> set b"
  then have "takeWhile (\<lambda>d. d \<noteq> c) (rev b @ c # rev a) = rev b"
    by (induction b rule: rev_induct) auto
  then show ?thesis by (simp add: LastIndexByte_def)
qed

subsection \<open>Decimal numbers\<close>

lemma FormatUint_small: "n < 10 \<Longrightarrow> FormatUint n = [digit_char n]"
  by (subst FormatUint.simps) simp

lemma FormatUint_step: "10 \<le> n \<Longrightarrow> FormatUint n = FormatUint (n div 10) @ [digit_char (n mod 10)]"
  by (subst FormatUint.simps) simp

lemma FormatUint_nonempty [simp]: "FormatUint n \<noteq> []"
  by (subst FormatUint.simps) simp

lemma FormatUint_digits: "c \<in> set (FormatUint n) \<Longrightarrow> \<exists>d<10. c = digit_char d"
proof (induction n rule: FormatUint.induct)
  case (1 n)
  show ?case
  proof (cases "n < 10")
    case True
    with "1.prems" show ?thesis by (auto simp: FormatUint_small)
  next
    case False
    with 1 show ?thesis by (auto simp: FormatUint_step intro: exI[of _ "n mod 10"])
  qed
qed

lemma parse_digits_append:
  "parse_digits M n (s @ t) =
     (case parse_digits M n s of Inl e \<Rightarrow> Inl e | Inr m \<Rightarrow> parse_digits M m t)"
  by (induction s arbitrary: n) (auto split: option.split)

lemma parse_digits_FormatUint: "n \<le> M \<Longrightarrow> parse_digits M 0 (FormatUint n) = Inr n"
proof (induction n rule: FormatUint.induct)
  case (1 n)
  show ?case
  proof (cases "n < 10")
    case True
    with "1.prems" show ?thesis by (simp add: FormatUint_small)
  next
    case False
    with 1 have "parse_digits M 0 (FormatUint (n div 10)) = Inr (n div 10)"
      by (simp add: div_le_dividend order.trans)
    moreover have "n div 10 * 10 + n mod 10 = n" by simp
    ultimately show ?thesis
      using False "1.prems" by (simp add: FormatUint_step parse_digits_append)
  qed
qed

lemma ParseUint_FormatUint: "n < 2 ^ bits \<Longrightarrow> ParseUint (FormatUint n) bits = Inr n"
  by (simp add: ParseUint_def parse_digits_FormatUint)

lemma parse_digits_bound: "parse_digits M n s = Inr m \<Longrightarrow> n \<le> M \<Longrightarrow> m \<le> M"
  by (induction M n s rule: parse_digits.induct) (auto split: option.splits if_splits)

lemma ParseUint_bound: "ParseUint s bits = Inr n \<Longrightarrow> n < 2 ^ bits"
proof -
  assume "ParseUint s bits = Inr n"
  then have "n \<le> 2 ^ bits - 1"
    by (auto simp: ParseUint_def split: if_splits dest: parse_digits_bound)
  moreover have "(0::nat) < 2 ^ bits" by simp
  ultimately show ?thesis by linarith
qed

lemma FormatUint_inj: "FormatUint m = FormatUint n \<Longrightarrow> m = n"
proof -
  assume eq: "FormatUint m = FormatUint n"
  have "parse_digits (max m n) 0 (FormatUint m) = Inr m"
    by (rule parse_digits_FormatUint) simp
  moreover have "parse_digits (max m n) 0 (FormatUint n) = Inr n"
    by (rule parse_digits_FormatUint) simp
  ultimately show ?thesis unfolding eq by simp
qed

subsection \<open>64-bit arithmetic\<close>

lemma int64_id: "in_int64 x \<Longrightarrow> int64 x = x"
  by (simp add: int64_def in_int64_def)

lemma int64_in_range: "in_int64 (int64 x)"
  by (simp add: int64_def in_int64_def)

lemma int64_sint: "sint (word_of_int x :: 64 word) = int64 x"
proof -
  have "sint (word_of_int x :: 64 word) = signed_take_bit 63 x"
    by (simp add: signed_of_int)
  also have "\<dots> = int64 x"
    by (simp add: int64_def signed_take_bit_eq_take_bit_shift take_bit_eq_mod)
  finally show ?thesis .
qed

lemma go_div_nonneg: "0 \<le> a \<Longrightarrow> 0 < b \<Longrightarrow> go_div a b = a div b"
  by (cases "a = 0") (simp_all add: go_div_def)

text \<open>Decimal numerals contain no sign but a leading one.\<close>

lemma digit_char_not_minus: "d < 10 \<Longrightarrow> digit_char d \<noteq> CHR ''-''"
  by (auto simp: digit_char_def dest!: arg_cong[where f = "of_char :: char \<Rightarrow> nat"])

lemma FormatUint_no_minus: "CHR ''-'' \<notin> set (FormatUint n)"
  using FormatUint_digits digit_char_not_minus by metis

lemma split_at_last:
  fixes a b :: string
  assumes "a @ c # b = a' @ c # b'" and "c \<notin> set b" and "c \<notin> set b'"
  shows "a = a' \<and> b = b'"
proof -
  have "length a = length a'"
    using LastIndexByte_append[OF assms(2), of a] LastIndexByte_append[OF assms(3), of a'] assms(1)
    by simp
  with assms(1) show ?thesis by simp
qed

lemma FormatInt_inj [simp]: "FormatInt a = FormatInt b \<longleftrightarrow> a = b"
proof
  assume eq: "FormatInt a = FormatInt b"
  have "FormatUint n \<noteq> CHR ''-'' # x" for n x
    using FormatUint_no_minus[of n] by auto
  then have "(a < 0 \<longleftrightarrow> b < 0) \<and> FormatUint (nat \<bar>a\<bar>) = FormatUint (nat \<bar>b\<bar>)"
    using eq by (auto simp: FormatInt_def split: if_splits) (metis list.distinct(1))+
  then show "a = b" using FormatUint_inj[of "nat \<bar>a\<bar>" "nat \<bar>b\<bar>"] by auto
qed simp

lemma FormatUint_hd: "hd (FormatUint n) \<noteq> CHR ''+''" "hd (FormatUint n) \<noteq> CHR ''-''"
proof -
  have "hd (FormatUint n) \<in> set (FormatUint n)" by simp
  then obtain d where "d < 10" "hd (FormatUint n) = digit_char d" using FormatUint_digits by blast
  then show "hd (FormatUint n) \<noteq> CHR ''+''" "hd (FormatUint n) \<noteq> CHR ''-''"
    using digit_char_not_minus by (auto simp: digit_char_def dest!: arg_cong[where f = "of_char :: char \<Rightarrow> nat"])
qed

lemma ParseInt_FormatInt:
  assumes "in_int64 i"
  shows "ParseInt (FormatInt i) 64 = Inr i"
proof -
  have n: "nat \<bar>i\<bar> < 2 ^ 64" using assms by (auto simp: in_int64_def nat_less_iff)
  have u: "ParseUint (FormatUint (nat \<bar>i\<bar>)) 64 = Inr (nat \<bar>i\<bar>)" by (rule ParseUint_FormatUint[OF n])
  show ?thesis
  proof (cases "i < 0")
    case True
    then have f: "FormatInt i = CHR ''-'' # FormatUint (nat \<bar>i\<bar>)" by (simp add: FormatInt_def)
    have "\<not> 2 ^ 63 < nat \<bar>i\<bar>" using assms by (auto simp: in_int64_def zless_nat_eq_int_zless)
    with True f u show ?thesis by (simp add: ParseInt_def Let_def)
  next
    case False
    then have f: "FormatInt i = FormatUint (nat \<bar>i\<bar>)" by (simp add: FormatInt_def)
    have "\<not> 2 ^ 63 \<le> nat \<bar>i\<bar>" using assms False by (auto simp: in_int64_def le_nat_iff)
    with False f u FormatUint_hd[of "nat \<bar>i\<bar>"] show ?thesis by (simp add: ParseInt_def Let_def)
  qed
qed

end
