(* ===== verification/Datax_Errors.thy ===== *)
theory Datax_Errors
  imports Go_Prelude
begin

text \<open>
  The error values of the repository as one datatype, and package \<open>model/datax\<close>
  (\<open>error.go\<close>) over it: constructors, the classification of errors by code, retryability
  and attached data. The datatype has one constructor per error struct of \<open>datax\<close>,
  \<open>httpx/error.go\<close>, \<open>httpx/httpx.go\<close> and \<open>resource/errors.go\<close>; \<open>WrapError\<close> is
  \<open>fmt.Errorf\<close> with one \<open>%w\<close>; \<open>OpaqueError\<close>, \<open>NetError\<close> and \<open>UrlError\<close> are the
  errors the standard library and the drivers hand in. A Go value of type \<open>error\<close> that
  may be nil is a \<^typ>\<open>'a option\<close>. \<open>errors.As\<close> and \<open>errors.Is\<close> of the standard library
  follow the chain of \<open>Unwrap\<close> methods.
\<close>

section \<open>Error values\<close>

text \<open>
  \<open>resource.Identifier\<close>, which \<open>resource.OpenError\<close> carries. Its Go map \<open>Params\<close> is an
  association list, the first entry of a key counting.
\<close>

record Identifier =
  Raw :: string
  Params :: "(string \<times> string) list"
  SourceURI :: string
  Scheme :: string
  AuthID :: string
  MediaType :: string

text \<open>An \<open>interface{}\<close> payload, by its \<open>%+v\<close> rendering; \<open>NoData\<close> is nil.\<close>

datatype go_data = NoData | Data string

record validate_err_item =
  ParamName :: string
  Reason :: string
  Detail :: go_data

datatype go_error =
    OpaqueError string
  | NetError string
  | UrlError string string go_error
  | CtxCanceled
  | CtxDeadlineExceeded
  | WrapError string go_error string
  | BaseError int string "go_error option"
  | ErrWrapper int string go_data
  | ErrHttp int string "go_error option" int string
  | ErrCall string string string "go_error option"
  | RetryableError "go_error option"
  | ExtraDataError "go_error option" go_data
  | ValidationError int string "go_error option" "validate_err_item list"
  | ResourceError int string "go_error option" string
  | InternalError int string "go_error option"
  | UpstreamError "go_error option" string string string
  | HTTPStatusError int "int list" string "go_error option" "go_error option"
  | CallError string string string int go_error
  | WrapperError int string int string string go_data
  | ParseError string go_error
  | OpenError Identifier go_error
  | DownloadError string go_error
  | UploadError string go_error

type_synonym 'a result = "go_error + 'a"

section \<open>Rendering: the Error methods\<close>

text \<open>Each takes the rendering of its cause, so that \<open>Error\<close> below is one recursion.\<close>

definition opt_str :: "string option \<Rightarrow> string" where
  "opt_str v = (case v of None \<Rightarrow> ''%!s(<nil>)'' | Some s \<Rightarrow> s)"

definition BaseError_Error :: "int \<Rightarrow> string \<Rightarrow> string option \<Rightarrow> string" where
  "BaseError_Error code msg cause =
     (case cause of
        Some c \<Rightarrow> if msg \<noteq> [] then msg @ '': '' @ c else c
      | None \<Rightarrow> if msg \<noteq> [] then msg else ''error code '' @ FormatInt code)"

definition ErrWrapper_Error :: "int \<Rightarrow> string \<Rightarrow> go_data \<Rightarrow> string" where
  "ErrWrapper_Error code msg data =
     (case data of
        Data d \<Rightarrow> ''wrapper validate failed, code: ['' @ FormatInt code @ ''], msg : ['' @ msg
                    @ ''], data: ['' @ d @ '']''
      | NoData \<Rightarrow> ''wrapper validate failed, code: ['' @ FormatInt code @ ''], msg : ['' @ msg @ '']'')"

definition ErrHttp_Error :: "int \<Rightarrow> string \<Rightarrow> string" where
  "ErrHttp_Error status body =
     (if body = [] then ''http validate failed, status: ['' @ FormatInt status @ '']''
      else ''http validate failed, status: ['' @ FormatInt status @ ''], body : ['' @ body @ '']'')"

definition ErrCall_Error :: "string \<Rightarrow> string \<Rightarrow> string \<Rightarrow> string option \<Rightarrow> string" where
  "ErrCall_Error url reqid method src =
     method @ '' ['' @ url @ ''] failed, reqid:['' @ reqid @ ''], source err: ['' @ opt_str src @ '']''"

definition RetryableError_Error :: "string option \<Rightarrow> string" where
  "RetryableError_Error cause = (case cause of Some c \<Rightarrow> c | None \<Rightarrow> ''retryable error'')"

definition ExtraDataError_Error :: "string option \<Rightarrow> string" where
  "ExtraDataError_Error cause = (case cause of Some c \<Rightarrow> c | None \<Rightarrow> ''error with extra data'')"

definition UpstreamError_Error :: "string option \<Rightarrow> string \<Rightarrow> string \<Rightarrow> string" where
  "UpstreamError_Error cause target operation =
     (let message = ''upstream call failed'';
          message = (if operation \<noteq> [] \<and> target \<noteq> [] then message @ '': '' @ operation @ '' '' @ target
                     else if target \<noteq> [] then message @ '': '' @ target
                     else if operation \<noteq> [] then message @ '': '' @ operation
                     else message)
      in case cause of Some c \<Rightarrow> message @ '': '' @ c | None \<Rightarrow> message)"

definition fmt_ints :: "int list \<Rightarrow> string" where
  "fmt_ints xs = ''['' @ Join (map FormatInt xs) '' '' @ '']''"

definition HTTPStatusError_Error ::
    "int \<Rightarrow> int list \<Rightarrow> string \<Rightarrow> string option \<Rightarrow> string option \<Rightarrow> string" where
  "HTTPStatusError_Error status expected body readErr cause =
     (let front = ''http status '' @ FormatInt status @ '' is not expected('' @ fmt_ints expected @ '')'' in
      case readErr of
        Some r \<Rightarrow> front @ '', read body failed: '' @ r
      | None \<Rightarrow> (case cause of
            Some c \<Rightarrow> front @ '': '' @ c
          | None \<Rightarrow> front @ '', body: '' @ body))"

definition CallError_Error :: "string \<Rightarrow> string \<Rightarrow> string \<Rightarrow> int \<Rightarrow> string \<Rightarrow> string" where
  "CallError_Error method url reqid status err =
     (if status \<noteq> 0
      then ''httpx call '' @ method @ '' '' @ url @ '' request_id='' @ reqid @ '' status_code=''
             @ FormatInt status @ '' failed: '' @ err
      else ''httpx call '' @ method @ '' '' @ url @ '' request_id='' @ reqid @ '' failed: '' @ err)"

definition WrapperError_Error :: "int \<Rightarrow> string \<Rightarrow> string \<Rightarrow> string" where
  "WrapperError_Error code msg reqid =
     (if reqid \<noteq> []
      then ''httpx wrapper validate failed code='' @ FormatInt code @ '' request_id='' @ reqid @ '': '' @ msg
      else ''httpx wrapper validate failed code='' @ FormatInt code @ '': '' @ msg)"

fun Error :: "go_error \<Rightarrow> string" where
  "Error (OpaqueError s) = s"
| "Error (NetError s) = s"
| "Error (UrlError op url e) = op @ '' \"'' @ url @ ''\": '' @ Error e"
| "Error CtxCanceled = ''context canceled''"
| "Error CtxDeadlineExceeded = ''context deadline exceeded''"
| "Error (WrapError pre e post) = pre @ Error e @ post"
| "Error (BaseError code msg c) = BaseError_Error code msg (map_option Error c)"
| "Error (ErrWrapper code msg d) = ErrWrapper_Error code msg d"
| "Error (ErrHttp code msg c status body) = ErrHttp_Error status body"
| "Error (ErrCall url reqid method src) = ErrCall_Error url reqid method (map_option Error src)"
| "Error (RetryableError c) = RetryableError_Error (map_option Error c)"
| "Error (ExtraDataError c d) = ExtraDataError_Error (map_option Error c)"
| "Error (ValidationError code msg c items) = BaseError_Error code msg (map_option Error c)"
| "Error (ResourceError code msg c res) = BaseError_Error code msg (map_option Error c)"
| "Error (InternalError code msg c) = BaseError_Error code msg (map_option Error c)"
| "Error (UpstreamError c target operation reqid) =
     UpstreamError_Error (map_option Error c) target operation"
| "Error (HTTPStatusError status expected body readErr c) =
     HTTPStatusError_Error status expected body (map_option Error readErr) (map_option Error c)"
| "Error (CallError method url reqid status e) = CallError_Error method url reqid status (Error e)"
| "Error (WrapperError bcode bmsg code msg reqid d) = WrapperError_Error code msg reqid"
| "Error (ParseError raw e) = ''resource parse failed: '' @ Error e"
| "Error (OpenError ident e) = ''resource open scheme='' @ Scheme ident @ '' failed: '' @ Error e"
| "Error (DownloadError dst e) = ''resource download dst='' @ dst @ '' failed: '' @ Error e"
| "Error (UploadError sch e) = ''resource upload scheme='' @ sch @ '' failed: '' @ Error e"

section \<open>The error chain: Unwrap, errors.As, errors.Is\<close>

fun Unwrap :: "go_error \<Rightarrow> go_error option" where
  "Unwrap (UrlError op url e) = Some e"
| "Unwrap (WrapError pre e post) = Some e"
| "Unwrap (BaseError code msg c) = c"
| "Unwrap (ErrHttp code msg c status body) = c"
| "Unwrap (ErrCall url reqid method src) = src"
| "Unwrap (RetryableError c) = c"
| "Unwrap (ExtraDataError c d) = c"
| "Unwrap (ValidationError code msg c items) = c"
| "Unwrap (ResourceError code msg c res) = c"
| "Unwrap (InternalError code msg c) = c"
| "Unwrap (UpstreamError c target operation reqid) = c"
| "Unwrap (HTTPStatusError status expected body readErr c) = c"
| "Unwrap (CallError method url reqid status e) = Some e"
| "Unwrap (ParseError raw e) = Some e"
| "Unwrap (OpenError ident e) = Some e"
| "Unwrap (DownloadError dst e) = Some e"
| "Unwrap (UploadError sch e) = Some e"
| "Unwrap _ = None"

lemma Unwrap_size: "Unwrap e = Some c \<Longrightarrow> size c < size e"
  by (cases e) auto

text \<open>\<open>errors.As\<close>: the first error of the chain that has the target's type.\<close>

function errors_As :: "(go_error \<Rightarrow> bool) \<Rightarrow> go_error \<Rightarrow> go_error option" where
  "errors_As has_type e =
     (if has_type e then Some e
      else (case Unwrap e of None \<Rightarrow> None | Some c \<Rightarrow> errors_As has_type c))"
  by pat_completeness auto
termination
  by (relation "measure (\<lambda>(t, e). size e)") (auto dest: Unwrap_size)

declare errors_As.simps [simp del]

text \<open>The \<open>ErrorCode\<close> method; \<open>None\<close> for the types that are no \<open>CodedError\<close>.\<close>

fun ErrorCode :: "go_error \<Rightarrow> int option" where
  "ErrorCode (BaseError code msg c) = Some code"
| "ErrorCode (ErrWrapper code msg d) = Some code"
| "ErrorCode (ErrHttp code msg c status body) = Some code"
| "ErrorCode (ValidationError code msg c items) = Some code"
| "ErrorCode (ResourceError code msg c res) = Some code"
| "ErrorCode (InternalError code msg c) = Some code"
| "ErrorCode (WrapperError bcode bmsg code msg reqid d) = Some bcode"
| "ErrorCode _ = None"

definition is_coded :: "go_error \<Rightarrow> bool" where
  "is_coded e \<longleftrightarrow> ErrorCode e \<noteq> None"

text \<open>The code of the first \<open>CodedError\<close> that \<open>errors.As\<close> finds.\<close>

definition as_code :: "go_error \<Rightarrow> int option" where
  "as_code e = Option.bind (errors_As is_coded e) ErrorCode"

text \<open>\<open>(*BaseError).Is\<close>, also promoted to every struct that embeds \<open>BaseError\<close>.\<close>

definition BaseError_Is :: "int \<Rightarrow> go_error option \<Rightarrow> bool" where
  "BaseError_Is code target =
     (case target of
        None \<Rightarrow> False
      | Some t \<Rightarrow> code \<noteq> 0 \<and> as_code t = Some code)"

fun Is_method :: "go_error \<Rightarrow> go_error \<Rightarrow> bool" where
  "Is_method (BaseError code msg c) t = BaseError_Is code (Some t)"
| "Is_method (ErrHttp code msg c status body) t = BaseError_Is code (Some t)"
| "Is_method (ValidationError code msg c items) t = BaseError_Is code (Some t)"
| "Is_method (ResourceError code msg c res) t = BaseError_Is code (Some t)"
| "Is_method (InternalError code msg c) t = BaseError_Is code (Some t)"
| "Is_method (WrapperError bcode bmsg code msg reqid d) t = BaseError_Is bcode (Some t)"
| "Is_method _ t = False"

text \<open>\<open>errors.Is\<close>; \<open>same\<close> is Go's \<open>==\<close> on error values, which compares pointers.\<close>

function errors_Is :: "(go_error \<Rightarrow> go_error \<Rightarrow> bool) \<Rightarrow> go_error \<Rightarrow> go_error \<Rightarrow> bool" where
  "errors_Is same e target =
     (if same e target \<or> Is_method e target then True
      else (case Unwrap e of None \<Rightarrow> False | Some c \<Rightarrow> errors_Is same c target))"
  by pat_completeness auto
termination
  by (relation "measure (\<lambda>(s, e, t). size e)") (auto dest: Unwrap_size)

declare errors_Is.simps [simp del]

section \<open>Package datax\<close>

abbreviation (input) ErrCodeUnexpected :: int where "ErrCodeUnexpected \<equiv> 10000"
abbreviation (input) ErrCodeExpected :: int where "ErrCodeExpected \<equiv> 20000"
abbreviation (input) ErrCodeValidate :: int where "ErrCodeValidate \<equiv> 20001"
abbreviation (input) ErrCodeNotFound :: int where "ErrCodeNotFound \<equiv> 20002"
abbreviation (input) ErrCodeConflict :: int where "ErrCodeConflict \<equiv> 20003"

definition ErrNotFound :: go_error where
  "ErrNotFound = BaseError ErrCodeNotFound ''data not found'' None"

definition ErrConflict :: go_error where
  "ErrConflict = BaseError ErrCodeConflict ''data is existed or has be updated'' None"

definition NewError :: "int \<Rightarrow> string \<Rightarrow> go_error option \<Rightarrow> go_error" where
  "NewError code message cause = BaseError code message cause"

definition NewErrHttp :: "int \<Rightarrow> string \<Rightarrow> go_error" where
  "NewErrHttp statusCode body =
     ErrHttp ErrCodeUnexpected ''http validate failed'' None statusCode body"

definition WithRetryableError :: "go_error option \<Rightarrow> go_error option" where
  "WithRetryableError err =
     (case err of None \<Rightarrow> None | Some e \<Rightarrow> Some (RetryableError (Some e)))"

fun is_RetryableError :: "go_error \<Rightarrow> bool" where
  "is_RetryableError (RetryableError c) = True"
| "is_RetryableError _ = False"

definition IsRetryableError :: "go_error option \<Rightarrow> bool" where
  "IsRetryableError err =
     (case err of None \<Rightarrow> False | Some e \<Rightarrow> errors_As is_RetryableError e \<noteq> None)"

definition WithErrorData :: "go_error option \<Rightarrow> go_data \<Rightarrow> go_error option" where
  "WithErrorData err data =
     (case err of None \<Rightarrow> None | Some e \<Rightarrow> Some (ExtraDataError (Some e) data))"

fun extra_data :: "go_error \<Rightarrow> go_data option" where
  "extra_data (ExtraDataError c d) = Some d"
| "extra_data _ = None"

definition ErrorData :: "go_error option \<Rightarrow> go_data" where
  "ErrorData err =
     (case err of
        None \<Rightarrow> NoData
      | Some e \<Rightarrow>
          (case Option.bind (errors_As (\<lambda>x. extra_data x \<noteq> None) e) extra_data of
             Some d \<Rightarrow> d
           | None \<Rightarrow> NoData))"

definition NewValidationError ::
    "string \<Rightarrow> validate_err_item list \<Rightarrow> go_error option \<Rightarrow> go_error" where
  "NewValidationError message items cause =
     ValidationError ErrCodeValidate
       (if message = [] then ''validation failed'' else message) cause items"

definition NewResourceError :: "int \<Rightarrow> string \<Rightarrow> string \<Rightarrow> go_error option \<Rightarrow> go_error" where
  "NewResourceError code message resource cause =
     (let code = (if code = 0 then ErrCodeExpected else code);
          message = (if message = [] then ''resource error'' else message);
          message = (if resource \<noteq> [] then message @ '': '' @ resource else message)
      in ResourceError code message cause resource)"

definition NewResourceNotFoundError :: "string \<Rightarrow> go_error option \<Rightarrow> go_error" where
  "NewResourceNotFoundError resource cause =
     NewResourceError ErrCodeNotFound ''resource not found'' resource cause"

definition NewResourceConflictError :: "string \<Rightarrow> go_error option \<Rightarrow> go_error" where
  "NewResourceConflictError resource cause =
     NewResourceError ErrCodeConflict ''resource conflict'' resource cause"

definition NewInternalFailure :: "string \<Rightarrow> go_error option \<Rightarrow> go_error" where
  "NewInternalFailure message cause =
     InternalError ErrCodeUnexpected (if message = [] then ''internal error'' else message) cause"

definition NewUpstreamError :: "string \<Rightarrow> string \<Rightarrow> string \<Rightarrow> go_error option \<Rightarrow> go_error" where
  "NewUpstreamError target operation requestID cause =
     UpstreamError cause target operation requestID"

definition NewNotFoundError :: "string \<Rightarrow> go_error" where
  "NewNotFoundError msg =
     (if msg = [] then ErrNotFound else BaseError ErrCodeNotFound msg None)"

definition NewConflictError :: "string \<Rightarrow> go_error" where
  "NewConflictError msg =
     (if msg = [] then ErrConflict else BaseError ErrCodeConflict msg None)"

definition NewInternalError :: "string \<Rightarrow> go_error" where
  "NewInternalError msg =
     InternalError ErrCodeUnexpected (if msg = [] then ''internal server error'' else msg) None"

definition NewValidateError :: "string \<Rightarrow> validate_err_item list \<Rightarrow> go_error" where
  "NewValidateError msg items = NewValidationError msg items None"

definition CodeOf :: "go_error option \<Rightarrow> int" where
  "CodeOf err =
     (case err of
        None \<Rightarrow> 0
      | Some e \<Rightarrow>
          (case as_code e of
             Some code \<Rightarrow> if code \<noteq> 0 then code else ErrCodeUnexpected
           | None \<Rightarrow> ErrCodeUnexpected))"

definition IsErrCode :: "int \<Rightarrow> go_error option \<Rightarrow> bool" where
  "IsErrCode code err \<longleftrightarrow> err \<noteq> None \<and> CodeOf err = code"

definition IsExpected :: "go_error option \<Rightarrow> bool" where
  "IsExpected err \<longleftrightarrow> CodeOf err \<ge> ErrCodeExpected"

definition IsUnexpected :: "go_error option \<Rightarrow> bool" where
  "IsUnexpected err \<longleftrightarrow> err \<noteq> None \<and> \<not> IsExpected err"

lemmas datax_defs =
  NewError_def NewErrHttp_def WithRetryableError_def IsRetryableError_def WithErrorData_def
  ErrorData_def NewValidationError_def NewResourceError_def NewResourceNotFoundError_def
  NewResourceConflictError_def NewInternalFailure_def NewUpstreamError_def NewNotFoundError_def
  NewConflictError_def NewInternalError_def NewValidateError_def ErrNotFound_def ErrConflict_def

declare datax_defs [go_defs]

section \<open>Sentinel errors of the packages built on datax\<close>

text \<open>\<open>dkit/errors.go\<close>.\<close>

definition ErrInvalidOption :: go_error where
  "ErrInvalidOption = NewError 20100 ''dkit: invalid option'' None"

definition ErrLockNotAcquired :: go_error where
  "ErrLockNotAcquired = NewError 20101 ''dkit: lock not acquired'' None"

definition ErrAlreadyUnlocked :: go_error where
  "ErrAlreadyUnlocked = NewError 20102 ''dkit: already unlocked'' None"

definition ErrElectionNotEnabled :: go_error where
  "ErrElectionNotEnabled = NewError 20103 ''dkit: election not enabled'' None"

definition ErrNoAvailableNumber :: go_error where
  "ErrNoAvailableNumber = NewError 20104 ''dkit: no available number'' None"

definition ErrBackendUnavailable :: go_error where
  "ErrBackendUnavailable = NewError 10100 ''dkit: backend unavailable'' None"

definition ErrDefaultKitNotConfigured :: go_error where
  "ErrDefaultKitNotConfigured = NewError 10101 ''dkit: default kit not configured'' None"

text \<open>\<open>httpx/error.go\<close>.\<close>

definition ErrTimeoutBudgetExhausted :: go_error where
  "ErrTimeoutBudgetExhausted = NewError 10110 ''httpx: timeout budget exhausted'' None"

definition ErrNoHealthyInstance :: go_error where
  "ErrNoHealthyInstance = NewError 10111 ''httpx: no healthy service instance'' None"

definition ErrServiceDiscoveryDisabled :: go_error where
  "ErrServiceDiscoveryDisabled = NewError 20110 ''httpx: service discovery is disabled'' None"

text \<open>\<open>resource/errors.go\<close>.\<close>

definition ErrUnsupportedScheme :: go_error where
  "ErrUnsupportedScheme = NewError 20200 ''resource: unsupported scheme'' None"

definition ErrOpenUnsupported :: go_error where
  "ErrOpenUnsupported = NewError 20201 ''resource: open unsupported'' None"

definition ErrUploadUnsupported :: go_error where
  "ErrUploadUnsupported = NewError 20202 ''resource: upload unsupported'' None"

definition ErrSizeLimitExceeded :: go_error where
  "ErrSizeLimitExceeded = NewError 20203 ''resource: size limit exceeded'' None"

definition ErrResourceTimeoutBudgetExhausted :: go_error where
  "ErrResourceTimeoutBudgetExhausted = NewError 10120 ''resource: timeout budget exhausted'' None"

lemmas sentinel_defs =
  ErrInvalidOption_def ErrLockNotAcquired_def ErrAlreadyUnlocked_def ErrElectionNotEnabled_def
  ErrNoAvailableNumber_def ErrBackendUnavailable_def ErrDefaultKitNotConfigured_def
  ErrTimeoutBudgetExhausted_def ErrNoHealthyInstance_def ErrServiceDiscoveryDisabled_def
  ErrUnsupportedScheme_def ErrOpenUnsupported_def ErrUploadUnsupported_def
  ErrSizeLimitExceeded_def ErrResourceTimeoutBudgetExhausted_def

section \<open>Lemmas on chains\<close>

text \<open>The chain of an error: itself and everything \<open>Unwrap\<close> reaches.\<close>

inductive in_chain :: "go_error \<Rightarrow> go_error \<Rightarrow> bool" where
  here: "in_chain e e"
| there: "Unwrap e = Some c \<Longrightarrow> in_chain c x \<Longrightarrow> in_chain e x"

inductive_cases in_chainE: "in_chain e x"

lemma errors_As_here [simp]: "P e \<Longrightarrow> errors_As P e = Some e"
  by (subst errors_As.simps) simp

lemma errors_As_skip: "\<not> P e \<Longrightarrow> Unwrap e = Some c \<Longrightarrow> errors_As P e = errors_As P c"
  by (subst errors_As.simps) simp

lemma errors_As_end: "\<not> P e \<Longrightarrow> Unwrap e = None \<Longrightarrow> errors_As P e = None"
  by (subst errors_As.simps) simp

lemma errors_As_Some: "errors_As P e = Some x \<Longrightarrow> in_chain e x \<and> P x"
proof (induction P e rule: errors_As.induct)
  case (1 P e)
  show ?case
  proof (cases "P e")
    case True
    with "1.prems" show ?thesis by (auto intro: in_chain.here)
  next
    case False
    with "1.prems" obtain c where "Unwrap e = Some c" "errors_As P c = Some x"
      by (subst (asm) errors_As.simps) (auto split: option.splits)
    with False "1.IH" show ?thesis by (auto intro: in_chain.there)
  qed
qed

lemma errors_As_None: "errors_As P e = None \<longleftrightarrow> (\<forall>x. in_chain e x \<longrightarrow> \<not> P x)"
proof (induction P e rule: errors_As.induct)
  case (1 P e)
  show ?case
  proof (cases "P e")
    case True
    then show ?thesis by (auto intro: in_chain.here)
  next
    case False
    show ?thesis
    proof (cases "Unwrap e")
      case None
      with False show ?thesis by (auto simp: errors_As_end elim: in_chainE)
    next
      case (Some c)
      with False "1.IH" have "errors_As P c = None \<longleftrightarrow> (\<forall>x. in_chain c x \<longrightarrow> \<not> P x)" by simp
      with False Some show ?thesis
        by (auto simp: errors_As_skip intro: in_chain.there elim: in_chainE)
    qed
  qed
qed

lemma as_code_here: "ErrorCode e = Some code \<Longrightarrow> as_code e = Some code"
  by (simp add: as_code_def is_coded_def)

lemma as_code_skip: "ErrorCode e = None \<Longrightarrow> Unwrap e = Some c \<Longrightarrow> as_code e = as_code c"
  by (simp add: as_code_def is_coded_def errors_As_skip)

lemma as_code_end: "ErrorCode e = None \<Longrightarrow> Unwrap e = None \<Longrightarrow> as_code e = None"
  by (simp add: as_code_def is_coded_def errors_As_end)

lemmas as_code_rules = as_code_here as_code_skip as_code_end

lemma CodeOf_skip:
  "ErrorCode e = None \<Longrightarrow> Unwrap e = Some c \<Longrightarrow> CodeOf (Some e) = CodeOf (Some c)"
  by (simp add: CodeOf_def as_code_skip)

lemma CodeOf_here: "ErrorCode e = Some code \<Longrightarrow> code \<noteq> 0 \<Longrightarrow> CodeOf (Some e) = code"
  by (simp add: CodeOf_def as_code_here)

lemma CodeOf_WrapError [simp]: "CodeOf (Some (WrapError p e q)) = CodeOf (Some e)"
  by (rule CodeOf_skip) simp_all

lemma IsRetryableError_iff:
  "IsRetryableError (Some e) \<longleftrightarrow> (\<exists>x. in_chain e x \<and> is_RetryableError x)"
  using errors_As_None[of is_RetryableError e] by (auto simp: IsRetryableError_def)

lemma IsRetryableError_skip:
  "\<not> is_RetryableError e \<Longrightarrow> Unwrap e = Some c \<Longrightarrow>
     IsRetryableError (Some e) = IsRetryableError (Some c)"
  by (simp add: IsRetryableError_def errors_As_skip)

lemma IsRetryableError_layer:
  "Unwrap e = Some c \<Longrightarrow>
     IsRetryableError (Some e) = (is_RetryableError e \<or> IsRetryableError (Some c))"
  by (cases "is_RetryableError e") (simp_all add: IsRetryableError_skip, simp add: IsRetryableError_def)

lemma errors_Is_in_chain: "in_chain e x \<Longrightarrow> Is_method x t \<or> same x t \<Longrightarrow> errors_Is same e t"
proof (induction rule: in_chain.induct)
  case (here e)
  then show ?case by (subst errors_Is.simps) auto
next
  case (there e c x)
  then show ?case by (subst errors_Is.simps) auto
qed

lemma errors_Is_self: "same e e \<Longrightarrow> errors_Is same e e"
  by (subst errors_Is.simps) simp

lemma errors_Is_WrapError [simp]: "same e e \<Longrightarrow> errors_Is same (WrapError a e b) e"
  by (subst errors_Is.simps) (simp add: errors_Is_self)

lemma errors_Is_chain: "errors_Is same e t \<Longrightarrow> \<exists>x. in_chain e x \<and> (Is_method x t \<or> same x t)"
proof (induction same e t rule: errors_Is.induct)
  case (1 same e t)
  show ?case
  proof (cases "same e t \<or> Is_method e t")
    case True
    then show ?thesis by (auto intro: in_chain.here)
  next
    case False
    with "1.prems" obtain c where "Unwrap e = Some c" "errors_Is same c t"
      by (subst (asm) errors_Is.simps) (auto split: option.splits)
    with False "1.IH" show ?thesis by (blast intro: in_chain.there)
  qed
qed

text \<open>The error types that carry the \<open>Is\<close> method, with the code it compares.\<close>

fun base_code :: "go_error \<Rightarrow> int option" where
  "base_code (ErrWrapper code msg d) = None"
| "base_code e = ErrorCode e"

lemma Is_method_iff: "Is_method e t \<longleftrightarrow> (\<exists>code. base_code e = Some code \<and> BaseError_Is code (Some t))"
  by (cases e) auto

section \<open>Properties\<close>

text \<open>
  \<open>errors.Is\<close> over this repository's errors: an error is (by \<open>errors.Is\<close>) a target
  exactly when its chain holds the target itself or an error that embeds \<open>BaseError\<close> with a
  non-zero code equal to the first code of the target's own chain. In particular a sentinel
  is recognised through any number of wrapping layers.
\<close>

theorem errors_Is_characterisation:
  "errors_Is same e t \<longleftrightarrow>
     (\<exists>x. in_chain e x \<and>
        (same x t \<or> (\<exists>code. code \<noteq> 0 \<and> base_code x = Some code \<and> as_code t = Some code)))"
  (is "?lhs \<longleftrightarrow> ?rhs")
proof
  assume ?lhs
  then show ?rhs by (fastforce dest: errors_Is_chain simp: Is_method_iff BaseError_Is_def)
next
  assume ?rhs
  then show ?lhs by (auto simp: Is_method_iff BaseError_Is_def intro: errors_Is_in_chain)
qed

text \<open>
  A layer that carries no code of its own (a \<open>fmt.Errorf\<close> wrap, a retry mark, attached
  data, an upstream, call, parse, open, download or upload layer) changes neither the code nor
  the expected/unexpected classification of what it wraps, and, unless it is the retry mark
  itself, not its retryability.
\<close>

theorem codeless_layer_transparent:
  assumes "ErrorCode e = None" and "Unwrap e = Some c"
  shows "CodeOf (Some e) = CodeOf (Some c)
    \<and> IsExpected (Some e) = IsExpected (Some c)
    \<and> IsUnexpected (Some e) = IsUnexpected (Some c)
    \<and> IsRetryableError (Some e) = (is_RetryableError e \<or> IsRetryableError (Some c))"
  using assms by (simp add: CodeOf_skip IsExpected_def IsUnexpected_def IsRetryableError_layer)

theorem codeless_layer_transparent_witness:
  "ErrorCode (WrapError ''find: '' ErrNotFound []) = None
   \<and> Unwrap (WrapError ''find: '' ErrNotFound []) = Some ErrNotFound
   \<and> CodeOf (Some (WrapError ''find: '' ErrNotFound [])) = 20002"
proof -
  have "CodeOf (Some (WrapError ''find: '' ErrNotFound [])) = CodeOf (Some ErrNotFound)"
    using codeless_layer_transparent[of "WrapError ''find: '' ErrNotFound []" ErrNotFound] by simp
  also have "\<dots> = 20002" by (simp add: ErrNotFound_def CodeOf_def as_code_here)
  finally show ?thesis by simp
qed

text \<open>
  A coded error whose code is 0 ends the search: the code of the errors it wraps is not
  found, although the chain holds one.
\<close>

lemma CodeOf_stops_at_zero_code:
  "in_chain (BaseError 0 ''lookup'' (Some ErrNotFound)) ErrNotFound
   \<and> CodeOf (Some ErrNotFound) = 20002
   \<and> CodeOf (Some (BaseError 0 ''lookup'' (Some ErrNotFound))) = 10000"
  by (auto simp: CodeOf_def as_code_here ErrNotFound_def intro: in_chain.intros)

end
