(* ===== verification/Pass_Context.thy ===== *)
theory Pass_Context
  imports Datax_Errors
begin

text \<open>
  \<open>context.Context\<close> of the standard library (values, deadline, cancellation) and package
  \<open>pass\<close> over it (\<open>pass/pass.go\<close>, with the header names of \<open>trace/trace.go\<close>): the trace,
  request, operator, tenant, app and locale values of a request, the key normalisation, and
  the set of \<open>ofa-pass-*\<close> headers that travels to the next hop. A Go pair
  \<open>(value, ok)\<close> is an option. A context value of a type of another package is
  \<open>VOther\<close>, so the type of contexts is parametric in it.
\<close>

section \<open>context.Context\<close>

text \<open>A context key is a value with a dynamic type: two keys are equal when both agree.\<close>

datatype ctx_key = CtxKey (key_type: string) (key_name: string)

datatype 'x ctx_val =
    VString string
  | VTime time
  | VHeaders "string \<rightharpoonup> string"
  | VOther 'x

record 'x ctx =
  ctx_vals :: "ctx_key \<Rightarrow> 'x ctx_val option"
  ctx_deadline :: "time option"
  ctx_cancel :: "go_error option"

definition Background :: "'x ctx" where
  "Background = \<lparr>ctx_vals = Map.empty, ctx_deadline = None, ctx_cancel = None\<rparr>"

definition WithValue :: "'x ctx \<Rightarrow> ctx_key \<Rightarrow> 'x ctx_val \<Rightarrow> 'x ctx" where
  "WithValue ctx k v = ctx\<lparr>ctx_vals := (ctx_vals ctx)(k \<mapsto> v)\<rparr>"

text \<open>\<open>context.WithDeadline\<close>: an earlier deadline of the parent stays in force.\<close>

definition WithDeadline :: "'x ctx \<Rightarrow> time \<Rightarrow> 'x ctx" where
  "WithDeadline ctx d =
     (case ctx_deadline ctx of
        Some cur \<Rightarrow> if cur < d then ctx else ctx\<lparr>ctx_deadline := Some d\<rparr>
      | None \<Rightarrow> ctx\<lparr>ctx_deadline := Some d\<rparr>)"

text \<open>\<open>ctx.Err()\<close> at time \<open>now\<close>: \<open>None\<close> while \<open>Done\<close> is open.\<close>

definition ctx_Err :: "'x ctx \<Rightarrow> time \<Rightarrow> go_error option" where
  "ctx_Err ctx now =
     (case ctx_cancel ctx of
        Some e \<Rightarrow> Some e
      | None \<Rightarrow>
          (case ctx_deadline ctx of
             Some d \<Rightarrow> if d \<le> now then Some CtxDeadlineExceeded else None
           | None \<Rightarrow> None))"

text \<open>The zero \<open>time.Time\<close>, 1 January of year 1, in nanoseconds since the Unix epoch.\<close>

definition zero_time :: time where
  "zero_time = - 62135596800 * Second"

definition IsZero :: "time \<Rightarrow> bool" where
  "IsZero t \<longleftrightarrow> t = zero_time"

section \<open>Keys\<close>

abbreviation (input) KeyTraceID :: string where "KeyTraceID \<equiv> ''ofa-pass-trace-id''"
abbreviation (input) KeyRequestID :: string where "KeyRequestID \<equiv> ''ofa-direct-request-id''"
abbreviation (input) KeyRemainingTimeoutMS :: string where
  "KeyRemainingTimeoutMS \<equiv> ''ofa-direct-remaining-timeout-ms''"
abbreviation (input) KeyRequestDeadline :: string where "KeyRequestDeadline \<equiv> ''ofa-request-deadline''"
abbreviation (input) KeyOperator :: string where "KeyOperator \<equiv> ''ofa-pass-operator''"
abbreviation (input) KeyTenantID :: string where "KeyTenantID \<equiv> ''ofa-pass-tenant-id''"
abbreviation (input) KeyAppID :: string where "KeyAppID \<equiv> ''ofa-pass-app-id''"
abbreviation (input) KeyLocale :: string where "KeyLocale \<equiv> ''ofa-pass-locale''"

definition normalizeKey :: "string \<Rightarrow> string" where
  "normalizeKey key = ReplaceByte (TrimSpace (ToLower key)) CHR ''_'' CHR ''-''"

definition FixedKeyValue :: "string \<Rightarrow> string" where
  "FixedKeyValue key =
     (let key = normalizeKey key in if HasPrefix key ''ofa-'' then key else ''ofa-'' @ key)"

definition FixedKey :: "string \<Rightarrow> string" where
  "FixedKey key =
     (let key = normalizeKey key in
      if HasPrefix key ''ofa-pass-'' then key else ''ofa-pass-'' @ TrimPrefix key ''ofa-'')"

definition FixedKeyDirect :: "string \<Rightarrow> string" where
  "FixedKeyDirect key =
     (let key = normalizeKey key in
      if HasPrefix key ''ofa-direct-'' then key else ''ofa-direct-'' @ TrimPrefix key ''ofa-'')"

text \<open>Keys of type \<open>string\<close>, and the private key of type \<open>contextKey\<close>.\<close>

definition skey :: "string \<Rightarrow> ctx_key" where
  "skey k = CtxKey ''string'' k"

definition passHeadersContextKey :: ctx_key where
  "passHeadersContextKey = CtxKey ''pass.contextKey'' ''ofa_pass_headers''"

section \<open>Reading and writing values\<close>

definition ctx_string :: "'x ctx \<Rightarrow> ctx_key \<Rightarrow> string option" where
  "ctx_string ctx k = (case ctx_vals ctx k of Some (VString s) \<Rightarrow> Some s | _ \<Rightarrow> None)"

definition CtxGetPassVal :: "'x ctx \<Rightarrow> string \<Rightarrow> string option" where
  "CtxGetPassVal ctx key = ctx_string ctx (skey (FixedKey key))"

definition CtxPassHeaders :: "'x ctx \<Rightarrow> (string \<rightharpoonup> string)" where
  "CtxPassHeaders ctx =
     (case ctx_vals ctx passHeadersContextKey of Some (VHeaders h) \<Rightarrow> h | _ \<Rightarrow> Map.empty)"

definition CtxSetPassVal :: "'x ctx \<Rightarrow> string \<Rightarrow> string \<Rightarrow> 'x ctx" where
  "CtxSetPassVal ctx key val =
     (let fixedKey = FixedKey key;
          ctx = WithValue ctx (skey fixedKey) (VString val);
          headers = CtxPassHeaders ctx;
          headers = headers(fixedKey \<mapsto> val)
      in WithValue ctx passHeadersContextKey (VHeaders headers))"

definition CtxGetDirectVal :: "'x ctx \<Rightarrow> string \<Rightarrow> string option" where
  "CtxGetDirectVal ctx key = ctx_string ctx (skey (FixedKeyDirect key))"

definition CtxSetDirectVal :: "'x ctx \<Rightarrow> string \<Rightarrow> string \<Rightarrow> 'x ctx" where
  "CtxSetDirectVal ctx key val = WithValue ctx (skey (FixedKeyDirect key)) (VString val)"

definition CtxGetTraceID :: "'x ctx \<Rightarrow> string option" where
  "CtxGetTraceID ctx = CtxGetPassVal ctx KeyTraceID"

definition CtxSetTraceID :: "'x ctx \<Rightarrow> string \<Rightarrow> 'x ctx" where
  "CtxSetTraceID ctx val = CtxSetPassVal ctx KeyTraceID val"

definition CtxGetRequestID :: "'x ctx \<Rightarrow> string option" where
  "CtxGetRequestID ctx = CtxGetDirectVal ctx KeyRequestID"

definition CtxSetRequestID :: "'x ctx \<Rightarrow> string \<Rightarrow> 'x ctx" where
  "CtxSetRequestID ctx val = CtxSetDirectVal ctx KeyRequestID val"

definition CtxGetRemainingTimeoutMS :: "'x ctx \<Rightarrow> string option" where
  "CtxGetRemainingTimeoutMS ctx = CtxGetDirectVal ctx KeyRemainingTimeoutMS"

definition CtxSetRemainingTimeoutMS :: "'x ctx \<Rightarrow> string \<Rightarrow> 'x ctx" where
  "CtxSetRemainingTimeoutMS ctx val = CtxSetDirectVal ctx KeyRemainingTimeoutMS val"

definition CtxGetRequestDeadline :: "'x ctx \<Rightarrow> time option" where
  "CtxGetRequestDeadline ctx =
     (case ctx_vals ctx (skey (FixedKeyValue KeyRequestDeadline)) of
        Some (VTime t) \<Rightarrow> if IsZero t then None else Some t
      | _ \<Rightarrow> None)"

definition CtxSetRequestDeadline :: "'x ctx \<Rightarrow> time \<Rightarrow> 'x ctx" where
  "CtxSetRequestDeadline ctx val =
     WithValue ctx (skey (FixedKeyValue KeyRequestDeadline)) (VTime val)"

definition CtxGetOperator :: "'x ctx \<Rightarrow> string option" where
  "CtxGetOperator ctx = CtxGetPassVal ctx KeyOperator"

definition CtxSetOperator :: "'x ctx \<Rightarrow> string \<Rightarrow> 'x ctx" where
  "CtxSetOperator ctx val = CtxSetPassVal ctx KeyOperator val"

definition CtxGetTenantID :: "'x ctx \<Rightarrow> string option" where
  "CtxGetTenantID ctx = CtxGetPassVal ctx KeyTenantID"

definition CtxSetTenantID :: "'x ctx \<Rightarrow> string \<Rightarrow> 'x ctx" where
  "CtxSetTenantID ctx val = CtxSetPassVal ctx KeyTenantID val"

definition CtxGetAppID :: "'x ctx \<Rightarrow> string option" where
  "CtxGetAppID ctx = CtxGetPassVal ctx KeyAppID"

definition CtxSetAppID :: "'x ctx \<Rightarrow> string \<Rightarrow> 'x ctx" where
  "CtxSetAppID ctx val = CtxSetPassVal ctx KeyAppID val"

definition CtxGetLocale :: "'x ctx \<Rightarrow> string option" where
  "CtxGetLocale ctx = CtxGetPassVal ctx KeyLocale"

definition CtxSetLocale :: "'x ctx \<Rightarrow> string \<Rightarrow> 'x ctx" where
  "CtxSetLocale ctx val = CtxSetPassVal ctx KeyLocale val"

lemmas ctx_named_defs =
  CtxGetTraceID_def CtxSetTraceID_def CtxGetRequestID_def CtxSetRequestID_def
  CtxGetRemainingTimeoutMS_def CtxSetRemainingTimeoutMS_def
  CtxGetOperator_def CtxSetOperator_def CtxGetTenantID_def CtxSetTenantID_def
  CtxGetAppID_def CtxSetAppID_def CtxGetLocale_def CtxSetLocale_def

section \<open>Key lemmas\<close>

lemma normalizeKey_shape:
  "normalizeKey k = [] \<or> (\<not> is_space (hd (normalizeKey k)) \<and> \<not> is_space (last (normalizeKey k)))"
proof -
  let ?t = "TrimSpace (ToLower k)"
  have ns: "\<not> is_space (if c = CHR ''_'' then CHR ''-'' else c)" if "\<not> is_space c" for c
    using that by (auto simp: is_space_def)
  show ?thesis
  proof (cases "?t = []")
    case False
    then have "hd (normalizeKey k) = (if hd ?t = CHR ''_'' then CHR ''-'' else hd ?t)"
      and "last (normalizeKey k) = (if last ?t = CHR ''_'' then CHR ''-'' else last ?t)"
      by (simp_all add: normalizeKey_def ReplaceByte_def hd_map last_map)
    with False TrimSpace_ends[of "ToLower k"] ns show ?thesis by metis
  qed (simp add: normalizeKey_def ReplaceByte_def)
qed

lemma normalizeKey_lower [simp]: "ToLower (normalizeKey k) = normalizeKey k"
proof -
  have sub: "set (TrimSpace s) \<subseteq> set s" for s
    by (auto simp: TrimSpace_def dest!: set_dropWhileD)
  have "lower_char (if c = CHR ''_'' then CHR ''-'' else c) = (if c = CHR ''_'' then CHR ''-'' else c)"
    if "c \<in> set (TrimSpace (ToLower k))" for c
    using that sub[of "ToLower k"] by (auto simp: ToLower_def lower_char_def Let_def)
  then show ?thesis by (simp add: normalizeKey_def ReplaceByte_def ToLower_def)
qed

lemma normalizeKey_no_underscore: "CHR ''_'' \<notin> set (normalizeKey k)"
  by (auto simp: normalizeKey_def ReplaceByte_def)

text \<open>A string of the shape \<open>normalizeKey\<close> produces is its own normal form.\<close>

lemma normalizeKey_fix:
  assumes "ToLower k = k" and "CHR ''_'' \<notin> set k"
    and "k = [] \<or> (\<not> is_space (hd k) \<and> \<not> is_space (last k))"
  shows "normalizeKey k = k"
proof -
  from assms(2) have "map (\<lambda>c. if c = CHR ''_'' then CHR ''-'' else c) k = k"
    by (intro map_idI) auto
  with assms show ?thesis by (simp add: normalizeKey_def TrimSpace_fix ReplaceByte_def)
qed

lemma normalizeKey_idem [simp]: "normalizeKey (normalizeKey k) = normalizeKey k"
  by (rule normalizeKey_fix) (use normalizeKey_shape normalizeKey_no_underscore in auto)

text \<open>Prefixing a normal key keeps it normal.\<close>

lemma normalizeKey_prefixed:
  assumes "ToLower p = p" "CHR ''_'' \<notin> set p" "p \<noteq> []" "\<not> is_space (hd p)" "\<not> is_space (last p)"
    and "suffix t (normalizeKey k)"
  shows "normalizeKey (p @ t) = p @ t"
proof (rule normalizeKey_fix)
  obtain u where u: "normalizeKey k = u @ t" using assms(6) by (auto simp: suffix_def)
  have "ToLower u @ ToLower t = u @ t" using normalizeKey_lower[of k] by (simp add: u)
  then have "ToLower t = t" by (simp add: ToLower_def)
  with assms(1) show "ToLower (p @ t) = p @ t" by simp
  show "CHR ''_'' \<notin> set (p @ t)" using assms(2) normalizeKey_no_underscore[of k] by (simp add: u)
  show "p @ t = [] \<or> (\<not> is_space (hd (p @ t)) \<and> \<not> is_space (last (p @ t)))"
    using assms(3-5) normalizeKey_shape[of k] by (cases "t = []") (simp_all add: u)
qed

lemma suffix_TrimPrefix: "suffix (TrimPrefix s p) s"
  by (simp add: TrimPrefix_def suffix_drop)

lemma is_lower_prefixes [simp]:
  "ToLower ''ofa-pass-'' = ''ofa-pass-''" "ToLower ''ofa-direct-'' = ''ofa-direct-''"
  "ToLower ''ofa-'' = ''ofa-''"
  by code_simp+

text \<open>What \<open>FixedKey\<close> and \<open>FixedKeyDirect\<close> share, for any prefix \<open>p\<close> that is itself normal.\<close>

lemma prefixed_key:
  assumes "ToLower p = p" "CHR ''_'' \<notin> set p" "p \<noteq> []" "\<not> is_space (hd p)" "\<not> is_space (last p)"
    and r: "r = (if HasPrefix (normalizeKey k) p then normalizeKey k
                 else p @ TrimPrefix (normalizeKey k) ''ofa-'')"
  shows "prefix p r \<and> normalizeKey r = r"
proof (cases "HasPrefix (normalizeKey k) p")
  case True
  with r show ?thesis by (simp add: HasPrefix_def)
next
  case False
  with r have "r = p @ TrimPrefix (normalizeKey k) ''ofa-''" by simp
  then show ?thesis
    using normalizeKey_prefixed[OF assms(1-5) suffix_TrimPrefix] by simp
qed

lemma FixedKey_shape:
  "prefix ''ofa-pass-'' (FixedKey k) \<and> normalizeKey (FixedKey k) = FixedKey k"
  by (rule prefixed_key) (simp_all add: is_space_def FixedKey_def Let_def)

lemma FixedKeyDirect_shape:
  "prefix ''ofa-direct-'' (FixedKeyDirect k) \<and> normalizeKey (FixedKeyDirect k) = FixedKeyDirect k"
  by (rule prefixed_key) (simp_all add: is_space_def FixedKeyDirect_def Let_def)

lemma FixedKey_idem [simp]: "FixedKey (FixedKey k) = FixedKey k"
  using FixedKey_shape[of k] by (simp add: FixedKey_def[of "FixedKey k"] HasPrefix_def)

lemma FixedKeyDirect_idem [simp]: "FixedKeyDirect (FixedKeyDirect k) = FixedKeyDirect k"
  using FixedKeyDirect_shape[of k] by (simp add: FixedKeyDirect_def[of "FixedKeyDirect k"] HasPrefix_def)

lemma FixedKey_neq_Direct [simp]: "FixedKey j \<noteq> FixedKeyDirect k" "FixedKeyDirect k \<noteq> FixedKey j"
  using FixedKey_shape[of j] FixedKeyDirect_shape[of k] by (auto simp: prefix_def)

lemma FixedKey_neq_Deadline [simp]:
  "FixedKey k \<noteq> ''ofa-request-deadline''" "''ofa-request-deadline'' \<noteq> FixedKey k"
  using FixedKey_shape[of k] by (auto simp: prefix_def)

lemma FixedKeyDirect_neq_Deadline [simp]:
  "FixedKeyDirect k \<noteq> ''ofa-request-deadline''" "''ofa-request-deadline'' \<noteq> FixedKeyDirect k"
  using FixedKeyDirect_shape[of k] by (auto simp: prefix_def)

lemma Deadline_key [simp]: "FixedKeyValue ''ofa-request-deadline'' = ''ofa-request-deadline''"
  by code_simp

lemma standard_keys [simp]:
  "FixedKey ''ofa-pass-trace-id'' = ''ofa-pass-trace-id''"
  "FixedKey ''ofa-pass-operator'' = ''ofa-pass-operator''"
  "FixedKey ''ofa-pass-tenant-id'' = ''ofa-pass-tenant-id''"
  "FixedKey ''ofa-pass-app-id'' = ''ofa-pass-app-id''"
  "FixedKey ''ofa-pass-locale'' = ''ofa-pass-locale''"
  "FixedKeyDirect ''ofa-direct-request-id'' = ''ofa-direct-request-id''"
  "FixedKeyDirect ''ofa-direct-remaining-timeout-ms'' = ''ofa-direct-remaining-timeout-ms''"
  by code_simp+


section \<open>Properties\<close>

subsection \<open>Reading back what was written\<close>

lemma skey_eq [simp]: "skey a = skey b \<longleftrightarrow> a = b"
  by (simp add: skey_def)

lemma skey_headers [simp]: "skey k \<noteq> passHeadersContextKey" "passHeadersContextKey \<noteq> skey k"
  by (simp_all add: skey_def passHeadersContextKey_def)

lemma WithValue_vals [simp]: "ctx_vals (WithValue c k v) = (ctx_vals c)(k \<mapsto> v)"
  by (simp add: WithValue_def)

lemma WithValue_deadline [simp]: "ctx_deadline (WithValue c k v) = ctx_deadline c"
  by (simp add: WithValue_def)

lemma WithDeadline_vals [simp]: "ctx_vals (WithDeadline c d) = ctx_vals c"
  by (simp add: WithDeadline_def split: option.split)

lemma CtxSetPassVal_vals [simp]:
  "ctx_vals (CtxSetPassVal c k v) =
     (ctx_vals c)(skey (FixedKey k) \<mapsto> VString v,
                  passHeadersContextKey \<mapsto> VHeaders ((CtxPassHeaders c)(FixedKey k \<mapsto> v)))"
  by (simp add: CtxSetPassVal_def Let_def CtxPassHeaders_def)

lemma CtxSetPassVal_deadline [simp]: "ctx_deadline (CtxSetPassVal c k v) = ctx_deadline c"
  by (simp add: CtxSetPassVal_def Let_def)

lemma CtxPassHeaders_set [simp]:
  "CtxPassHeaders (CtxSetPassVal c k v) = (CtxPassHeaders c)(FixedKey k \<mapsto> v)"
  by (simp add: CtxPassHeaders_def)

lemma CtxPassHeaders_direct [simp]: "CtxPassHeaders (CtxSetDirectVal c k v) = CtxPassHeaders c"
  by (simp add: CtxPassHeaders_def CtxSetDirectVal_def)

lemma CtxPassHeaders_deadline [simp]: "CtxPassHeaders (CtxSetRequestDeadline c d) = CtxPassHeaders c"
  by (simp add: CtxPassHeaders_def CtxSetRequestDeadline_def)

lemma CtxPassHeaders_WithDeadline [simp]: "CtxPassHeaders (WithDeadline c d) = CtxPassHeaders c"
  by (simp add: CtxPassHeaders_def)

lemma get_set_pass [simp]:
  "CtxGetPassVal (CtxSetPassVal c k v) j = (if FixedKey j = FixedKey k then Some v else CtxGetPassVal c j)"
  by (simp add: CtxGetPassVal_def ctx_string_def)

lemma get_pass_set_direct [simp]: "CtxGetPassVal (CtxSetDirectVal c k v) j = CtxGetPassVal c j"
  by (simp add: CtxGetPassVal_def CtxSetDirectVal_def ctx_string_def)

lemma get_set_direct [simp]:
  "CtxGetDirectVal (CtxSetDirectVal c k v) j =
     (if FixedKeyDirect j = FixedKeyDirect k then Some v else CtxGetDirectVal c j)"
  by (simp add: CtxGetDirectVal_def CtxSetDirectVal_def ctx_string_def)

lemma get_direct_set_pass [simp]: "CtxGetDirectVal (CtxSetPassVal c k v) j = CtxGetDirectVal c j"
  by (simp add: CtxGetDirectVal_def ctx_string_def)

lemma get_pass_deadline [simp]: "CtxGetPassVal (CtxSetRequestDeadline c d) j = CtxGetPassVal c j"
  by (simp add: CtxGetPassVal_def CtxSetRequestDeadline_def ctx_string_def)

lemma get_pass_WithDeadline [simp]: "CtxGetPassVal (WithDeadline c d) j = CtxGetPassVal c j"
  by (simp add: CtxGetPassVal_def ctx_string_def)

lemma get_deadline_pass [simp]: "CtxGetRequestDeadline (CtxSetPassVal c k v) = CtxGetRequestDeadline c"
  by (simp add: CtxGetRequestDeadline_def)

lemma get_deadline_direct [simp]: "CtxGetRequestDeadline (CtxSetDirectVal c k v) = CtxGetRequestDeadline c"
  by (simp add: CtxGetRequestDeadline_def CtxSetDirectVal_def)

lemma get_set_deadline [simp]:
  "CtxGetRequestDeadline (CtxSetRequestDeadline c d) = (if IsZero d then None else Some d)"
  by (simp add: CtxGetRequestDeadline_def CtxSetRequestDeadline_def)

lemma get_deadline_WithDeadline [simp]:
  "CtxGetRequestDeadline (WithDeadline c d) = CtxGetRequestDeadline c"
  by (simp add: CtxGetRequestDeadline_def)

subsection \<open>The contexts the package builds, and the headers it forwards\<close>

text \<open>
  The contexts a program can build from \<open>context.Background()\<close> with the operations of
  package \<open>pass\<close>, deadlines and values of foreign key types.
\<close>

inductive pass_built :: "'x ctx \<Rightarrow> bool" where
  background: "pass_built Background"
| set_pass: "pass_built c \<Longrightarrow> pass_built (CtxSetPassVal c k v)"
| set_direct: "pass_built c \<Longrightarrow> pass_built (CtxSetDirectVal c k v)"
| set_deadline: "pass_built c \<Longrightarrow> pass_built (CtxSetRequestDeadline c d)"
| with_deadline: "pass_built c \<Longrightarrow> pass_built (WithDeadline c d)"
| foreign: "pass_built c \<Longrightarrow> key_type k \<notin> {''string'', ''pass.contextKey''} \<Longrightarrow>
     pass_built (WithValue c k v)"

text \<open>The invariant: the header map holds exactly the pass values, under their fixed keys.\<close>

definition headers_agree :: "'x ctx \<Rightarrow> bool" where
  "headers_agree c \<longleftrightarrow>
     (\<forall>k. CtxPassHeaders c (FixedKey k) = CtxGetPassVal c k) \<and>
     (\<forall>k. FixedKey k \<noteq> k \<longrightarrow> CtxPassHeaders c k = None)"

lemma foreign_key:
  "key_type k \<notin> {''string'', ''pass.contextKey''} \<Longrightarrow> k \<noteq> skey s \<and> k \<noteq> passHeadersContextKey"
  by (auto simp: skey_def passHeadersContextKey_def)

lemma pass_built_headers_agree: "pass_built c \<Longrightarrow> headers_agree c"
proof (induction rule: pass_built.induct)
  case (foreign c k v)
  then have "CtxPassHeaders (WithValue c k v) = CtxPassHeaders c"
    and "CtxGetPassVal (WithValue c k v) j = CtxGetPassVal c j" for j
    using foreign_key[of k]
    by (auto simp: CtxPassHeaders_def CtxGetPassVal_def ctx_string_def)
  with foreign.IH show ?case by (simp add: headers_agree_def)
next
  case background
  show ?case
    by (simp add: headers_agree_def Background_def CtxPassHeaders_def CtxGetPassVal_def ctx_string_def)
qed (auto simp: headers_agree_def)

text \<open>
  In every context built with package \<open>pass\<close>, the headers forwarded to the next hop are
  exactly the pass values of the context: the header under a key's fixed form is the value a
  reader of that key gets, and there is no header under any key that is not in fixed form.
  Direct (single-hop) values and the in-process deadline are never forwarded.
\<close>

theorem pass_headers_exact:
  assumes "pass_built c"
  shows "CtxPassHeaders c j =
           (if FixedKey j = j then CtxGetPassVal c j else None)"
  using pass_built_headers_agree[OF assms] unfolding headers_agree_def by metis

theorem pass_headers_exact_witness:
  "pass_built (CtxSetTraceID Background ''t-1'' :: unit ctx)
   \<and> CtxPassHeaders (CtxSetTraceID Background ''t-1'' :: unit ctx) KeyTraceID = Some ''t-1''"
proof -
  have b: "pass_built (CtxSetTraceID Background ''t-1'' :: unit ctx)"
    by (simp add: CtxSetTraceID_def pass_built.intros)
  with pass_headers_exact[OF b, of KeyTraceID] show ?thesis
    by (simp add: CtxSetTraceID_def)
qed

text \<open>
  Key normalisation: the pass, direct and in-process key families are disjoint, and each
  key form is a fixed point of its own normalisation, so a value written under any spelling of
  a key is the one read back under any other spelling of it and no other key is disturbed.
\<close>

theorem pass_key_families:
  "FixedKey (FixedKey k) = FixedKey k
   \<and> FixedKeyDirect (FixedKeyDirect k) = FixedKeyDirect k
   \<and> FixedKey j \<noteq> FixedKeyDirect k
   \<and> FixedKey j \<noteq> FixedKeyValue KeyRequestDeadline
   \<and> FixedKeyDirect j \<noteq> FixedKeyValue KeyRequestDeadline
   \<and> CtxGetPassVal (CtxSetPassVal c k v) j =
       (if FixedKey j = FixedKey k then Some v else CtxGetPassVal c j)
   \<and> CtxGetDirectVal (CtxSetDirectVal c k v) j =
       (if FixedKeyDirect j = FixedKeyDirect k then Some v else CtxGetDirectVal c j)
   \<and> CtxGetPassVal (CtxSetDirectVal c k v) j = CtxGetPassVal c j
   \<and> CtxGetDirectVal (CtxSetPassVal c k v) j = CtxGetDirectVal c j"
  by simp

end
