(* ===== verification/Dkit_Lock.thy ===== *)
theory Dkit_Lock
  imports Pass_Context
begin

text \<open>
  The backend-independent part of package \<open>dkit\<close> that concerns locks: lock options
  (\<open>dkit/dmutex.go\<close>), and the interface \<open>DistributedMutex\<close> as a locale. The locale fixes
  the operations a client calls and states what a provider promises about a mutex instance
  that is \<open>fresh\<close> (holds nothing); the providers are the Redis and the MongoDB mutex.
  \<open>owns m s\<close> says that the lease the instance \<open>m\<close> took is the one the backend holds in
  state \<open>s\<close>, \<open>free m s\<close> that the backend holds no lease on the key of \<open>m\<close>.
\<close>

section \<open>Lock options\<close>

abbreviation (input) DefaultLockTTL :: duration where "DefaultLockTTL \<equiv> 30 * Second"
abbreviation (input) DefaultLockSpinInterval :: duration where
  "DefaultLockSpinInterval \<equiv> 500 * Millisecond"

record lock_option =
  TTL :: duration
  ReentrantIdentity :: string
  SpinInterval :: duration
  MaxWaitTime :: duration

text \<open>A functional option mutates the options; a nil option is \<open>None\<close>.\<close>

type_synonym lock_option_op = "(lock_option \<Rightarrow> lock_option) option"

fun apply_ops :: "('o \<Rightarrow> 'o) option list \<Rightarrow> 'o \<Rightarrow> 'o" where
  "apply_ops [] opt = opt"
| "apply_ops (None # ops) opt = apply_ops ops opt"
| "apply_ops (Some op # ops) opt = apply_ops ops (op opt)"

definition NewLockOption :: "duration \<Rightarrow> lock_option_op list \<Rightarrow> lock_option" where
  "NewLockOption defaultTTL ops =
     (let defaultTTL = (if defaultTTL \<le> 0 then DefaultLockTTL else defaultTTL);
          opt = \<lparr>TTL = defaultTTL, ReentrantIdentity = [], SpinInterval = DefaultLockSpinInterval,
                 MaxWaitTime = 0\<rparr>;
          opt = apply_ops ops opt;
          opt = (if TTL opt \<le> 0 then opt\<lparr>TTL := defaultTTL\<rparr> else opt);
          opt = (if SpinInterval opt \<le> 0 then opt\<lparr>SpinInterval := DefaultLockSpinInterval\<rparr> else opt)
      in opt)"

definition LockTTL :: "duration \<Rightarrow> lock_option_op" where
  "LockTTL d = Some (\<lambda>opt. if d > 0 then opt\<lparr>TTL := d\<rparr> else opt)"

definition LockWithMaxWait :: "duration \<Rightarrow> lock_option_op" where
  "LockWithMaxWait waitTime =
     Some (\<lambda>opt. if waitTime > 0 then opt\<lparr>MaxWaitTime := waitTime\<rparr> else opt)"

definition LockWithSpinInterval :: "duration \<Rightarrow> lock_option_op" where
  "LockWithSpinInterval interval =
     Some (\<lambda>opt. if interval > 0 then opt\<lparr>SpinInterval := interval\<rparr> else opt)"

definition Reentrant :: "string \<Rightarrow> lock_option_op" where
  "Reentrant identity = Some (\<lambda>opt. opt\<lparr>ReentrantIdentity := identity\<rparr>)"

section \<open>Waiting for a lock\<close>

text \<open>
  What wakes the \<open>select\<close> of a blocking \<open>Lock\<close>: the retry ticker, the timer of the
  maximal wait (only armed for a positive \<open>MaxWaitTime\<close>), or the end of the context.
\<close>

datatype lock_event = Ticker | MaxWaitTimeout | CtxDone go_error

section \<open>The interface DistributedMutex\<close>

locale distributed_mutex =
  fixes TryLock :: "'m \<Rightarrow> 's \<Rightarrow> bool result \<times> 'm \<times> 's"
    and Unlock :: "'m \<Rightarrow> 's \<Rightarrow> go_error option \<times> 'm \<times> 's"
    and fresh :: "'m \<Rightarrow> bool"
    and owns :: "'m \<Rightarrow> 's \<Rightarrow> bool"
    and free :: "'m \<Rightarrow> 's \<Rightarrow> bool"
  assumes trylock_acquired: "fresh m \<Longrightarrow> TryLock m s = (Inr True, m', s') \<Longrightarrow> owns m' s'"
    and trylock_refused: "fresh m \<Longrightarrow> TryLock m s = (Inr False, m', s') \<Longrightarrow> fresh m'"
    and trylock_error: "fresh m \<Longrightarrow> TryLock m s = (Inl e, m', s') \<Longrightarrow> fresh m'"
    and unlock_released: "owns m s \<Longrightarrow> Unlock m s = (None, m', s') \<Longrightarrow> fresh m' \<and> free m' s'"
    and owned_not_free: "owns m s \<Longrightarrow> \<not> free m s"
    and unlock_owned: "owns m s \<Longrightarrow> fst (Unlock m s) \<noteq> Some ErrAlreadyUnlocked"
    and unlock_unheld: "fresh m \<Longrightarrow> Unlock m s = (Some ErrAlreadyUnlocked, m, s)"
begin

text \<open>A lock that was obtained and released at once leaves the key free.\<close>

lemma lock_unlock_free:
  assumes "fresh m" and "TryLock m s = (Inr True, m1, s1)" and "Unlock m1 s1 = (None, m2, s2)"
  shows "fresh m2 \<and> free m2 s2"
  using assms trylock_acquired unlock_released by blast

text \<open>Releasing twice: the second release reports that nothing is held.\<close>

lemma unlock_twice:
  assumes "owns m s" and "Unlock m s = (None, m1, s1)"
  shows "Unlock m1 s1 = (Some ErrAlreadyUnlocked, m1, s1)"
  using assms unlock_released unlock_unheld by blast

end

section \<open>Properties of lock options\<close>

lemma NewLockOption_pos [simp]:
  "0 < TTL (NewLockOption d ops)" "0 < SpinInterval (NewLockOption d ops)"
  by (simp_all add: NewLockOption_def Let_def)

lemma apply_ops_Nil_opts [simp]: "ReentrantIdentity (NewLockOption d []) = []"
  by (simp add: NewLockOption_def Let_def)

lemma apply_ops_append: "apply_ops (xs @ ys) opt = apply_ops ys (apply_ops xs opt)"
  by (induction xs opt rule: apply_ops.induct) simp_all

text \<open>
  Lock options: whatever default TTL and option list a caller passes (nil options and
  options that write any value included), the resulting lease duration and retry interval are
  positive, so no lock is taken without a lease and no retry loop spins without a pause. The
  provided options ignore values that are not positive.
\<close>

theorem lock_options_valid:
  "0 < TTL (NewLockOption d ops) \<and> 0 < SpinInterval (NewLockOption d ops)
   \<and> TTL (NewLockOption d [LockTTL t]) = (if t > 0 then t else if d > 0 then d else DefaultLockTTL)
   \<and> MaxWaitTime (NewLockOption d [LockWithMaxWait w]) = (if w > 0 then w else 0)
   \<and> SpinInterval (NewLockOption d [LockWithSpinInterval i])
       = (if i > 0 then i else DefaultLockSpinInterval)
   \<and> ReentrantIdentity (NewLockOption d (ops @ [Reentrant who])) = who"
  by (simp add: NewLockOption_def Let_def LockTTL_def LockWithMaxWait_def LockWithSpinInterval_def
      Reentrant_def apply_ops_append)

end
