(* ===== verification/Snowflake.thy ===== *)
theory Snowflake
  imports Datax_Errors
begin

text \<open>
  \<open>model/snowflake_id.go\<close>: snowflake ids, decimal strings in Go that are stored as numbers. A
  \<open>uint64\<close> is a 64-bit word. The payloads the codecs exchange with the JSON, BSON and SQL libraries
  are datatypes with one constructor per case the code distinguishes: a JSON value by what
  \<open>json.Unmarshal\<close> makes of it, a BSON value by its type with \<open>BShort\<close> for bytes that do not decode,
  a SQL driver value by its Go type. Decoding into a nil receiver is the argument \<open>None\<close>.

  Lemmas: parsing yields canonical decimals; ids survive every codec; what does not fit a signed
  64-bit integer is refused before it is stored.
\<close>

type_synonym SnowflakeID = string

definition num_err :: "string \<Rightarrow> num_error \<Rightarrow> go_error" where
  "num_err s e = OpaqueError (''strconv.ParseUint: parsing \"'' @ s @ ''\": '' @
     (case e of ErrSyntax \<Rightarrow> ''invalid syntax'' | ErrRange \<Rightarrow> ''value out of range''))"

definition NewSnowflakeID :: "64 word \<Rightarrow> SnowflakeID" where
  "NewSnowflakeID i = FormatUint (unat i)"

definition ParseSnowflakeID :: "string \<Rightarrow> SnowflakeID result" where
  "ParseSnowflakeID s =
     (let raw = TrimSpace s in
      if raw = [] then Inl (NewValidationError ''snowflake id should not be empty'' [] None)
      else
        (case ParseUint raw 64 of
           Inl e \<Rightarrow> Inl (NewValidationError ''parse snowflake id failed'' [] (Some (num_err raw e)))
         | Inr n \<Rightarrow> Inr (NewSnowflakeID (of_nat n))))"

definition Uint64 :: "SnowflakeID \<Rightarrow> 64 word result" where
  "Uint64 sid =
     (if sid = [] then Inr 0
      else
        (case ParseUint sid 64 of
           Inl e \<Rightarrow> Inl (NewValidationError ''parse snowflake id failed'' [] (Some (num_err sid e)))
         | Inr n \<Rightarrow> Inr (of_nat n)))"

text \<open>The result as the value of an \<open>int64\<close>.\<close>

definition Int64 :: "SnowflakeID \<Rightarrow> int result" where
  "Int64 sid =
     (case Uint64 sid of
        Inl e \<Rightarrow> Inl e
      | Inr v \<Rightarrow>
          if uint v > max_int64
          then Inl (NewValidationError (''snowflake id '' @ FormatUint (unat v) @ '' exceeds int64 range'') [] None)
          else Inr (sint v))"

definition String :: "SnowflakeID \<Rightarrow> string" where "String sid = sid"

section \<open>Codecs\<close>

datatype json_val = JString string | JNull | JUint "64 word" | JError go_error

definition MarshalJSON :: "SnowflakeID \<Rightarrow> json_val" where
  "MarshalJSON sid = JString (String sid)"

text \<open>\<open>json.Unmarshal\<close> of null into a string leaves it empty without an error.\<close>

definition UnmarshalJSON :: "SnowflakeID option \<Rightarrow> json_val \<Rightarrow> SnowflakeID result" where
  "UnmarshalJSON rcv data =
     (if rcv = None then Inl (NewValidationError ''unmarshal snowflake id into nil pointer'' [] None)
      else
        (case data of
           JString s \<Rightarrow> ParseSnowflakeID s
         | JNull \<Rightarrow> ParseSnowflakeID []
         | JUint n \<Rightarrow> Inr (NewSnowflakeID n)
         | JError e \<Rightarrow> Inl (NewValidationError ''unmarshal snowflake id failed'' [] (Some e))))"

datatype bson_type = TInt64 | TInt32 | TString

datatype bson_val = BInt64 int | BInt32 int | BString string | BShort bson_type | BOther string

definition MarshalBSONValue :: "SnowflakeID \<Rightarrow> bson_val result" where
  "MarshalBSONValue sid = (case Int64 sid of Inl e \<Rightarrow> Inl e | Inr v \<Rightarrow> Inr (BInt64 v))"

definition negative_id :: "int \<Rightarrow> go_error" where
  "negative_id v = NewValidationError (''snowflake id must not be negative: '' @ FormatInt v) [] None"

definition UnmarshalBSONValue :: "SnowflakeID option \<Rightarrow> bson_val \<Rightarrow> SnowflakeID result" where
  "UnmarshalBSONValue rcv data =
     (if rcv = None then Inl (NewValidationError ''unmarshal snowflake id into nil pointer'' [] None)
      else
        (case data of
           BInt64 v \<Rightarrow> if v < 0 then Inl (negative_id v) else Inr (NewSnowflakeID (word_of_int v))
         | BShort TInt64 \<Rightarrow> Inl (NewValidationError ''read int64 snowflake id failed'' [] None)
         | BInt32 v \<Rightarrow> if v < 0 then Inl (negative_id v) else Inr (NewSnowflakeID (word_of_int v))
         | BShort TInt32 \<Rightarrow> Inl (NewValidationError ''read int32 snowflake id failed'' [] None)
         | BString v \<Rightarrow> ParseSnowflakeID v
         | BShort TString \<Rightarrow> Inl (NewValidationError ''read string snowflake id failed'' [] None)
         | BOther t \<Rightarrow> Inl (NewValidationError (''unsupported snowflake id bson type '' @ t) [] None)))"

datatype sql_val = SInt64 int | SInt int | SUint64 "64 word" | SString string | SBytes string | SNil | SOther string

definition Value :: "SnowflakeID \<Rightarrow> sql_val result" where
  "Value sid = (case Int64 sid of Inl e \<Rightarrow> Inl e | Inr v \<Rightarrow> Inr (SInt64 v))"

definition Scan :: "SnowflakeID option \<Rightarrow> sql_val \<Rightarrow> SnowflakeID result" where
  "Scan rcv src =
     (if rcv = None then Inl (NewValidationError ''scan snowflake id into nil pointer'' [] None)
      else
        (case src of
           SInt64 v \<Rightarrow> if v < 0 then Inl (negative_id v) else Inr (NewSnowflakeID (word_of_int v))
         | SInt v \<Rightarrow> if v < 0 then Inl (negative_id v) else Inr (NewSnowflakeID (word_of_int v))
         | SUint64 v \<Rightarrow> Inr (NewSnowflakeID v)
         | SString v \<Rightarrow> ParseSnowflakeID v
         | SBytes v \<Rightarrow> ParseSnowflakeID v
         | SNil \<Rightarrow> Inr []
         | SOther t \<Rightarrow> Inl (NewValidationError (''unsupported snowflake id scan type '' @ t) [] None)))"

section \<open>Canonical ids\<close>

lemma digit_not_space: "d < 10 \<Longrightarrow> \<not> is_space (digit_char d)"
  by (auto simp: is_space_def digit_char_def dest!: arg_cong[where f = "of_char :: char \<Rightarrow> nat"])

lemma TrimSpace_FormatUint [simp]: "TrimSpace (FormatUint n) = FormatUint n"
proof (rule TrimSpace_fix)
  have "hd (FormatUint n) \<in> set (FormatUint n)" "last (FormatUint n) \<in> set (FormatUint n)" by simp_all
  then show "FormatUint n = [] \<or> (\<not> is_space (hd (FormatUint n)) \<and> \<not> is_space (last (FormatUint n)))"
    using FormatUint_digits[of _ n] digit_not_space by metis
qed

lemma ParseUint_word [simp]: "ParseUint (FormatUint (unat (i :: 64 word))) 64 = Inr (unat i)"
  by (rule ParseUint_FormatUint) (use unsigned_less[of i] in simp)

lemma Parse_New [simp]: "ParseSnowflakeID (NewSnowflakeID i) = Inr (NewSnowflakeID i)"
  by (simp add: ParseSnowflakeID_def NewSnowflakeID_def)

lemma Uint64_New [simp]: "Uint64 (NewSnowflakeID i) = Inr i"
  by (simp add: Uint64_def NewSnowflakeID_def)

lemma Parse_canonical: "ParseSnowflakeID s = Inr sid \<Longrightarrow> \<exists>i. sid = NewSnowflakeID i"
  by (auto simp: ParseSnowflakeID_def Let_def split: if_splits sum.splits)

lemma sint_small: "uint (i :: 64 word) \<le> max_int64 \<Longrightarrow> sint i = uint i"
  by (simp add: sint_uint signed_take_bit_int_eq_self_iff) (rule order_trans[OF _ uint_ge_0], simp)

lemma Int64_New: "Int64 (NewSnowflakeID i) = (if uint i > max_int64
    then Inl (NewValidationError (''snowflake id '' @ NewSnowflakeID i @ '' exceeds int64 range'') [] None)
    else Inr (uint i))"
  by (simp add: Int64_def NewSnowflakeID_def[symmetric] sint_small)

section \<open>Properties\<close>

text \<open>
  C24. Round trips of snowflake ids: an id that fits a signed 64-bit integer is recovered from its
  string, JSON, BSON and SQL form, and is stored as the number it denotes, so stored ids order like
  the numbers.
\<close>

theorem snowflake_roundtrip:
  assumes "uint i \<le> max_int64"
  shows "ParseSnowflakeID (String (NewSnowflakeID i)) = Inr (NewSnowflakeID i)
    \<and> Uint64 (NewSnowflakeID i) = Inr i
    \<and> UnmarshalJSON (Some rcv) (MarshalJSON (NewSnowflakeID i)) = Inr (NewSnowflakeID i)
    \<and> MarshalBSONValue (NewSnowflakeID i) = Inr (BInt64 (uint i))
    \<and> UnmarshalBSONValue (Some rcv) (BInt64 (uint i)) = Inr (NewSnowflakeID i)
    \<and> Value (NewSnowflakeID i) = Inr (SInt64 (uint i))
    \<and> Scan (Some rcv) (SInt64 (uint i)) = Inr (NewSnowflakeID i)"
  using assms
  by (simp add: String_def UnmarshalJSON_def MarshalJSON_def MarshalBSONValue_def UnmarshalBSONValue_def
      Value_def Scan_def Int64_New)

theorem snowflake_roundtrip_witness:
  "MarshalBSONValue (NewSnowflakeID 1234567890123456789) = Inr (BInt64 1234567890123456789)
   \<and> UnmarshalBSONValue (Some []) (BInt64 1234567890123456789) = Inr (NewSnowflakeID 1234567890123456789)"
  using snowflake_roundtrip[of 1234567890123456789 "[]"] by simp

text \<open>
  What decoding accepts: parsing a string, and decoding a JSON string or number, a BSON value or
  a SQL value other than NULL yields only canonical decimals of 64-bit numbers (no sign, blank or
  leading zero survives); negative numbers and ids beyond the signed 64-bit range are refused, the
  latter when they are stored; NULL decodes to the empty id, which is stored as 0.
\<close>

theorem snowflake_decoding_canonical:
  "(ParseSnowflakeID s = Inr sid \<longrightarrow> (\<exists>i. sid = NewSnowflakeID i))
   \<and> (UnmarshalJSON rcv j = Inr sid \<longrightarrow> (\<exists>i. sid = NewSnowflakeID i))
   \<and> (UnmarshalBSONValue rcv b = Inr sid \<longrightarrow> (\<exists>i. sid = NewSnowflakeID i))
   \<and> (Scan rcv v = Inr sid \<longrightarrow> v \<noteq> SNil \<longrightarrow> (\<exists>i. sid = NewSnowflakeID i))
   \<and> (n < 0 \<longrightarrow> isl (UnmarshalBSONValue rcv (BInt64 n)) \<and> isl (UnmarshalBSONValue rcv (BInt32 n))
        \<and> isl (Scan rcv (SInt64 n)) \<and> isl (Scan rcv (SInt n)))
   \<and> (max_int64 < uint i \<longrightarrow> isl (MarshalBSONValue (NewSnowflakeID i)) \<and> isl (Value (NewSnowflakeID i)))
   \<and> Scan (Some r) SNil = Inr [] \<and> Value [] = Inr (SInt64 0)"
proof -
  have "ParseSnowflakeID s = Inr sid \<longrightarrow> (\<exists>i. sid = NewSnowflakeID i)" for s
    using Parse_canonical by blast
  moreover have "Value [] = Inr (SInt64 0)" by (simp add: Value_def Int64_def Uint64_def)
  ultimately show ?thesis
    by (auto simp: UnmarshalJSON_def UnmarshalBSONValue_def Scan_def MarshalBSONValue_def Value_def Int64_New
        split: if_splits json_val.splits bson_val.splits bson_type.splits sql_val.splits)
qed

theorem snowflake_decoding_canonical_witness:
  "(\<exists>i. NewSnowflakeID 42 = NewSnowflakeID i) \<and> ParseSnowflakeID (NewSnowflakeID 42) = Inr (NewSnowflakeID 42)
   \<and> isl (MarshalBSONValue (NewSnowflakeID 9223372036854775808))"
proof -
  have p: "ParseSnowflakeID (NewSnowflakeID 42) = Inr (NewSnowflakeID 42)" by simp
  then have "\<exists>i. NewSnowflakeID 42 = NewSnowflakeID i"
    using snowflake_decoding_canonical[of "NewSnowflakeID 42" "NewSnowflakeID 42"] by blast
  moreover have "isl (MarshalBSONValue (NewSnowflakeID 9223372036854775808))"
    using snowflake_decoding_canonical[where i = 9223372036854775808] by simp
  ultimately show ?thesis using p by blast
qed

end
