(* ===== verification/Dkit_Kit.thy ===== *)
theory Dkit_Kit
  imports Dkit_Lock Snowflake
begin

text \<open>
  \<open>dkit/dkit.go\<close> and \<open>dkit/locator.go\<close>: the kit, which adds identifiers and lock helpers to a
  backend, and the process-wide default kit. The interfaces \<open>Atomic\<close> and \<open>DistributedMutex\<close> are a
  record of operations over a state of the backend; the Sonyflake package is a record of its
  own. Every operation the kit calls takes the context it is called with. Election and close
  are those of the embedded \<open>Atomic\<close>, unchanged.

  The locale \<open>mutex_factory\<close> is what the lock helpers rely on. Its lemmas say when the action
  runs, and what holds at the end; the backends are its instances.
\<close>

section \<open>Interfaces\<close>

text \<open>
  A call returns, or panics; the value of a panic is an error here. \<open>a_NewMutex\<close> may return nil.
  \<open>a_Lock\<close> is \<open>None\<close> while it waits.
\<close>

datatype 'a outcome = Returns 'a | Panics go_error

record ('x, 'm, 's) atomic_ops =
  a_GetUniqueRandomNumber :: "'x ctx \<Rightarrow> int \<Rightarrow> 's \<Rightarrow> int result \<times> 's"
  a_NewMutex :: "string \<Rightarrow> 'm option"
  a_GetMutexDefaultTTL :: duration
  a_TryLock :: "'x ctx \<Rightarrow> 'm \<Rightarrow> 's \<Rightarrow> bool result \<times> 'm \<times> 's"
  a_Lock :: "'x ctx \<Rightarrow> 'm \<Rightarrow> 's \<Rightarrow> (go_error option \<times> 'm \<times> 's) option"
  a_Unlock :: "'x ctx \<Rightarrow> 'm \<Rightarrow> 's \<Rightarrow> go_error option \<times> 'm \<times> 's"

text \<open>\<open>sonyflake.NewSonyflake\<close> for a start time and a machine number, and \<open>NextID\<close>.\<close>

record 'f sonyflake =
  sf_New :: "time \<Rightarrow> 16 word \<Rightarrow> 'f option"
  sf_NextID :: "'f \<Rightarrow> 64 word result \<times> 'f"

text \<open>An action, run while the lock is held.\<close>

type_synonym ('x, 's) action = "'x ctx \<Rightarrow> 's \<Rightarrow> go_error option outcome \<times> 's"

section \<open>The kit\<close>

text \<open>1 July 2007, in nanoseconds since the Unix epoch.\<close>

definition SnowflakeStartTime :: time where
  "SnowflakeStartTime = 1183248000 * Second"

abbreviation (input) MaxUint16 :: int where "MaxUint16 \<equiv> 65535"

record ('x, 'm, 's, 'f) defaultKit =
  k_Atomic :: "('x, 'm, 's) atomic_ops"
  k_ins :: 'f

definition or_background :: "'x ctx option \<Rightarrow> 'x ctx" where
  "or_background ctx = (case ctx of None \<Rightarrow> Background | Some c \<Rightarrow> c)"

definition NewDefaultKitWithContext ::
    "'f sonyflake \<Rightarrow> 'x ctx option \<Rightarrow> ('x, 'm, 's) atomic_ops option \<Rightarrow> 's
       \<Rightarrow> ('x, 'm, 's, 'f) defaultKit result \<times> 's" where
  "NewDefaultKitWithContext sf ctx atomic s =
     (case atomic of
        None \<Rightarrow> (Inl (WrapError [] ErrInvalidOption '': atomic is nil''), s)
      | Some a \<Rightarrow>
          (case a_GetUniqueRandomNumber a (or_background ctx) MaxUint16 s of
             (Inl e, s) \<Rightarrow> (Inl e, s)
           | (Inr num, s) \<Rightarrow>
               if num < 0 \<or> num > MaxUint16
               then (Inl (WrapError [] ErrInvalidOption
                       ('': machine id '' @ FormatInt num @ '' out of uint16 range'')), s)
               else
                 (case sf_New sf SnowflakeStartTime (word_of_int num) of
                    None \<Rightarrow> (Inl (WrapError [] ErrInvalidOption '': create sonyflake failed''), s)
                  | Some ins \<Rightarrow> (Inr \<lparr>k_Atomic = a, k_ins = ins\<rparr>, s))))"

definition NewDefaultKit ::
    "'f sonyflake \<Rightarrow> ('x, 'm, 's) atomic_ops option \<Rightarrow> 's \<Rightarrow> ('x, 'm, 's, 'f) defaultKit result \<times> 's" where
  "NewDefaultKit sf atomic s = NewDefaultKitWithContext sf (Some Background) atomic s"

section \<open>Identifiers\<close>

definition nextID ::
    "'f sonyflake \<Rightarrow> ('x, 'm, 's, 'f) defaultKit \<Rightarrow> 64 word result \<times> ('x, 'm, 's, 'f) defaultKit" where
  "nextID sf d =
     (case sf_NextID sf (k_ins d) of
        (Inl e, f) \<Rightarrow> (Inl (WrapError ''get snowflake id failed: '' e []), d\<lparr>k_ins := f\<rparr>)
      | (Inr i, f) \<Rightarrow> (Inr i, d\<lparr>k_ins := f\<rparr>))"

definition NextID ::
    "'f sonyflake \<Rightarrow> time \<Rightarrow> 'x ctx option \<Rightarrow> ('x, 'm, 's, 'f) defaultKit
       \<Rightarrow> 64 word result \<times> ('x, 'm, 's, 'f) defaultKit" where
  "NextID sf now ctx d =
     (case ctx of
        Some c \<Rightarrow> (case ctx_Err c now of Some e \<Rightarrow> (Inl e, d) | None \<Rightarrow> nextID sf d)
      | None \<Rightarrow> nextID sf d)"

definition NextIDString ::
    "'f sonyflake \<Rightarrow> time \<Rightarrow> 'x ctx option \<Rightarrow> ('x, 'm, 's, 'f) defaultKit
       \<Rightarrow> string result \<times> ('x, 'm, 's, 'f) defaultKit" where
  "NextIDString sf now ctx d =
     (case NextID sf now ctx d of
        (Inl e, d) \<Rightarrow> (Inl e, d)
      | (Inr i, d) \<Rightarrow> (Inr (FormatUint (unat i)), d))"

definition GetID ::
    "'f sonyflake \<Rightarrow> ('x, 'm, 's, 'f) defaultKit \<Rightarrow> 64 word outcome \<times> ('x, 'm, 's, 'f) defaultKit" where
  "GetID sf d =
     (case nextID sf d of (Inl e, d) \<Rightarrow> (Panics e, d) | (Inr i, d) \<Rightarrow> (Returns i, d))"

definition GetSnowflakeID ::
    "'f sonyflake \<Rightarrow> ('x, 'm, 's, 'f) defaultKit \<Rightarrow> SnowflakeID outcome \<times> ('x, 'm, 's, 'f) defaultKit" where
  "GetSnowflakeID sf d =
     (case GetID sf d of
        (Panics e, d) \<Rightarrow> (Panics e, d)
      | (Returns i, d) \<Rightarrow> (Returns (NewSnowflakeID i), d))"

definition GetIDString ::
    "'f sonyflake \<Rightarrow> ('x, 'm, 's, 'f) defaultKit \<Rightarrow> string outcome \<times> ('x, 'm, 's, 'f) defaultKit" where
  "GetIDString sf d =
     (case GetID sf d of
        (Panics e, d) \<Rightarrow> (Panics e, d)
      | (Returns i, d) \<Rightarrow> (Returns (FormatUint (unat i)), d))"

section \<open>Lock helpers\<close>

text \<open>
  The deferred function both helpers register: it releases the lock however the action ended, and
  joins a failure to release with the error of the action. A panic of the action goes on.
\<close>

definition join_unlock :: "go_error option \<Rightarrow> go_error option \<Rightarrow> go_error option" where
  "join_unlock uErr err =
     (case uErr of
        None \<Rightarrow> err
      | Some u \<Rightarrow>
          (case err of
             Some e \<Rightarrow> Some (WrapError (''unlock failed: '' @ Error u @ '', action error: '') e [])
           | None \<Rightarrow> Some (WrapError ''unlock failed: '' u [])))"

definition deferred_end :: "go_error option \<Rightarrow> go_error option outcome \<Rightarrow> go_error option outcome" where
  "deferred_end uErr r =
     (case r of Returns err \<Rightarrow> Returns (join_unlock uErr err) | Panics v \<Rightarrow> Panics v)"

definition run_locked ::
    "('x, 'm, 's) atomic_ops \<Rightarrow> 'x ctx \<Rightarrow> ('x, 's) action \<Rightarrow> 'm \<Rightarrow> 's \<Rightarrow> go_error option outcome \<times> 's" where
  "run_locked a c action mux s =
     (case action c s of
        (r, s) \<Rightarrow>
          (case a_Unlock a c mux s of
             (uErr, mux', s) \<Rightarrow> (deferred_end uErr r, s)))"

definition MutexCtxTryDo ::
    "('x, 'm, 's, 'f) defaultKit \<Rightarrow> 'x ctx option \<Rightarrow> string \<Rightarrow> ('x, 's) action option \<Rightarrow> 's
       \<Rightarrow> (bool \<times> go_error option) outcome \<times> 's" where
  "MutexCtxTryDo d ctx mutexKey action s =
     (case action of
        None \<Rightarrow> (Returns (False, Some (WrapError [] ErrInvalidOption '': action is nil'')), s)
      | Some act \<Rightarrow>
          let c = or_background ctx in
          (case a_NewMutex (k_Atomic d) mutexKey of
             None \<Rightarrow> (Returns (False, Some (WrapError [] ErrInvalidOption '': mutex is nil'')), s)
           | Some mux \<Rightarrow>
               (case a_TryLock (k_Atomic d) c mux s of
                  (Inl e, mux, s) \<Rightarrow> (Returns (False, Some e), s)
                | (Inr False, mux, s) \<Rightarrow> (Returns (False, None), s)
                | (Inr True, mux, s) \<Rightarrow>
                    (case run_locked (k_Atomic d) c act mux s of
                       (Returns err, s) \<Rightarrow> (Returns (True, err), s)
                     | (Panics v, s) \<Rightarrow> (Panics v, s)))))"

definition MutexTryDo ::
    "time \<Rightarrow> ('x, 'm, 's, 'f) defaultKit \<Rightarrow> string \<Rightarrow> ('x, 's) action option \<Rightarrow> 's
       \<Rightarrow> (bool \<times> go_error option) outcome \<times> 's" where
  "MutexTryDo now d mutexKey action s =
     MutexCtxTryDo d (Some (WithDeadline Background (now + a_GetMutexDefaultTTL (k_Atomic d)))) mutexKey action s"

text \<open>\<open>MutexCtxDo\<close> waits for the lock: \<open>None\<close> while it does.\<close>

definition MutexCtxDo ::
    "('x, 'm, 's, 'f) defaultKit \<Rightarrow> 'x ctx option \<Rightarrow> string \<Rightarrow> ('x, 's) action option \<Rightarrow> 's
       \<Rightarrow> (go_error option outcome \<times> 's) option" where
  "MutexCtxDo d ctx mutexKey action s =
     (case action of
        None \<Rightarrow> Some (Returns (Some (WrapError [] ErrInvalidOption '': action is nil'')), s)
      | Some act \<Rightarrow>
          let c = or_background ctx in
          (case a_NewMutex (k_Atomic d) mutexKey of
             None \<Rightarrow> Some (Returns (Some (WrapError [] ErrInvalidOption '': mutex is nil'')), s)
           | Some mux \<Rightarrow>
               (case a_Lock (k_Atomic d) c mux s of
                  None \<Rightarrow> None
                | Some (Some e, mux, s) \<Rightarrow> Some (Returns (Some e), s)
                | Some (None, mux, s) \<Rightarrow> Some (run_locked (k_Atomic d) c act mux s))))"

definition MutexDo ::
    "time \<Rightarrow> ('x, 'm, 's, 'f) defaultKit \<Rightarrow> string \<Rightarrow> ('x, 's) action option \<Rightarrow> 's
       \<Rightarrow> (go_error option outcome \<times> 's) option" where
  "MutexDo now d mutexKey action s =
     MutexCtxDo d (Some (WithDeadline Background (now + a_GetMutexDefaultTTL (k_Atomic d)))) mutexKey action s"

section \<open>The default kit\<close>

text \<open>The variable \<open>defaultKitLocator.kit\<close> is the state of these operations; nil is \<open>None\<close>.\<close>

definition SetDefaultKit :: "'k option \<Rightarrow> 'k option \<Rightarrow> 'k option" where
  "SetDefaultKit kit locator = kit"

definition InitDefaultKit ::
    "'f sonyflake \<Rightarrow> 'x ctx option \<Rightarrow> ('x, 'm, 's) atomic_ops option \<Rightarrow> ('x, 'm, 's, 'f) defaultKit option \<Rightarrow> 's
       \<Rightarrow> ('x, 'm, 's, 'f) defaultKit result \<times> ('x, 'm, 's, 'f) defaultKit option \<times> 's" where
  "InitDefaultKit sf ctx atomic locator s =
     (case NewDefaultKitWithContext sf ctx atomic s of
        (Inl e, s) \<Rightarrow> (Inl e, locator, s)
      | (Inr kit, s) \<Rightarrow> (Inr kit, SetDefaultKit (Some kit) locator, s))"

definition DefaultKit :: "'k option \<Rightarrow> 'k outcome" where
  "DefaultKit locator =
     (case locator of None \<Rightarrow> Panics ErrDefaultKitNotConfigured | Some kit \<Rightarrow> Returns kit)"

definition ResetDefaultKit :: "'k option \<Rightarrow> 'k option" where
  "ResetDefaultKit locator = SetDefaultKit None locator"

section \<open>Machine numbers and identifiers\<close>

lemma NewDefaultKit_machine:
  assumes "NewDefaultKitWithContext sf ctx (Some a) s = (Inr k, s')"
  obtains num where "a_GetUniqueRandomNumber a (or_background ctx) MaxUint16 s = (Inr num, s')"
    and "0 \<le> num" and "num \<le> MaxUint16" and "k_Atomic k = a"
    and "sf_New sf SnowflakeStartTime (word_of_int num) = Some (k_ins k)"
  using assms
  by (auto simp: NewDefaultKitWithContext_def split: prod.splits sum.splits if_splits option.splits)

text \<open>The identifiers \<open>n\<close> calls of \<open>NextID\<close> give, those that fail left out.\<close>

fun kit_ids :: "'f sonyflake \<Rightarrow> nat \<Rightarrow> ('x, 'm, 's, 'f) defaultKit \<Rightarrow> 64 word list" where
  "kit_ids sf 0 d = []"
| "kit_ids sf (Suc n) d =
     (case nextID sf d of (Inl e, d) \<Rightarrow> kit_ids sf n d | (Inr i, d) \<Rightarrow> i # kit_ids sf n d)"

fun sf_ids :: "'f sonyflake \<Rightarrow> nat \<Rightarrow> 'f \<Rightarrow> 64 word list" where
  "sf_ids sf 0 f = []"
| "sf_ids sf (Suc n) f =
     (case sf_NextID sf f of (Inl e, f) \<Rightarrow> sf_ids sf n f | (Inr i, f) \<Rightarrow> i # sf_ids sf n f)"

lemma kit_ids_sf: "kit_ids sf n d = sf_ids sf n (k_ins d)"
  by (induction n arbitrary: d) (auto simp: nextID_def split: prod.splits sum.splits)

text \<open>
  What the Sonyflake package documents of its identifiers: the low 16 bits are the machine number,
  and one generator never repeats an identifier.
\<close>

definition sf_documented :: "'f sonyflake \<Rightarrow> bool" where
  "sf_documented sf \<longleftrightarrow> (\<forall>t num f n. sf_New sf t num = Some f \<longrightarrow>
     distinct (sf_ids sf n f) \<and> (\<forall>i \<in> set (sf_ids sf n f). ucast i = num))"

lemma kit_ids_machine:
  assumes "sf_documented sf" and "sf_New sf t num = Some (k_ins k)"
  shows "distinct (kit_ids sf n k)" and "\<forall>i \<in> set (kit_ids sf n k). ucast i = num"
  using assms unfolding sf_documented_def kit_ids_sf by blast+

text \<open>Numbers below \<open>2^16\<close> are different as machine numbers.\<close>

lemma machine_word_inj:
  assumes "0 \<le> a" "a \<le> MaxUint16" "0 \<le> b" "b \<le> MaxUint16"
    and "(word_of_int a :: 16 word) = word_of_int b"
  shows "a = b"
proof -
  from assms(5) have "uint (word_of_int a :: 16 word) = uint (word_of_int b :: 16 word)" by simp
  with assms(1-4) show ?thesis by (simp add: uint_word_of_int)
qed

lemma kits_apart:
  assumes "sf_documented sf"
    and "NewDefaultKitWithContext sf ctx1 (Some a1) s1 = (Inr k1, s1')"
    and "NewDefaultKitWithContext sf ctx2 (Some a2) s2 = (Inr k2, s2')"
    and "\<And>x y. a_GetUniqueRandomNumber a1 (or_background ctx1) MaxUint16 s1 = (Inr x, s1') \<Longrightarrow>
           a_GetUniqueRandomNumber a2 (or_background ctx2) MaxUint16 s2 = (Inr y, s2') \<Longrightarrow> x \<noteq> y"
  shows "distinct (kit_ids sf n1 k1 @ kit_ids sf n2 k2)"
proof -
  obtain x where x: "a_GetUniqueRandomNumber a1 (or_background ctx1) MaxUint16 s1 = (Inr x, s1')"
    "0 \<le> x" "x \<le> MaxUint16" "sf_New sf SnowflakeStartTime (word_of_int x) = Some (k_ins k1)"
    by (rule NewDefaultKit_machine[OF assms(2)])
  obtain y where y: "a_GetUniqueRandomNumber a2 (or_background ctx2) MaxUint16 s2 = (Inr y, s2')"
    "0 \<le> y" "y \<le> MaxUint16" "sf_New sf SnowflakeStartTime (word_of_int y) = Some (k_ins k2)"
    by (rule NewDefaultKit_machine[OF assms(3)])
  have ne: "(word_of_int x :: 16 word) \<noteq> word_of_int y"
    using machine_word_inj[OF x(2,3) y(2,3)] assms(4)[OF x(1) y(1)] by blast
  note k1 = kit_ids_machine[OF assms(1) x(4)] and k2 = kit_ids_machine[OF assms(1) y(4)]
  have "set (kit_ids sf n1 k1) \<inter> set (kit_ids sf n2 k2) = {}" using k1(2)[of n1] k2(2)[of n2] ne by fastforce
  with k1(1) k2(1) show ?thesis by simp
qed

section \<open>The lock helpers over any mutex\<close>

text \<open>
  The action \<open>act\<close> ran on a state in which the lock of \<open>key\<close> was owned, and then the lock was
  released whatever the action's end: \<open>res\<close> joins the two ends, \<open>s'\<close> is the final state. A release
  that succeeds proves that the lock was still owned at the end of the action, and frees it.
\<close>

definition section_ran ::
    "('x, 'm, 's) atomic_ops \<Rightarrow> ('m \<Rightarrow> 's \<Rightarrow> bool) \<Rightarrow> ('m \<Rightarrow> 's \<Rightarrow> bool) \<Rightarrow> ('m \<Rightarrow> string \<Rightarrow> bool)
       \<Rightarrow> 'x ctx \<Rightarrow> string \<Rightarrow> ('x, 's) action \<Rightarrow> go_error option outcome \<Rightarrow> 's \<Rightarrow> bool" where
  "section_ran A owns free bound_to c key act res s' \<longleftrightarrow>
     (\<exists>m s1 r s2. owns m s1 \<and> bound_to m key \<and> act c s1 = (r, s2) \<and> s' = snd (snd (a_Unlock A c m s2))
        \<and> res = deferred_end (fst (a_Unlock A c m s2)) r
        \<and> (fst (a_Unlock A c m s2) = None \<longrightarrow> owns m s2 \<and> free m s'))"

lemma join_unlock_None: "join_unlock u e = None \<longleftrightarrow> u = None \<and> e = None"
  by (cases u; cases e) (simp_all add: join_unlock_def)

text \<open>When a helper reports no error, the action had none and the lock is free at the end.\<close>

lemma section_ran_ok:
  assumes "section_ran A owns free bound_to c key act (Returns None) s'"
  obtains m s1 s2 where "owns m s1" "bound_to m key" "act c s1 = (Returns None, s2)" "owns m s2" "free m s'"
proof -
  from assms obtain m s1 r s2 where h: "owns m s1" "bound_to m key" "act c s1 = (r, s2)"
      "Returns None = deferred_end (fst (a_Unlock A c m s2)) r"
      "fst (a_Unlock A c m s2) = None \<longrightarrow> owns m s2 \<and> free m s'"
    unfolding section_ran_def by (elim exE conjE)
  then have "r = Returns None" "fst (a_Unlock A c m s2) = None"
    by (cases r; auto simp: join_unlock_None deferred_end_def dest: sym)+
  with h that show thesis by blast
qed

text \<open>
  What the helpers rely on: the mutexes of the factory meet the contract of
  \<open>DistributedMutex\<close> with any context, a new mutex is fresh and bound to its key, a lock obtained by
  waiting is owned, and only an owner's release succeeds.
\<close>

locale mutex_factory =
  fixes A :: "('x, 'm, 's) atomic_ops"
    and fresh :: "'m \<Rightarrow> bool" and owns :: "'m \<Rightarrow> 's \<Rightarrow> bool" and free :: "'m \<Rightarrow> 's \<Rightarrow> bool"
    and bound_to :: "'m \<Rightarrow> string \<Rightarrow> bool"
  assumes mutex: "distributed_mutex (a_TryLock A c) (a_Unlock A c) fresh owns free"
    and new_fresh: "a_NewMutex A key = Some m \<Longrightarrow> fresh m \<and> bound_to m key"
    and trylock_key: "fresh m \<Longrightarrow> bound_to m key \<Longrightarrow> a_TryLock A c m s = (res, m', s') \<Longrightarrow> bound_to m' key"
    and lock_acquired: "fresh m \<Longrightarrow> bound_to m key \<Longrightarrow> a_Lock A c m s = Some (None, m', s') \<Longrightarrow>
          owns m' s' \<and> bound_to m' key"
    and unlock_owner: "owns m s0 \<Longrightarrow> a_Unlock A c m s = (None, m', s') \<Longrightarrow>
          owns m s \<and> (free m' s' \<longleftrightarrow> free m s')"
begin

lemma run_locked_section:
  assumes "owns m s1" and "bound_to m key" and "run_locked A c act m s1 = (res, s')"
  shows "section_ran A owns free bound_to c key act res s'"
proof -
  obtain r s2 where r: "act c s1 = (r, s2)" by fastforce
  obtain u m' s3 where u: "a_Unlock A c m s2 = (u, m', s3)" by (metis prod_cases3)
  have res: "s' = s3" "res = deferred_end u r"
    using assms(3) r u by (simp_all add: run_locked_def)
  have "owns m s2 \<and> free m s3" if "u = None"
  proof -
    from u that have un: "a_Unlock A c m s2 = (None, m', s3)" by simp
    from unlock_owner[OF assms(1) un] distributed_mutex.unlock_released[OF mutex _ un] show ?thesis by blast
  qed
  with assms(1,2) r u res
  have "owns m s1 \<and> bound_to m key \<and> act c s1 = (r, s2) \<and> s' = snd (snd (a_Unlock A c m s2))
      \<and> res = deferred_end (fst (a_Unlock A c m s2)) r
      \<and> (fst (a_Unlock A c m s2) = None \<longrightarrow> owns m s2 \<and> free m s')"
    by simp
  then show ?thesis unfolding section_ran_def by (intro exI)
qed

lemma try_do:
  assumes "k_Atomic d = A" and "MutexCtxTryDo d ctx key (Some act) s = (res, s')"
  shows "(\<exists>err. res = Returns (False, err) \<and> (\<forall>act'. MutexCtxTryDo d ctx key (Some act') s = (res, s')))
    \<or> (\<exists>r. section_ran A owns free bound_to (or_background ctx) key act r s'
          \<and> res = (case r of Returns err \<Rightarrow> Returns (True, err) | Panics v \<Rightarrow> Panics v))"
proof (cases "a_NewMutex A key")
  case None
  with assms show ?thesis by (auto simp: MutexCtxTryDo_def Let_def)
next
  case (Some m)
  let ?c = "or_background ctx"
  obtain t m1 s1 where t: "a_TryLock A ?c m s = (t, m1, s1)" by (metis prod_cases3)
  show ?thesis
  proof (cases "t = Inr True")
    case False
    then have "(\<exists>e. t = Inl e) \<or> t = Inr False" by (cases t) auto
    with assms Some t show ?thesis by (auto simp: MutexCtxTryDo_def Let_def)
  next
    case True
    obtain r s2 where r: "run_locked A ?c act m1 s1 = (r, s2)" by fastforce
    have "owns m1 s1" "bound_to m1 key"
      using distributed_mutex.trylock_acquired[OF mutex] new_fresh[OF Some] t True trylock_key by blast+
    from run_locked_section[OF this r] assms Some t True r show ?thesis
      by (auto simp: MutexCtxTryDo_def Let_def split: outcome.splits)
  qed
qed

lemma wait_do:
  assumes "k_Atomic d = A" and "MutexCtxDo d ctx key (Some act) s = Some (res, s')"
  shows "(\<exists>e. res = Returns (Some e) \<and> (\<forall>act'. MutexCtxDo d ctx key (Some act') s = Some (res, s')))
    \<or> section_ran A owns free bound_to (or_background ctx) key act res s'"
proof (cases "a_NewMutex A key")
  case None
  with assms show ?thesis by (auto simp: MutexCtxDo_def Let_def)
next
  case (Some m)
  let ?c = "or_background ctx"
  from assms Some obtain e m1 s1 where l: "a_Lock A ?c m s = Some (e, m1, s1)"
    by (auto simp: MutexCtxDo_def Let_def split: option.splits)
  show ?thesis
  proof (cases e)
    case (Some e')
    with assms l \<open>a_NewMutex A key = Some m\<close> show ?thesis by (auto simp: MutexCtxDo_def Let_def)
  next
    case None
    from lock_acquired[OF _ _ l[unfolded None]] new_fresh[OF Some] have own: "owns m1 s1" "bound_to m1 key" by blast+
    from assms Some l None have "run_locked A ?c act m1 s1 = (res, s')" by (simp add: MutexCtxDo_def Let_def)
    from run_locked_section[OF own this] show ?thesis by blast
  qed
qed

end

section \<open>Properties of the default kit\<close>

text \<open>
  The default kit: a failed initialisation leaves the registered kit as it was and a successful
  one registers the kit it returns; asking for the kit before any was set, or after a reset, panics
  with \<open>ErrDefaultKitNotConfigured\<close>, and otherwise gives the kit set last.
\<close>

theorem default_kit_locator:
  "(case InitDefaultKit sf ctx atomic locator s of
      (Inl e, locator', s') \<Rightarrow> locator' = locator
    | (Inr kit, locator', s') \<Rightarrow> locator' = Some kit \<and> DefaultKit locator' = Returns kit)
   \<and> DefaultKit (SetDefaultKit (Some k) locator) = Returns k
   \<and> DefaultKit (ResetDefaultKit locator) = Panics ErrDefaultKitNotConfigured"
  by (auto simp: InitDefaultKit_def DefaultKit_def SetDefaultKit_def ResetDefaultKit_def
      NewDefaultKitWithContext_def split: prod.splits sum.splits option.splits)

end
