(* ===== verification/Redis_Server.thy ===== *)
theory Redis_Server
  imports Pass_Context
begin

text \<open>
  The Redis server and its Go client are not part of the repository: they are a parameter, a
  record of the commands the code sends, over an arbitrary type \<open>'r\<close> of server states. The
  locale \<open>redis_server\<close> states their documented behaviour in terms of \<open>live r k\<close>, the
  value a key has that is present and not expired. A command that fails on the way may or may
  not have been executed. Lua scripts are run atomically by \<open>rc_Eval\<close>; a script is a function
  built from the commands \<open>redis.call\<close> offers (\<open>rc_call_get\<close> and so on).

  A reference server (a clock and a table of values with expiry times) shows that the stated
  behaviour can be had; the witnesses of the Redis properties run on it.
\<close>

record 'r redis_client =
  rc_SetNX :: "'r \<Rightarrow> string \<Rightarrow> string \<Rightarrow> duration \<Rightarrow> bool result \<times> 'r"
  rc_Get :: "'r \<Rightarrow> string \<Rightarrow> string option result \<times> 'r"
  rc_Exists :: "'r \<Rightarrow> string \<Rightarrow> int result \<times> 'r"
  rc_Set :: "'r \<Rightarrow> string \<Rightarrow> string \<Rightarrow> duration \<Rightarrow> unit result \<times> 'r"
  rc_Del :: "'r \<Rightarrow> string \<Rightarrow> int result \<times> 'r"
  rc_Scan :: "'r \<Rightarrow> nat \<Rightarrow> string \<Rightarrow> (string list \<times> nat) result \<times> 'r"
  rc_Eval :: "'r \<Rightarrow> ('r \<Rightarrow> int \<times> 'r) \<Rightarrow> int result \<times> 'r"
  rc_call_get :: "'r \<Rightarrow> string \<Rightarrow> string option"
  rc_call_del :: "'r \<Rightarrow> string \<Rightarrow> int \<times> 'r"
  rc_call_pexpire :: "'r \<Rightarrow> string \<Rightarrow> int \<Rightarrow> int \<times> 'r"

text \<open>The two scripts of the package (\<open>deleteIfValueScript\<close>, \<open>continueLeaderScript\<close>).\<close>

definition deleteIfValueScript :: "'r redis_client \<Rightarrow> string \<Rightarrow> string \<Rightarrow> 'r \<Rightarrow> int \<times> 'r" where
  "deleteIfValueScript cli key arg r =
     (if rc_call_get cli r key = Some arg then rc_call_del cli r key else (0, r))"

definition continueLeaderScript ::
    "'r redis_client \<Rightarrow> string \<Rightarrow> string \<Rightarrow> int \<Rightarrow> 'r \<Rightarrow> int \<times> 'r" where
  "continueLeaderScript cli key arg ms r =
     (if rc_call_get cli r key = Some arg then rc_call_pexpire cli r key ms else (0, r))"

section \<open>Documented behaviour\<close>

locale redis_server =
  fixes cli :: "'r redis_client"
    and live :: "'r \<Rightarrow> string \<Rightarrow> string option"
  assumes SetNX_stored: "rc_SetNX cli r k v ttl = (Inr True, r') \<Longrightarrow>
      live r k = None \<and> live r' = (live r)(k \<mapsto> v)"
    and SetNX_refused: "rc_SetNX cli r k v ttl = (Inr False, r') \<Longrightarrow>
      live r k \<noteq> None \<and> live r' = live r"
    and SetNX_failed: "rc_SetNX cli r k v ttl = (Inl e, r') \<Longrightarrow>
      live r' = live r \<or> (live r k = None \<and> live r' = (live r)(k \<mapsto> v))"
    and Get_value: "rc_Get cli r k = (Inr x, r') \<Longrightarrow> x = live r k \<and> live r' = live r"
    and Get_failed: "rc_Get cli r k = (Inl e, r') \<Longrightarrow> live r' = live r"
    and Exists_value: "rc_Exists cli r k = (Inr n, r') \<Longrightarrow>
      (0 < n \<longleftrightarrow> live r k \<noteq> None) \<and> live r' = live r"
    and Exists_failed: "rc_Exists cli r k = (Inl e, r') \<Longrightarrow> live r' = live r"
    and Set_stored: "rc_Set cli r k v ttl = (Inr u, r') \<Longrightarrow> live r' = (live r)(k \<mapsto> v)"
    and Set_failed: "rc_Set cli r k v ttl = (Inl e, r') \<Longrightarrow>
      live r' = live r \<or> live r' = (live r)(k \<mapsto> v)"
    and Del_done: "rc_Del cli r k = (Inr n, r') \<Longrightarrow> live r' = (live r)(k := None)"
    and Del_failed: "rc_Del cli r k = (Inl e, r') \<Longrightarrow>
      live r' = live r \<or> live r' = (live r)(k := None)"
    and Eval_ran: "rc_Eval cli r script = (Inr n, r') \<Longrightarrow> script r = (n, r')"
    and Eval_failed: "rc_Eval cli r script = (Inl e, r') \<Longrightarrow>
      live r' = live r \<or> live r' = live (snd (script r))"
    and call_get: "rc_call_get cli r k = live r k"
    and call_del: "rc_call_del cli r k = (n, r') \<Longrightarrow>
      live r' = (live r)(k := None) \<and> (n = 0 \<longleftrightarrow> live r k = None)"
    and call_pexpire: "0 < ms \<Longrightarrow> rc_call_pexpire cli r k ms = (n, r') \<Longrightarrow>
      live r' = live r \<and> (n = 0 \<longleftrightarrow> live r k = None)"
begin

lemma deleteIfValue_result:
  assumes "deleteIfValueScript cli k v r = (n, r')"
  shows "(n = 0 \<longleftrightarrow> live r k \<noteq> Some v)
    \<and> live r' = (if live r k = Some v then (live r)(k := None) else live r)"
  using assms by (auto simp: deleteIfValueScript_def call_get dest: call_del split: if_splits)

lemma continueLeader_result:
  assumes "0 < ms" and "continueLeaderScript cli k v ms r = (n, r')"
  shows "(n = 0 \<longleftrightarrow> live r k \<noteq> Some v) \<and> live r' = live r"
  using assms by (auto simp: continueLeaderScript_def call_get dest: call_pexpire split: if_splits)

text \<open>
  Deleting by value through \<open>Eval\<close>: whatever happens on the way, a key that holds another
  value is left alone, and so is every other key.
\<close>

lemma Eval_deleteIfValue_other:
  assumes "rc_Eval cli r (deleteIfValueScript cli k v) = (res, r')"
    and "k' \<noteq> k \<or> live r k' \<noteq> Some v"
  shows "live r' k' = live r k'"
proof -
  obtain n r1 where scr: "deleteIfValueScript cli k v r = (n, r1)" by fastforce
  note d = deleteIfValue_result[OF scr]
  show ?thesis
  proof (cases res)
    case (Inl e)
    with Eval_failed assms(1) scr have "live r' = live r \<or> live r' = live r1" by fastforce
    with d assms(2) show ?thesis by (auto split: if_splits)
  next
    case (Inr m)
    with Eval_ran assms(1) scr have "r' = r1" by fastforce
    with d assms(2) show ?thesis by (auto split: if_splits)
  qed
qed

lemma Eval_deleteIfValue_ok:
  assumes "rc_Eval cli r (deleteIfValueScript cli k v) = (Inr n, r')"
  shows "(n = 0 \<longleftrightarrow> live r k \<noteq> Some v)
    \<and> live r' = (if live r k = Some v then (live r)(k := None) else live r)"
  using deleteIfValue_result[OF Eval_ran[OF assms]] .

text \<open>A key that is live stays so under \<open>SetNX\<close> of any key, whatever the outcome.\<close>

lemma SetNX_keeps:
  assumes "rc_SetNX cli r k v ttl = (res, r')" and "live r k' = Some x"
  shows "live r' k' = Some x"
proof (cases res)
  case (Inl e)
  with SetNX_failed assms show ?thesis by (fastforce split: if_splits)
next
  case (Inr b)
  with SetNX_stored SetNX_refused assms show ?thesis by (cases b) (fastforce split: if_splits)+
qed

end

subsection \<open>Iterating over keys\<close>

text \<open>
  \<open>SCAN\<close> hands out the keyspace in pages; an iteration starts at cursor 0 and ends when the
  server returns cursor 0. Between two pages other clients may act. \<open>scan_iter c p cur r ks rs\<close>:
  an iteration from cursor \<open>cur\<close> in state \<open>r\<close> returned the keys \<open>ks\<close>, its pages being
  read in the states \<open>rs\<close>.
\<close>

inductive scan_iter :: "'r redis_client \<Rightarrow> string \<Rightarrow> nat \<Rightarrow> 'r \<Rightarrow> string list \<Rightarrow> 'r list \<Rightarrow> bool"
  for c :: "'r redis_client" and p :: string where
  last_page: "rc_Scan c r cur p = (Inr (ks, 0), r') \<Longrightarrow> scan_iter c p cur r ks [r]"
| next_page: "rc_Scan c r cur p = (Inr (ks, cur'), r') \<Longrightarrow> cur' \<noteq> 0 \<Longrightarrow>
     scan_iter c p cur' r'' ks' rs \<Longrightarrow> scan_iter c p cur r (ks @ ks') (r # rs)"

text \<open>Strings without the special characters of Redis glob patterns.\<close>

definition glob_plain :: "string \<Rightarrow> bool" where
  "glob_plain p \<longleftrightarrow> list_all (\<lambda>ch. ch \<notin> {CHR ''*'', CHR ''?'', CHR ''['', CHR 0x5C}) p"

locale redis_scan = redis_server cli live
  for cli :: "'r redis_client" and live :: "'r \<Rightarrow> string \<Rightarrow> string option" +
  fixes glob :: "string \<Rightarrow> string \<Rightarrow> bool"
  assumes glob_star: "glob_plain p \<Longrightarrow> glob (p @ ''*'') k \<longleftrightarrow> prefix p k"
    and Scan_page: "rc_Scan cli r cur p = (Inr (ks, cur'), r') \<Longrightarrow>
      live r' = live r \<and> (\<forall>k \<in> set ks. glob p k \<and> live r k \<noteq> None)"
    and Scan_failed: "rc_Scan cli r cur p = (Inl e, r') \<Longrightarrow> live r' = live r"
    and Scan_full: "scan_iter cli p 0 r ks rs \<Longrightarrow> glob p k \<Longrightarrow>
      (\<And>x. x \<in> set rs \<Longrightarrow> live x k \<noteq> None) \<Longrightarrow> k \<in> set ks"

section \<open>A reference server\<close>

text \<open>A clock and a table of values with their expiry times.\<close>

record mem_server =
  ms_now :: time
  ms_tab :: "(string \<times> string \<times> time) list"

definition mem_live :: "mem_server \<Rightarrow> string \<Rightarrow> string option" where
  "mem_live r k =
     (case map_of (ms_tab r) k of Some (v, e) \<Rightarrow> if ms_now r < e then Some v else None | None \<Rightarrow> None)"

definition mem_put :: "mem_server \<Rightarrow> string \<Rightarrow> string \<Rightarrow> duration \<Rightarrow> mem_server" where
  "mem_put r k v ttl = r\<lparr>ms_tab := (k, v, ms_now r + max ttl 1) # ms_tab r\<rparr>"

definition mem_drop :: "mem_server \<Rightarrow> string \<Rightarrow> mem_server" where
  "mem_drop r k = r\<lparr>ms_tab := filter (\<lambda>x. fst x \<noteq> k) (ms_tab r)\<rparr>"

definition mem_advance :: "mem_server \<Rightarrow> duration \<Rightarrow> mem_server" where
  "mem_advance r d = r\<lparr>ms_now := ms_now r + d\<rparr>"

fun mem_glob :: "string \<Rightarrow> string \<Rightarrow> bool" where
  "mem_glob [] s = (s = [])"
| "mem_glob (c # p) [] = (c = CHR ''*'' \<and> mem_glob p [])"
| "mem_glob (c # p) (x # s) =
     (if c = CHR ''*'' then mem_glob p (x # s) \<or> mem_glob (c # p) s
      else (c = CHR ''?'' \<or> c = x) \<and> mem_glob p s)"

definition mem_client :: "mem_server redis_client" where
  "mem_client = \<lparr>
     rc_SetNX = (\<lambda>r k v ttl. if mem_live r k = None then (Inr True, mem_put r k v ttl) else (Inr False, r)),
     rc_Get = (\<lambda>r k. (Inr (mem_live r k), r)),
     rc_Exists = (\<lambda>r k. (Inr (if mem_live r k = None then 0 else 1), r)),
     rc_Set = (\<lambda>r k v ttl. (Inr (), mem_put r k v ttl)),
     rc_Del = (\<lambda>r k. (Inr (if mem_live r k = None then 0 else 1), mem_drop r k)),
     rc_Scan = (\<lambda>r c p. (Inr (filter (\<lambda>k. mem_glob p k \<and> mem_live r k \<noteq> None) (remdups (map fst (ms_tab r))), 0), r)),
     rc_Eval = (\<lambda>r script. case script r of (n, r') \<Rightarrow> (Inr n, r')),
     rc_call_get = mem_live,
     rc_call_del = (\<lambda>r k. (if mem_live r k = None then 0 else 1, mem_drop r k)),
     rc_call_pexpire = (\<lambda>r k ms. case mem_live r k of
         None \<Rightarrow> (0, r)
       | Some v \<Rightarrow> (1, mem_put r k v (ms * Millisecond)))\<rparr>"

lemma map_of_drop: "map_of (filter (\<lambda>x. fst x \<noteq> k) t) = (map_of t)(k := None)"
  by (induction t) (auto simp: fun_eq_iff)

lemma mem_live_put [simp]: "mem_live (mem_put r k v ttl) = (mem_live r)(k \<mapsto> v)"
  by (auto simp: mem_live_def mem_put_def fun_eq_iff split: option.split)

lemma mem_live_drop [simp]: "mem_live (mem_drop r k) = (mem_live r)(k := None)"
  by (auto simp: mem_live_def mem_drop_def map_of_drop fun_eq_iff split: option.split)

lemma mem_live_key: "mem_live r k \<noteq> None \<Longrightarrow> k \<in> fst ` set (ms_tab r)"
  using map_of_eq_None_iff[of "ms_tab r" k] by (force simp: mem_live_def split: option.splits)

lemma mem_glob_star: "glob_plain p \<Longrightarrow> mem_glob (p @ ''*'') k \<longleftrightarrow> prefix p k"
proof (induction p arbitrary: k)
  case Nil
  show ?case by (induction k) simp_all
next
  case (Cons c p)
  then show ?case by (cases k) (auto simp: glob_plain_def)
qed

interpretation mem: redis_server mem_client mem_live
  by unfold_locales
    (auto simp: mem_client_def split: if_splits option.splits prod.splits)

lemma mem_Scan [simp]:
  "rc_Scan mem_client r c p =
     (Inr (filter (\<lambda>k. mem_glob p k \<and> mem_live r k \<noteq> None) (remdups (map fst (ms_tab r))), 0), r)"
  by (simp add: mem_client_def)

interpretation mem: redis_scan mem_client mem_live mem_glob
proof (unfold_locales, goal_cases)
  case (1 p k)
  then show ?case by (rule mem_glob_star)
next
  case (4 p r ks rs k)
  from 4(1) have "rs = [r]" "ks = filter (\<lambda>k. mem_glob p k \<and> mem_live r k \<noteq> None) (remdups (map fst (ms_tab r)))"
    by (auto elim: scan_iter.cases)
  with 4(2) 4(3)[of r] mem_live_key[of r k] show ?case by simp
qed auto

end
