(* ===== verification/Redis_Keys.thy ===== *)
theory Redis_Keys
  imports Redis_Server
begin

text \<open>
  The key layout of \<open>dkit/redis/redis.go\<close>: mutex, random-number, leader and heartbeat keys.
  Isolation and node keys go through unpadded URL-safe base64 (\<open>base64.RawURLEncoding\<close> of the
  standard library), which is modelled here byte by byte; the decoder skips line breaks and does
  not check trailing bits, as Go's non-strict decoder does (the offset its error reports is not
  modelled).

  Lemmas: decoding inverts encoding, so encoded components are injective and contain neither the
  separator nor a glob character; keys of one kind determine their components.
\<close>

section \<open>Unpadded URL-safe base64\<close>

definition b64_char :: "nat \<Rightarrow> char" where
  "b64_char d =
     (if d < 26 then char_of (65 + d)
      else if d < 52 then char_of (97 + (d - 26))
      else if d < 62 then char_of (48 + (d - 52))
      else if d = 62 then CHR ''-'' else CHR ''_'')"

definition b64_val :: "char \<Rightarrow> nat option" where
  "b64_val c =
     (let n = of_char c in
      if 65 \<le> n \<and> n \<le> 90 then Some (n - 65)
      else if 97 \<le> n \<and> n \<le> 122 then Some (n - 97 + 26)
      else if 48 \<le> n \<and> n \<le> (57::nat) then Some (n - 48 + 52)
      else if c = CHR ''-'' then Some 62
      else if c = CHR ''_'' then Some 63
      else None)"

fun b64_enc :: "nat list \<Rightarrow> nat list" where
  "b64_enc [] = []"
| "b64_enc [a] = [a div 4, (a mod 4) * 16]"
| "b64_enc [a, b] = [a div 4, (a mod 4) * 16 + b div 16, (b mod 16) * 4]"
| "b64_enc (a # b # c # xs) =
     a div 4 # ((a mod 4) * 16 + b div 16) # ((b mod 16) * 4 + c div 64) # (c mod 64) # b64_enc xs"

fun b64_dec :: "nat list \<Rightarrow> nat list option" where
  "b64_dec [] = Some []"
| "b64_dec [x] = None"
| "b64_dec [x, y] = Some [x * 4 + y div 16]"
| "b64_dec [x, y, z] = Some [x * 4 + y div 16, (y mod 16) * 16 + z div 4]"
| "b64_dec (x # y # z # u # ds) =
     (case b64_dec ds of
        None \<Rightarrow> None
      | Some bs \<Rightarrow> Some ((x * 4 + y div 16) # ((y mod 16) * 16 + z div 4) # ((z mod 4) * 64 + u) # bs))"

definition encodeComponent :: "string \<Rightarrow> string" where
  "encodeComponent value = map b64_char (b64_enc (map of_char value))"

definition decodeComponent :: "string \<Rightarrow> string result" where
  "decodeComponent value =
     (let cs = filter (\<lambda>c. c \<noteq> CHR 0x0A \<and> c \<noteq> CHR 0x0D) value in
      case those (map b64_val cs) of
        None \<Rightarrow> Inl (OpaqueError ''illegal base64 data'')
      | Some ds \<Rightarrow>
          (case b64_dec ds of
             None \<Rightarrow> Inl (OpaqueError ''illegal base64 data'')
           | Some bs \<Rightarrow> Inr (map char_of bs)))"

section \<open>Keys\<close>

definition buildMutexKey :: "string \<Rightarrow> string \<Rightarrow> string" where
  "buildMutexKey prefx key = prefx @ '':mutex:'' @ key"

definition buildRandomKey :: "string \<Rightarrow> int \<Rightarrow> string" where
  "buildRandomKey prefx num = prefx @ '':random:'' @ FormatInt num"

definition buildLeaderKey :: "string \<Rightarrow> string \<Rightarrow> string" where
  "buildLeaderKey prefx isolationKey = prefx @ '':leader:'' @ encodeComponent isolationKey"

definition buildHeartbeatKey :: "string \<Rightarrow> string \<Rightarrow> string \<Rightarrow> string" where
  "buildHeartbeatKey prefx isolationKey nodeKey =
     prefx @ '':heartbeat:'' @ encodeComponent isolationKey @ '':'' @ encodeComponent nodeKey"

definition heartbeatMatchPattern :: "string \<Rightarrow> string \<Rightarrow> string" where
  "heartbeatMatchPattern prefx isolationKey =
     prefx @ '':heartbeat:'' @ encodeComponent isolationKey @ '':*''"

section \<open>Round trip\<close>

lemma b64_val_char: "d < 64 \<Longrightarrow> b64_val (b64_char d) = Some d"
  by (auto simp: b64_val_def b64_char_def Let_def)

lemma b64_val_clean:
  "b64_val c = Some d \<Longrightarrow>
     c \<notin> {CHR '':'', CHR ''*'', CHR ''?'', CHR ''['', CHR 0x5C, CHR 0x0A, CHR 0x0D}"
  by (auto simp: b64_val_def)

lemma b64_char_clean:
  "d < 64 \<Longrightarrow> b64_char d \<notin> {CHR '':'', CHR ''*'', CHR ''?'', CHR ''['', CHR 0x5C, CHR 0x0A, CHR 0x0D}"
  by (rule b64_val_clean[OF b64_val_char])

lemma b64_enc_bound: "list_all (\<lambda>b. b < 256) bs \<Longrightarrow> list_all (\<lambda>d. d < 64) (b64_enc bs)"
  by (induction bs rule: b64_enc.induct) (auto simp: less_mult_imp_div_less)

lemma byte_split:
  fixes a b :: nat
  shows "a div 4 * 4 + a mod 4 = a" "a div 16 * 16 + a mod 16 = a" "a div 64 * 64 + a mod 64 = a"
  by simp_all

lemma b64_dec_enc: "list_all (\<lambda>b. b < 256) bs \<Longrightarrow> b64_dec (b64_enc bs) = Some bs"
proof (induction bs rule: b64_enc.induct)
  case (4 a b c xs)
  have "b div 16 < 16" "c div 64 < 4" using 4 by (auto simp: less_mult_imp_div_less)
  then have "((a mod 4) * 16 + b div 16) div 16 = a mod 4" "((a mod 4) * 16 + b div 16) mod 16 = b div 16"
    "((b mod 16) * 4 + c div 64) div 4 = b mod 16" "((b mod 16) * 4 + c div 64) mod 4 = c div 64"
    by simp_all
  with 4 show ?case by simp
next
  case (3 a b)
  then have "b div 16 < 16" by (simp add: less_mult_imp_div_less)
  then have "((a mod 4) * 16 + b div 16) div 16 = a mod 4" "((a mod 4) * 16 + b div 16) mod 16 = b div 16"
    by simp_all
  then show ?case by simp
qed simp_all

lemma those_map_Some: "(\<And>x. x \<in> set xs \<Longrightarrow> f x = Some (g x)) \<Longrightarrow> those (map f xs) = Some (map g xs)"
  by (induction xs) simp_all

lemma bytes_bound: "list_all (\<lambda>b. b < 256) (map (of_char :: char \<Rightarrow> nat) s)"
  by (simp add: list_all_iff)

lemma encodeComponent_clean:
  assumes "c \<in> set (encodeComponent s)"
  shows "c \<notin> {CHR '':'', CHR ''*'', CHR ''?'', CHR ''['', CHR 0x5C, CHR 0x0A, CHR 0x0D}"
  using assms b64_enc_bound[OF bytes_bound, of s] b64_char_clean
  unfolding encodeComponent_def list_all_iff by auto

lemma decode_encodeComponent: "decodeComponent (encodeComponent s) = Inr s"
proof -
  have "filter (\<lambda>c. c \<noteq> CHR 0x0A \<and> c \<noteq> CHR 0x0D) (encodeComponent s) = encodeComponent s"
    using encodeComponent_clean by (auto intro!: filter_True)
  moreover have "those (map b64_val (encodeComponent s)) = Some (b64_enc (map of_char s))"
    using b64_enc_bound[OF bytes_bound, of s]
      those_map_Some[of "b64_enc (map of_char s)" "b64_val \<circ> b64_char" id]
    by (simp add: encodeComponent_def list_all_iff b64_val_char)
  ultimately show ?thesis
    by (simp add: decodeComponent_def b64_dec_enc[OF bytes_bound] comp_def)
qed

lemma encodeComponent_inj [simp]: "encodeComponent s = encodeComponent t \<longleftrightarrow> s = t"
  by (metis decode_encodeComponent sum.inject(2))

lemma encodeComponent_Nil [simp]: "encodeComponent s = [] \<longleftrightarrow> s = []"
proof -
  have "encodeComponent [] = []" by (simp add: encodeComponent_def)
  then show ?thesis by (metis encodeComponent_inj)
qed

lemma encodeComponent_no_colon [simp]: "CHR '':'' \<notin> set (encodeComponent s)"
  using encodeComponent_clean by blast

lemma encodeComponent_plain [simp]: "glob_plain (encodeComponent s)"
  using encodeComponent_clean unfolding glob_plain_def list_all_iff by blast

section \<open>Keys determine their components\<close>

lemma buildHeartbeatKey_split:
  "buildHeartbeatKey p ik n = (p @ '':heartbeat:'' @ encodeComponent ik) @ CHR '':'' # encodeComponent n"
  by (simp add: buildHeartbeatKey_def)

lemma buildHeartbeatKey_inj:
  "buildHeartbeatKey p ik n = buildHeartbeatKey p ik' n' \<longleftrightarrow> ik = ik' \<and> n = n'"
proof
  assume "buildHeartbeatKey p ik n = buildHeartbeatKey p ik' n'"
  from split_at_last[OF this[unfolded buildHeartbeatKey_split]]
  show "ik = ik' \<and> n = n'" by simp
qed simp

text \<open>
  The Redis key layout keeps the primitives apart: base64 components decode to what was
  encoded, keys of one kind are equal only for equal components, keys of different kinds under
  one prefix never coincide, and the heartbeat keys that start like the scan pattern of an
  election domain are exactly those of that domain.
\<close>

theorem redis_keys_separate:
  "decodeComponent (encodeComponent s) = Inr s
   \<and> (buildMutexKey p k = buildMutexKey p k' \<longleftrightarrow> k = k')
   \<and> (buildRandomKey p i = buildRandomKey p i' \<longleftrightarrow> i = i')
   \<and> (buildLeaderKey p ik = buildLeaderKey p ik' \<longleftrightarrow> ik = ik')
   \<and> (buildHeartbeatKey p ik n = buildHeartbeatKey p ik' n' \<longleftrightarrow> ik = ik' \<and> n = n')
   \<and> distinct [buildMutexKey p k, buildRandomKey p i, buildLeaderKey p ik, buildHeartbeatKey p ik' n]
   \<and> (prefix (butlast (heartbeatMatchPattern p ik)) (buildHeartbeatKey p ik' n) \<longleftrightarrow> ik = ik')"
proof -
  have "prefix (encodeComponent ik @ '':'') (encodeComponent ik' @ CHR '':'' # encodeComponent n) \<longleftrightarrow> ik = ik'"
    (is "?l \<longleftrightarrow> _")
  proof
    assume ?l
    then obtain x where "encodeComponent ik @ CHR '':'' # x = encodeComponent ik' @ CHR '':'' # encodeComponent n"
      by (auto simp: prefix_def)
    from this[symmetric] have "encodeComponent ik' = encodeComponent ik"
      unfolding append_Cons_eq_iff[OF encodeComponent_no_colon encodeComponent_no_colon] by (rule conjunct1)
    then show "ik = ik'" by simp
  qed (simp add: prefix_def)
  then have pat: "prefix (butlast (heartbeatMatchPattern p ik)) (buildHeartbeatKey p ik' n) \<longleftrightarrow> ik = ik'"
    by (simp add: heartbeatMatchPattern_def buildHeartbeatKey_def butlast_append)
  show ?thesis
    unfolding buildHeartbeatKey_inj pat
    by (simp add: decode_encodeComponent buildMutexKey_def buildRandomKey_def buildLeaderKey_def
        buildHeartbeatKey_def)
qed

end
