(* ===== verification/Redis_Mutex.thy ===== *)
theory Redis_Mutex
  imports Dkit_Lock Redis_Keys
begin

text \<open>
  \<open>dkit/redis/mutex.go\<close>: the Redis mutex. \<open>tryLock\<close> stores a token with \<open>SET NX\<close> and a
  lease; with a reentrant identity it then reads the holder. Between two commands of one
  operation other clients may act: the argument \<open>mid\<close> is what they do to the server there.
  Readings of the clock are arguments. The process-wide counter \<open>mutexTokenSeq\<close> is a 64-bit
  word threaded together with the server state. A blocking \<open>Lock\<close> is driven by a list of
  wake-ups; \<open>None\<close> means that it is still waiting when the list ends.

  Lemmas: every operation meets the contract \<open>distributed_mutex\<close> over any Redis server; a blocking
  \<open>Lock\<close> returns; and what a stale instance does. Systems of instances are in \<open>Redis_Holders\<close>.
\<close>

section \<open>Tokens\<close>

definition lock_token :: "time \<Rightarrow> nat \<Rightarrow> string" where
  "lock_token now n = ''lock-'' @ FormatInt now @ ''-'' @ FormatUint n"

text \<open>\<open>nextLockValue\<close>: \<open>mutexTokenSeq.Add(1)\<close> wraps at 64 bits and returns the new value.\<close>

definition nextLockValue :: "time \<Rightarrow> 64 word \<Rightarrow> string \<times> 64 word" where
  "nextLockValue now seq = (lock_token now (unat (seq + 1)), seq + 1)"

section \<open>Instances\<close>

record 'r redis_mutex_impl =
  mi_redisCli :: "'r redis_client option"
  mi_keyPrefix :: string
  mi_defaultTTL :: duration

record 'r redis_mutex =
  rm_key :: string
  rm_redisCli :: "'r redis_client option"
  rm_redisKey :: string
  rm_lockValue :: string
  rm_defaultTTL :: duration

definition NewMutexImpl :: "'r redis_client option \<Rightarrow> string \<Rightarrow> duration \<Rightarrow> 'r redis_mutex_impl" where
  "NewMutexImpl c keyPrefix ttl =
     \<lparr>mi_redisCli = c, mi_keyPrefix = keyPrefix, mi_defaultTTL = ttl\<rparr>"

definition redis_NewMutex :: "'r redis_mutex_impl \<Rightarrow> string \<Rightarrow> 'r redis_mutex" where
  "redis_NewMutex impl key =
     \<lparr>rm_key = key, rm_redisCli = mi_redisCli impl,
      rm_redisKey = buildMutexKey (mi_keyPrefix impl) key,
      rm_lockValue = [], rm_defaultTTL = mi_defaultTTL impl\<rparr>"

definition redis_GetMutexDefaultTTL :: "'r redis_mutex_impl \<Rightarrow> duration" where
  "redis_GetMutexDefaultTTL impl =
     (if mi_defaultTTL impl > 0 then mi_defaultTTL impl else DefaultLockTTL)"

section \<open>Operations\<close>

definition nil_client :: go_error where
  "nil_client = WrapError [] ErrInvalidOption '': redis client is nil''"

text \<open>
  \<open>tryLock\<close> in two parts: up to \<open>SET NX\<close>, where \<open>Inr x\<close> says that the key is taken and that its holder is to be
  compared with the reentrant identity \<open>x\<close>; and reading the holder.
\<close>

definition redis_try_set ::
    "time \<Rightarrow> lock_option \<Rightarrow> 'r redis_mutex \<Rightarrow> 64 word \<times> 'r
       \<Rightarrow> (go_error option \<times> 'r redis_mutex + string) \<times> 64 word \<times> 'r" where
  "redis_try_set now opt m w =
     (case rm_redisCli m of
        None \<Rightarrow> (Inl (Some nil_client, m), w)
      | Some c \<Rightarrow>
          if rm_lockValue m \<noteq> [] then (Inl (None, m), w)
          else
            let (seq, r) = w;
                (lockValue, seq) =
                  (if ReentrantIdentity opt = [] then nextLockValue now seq
                   else (ReentrantIdentity opt, seq))
            in case rc_SetNX c r (rm_redisKey m) lockValue (TTL opt) of
                 (Inl e, r) \<Rightarrow> (Inl (Some (WrapError ''acquire lock failed: '' e []), m), seq, r)
               | (Inr True, r) \<Rightarrow> (Inl (None, m\<lparr>rm_lockValue := lockValue\<rparr>), seq, r)
               | (Inr False, r) \<Rightarrow>
                   if ReentrantIdentity opt = [] then (Inl (None, m), seq, r)
                   else (Inr (ReentrantIdentity opt), seq, r))"

definition redis_try_get :: "string \<Rightarrow> 'r redis_mutex \<Rightarrow> 'r \<Rightarrow> go_error option \<times> 'r redis_mutex \<times> 'r" where
  "redis_try_get identity m r =
     (case rm_redisCli m of
        None \<Rightarrow> (Some nil_client, m, r)
      | Some c \<Rightarrow>
          (case rc_Get c r (rm_redisKey m) of
             (Inr None, r) \<Rightarrow> (None, m\<lparr>rm_lockValue := []\<rparr>, r)
           | (Inl e, r) \<Rightarrow> (Some (WrapError ''get lock holder failed: '' e []), m, r)
           | (Inr (Some holder), r) \<Rightarrow>
               if holder = identity then (None, m\<lparr>rm_lockValue := identity\<rparr>, r)
               else (None, m\<lparr>rm_lockValue := []\<rparr>, r)))"

definition redis_tryLock ::
    "time \<Rightarrow> ('r \<Rightarrow> 'r) \<Rightarrow> lock_option \<Rightarrow> 'r redis_mutex \<Rightarrow> 64 word \<times> 'r
       \<Rightarrow> go_error option \<times> 'r redis_mutex \<times> 64 word \<times> 'r" where
  "redis_tryLock now mid opt m w =
     (case redis_try_set now opt m w of
        (Inl (res, m), w) \<Rightarrow> (res, m, w)
      | (Inr identity, seq, r) \<Rightarrow> (case redis_try_get identity m (mid r) of (res, m, r) \<Rightarrow> (res, m, seq, r)))"

text \<open>The attempt as a whole.\<close>

lemma redis_tryLock_whole:
  "redis_tryLock now mid opt m w =
     (case rm_redisCli m of
        None \<Rightarrow> (Some nil_client, m, w)
      | Some c \<Rightarrow>
          if rm_lockValue m \<noteq> [] then (None, m, w)
          else
            let (seq, r) = w;
                (lockValue, seq) =
                  (if ReentrantIdentity opt = [] then nextLockValue now seq
                   else (ReentrantIdentity opt, seq))
            in case rc_SetNX c r (rm_redisKey m) lockValue (TTL opt) of
                 (Inl e, r) \<Rightarrow> (Some (WrapError ''acquire lock failed: '' e []), m, seq, r)
               | (Inr True, r) \<Rightarrow> (None, m\<lparr>rm_lockValue := lockValue\<rparr>, seq, r)
               | (Inr False, r) \<Rightarrow>
                   if ReentrantIdentity opt = [] then (None, m, seq, r)
                   else
                     (case rc_Get c (mid r) (rm_redisKey m) of
                        (Inr None, r) \<Rightarrow> (None, m\<lparr>rm_lockValue := []\<rparr>, seq, r)
                      | (Inl e, r) \<Rightarrow> (Some (WrapError ''get lock holder failed: '' e []), m, seq, r)
                      | (Inr (Some holder), r) \<Rightarrow>
                          if holder = ReentrantIdentity opt
                          then (None, m\<lparr>rm_lockValue := ReentrantIdentity opt\<rparr>, seq, r)
                          else (None, m\<lparr>rm_lockValue := []\<rparr>, seq, r)))"
  by (auto simp: redis_tryLock_def redis_try_set_def redis_try_get_def Let_def
      split: option.split sum.split bool.split prod.split)

definition redis_TryLock ::
    "time \<Rightarrow> ('r \<Rightarrow> 'r) \<Rightarrow> lock_option_op list \<Rightarrow> 'r redis_mutex \<Rightarrow> 64 word \<times> 'r
       \<Rightarrow> bool result \<times> 'r redis_mutex \<times> 64 word \<times> 'r" where
  "redis_TryLock now mid ops m w =
     (let opt = NewLockOption (rm_defaultTTL m) ops in
      case redis_tryLock now mid opt m w of
        (Some e, m', w') \<Rightarrow> (Inl e, m', w')
      | (None, m', w') \<Rightarrow> (Inr (rm_lockValue m' \<noteq> []), m', w'))"

text \<open>
  A wake-up of a waiting \<open>Lock\<close>: the event, what others did to the server since the last one
  (\<open>wk_env\<close>), the clock, and what they do in the middle of the retry.
\<close>

record 'r wake =
  wk_event :: lock_event
  wk_env :: "'r \<Rightarrow> 'r"
  wk_now :: time
  wk_mid :: "'r \<Rightarrow> 'r"

fun redis_Lock_loop ::
    "lock_option \<Rightarrow> 'r wake list \<Rightarrow> 'r redis_mutex \<Rightarrow> 64 word \<times> 'r
       \<Rightarrow> (go_error option \<times> 'r redis_mutex \<times> 64 word \<times> 'r) option" where
  "redis_Lock_loop opt [] m w = None"
| "redis_Lock_loop opt (wk # wks) m w =
     (let w = (fst w, wk_env wk (snd w)) in
      case wk_event wk of
        Ticker \<Rightarrow>
          (case redis_tryLock (wk_now wk) (wk_mid wk) opt m w of
             (Some e, m', w') \<Rightarrow> Some (Some e, m', w')
           | (None, m', w') \<Rightarrow>
               if rm_lockValue m' \<noteq> [] then Some (None, m', w')
               else redis_Lock_loop opt wks m' w')
      | MaxWaitTimeout \<Rightarrow>
          if MaxWaitTime opt > 0 then Some (Some ErrLockNotAcquired, m, w)
          else redis_Lock_loop opt wks m w
      | CtxDone e \<Rightarrow> Some (Some e, m, w))"

definition redis_Lock ::
    "time \<Rightarrow> ('r \<Rightarrow> 'r) \<Rightarrow> lock_option_op list \<Rightarrow> 'r wake list \<Rightarrow> 'r redis_mutex \<Rightarrow> 64 word \<times> 'r
       \<Rightarrow> (go_error option \<times> 'r redis_mutex \<times> 64 word \<times> 'r) option" where
  "redis_Lock now mid ops wks m w =
     (let opt = NewLockOption (rm_defaultTTL m) ops in
      case redis_tryLock now mid opt m w of
        (Some e, m', w') \<Rightarrow> Some (Some e, m', w')
      | (None, m', w') \<Rightarrow>
          if rm_lockValue m' \<noteq> [] then Some (None, m', w')
          else redis_Lock_loop opt wks m' w')"

text \<open>
  \<open>Unlock\<close>. A non-empty lock value is only ever set through a non-nil client; with a nil
  client the code would panic, which the model shows as an error of its own.
\<close>

definition redis_Unlock ::
    "'r redis_mutex \<Rightarrow> 64 word \<times> 'r \<Rightarrow> go_error option \<times> 'r redis_mutex \<times> 64 word \<times> 'r" where
  "redis_Unlock m w =
     (if rm_lockValue m = [] then (Some ErrAlreadyUnlocked, m, w)
      else
        case rm_redisCli m of
          None \<Rightarrow> (Some (OpaqueError ''panic: nil redis client''), m, w)
        | Some c \<Rightarrow>
            let (seq, r) = w in
            (case rc_Eval c r (deleteIfValueScript c (rm_redisKey m) (rm_lockValue m)) of
               (Inl e, r) \<Rightarrow> (Some (WrapError ''delete lock detail failed: '' e []), m, seq, r)
             | (Inr ret, r) \<Rightarrow>
                 if ret = 0 then (Some ErrAlreadyUnlocked, m, seq, r)
                 else (None, m\<lparr>rm_lockValue := []\<rparr>, seq, r)))"

definition redis_ExistLock :: "'r redis_mutex \<Rightarrow> 'r \<Rightarrow> bool result \<times> 'r" where
  "redis_ExistLock m r =
     (case rm_redisCli m of
        None \<Rightarrow> (Inl nil_client, r)
      | Some c \<Rightarrow>
          (case rc_Exists c r (rm_redisKey m) of
             (Inl e, r) \<Rightarrow> (Inl (WrapError ''get lock detail failed: '' e []), r)
           | (Inr ret, r) \<Rightarrow> (Inr (ret > 0), r)))"

section \<open>Tokens are unique\<close>

lemma lock_token_inj: "lock_token s m = lock_token t n \<Longrightarrow> m = n"
proof -
  assume "lock_token s m = lock_token t n"
  then have "(''lock-'' @ FormatInt s) @ CHR ''-'' # FormatUint m
           = (''lock-'' @ FormatInt t) @ CHR ''-'' # FormatUint n"
    by (simp add: lock_token_def)
  from split_at_last[OF this FormatUint_no_minus FormatUint_no_minus]
  have "FormatUint m = FormatUint n" by simp
  then show "m = n" by (rule FormatUint_inj)
qed

lemma lock_token_nonempty [simp]: "lock_token now n \<noteq> []"
  by (simp add: lock_token_def)

section \<open>The mutex meets its contract\<close>

text \<open>A stale instance never asks the server again: it answers from its own field.\<close>

lemma redis_TryLock_stale:
  "rm_redisCli m = Some c \<Longrightarrow> rm_lockValue m \<noteq> [] \<Longrightarrow>
     redis_TryLock now mid ops m w = (Inr True, m, w)"
  by (simp add: redis_TryLock_def redis_tryLock_whole)

text \<open>
  An instance holds nothing; its token is the one the server has under its key; the server has
  no token under its key.
\<close>

definition redis_fresh :: "'r redis_client \<Rightarrow> 'r redis_mutex \<Rightarrow> bool" where
  "redis_fresh c m \<longleftrightarrow> rm_redisCli m = Some c \<and> rm_lockValue m = []"

definition redis_owns ::
    "'r redis_client \<Rightarrow> ('r \<Rightarrow> string \<Rightarrow> string option) \<Rightarrow> 'r redis_mutex \<Rightarrow> 64 word \<times> 'r \<Rightarrow> bool" where
  "redis_owns c lv m w \<longleftrightarrow> rm_redisCli m = Some c \<and> rm_lockValue m \<noteq> []
     \<and> lv (snd w) (rm_redisKey m) = Some (rm_lockValue m)"

definition redis_free ::
    "('r \<Rightarrow> string \<Rightarrow> string option) \<Rightarrow> 'r redis_mutex \<Rightarrow> 64 word \<times> 'r \<Rightarrow> bool" where
  "redis_free lv m w \<longleftrightarrow> lv (snd w) (rm_redisKey m) = None"

lemmas redis_mutex_preds = redis_fresh_def redis_owns_def redis_free_def

lemma redis_NewMutex_fresh: "redis_fresh c (redis_NewMutex (NewMutexImpl (Some c) p ttl) key)"
  by (simp add: redis_fresh_def redis_NewMutex_def NewMutexImpl_def)

context redis_server
begin

text \<open>The outcomes of one attempt on a fresh instance: it owns the lock, or nothing changed in it.\<close>

lemma redis_tryLock_fresh:
  assumes "redis_fresh cli m" and "redis_tryLock now mid opt m w = (res, m', w')"
  shows "(res = None \<and> redis_owns cli live m' w' \<and> rm_redisKey m' = rm_redisKey m) \<or> m' = m"
  using assms
  by (auto simp: redis_tryLock_whole redis_mutex_preds nextLockValue_def Let_def
      dest: SetNX_stored Get_value split: sum.splits bool.splits option.splits prod.splits if_splits)

lemma redis_TryLock_fresh:
  assumes "redis_fresh cli m" and "redis_TryLock now mid ops m w = (res, m', w')"
  shows "(res = Inr True \<and> redis_owns cli live m' w' \<and> rm_redisKey m' = rm_redisKey m)
       \<or> (res \<noteq> Inr True \<and> m' = m)"
proof -
  obtain e m1 w1 where t: "redis_tryLock now mid (NewLockOption (rm_defaultTTL m) ops) m w = (e, m1, w1)"
    by (metis prod_cases3)
  from redis_tryLock_fresh[OF assms(1) t] assms(2) t assms(1) show ?thesis
    by (auto simp: redis_TryLock_def Let_def redis_mutex_preds split: option.splits)
qed

text \<open>\<open>Unlock\<close> of an instance that holds a token, by what the server has under its key.\<close>

lemma redis_Unlock_cases:
  assumes "rm_redisCli m = Some cli" and "rm_lockValue m \<noteq> []"
    and "redis_Unlock m w = (res, m', w')"
  shows "if live (snd w) (rm_redisKey m) = Some (rm_lockValue m)
         then (res = None \<and> m' = m\<lparr>rm_lockValue := []\<rparr>
                 \<and> live (snd w') = (live (snd w))(rm_redisKey m := None))
              \<or> (res \<noteq> None \<and> res \<noteq> Some ErrAlreadyUnlocked \<and> m' = m)
         else res \<noteq> None \<and> m' = m \<and> live (snd w') = live (snd w)"
proof -
  let ?scr = "deleteIfValueScript cli (rm_redisKey m) (rm_lockValue m)"
  obtain v r1 where ev: "rc_Eval cli (snd w) ?scr = (v, r1)" by fastforce
  show ?thesis
  proof (cases v)
    case (Inl e)
    have "live r1 k = live (snd w) k" if "live (snd w) (rm_redisKey m) \<noteq> Some (rm_lockValue m)" for k
      by (rule Eval_deleteIfValue_other[OF ev]) (use that in auto)
    with Inl assms ev show ?thesis
      by (auto simp: redis_Unlock_def ErrAlreadyUnlocked_def NewError_def split: prod.splits)
  next
    case (Inr n)
    with Eval_deleteIfValue_ok[of "snd w"] ev
    have "(n = 0 \<longleftrightarrow> live (snd w) (rm_redisKey m) \<noteq> Some (rm_lockValue m))
      \<and> live r1 = (if live (snd w) (rm_redisKey m) = Some (rm_lockValue m)
                   then (live (snd w))(rm_redisKey m := None) else live (snd w))"
      by simp
    with Inr assms ev show ?thesis
      by (auto simp: redis_Unlock_def split: prod.splits if_splits)
  qed
qed

end

sublocale redis_server \<subseteq> rmutex: distributed_mutex
  "redis_TryLock now mid ops" redis_Unlock "redis_fresh cli" "redis_owns cli live" "redis_free live"
  for now :: time and mid :: "'r \<Rightarrow> 'r" and ops :: "lock_option_op list"
proof (unfold_locales, goal_cases)
  case (1 m s m' s')
  then show ?case using redis_TryLock_fresh by blast
next
  case (2 m s m' s')
  then show ?case using redis_TryLock_fresh[of m now mid ops s "Inr False" m' s'] by simp
next
  case (3 m s e m' s')
  then show ?case using redis_TryLock_fresh[of m now mid ops s "Inl e" m' s'] by simp
next
  case (4 m s m' s')
  then show ?case
    using redis_Unlock_cases[of m s None m' s']
    by (auto simp: redis_mutex_preds)
next
  case (5 m s)
  then show ?case by (simp add: redis_mutex_preds)
next
  case (6 m s)
  obtain res m' w' where "redis_Unlock m s = (res, m', w')" by (metis prod_cases3)
  with 6 redis_Unlock_cases[of m s res m' w'] show ?case by (auto simp: redis_mutex_preds)
next
  case (7 m s)
  then show ?case by (simp add: redis_Unlock_def redis_fresh_def)
qed

context redis_server
begin

text \<open>A blocking \<open>Lock\<close> that returns without error on a fresh instance owns the lock.\<close>

lemma redis_Lock_loop_owns:
  assumes "redis_fresh cli m" and "redis_Lock_loop opt wks m w = Some (None, m', w')"
  shows "redis_owns cli live m' w'"
  using assms
proof (induction opt wks m w rule: redis_Lock_loop.induct)
  case (2 opt wk wks m w)
  let ?w = "(fst w, wk_env wk (snd w))"
  obtain e m1 w1 where t: "redis_tryLock (wk_now wk) (wk_mid wk) opt m ?w = (e, m1, w1)"
    by (metis prod_cases3)
  note f = redis_tryLock_fresh[OF "2.prems"(1) t]
  show ?case
  proof (cases "wk_event wk")
    case Ticker
    with 2 t f show ?thesis
      by (auto simp: redis_mutex_preds split: option.splits if_splits)
  next
    case MaxWaitTimeout
    with 2 show ?thesis by (auto simp: Let_def split: if_splits)
  next
    case (CtxDone e)
    with 2 show ?thesis by simp
  qed
qed simp

end

text \<open>A waiting \<open>Lock\<close> returns at the latest when its context or its maximal wait ends.\<close>

definition ends_wait :: "lock_option \<Rightarrow> 'r wake \<Rightarrow> bool" where
  "ends_wait opt wk \<longleftrightarrow>
     (case wk_event wk of
        Ticker \<Rightarrow> False
      | MaxWaitTimeout \<Rightarrow> MaxWaitTime opt > 0
      | CtxDone e \<Rightarrow> True)"

lemma redis_Lock_loop_ends: "list_ex (ends_wait opt) wks \<Longrightarrow> redis_Lock_loop opt wks m w \<noteq> None"
  by (induction opt wks m w rule: redis_Lock_loop.induct)
    (auto simp: ends_wait_def Let_def split: lock_event.splits option.splits if_splits prod.splits)

section \<open>Properties\<close>

text \<open>The instance and the server the witnesses run.\<close>

definition demo_mutex :: "mem_server redis_mutex" where
  "demo_mutex = redis_NewMutex (NewMutexImpl (Some mem_client) ''dkit'' (30 * Second)) ''job''"

definition demo_server :: mem_server where
  "demo_server = \<lparr>ms_now = 0, ms_tab = []\<rparr>"

lemma demo_live [simp]: "mem_live demo_server = Map.empty"
  by (simp add: demo_server_def mem_live_def fun_eq_iff)

lemma demo_NewLockOption [simp]:
  "NewLockOption 30000000000 [] =
     \<lparr>TTL = 30000000000, ReentrantIdentity = [], SpinInterval = DefaultLockSpinInterval, MaxWaitTime = 0\<rparr>"
  by (simp add: NewLockOption_def)

text \<open>
  C15. A blocking \<open>Lock\<close> on the Redis mutex ends: given a context end or an armed maximal wait
  among its wake-ups it returns, whatever other clients do in between. The instance is fresh: it
  holds nothing when \<open>Lock\<close> is called. When the call returns without an error the instance owns the
  lock. (An instance that lost its lease and failed to release it answers wrongly,
  \<open>redis_lost_lease_still_answers_locked\<close>.)
\<close>

theorem redis_Lock_returns:
  assumes "redis_server c lv" and "redis_fresh c m"
    and "list_ex (ends_wait (NewLockOption (rm_defaultTTL m) ops)) wks"
  shows "\<exists>e m' w'. redis_Lock now mid ops wks m w = Some (e, m', w')
           \<and> (e = None \<longrightarrow> redis_owns c lv m' w')"
proof -
  let ?opt = "NewLockOption (rm_defaultTTL m) ops"
  obtain e m1 w1 where t: "redis_tryLock now mid ?opt m w = (e, m1, w1)" by (metis prod_cases3)
  from redis_server.redis_tryLock_fresh[OF assms(1,2) t]
  consider (own) "e = None" "redis_owns c lv m1 w1" | (same) "m1 = m" by blast
  then show ?thesis
  proof cases
    case own
    with t show ?thesis by (simp add: redis_Lock_def redis_owns_def)
  next
    case same
    obtain r where r: "redis_Lock_loop ?opt wks m w1 = Some r"
      using redis_Lock_loop_ends[OF assms(3)] by blast
    obtain e' m' w' where r': "r = (e', m', w')" by (metis prod_cases3)
    have "redis_owns c lv m' w'" if "e' = None"
      using redis_server.redis_Lock_loop_owns[OF assms(1,2)] r r' that by blast
    with r r' t same assms(2) show ?thesis
      by (cases e) (auto simp: redis_Lock_def redis_fresh_def)
  qed
qed

theorem redis_Lock_returns_witness:
  "\<exists>e m' w'. redis_Lock 1 id []
      [\<lparr>wk_event = CtxDone CtxCanceled, wk_env = id, wk_now = 2, wk_mid = id\<rparr>] demo_mutex
      (0, demo_server) = Some (e, m', w') \<and> (e = None \<longrightarrow> redis_owns mem_client mem_live m' w')"
proof (rule redis_Lock_returns[OF mem.redis_server_axioms])
  show "redis_fresh mem_client demo_mutex" by (simp add: demo_mutex_def redis_NewMutex_fresh)
qed (simp add: ends_wait_def)

text \<open>
  What the Redis mutex does after its lease is lost: when the server no longer has the
  instance's token (the lease expired, or another instance took the lock since), \<open>Unlock\<close>
  reports an error and leaves the instance as it is, and every later \<open>TryLock\<close> on that
  instance answers that the lock is held, without asking the server, although the instance
  does not own it. Mutual exclusion thus
  holds for those whose attempt obtained the lock, and not for the answers of \<open>TryLock\<close> on an instance
  that is used again after its lease ended.
\<close>

theorem redis_lost_lease_still_answers_locked:
  assumes "redis_server c lv" and "rm_redisCli m = Some c" and "rm_lockValue m \<noteq> []"
    and "lv (snd w) (rm_redisKey m) \<noteq> Some (rm_lockValue m)"
  shows "\<exists>e w'. redis_Unlock m w = (Some e, m, w')
           \<and> redis_TryLock now mid ops m w' = (Inr True, m, w')
           \<and> \<not> redis_owns c lv m w'"
proof -
  obtain res m' w' where un: "redis_Unlock m w = (res, m', w')" by (metis prod_cases3)
  with redis_server.redis_Unlock_cases[OF assms(1-3) un] assms(4)
  have "res \<noteq> None" "m' = m" "lv (snd w') = lv (snd w)" by simp_all
  with un assms redis_TryLock_stale[OF assms(2,3)] show ?thesis
    by (auto simp: redis_owns_def)
qed

theorem redis_lost_lease_still_answers_locked_witness:
  "let m = demo_mutex\<lparr>rm_lockValue := lock_token 7 1\<rparr>;
       r = mem_put demo_server (buildMutexKey ''dkit'' ''job'') (lock_token 9 2) (30 * Second)
   in mem_live r (rm_redisKey m) = Some (lock_token 9 2)
      \<and> (\<exists>e w'. redis_Unlock m (2, r) = (Some e, m, w')
            \<and> redis_TryLock 0 id [] m w' = (Inr True, m, w')
            \<and> \<not> redis_owns mem_client mem_live m w')"
proof -
  have "lock_token 9 2 \<noteq> lock_token 7 1" using lock_token_inj[of 9 2 7 1] by auto
  then show ?thesis
    using redis_lost_lease_still_answers_locked[OF mem.redis_server_axioms,
        of "demo_mutex\<lparr>rm_lockValue := lock_token 7 1\<rparr>"
           "(2, mem_put demo_server (buildMutexKey ''dkit'' ''job'') (lock_token 9 2) (30 * Second))"]
    by (simp add: Let_def demo_mutex_def redis_NewMutex_def NewMutexImpl_def)
qed

end
