(* ===== verification/Dkit_Random.thy ===== *)
theory Dkit_Random
  imports Pass_Context
begin

text \<open>
  The interface \<open>NumberAllocator\<close> of \<open>dkit/dkit.go\<close> as a locale, and \<open>math/rand\<close> as a parameter
  (\<open>go_rand\<close>: seeding from the clock and drawing a permutation). The locale states what one
  allocation promises about the numbers that are \<open>taken\<close>; it gives that numbers handed out by any
  sequence of allocations are distinct. The providers are the Redis and the MongoDB allocator.
\<close>

text \<open>\<open>rand.New(rand.NewSource(now))\<close> and \<open>(*rand.Rand).Perm\<close>.\<close>

record 'g go_rand =
  rand_New :: "time \<Rightarrow> 'g"
  rand_Perm :: "'g \<Rightarrow> int \<Rightarrow> int list \<times> 'g"

definition perm_ok :: "'g go_rand \<Rightarrow> bool" where
  "perm_ok R \<longleftrightarrow> (\<forall>g n. 0 \<le> n \<longrightarrow> distinct (fst (rand_Perm R g n)) \<and> set (fst (rand_Perm R g n)) = {0..<n})"

text \<open>A generator that permutes nothing, for examples.\<close>

definition demo_rand :: "unit go_rand" where
  "demo_rand = \<lparr>rand_New = (\<lambda>now. ()), rand_Perm = (\<lambda>g n. (map int [0..<nat n], g))\<rparr>"

lemma demo_rand_ok: "perm_ok demo_rand"
  by (auto simp: perm_ok_def demo_rand_def distinct_map image_iff Bex_def)
    (metis zero_le_imp_eq_int atLeastLessThan_iff of_nat_less_iff zero_le nat_int zless_nat_eq_int_zless)

text \<open>Allocations one after the other, and the numbers among their results.\<close>

fun run_allocs :: "('a \<Rightarrow> 's \<Rightarrow> int result \<times> 's) \<Rightarrow> 'a list \<Rightarrow> 's \<Rightarrow> int result list \<times> 's" where
  "run_allocs alloc [] s = ([], s)"
| "run_allocs alloc (a # as) s =
     (let (res, s1) = alloc a s; (rest, s2) = run_allocs alloc as s1 in (res # rest, s2))"

definition numbers :: "int result list \<Rightarrow> int list" where
  "numbers rs = List.map_filter (\<lambda>x. case x of Inr n \<Rightarrow> Some n | Inl e \<Rightarrow> None) rs"

lemma numbers_simps [simp]:
  "numbers [] = []" "numbers (Inl e # rs) = numbers rs" "numbers (Inr n # rs) = n # numbers rs"
  by (simp_all add: numbers_def map_filter_simps)

locale number_allocator =
  fixes alloc :: "'a \<Rightarrow> 's \<Rightarrow> int result \<times> 's"
    and okc :: "'a \<Rightarrow> bool"
    and bound :: "'a \<Rightarrow> int"
    and taken :: "'s \<Rightarrow> int \<Rightarrow> bool"
  assumes alloc_range: "okc a \<Longrightarrow> alloc a s = (Inr n, s') \<Longrightarrow> 0 \<le> n \<and> n < bound a"
    and alloc_free: "okc a \<Longrightarrow> alloc a s = (Inr n, s') \<Longrightarrow> \<not> taken s n \<and> taken s' n"
    and alloc_keeps: "okc a \<Longrightarrow> alloc a s = (res, s') \<Longrightarrow> taken s k \<Longrightarrow> taken s' k"
begin

lemma run_allocs_distinct:
  "list_all okc as \<Longrightarrow> run_allocs alloc as s = (rs, s') \<Longrightarrow>
     distinct (numbers rs) \<and> (\<forall>n \<in> set (numbers rs). \<not> taken s n \<and> taken s' n)
     \<and> (\<forall>k. taken s k \<longrightarrow> taken s' k)"
proof (induction as arbitrary: s rs s')
  case (Cons a as)
  obtain res s1 where one: "alloc a s = (res, s1)" by fastforce
  obtain rest s2 where rest: "run_allocs alloc as s1 = (rest, s2)" by fastforce
  have rs: "rs = res # rest" "s' = s2" using Cons.prems(2) one rest by auto
  have a: "okc a" "list_all okc as" using Cons.prems(1) by simp_all
  note IH = Cons.IH[OF a(2) rest] and keep = alloc_keeps[OF a(1) one]
  show ?case
  proof (cases res)
    case (Inl e)
    with rs IH keep show ?thesis by auto
  next
    case (Inr n)
    from alloc_free[OF a(1) one[unfolded Inr]] rs Inr IH keep show ?thesis by auto
  qed
qed simp

end

end
