(* ===== verification/Redis_Random.thy ===== *)
theory Redis_Random
  imports Dkit_Random Redis_Keys
begin

text \<open>
  \<open>dkit/redis/random.go\<close>: temporary unique numbers. The \<open>i\<close>-th round of
  the claiming loop first polls the context (\<open>ctxdone i\<close>); what other clients do to the server
  before its command is \<open>env i\<close>.

  Lemmas: a number that is handed out is in range, was free, and is taken afterwards; a number
  whose lease lasts is never handed out again; the allocator gives up only when every number is
  taken.
\<close>

abbreviation (input) randomLeaseTTL :: duration where "randomLeaseTTL \<equiv> Minute"

record ('r, 'g) random_impl =
  rn_r :: "'g option"
  rn_redisCli :: "'r redis_client option"
  rn_keyPrefix :: string

definition NewRandomNumberImpl :: "'r redis_client option \<Rightarrow> string \<Rightarrow> ('r, 'g) random_impl" where
  "NewRandomNumberImpl c keyPrefix = \<lparr>rn_r = None, rn_redisCli = c, rn_keyPrefix = keyPrefix\<rparr>"

definition random_Init :: "'g go_rand \<Rightarrow> time \<Rightarrow> ('r, 'g) random_impl \<Rightarrow> ('r, 'g) random_impl" where
  "random_Init R now impl = impl\<lparr>rn_r := Some (rand_New R now)\<rparr>"

text \<open>\<open>nextPerm\<close> is only called once the generator is set.\<close>

definition nextPerm :: "'g go_rand \<Rightarrow> 'g \<Rightarrow> int \<Rightarrow> ('r, 'g) random_impl \<Rightarrow> int list \<times> ('r, 'g) random_impl" where
  "nextPerm R g n impl = (case rand_Perm R g n of (nums, g') \<Rightarrow> (nums, impl\<lparr>rn_r := Some g'\<rparr>))"

fun redis_claim ::
    "(nat \<Rightarrow> go_error option) \<Rightarrow> (nat \<Rightarrow> 'r \<Rightarrow> 'r) \<Rightarrow> 'r redis_client \<Rightarrow> string \<Rightarrow> nat \<Rightarrow> int list \<Rightarrow> 'r
       \<Rightarrow> int result \<times> 'r" where
  "redis_claim ctxdone env c p i [] r = (Inl ErrNoAvailableNumber, r)"
| "redis_claim ctxdone env c p i (num # nums) r =
     (case ctxdone i of
        Some e \<Rightarrow> (Inl e, r)
      | None \<Rightarrow>
          (case rc_SetNX c (env i r) (buildRandomKey p num) ''1'' randomLeaseTTL of
             (Inl e, r) \<Rightarrow> (Inl (WrapError ''claim random number failed: '' e []), r)
           | (Inr True, r) \<Rightarrow> (Inr num, r)
           | (Inr False, r) \<Rightarrow> redis_claim ctxdone env c p (Suc i) nums r))"

definition redis_GetUniqueRandomNumber ::
    "'g go_rand \<Rightarrow> time \<Rightarrow> (nat \<Rightarrow> go_error option) \<Rightarrow> (nat \<Rightarrow> 'r \<Rightarrow> 'r) \<Rightarrow> int
       \<Rightarrow> ('r, 'g) random_impl \<Rightarrow> 'r \<Rightarrow> int result \<times> ('r, 'g) random_impl \<times> 'r" where
  "redis_GetUniqueRandomNumber R now ctxdone env mx impl r =
     (if mx \<le> 0 then (Inl (WrapError [] ErrInvalidOption '': max must be positive''), impl, r)
      else
        case rn_redisCli impl of
          None \<Rightarrow> (Inl (WrapError [] ErrInvalidOption '': redis client is nil''), impl, r)
        | Some c \<Rightarrow>
            let g = (case rn_r impl of None \<Rightarrow> rand_New R now | Some g \<Rightarrow> g);
                (nums, impl) = nextPerm R g mx impl;
                (res, r) = redis_claim ctxdone env c (rn_keyPrefix impl) 0 nums r
            in (res, impl, r))"

section \<open>Claiming\<close>

text \<open>Other clients do not make a live lease end.\<close>

definition keeps_leases :: "('r \<Rightarrow> string \<Rightarrow> string option) \<Rightarrow> (nat \<Rightarrow> 'r \<Rightarrow> 'r) \<Rightarrow> bool" where
  "keeps_leases lv env \<longleftrightarrow> (\<forall>i r k. lv r k \<noteq> None \<longrightarrow> lv (env i r) k \<noteq> None)"

context redis_server
begin

lemma claim_step:
  assumes "redis_claim ctxdone env cli p i (num # nums) r = (res, r')"
  obtains (polled) e where "ctxdone i = Some e" "res = Inl e" "r' = r"
  | (failed) e where "rc_SetNX cli (env i r) (buildRandomKey p num) ''1'' randomLeaseTTL = (Inl e, r')"
      "res = Inl (WrapError ''claim random number failed: '' e [])"
  | (claimed) "rc_SetNX cli (env i r) (buildRandomKey p num) ''1'' randomLeaseTTL = (Inr True, r')"
      "res = Inr num"
  | (taken) r1 where
      "rc_SetNX cli (env i r) (buildRandomKey p num) ''1'' randomLeaseTTL = (Inr False, r1)"
      "redis_claim ctxdone env cli p (Suc i) nums r1 = (res, r')"
  using assms by (auto split: option.splits prod.splits sum.splits bool.splits)

lemma claim_keeps:
  assumes "keeps_leases live env" and "redis_claim ctxdone env cli p i nums r = (res, r')"
    and "live r k \<noteq> None"
  shows "live r' k \<noteq> None"
  using assms(2,3)
proof (induction nums arbitrary: i r)
  case (Cons num nums)
  obtain x where x: "live (env i r) k = Some x"
    using assms(1) Cons.prems(2) unfolding keeps_leases_def by blast
  from Cons.prems(1) show ?case
  proof (cases rule: claim_step)
    case (taken r1)
    from SetNX_keeps[OF taken(1) x] Cons.IH[OF taken(2)] show ?thesis by simp
  qed (use Cons.prems(2) x in \<open>auto dest: SetNX_keeps\<close>)
qed simp

lemma claim_number:
  assumes "keeps_leases live env" and "redis_claim ctxdone env cli p i nums r = (Inr n, r')"
  shows "n \<in> set nums \<and> live r (buildRandomKey p n) = None \<and> live r' (buildRandomKey p n) = Some ''1''"
  using assms(2)
proof (induction nums arbitrary: i r)
  case (Cons num nums)
  have bk: "live (env i r) k = None \<Longrightarrow> live r k = None" for k
    using assms(1) unfolding keeps_leases_def by blast
  from Cons.prems show ?case
  proof (cases rule: claim_step)
    case claimed
    with SetNX_stored[OF claimed(1)] bk show ?thesis by simp
  next
    case (taken r1)
    with SetNX_refused[OF taken(1)] Cons.IH[OF taken(2)] bk show ?thesis by simp
  qed simp_all
qed simp

lemma claim_exhausted:
  assumes "keeps_leases live env" and "redis_claim ctxdone env cli p i nums r = (Inl ErrNoAvailableNumber, r')"
    and "\<forall>i. ctxdone i \<noteq> Some ErrNoAvailableNumber"
  shows "\<forall>n \<in> set nums. live r' (buildRandomKey p n) \<noteq> None"
  using assms(2)
proof (induction nums arbitrary: i r)
  case (Cons num nums)
  from Cons.prems show ?case
  proof (cases rule: claim_step)
    case (taken r1)
    with SetNX_refused[OF taken(1)] have "live r1 (buildRandomKey p num) \<noteq> None" by simp
    from claim_keeps[OF assms(1) taken(2) this] Cons.IH[OF taken(2)] show ?thesis by simp
  qed (use assms(3) in \<open>auto simp: ErrNoAvailableNumber_def NewError_def\<close>)
qed simp

end

section \<open>Several allocations\<close>

text \<open>A call: an allocator with its clock, context, interference and bound.\<close>

record ('r, 'g) alloc_call =
  ac_now :: time
  ac_done :: "nat \<Rightarrow> go_error option"
  ac_env :: "nat \<Rightarrow> 'r \<Rightarrow> 'r"
  ac_max :: int
  ac_impl :: "('r, 'g) random_impl"

definition redis_alloc :: "'g go_rand \<Rightarrow> ('r, 'g) alloc_call \<Rightarrow> 'r \<Rightarrow> int result \<times> 'r" where
  "redis_alloc R a r =
     (case redis_GetUniqueRandomNumber R (ac_now a) (ac_done a) (ac_env a) (ac_max a) (ac_impl a) r of
        (res, impl', r') \<Rightarrow> (res, r'))"

lemma GetUniqueRandomNumber_claim:
  assumes "perm_ok R" and "rn_redisCli impl = Some c"
    and "redis_GetUniqueRandomNumber R now ctxdone env mx impl r = (res, impl', r')"
  shows "(mx \<le> 0 \<and> r' = r \<and> (\<exists>e. res = Inl (WrapError [] ErrInvalidOption e)))
       \<or> (0 < mx \<and> (\<exists>nums. set nums = {0..<mx} \<and> redis_claim ctxdone env c (rn_keyPrefix impl) 0 nums r = (res, r')))"
proof (cases "mx \<le> 0")
  case True
  with assms show ?thesis by (auto simp: redis_GetUniqueRandomNumber_def)
next
  case False
  let ?g = "case rn_r impl of None \<Rightarrow> rand_New R now | Some g \<Rightarrow> g"
  obtain nums g' where p: "rand_Perm R ?g mx = (nums, g')" by fastforce
  with assms(1) False have "set nums = {0..<mx}" unfolding perm_ok_def by (metis fst_conv not_less nle_le)
  moreover have "redis_claim ctxdone env c (rn_keyPrefix impl) 0 nums r = (res, r')"
    using assms(2,3) False p
    by (auto simp: redis_GetUniqueRandomNumber_def nextPerm_def Let_def split: prod.splits)
  ultimately show ?thesis using False by auto
qed

definition call_ok ::
    "('r \<Rightarrow> string \<Rightarrow> string option) \<Rightarrow> 'r redis_client \<Rightarrow> 'g go_rand \<Rightarrow> string \<Rightarrow> ('r, 'g) alloc_call \<Rightarrow> bool" where
  "call_ok lv c R p a \<longleftrightarrow> perm_ok R \<and> rn_redisCli (ac_impl a) = Some c
     \<and> rn_keyPrefix (ac_impl a) = p \<and> keeps_leases lv (ac_env a)"

definition number_taken :: "('r \<Rightarrow> string \<Rightarrow> string option) \<Rightarrow> string \<Rightarrow> 'r \<Rightarrow> int \<Rightarrow> bool" where
  "number_taken lv p r n \<longleftrightarrow> lv r (buildRandomKey p n) \<noteq> None"

context redis_server
begin

lemma alloc_one:
  assumes "call_ok live cli R p a" and "redis_alloc R a r = (res, r')"
  shows "(\<forall>k. live r k \<noteq> None \<longrightarrow> live r' k \<noteq> None)
    \<and> (\<forall>n. res = Inr n \<longrightarrow> 0 \<le> n \<and> n < ac_max a \<and> live r (buildRandomKey p n) = None
              \<and> live r' (buildRandomKey p n) = Some ''1'')
    \<and> (res = Inl ErrNoAvailableNumber \<longrightarrow> (\<forall>i. ac_done a i \<noteq> Some ErrNoAvailableNumber) \<longrightarrow>
         (\<forall>n. 0 \<le> n \<and> n < ac_max a \<longrightarrow> live r' (buildRandomKey p n) \<noteq> None))"
proof -
  have k: "keeps_leases live (ac_env a)" and c: "rn_redisCli (ac_impl a) = Some cli"
    and p: "rn_keyPrefix (ac_impl a) = p" and R: "perm_ok R"
    using assms(1) by (simp_all add: call_ok_def)
  from assms(2) obtain impl' where g: "redis_GetUniqueRandomNumber R (ac_now a) (ac_done a) (ac_env a)
      (ac_max a) (ac_impl a) r = (res, impl', r')"
    by (auto simp: redis_alloc_def split: prod.splits)
  from GetUniqueRandomNumber_claim[OF R c g] show ?thesis
  proof (elim disjE conjE exE)
    fix nums
    assume "set nums = {0..<ac_max a}"
      and cl: "redis_claim (ac_done a) (ac_env a) cli (rn_keyPrefix (ac_impl a)) 0 nums r = (res, r')"
    with claim_keeps[OF k cl] claim_number[OF k] claim_exhausted[OF k] p
    show ?thesis by (metis atLeastLessThan_iff)
  qed (simp add: ErrNoAvailableNumber_def NewError_def)
qed

end

sublocale redis_server \<subseteq> ralloc: number_allocator
  "redis_alloc R" "call_ok live cli R p" ac_max "number_taken live p"
  for R :: "'g go_rand" and p :: string
proof (unfold_locales, goal_cases)
  case (1 a s n s')
  then show ?case using alloc_one by blast
next
  case (2 a s n s')
  from alloc_one[OF this] show ?case by (simp add: number_taken_def)
next
  case (3 a s res s' k)
  from alloc_one[OF 3(1,2)] 3(3) show ?case by (simp add: number_taken_def)
qed

context redis_server
begin

lemmas redis_run_allocs = ralloc.run_allocs_distinct

end

section \<open>Properties\<close>

definition demo_alloc :: "int \<Rightarrow> (mem_server, unit) alloc_call" where
  "demo_alloc n = \<lparr>ac_now = 0, ac_done = (\<lambda>i. None), ac_env = (\<lambda>i r. r), ac_max = n,
     ac_impl = NewRandomNumberImpl (Some mem_client) ''dkit''\<rparr>"

lemma demo_calls_ok: "call_ok mem_live mem_client demo_rand ''dkit'' (demo_alloc n)"
  using demo_rand_ok by (simp add: call_ok_def demo_alloc_def NewRandomNumberImpl_def keeps_leases_def)

text \<open>
  Unique random numbers on Redis: over any sequence of calls, by any number of allocators on
  one prefix, with other clients acting between all commands but no lease ending, the numbers
  handed out are pairwise distinct, each was free at the start and is taken at the end, and no
  number that was taken becomes free.
\<close>

theorem redis_numbers_unique:
  assumes "redis_server c lv" and "list_all (call_ok lv c R p) as"
    and "run_allocs (redis_alloc R) as r = (rs, r')"
  shows "distinct (numbers rs)
    \<and> (\<forall>n \<in> set (numbers rs). \<not> number_taken lv p r n \<and> number_taken lv p r' n)
    \<and> (\<forall>k. number_taken lv p r k \<longrightarrow> number_taken lv p r' k)"
  by (rule redis_server.redis_run_allocs[OF assms])

theorem redis_numbers_unique_witness:
  "let r = \<lparr>ms_now = 0, ms_tab = []\<rparr> in
   numbers (fst (run_allocs (redis_alloc demo_rand) [demo_alloc 3, demo_alloc 3] r)) = [0, 1]
   \<and> distinct (numbers (fst (run_allocs (redis_alloc demo_rand) [demo_alloc 3, demo_alloc 3] r)))"
proof -
  let ?r = "\<lparr>ms_now = 0, ms_tab = []\<rparr>"
  obtain rs r' where run: "run_allocs (redis_alloc demo_rand) [demo_alloc 3, demo_alloc 3] ?r = (rs, r')"
    by fastforce
  have "numbers (fst (run_allocs (redis_alloc demo_rand) [demo_alloc 3, demo_alloc 3] ?r)) = [0, 1]"
    by code_simp
  moreover have "list_all (call_ok mem_live mem_client demo_rand ''dkit'') [demo_alloc 3, demo_alloc 3]"
    by (simp add: demo_calls_ok)
  ultimately show ?thesis
    using redis_numbers_unique[OF mem.redis_server_axioms _ run] run by simp
qed

text \<open>
  One allocation on Redis: a returned number lies in \<open>[0, max)\<close> and holds a lease that was
  free before; \<open>ErrNoAvailableNumber\<close> is returned only when every number of the range is taken;
  a bound that is not positive is refused without touching the server.
\<close>

theorem redis_number_outcome:
  assumes "redis_server c lv" and "perm_ok R" and "rn_redisCli impl = Some c" and "keeps_leases lv env"
    and "\<forall>i. ctxdone i \<noteq> Some ErrNoAvailableNumber"
    and "redis_GetUniqueRandomNumber R now ctxdone env mx impl r = (res, impl', r')"
  shows "(\<forall>n. res = Inr n \<longrightarrow> 0 \<le> n \<and> n < mx \<and> lv r (buildRandomKey (rn_keyPrefix impl) n) = None
              \<and> lv r' (buildRandomKey (rn_keyPrefix impl) n) = Some ''1'')
    \<and> (res = Inl ErrNoAvailableNumber \<longrightarrow>
         (\<forall>n. 0 \<le> n \<and> n < mx \<longrightarrow> lv r' (buildRandomKey (rn_keyPrefix impl) n) \<noteq> None))
    \<and> (mx \<le> 0 \<longrightarrow> r' = r \<and> errors_Is (=) (projl res) ErrInvalidOption \<and> isl res)"
proof -
  let ?a = "\<lparr>ac_now = now, ac_done = ctxdone, ac_env = env, ac_max = mx, ac_impl = impl\<rparr>"
  have "call_ok lv c R (rn_keyPrefix impl) ?a" using assms(2-4) by (simp add: call_ok_def)
  moreover have "redis_alloc R ?a r = (res, r')" using assms(6) by (simp add: redis_alloc_def)
  ultimately show ?thesis
    using redis_server.alloc_one[OF assms(1)] assms(5,6)
    by (fastforce simp: redis_GetUniqueRandomNumber_def ErrInvalidOption_def NewError_def)
qed

theorem redis_number_outcome_witness:
  "\<exists>impl' r'. redis_GetUniqueRandomNumber demo_rand 0 (\<lambda>i. None) (\<lambda>i r. r) 3
      (NewRandomNumberImpl (Some mem_client) ''dkit'') \<lparr>ms_now = 0, ms_tab = []\<rparr> = (Inr 0, impl', r')
    \<and> mem_live r' (buildRandomKey ''dkit'' 0) = Some ''1''"
proof -
  let ?impl = "NewRandomNumberImpl (Some mem_client) ''dkit'' :: (mem_server, unit) random_impl"
  obtain impl' r' where run: "redis_GetUniqueRandomNumber demo_rand 0 (\<lambda>i. None) (\<lambda>i r. r) 3 ?impl
      \<lparr>ms_now = 0, ms_tab = []\<rparr> = (Inr 0, impl', r')"
    by (simp add: redis_GetUniqueRandomNumber_def NewRandomNumberImpl_def nextPerm_def demo_rand_def
        mem_client_def mem_live_def upt_rec)
  have "rn_redisCli ?impl = Some mem_client" "keeps_leases mem_live (\<lambda>i r. r)"
    by (simp_all add: NewRandomNumberImpl_def keeps_leases_def)
  from redis_number_outcome[OF mem.redis_server_axioms demo_rand_ok this _ run] run show ?thesis
    by (auto simp: NewRandomNumberImpl_def)
qed

end
