(* ===== verification/Dkit_Elect.thy ===== *)
theory Dkit_Elect
  imports Pass_Context
begin

text \<open>
  The backend-independent part of package \<open>dkit\<close> that concerns elections: the options
  (\<open>dkit/dkit.go\<close>) and leader-change events (\<open>dkit/event.go\<close>). \<open>CanElect\<close> is a callback of the
  application: a function of the moment it is asked. Events are published on the in-memory bus of
  the third-party package \<open>eventx\<close>; a node records here what it has published, in order.

  The locale \<open>leader_flag\<close> is the interface of a node's leader flag as both backends use it: every
  operation changes the flag through \<open>setLeaderFlag\<close>. It gives, for any sequence of operations,
  that subscribers see alternating transitions that end in the current state of the flag. The
  locale \<open>election_backend\<close> states what single commands of a node promise about the leader record
  of the domain; it gives that at most one node leads, however the commands of nodes interleave. It is
  interpreted on the Redis election; \<open>Mongo_Leases\<close> has a step relation of its own, with a clock.
\<close>

record election_option =
  eo_NodeKey :: string
  eo_KeepHeartbeat :: bool
  eo_UnhealthyTime :: duration
  eo_Timeout :: duration
  eo_IsolationKey :: string
  eo_CanElect :: "(time \<Rightarrow> bool) option"

text \<open>\<open>CanElect\<close> asked at the moment \<open>now\<close>; a nil callback always agrees.\<close>

definition may_elect :: "time \<Rightarrow> election_option \<Rightarrow> bool" where
  "may_elect now opt = (case eo_CanElect opt of None \<Rightarrow> True | Some f \<Rightarrow> f now)"

section \<open>Events\<close>

abbreviation (input) TopicLeaderChanged :: string where "TopicLeaderChanged \<equiv> ''dkit.leader.changed''"

record LeaderChangedEvent =
  ev_IsLeader :: bool
  ev_NodeKey :: string
  ev_IsolationKey :: string

definition LeaderChangedEvent_Topic :: "LeaderChangedEvent \<Rightarrow> string list" where
  "LeaderChangedEvent_Topic e = [TopicLeaderChanged]"

text \<open>An event on the bus: a value or a pointer of this type, or an event of another type.\<close>

datatype bus_event =
    EvLeaderChanged LeaderChangedEvent
  | EvLeaderChangedPtr LeaderChangedEvent
  | EvOther "string list"

definition adapter_Topic :: "('w \<Rightarrow> LeaderChangedEvent \<Rightarrow> 'w) \<Rightarrow> string list" where
  "adapter_Topic handler = [TopicLeaderChanged]"

fun adapter_Handle :: "('w \<Rightarrow> LeaderChangedEvent \<Rightarrow> 'w) \<Rightarrow> bus_event \<Rightarrow> 'w \<Rightarrow> 'w" where
  "adapter_Handle handler (EvLeaderChanged e) w = handler w e"
| "adapter_Handle handler (EvLeaderChangedPtr e) w = handler w e"
| "adapter_Handle handler (EvOther t) w = w"

text \<open>\<open>eventx.Subscribe\<close> is a parameter.\<close>

definition SubscribeLeaderChanged ::
    "(('w \<Rightarrow> LeaderChangedEvent \<Rightarrow> 'w) \<Rightarrow> 'b \<Rightarrow> go_error option \<times> 'b)
       \<Rightarrow> ('w \<Rightarrow> LeaderChangedEvent \<Rightarrow> 'w) option \<Rightarrow> 'b \<Rightarrow> go_error option \<times> 'b" where
  "SubscribeLeaderChanged subscribe handler bus =
     (case handler of
        None \<Rightarrow> (Some (WrapError [] ErrInvalidOption '': leader changed handler is nil''), bus)
      | Some h \<Rightarrow> subscribe h bus)"

section \<open>The leader flag\<close>

text \<open>The flag of a node and the events it has published.\<close>

record leader_state =
  ls_flag :: bool
  ls_events :: "LeaderChangedEvent list"

definition setLeaderFlag :: "election_option \<Rightarrow> bool \<Rightarrow> leader_state \<Rightarrow> leader_state" where
  "setLeaderFlag opt isLeader s =
     (if ls_flag s = isLeader then s
      else \<lparr>ls_flag = isLeader,
            ls_events = ls_events s @ [\<lparr>ev_IsLeader = isLeader, ev_NodeKey = eo_NodeKey opt,
                                        ev_IsolationKey = eo_IsolationKey opt\<rparr>]\<rparr>)"

definition initial_leader_state :: leader_state where
  "initial_leader_state = \<lparr>ls_flag = False, ls_events = []\<rparr>"

text \<open>The transitions a subscriber has seen alternate, starting with a gain of leadership.\<close>

fun alternates :: "bool \<Rightarrow> LeaderChangedEvent list \<Rightarrow> bool" where
  "alternates b [] = True"
| "alternates b (e # es) = (ev_IsLeader e = b \<and> alternates (\<not> b) es)"

definition events_ok :: "election_option \<Rightarrow> leader_state \<Rightarrow> bool" where
  "events_ok opt s \<longleftrightarrow>
     alternates True (ls_events s)
     \<and> ls_flag s = (ls_events s \<noteq> [] \<and> ev_IsLeader (last (ls_events s)))
     \<and> (\<forall>e \<in> set (ls_events s). ev_NodeKey e = eo_NodeKey opt \<and> ev_IsolationKey e = eo_IsolationKey opt)"

lemma alternates_snoc:
  "alternates b (es @ [e]) \<longleftrightarrow>
     alternates b es \<and> ev_IsLeader e = (if es = [] then b else \<not> ev_IsLeader (last es))"
  by (induction b es rule: alternates.induct) auto

lemma events_ok_initial: "events_ok opt initial_leader_state"
  by (simp add: events_ok_def initial_leader_state_def)

lemma events_ok_set: "events_ok opt s \<Longrightarrow> events_ok opt (setLeaderFlag opt b s)"
  by (auto simp: events_ok_def setLeaderFlag_def alternates_snoc)

lemma setLeaderFlag_flag [simp]: "ls_flag (setLeaderFlag opt b s) = b"
  by (simp add: setLeaderFlag_def)

locale leader_flag =
  fixes opt_of :: "'e \<Rightarrow> election_option"
    and state_of :: "'e \<Rightarrow> leader_state"
    and oper :: "'a \<Rightarrow> 'e \<times> 's \<Rightarrow> 'e \<times> 's"
  assumes oper_opt: "opt_of (fst (oper a x)) = opt_of (fst x)"
    and oper_flag: "state_of (fst (oper a x)) = state_of (fst x)
      \<or> (\<exists>b. state_of (fst (oper a x)) = setLeaderFlag (opt_of (fst x)) b (state_of (fst x)))"
begin

lemma events_ok_oper:
  "events_ok (opt_of (fst x)) (state_of (fst x)) \<Longrightarrow>
     events_ok (opt_of (fst (oper a x))) (state_of (fst (oper a x)))"
  using oper_flag[of a x] by (auto simp: oper_opt events_ok_set)

lemma events_ok_run:
  "events_ok (opt_of (fst x)) (state_of (fst x)) \<Longrightarrow>
     events_ok (opt_of (fst (fold oper as x))) (state_of (fst (fold oper as x)))"
  by (induction as arbitrary: x) (simp_all add: events_ok_oper)

end

section \<open>Nodes of a domain\<close>

text \<open>Nodes (numbered) sharing a backend; one step is one command of one node.\<close>

inductive nodes_step ::
    "('e \<Rightarrow> 's \<Rightarrow> 'e \<Rightarrow> 's \<Rightarrow> bool) \<Rightarrow> (nat \<Rightarrow> 'e) \<times> 's \<Rightarrow> (nat \<Rightarrow> 'e) \<times> 's \<Rightarrow> bool"
  for nstep :: "'e \<Rightarrow> 's \<Rightarrow> 'e \<Rightarrow> 's \<Rightarrow> bool" where
  node_step: "nstep (N i) s e' s' \<Longrightarrow> nodes_step nstep (N, s) (N(i := e'), s')"

inductive nodes_reach ::
    "('e \<Rightarrow> 's \<Rightarrow> 'e \<Rightarrow> 's \<Rightarrow> bool) \<Rightarrow> (nat \<Rightarrow> 'e) \<times> 's \<Rightarrow> (nat \<Rightarrow> 'e) \<times> 's \<Rightarrow> bool"
  for nstep :: "'e \<Rightarrow> 's \<Rightarrow> 'e \<Rightarrow> 's \<Rightarrow> bool" and x0 :: "(nat \<Rightarrow> 'e) \<times> 's" where
  start: "nodes_reach nstep x0 x0"
| step: "nodes_reach nstep x0 x \<Longrightarrow> nodes_step nstep x y \<Longrightarrow> nodes_reach nstep x0 y"

text \<open>
  \<open>leads e\<close>: the node believes to be leader and is not closed. \<open>holder s\<close>: the node key in the
  leader record. A command leaves the record of another node alone, and a node that leads after a
  command is named by the record, or led before and the record is as it was.
\<close>

locale election_backend =
  fixes good :: "'e \<Rightarrow> bool"
    and key :: "'e \<Rightarrow> string"
    and leads :: "'e \<Rightarrow> bool"
    and holder :: "'s \<Rightarrow> string option"
    and nstep :: "'e \<Rightarrow> 's \<Rightarrow> 'e \<Rightarrow> 's \<Rightarrow> bool"
  assumes node_kept: "good e \<Longrightarrow> nstep e s e' s' \<Longrightarrow> good e' \<and> key e' = key e"
    and others_kept: "good e \<Longrightarrow> nstep e s e' s' \<Longrightarrow> holder s = Some n \<Longrightarrow> n \<noteq> key e \<Longrightarrow> holder s' = Some n"
    and own_backed: "good e \<Longrightarrow> nstep e s e' s' \<Longrightarrow> leads e' \<Longrightarrow>
      holder s' = Some (key e) \<or> (leads e \<and> holder s' = holder s)"
begin

lemma single_leader_step:
  assumes "nodes_step nstep (N, s) (N', s')" and "\<And>i. good (N i)" and "inj (\<lambda>i. key (N i))"
    and "\<And>i. leads (N i) \<Longrightarrow> holder s = Some (key (N i))"
  shows "(\<forall>i. good (N' i)) \<and> inj (\<lambda>i. key (N' i)) \<and> (\<forall>i. leads (N' i) \<longrightarrow> holder s' = Some (key (N' i)))"
proof -
  from assms(1) obtain i e' where N': "N' = N(i := e')" and st: "nstep (N i) s e' s'"
    by (auto elim: nodes_step.cases)
  note e' = node_kept[OF assms(2) st]
  have keys: "key (N' j) = key (N j)" for j using e' N' by simp
  have "holder s' = Some (key (N' j))" if "leads (N' j)" for j
  proof (cases "j = i")
    case True
    with that N' own_backed[OF assms(2) st] assms(4)[of i] e' show ?thesis by auto
  next
    case False
    then have "key (N j) \<noteq> key (N i)" using assms(3) by (auto dest: injD)
    with that N' False others_kept[OF assms(2) st] assms(4)[of j] show ?thesis by simp
  qed
  moreover have "good (N' j)" for j using assms(2) e' N' by simp
  ultimately show ?thesis using assms(3) keys by simp
qed

lemma single_leader:
  assumes "nodes_reach nstep (N0, s0) x" and "\<And>i. good (N0 i)" and "inj (\<lambda>i. key (N0 i))"
    and "\<And>i. \<not> leads (N0 i)"
  shows "leads (fst x i) \<Longrightarrow> holder (snd x) = Some (key (fst x i)) \<and> (\<forall>j. leads (fst x j) \<longrightarrow> j = i)"
proof -
  from assms(1) have "(\<forall>i. good (fst x i)) \<and> inj (\<lambda>i. key (fst x i))
      \<and> (\<forall>i. leads (fst x i) \<longrightarrow> holder (snd x) = Some (key (fst x i)))"
  proof (induction rule: nodes_reach.induct)
    case start
    then show ?case using assms(2-4) by simp
  next
    case (step x y)
    then show ?case using single_leader_step[of "fst x" "snd x" "fst y" "snd y"] by simp
  qed
  then show "leads (fst x i) \<Longrightarrow> holder (snd x) = Some (key (fst x i)) \<and> (\<forall>j. leads (fst x j) \<longrightarrow> j = i)"
    by (metis injD option.inject)
qed

end

end
