(* ===== verification/Redis_Elect.thy ===== *)
theory Redis_Elect
  imports Dkit_Elect Redis_Keys
begin

text \<open>
  \<open>dkit/redis/elect.go\<close>: leader election and heartbeats on Redis. \<open>redis_election_args\<close> is an
  \<open>ElectionImpl\<close> before \<open>Init\<close>, \<open>redis_election\<close> one whose options \<open>Init\<close> has accepted (non-nil
  options and client); the remaining methods run on the latter. The election and heartbeat
  goroutines become the operations \<open>runElectionOnce\<close> and \<open>heartBeat\<close>, in any order and any number;
  \<open>Close\<close> stops them. Between the two commands of \<open>campaign\<close>, and between the pages of a scan, other
  clients may act. The operation timeout shows as a failing command. Log output is left out.

  Lemmas: what one election round leaves behind; nodes of a domain as a step relation in which
  the commands of different nodes interleave, with a single leader as invariant while the leader
  record does not expire; published events; the alive nodes a scan returns.
\<close>

section \<open>Options\<close>

abbreviation (input) DefaultUnhealthyTime :: duration where "DefaultUnhealthyTime \<equiv> 5 * Second"
abbreviation (input) DefaultTimeout :: duration where "DefaultTimeout \<equiv> 2 * Second"
abbreviation (input) defaultKeyPrefix :: string where "defaultKeyPrefix \<equiv> ''dkit''"

record 'r redis_election_args =
  ea_opt :: "election_option option"
  ea_redisCli :: "'r redis_client option"
  ea_keyPrefix :: string

record 'r redis_election =
  el_opt :: election_option
  el_redisCli :: "'r redis_client"
  el_keyPrefix :: string
  el_leader :: leader_state
  el_ready :: bool
  el_closed :: bool

definition NewElectionImpl ::
    "election_option option \<Rightarrow> 'r redis_client option \<Rightarrow> string \<Rightarrow> 'r redis_election_args" where
  "NewElectionImpl opt c keyPrefix = \<lparr>ea_opt = opt, ea_redisCli = c, ea_keyPrefix = keyPrefix\<rparr>"

definition election_NodeKey :: "election_option option \<Rightarrow> string" where
  "election_NodeKey opt = (case opt of None \<Rightarrow> [] | Some o' \<Rightarrow> eo_NodeKey o')"

definition redis_readOpt :: "'r redis_election_args \<Rightarrow> 'r redis_election result" where
  "redis_readOpt a =
     (case ea_opt a of
        None \<Rightarrow> Inl (WrapError [] ErrInvalidOption '': election option is nil'')
      | Some opt \<Rightarrow>
          if eo_NodeKey opt = [] then Inl (WrapError [] ErrInvalidOption '': node key is empty'')
          else
            let opt = (if eo_UnhealthyTime opt \<le> 0 then opt\<lparr>eo_UnhealthyTime := DefaultUnhealthyTime\<rparr> else opt);
                opt = (if eo_Timeout opt \<le> 0 then opt\<lparr>eo_Timeout := DefaultTimeout\<rparr> else opt)
            in case ea_redisCli a of
                 None \<Rightarrow> Inl (WrapError [] ErrInvalidOption '': redis client is nil'')
               | Some c \<Rightarrow>
                   Inr \<lparr>el_opt = opt, el_redisCli = c,
                        el_keyPrefix = (if ea_keyPrefix a = [] then defaultKeyPrefix else ea_keyPrefix a),
                        el_leader = initial_leader_state, el_ready = False, el_closed = False\<rparr>)"

section \<open>Election rounds\<close>

definition leaderKey :: "'r redis_election \<Rightarrow> string" where
  "leaderKey e = buildLeaderKey (el_keyPrefix e) (eo_IsolationKey (el_opt e))"

definition set_flag :: "bool \<Rightarrow> 'r redis_election \<Rightarrow> 'r redis_election" where
  "set_flag b e = e\<lparr>el_leader := setLeaderFlag (el_opt e) b (el_leader e)\<rparr>"

definition markReady :: "'r redis_election \<Rightarrow> 'r redis_election" where
  "markReady e = e\<lparr>el_ready := True\<rparr>"

definition IsLeader :: "'r redis_election \<Rightarrow> bool" where
  "IsLeader e = ls_flag (el_leader e)"

text \<open>
  The two commands of \<open>campaign\<close>. The first answers whether the round is over (\<open>Some\<close> its error
  result) or the holder has to be read.
\<close>

definition campaign_set ::
    "'r redis_election \<Rightarrow> 'r \<Rightarrow> go_error option option \<times> 'r redis_election \<times> 'r" where
  "campaign_set e r =
     (case rc_SetNX (el_redisCli e) r (leaderKey e) (eo_NodeKey (el_opt e)) (eo_UnhealthyTime (el_opt e)) of
        (Inl err, r) \<Rightarrow> (Some (Some (WrapError ''insert leader failed: '' err [])), e, r)
      | (Inr True, r) \<Rightarrow> (Some None, set_flag True e, r)
      | (Inr False, r) \<Rightarrow> (None, e, r))"

definition campaign_get :: "'r redis_election \<Rightarrow> 'r \<Rightarrow> go_error option \<times> 'r redis_election \<times> 'r" where
  "campaign_get e r =
     (case rc_Get (el_redisCli e) r (leaderKey e) of
        (Inr None, r) \<Rightarrow> (None, e, r)
      | (Inl err, r) \<Rightarrow> (Some (WrapError ''find election data failed: '' err []), e, r)
      | (Inr (Some holder), r) \<Rightarrow>
          (None, if holder = eo_NodeKey (el_opt e) then set_flag True e else e, r))"

definition campaign ::
    "('r \<Rightarrow> 'r) \<Rightarrow> 'r redis_election \<Rightarrow> 'r \<Rightarrow> go_error option \<times> 'r redis_election \<times> 'r" where
  "campaign mid e r =
     (case campaign_set e r of
        (Some err, e, r) \<Rightarrow> (err, e, r)
      | (None, e, r) \<Rightarrow> campaign_get e (mid r))"

definition continueLeader :: "'r redis_election \<Rightarrow> 'r \<Rightarrow> go_error option \<times> 'r" where
  "continueLeader e r =
     (case rc_Eval (el_redisCli e) r
             (continueLeaderScript (el_redisCli e) (leaderKey e) (eo_NodeKey (el_opt e))
                (Milliseconds (eo_UnhealthyTime (el_opt e)))) of
        (Inl err, r) \<Rightarrow> (Some (WrapError ''update leader failed: '' err []), r)
      | (Inr ret, r) \<Rightarrow>
          if ret = 0 then (Some (OpaqueError ''continue leader failed''), r) else (None, r))"

definition elect :: "('r \<Rightarrow> 'r) \<Rightarrow> 'r redis_election \<Rightarrow> 'r \<Rightarrow> 'r redis_election \<times> 'r" where
  "elect mid e r =
     (if IsLeader e then
        (case continueLeader e r of
           (Some err, r) \<Rightarrow> (set_flag False e, r)
         | (None, r) \<Rightarrow> (e, r))
      else
        (case campaign mid e r of (err, e, r) \<Rightarrow> (e, r)))"

definition runElectionOnce ::
    "time \<Rightarrow> ('r \<Rightarrow> 'r) \<Rightarrow> 'r redis_election \<Rightarrow> 'r \<Rightarrow> 'r redis_election \<times> 'r" where
  "runElectionOnce now mid e r =
     (if \<not> may_elect now (el_opt e) then (markReady (set_flag False e), r)
      else (case elect mid e r of (e, r) \<Rightarrow> (markReady e, r)))"

text \<open>
  \<open>Init\<close> returns once the first election round has run. The heartbeat worker is started beside
  it; its beats are the operation \<open>heartBeat\<close> below.
\<close>

definition election_Init ::
    "time \<Rightarrow> ('r \<Rightarrow> 'r) \<Rightarrow> 'r redis_election_args \<Rightarrow> 'r \<Rightarrow> 'r redis_election result \<times> 'r" where
  "election_Init now mid a r =
     (case redis_readOpt a of
        Inl err \<Rightarrow> (Inl err, r)
      | Inr e \<Rightarrow> (case runElectionOnce now mid e r of (e, r) \<Rightarrow> (Inr e, r)))"

section \<open>Heartbeats\<close>

definition heartBeat :: "'r redis_election \<Rightarrow> 'r \<Rightarrow> go_error option \<times> 'r" where
  "heartBeat e r =
     (case rc_Set (el_redisCli e) r
             (buildHeartbeatKey (el_keyPrefix e) (eo_IsolationKey (el_opt e)) (eo_NodeKey (el_opt e)))
             (eo_NodeKey (el_opt e)) (eo_UnhealthyTime (el_opt e)) of
        (Inl err, r) \<Rightarrow> (Some (WrapError ''update heartbeat failed: '' err []), r)
      | (Inr u, r) \<Rightarrow> (None, r))"

definition IsAlive :: "'r redis_election \<Rightarrow> string \<Rightarrow> 'r \<Rightarrow> bool result \<times> 'r" where
  "IsAlive e nodeKey r =
     (if \<not> eo_KeepHeartbeat (el_opt e)
      then (Inl (WrapError [] ErrInvalidOption '': heartbeat is disabled''), r)
      else
        (case rc_Exists (el_redisCli e) r
                (buildHeartbeatKey (el_keyPrefix e) (eo_IsolationKey (el_opt e)) nodeKey) of
           (Inl err, r) \<Rightarrow> (Inl (WrapError ''query alive node failed: '' err []), r)
         | (Inr ret, r) \<Rightarrow> (Inr (0 < ret), r)))"

text \<open>
  \<open>scanHeartbeatKeys\<close> loops until the server returns cursor 0. Other clients act after each page
  (the list \<open>envs\<close>); \<open>None\<close>: still scanning when the list ends.
\<close>

fun scanHeartbeatKeys ::
    "'r redis_election \<Rightarrow> ('r \<Rightarrow> 'r) list \<Rightarrow> nat \<Rightarrow> string list \<Rightarrow> 'r \<Rightarrow> (string list result \<times> 'r) option" where
  "scanHeartbeatKeys e [] cursor ret r = None"
| "scanHeartbeatKeys e (env # envs) cursor ret r =
     (case rc_Scan (el_redisCli e) r cursor
             (heartbeatMatchPattern (el_keyPrefix e) (eo_IsolationKey (el_opt e))) of
        (Inl err, r) \<Rightarrow> Some (Inl (WrapError ''find alive nodes failed: '' err []), r)
      | (Inr (ks, nextCursor), r) \<Rightarrow>
          if nextCursor = 0 then Some (Inr (ret @ ks), r)
          else scanHeartbeatKeys e envs nextCursor (ret @ ks) (env r))"

fun decode_nodes :: "string list \<Rightarrow> string list result" where
  "decode_nodes [] = Inr []"
| "decode_nodes (key # keys) =
     (case LastIndexByte key CHR '':'' of
        None \<Rightarrow> decode_nodes keys
      | Some idx \<Rightarrow>
          if idx = length key - 1 then decode_nodes keys
          else
            (case decodeComponent (drop (idx + 1) key) of
               Inl err \<Rightarrow> Inl (WrapError ''decode heartbeat node key failed: '' err [])
             | Inr nodeKey \<Rightarrow>
                 (case decode_nodes keys of Inl err \<Rightarrow> Inl err | Inr ns \<Rightarrow> Inr (nodeKey # ns))))"

definition AliveNodes ::
    "'r redis_election \<Rightarrow> ('r \<Rightarrow> 'r) list \<Rightarrow> 'r \<Rightarrow> (string list result \<times> 'r) option" where
  "AliveNodes e envs r =
     (if \<not> eo_KeepHeartbeat (el_opt e)
      then Some (Inl (WrapError [] ErrInvalidOption '': heartbeat is disabled''), r)
      else
        (case scanHeartbeatKeys e envs 0 [] r of
           None \<Rightarrow> None
         | Some (Inl err, r) \<Rightarrow> Some (Inl err, r)
         | Some (Inr keys, r) \<Rightarrow> Some (decode_nodes keys, r)))"

section \<open>Closing\<close>

text \<open>\<open>Close\<close> waits for the workers, then deregisters; \<open>mid\<close> is between its two commands.\<close>

definition election_Close :: "('r \<Rightarrow> 'r) \<Rightarrow> 'r redis_election \<Rightarrow> 'r \<Rightarrow> 'r redis_election \<times> 'r" where
  "election_Close mid e r =
     (if el_closed e then (e, r)
      else
        let r = (if IsLeader e
                 then snd (rc_Eval (el_redisCli e) r
                        (deleteIfValueScript (el_redisCli e) (leaderKey e) (eo_NodeKey (el_opt e))))
                 else r);
            r = (if eo_KeepHeartbeat (el_opt e)
                 then snd (rc_Del (el_redisCli e) (mid r)
                        (buildHeartbeatKey (el_keyPrefix e) (eo_IsolationKey (el_opt e)) (eo_NodeKey (el_opt e))))
                 else r)
        in (e\<lparr>el_closed := True\<rparr>, r))"

section \<open>One round\<close>

lemma set_flag_simps [simp]:
  "IsLeader (set_flag b e) = b" "el_opt (set_flag b e) = el_opt e"
  "el_redisCli (set_flag b e) = el_redisCli e" "el_keyPrefix (set_flag b e) = el_keyPrefix e"
  "leaderKey (set_flag b e) = leaderKey e" "el_closed (set_flag b e) = el_closed e"
  by (simp_all add: set_flag_def IsLeader_def leaderKey_def)

lemma markReady_simps [simp]:
  "IsLeader (markReady e) = IsLeader e" "el_opt (markReady e) = el_opt e"
  "el_redisCli (markReady e) = el_redisCli e" "el_keyPrefix (markReady e) = el_keyPrefix e"
  "leaderKey (markReady e) = leaderKey e" "el_closed (markReady e) = el_closed e"
  "el_leader (markReady e) = el_leader e"
  by (simp_all add: markReady_def IsLeader_def leaderKey_def)

lemmas campaign_splits = sum.splits bool.splits option.splits prod.splits if_splits

text \<open>Nothing but the leader flag and the ready mark of a node ever changes in a round.\<close>

definition same_node :: "'r redis_election \<Rightarrow> 'r redis_election \<Rightarrow> bool" where
  "same_node e e' \<longleftrightarrow> el_opt e' = el_opt e \<and> el_redisCli e' = el_redisCli e
     \<and> el_keyPrefix e' = el_keyPrefix e \<and> el_closed e' = el_closed e
     \<and> (el_leader e' = el_leader e \<or> (\<exists>b. el_leader e' = setLeaderFlag (el_opt e) b (el_leader e)))"

lemma same_node_simps [simp]:
  "same_node e e" "same_node e (set_flag b e)" "same_node e (markReady e') = same_node e e'"
  by (auto simp: same_node_def set_flag_def)

lemma same_node_leaderKey: "same_node e e' \<Longrightarrow> leaderKey e' = leaderKey e"
  by (simp add: same_node_def leaderKey_def)

lemma campaign_set_same: "campaign_set e r = (res, e', r') \<Longrightarrow> same_node e e'"
  by (auto simp: campaign_set_def split: campaign_splits)

lemma campaign_get_same: "campaign_get e r = (res, e', r') \<Longrightarrow> same_node e e'"
  by (auto simp: campaign_get_def split: campaign_splits)

lemma campaign_set_None: "campaign_set e r = (None, e', r') \<Longrightarrow> e' = e"
  by (auto simp: campaign_set_def split: campaign_splits)

lemma elect_same: "elect mid e r = (e', r') \<Longrightarrow> same_node e e'"
  by (auto simp: elect_def campaign_def campaign_set_None split: campaign_splits
      dest: campaign_set_same campaign_get_same campaign_set_None)

lemma runElectionOnce_same: "runElectionOnce now mid e r = (e', r') \<Longrightarrow> same_node e e'"
  by (auto simp: runElectionOnce_def split: campaign_splits dest: elect_same)

text \<open>Leases shorter than a millisecond are outside of what \<open>PEXPIRE\<close> can express.\<close>

definition lease_ok :: "'r redis_election \<Rightarrow> bool" where
  "lease_ok e \<longleftrightarrow> Millisecond \<le> eo_UnhealthyTime (el_opt e)"

lemma lease_ok_ms: "lease_ok e \<Longrightarrow> 0 < Milliseconds (eo_UnhealthyTime (el_opt e))"
  by (auto simp: lease_ok_def Milliseconds_def go_div_nonneg)

context redis_server
begin

lemma continueLeader_live:
  assumes "lease_ok e" and "el_redisCli e = cli" and "continueLeader e r = (res, r')"
  shows "live r' = live r \<and> (res = None \<longrightarrow> live r (leaderKey e) = Some (eo_NodeKey (el_opt e)))"
proof -
  let ?scr = "continueLeaderScript cli (leaderKey e) (eo_NodeKey (el_opt e)) (Milliseconds (eo_UnhealthyTime (el_opt e)))"
  obtain v r1 where ev: "rc_Eval cli r ?scr = (v, r1)" by fastforce
  obtain n r2 where scr: "?scr r = (n, r2)" by fastforce
  note c = continueLeader_result[OF lease_ok_ms[OF assms(1)] scr]
  have "live r1 = live r"
    using ev scr c Eval_ran[of r ?scr] Eval_failed[of r ?scr] by (cases v) auto
  moreover have "v = Inr n" if "v = Inr m" for m using that ev scr Eval_ran by fastforce
  ultimately show ?thesis
    using assms(2,3) ev c by (auto simp: continueLeader_def split: sum.splits if_splits)
qed

lemma campaign_set_live:
  assumes "el_redisCli e = cli" and "campaign_set e r = (res, e', r')"
  shows "(live r' = live r \<or> (live r (leaderKey e) = None \<and> live r' = (live r)(leaderKey e \<mapsto> eo_NodeKey (el_opt e))))
    \<and> (e' = e \<or> (e' = set_flag True e \<and> live r' (leaderKey e) = Some (eo_NodeKey (el_opt e))))"
  using assms(2) unfolding campaign_set_def assms(1)
  by (auto dest: SetNX_stored SetNX_refused SetNX_failed split: campaign_splits)

lemma campaign_get_live:
  assumes "el_redisCli e = cli" and "campaign_get e r = (res, e', r')"
  shows "live r' = live r
    \<and> (e' = e \<or> (e' = set_flag True e \<and> live r' (leaderKey e) = Some (eo_NodeKey (el_opt e))))"
  using assms(2) unfolding campaign_get_def assms(1)
  by (auto dest: Get_value Get_failed split: campaign_splits)

text \<open>A round of a node that ends with its flag set ends with the leader record being its own.\<close>

lemma round_sound:
  assumes "lease_ok e" and "el_redisCli e = cli" and "runElectionOnce now mid e r = (e', r')"
    and "IsLeader e'"
  shows "live r' (leaderKey e) = Some (eo_NodeKey (el_opt e))"
proof -
  from assms(3,4) obtain e1 where el: "elect mid e r = (e1, r')" and "IsLeader e1"
    by (auto simp: runElectionOnce_def split: if_splits prod.splits)
  show ?thesis
  proof (cases "IsLeader e")
    case True
    then show ?thesis
      using el \<open>IsLeader e1\<close> continueLeader_live[OF assms(1,2), of r]
      by (auto simp: elect_def split: prod.splits option.splits)
  next
    case False
    with el obtain err where c: "campaign mid e r = (err, e1, r')"
      by (auto simp: elect_def split: prod.splits)
    obtain res e2 r2 where cs: "campaign_set e r = (res, e2, r2)" by (metis prod_cases3)
    show ?thesis
    proof (cases res)
      case None
      with c cs have "campaign_get e (mid r2) = (err, e1, r')"
        by (auto simp: campaign_def dest: campaign_set_None)
      from campaign_get_live[OF assms(2) this] False \<open>IsLeader e1\<close> show ?thesis by auto
    next
      case (Some x)
      with c cs campaign_set_live[OF assms(2) cs] False \<open>IsLeader e1\<close> show ?thesis
        by (auto simp: campaign_def)
    qed
  qed
qed

text \<open>While another node's record is live, a round ends without leadership and keeps that record.\<close>

lemma round_other:
  assumes "lease_ok e" and "el_redisCli e = cli" and "runElectionOnce now mid e r = (e', r')"
    and "live r (leaderKey e) = Some n" and "n \<noteq> eo_NodeKey (el_opt e)"
    and mid: "\<And>x. live x (leaderKey e) = Some n \<Longrightarrow> live (mid x) (leaderKey e) = Some n"
  shows "\<not> IsLeader e' \<and> live r' (leaderKey e) = Some n"
proof -
  have key: "live r' (leaderKey e) = Some n"
  proof (cases "may_elect now (el_opt e)")
    case True
    with assms(3) obtain e1 where el: "elect mid e r = (e1, r')"
      by (auto simp: runElectionOnce_def split: prod.splits)
    show ?thesis
    proof (cases "IsLeader e")
      case True
      with el assms(4) continueLeader_live[OF assms(1,2), of r] show ?thesis
        by (auto simp: elect_def split: prod.splits option.splits)
    next
      case False
      obtain res e2 r2 where cs: "campaign_set e r = (res, e2, r2)" by (metis prod_cases3)
      have r2: "live r2 (leaderKey e) = Some n" using campaign_set_live[OF assms(2) cs] assms(4) by auto
      obtain gr e3 r3 where cg: "campaign_get e (mid r2) = (gr, e3, r3)" by (metis prod_cases3)
      have "r' = r2 \<or> r' = r3"
        using el False cs cg campaign_set_None[of e r]
        by (cases res) (auto simp: elect_def campaign_def)
      with r2 mid[OF r2] campaign_get_live[OF assms(2) cg] show ?thesis by auto
    qed
  next
    case False
    with assms(3,4) show ?thesis by (simp add: runElectionOnce_def)
  qed
  with round_sound[OF assms(1-3)] assms(5) show ?thesis by auto
qed

end

section \<open>The nodes of a domain\<close>

text \<open>
  A round in two parts: up to the refused \<open>SET NX\<close> of a campaign (first component true), and the
  reading of the holder.
\<close>

definition round_start ::
    "time \<Rightarrow> 'r redis_election \<Rightarrow> 'r \<Rightarrow> bool \<times> 'r redis_election \<times> 'r" where
  "round_start now e r =
     (if \<not> may_elect now (el_opt e) then (False, markReady (set_flag False e), r)
      else if IsLeader e then
        (case continueLeader e r of
           (Some err, r) \<Rightarrow> (False, markReady (set_flag False e), r)
         | (None, r) \<Rightarrow> (False, markReady e, r))
      else
        (case campaign_set e r of
           (Some err, e, r) \<Rightarrow> (False, markReady e, r)
         | (None, e, r) \<Rightarrow> (True, e, r)))"

definition round_finish :: "'r redis_election \<Rightarrow> 'r \<Rightarrow> 'r redis_election \<times> 'r" where
  "round_finish e r = (case campaign_get e r of (err, e, r) \<Rightarrow> (markReady e, r))"

lemma runElectionOnce_split:
  "runElectionOnce now mid e r =
     (case round_start now e r of
        (pending, e, r) \<Rightarrow> if pending then round_finish e (mid r) else (e, r))"
  by (auto simp: runElectionOnce_def round_start_def round_finish_def elect_def campaign_def
      split: prod.splits option.splits)

text \<open>\<open>Close\<close> in two parts: deregistering the leader, and the heartbeat.\<close>

definition close_leader :: "'r redis_election \<Rightarrow> 'r \<Rightarrow> 'r redis_election \<times> 'r" where
  "close_leader e r =
     (if el_closed e then (e, r)
      else (e\<lparr>el_closed := True\<rparr>,
            if IsLeader e
            then snd (rc_Eval (el_redisCli e) r
                   (deleteIfValueScript (el_redisCli e) (leaderKey e) (eo_NodeKey (el_opt e))))
            else r))"

definition close_heartbeat :: "'r redis_election \<Rightarrow> 'r \<Rightarrow> 'r" where
  "close_heartbeat e r =
     snd (rc_Del (el_redisCli e) r
       (buildHeartbeatKey (el_keyPrefix e) (eo_IsolationKey (el_opt e)) (eo_NodeKey (el_opt e))))"

lemma election_Close_split:
  "election_Close mid e r =
     (case close_leader e r of
        (e', r') \<Rightarrow> (e', if \<not> el_closed e \<and> eo_KeepHeartbeat (el_opt e) then close_heartbeat e (mid r') else r'))"
  by (simp add: election_Close_def close_leader_def close_heartbeat_def Let_def)

text \<open>
  One command of a node; the second component says that the holder has still to be read. A node
  runs one round at a time, none once closed, and closes when no round is under way. The leader
  record does not expire in these steps: they describe the time while leases are renewed.
\<close>

inductive redis_nstep ::
    "'r redis_election \<times> bool \<Rightarrow> 'r \<Rightarrow> 'r redis_election \<times> bool \<Rightarrow> 'r \<Rightarrow> bool" where
  step_round: "\<not> el_closed e \<Longrightarrow> round_start now e r = (pending, e', r') \<Longrightarrow>
     redis_nstep (e, False) r (e', pending) r'"
| step_finish: "round_finish e r = (e', r') \<Longrightarrow> redis_nstep (e, True) r (e', False) r'"
| step_beat: "heartBeat e r = (res, r') \<Longrightarrow> redis_nstep (e, pending) r (e, pending) r'"
| step_close: "close_leader e r = (e', r') \<Longrightarrow> redis_nstep (e, False) r (e', False) r'"
| step_unbeat: "redis_nstep (e, pending) r (e, pending) (close_heartbeat e r)"

inductive_cases redis_nstepE: "redis_nstep e r e' r'"

text \<open>The nodes share the server, the prefix and the isolation key.\<close>

definition in_domain :: "'r redis_client \<Rightarrow> string \<Rightarrow> string \<Rightarrow> 'r redis_election \<times> bool \<Rightarrow> bool" where
  "in_domain c p ik e \<longleftrightarrow> el_redisCli (fst e) = c \<and> el_keyPrefix (fst e) = p
     \<and> eo_IsolationKey (el_opt (fst e)) = ik \<and> lease_ok (fst e)"

definition redis_leads :: "'r redis_election \<times> bool \<Rightarrow> bool" where
  "redis_leads e \<longleftrightarrow> IsLeader (fst e) \<and> \<not> el_closed (fst e)"

definition node_key :: "'r redis_election \<times> bool \<Rightarrow> string" where
  "node_key e = eo_NodeKey (el_opt (fst e))"

lemma leader_key_not_heartbeat: "buildLeaderKey p ik \<noteq> buildHeartbeatKey p ik' n"
  by (simp add: buildLeaderKey_def buildHeartbeatKey_def)

context redis_server
begin

text \<open>
  What one part of a round does: either the server keeps its keys, or the leader record was
  absent and is now this node's; and the flag is down, unchanged, or backed by the record.
\<close>

lemma round_start_live:
  assumes "lease_ok e" and "el_redisCli e = cli" and "round_start now e r = (pending, e', r')"
  shows "same_node e e'
    \<and> (live r' = live r \<or> (live r (leaderKey e) = None \<and> live r' = (live r)(leaderKey e \<mapsto> eo_NodeKey (el_opt e))))
    \<and> (\<not> IsLeader e' \<or> live r' (leaderKey e) = Some (eo_NodeKey (el_opt e)))"
proof -
  obtain cr r1 where cl: "continueLeader e r = (cr, r1)" by fastforce
  obtain sr e2 r2 where cs: "campaign_set e r = (sr, e2, r2)" by (metis prod_cases3)
  consider "\<not> may_elect now (el_opt e)" | "may_elect now (el_opt e)" "IsLeader e"
    | "may_elect now (el_opt e)" "\<not> IsLeader e" by blast
  then show ?thesis
  proof cases
    case 1
    with assms(3) show ?thesis by (auto simp: round_start_def)
  next
    case 2
    with assms(3) cl continueLeader_live[OF assms(1,2) cl] show ?thesis
      by (auto simp: round_start_def split: option.splits)
  next
    case 3
    with assms(3) cs have e': "e' = e2 \<or> e' = markReady e2" "r' = r2"
      by (auto simp: round_start_def split: option.splits)
    with campaign_set_live[OF assms(2) cs] campaign_set_same[OF cs] 3(2) show ?thesis by auto
  qed
qed

lemma round_finish_live:
  assumes "el_redisCli e = cli" and "round_finish e r = (e', r')"
  shows "same_node e e' \<and> live r' = live r
    \<and> (IsLeader e' \<longrightarrow> IsLeader e \<or> live r' (leaderKey e) = Some (eo_NodeKey (el_opt e)))"
proof -
  obtain gr e1 r1 where cg: "campaign_get e r = (gr, e1, r1)" by (metis prod_cases3)
  with assms(2) have "e' = markReady e1" "r' = r1" by (simp_all add: round_finish_def)
  with campaign_get_live[OF assms(1) cg] campaign_get_same[OF cg] show ?thesis by auto
qed

lemma heartBeat_live:
  assumes "el_redisCli e = cli" and "heartBeat e r = (res, r')"
    and "k \<noteq> buildHeartbeatKey (el_keyPrefix e) (eo_IsolationKey (el_opt e)) (eo_NodeKey (el_opt e))"
  shows "live r' k = live r k"
  using assms(2,3) unfolding heartBeat_def assms(1)
  by (auto dest!: Set_stored Set_failed split: sum.splits prod.splits)

lemma close_heartbeat_live:
  assumes "el_redisCli e = cli"
    and "k \<noteq> buildHeartbeatKey (el_keyPrefix e) (eo_IsolationKey (el_opt e)) (eo_NodeKey (el_opt e))"
  shows "live (close_heartbeat e r) k = live r k"
proof -
  let ?k = "buildHeartbeatKey (el_keyPrefix e) (eo_IsolationKey (el_opt e)) (eo_NodeKey (el_opt e))"
  obtain v r1 where "rc_Del cli r ?k = (v, r1)" by fastforce
  with assms Del_done[of r ?k] Del_failed[of r ?k] show ?thesis
    by (cases v) (auto simp: close_heartbeat_def)
qed

lemma close_leader_live:
  assumes "el_redisCli e = cli" and "close_leader e r = (e', r')"
    and "live r (leaderKey e) = Some n" and "n \<noteq> eo_NodeKey (el_opt e)"
  shows "live r' (leaderKey e) = Some n"
proof -
  obtain v r1 where ev: "rc_Eval cli r (deleteIfValueScript cli (leaderKey e) (eo_NodeKey (el_opt e))) = (v, r1)"
    by fastforce
  with Eval_deleteIfValue_other[OF ev, of "leaderKey e"] assms show ?thesis
    by (auto simp: close_leader_def split: if_splits)
qed

end

sublocale redis_server \<subseteq> relect: election_backend
  "in_domain cli p ik" node_key redis_leads "\<lambda>r. live r (buildLeaderKey p ik)" redis_nstep
  for p :: string and ik :: string
proof (unfold_locales, goal_cases)
  case (1 e s e' s')
  from 1(2,1) show ?case
    by (cases rule: redis_nstep.cases)
      (auto simp: in_domain_def node_key_def lease_ok_def same_node_def close_leader_def
        dest!: round_start_live[rotated 2] round_finish_live[rotated] split: if_splits)
next
  case (2 e s e' s' n)
  then have d: "el_redisCli (fst e) = cli" "leaderKey (fst e) = buildLeaderKey p ik" "lease_ok (fst e)"
      "el_keyPrefix (fst e) = p" "eo_IsolationKey (el_opt (fst e)) = ik"
    by (simp_all add: in_domain_def leaderKey_def)
  note hb = leader_key_not_heartbeat[of p ik]
  from 2(2) show ?case
  proof (cases rule: redis_nstep.cases)
    case (step_round e now pending e')
    with d 2 round_start_live[OF _ _ step_round(4)] show ?thesis by auto
  next
    case (step_finish e e')
    with d 2 round_finish_live[OF _ step_finish(3)] show ?thesis by auto
  next
    case (step_beat e res pending)
    with d 2 hb heartBeat_live[OF _ step_beat(3)] show ?thesis by auto
  next
    case (step_close e e')
    with d 2 close_leader_live[OF _ step_close(3)] show ?thesis by (auto simp: node_key_def)
  next
    case (step_unbeat e pending)
    with d 2 hb close_heartbeat_live show ?thesis by auto
  qed
next
  case (3 e s e' s')
  then have d: "el_redisCli (fst e) = cli" "leaderKey (fst e) = buildLeaderKey p ik" "lease_ok (fst e)"
      "el_keyPrefix (fst e) = p" "eo_IsolationKey (el_opt (fst e)) = ik"
    by (simp_all add: in_domain_def leaderKey_def)
  note hb = leader_key_not_heartbeat[of p ik]
  from 3(2) show ?case
  proof (cases rule: redis_nstep.cases)
    case (step_round e now pending e')
    with d 3(3) round_start_live[OF _ _ step_round(4)] show ?thesis
      by (auto simp: redis_leads_def node_key_def)
  next
    case (step_finish e e')
    with d 3(3) round_finish_live[OF _ step_finish(3)] show ?thesis
      by (auto simp: redis_leads_def node_key_def same_node_def)
  next
    case (step_beat e res pending)
    with d 3(3) hb heartBeat_live[OF _ step_beat(3)] show ?thesis by auto
  next
    case (step_close e e')
    with 3(3) show ?thesis by (auto simp: redis_leads_def close_leader_def split: if_splits)
  next
    case (step_unbeat e pending)
    with d 3(3) hb close_heartbeat_live show ?thesis by auto
  qed
qed

context redis_server
begin

lemmas redis_leader_unique = relect.single_leader

end

section \<open>Published events\<close>

datatype 'r election_op = Round time "'r \<Rightarrow> 'r" | Beat | Closing "'r \<Rightarrow> 'r"

fun election_oper :: "'r election_op \<Rightarrow> 'r redis_election \<times> 'r \<Rightarrow> 'r redis_election \<times> 'r" where
  "election_oper (Round now mid) (e, r) = (if el_closed e then (e, r) else runElectionOnce now mid e r)"
| "election_oper Beat (e, r) = (e, snd (heartBeat e r))"
| "election_oper (Closing mid) (e, r) = election_Close mid e r"

interpretation redis_flag: leader_flag el_opt el_leader election_oper
proof
  fix a :: "'r election_op" and x :: "'r redis_election \<times> 'r"
  obtain e r where x: "x = (e, r)" by fastforce
  have run: "same_node e (fst (runElectionOnce now mid e r))" for now mid
    using runElectionOnce_same[of now mid e r] by (metis prod.collapse)
  show "el_opt (fst (election_oper a x)) = el_opt (fst x)"
    using run x by (cases a) (auto simp: same_node_def election_Close_def Let_def)
  show "el_leader (fst (election_oper a x)) = el_leader (fst x)
      \<or> (\<exists>b. el_leader (fst (election_oper a x)) = setLeaderFlag (el_opt (fst x)) b (el_leader (fst x)))"
    using run x by (cases a) (auto simp: same_node_def election_Close_def Let_def)
qed

section \<open>Alive nodes\<close>

definition hb_prefix :: "'r redis_election \<Rightarrow> string" where
  "hb_prefix e = el_keyPrefix e @ '':heartbeat:'' @ encodeComponent (eo_IsolationKey (el_opt e)) @ '':''"

definition hb_key :: "'r redis_election \<Rightarrow> string \<Rightarrow> string" where
  "hb_key e n = buildHeartbeatKey (el_keyPrefix e) (eo_IsolationKey (el_opt e)) n"

lemma hb_pattern:
  "heartbeatMatchPattern (el_keyPrefix e) (eo_IsolationKey (el_opt e)) = hb_prefix e @ ''*''"
  by (simp add: heartbeatMatchPattern_def hb_prefix_def)

lemma hb_key_prefix: "hb_key e n = hb_prefix e @ encodeComponent n"
  by (simp add: hb_key_def hb_prefix_def buildHeartbeatKey_def)

lemma hb_prefix_plain: "glob_plain (el_keyPrefix e) \<Longrightarrow> glob_plain (hb_prefix e)"
  using encodeComponent_plain[of "eo_IsolationKey (el_opt e)"] by (simp add: hb_prefix_def glob_plain_def)

lemma decode_nodes_keys: "list_all (\<lambda>n. n \<noteq> []) ns \<Longrightarrow> decode_nodes (map (hb_key e) ns) = Inr ns"
proof (induction ns)
  case (Cons n ns)
  obtain p where key: "hb_key e n = p @ CHR '':'' # encodeComponent n"
    using buildHeartbeatKey_split unfolding hb_key_def by blast
  have "LastIndexByte (hb_key e n) CHR '':'' = Some (length p)"
    unfolding key by (rule LastIndexByte_append) simp
  with Cons show ?case by (simp add: key decode_encodeComponent)
qed simp

lemma scanHeartbeatKeys_failed:
  "scanHeartbeatKeys e envs cur ret r = Some (Inl err, r') \<Longrightarrow>
     \<exists>cause. err = WrapError ''find alive nodes failed: '' cause []"
  by (induction e envs cur ret r rule: scanHeartbeatKeys.induct)
    (auto split: sum.splits prod.splits if_splits)

context redis_scan
begin

lemma scanHeartbeatKeys_pages:
  assumes "el_redisCli e = cli" and "\<forall>env \<in> set envs. \<forall>x. live (env x) = live x"
    and "scanHeartbeatKeys e envs cur ret r = Some (Inr keys, r')"
  shows "\<exists>ks rs. keys = ret @ ks \<and> scan_iter cli (hb_prefix e @ ''*'') cur r ks rs
    \<and> (\<forall>x \<in> set rs. live x = live r) \<and> (\<forall>k \<in> set ks. glob (hb_prefix e @ ''*'') k \<and> live r k \<noteq> None)"
  using assms(2,3)
proof (induction envs arbitrary: cur ret r)
  case (Cons env envs)
  obtain x r1 where sc: "rc_Scan cli r cur (hb_prefix e @ ''*'') = (x, r1)" by fastforce
  with Cons.prems(2) assms(1) obtain ks c' where x: "x = Inr (ks, c')"
    by (cases x) (auto simp: hb_pattern)
  note pg = Scan_page[OF sc[unfolded x]]
  show ?case
  proof (cases "c' = 0")
    case True
    with Cons.prems(2) assms(1) sc x have "keys = ret @ ks" by (simp add: hb_pattern)
    moreover have "scan_iter cli (hb_prefix e @ ''*'') cur r ks [r]"
      using last_page[of cli r cur _ ks r1] sc x True by simp
    ultimately show ?thesis using pg by (intro exI[of _ ks] exI[of _ "[r]"]) simp
  next
    case False
    with Cons.prems(2) assms(1) sc x
    have "scanHeartbeatKeys e envs c' (ret @ ks) (env r1) = Some (Inr keys, r')" by (simp add: hb_pattern)
    from Cons.IH[OF _ this] Cons.prems(1) obtain ks' rs where
      IH: "keys = (ret @ ks) @ ks'" "scan_iter cli (hb_prefix e @ ''*'') c' (env r1) ks' rs"
        "\<forall>x \<in> set rs. live x = live (env r1)"
        "\<forall>k \<in> set ks'. glob (hb_prefix e @ ''*'') k \<and> live (env r1) k \<noteq> None"
      by auto
    have "live (env r1) = live r" using Cons.prems(1) pg by simp
    with IH pg next_page[OF sc[unfolded x] False IH(2)] show ?thesis
      by (intro exI[of _ "ks @ ks'"] exI[of _ "r # rs"]) auto
  qed
qed simp

lemma AliveNodes_exact:
  assumes "el_redisCli e = cli" and "eo_KeepHeartbeat (el_opt e)" and "glob_plain (el_keyPrefix e)"
    and "\<forall>env \<in> set envs. \<forall>x. live (env x) = live x"
    and keys: "\<forall>k. prefix (hb_prefix e) k \<longrightarrow> live r k \<noteq> None \<longrightarrow> (\<exists>n. n \<noteq> [] \<and> k = hb_key e n)"
    and "scanHeartbeatKeys e envs 0 [] r = Some (Inr ks, r')"
  shows "\<exists>ns. AliveNodes e envs r = Some (Inr ns, r') \<and> set ns = {n. n \<noteq> [] \<and> live r (hb_key e n) \<noteq> None}"
proof -
  from scanHeartbeatKeys_pages[OF assms(1,4,6)] obtain rs where
    it: "scan_iter cli (hb_prefix e @ ''*'') 0 r ks rs" "\<forall>x \<in> set rs. live x = live r"
      "\<forall>k \<in> set ks. glob (hb_prefix e @ ''*'') k \<and> live r k \<noteq> None" by auto
  note star = glob_star[OF hb_prefix_plain[OF assms(3)]]
  from it(3) star keys have "\<forall>k \<in> set ks. \<exists>n. n \<noteq> [] \<and> k = hb_key e n" by blast
  then obtain f where f: "\<forall>k \<in> set ks. f k \<noteq> [] \<and> k = hb_key e (f k)" by metis
  have km: "ks = map (hb_key e) (map f ks)" using f by (simp add: map_idI)
  have "decode_nodes ks = Inr (map f ks)"
    using decode_nodes_keys[of "map f ks" e] f km by (simp add: list_all_iff)
  then have an: "AliveNodes e envs r = Some (Inr (map f ks), r')"
    using assms(2,6) by (simp add: AliveNodes_def)
  have "n \<in> f ` set ks" if "n \<noteq> []" "live r (hb_key e n) \<noteq> None" for n
  proof -
    have "hb_key e n \<in> set ks"
      by (rule Scan_full[OF it(1)]) (use that it(2) in \<open>auto simp: star hb_key_prefix\<close>)
    moreover from this f have "f (hb_key e n) = n" by (metis hb_key_def buildHeartbeatKey_inj)
    ultimately show ?thesis by force
  qed
  with f it(3) have "set (map f ks) = {n. n \<noteq> [] \<and> live r (hb_key e n) \<noteq> None}" by fastforce
  with an show ?thesis by blast
qed

end

section \<open>Properties\<close>

text \<open>The domain the witnesses run: node \<open>i\<close> has the numeral of \<open>i\<close> as its node key.\<close>

definition demo_opt :: "string \<Rightarrow> election_option" where
  "demo_opt n = \<lparr>eo_NodeKey = n, eo_KeepHeartbeat = True, eo_UnhealthyTime = 5 * Second,
     eo_Timeout = 2 * Second, eo_IsolationKey = ''jobs'', eo_CanElect = None\<rparr>"

definition demo_node :: "string \<Rightarrow> mem_server redis_election" where
  "demo_node n = \<lparr>el_opt = demo_opt n, el_redisCli = mem_client, el_keyPrefix = ''dkit'',
     el_leader = initial_leader_state, el_ready = False, el_closed = False\<rparr>"

definition demo_srv :: "time \<Rightarrow> mem_server" where
  "demo_srv t = \<lparr>ms_now = t, ms_tab = []\<rparr>"

definition demo_nodes :: "nat \<Rightarrow> mem_server redis_election \<times> bool" where
  "demo_nodes i = (demo_node (FormatUint i), False)"

lemma demo_srv_live [simp]: "mem_live (demo_srv t) = Map.empty"
  by (simp add: demo_srv_def mem_live_def fun_eq_iff)

lemma demo_node_simps [simp]:
  "el_opt (demo_node n) = demo_opt n" "el_redisCli (demo_node n) = mem_client"
  "el_keyPrefix (demo_node n) = ''dkit''" "el_leader (demo_node n) = initial_leader_state"
  "\<not> el_closed (demo_node n)" "\<not> IsLeader (demo_node n)"
  "eo_NodeKey (demo_opt n) = n" "eo_IsolationKey (demo_opt n) = ''jobs''"
  "eo_UnhealthyTime (demo_opt n) = 5 * Second" "may_elect now (demo_opt n)" "eo_KeepHeartbeat (demo_opt n)"
  "leaderKey (demo_node n) = buildLeaderKey ''dkit'' ''jobs''" "lease_ok (demo_node n)"
  by (simp_all add: demo_node_def demo_opt_def initial_leader_state_def IsLeader_def may_elect_def
      leaderKey_def lease_ok_def)

lemma demo_domain:
  "in_domain mem_client ''dkit'' ''jobs'' (demo_nodes i)" "inj (\<lambda>i. node_key (demo_nodes i))"
  "\<not> redis_leads (demo_nodes i)"
  by (auto simp: in_domain_def demo_nodes_def node_key_def redis_leads_def dest: FormatUint_inj intro!: injI
      simp del: FormatUint.simps)

lemma demo_round_free:
  "round_start now (demo_node n) (demo_srv t) =
     (False, markReady (set_flag True (demo_node n)),
      mem_put (demo_srv t) (buildLeaderKey ''dkit'' ''jobs'') n (5 * Second))"
  by (simp add: round_start_def campaign_set_def) (simp add: mem_client_def)

text \<open>
  C4. Single leader on Redis: from nodes that are not leaders, through any interleaving of the
  commands of election rounds, heartbeats and shutdowns, with commands that may fail on the way
  and \<open>CanElect\<close> answering anything, as long as the leader record does not expire, the leader
  record names every open node that believes to be leader; so at most one does.
\<close>

theorem redis_single_leader:
  assumes "redis_server c lv" and "\<forall>i. in_domain c p ik (N0 i)" and "inj (\<lambda>i. node_key (N0 i))"
    and "\<forall>i. \<not> redis_leads (N0 i)" and "nodes_reach redis_nstep (N0, r0) (N, r)"
    and "redis_leads (N i)"
  shows "lv r (buildLeaderKey p ik) = Some (node_key (N i)) \<and> (\<forall>j. redis_leads (N j) \<longrightarrow> j = i)"
  using redis_server.redis_leader_unique[OF assms(1,5)] assms(2-4,6) by auto

theorem redis_single_leader_witness:
  "\<exists>N r. nodes_reach redis_nstep (demo_nodes, demo_srv 0) (N, r) \<and> redis_leads (N 0)
     \<and> mem_live r (buildLeaderKey ''dkit'' ''jobs'') = Some (node_key (N 0))
     \<and> (\<forall>j. redis_leads (N j) \<longrightarrow> j = 0)"
proof -
  let ?e = "(markReady (set_flag True (demo_node (FormatUint 0))), False)"
  let ?r = "mem_put (demo_srv 0) (buildLeaderKey ''dkit'' ''jobs'') (FormatUint 0) (5 * Second)"
  have "redis_nstep (demo_nodes 0) (demo_srv 0) ?e ?r"
    unfolding demo_nodes_def by (rule redis_nstep.step_round) (simp_all add: demo_round_free del: FormatUint.simps)
  then have r: "nodes_reach redis_nstep (demo_nodes, demo_srv 0) (demo_nodes(0 := ?e), ?r)"
    by (rule nodes_reach.step[OF nodes_reach.start nodes_step.node_step])
  have i: "redis_leads ((demo_nodes(0 := ?e)) 0)" by (simp add: redis_leads_def)
  have "\<forall>i. in_domain mem_client ''dkit'' ''jobs'' (demo_nodes i)" "\<forall>i. \<not> redis_leads (demo_nodes i)"
    using demo_domain by blast+
  from redis_single_leader[OF mem.redis_server_axioms this(1) demo_domain(2) this(2) r i] r i
  show ?thesis by blast
qed

text \<open>
  An election round on Redis is truthful: a node whose round ends with the leader flag set is
  the node the leader record names at that moment, whatever happened before (expired leases
  included) and whatever other clients do between the commands; and while the record names
  another node and is not taken away, a round ends without leadership and keeps the record.
\<close>

theorem redis_round_truthful:
  assumes "redis_server c lv" and "lease_ok e" and "el_redisCli e = c"
    and "runElectionOnce now mid e r = (e', r')"
  shows "(IsLeader e' \<longrightarrow> lv r' (leaderKey e) = Some (eo_NodeKey (el_opt e)))
    \<and> (\<forall>n. lv r (leaderKey e) = Some n \<and> n \<noteq> eo_NodeKey (el_opt e)
          \<and> (\<forall>x. lv x (leaderKey e) = Some n \<longrightarrow> lv (mid x) (leaderKey e) = Some n)
        \<longrightarrow> \<not> IsLeader e' \<and> lv r' (leaderKey e) = Some n)"
  using redis_server.round_sound[OF assms] redis_server.round_other[OF assms] by blast

theorem redis_round_truthful_witness:
  "let k = buildLeaderKey ''dkit'' ''jobs''; r = mem_put (demo_srv 0) k ''other'' (5 * Second);
       (e', r') = runElectionOnce 1 id (demo_node ''me'') r
   in \<not> IsLeader e' \<and> mem_live r' k = Some ''other''"
proof -
  let ?k = "buildLeaderKey ''dkit'' ''jobs''"
  let ?r = "mem_put (demo_srv 0) ?k ''other'' (5 * Second)"
  obtain e' r' where run: "runElectionOnce 1 id (demo_node ''me'') ?r = (e', r')" by fastforce
  have "mem_live ?r ?k = Some ''other''" by simp
  with redis_round_truthful[OF mem.redis_server_axioms _ _ run]
  have "\<not> IsLeader e' \<and> mem_live r' ?k = Some ''other''" by simp
  then show ?thesis using run unfolding Let_def by simp
qed

text \<open>
  C22. Leader-change events: whatever sequence of rounds, heartbeats and shutdowns a node goes
  through, the events it publishes alternate between gaining and losing leadership, starting with
  a gain, carry the node's keys, and the last one agrees with the node's leader flag.
\<close>

theorem redis_leader_events:
  assumes "el_leader e = initial_leader_state"
    and "fold election_oper as (e, r) = (e', r')"
  shows "events_ok (el_opt e) (el_leader e') \<and> el_opt e' = el_opt e"
proof -
  have ok: "events_ok (el_opt (fst (e, r))) (el_leader (fst (e, r)))"
    using assms(1) events_ok_initial by simp
  have "el_opt (fst (fold election_oper as x)) = el_opt (fst x)" for x :: "'a redis_election \<times> 'a"
    by (induction as arbitrary: x) (simp_all add: redis_flag.oper_opt)
  from this[of "(e, r)"] redis_flag.events_ok_run[OF ok, of as] assms(2) show ?thesis by simp
qed

theorem redis_leader_events_witness:
  "let (e', r') = fold election_oper [Round 0 id, Closing id] (demo_node ''me'', demo_srv 0)
   in events_ok (demo_opt ''me'') (el_leader e') \<and> length (ls_events (el_leader e')) = 1"
proof -
  obtain e' r' where run: "fold election_oper [Round 0 id, Closing id] (demo_node ''me'', demo_srv 0) = (e', r')"
    by fastforce
  then have "el_leader e' = setLeaderFlag (demo_opt ''me'') True initial_leader_state"
    by (auto simp: runElectionOnce_split demo_round_free election_Close_def set_flag_def markReady_def Let_def)
  then have "length (ls_events (el_leader e')) = 1"
    by (simp add: setLeaderFlag_def initial_leader_state_def)
  with redis_leader_events[OF _ run] run show ?thesis by simp
qed



text \<open>
  Re-adopted leadership is not renewed: a node that is restarted while the leader record it
  wrote is about to expire becomes leader through the reading branch of \<open>campaign\<close>, which does not
  extend the lease. Here the record expires at 5 s, the node restarts at 4.9 s, and another node's
  regular round at 5.1 s takes the record: both nodes then report to be leader, although the
  restarted node's next round is due only half a lease later.
\<close>

theorem redis_two_leaders_after_restart:
  "let k = buildLeaderKey ''dkit'' ''jobs'';
       r0 = mem_put (demo_srv 0) k ''a'' (5 * Second);
       (ea, r1) = runElectionOnce 0 id (demo_node ''a'') (mem_advance r0 (4900 * Millisecond));
       (eb, r2) = runElectionOnce 0 id (demo_node ''b'') (mem_advance r1 (200 * Millisecond))
   in IsLeader ea \<and> IsLeader eb \<and> mem_live r2 k = Some ''b''"
  by (simp add: runElectionOnce_def elect_def campaign_def campaign_set_def campaign_get_def mem_client_def)
    (simp add: mem_live_def mem_put_def mem_advance_def demo_srv_def)

end
