(* ===== verification/Redis_Atomic.thy ===== *)
theory Redis_Atomic
  imports Redis_Mutex Redis_Random Redis_Elect
begin

text \<open>
  \<open>dkit/redis/redis.go\<close>: the \<open>Atomic\<close> of the Redis backend, which owns the mutex factory, the
  number allocator and at most one election. \<open>NewAtomic\<close> and \<open>EnableElection\<close> show every guard of
  the code as an error value; the rest delegates.
\<close>

record 'r builder_option =
  bo_defaultTTL :: duration
  bo_redisCli :: "'r redis_client option"
  bo_keyPrefix :: string

type_synonym 'r builder_op = "('r builder_option \<Rightarrow> 'r builder_option) option"

definition NewBuilderOption :: "'r builder_option" where
  "NewBuilderOption = \<lparr>bo_defaultTTL = DefaultLockTTL, bo_redisCli = None, bo_keyPrefix = defaultKeyPrefix\<rparr>"

definition BuilderTTL :: "duration \<Rightarrow> 'r builder_op" where
  "BuilderTTL ttl = Some (\<lambda>opt. if ttl > 0 then opt\<lparr>bo_defaultTTL := ttl\<rparr> else opt)"

definition BuilderClient :: "'r redis_client option \<Rightarrow> 'r builder_op" where
  "BuilderClient c = Some (\<lambda>opt. opt\<lparr>bo_redisCli := c\<rparr>)"

definition BuilderKeyPrefix :: "string \<Rightarrow> 'r builder_op" where
  "BuilderKeyPrefix p = Some (\<lambda>opt. if p \<noteq> [] then opt\<lparr>bo_keyPrefix := p\<rparr> else opt)"

record ('r, 'g) redis_atomic =
  at_randomImpl :: "('r, 'g) random_impl"
  at_mutexImpl :: "'r redis_mutex_impl"
  at_electImpl :: "'r redis_election option"
  at_opt :: "'r builder_option"

text \<open>\<open>MutexImpl.Init\<close> does nothing and \<open>RandomNumberImpl.Init\<close> seeds the generator; neither fails.\<close>

definition NewAtomic :: "'g go_rand \<Rightarrow> time \<Rightarrow> 'r builder_op list \<Rightarrow> ('r, 'g) redis_atomic result" where
  "NewAtomic R now ops =
     (let opt = apply_ops ops NewBuilderOption in
      if bo_redisCli opt = None then Inl (WrapError [] ErrInvalidOption '': redis client is nil'')
      else Inr \<lparr>at_randomImpl = random_Init R now (NewRandomNumberImpl (bo_redisCli opt) (bo_keyPrefix opt)),
                at_mutexImpl = NewMutexImpl (bo_redisCli opt) (bo_keyPrefix opt) (bo_defaultTTL opt),
                at_electImpl = None, at_opt = opt\<rparr>)"

definition NewRedisAtomic :: "'g go_rand \<Rightarrow> time \<Rightarrow> 'r builder_op list \<Rightarrow> ('r, 'g) redis_atomic result" where
  "NewRedisAtomic R now ops = NewAtomic R now ops"

definition atomic_NodeKey :: "('r, 'g) redis_atomic \<Rightarrow> string" where
  "atomic_NodeKey at = (case at_electImpl at of None \<Rightarrow> [] | Some e \<Rightarrow> election_NodeKey (Some (el_opt e)))"

definition EnableElection ::
    "time \<Rightarrow> ('r \<Rightarrow> 'r) \<Rightarrow> election_option option \<Rightarrow> ('r, 'g) redis_atomic \<Rightarrow> 'r
       \<Rightarrow> go_error option \<times> ('r, 'g) redis_atomic \<times> 'r" where
  "EnableElection now mid opt at r =
     (if bo_redisCli (at_opt at) = None
      then (Some (WrapError [] ErrInvalidOption '': redis client is nil''), at, r)
      else if at_electImpl at \<noteq> None
      then (Some (WrapError [] ErrInvalidOption '': election already enabled''), at, r)
      else
        case election_Init now mid
               (NewElectionImpl opt (bo_redisCli (at_opt at)) (bo_keyPrefix (at_opt at))) r of
          (Inl e, r) \<Rightarrow> (Some e, at, r)
        | (Inr el, r) \<Rightarrow> (None, at\<lparr>at_electImpl := Some el\<rparr>, r))"

definition atomic_IsLeader :: "('r, 'g) redis_atomic \<Rightarrow> bool" where
  "atomic_IsLeader at = (case at_electImpl at of None \<Rightarrow> False | Some e \<Rightarrow> IsLeader e)"

definition atomic_AliveNodes ::
    "('r, 'g) redis_atomic \<Rightarrow> ('r \<Rightarrow> 'r) list \<Rightarrow> 'r \<Rightarrow> (string list result \<times> 'r) option" where
  "atomic_AliveNodes at envs r =
     (case at_electImpl at of None \<Rightarrow> Some (Inl ErrElectionNotEnabled, r) | Some e \<Rightarrow> AliveNodes e envs r)"

definition atomic_IsAlive :: "('r, 'g) redis_atomic \<Rightarrow> string \<Rightarrow> 'r \<Rightarrow> bool result \<times> 'r" where
  "atomic_IsAlive at nodeKey r =
     (case at_electImpl at of None \<Rightarrow> (Inl ErrElectionNotEnabled, r) | Some e \<Rightarrow> IsAlive e nodeKey r)"

definition atomic_Close :: "('r \<Rightarrow> 'r) \<Rightarrow> ('r, 'g) redis_atomic \<Rightarrow> 'r \<Rightarrow> ('r, 'g) redis_atomic \<times> 'r" where
  "atomic_Close mid at r =
     (case at_electImpl at of
        None \<Rightarrow> (at\<lparr>at_electImpl := None\<rparr>, r)
      | Some e \<Rightarrow> (at\<lparr>at_electImpl := None\<rparr>, snd (election_Close mid e r)))"

definition atomic_GetUniqueRandomNumber ::
    "'g go_rand \<Rightarrow> time \<Rightarrow> (nat \<Rightarrow> go_error option) \<Rightarrow> (nat \<Rightarrow> 'r \<Rightarrow> 'r) \<Rightarrow> int
       \<Rightarrow> ('r, 'g) redis_atomic \<Rightarrow> 'r \<Rightarrow> int result \<times> ('r, 'g) redis_atomic \<times> 'r" where
  "atomic_GetUniqueRandomNumber R now ctxdone env mx at r =
     (case redis_GetUniqueRandomNumber R now ctxdone env mx (at_randomImpl at) r of
        (res, impl, r) \<Rightarrow> (res, at\<lparr>at_randomImpl := impl\<rparr>, r))"

definition atomic_NewMutex :: "('r, 'g) redis_atomic \<Rightarrow> string \<Rightarrow> 'r redis_mutex" where
  "atomic_NewMutex at key = redis_NewMutex (at_mutexImpl at) key"

definition atomic_GetMutexDefaultTTL :: "('r, 'g) redis_atomic \<Rightarrow> duration" where
  "atomic_GetMutexDefaultTTL at = redis_GetMutexDefaultTTL (at_mutexImpl at)"

section \<open>What the parts share\<close>

lemma NewAtomic_parts:
  assumes "NewAtomic R now ops = Inr at"
  shows "at_electImpl at = None \<and> (\<exists>c. bo_redisCli (at_opt at) = Some c
     \<and> redis_fresh c (atomic_NewMutex at key) \<and> rn_redisCli (at_randomImpl at) = Some c)
     \<and> rm_redisKey (atomic_NewMutex at key) = buildMutexKey (bo_keyPrefix (at_opt at)) key
     \<and> rn_keyPrefix (at_randomImpl at) = bo_keyPrefix (at_opt at)"
  using assms
  by (auto simp: NewAtomic_def Let_def atomic_NewMutex_def redis_NewMutex_def NewMutexImpl_def
      random_Init_def NewRandomNumberImpl_def redis_fresh_def split: if_splits)

lemma readOpt_accepts:
  assumes "redis_readOpt a = Inr e"
  shows "eo_NodeKey (el_opt e) \<noteq> [] \<and> 0 < eo_UnhealthyTime (el_opt e) \<and> 0 < eo_Timeout (el_opt e)
    \<and> el_keyPrefix e \<noteq> [] \<and> el_leader e = initial_leader_state \<and> \<not> el_closed e"
  using assms by (auto simp: redis_readOpt_def Let_def split: option.splits if_splits)

lemma EnableElection_ok:
  assumes "EnableElection now mid opt at r = (None, at', r')"
  shows "at_electImpl at = None \<and> (\<exists>e. at_electImpl at' = Some e \<and> el_ready e \<and> \<not> el_closed e
    \<and> eo_NodeKey (el_opt e) = election_NodeKey opt \<and> eo_NodeKey (el_opt e) \<noteq> []
    \<and> 0 < eo_UnhealthyTime (el_opt e) \<and> 0 < eo_Timeout (el_opt e))"
proof -
  let ?a = "NewElectionImpl opt (bo_redisCli (at_opt at)) (bo_keyPrefix (at_opt at))"
  from assms obtain el where none: "at_electImpl at = None" and at': "at' = at\<lparr>at_electImpl := Some el\<rparr>"
    and init: "election_Init now mid ?a r = (Inr el, r')"
    by (auto simp: EnableElection_def split: if_splits prod.splits sum.splits)
  from init obtain e0 where e0: "redis_readOpt ?a = Inr e0" and run: "runElectionOnce now mid e0 r = (el, r')"
    by (auto simp: election_Init_def split: sum.splits prod.splits)
  have "eo_NodeKey (el_opt e0) = election_NodeKey opt"
    using e0 by (auto simp: redis_readOpt_def NewElectionImpl_def election_NodeKey_def Let_def
        split: option.splits if_splits)
  moreover have "el_ready el"
    using run by (auto simp: runElectionOnce_def markReady_def split: if_splits prod.splits)
  ultimately show ?thesis
    using none at' readOpt_accepts[OF e0] runElectionOnce_same[OF run] by (auto simp: same_node_def)
qed

section \<open>Properties\<close>

text \<open>
  Life of the election of a Redis \<open>Atomic\<close>: when enabling succeeds, no election was enabled
  before, the node is ready, open and has the given non-empty node key and positive durations; a
  second attempt is refused with \<open>ErrInvalidOption\<close> and changes nothing; closing leaves the
  \<open>Atomic\<close> without an election, so it is no leader, has no node key, and questions about nodes
  answer \<open>ErrElectionNotEnabled\<close> without asking the server.
\<close>

theorem redis_election_lifecycle:
  assumes "EnableElection now mid opt at r = (None, at1, r1)"
  shows "at_electImpl at = None
    \<and> (\<exists>e. at_electImpl at1 = Some e \<and> el_ready e \<and> \<not> el_closed e \<and> eo_NodeKey (el_opt e) \<noteq> []
         \<and> 0 < eo_UnhealthyTime (el_opt e) \<and> 0 < eo_Timeout (el_opt e))
    \<and> atomic_NodeKey at1 = election_NodeKey opt
    \<and> (\<exists>e. EnableElection now2 mid2 opt2 at1 r2 = (Some e, at1, r2) \<and> errors_Is (=) e ErrInvalidOption)
    \<and> (\<forall>at2 r3. atomic_Close mid3 at1 r2 = (at2, r3) \<longrightarrow>
         \<not> atomic_IsLeader at2 \<and> atomic_NodeKey at2 = []
         \<and> atomic_IsAlive at2 n r3 = (Inl ErrElectionNotEnabled, r3)
         \<and> atomic_AliveNodes at2 envs r3 = Some (Inl ErrElectionNotEnabled, r3))"
  using EnableElection_ok[OF assms]
  by (auto simp: EnableElection_def atomic_NodeKey_def election_NodeKey_def atomic_Close_def
      atomic_IsLeader_def atomic_IsAlive_def atomic_AliveNodes_def)

definition demo_atomic :: "(mem_server, unit) redis_atomic" where
  "demo_atomic =
     \<lparr>at_randomImpl = random_Init demo_rand 0 (NewRandomNumberImpl (Some mem_client) ''dkit''),
      at_mutexImpl = NewMutexImpl (Some mem_client) ''dkit'' (30 * Second),
      at_electImpl = None,
      at_opt = \<lparr>bo_defaultTTL = 30 * Second, bo_redisCli = Some mem_client, bo_keyPrefix = ''dkit''\<rparr>\<rparr>"

theorem redis_election_lifecycle_witness:
  "\<exists>at1 r1. EnableElection 0 id (Some (demo_opt ''me'')) demo_atomic (demo_srv 0) = (None, at1, r1)
     \<and> atomic_NodeKey at1 = ''me''"
proof -
  have "redis_readOpt (NewElectionImpl (Some (demo_opt ''me'')) (Some mem_client) ''dkit'') = Inr (demo_node ''me'')"
    by (simp add: redis_readOpt_def NewElectionImpl_def demo_node_def demo_opt_def)
  moreover obtain e2 r2 where "runElectionOnce 0 id (demo_node ''me'') (demo_srv 0) = (e2, r2)" by fastforce
  ultimately obtain at1 r1 where run:
    "EnableElection 0 id (Some (demo_opt ''me'')) demo_atomic (demo_srv 0) = (None, at1, r1)"
    by (simp add: EnableElection_def demo_atomic_def election_Init_def)
  from redis_election_lifecycle[OF run] run show ?thesis by (auto simp: election_NodeKey_def)
qed

end
