(* ===== verification/Mongo_Server.thy ===== *)
theory Mongo_Server
  imports Pass_Context
begin

text \<open>
  MongoDB and its Go driver are not part of the repository: a collection is a parameter, a record
  of the driver calls the code makes, over an arbitrary type \<open>'c\<close> of collection states and a type
  \<open>'d\<close> of stored documents. A filter is a predicate on documents and an update a function on
  them. \<open>mongo.ErrNoDocuments\<close> is \<open>Inr None\<close> of \<open>FindOne\<close>; every other failure is an error value.
  The locale \<open>mongo_collection\<close> states the documented behaviour in terms of \<open>docs c k\<close>, the
  document stored under \<open>_id\<close> \<open>k\<close>. A call that fails on the way may or may not have been executed.
  BSON dates have millisecond resolution: \<open>bson_time\<close> is what a stored time reads as.

  A reference collection shows that the stated behaviour can be had.
\<close>

definition bson_time :: "time \<Rightarrow> time" where
  "bson_time t = (t div Millisecond) * Millisecond"

lemma bson_time_le: "bson_time t \<le> t"
  unfolding bson_time_def by (simp add: minus_mod_eq_div_mult [symmetric])

lemma bson_time_idem [simp]: "bson_time (bson_time t) = bson_time t"
  by (simp add: bson_time_def)

record ('c, 'd) mongo_coll =
  mc_FindOne :: "'c \<Rightarrow> ('d \<Rightarrow> bool) \<Rightarrow> 'd option result \<times> 'c"
  mc_Find :: "'c \<Rightarrow> ('d \<Rightarrow> bool) \<Rightarrow> 'd list result \<times> 'c"
  mc_InsertOne :: "'c \<Rightarrow> 'd \<Rightarrow> unit result \<times> 'c"
  mc_UpdateOne :: "'c \<Rightarrow> ('d \<Rightarrow> bool) \<Rightarrow> ('d \<Rightarrow> 'd) \<Rightarrow> 'd option \<Rightarrow> (int \<times> int) result \<times> 'c"
  mc_DeleteOne :: "'c \<Rightarrow> ('d \<Rightarrow> bool) \<Rightarrow> int result \<times> 'c"
  mc_CreateTTLIndex :: "'c \<Rightarrow> int \<Rightarrow> go_error option \<times> 'c"
  mc_DropIndexes :: "'c \<Rightarrow> go_error option \<times> 'c"
  mc_IsDuplicateKeyError :: "go_error \<Rightarrow> bool"
  mc_CommandCode :: "go_error \<Rightarrow> int option"

text \<open>
  \<open>UpdateOne\<close> returns the matched and the modified count; its last argument is the document an
  upsert inserts when nothing matches.
\<close>

section \<open>TTL indexes\<close>

text \<open>\<open>ensureTTLIndex\<close> and \<open>isIndexOptionConflict\<close> of \<open>dkit/mongo/mongo.go\<close>; the warning it logs is left out.\<close>

definition isIndexOptionConflict :: "('c, 'd) mongo_coll \<Rightarrow> go_error \<Rightarrow> bool" where
  "isIndexOptionConflict cls err \<longleftrightarrow> mc_CommandCode cls err = Some 85"

definition ensureTTLIndex :: "('c, 'd) mongo_coll option \<Rightarrow> 'c \<Rightarrow> go_error option \<times> 'c" where
  "ensureTTLIndex cl c =
     (case cl of
        None \<Rightarrow> (Some (WrapError [] ErrInvalidOption '': mongo collection is nil''), c)
      | Some cls \<Rightarrow>
          (case mc_CreateTTLIndex cls c 1 of
             (None, c) \<Rightarrow> (None, c)
           | (Some err, c) \<Rightarrow>
               if \<not> isIndexOptionConflict cls err
               then (Some (WrapError ''create ttl index failed: '' err []), c)
               else
                 (case mc_DropIndexes cls c of
                    (Some dropErr, c) \<Rightarrow> (Some (WrapError ''drop indexes failed: '' dropErr []), c)
                  | (None, c) \<Rightarrow>
                      (case mc_CreateTTLIndex cls c 1 of
                         (Some createErr, c) \<Rightarrow> (Some (WrapError ''recreate ttl index failed: '' createErr []), c)
                       | (None, c) \<Rightarrow> (None, c)))))"

section \<open>Documented behaviour\<close>

locale mongo_collection =
  fixes cls :: "('c, 'd) mongo_coll"
    and docs :: "'c \<Rightarrow> 'k \<Rightarrow> 'd option"
    and idf :: "'d \<Rightarrow> 'k"
  assumes docs_id: "docs c k = Some d \<Longrightarrow> idf d = k"
    and FindOne_ok: "mc_FindOne cls c f = (Inr x, c') \<Longrightarrow> docs c' = docs c
      \<and> (case x of None \<Rightarrow> (\<forall>k d. docs c k = Some d \<longrightarrow> \<not> f d)
          | Some d \<Rightarrow> f d \<and> docs c (idf d) = Some d)"
    and FindOne_failed: "mc_FindOne cls c f = (Inl e, c') \<Longrightarrow> docs c' = docs c"
    and Find_ok: "mc_Find cls c f = (Inr ds, c') \<Longrightarrow> docs c' = docs c
      \<and> set ds = {d. f d \<and> docs c (idf d) = Some d}"
    and Find_failed: "mc_Find cls c f = (Inl e, c') \<Longrightarrow> docs c' = docs c"
    and InsertOne_ok: "mc_InsertOne cls c d = (Inr unt, c') \<Longrightarrow>
      docs c (idf d) = None \<and> docs c' = (docs c)(idf d \<mapsto> d)"
    and InsertOne_dup: "mc_InsertOne cls c d = (Inl e, c') \<Longrightarrow> mc_IsDuplicateKeyError cls e \<Longrightarrow>
      docs c (idf d) \<noteq> None \<and> docs c' = docs c"
    and InsertOne_failed: "mc_InsertOne cls c d = (Inl e, c') \<Longrightarrow>
      docs c' = docs c \<or> (docs c (idf d) = None \<and> docs c' = (docs c)(idf d \<mapsto> d))"
    and UpdateOne_matched: "mc_UpdateOne cls c f u ups = (Inr (n, m), c') \<Longrightarrow> n \<noteq> 0 \<Longrightarrow>
      (\<And>d. idf (u d) = idf d) \<Longrightarrow>
      \<exists>k d. docs c k = Some d \<and> f d \<and> docs c' = (docs c)(k \<mapsto> u d) \<and> 0 \<le> m \<and> (m \<noteq> 0 \<longleftrightarrow> u d \<noteq> d)"
    and UpdateOne_none: "mc_UpdateOne cls c f u ups = (Inr (0, m), c') \<Longrightarrow>
      m = 0 \<and> (\<forall>k d. docs c k = Some d \<longrightarrow> \<not> f d)
      \<and> docs c' = (case ups of None \<Rightarrow> docs c | Some d0 \<Rightarrow> (docs c)(idf d0 \<mapsto> d0))"
    and UpdateOne_failed: "mc_UpdateOne cls c f u ups = (Inl e, c') \<Longrightarrow> (\<And>d. idf (u d) = idf d) \<Longrightarrow>
      docs c' = docs c \<or> (\<exists>k d. docs c k = Some d \<and> f d \<and> docs c' = (docs c)(k \<mapsto> u d))
      \<or> ((\<forall>k d. docs c k = Some d \<longrightarrow> \<not> f d) \<and> (\<exists>d0. ups = Some d0 \<and> docs c' = (docs c)(idf d0 \<mapsto> d0)))"
    and DeleteOne_some: "mc_DeleteOne cls c f = (Inr n, c') \<Longrightarrow> n \<noteq> 0 \<Longrightarrow>
      \<exists>k d. docs c k = Some d \<and> f d \<and> docs c' = (docs c)(k := None)"
    and DeleteOne_none: "mc_DeleteOne cls c f = (Inr 0, c') \<Longrightarrow>
      docs c' = docs c \<and> (\<forall>k d. docs c k = Some d \<longrightarrow> \<not> f d)"
    and DeleteOne_failed: "mc_DeleteOne cls c f = (Inl e, c') \<Longrightarrow>
      docs c' = docs c \<or> (\<exists>k d. docs c k = Some d \<and> f d \<and> docs c' = (docs c)(k := None))"
    and CreateTTLIndex_docs: "mc_CreateTTLIndex cls c s = (r, c') \<Longrightarrow> docs c' = docs c"
    and DropIndexes_docs: "mc_DropIndexes cls c = (r, c') \<Longrightarrow> docs c' = docs c"
begin

text \<open>
  An update without upsert whose filter fixes the \<open>_id\<close>, whatever its outcome: the document under
  that \<open>_id\<close> may be updated if it matches; everything else stays.
\<close>

lemma UpdateOne_at:
  assumes "mc_UpdateOne cls c (\<lambda>d. idf d = k \<and> g d) u None = (res, c')" and "\<And>d. idf (u d) = idf d"
  shows "docs c' = docs c \<or> (\<exists>d. docs c k = Some d \<and> g d \<and> docs c' = (docs c)(k \<mapsto> u d))"
proof (cases res)
  case (Inl e)
  from UpdateOne_failed[OF assms(1)[unfolded Inl] assms(2)]
  consider "docs c' = docs c"
    | k0 d where "docs c k0 = Some d" "idf d = k \<and> g d" "docs c' = (docs c)(k0 \<mapsto> u d)" by blast
  then show ?thesis by cases (use docs_id in auto)
next
  case (Inr nm)
  obtain n m where nm: "nm = (n, m)" by fastforce
  show ?thesis
  proof (cases "n = 0")
    case True
    with UpdateOne_none assms(1) Inr nm show ?thesis by fastforce
  next
    case False
    from UpdateOne_matched[OF assms(1)[unfolded Inr nm] False assms(2)]
    obtain k0 d where d: "docs c k0 = Some d" "idf d = k \<and> g d" "docs c' = (docs c)(k0 \<mapsto> u d)" by blast
    from docs_id[OF d(1)] d show ?thesis by auto
  qed
qed

lemma UpdateOne_at_modified:
  assumes "mc_UpdateOne cls c (\<lambda>d. idf d = k \<and> g d) u None = (Inr (n, m), c')" and "m \<noteq> 0"
    and "\<And>d. idf (u d) = idf d"
  shows "\<exists>d. docs c k = Some d \<and> g d \<and> docs c' = (docs c)(k \<mapsto> u d)"
proof -
  have "n \<noteq> 0" using UpdateOne_none assms(1,2) by fastforce
  from UpdateOne_matched[OF assms(1) this assms(3)] show ?thesis using docs_id by blast
qed

lemma DeleteOne_at:
  assumes "mc_DeleteOne cls c (\<lambda>d. idf d = k \<and> g d) = (res, c')"
  shows "docs c' = docs c \<or> (\<exists>d. docs c k = Some d \<and> g d \<and> docs c' = (docs c)(k := None))"
proof (cases res)
  case (Inl e)
  from DeleteOne_failed[OF assms[unfolded Inl]] show ?thesis using docs_id by blast
next
  case (Inr n)
  show ?thesis
  proof (cases "n = 0")
    case True
    with DeleteOne_none assms Inr show ?thesis by blast
  next
    case False
    from DeleteOne_some[OF assms[unfolded Inr] False] show ?thesis using docs_id by blast
  qed
qed

lemma FindOne_at:
  assumes "mc_FindOne cls c (\<lambda>d. idf d = k) = (Inr x, c')"
  shows "x = docs c k \<and> docs c' = docs c"
proof (cases x)
  case None
  with FindOne_ok[OF assms] have "\<forall>d. docs c k = Some d \<longrightarrow> idf d \<noteq> k" "docs c' = docs c" by simp_all
  with None show ?thesis using docs_id by (cases "docs c k") auto
next
  case (Some d)
  with FindOne_ok[OF assms] show ?thesis by auto
qed

lemma ensureTTLIndex_docs: "ensureTTLIndex (Some cls) c = (res, c') \<Longrightarrow> docs c' = docs c"
  unfolding ensureTTLIndex_def
  by (auto split: prod.splits option.splits if_splits dest!: CreateTTLIndex_docs DropIndexes_docs)

end

section \<open>A reference collection\<close>

text \<open>A list of documents in which the first one of an \<open>_id\<close> counts.\<close>

fun live_docs :: "('d \<Rightarrow> 'k) \<Rightarrow> 'd list \<Rightarrow> 'd list" where
  "live_docs idf [] = []"
| "live_docs idf (d # c) = d # filter (\<lambda>x. idf x \<noteq> idf d) (live_docs idf c)"

definition mem_docs :: "('d \<Rightarrow> 'k) \<Rightarrow> 'd list \<Rightarrow> 'k \<Rightarrow> 'd option" where
  "mem_docs idf c k = find (\<lambda>d. idf d = k) c"

definition mem_dup :: go_error where "mem_dup = OpaqueError ''E11000 duplicate key''"

fun mem_is_dup :: "go_error \<Rightarrow> bool" where
  "mem_is_dup (OpaqueError s) = (s = ''E11000 duplicate key'')"
| "mem_is_dup e = False"

definition mem_coll :: "('d \<Rightarrow> 'k) \<Rightarrow> ('d list, 'd) mongo_coll" where
  "mem_coll idf = \<lparr>
     mc_FindOne = (\<lambda>c f. (Inr (find f (live_docs idf c)), c)),
     mc_Find = (\<lambda>c f. (Inr (filter f (live_docs idf c)), c)),
     mc_InsertOne = (\<lambda>c d. if mem_docs idf c (idf d) = None then (Inr (), d # c) else (Inl mem_dup, c)),
     mc_UpdateOne = (\<lambda>c f u ups. case find f (live_docs idf c) of
         Some d \<Rightarrow> (Inr (1, if u d = d then 0 else 1), u d # c)
       | None \<Rightarrow> (Inr (0, 0), case ups of None \<Rightarrow> c | Some d0 \<Rightarrow> d0 # c)),
     mc_DeleteOne = (\<lambda>c f. case find f (live_docs idf c) of
         Some d \<Rightarrow> (Inr 1, filter (\<lambda>x. idf x \<noteq> idf d) c)
       | None \<Rightarrow> (Inr 0, c)),
     mc_CreateTTLIndex = (\<lambda>c s. (None, c)),
     mc_DropIndexes = (\<lambda>c. (None, c)),
     mc_IsDuplicateKeyError = mem_is_dup,
     mc_CommandCode = (\<lambda>e. None)\<rparr>"

lemma mem_docs_simps [simp]:
  "mem_docs idf [] k = None"
  "mem_docs idf (d # c) = (mem_docs idf c)(idf d \<mapsto> d)"
  by (auto simp: mem_docs_def fun_eq_iff)

lemma mem_docs_id: "mem_docs idf c k = Some d \<Longrightarrow> idf d = k"
  by (induction c) (auto split: if_splits)

lemma mem_docs_filter: "mem_docs idf (filter (\<lambda>x. idf x \<noteq> k) c) = (mem_docs idf c)(k := None)"
  by (induction c) (auto simp: fun_eq_iff)

lemma live_docs_iff: "d \<in> set (live_docs idf c) \<longleftrightarrow> mem_docs idf c (idf d) = Some d"
  by (induction c) auto

lemma find_live_Some: "find f (live_docs idf c) = Some d \<Longrightarrow> f d \<and> mem_docs idf c (idf d) = Some d"
  by (metis find_Some_iff live_docs_iff nth_mem)

lemma find_live_None: "find f (live_docs idf c) = None \<Longrightarrow> mem_docs idf c k = Some d \<Longrightarrow> \<not> f d"
  by (metis find_None_iff live_docs_iff mem_docs_id)

lemma mem_coll_simps [simp]:
  "mc_FindOne (mem_coll idf) c f = (Inr (find f (live_docs idf c)), c)"
  "mc_Find (mem_coll idf) c f = (Inr (filter f (live_docs idf c)), c)"
  "mc_InsertOne (mem_coll idf) c d =
     (if mem_docs idf c (idf d) = None then (Inr (), d # c) else (Inl mem_dup, c))"
  "mc_UpdateOne (mem_coll idf) c f u ups = (case find f (live_docs idf c) of
       Some d \<Rightarrow> (Inr (1, if u d = d then 0 else 1), u d # c)
     | None \<Rightarrow> (Inr (0, 0), case ups of None \<Rightarrow> c | Some d0 \<Rightarrow> d0 # c))"
  "mc_DeleteOne (mem_coll idf) c f = (case find f (live_docs idf c) of
       Some d \<Rightarrow> (Inr 1, filter (\<lambda>x. idf x \<noteq> idf d) c)
     | None \<Rightarrow> (Inr 0, c))"
  "mc_CreateTTLIndex (mem_coll idf) c s = (None, c)" "mc_DropIndexes (mem_coll idf) c = (None, c)"
  "mc_IsDuplicateKeyError (mem_coll idf) = mem_is_dup" "mc_CommandCode (mem_coll idf) e = None"
  by (simp_all add: mem_coll_def)

interpretation memc: mongo_collection "mem_coll idf" "mem_docs idf" idf for idf :: "'d \<Rightarrow> 'k"
proof (unfold_locales, goal_cases)
  case (1 c k d)
  then show ?case by (rule mem_docs_id)
next
  case (2 c f x c')
  then show ?case by (auto dest: find_live_Some find_live_None split: option.split)
next
  case (4 c f ds c')
  then show ?case by (auto simp: live_docs_iff)
next
  case (9 c f u ups n m c')
  then obtain d where d: "find f (live_docs idf c) = Some d" by (auto split: option.splits)
  with 9 have "mem_docs idf c (idf d) = Some d \<and> f d \<and> mem_docs idf c' = (mem_docs idf c)(idf d \<mapsto> u d)
      \<and> 0 \<le> m \<and> (m \<noteq> 0 \<longleftrightarrow> u d \<noteq> d)"
    using find_live_Some[OF d] by (auto split: if_splits)
  then show ?case by blast
next
  case (10 c f u ups m c')
  then show ?case by (auto dest: find_live_None split: option.splits)
next
  case (12 c f n c')
  then obtain d where d: "find f (live_docs idf c) = Some d" by (auto split: option.splits)
  with 12 have "mem_docs idf c (idf d) = Some d \<and> f d \<and> mem_docs idf c' = (mem_docs idf c)(idf d := None)"
    using find_live_Some[OF d] by (auto simp: mem_docs_filter)
  then show ?case by blast
next
  case (13 c f c')
  then show ?case by (auto dest: find_live_None split: option.splits)
qed (auto split: if_splits option.splits)

end
