(* ===== verification/Mongo_Mutex.thy ===== *)
theory Mongo_Mutex
  imports Dkit_Lock Mongo_Server
begin

text \<open>
  \<open>dkit/mongo/mutex.go\<close>: the MongoDB mutex. A lock is a document with an expiry time under the
  lock's key; an attempt reads it and then inserts it, takes it over by compare-and-set on the
  expiry time, or leaves it. The reading and the writing part of \<open>tryLock\<close> are two definitions;
  between them other clients may act (\<open>mid\<close>). The two readings of the clock are arguments.
  Documents are written, compared and read with the millisecond resolution of BSON dates.

  Lemmas: the mutex meets the contract \<open>distributed_mutex\<close>; systems of instances as a step
  relation with a clock, where the reading and writing parts of attempts interleave, with mutual
  exclusion of unexpired holders, up to shared reentrant identities, as invariant.
\<close>

section \<open>Data\<close>

record LockDetail =
  ld_Key :: string
  ld_Expires :: time
  ld_Identity :: string

text \<open>Encoding to and decoding from BSON.\<close>

definition bson_lock :: "LockDetail \<Rightarrow> LockDetail" where
  "bson_lock d = d\<lparr>ld_Expires := bson_time (ld_Expires d)\<rparr>"

lemma bson_lock_simps [simp]:
  "ld_Key (bson_lock d) = ld_Key d" "ld_Identity (bson_lock d) = ld_Identity d"
  "ld_Expires (bson_lock d) = bson_time (ld_Expires d)"
  by (simp_all add: bson_lock_def)

record 'c mongo_mutex_impl =
  mmi_cls :: "('c, LockDetail) mongo_coll option"
  mmi_defaultTTL :: duration

record 'c mongo_mutex =
  mm_key :: string
  mm_mongoCls :: "('c, LockDetail) mongo_coll option"
  mm_lockDetail :: "LockDetail option"
  mm_defaultTTL :: duration

definition mongo_NewMutexImpl :: "('c, LockDetail) mongo_coll option \<Rightarrow> duration \<Rightarrow> 'c mongo_mutex_impl" where
  "mongo_NewMutexImpl cls ttl = \<lparr>mmi_cls = cls, mmi_defaultTTL = ttl\<rparr>"

definition mongo_NewMutex :: "'c mongo_mutex_impl \<Rightarrow> string \<Rightarrow> 'c mongo_mutex" where
  "mongo_NewMutex impl key =
     \<lparr>mm_key = key, mm_mongoCls = mmi_cls impl, mm_lockDetail = None, mm_defaultTTL = mmi_defaultTTL impl\<rparr>"

definition mongo_GetMutexDefaultTTL :: "'c mongo_mutex_impl \<Rightarrow> duration" where
  "mongo_GetMutexDefaultTTL impl =
     (if mmi_defaultTTL impl > 0 then mmi_defaultTTL impl else DefaultLockTTL)"

section \<open>Operations\<close>

text \<open>What an attempt is about to write: a new document, or the takeover of an expired one.\<close>

datatype lock_write = WInsert LockDetail | WTakeover LockDetail time string

definition mongo_try_read ::
    "time \<Rightarrow> time \<Rightarrow> lock_option \<Rightarrow> 'c mongo_mutex \<Rightarrow> 'c
       \<Rightarrow> (go_error option \<times> 'c mongo_mutex + lock_write) \<times> 'c" where
  "mongo_try_read now1 now2 opt m c =
     (case mm_mongoCls m of
        None \<Rightarrow> (Inl (Some (WrapError [] ErrInvalidOption '': mongo collection is nil''), m), c)
      | Some cls \<Rightarrow>
          if mm_lockDetail m \<noteq> None then (Inl (None, m), c)
          else
            (case mc_FindOne cls c (\<lambda>d. ld_Key d = mm_key m) of
               (Inl e, c) \<Rightarrow> (Inl (Some (WrapError ''get lock detail failed: '' e []), m), c)
             | (Inr None, c) \<Rightarrow>
                 (Inr (WInsert \<lparr>ld_Key = mm_key m, ld_Expires = now1 + TTL opt,
                                ld_Identity = ReentrantIdentity opt\<rparr>), c)
             | (Inr (Some doc), c) \<Rightarrow>
                 let detail = bson_lock doc in
                 if ld_Expires detail < now1
                 then (Inr (WTakeover detail (now2 + TTL opt) (ReentrantIdentity opt)), c)
                 else if ReentrantIdentity opt \<noteq> [] \<and> ld_Identity detail = ReentrantIdentity opt
                 then (Inl (None, m\<lparr>mm_lockDetail := Some detail\<rparr>), c)
                 else (Inl (None, m), c)))"

definition take_lock :: "time \<Rightarrow> string \<Rightarrow> LockDetail \<Rightarrow> LockDetail" where
  "take_lock expires ident d = d\<lparr>ld_Expires := bson_time expires, ld_Identity := ident\<rparr>"

lemma take_lock_simps [simp]:
  "ld_Key (take_lock e i d) = ld_Key d" "ld_Expires (take_lock e i d) = bson_time e"
  by (simp_all add: take_lock_def)

definition mongo_try_write ::
    "('c, LockDetail) mongo_coll \<Rightarrow> lock_write \<Rightarrow> 'c mongo_mutex \<Rightarrow> 'c
       \<Rightarrow> go_error option \<times> 'c mongo_mutex \<times> 'c" where
  "mongo_try_write cls w m c =
     (case w of
        WInsert d \<Rightarrow>
          (case mc_InsertOne cls c (bson_lock d) of
             (Inl e, c) \<Rightarrow>
               if mc_IsDuplicateKeyError cls e then (None, m, c)
               else (Some (WrapError ''insert lock detail failed: '' e []), m, c)
           | (Inr u, c) \<Rightarrow> (None, m\<lparr>mm_lockDetail := Some d\<rparr>, c))
      | WTakeover detail expires ident \<Rightarrow>
          (case mc_UpdateOne cls c
                  (\<lambda>d. ld_Key d = mm_key m \<and> bson_time (ld_Expires d) = bson_time (ld_Expires detail))
                  (take_lock expires ident) None of
             (Inl e, c) \<Rightarrow> (Some (WrapError ''get lock failed: '' e []), m, c)
           | (Inr (matched, modified), c) \<Rightarrow>
               if modified = 0 then (None, m\<lparr>mm_lockDetail := None\<rparr>, c)
               else (None, m\<lparr>mm_lockDetail := Some (detail\<lparr>ld_Expires := expires, ld_Identity := ident\<rparr>)\<rparr>, c)))"

definition mongo_tryLock ::
    "time \<Rightarrow> time \<Rightarrow> ('c \<Rightarrow> 'c) \<Rightarrow> lock_option \<Rightarrow> 'c mongo_mutex \<Rightarrow> 'c
       \<Rightarrow> go_error option \<times> 'c mongo_mutex \<times> 'c" where
  "mongo_tryLock now1 now2 mid opt m c =
     (case mongo_try_read now1 now2 opt m c of
        (Inl (e, m), c) \<Rightarrow> (e, m, c)
      | (Inr w, c) \<Rightarrow>
          (case mm_mongoCls m of
             None \<Rightarrow> (None, m, c)
           | Some cls \<Rightarrow> mongo_try_write cls w m (mid c)))"

definition mongo_TryLock ::
    "time \<Rightarrow> time \<Rightarrow> ('c \<Rightarrow> 'c) \<Rightarrow> lock_option_op list \<Rightarrow> 'c mongo_mutex \<Rightarrow> 'c
       \<Rightarrow> bool result \<times> 'c mongo_mutex \<times> 'c" where
  "mongo_TryLock now1 now2 mid ops m c =
     (let opt = NewLockOption (mm_defaultTTL m) ops in
      case mongo_tryLock now1 now2 mid opt m c of
        (Some e, m', c') \<Rightarrow> (Inl e, m', c')
      | (None, m', c') \<Rightarrow> (Inr (mm_lockDetail m' \<noteq> None), m', c'))"

text \<open>A wake-up of a waiting \<open>Lock\<close>, as for the Redis mutex, with the two clock readings.\<close>

record 'c mongo_wake =
  mw_event :: lock_event
  mw_env :: "'c \<Rightarrow> 'c"
  mw_now1 :: time
  mw_now2 :: time
  mw_mid :: "'c \<Rightarrow> 'c"

fun mongo_Lock_loop ::
    "lock_option \<Rightarrow> 'c mongo_wake list \<Rightarrow> 'c mongo_mutex \<Rightarrow> 'c
       \<Rightarrow> (go_error option \<times> 'c mongo_mutex \<times> 'c) option" where
  "mongo_Lock_loop opt [] m c = None"
| "mongo_Lock_loop opt (wk # wks) m c =
     (case mw_event wk of
        Ticker \<Rightarrow>
          (case mongo_tryLock (mw_now1 wk) (mw_now2 wk) (mw_mid wk) opt m (mw_env wk c) of
             (Some e, m', c') \<Rightarrow> Some (Some e, m', c')
           | (None, m', c') \<Rightarrow>
               if mm_lockDetail m' \<noteq> None then Some (None, m', c')
               else mongo_Lock_loop opt wks m' c')
      | MaxWaitTimeout \<Rightarrow>
          if MaxWaitTime opt > 0 then Some (Some ErrLockNotAcquired, m, mw_env wk c)
          else mongo_Lock_loop opt wks m (mw_env wk c)
      | CtxDone e \<Rightarrow> Some (Some e, m, mw_env wk c))"

definition mongo_Lock ::
    "time \<Rightarrow> time \<Rightarrow> ('c \<Rightarrow> 'c) \<Rightarrow> lock_option_op list \<Rightarrow> 'c mongo_wake list \<Rightarrow> 'c mongo_mutex \<Rightarrow> 'c
       \<Rightarrow> (go_error option \<times> 'c mongo_mutex \<times> 'c) option" where
  "mongo_Lock now1 now2 mid ops wks m c =
     (let opt = NewLockOption (mm_defaultTTL m) ops in
      case mongo_tryLock now1 now2 mid opt m c of
        (Some e, m', c') \<Rightarrow> Some (Some e, m', c')
      | (None, m', c') \<Rightarrow>
          if mm_lockDetail m' \<noteq> None then Some (None, m', c')
          else mongo_Lock_loop opt wks m' c')"

definition mongo_Unlock ::
    "'c mongo_mutex \<Rightarrow> 'c \<Rightarrow> go_error option \<times> 'c mongo_mutex \<times> 'c" where
  "mongo_Unlock m c =
     (case mm_lockDetail m of
        None \<Rightarrow> (Some ErrAlreadyUnlocked, m, c)
      | Some ld \<Rightarrow>
          (case mm_mongoCls m of
             None \<Rightarrow> (Some (OpaqueError ''panic: nil mongo collection''), m, c)
           | Some cls \<Rightarrow>
               (case mc_DeleteOne cls c
                       (\<lambda>d. ld_Key d = mm_key m \<and> bson_time (ld_Expires d) = bson_time (ld_Expires ld)) of
                  (Inl e, c) \<Rightarrow> (Some (WrapError ''delete lock detail failed: '' e []), m, c)
                | (Inr n, c) \<Rightarrow>
                    if n = 0 then (Some ErrAlreadyUnlocked, m, c)
                    else (None, m\<lparr>mm_lockDetail := None\<rparr>, c))))"

definition mongo_ExistLock :: "time \<Rightarrow> 'c mongo_mutex \<Rightarrow> 'c \<Rightarrow> bool result \<times> 'c" where
  "mongo_ExistLock now m c =
     (case mm_mongoCls m of
        None \<Rightarrow> (Inl (OpaqueError ''panic: nil mongo collection''), c)
      | Some cls \<Rightarrow>
          (case mc_FindOne cls c (\<lambda>d. ld_Key d = mm_key m) of
             (Inl e, c) \<Rightarrow> (Inl (WrapError ''get lock detail failed: '' e []), c)
           | (Inr None, c) \<Rightarrow> (Inr False, c)
           | (Inr (Some doc), c) \<Rightarrow> (Inr (\<not> ld_Expires (bson_lock doc) < now), c)))"

section \<open>The mutex meets its contract\<close>

definition mongo_fresh :: "('c, LockDetail) mongo_coll \<Rightarrow> 'c mongo_mutex \<Rightarrow> bool" where
  "mongo_fresh cls m \<longleftrightarrow> mm_mongoCls m = Some cls \<and> mm_lockDetail m = None"

definition mongo_owns ::
    "('c, LockDetail) mongo_coll \<Rightarrow> ('c \<Rightarrow> string \<Rightarrow> LockDetail option) \<Rightarrow> 'c mongo_mutex \<Rightarrow> 'c \<Rightarrow> bool" where
  "mongo_owns cls docs m c \<longleftrightarrow> mm_mongoCls m = Some cls
     \<and> (\<exists>ld doc. mm_lockDetail m = Some ld \<and> docs c (mm_key m) = Some doc
          \<and> bson_time (ld_Expires doc) = bson_time (ld_Expires ld))"

definition mongo_free :: "('c \<Rightarrow> string \<Rightarrow> LockDetail option) \<Rightarrow> 'c mongo_mutex \<Rightarrow> 'c \<Rightarrow> bool" where
  "mongo_free docs m c \<longleftrightarrow> docs c (mm_key m) = None"

lemmas mongo_mutex_preds = mongo_fresh_def mongo_owns_def mongo_free_def

locale mongo_lock = mongo_collection cls docs ld_Key
  for cls :: "('c, LockDetail) mongo_coll" and docs :: "'c \<Rightarrow> string \<Rightarrow> LockDetail option"
begin

lemma try_read_cases:
  assumes "mongo_fresh cls m" and "mongo_try_read now1 now2 opt m c = (x, c')"
  shows "docs c' = docs c \<and>
    (x = Inl (None, m) \<or> (\<exists>e. x = Inl (Some e, m))
     \<or> (\<exists>doc. docs c (mm_key m) = Some doc \<and> ReentrantIdentity opt \<noteq> []
          \<and> x = Inl (None, m\<lparr>mm_lockDetail := Some (bson_lock doc)\<rparr>))
     \<or> (\<exists>d. ld_Key d = mm_key m \<and> x = Inr (WInsert d))
     \<or> (\<exists>detail e i. bson_time (ld_Expires detail) < now1 \<and> x = Inr (WTakeover detail e i)))"
proof -
  obtain y c1 where f: "mc_FindOne cls c (\<lambda>d. ld_Key d = mm_key m) = (y, c1)" by fastforce
  show ?thesis
  proof (cases y)
    case (Inl e)
    with f FindOne_failed[OF f[unfolded Inl]] assms show ?thesis
      by (auto simp: mongo_try_read_def mongo_fresh_def)
  next
    case (Inr z)
    from FindOne_at[OF f[unfolded Inr]] have "z = docs c (mm_key m)" "docs c1 = docs c" by simp_all
    with f Inr assms show ?thesis
      by (cases "docs c (mm_key m)") (auto simp: mongo_try_read_def mongo_fresh_def Let_def split: if_splits)
  qed
qed

lemma try_write_cases:
  assumes "mongo_try_write cls w m c = (res, m', c')" and "\<And>d. w = WInsert d \<Longrightarrow> ld_Key d = mm_key m"
    and "mm_mongoCls m = Some cls" and "mm_lockDetail m = None"
  shows "(m' = m \<or> (res = None \<and> mongo_owns cls docs m' c' \<and> mm_key m' = mm_key m \<and> mm_mongoCls m' = Some cls))
    \<and> (\<forall>k. k \<noteq> mm_key m \<longrightarrow> docs c' k = docs c k)
    \<and> (docs c' (mm_key m) = docs c (mm_key m) \<and> m' = m
       \<or> docs c (mm_key m) = None
       \<or> (\<exists>doc detail e i. docs c (mm_key m) = Some doc \<and> w = WTakeover detail e i
            \<and> bson_time (ld_Expires doc) = bson_time (ld_Expires detail)))"
proof (cases w)
  case (WInsert d)
  obtain y c1 where f: "mc_InsertOne cls c (bson_lock d) = (y, c1)" by fastforce
  from WInsert assms(2) have k: "ld_Key d = mm_key m" by simp
  have c': "c' = c1" using assms(1) f WInsert
    by (auto simp: mongo_try_write_def split: sum.splits if_splits)
  show ?thesis
  proof (cases y)
    case (Inl e)
    with assms(1) f WInsert have "m' = m" by (auto simp: mongo_try_write_def split: if_splits)
    with InsertOne_failed[OF f[unfolded Inl]] k c' show ?thesis by auto
  next
    case (Inr u)
    with InsertOne_ok[OF f[unfolded Inr]] assms f WInsert k c' show ?thesis
      by (auto simp: mongo_try_write_def mongo_owns_def)
  qed
next
  case (WTakeover detail e i)
  let ?g = "\<lambda>d. bson_time (ld_Expires d) = bson_time (ld_Expires detail)"
  obtain y c1 where f: "mc_UpdateOne cls c (\<lambda>d. ld_Key d = mm_key m \<and> ?g d) (take_lock e i) None = (y, c1)"
    by fastforce
  have c': "c' = c1" using assms(1) f WTakeover
    by (auto simp: mongo_try_write_def split: sum.splits if_splits prod.splits)
  have at: "docs c1 = docs c \<or> (\<exists>d. docs c (mm_key m) = Some d \<and> ?g d
      \<and> docs c1 = (docs c)(mm_key m \<mapsto> take_lock e i d))"
    using UpdateOne_at[OF f] by simp
  show ?thesis
  proof (cases "\<exists>n k. y = Inr (n, k) \<and> k \<noteq> 0")
    case True
    then obtain n k where y: "y = Inr (n, k)" "k \<noteq> 0" by blast
    from UpdateOne_at_modified[OF f[unfolded y(1)] y(2)] obtain d where
      d: "docs c (mm_key m) = Some d" "?g d" "docs c1 = (docs c)(mm_key m \<mapsto> take_lock e i d)" by auto
    with assms f WTakeover y c' show ?thesis
      by (auto simp: mongo_try_write_def mongo_owns_def)
  next
    case False
    with assms f WTakeover have "m' = m"
      by (auto simp: mongo_try_write_def split: sum.splits prod.splits if_splits)
    with at c' WTakeover show ?thesis by auto
  qed
qed

lemma mongo_tryLock_fresh:
  assumes "mongo_fresh cls m" and "mongo_tryLock now1 now2 mid opt m c = (res, m', c')"
  shows "(res = None \<and> mongo_owns cls docs m' c' \<and> mm_key m' = mm_key m) \<or> m' = m"
proof -
  obtain x c1 where rd: "mongo_try_read now1 now2 opt m c = (x, c1)" by fastforce
  note rc = try_read_cases[OF assms(1) rd]
  have m: "mm_mongoCls m = Some cls" "mm_lockDetail m = None" using assms(1) by (simp_all add: mongo_fresh_def)
  show ?thesis
  proof (cases x)
    case (Inl y)
    with rc rd assms(2) m show ?thesis
      by (auto simp: mongo_tryLock_def mongo_owns_def)
  next
    case (Inr w)
    with rd assms(2) m have wr: "mongo_try_write cls w m (mid c1) = (res, m', c')"
      by (simp add: mongo_tryLock_def)
    have "ld_Key d = mm_key m" if "w = WInsert d" for d using rc Inr that by auto
    from try_write_cases[OF wr this m] show ?thesis by blast
  qed
qed

lemma mongo_TryLock_fresh:
  assumes "mongo_fresh cls m" and "mongo_TryLock now1 now2 mid ops m c = (res, m', c')"
  shows "(res = Inr True \<and> mongo_owns cls docs m' c' \<and> mm_key m' = mm_key m)
       \<or> (res \<noteq> Inr True \<and> m' = m)"
proof -
  obtain e m1 c1 where t: "mongo_tryLock now1 now2 mid (NewLockOption (mm_defaultTTL m) ops) m c = (e, m1, c1)"
    by (metis prod_cases3)
  from mongo_tryLock_fresh[OF assms(1) t] assms(2) t assms(1) show ?thesis
    by (auto simp: mongo_TryLock_def Let_def mongo_mutex_preds split: option.splits)
qed

lemma mongo_Unlock_cases:
  assumes "mm_mongoCls m = Some cls" and "mm_lockDetail m = Some ld"
    and "mongo_Unlock m c = (res, m', c')"
  shows "(m' = m \<or> m' = m\<lparr>mm_lockDetail := None\<rparr>)
    \<and> (docs c' = docs c \<or> (\<exists>d. docs c (mm_key m) = Some d
         \<and> bson_time (ld_Expires d) = bson_time (ld_Expires ld) \<and> docs c' = (docs c)(mm_key m := None)))
    \<and> (res = None \<longrightarrow> m' = m\<lparr>mm_lockDetail := None\<rparr> \<and> docs c' (mm_key m) = None \<and> mongo_owns cls docs m c)
    \<and> (res \<noteq> None \<longrightarrow> m' = m)
    \<and> (mongo_owns cls docs m c \<longrightarrow> res \<noteq> Some ErrAlreadyUnlocked)"
proof -
  let ?g = "\<lambda>d. bson_time (ld_Expires d) = bson_time (ld_Expires ld)"
  obtain y c1 where f: "mc_DeleteOne cls c (\<lambda>d. ld_Key d = mm_key m \<and> ?g d) = (y, c1)" by fastforce
  have at: "docs c1 = docs c \<or> (\<exists>d. docs c (mm_key m) = Some d \<and> ?g d \<and> docs c1 = (docs c)(mm_key m := None))"
    by (rule DeleteOne_at[OF f])
  show ?thesis
  proof (cases y)
    case (Inl e)
    with f at assms show ?thesis
      by (auto simp: mongo_Unlock_def ErrAlreadyUnlocked_def NewError_def)
  next
    case (Inr n)
    show ?thesis
    proof (cases "n = 0")
      case True
      with DeleteOne_none f Inr have "docs c1 = docs c"
        "\<forall>k d. docs c k = Some d \<longrightarrow> \<not> (ld_Key d = mm_key m \<and> ?g d)" by blast+
      with f Inr True assms docs_id[of c "mm_key m"] show ?thesis
        by (auto simp: mongo_Unlock_def mongo_owns_def)
    next
      case False
      from DeleteOne_some[OF f[unfolded Inr] False] obtain k d where
        d: "docs c k = Some d" "ld_Key d = mm_key m" "?g d" "docs c1 = (docs c)(k := None)" by blast
      from docs_id[OF d(1)] d f Inr False assms show ?thesis
        by (auto simp: mongo_Unlock_def mongo_owns_def ErrAlreadyUnlocked_def NewError_def)
    qed
  qed
qed

end

sublocale mongo_lock \<subseteq> mmutex: distributed_mutex
  "mongo_TryLock now1 now2 mid ops" mongo_Unlock "mongo_fresh cls" "mongo_owns cls docs" "mongo_free docs"
  for now1 :: time and now2 :: time and mid :: "'c \<Rightarrow> 'c" and ops :: "lock_option_op list"
proof (unfold_locales, goal_cases)
  case (1 m s m' s')
  then show ?case using mongo_TryLock_fresh by blast
next
  case (2 m s m' s')
  then show ?case using mongo_TryLock_fresh[of m now1 now2 mid ops s "Inr False" m' s'] by simp
next
  case (3 m s e m' s')
  then show ?case using mongo_TryLock_fresh[of m now1 now2 mid ops s "Inl e" m' s'] by simp
next
  case (4 m s m' s')
  then obtain ld where "mm_mongoCls m = Some cls" "mm_lockDetail m = Some ld"
    by (auto simp: mongo_owns_def)
  from mongo_Unlock_cases[OF this 4(2)] this show ?case by (auto simp: mongo_fresh_def mongo_free_def)
next
  case (5 m s)
  then show ?case by (auto simp: mongo_mutex_preds)
next
  case (6 m s)
  then obtain ld where ld: "mm_mongoCls m = Some cls" "mm_lockDetail m = Some ld"
    by (auto simp: mongo_owns_def)
  obtain res m' w' where "mongo_Unlock m s = (res, m', w')" by (metis prod_cases3)
  with 6 mongo_Unlock_cases[OF ld this] show ?case by auto
next
  case (7 m s)
  then show ?case by (simp add: mongo_Unlock_def mongo_fresh_def)
qed

interpretation meml: mongo_lock "mem_coll ld_Key" "mem_docs ld_Key"
  by unfold_locales

section \<open>Systems of mutex instances\<close>

text \<open>
  Any number of instances share a collection and, up to the delays the steps allow, a clock. An
  attempt reads at one step and writes at a later one; the clock readings it uses lie between the two. MongoDB
  removes expired documents at any later time. \<open>ms_held i\<close>: instance \<open>i\<close> obtained the lock, and has not
  called \<open>Unlock\<close> since, nor has an instance with the same identity removed the lease the two share.
  Only those call \<open>Unlock\<close>.
\<close>

record 'c mongo_sys =
  ms_inst :: "nat \<Rightarrow> 'c mongo_mutex"
  ms_pend :: "nat \<Rightarrow> (time \<times> lock_write) option"
  ms_held :: "nat \<Rightarrow> bool"
  ms_clock :: time
  ms_coll :: 'c

text \<open>The lease an instance took has not expired at time \<open>t\<close>.\<close>

definition lease_live :: "time \<Rightarrow> 'c mongo_mutex \<Rightarrow> bool" where
  "lease_live t m \<longleftrightarrow> (\<exists>ld. mm_lockDetail m = Some ld \<and> \<not> bson_time (ld_Expires ld) < t)"

text \<open>Two instances store the same lease of one key.\<close>

definition same_lease :: "'c mongo_mutex \<Rightarrow> 'c mongo_mutex \<Rightarrow> bool" where
  "same_lease m m' \<longleftrightarrow> mm_key m = mm_key m' \<and> (\<exists>ld ld'. mm_lockDetail m = Some ld \<and> mm_lockDetail m' = Some ld'
     \<and> bson_time (ld_Expires ld) = bson_time (ld_Expires ld'))"

text \<open>The hold of instance \<open>j\<close> ends with the release of \<open>i\<close>: it is the same, or shares the unexpired lease.\<close>

definition ends_with :: "'c mongo_sys \<Rightarrow> nat \<Rightarrow> nat \<Rightarrow> bool" where
  "ends_with s i j \<longleftrightarrow> j = i \<or> (lease_live (ms_clock s) (ms_inst s i) \<and> same_lease (ms_inst s i) (ms_inst s j))"

inductive mongo_step ::
    "('c, LockDetail) mongo_coll \<Rightarrow> ('c \<Rightarrow> string \<Rightarrow> LockDetail option) \<Rightarrow> 'c mongo_sys \<Rightarrow> 'c mongo_sys \<Rightarrow> bool"
  for cls :: "('c, LockDetail) mongo_coll" and docs :: "'c \<Rightarrow> string \<Rightarrow> LockDetail option" where
  m_read_done: "ms_pend s i = None \<Longrightarrow>
     mongo_try_read now1 now2 opt (ms_inst s i) (ms_coll s) = (Inl (e, m'), c') \<Longrightarrow>
     mongo_step cls docs s (s\<lparr>ms_inst := (ms_inst s)(i := m'),
       ms_held := (ms_held s)(i := if mm_lockDetail (ms_inst s i) = None then mm_lockDetail m' \<noteq> None else ms_held s i),
       ms_coll := c'\<rparr>)"
| m_read_write: "ms_pend s i = None \<Longrightarrow>
     mongo_try_read now1 now2 opt (ms_inst s i) (ms_coll s) = (Inr w, c') \<Longrightarrow>
     ms_clock s \<le> now1 \<Longrightarrow> now1 \<le> now2 \<Longrightarrow>
     mongo_step cls docs s (s\<lparr>ms_pend := (ms_pend s)(i := Some (now2, w)), ms_coll := c'\<rparr>)"
| m_write: "ms_pend s i = Some (t, w) \<Longrightarrow> t \<le> ms_clock s \<Longrightarrow>
     mongo_try_write cls w (ms_inst s i) (ms_coll s) = (e, m', c') \<Longrightarrow>
     mongo_step cls docs s (s\<lparr>ms_inst := (ms_inst s)(i := m'), ms_pend := (ms_pend s)(i := None),
       ms_held := (ms_held s)(i := mm_lockDetail m' \<noteq> None), ms_coll := c'\<rparr>)"
| m_unlock: "ms_held s i \<Longrightarrow> mongo_Unlock (ms_inst s i) (ms_coll s) = (e, m', c') \<Longrightarrow>
     mongo_step cls docs s (s\<lparr>ms_inst := (ms_inst s)(i := m'),
       ms_held := (\<lambda>j. ms_held s j \<and> \<not> ends_with s i j), ms_coll := c'\<rparr>)"
| m_replaced: "ms_pend s i = None \<Longrightarrow>
     mongo_step cls docs s (s\<lparr>ms_inst := (ms_inst s)(i := mongo_NewMutex (mongo_NewMutexImpl (Some cls) ttl) key),
       ms_held := (ms_held s)(i := False)\<rparr>)"
| m_tick: "ms_clock s \<le> t \<Longrightarrow> mongo_step cls docs s (s\<lparr>ms_clock := t\<rparr>)"
| m_removed: "docs (ms_coll s) k = Some d \<Longrightarrow> bson_time (ld_Expires d) < ms_clock s \<Longrightarrow>
     docs c' = (docs (ms_coll s))(k := None) \<Longrightarrow> mongo_step cls docs s (s\<lparr>ms_coll := c'\<rparr>)"

inductive mongo_reachable ::
    "('c, LockDetail) mongo_coll \<Rightarrow> ('c \<Rightarrow> string \<Rightarrow> LockDetail option) \<Rightarrow> 'c mongo_sys \<Rightarrow> bool"
  for cls :: "('c, LockDetail) mongo_coll" and docs :: "'c \<Rightarrow> string \<Rightarrow> LockDetail option" where
  init: "(\<And>i. mongo_fresh cls (ms_inst s i) \<and> ms_pend s i = None \<and> \<not> ms_held s i) \<Longrightarrow>
     mongo_reachable cls docs s"
| step: "mongo_reachable cls docs s \<Longrightarrow> mongo_step cls docs s t \<Longrightarrow> mongo_reachable cls docs t"

abbreviation holds_live :: "'c mongo_sys \<Rightarrow> nat \<Rightarrow> bool" where
  "holds_live s i \<equiv> ms_held s i \<and> lease_live (ms_clock s) (ms_inst s i)"

definition pend_ok :: "'c mongo_mutex \<Rightarrow> (time \<times> lock_write) option \<Rightarrow> bool" where
  "pend_ok m p \<longleftrightarrow> (case p of
       None \<Rightarrow> True
     | Some (t, WInsert d) \<Rightarrow> mm_lockDetail m = None \<and> ld_Key d = mm_key m
     | Some (t, WTakeover detail e i) \<Rightarrow> mm_lockDetail m = None \<and> bson_time (ld_Expires detail) < t)"

text \<open>The stored document is the lease of the instance, with the identity it was taken with.\<close>

definition holds_doc ::
    "('c, LockDetail) mongo_coll \<Rightarrow> ('c \<Rightarrow> string \<Rightarrow> LockDetail option) \<Rightarrow> 'c mongo_mutex \<Rightarrow> 'c \<Rightarrow> bool" where
  "holds_doc cls docs m c \<longleftrightarrow> mm_mongoCls m = Some cls
     \<and> (\<exists>ld doc. mm_lockDetail m = Some ld \<and> docs c (mm_key m) = Some doc
          \<and> bson_time (ld_Expires doc) = bson_time (ld_Expires ld) \<and> ld_Identity doc = ld_Identity ld)"

text \<open>Two instances were given the same reentrant identity.\<close>

definition same_identity :: "'c mongo_mutex \<Rightarrow> 'c mongo_mutex \<Rightarrow> bool" where
  "same_identity m m' \<longleftrightarrow> (\<exists>ld ld'. mm_lockDetail m = Some ld \<and> mm_lockDetail m' = Some ld'
     \<and> ld_Identity ld = ld_Identity ld' \<and> ld_Identity ld \<noteq> [])"

definition mongo_inv ::
    "('c, LockDetail) mongo_coll \<Rightarrow> ('c \<Rightarrow> string \<Rightarrow> LockDetail option) \<Rightarrow> 'c mongo_sys \<Rightarrow> bool" where
  "mongo_inv cls docs s \<longleftrightarrow>
     (\<forall>i. mm_mongoCls (ms_inst s i) = Some cls \<and> pend_ok (ms_inst s i) (ms_pend s i)
        \<and> (holds_live s i \<longrightarrow> holds_doc cls docs (ms_inst s i) (ms_coll s)))
     \<and> (\<forall>i j. holds_live s i \<longrightarrow> holds_live s j \<longrightarrow> mm_key (ms_inst s i) = mm_key (ms_inst s j) \<longrightarrow>
          i = j \<or> same_identity (ms_inst s i) (ms_inst s j))"

text \<open>The states a step can lead to: one instance, the holders and the collection change.\<close>

definition sys_upd ::
    "'c mongo_sys \<Rightarrow> nat \<Rightarrow> 'c mongo_mutex \<Rightarrow> (time \<times> lock_write) option \<Rightarrow> (nat \<Rightarrow> bool) \<Rightarrow> 'c \<Rightarrow> 'c mongo_sys" where
  "sys_upd s i m p h c = \<lparr>ms_inst = (ms_inst s)(i := m), ms_pend = (ms_pend s)(i := p),
     ms_held = h, ms_clock = ms_clock s, ms_coll = c\<rparr>"

lemma sys_upd_forms:
  "s\<lparr>ms_inst := (ms_inst s)(i := m), ms_held := h, ms_coll := c\<rparr> = sys_upd s i m (ms_pend s i) h c"
  "s\<lparr>ms_pend := (ms_pend s)(i := p), ms_coll := c\<rparr> = sys_upd s i (ms_inst s i) p (ms_held s) c"
  "s\<lparr>ms_inst := (ms_inst s)(i := m), ms_pend := (ms_pend s)(i := p), ms_held := h, ms_coll := c\<rparr> = sys_upd s i m p h c"
  "s\<lparr>ms_inst := (ms_inst s)(i := m), ms_held := h\<rparr> = sys_upd s i m (ms_pend s i) h (ms_coll s)"
  by (simp_all add: sys_upd_def)

lemma same_identity_sym: "same_identity m m' \<Longrightarrow> same_identity m' m"
  by (auto simp: same_identity_def)

lemma mongo_inv_upd:
  assumes "mongo_inv cls docs s" and "mm_mongoCls m' = Some cls" and "pend_ok m' p"
    and others: "\<And>j. j \<noteq> i \<Longrightarrow> h j \<Longrightarrow> lease_live (ms_clock s) (ms_inst s j) \<Longrightarrow>
      ms_held s j \<and> holds_doc cls docs (ms_inst s j) c'"
    and own: "h i \<Longrightarrow> lease_live (ms_clock s) m' \<Longrightarrow> holds_doc cls docs m' c'
      \<and> (\<forall>j. j \<noteq> i \<longrightarrow> holds_live s j \<longrightarrow> mm_key (ms_inst s j) = mm_key m' \<longrightarrow> same_identity m' (ms_inst s j))"
  shows "mongo_inv cls docs (sys_upd s i m' p h c')"
proof -
  have "j = k \<or> same_identity (ms_inst s j) (ms_inst s k)"
    if "holds_live s j" "holds_live s k" "mm_key (ms_inst s j) = mm_key (ms_inst s k)" for j k
    using assms(1) that unfolding mongo_inv_def by blast
  then show ?thesis
    using assms same_identity_sym unfolding mongo_inv_def sys_upd_def
    by (auto simp: eq_commute[of "mm_key m'"])
qed

lemma holds_doc_cong:
  "holds_doc cls docs m c \<Longrightarrow> docs c' (mm_key m) = docs c (mm_key m) \<Longrightarrow> holds_doc cls docs m c'"
  by (simp add: holds_doc_def)

lemma holds_doc_owns: "holds_doc cls docs m c \<Longrightarrow> mongo_owns cls docs m c"
  by (auto simp: holds_doc_def mongo_owns_def)

lemma mongo_inv_inst:
  assumes "mongo_inv cls docs s"
  shows "mm_mongoCls (ms_inst s i) = Some cls" and "pend_ok (ms_inst s i) (ms_pend s i)"
    and "holds_live s i \<Longrightarrow> holds_doc cls docs (ms_inst s i) (ms_coll s)"
  using assms unfolding mongo_inv_def by blast+

lemma holders_identity:
  "mongo_inv cls docs s \<Longrightarrow> holds_live s i \<Longrightarrow> holds_live s j \<Longrightarrow> mm_key (ms_inst s i) = mm_key (ms_inst s j) \<Longrightarrow>
     i = j \<or> same_identity (ms_inst s i) (ms_inst s j)"
  unfolding mongo_inv_def by blast

text \<open>The document of an unexpired holder is there and unexpired.\<close>

lemma holds_live_doc:
  assumes "mongo_inv cls docs s" and "holds_live s j"
  shows "\<exists>doc ld. docs (ms_coll s) (mm_key (ms_inst s j)) = Some doc \<and> \<not> bson_time (ld_Expires doc) < ms_clock s
    \<and> mm_lockDetail (ms_inst s j) = Some ld \<and> bson_time (ld_Expires doc) = bson_time (ld_Expires ld) \<and> ld_Identity doc = ld_Identity ld"
  using mongo_inv_inst(3)[OF assms] assms(2) by (auto simp: holds_doc_def lease_live_def)

context mongo_lock
begin

lemma try_write_doc:
  assumes "mongo_try_write cls w m c = (res, m', c')" and "\<And>d. w = WInsert d \<Longrightarrow> ld_Key d = mm_key m"
    and "mm_mongoCls m = Some cls" and "mm_lockDetail m = None" and "mm_lockDetail m' \<noteq> None"
  shows "holds_doc cls docs m' c'"
proof (cases w)
  case (WInsert d)
  with assms InsertOne_ok[of c "bson_lock d"] show ?thesis
    by (auto simp: mongo_try_write_def holds_doc_def split: sum.splits prod.splits if_splits)
next
  case (WTakeover detail e i)
  let ?g = "\<lambda>d. bson_time (ld_Expires d) = bson_time (ld_Expires detail)"
  obtain n k c1 where f: "mc_UpdateOne cls c (\<lambda>d. ld_Key d = mm_key m \<and> ?g d) (take_lock e i) None = (Inr (n, k), c1)" "k \<noteq> 0"
    using assms WTakeover by (auto simp: mongo_try_write_def split: sum.splits prod.splits if_splits)
  from UpdateOne_at_modified[OF f] obtain d where
    "docs c (mm_key m) = Some d" "docs c1 = (docs c)(mm_key m \<mapsto> take_lock e i d)" by auto
  with assms f WTakeover show ?thesis
    by (auto simp: mongo_try_write_def holds_doc_def take_lock_def)
qed

lemma mongo_write_inv:
  assumes inv: "mongo_inv cls docs s" and p: "ms_pend s i = Some (t, w)" and t: "t \<le> ms_clock s"
    and wr: "mongo_try_write cls w (ms_inst s i) (ms_coll s) = (e, m', c')"
  shows "mongo_inv cls docs (sys_upd s i m' None ((ms_held s)(i := mm_lockDetail m' \<noteq> None)) c')"
proof -
  let ?m = "ms_inst s i"
  have m: "mm_mongoCls ?m = Some cls" and pk: "pend_ok ?m (Some (t, w))"
    using mongo_inv_inst(1,2)[OF inv, of i] p by simp_all
  have nodetail: "mm_lockDetail ?m = None" and key: "\<And>d. w = WInsert d \<Longrightarrow> ld_Key d = mm_key ?m"
    and old: "\<And>d e i. w = WTakeover d e i \<Longrightarrow> bson_time (ld_Expires d) < ms_clock s"
    using pk t by (auto simp: pend_ok_def split: lock_write.splits)
  note tw = try_write_cases[OF wr key m nodetail]
  have blocked: "docs c' (mm_key ?m) = docs (ms_coll s) (mm_key ?m) \<and> m' = ?m"
    if "holds_live s j" "mm_key (ms_inst s j) = mm_key ?m" for j
    using tw holds_live_doc[OF inv that(1)] that(2) old by auto
  show ?thesis
  proof (rule mongo_inv_upd[OF inv])
    show "mm_mongoCls m' = Some cls" using tw m by auto
    show "ms_held s j \<and> holds_doc cls docs (ms_inst s j) c'"
      if "j \<noteq> i" "((ms_held s)(i := mm_lockDetail m' \<noteq> None)) j" "lease_live (ms_clock s) (ms_inst s j)" for j
    proof -
      from that have h: "holds_live s j" by simp
      have "docs c' (mm_key (ms_inst s j)) = docs (ms_coll s) (mm_key (ms_inst s j))"
        using tw blocked[OF h] by (cases "mm_key (ms_inst s j) = mm_key ?m") auto
      with mongo_inv_inst(3)[OF inv h] h show ?thesis by (auto intro: holds_doc_cong)
    qed
    assume "((ms_held s)(i := mm_lockDetail m' \<noteq> None)) i"
    then have new: "mm_lockDetail m' \<noteq> None" by simp
    with nodetail have "m' \<noteq> ?m" by auto
    moreover have "mm_key m' = mm_key ?m" using tw by auto
    ultimately show "holds_doc cls docs m' c'
      \<and> (\<forall>j. j \<noteq> i \<longrightarrow> holds_live s j \<longrightarrow> mm_key (ms_inst s j) = mm_key m' \<longrightarrow> same_identity m' (ms_inst s j))"
      using try_write_doc[OF wr key m nodetail new] blocked by metis
  qed (simp add: pend_ok_def)
qed

text \<open>A reading part that leaves the instance with a lease has found that of its identity.\<close>

lemma try_read_shared:
  assumes "mongo_fresh cls m" and "mongo_try_read now1 now2 opt m c = (Inl (e, m'), c')" and "mm_lockDetail m' = Some ld"
  shows "\<exists>doc. docs c (mm_key m) = Some doc \<and> ld = bson_lock doc \<and> ld_Identity doc \<noteq> [] \<and> m' = m\<lparr>mm_lockDetail := Some ld\<rparr>"
proof -
  from assms obtain y c1 where f: "mc_FindOne cls c (\<lambda>d. ld_Key d = mm_key m) = (Inr y, c1)"
    by (cases "mc_FindOne cls c (\<lambda>d. ld_Key d = mm_key m)"; cases "fst (mc_FindOne cls c (\<lambda>d. ld_Key d = mm_key m))")
      (auto simp: mongo_try_read_def mongo_fresh_def)
  with assms FindOne_at[OF f] show ?thesis
    by (auto simp: mongo_try_read_def mongo_fresh_def Let_def split: option.splits if_splits)
qed

lemma mongo_read_inv:
  assumes inv: "mongo_inv cls docs s" and p: "ms_pend s i = None"
    and rd: "mongo_try_read now1 now2 opt (ms_inst s i) (ms_coll s) = (Inl (e, m'), c')"
  shows "mongo_inv cls docs (sys_upd s i m' (ms_pend s i)
    ((ms_held s)(i := if mm_lockDetail (ms_inst s i) = None then mm_lockDetail m' \<noteq> None else ms_held s i)) c')"
proof -
  let ?m = "ms_inst s i" and ?h = "(ms_held s)(i := if mm_lockDetail (ms_inst s i) = None then mm_lockDetail m' \<noteq> None else ms_held s i)"
  have m: "mm_mongoCls ?m = Some cls" by (rule mongo_inv_inst(1)[OF inv])
  have same: "docs c' = docs (ms_coll s)" and cls': "mm_mongoCls m' = Some cls"
    using rd m try_read_cases[of ?m now1 now2 opt "ms_coll s"]
    by (cases "mm_lockDetail ?m"; fastforce simp: mongo_fresh_def mongo_try_read_def)+
  have keep: "holds_doc cls docs (ms_inst s j) c'" if "holds_live s j" for j
    using mongo_inv_inst(3)[OF inv that] same by (simp add: holds_doc_def)
  show ?thesis
  proof (rule mongo_inv_upd[OF inv cls'])
    show "pend_ok m' (ms_pend s i)" using p by (simp add: pend_ok_def)
    show "ms_held s j \<and> holds_doc cls docs (ms_inst s j) c'" if "j \<noteq> i" "?h j" "lease_live (ms_clock s) (ms_inst s j)" for j
      using that keep by simp
    assume h: "?h i" and live: "lease_live (ms_clock s) m'"
    show "holds_doc cls docs m' c' \<and> (\<forall>j. j \<noteq> i \<longrightarrow> holds_live s j \<longrightarrow> mm_key (ms_inst s j) = mm_key m' \<longrightarrow> same_identity m' (ms_inst s j))"
    proof (cases "mm_lockDetail ?m")
      case None
      with h obtain ld where ld: "mm_lockDetail m' = Some ld" by auto
      from try_read_shared[OF _ rd ld] None m obtain doc where
        doc: "docs (ms_coll s) (mm_key ?m) = Some doc" "ld = bson_lock doc" "ld_Identity doc \<noteq> []" "m' = ?m\<lparr>mm_lockDetail := Some ld\<rparr>"
        by (auto simp: mongo_fresh_def)
      have "same_identity m' (ms_inst s j)" if "holds_live s j" "mm_key (ms_inst s j) = mm_key m'" for j
        using holds_live_doc[OF inv that(1)] that(2) doc by (auto simp: same_identity_def)
      moreover have "holds_doc cls docs m' c'" using doc same m by (auto simp: holds_doc_def)
      ultimately show ?thesis by blast
    next
      case (Some ld)
      with rd m have "m' = ?m" by (simp add: mongo_try_read_def)
      with h Some live keep[of i] holders_identity[OF inv, of i] show ?thesis by simp metis
    qed
  qed
qed

lemma mongo_unlock_inv:
  assumes inv: "mongo_inv cls docs s" and un: "mongo_Unlock (ms_inst s i) (ms_coll s) = (e, m', c')"
  shows "mongo_inv cls docs (sys_upd s i m' (ms_pend s i) (\<lambda>j. ms_held s j \<and> \<not> ends_with s i j) c')"
proof -
  let ?m = "ms_inst s i"
  note m = mongo_inv_inst(1,2)[OF inv, of i]
  have i: "ends_with s i i" by (simp add: ends_with_def)
  show ?thesis
  proof (cases "mm_lockDetail ?m")
    case None
    with un have "m' = ?m" "c' = ms_coll s" by (simp_all add: mongo_Unlock_def)
    with m i mongo_inv_inst(3)[OF inv] show ?thesis by (intro mongo_inv_upd[OF inv]) auto
  next
    case (Some ld)
    note uc = mongo_Unlock_cases[OF m(1) Some un]
    have "holds_doc cls docs (ms_inst s j) c'" if h: "holds_live s j" "\<not> ends_with s i j" for j
    proof (rule ccontr)
      assume "\<not> ?thesis"
      with mongo_inv_inst(3)[OF inv h(1)] have "docs c' (mm_key (ms_inst s j)) \<noteq> docs (ms_coll s) (mm_key (ms_inst s j))"
        by (auto intro: holds_doc_cong)
      with uc obtain d where d: "docs (ms_coll s) (mm_key ?m) = Some d"
          "bson_time (ld_Expires d) = bson_time (ld_Expires ld)" and k: "mm_key (ms_inst s j) = mm_key ?m"
        by (auto split: if_splits)
      from holds_live_doc[OF inv h(1)] d k Some have "lease_live (ms_clock s) ?m" "same_lease ?m (ms_inst s j)"
        by (auto simp: lease_live_def same_lease_def)
      with h(2) show False by (simp add: ends_with_def)
    qed
    moreover have "mm_mongoCls m' = Some cls" using uc m by auto
    moreover have "pend_ok m' (ms_pend s i)"
      using uc m by (auto simp: pend_ok_def split: option.splits prod.splits lock_write.splits)
    ultimately show ?thesis using i by (intro mongo_inv_upd[OF inv]) auto
  qed
qed

lemma mongo_step_inv:
  assumes "mongo_step cls docs s t" and inv: "mongo_inv cls docs s"
  shows "mongo_inv cls docs t"
  using assms(1)
proof (cases rule: mongo_step.cases)
  case (m_read_done i now1 now2 opt e m' c')
  from mongo_read_inv[OF inv m_read_done(2,3)] show ?thesis unfolding m_read_done(1) sys_upd_forms(1) .
next
  case (m_read_write i now1 now2 opt w c')
  have fr: "mongo_fresh cls (ms_inst s i)"
    using m_read_write(3) mongo_inv_inst(1)[OF inv, of i]
    by (auto simp: mongo_try_read_def mongo_fresh_def split: if_splits)
  from try_read_cases[OF fr m_read_write(3)] m_read_write(5) fr
  have pk: "pend_ok (ms_inst s i) (Some (now2, w))" and same: "docs c' = docs (ms_coll s)"
    by (auto simp: pend_ok_def mongo_fresh_def)
  have keep: "holds_doc cls docs (ms_inst s j) c'" if "holds_live s j" for j
    using mongo_inv_inst(3)[OF inv that] same by (simp add: holds_doc_def)
  show ?thesis unfolding m_read_write(1) sys_upd_forms(2)
    by (rule mongo_inv_upd[OF inv mongo_inv_inst(1)[OF inv] pk]) (use keep fr in \<open>auto simp: lease_live_def mongo_fresh_def\<close>)
next
  case (m_write i t w e m' c')
  from mongo_write_inv[OF inv m_write(2-4)] show ?thesis unfolding m_write(1) sys_upd_forms(3) .
next
  case (m_unlock i e m' c')
  from mongo_unlock_inv[OF inv m_unlock(3)] show ?thesis unfolding m_unlock(1) sys_upd_forms(1) .
next
  case (m_replaced i ttl key)
  show ?thesis unfolding m_replaced(1) sys_upd_forms(4)
    by (rule mongo_inv_upd[OF inv])
      (use m_replaced(2) mongo_inv_inst(3)[OF inv] in \<open>auto simp: mongo_NewMutex_def mongo_NewMutexImpl_def pend_ok_def\<close>)
next
  case (m_tick t)
  have "lease_live (ms_clock s) m" if "lease_live t m" for m :: "'c mongo_mutex"
    using that m_tick(2) by (auto simp: lease_live_def)
  with inv m_tick(1) show ?thesis unfolding mongo_inv_def by simp
next
  case (m_removed k d c')
  have "docs c' (mm_key (ms_inst s j)) = docs (ms_coll s) (mm_key (ms_inst s j))" if "holds_live s j" for j
    using holds_live_doc[OF inv that] m_removed(2-4) by auto
  with inv m_removed(1) show ?thesis
    unfolding mongo_inv_def by (auto intro: holds_doc_cong)
qed

lemma mongo_reachable_inv: "mongo_reachable cls docs s \<Longrightarrow> mongo_inv cls docs s"
proof (induction rule: mongo_reachable.induct)
  case (init s)
  then show ?case by (simp add: mongo_inv_def mongo_fresh_def pend_ok_def)
next
  case (step s t)
  then show ?case using mongo_step_inv by blast
qed

end

text \<open>A waiting \<open>Lock\<close> returns at the latest when its context or its maximal wait ends.\<close>

definition mongo_ends_wait :: "lock_option \<Rightarrow> 'c mongo_wake \<Rightarrow> bool" where
  "mongo_ends_wait opt wk \<longleftrightarrow>
     (case mw_event wk of
        Ticker \<Rightarrow> False
      | MaxWaitTimeout \<Rightarrow> MaxWaitTime opt > 0
      | CtxDone e \<Rightarrow> True)"

lemma mongo_Lock_loop_ends:
  "list_ex (mongo_ends_wait opt) wks \<Longrightarrow> mongo_Lock_loop opt wks m c \<noteq> None"
  by (induction opt wks m c rule: mongo_Lock_loop.induct)
    (auto simp: mongo_ends_wait_def split: lock_event.splits option.splits if_splits prod.splits)

context mongo_lock
begin

lemma mongo_Lock_loop_owns:
  assumes "mongo_fresh cls m" and "mongo_Lock_loop opt wks m c = Some (None, m', c')"
  shows "mongo_owns cls docs m' c'"
  using assms
proof (induction opt wks m c rule: mongo_Lock_loop.induct)
  case (2 opt wk wks m c)
  obtain e m1 c1 where t: "mongo_tryLock (mw_now1 wk) (mw_now2 wk) (mw_mid wk) opt m (mw_env wk c) = (e, m1, c1)"
    by (metis prod_cases3)
  note f = mongo_tryLock_fresh[OF "2.prems"(1) t]
  show ?case
  proof (cases "mw_event wk")
    case Ticker
    with 2 t f show ?thesis
      by (auto simp: mongo_mutex_preds split: option.splits if_splits)
  qed (use 2 in \<open>auto split: if_splits\<close>)
qed simp

end

section \<open>Properties\<close>

definition demo_mm :: "LockDetail list mongo_mutex" where
  "demo_mm = mongo_NewMutex (mongo_NewMutexImpl (Some (mem_coll ld_Key)) (30 * Second)) ''job''"

definition demo_ld :: LockDetail where
  "demo_ld = \<lparr>ld_Key = ''job'', ld_Expires = 30 * Second + 7, ld_Identity = []\<rparr>"

text \<open>Nothing held; instance 0 about to insert; instance 0 holding.\<close>

definition demo_ms0 :: "LockDetail list mongo_sys" where
  "demo_ms0 = \<lparr>ms_inst = (\<lambda>i. demo_mm), ms_pend = (\<lambda>i. None), ms_held = (\<lambda>i. False),
     ms_clock = 7, ms_coll = []\<rparr>"

definition demo_ms1 :: "LockDetail list mongo_sys" where
  "demo_ms1 = demo_ms0\<lparr>ms_pend := (ms_pend demo_ms0)(0 := Some (7, WInsert demo_ld)), ms_coll := []\<rparr>"

definition demo_ms2 :: "LockDetail list mongo_sys" where
  "demo_ms2 = demo_ms1\<lparr>ms_inst := (ms_inst demo_ms1)(0 := demo_mm\<lparr>mm_lockDetail := Some demo_ld\<rparr>),
     ms_pend := (ms_pend demo_ms1)(0 := None), ms_held := (ms_held demo_ms1)(0 := True),
     ms_coll := [bson_lock demo_ld]\<rparr>"

lemma demo_mm_simps [simp]:
  "mm_mongoCls demo_mm = Some (mem_coll ld_Key)" "mm_lockDetail demo_mm = None" "mm_key demo_mm = ''job''"
  "mm_defaultTTL demo_mm = 30 * Second"
  by (simp_all add: demo_mm_def mongo_NewMutex_def mongo_NewMutexImpl_def)

lemma demo_ms_reachable: "mongo_reachable (mem_coll ld_Key) (mem_docs ld_Key) demo_ms2"
proof -
  have r0: "mongo_reachable (mem_coll ld_Key) (mem_docs ld_Key) demo_ms0"
    by (rule mongo_reachable.init) (simp add: demo_ms0_def mongo_fresh_def)
  have rd: "mongo_try_read 7 7 (NewLockOption (30 * Second) []) (ms_inst demo_ms0 0) (ms_coll demo_ms0)
      = (Inr (WInsert demo_ld), [])"
    by (simp add: mongo_try_read_def demo_ms0_def demo_ld_def NewLockOption_def)
  have "mongo_step (mem_coll ld_Key) (mem_docs ld_Key) demo_ms0 demo_ms1"
    unfolding demo_ms1_def by (rule m_read_write[OF _ rd]) (simp_all add: demo_ms0_def)
  with r0 have r1: "mongo_reachable (mem_coll ld_Key) (mem_docs ld_Key) demo_ms1" by (rule mongo_reachable.step)
  have p: "ms_pend demo_ms1 0 = Some (7, WInsert demo_ld)" "7 \<le> ms_clock demo_ms1"
    by (simp_all add: demo_ms1_def demo_ms0_def)
  have w: "mongo_try_write (mem_coll ld_Key) (WInsert demo_ld) (ms_inst demo_ms1 0) (ms_coll demo_ms1)
      = (None, demo_mm\<lparr>mm_lockDetail := Some demo_ld\<rparr>, [bson_lock demo_ld])"
    by (simp add: mongo_try_write_def demo_ms1_def demo_ms0_def)
  have "mongo_step (mem_coll ld_Key) (mem_docs ld_Key) demo_ms1 demo_ms2"
    using m_write[where cls = "mem_coll ld_Key" and docs = "mem_docs ld_Key", OF p w]
    by (simp add: demo_ms2_def)
  with r1 show ?thesis by (rule mongo_reachable.step)
qed

lemma demo_ms_held: "holds_live demo_ms2 0"
  by (simp add: demo_ms2_def demo_ms1_def demo_ms0_def lease_live_def demo_ld_def bson_time_def)

text \<open>
  C3. Mutual exclusion of the MongoDB mutex: in every reachable system of mutex instances, where
  reading and writing parts of attempts, with and without reentrant identities, interleave in any way, calls may
  fail on the way, and expired documents are removed at any time, an unexpired holder's lease is the one
  stored under its key, and two instances that hold unexpired leases of one key are the same, or were given the same
  reentrant identity. An instance holds from a successful attempt until it calls \<open>Unlock\<close>, is replaced, or
  an instance that shares its lease calls \<open>Unlock\<close>; only holders call \<open>Unlock\<close>, and the clocks agree.
\<close>

theorem mongo_mutual_exclusion:
  assumes "mongo_lock cls docs" and "mongo_reachable cls docs s"
    and "ms_held s i" and "lease_live (ms_clock s) (ms_inst s i)"
  shows "mongo_owns cls docs (ms_inst s i) (ms_coll s)
    \<and> (\<forall>j. ms_held s j \<and> lease_live (ms_clock s) (ms_inst s j)
          \<and> mm_key (ms_inst s j) = mm_key (ms_inst s i) \<longrightarrow> i = j \<or> same_identity (ms_inst s i) (ms_inst s j))"
proof -
  note inv = mongo_lock.mongo_reachable_inv[OF assms(1,2)]
  have "holds_live s i" using assms(3,4) by simp
  with holds_doc_owns[OF mongo_inv_inst(3)[OF inv this]] holders_identity[OF inv this] show ?thesis by simp
qed

theorem mongo_mutual_exclusion_witness:
  "mongo_reachable (mem_coll ld_Key) (mem_docs ld_Key) demo_ms2
   \<and> mongo_owns (mem_coll ld_Key) (mem_docs ld_Key) (ms_inst demo_ms2 0) (ms_coll demo_ms2)"
  using mongo_mutual_exclusion[OF meml.mongo_lock_axioms demo_ms_reachable, of 0] demo_ms_held
    demo_ms_reachable
  by blast

text \<open>
  A blocking \<open>Lock\<close> on the MongoDB mutex ends: given a context end or an armed maximal wait
  among its wake-ups it returns, whatever other clients do in between, and when it returns without
  an error on a fresh instance that instance owns the lock.
\<close>

theorem mongo_Lock_returns:
  assumes "mongo_lock cls docs" and "mongo_fresh cls m"
    and "list_ex (mongo_ends_wait (NewLockOption (mm_defaultTTL m) ops)) wks"
  shows "\<exists>e m' c'. mongo_Lock now1 now2 mid ops wks m c = Some (e, m', c')
           \<and> (e = None \<longrightarrow> mongo_owns cls docs m' c')"
proof -
  let ?opt = "NewLockOption (mm_defaultTTL m) ops"
  obtain e m1 c1 where t: "mongo_tryLock now1 now2 mid ?opt m c = (e, m1, c1)" by (metis prod_cases3)
  from mongo_lock.mongo_tryLock_fresh[OF assms(1,2) t]
  consider (own) "e = None" "mongo_owns cls docs m1 c1" | (same) "m1 = m" by blast
  then show ?thesis
  proof cases
    case own
    with t show ?thesis by (auto simp: mongo_Lock_def mongo_owns_def)
  next
    case same
    obtain r where r: "mongo_Lock_loop ?opt wks m c1 = Some r"
      using mongo_Lock_loop_ends[OF assms(3)] by blast
    obtain e' m' c' where r': "r = (e', m', c')" by (metis prod_cases3)
    have "mongo_owns cls docs m' c'" if "e' = None"
      using mongo_lock.mongo_Lock_loop_owns[OF assms(1,2)] r r' that by blast
    with r r' t same assms(2) show ?thesis
      by (cases e) (auto simp: mongo_Lock_def mongo_fresh_def)
  qed
qed

theorem mongo_Lock_returns_witness:
  "\<exists>e m' c'. mongo_Lock 1 1 id []
      [\<lparr>mw_event = CtxDone CtxCanceled, mw_env = id, mw_now1 = 2, mw_now2 = 2, mw_mid = id\<rparr>] demo_mm []
      = Some (e, m', c') \<and> (e = None \<longrightarrow> mongo_owns (mem_coll ld_Key) (mem_docs ld_Key) m' c')"
proof (rule mongo_Lock_returns[OF meml.mongo_lock_axioms])
  show "mongo_fresh (mem_coll ld_Key) demo_mm" by (simp add: mongo_fresh_def)
qed (simp add: mongo_ends_wait_def)

text \<open>
  What the MongoDB mutex does after its lease is lost: when the stored document no longer is
  the instance's lease (it was removed after expiry, or taken over), \<open>Unlock\<close> reports an error and
  leaves the instance as it is, and every later \<open>TryLock\<close> on that instance answers that the lock is
  held, without reading the collection, although the instance does not own it.
\<close>

theorem mongo_lost_lease_still_answers_locked:
  assumes "mongo_lock cls docs" and "mm_mongoCls m = Some cls" and "mm_lockDetail m = Some ld"
    and "\<not> mongo_owns cls docs m c"
  shows "\<exists>e c'. mongo_Unlock m c = (Some e, m, c')
           \<and> mongo_TryLock now1 now2 mid ops m c' = (Inr True, m, c') \<and> \<not> mongo_owns cls docs m c'"
proof -
  obtain res m' c' where un: "mongo_Unlock m c = (res, m', c')" by (metis prod_cases3)
  from mongo_lock.mongo_Unlock_cases[OF assms(1-3) un] assms(3,4)
  have "res \<noteq> None" "m' = m" "docs c' = docs c" by (auto simp: mongo_owns_def assms(2))
  with un assms show ?thesis
    by (auto simp: mongo_TryLock_def mongo_tryLock_def mongo_try_read_def mongo_owns_def)
qed

theorem mongo_lost_lease_still_answers_locked_witness:
  "let m = demo_mm\<lparr>mm_lockDetail := Some demo_ld\<rparr>
   in \<exists>e c'. mongo_Unlock m [] = (Some e, m, c') \<and> mongo_TryLock 0 0 id [] m c' = (Inr True, m, c')
        \<and> \<not> mongo_owns (mem_coll ld_Key) (mem_docs ld_Key) m c'"
  using mongo_lost_lease_still_answers_locked[OF meml.mongo_lock_axioms,
      of "demo_mm\<lparr>mm_lockDetail := Some demo_ld\<rparr>" demo_ld "[]"]
  by (simp add: Let_def mongo_owns_def)

end
