(* ===== verification/Mongo_Random.thy ===== *)
theory Mongo_Random
  imports Dkit_Random Mongo_Server
begin

text \<open>
  \<open>dkit/mongo/random.go\<close>: temporary unique numbers on MongoDB, one document with an expiry time
  per number. Round \<open>i\<close> of the claiming loop polls the context (\<open>ctxdone i\<close>), reads the document,
  and inserts it or takes an expired one over by compare-and-set; other clients act before the
  reading (\<open>env i\<close>) and between reading and writing (\<open>mid i\<close>); \<open>clock i\<close> is the time it reads.

  Lemmas: the allocator meets the contract \<open>number_allocator\<close>, where a number is taken when its
  stored lease lasts beyond a horizon that no clock reading passes.
\<close>

record RandInfo =
  ri_ID :: int
  ri_Expires :: time

definition bson_rand :: "RandInfo \<Rightarrow> RandInfo" where
  "bson_rand d = d\<lparr>ri_Expires := bson_time (ri_Expires d)\<rparr>"

lemma bson_rand_simps [simp]:
  "ri_ID (bson_rand d) = ri_ID d" "ri_Expires (bson_rand d) = bson_time (ri_Expires d)"
  by (simp_all add: bson_rand_def)

record ('c, 'g) mongo_random =
  mr_r :: "'g option"
  mr_cls :: "('c, RandInfo) mongo_coll option"

definition mongo_NewRandomNumberImpl :: "('c, RandInfo) mongo_coll option \<Rightarrow> ('c, 'g) mongo_random" where
  "mongo_NewRandomNumberImpl cls = \<lparr>mr_r = None, mr_cls = cls\<rparr>"

definition renew :: "time \<Rightarrow> RandInfo \<Rightarrow> RandInfo" where
  "renew expires d = d\<lparr>ri_Expires := bson_time expires\<rparr>"

lemma renew_simps [simp]: "ri_ID (renew e d) = ri_ID d" "ri_Expires (renew e d) = bson_time e"
  by (simp_all add: renew_def)

record 'c claim_env =
  ce_done :: "nat \<Rightarrow> go_error option"
  ce_clock :: "nat \<Rightarrow> time"
  ce_env :: "nat \<Rightarrow> 'c \<Rightarrow> 'c"
  ce_mid :: "nat \<Rightarrow> 'c \<Rightarrow> 'c"

fun mongo_claim ::
    "'c claim_env \<Rightarrow> ('c, RandInfo) mongo_coll \<Rightarrow> time \<Rightarrow> nat \<Rightarrow> int list \<Rightarrow> 'c \<Rightarrow> int result \<times> 'c" where
  "mongo_claim E cls expires i [] c = (Inl ErrNoAvailableNumber, c)"
| "mongo_claim E cls expires i (num # nums) c =
     (case ce_done E i of
        Some e \<Rightarrow> (Inl e, c)
      | None \<Rightarrow>
          (case mc_FindOne cls (ce_env E i c) (\<lambda>d. ri_ID d = num) of
             (Inl e, c) \<Rightarrow> (Inl (WrapError ''find random number failed: '' e []), c)
           | (Inr None, c) \<Rightarrow>
               (case mc_InsertOne cls (ce_mid E i c) (bson_rand \<lparr>ri_ID = num, ri_Expires = expires\<rparr>) of
                  (Inl e, c) \<Rightarrow>
                    if mc_IsDuplicateKeyError cls e then mongo_claim E cls expires (Suc i) nums c
                    else (Inl (WrapError ''insert random number failed: '' e []), c)
                | (Inr u, c) \<Rightarrow> (Inr num, c))
           | (Inr (Some doc), c) \<Rightarrow>
               let findRet = bson_rand doc in
               if ri_Expires findRet < ce_clock E i
               then
                 (case mc_UpdateOne cls (ce_mid E i c)
                         (\<lambda>d. ri_ID d = num \<and> bson_time (ri_Expires d) = bson_time (ri_Expires findRet))
                         (renew expires) None of
                    (Inl e, c) \<Rightarrow> (Inl (WrapError ''update random number failed: '' e []), c)
                  | (Inr (matched, modified), c) \<Rightarrow>
                      if modified > 0 then (Inr num, c)
                      else mongo_claim E cls expires (Suc i) nums c)
               else mongo_claim E cls expires (Suc i) nums c))"

definition mongo_GetUniqueRandomNumber ::
    "'g go_rand \<Rightarrow> time \<Rightarrow> time \<Rightarrow> 'c claim_env \<Rightarrow> int \<Rightarrow> ('c, 'g) mongo_random \<Rightarrow> 'c
       \<Rightarrow> int result \<times> ('c, 'g) mongo_random \<times> 'c" where
  "mongo_GetUniqueRandomNumber R seed now E mx impl c =
     (if mx \<le> 0 then (Inl (WrapError [] ErrInvalidOption '': max must be positive''), impl, c)
      else
        case mr_cls impl of
          None \<Rightarrow> (Inl (WrapError [] ErrInvalidOption '': mongo collection is nil''), impl, c)
        | Some cls \<Rightarrow>
            let g = (case mr_r impl of None \<Rightarrow> rand_New R seed | Some g \<Rightarrow> g);
                (nums, g) = rand_Perm R g mx;
                (res, c) = mongo_claim E cls (now + Minute) 0 nums c
            in (res, impl\<lparr>mr_r := Some g\<rparr>, c))"

section \<open>Claiming\<close>

text \<open>A lease that lasts until \<open>T\<close> at least.\<close>

definition rand_taken :: "('c \<Rightarrow> int \<Rightarrow> RandInfo option) \<Rightarrow> time \<Rightarrow> 'c \<Rightarrow> int \<Rightarrow> bool" where
  "rand_taken docs T c n \<longleftrightarrow> (\<exists>d. docs c n = Some d \<and> T \<le> bson_time (ri_Expires d))"

definition env_keeps :: "('c \<Rightarrow> int \<Rightarrow> RandInfo option) \<Rightarrow> time \<Rightarrow> 'c claim_env \<Rightarrow> bool" where
  "env_keeps docs T E \<longleftrightarrow>
     (\<forall>i. ce_clock E i \<le> T)
     \<and> (\<forall>i c n. rand_taken docs T c n \<longrightarrow> rand_taken docs T (ce_env E i c) n \<and> rand_taken docs T (ce_mid E i c) n)"

locale mongo_numbers = mongo_collection cls docs ri_ID
  for cls :: "('c, RandInfo) mongo_coll" and docs :: "'c \<Rightarrow> int \<Rightarrow> RandInfo option"
begin

lemma insert_taken:
  assumes "mc_InsertOne cls c (bson_rand \<lparr>ri_ID = num, ri_Expires = expires\<rparr>) = (res, c')"
    and "rand_taken docs T c n"
  shows "rand_taken docs T c' n"
proof (cases res)
  case (Inl e)
  from InsertOne_failed[OF assms(1)[unfolded Inl]] assms(2) show ?thesis
    by (auto simp: rand_taken_def split: if_splits)
next
  case (Inr u)
  from InsertOne_ok[OF assms(1)[unfolded Inr]] assms(2) show ?thesis
    by (auto simp: rand_taken_def split: if_splits)
qed

lemma takeover_taken:
  assumes "mc_UpdateOne cls c (\<lambda>d. ri_ID d = num \<and> bson_time (ri_Expires d) = bson_time x) (renew expires) None = (res, c')"
    and "bson_time x < T" and "rand_taken docs T c n"
  shows "rand_taken docs T c' n"
  using UpdateOne_at[OF assms(1)] assms(2,3) by (auto simp: rand_taken_def split: if_splits)

text \<open>The outcomes of one round.\<close>

lemma mongo_claim_step:
  assumes "mongo_claim E cls expires i (num # nums) c = (res, c')" and "env_keeps docs T E"
    and "T \<le> bson_time expires"
  obtains (stop) e where "res = Inl e" "\<And>n. rand_taken docs T c n \<Longrightarrow> rand_taken docs T c' n"
  | (claimed) "res = Inr num" "\<not> rand_taken docs T c num" "rand_taken docs T c' num"
      "\<And>n. rand_taken docs T c n \<Longrightarrow> rand_taken docs T c' n"
  | (more) c1 where "mongo_claim E cls expires (Suc i) nums c1 = (res, c')"
      "\<And>n. rand_taken docs T c n \<Longrightarrow> rand_taken docs T c1 n"
proof -
  have env: "rand_taken docs T c n \<Longrightarrow> rand_taken docs T (ce_env E i c) n" 
    and mid: "rand_taken docs T c n \<Longrightarrow> rand_taken docs T (ce_mid E i c) n" for c n
    using assms(2) unfolding env_keeps_def by blast+
  obtain y c1 where f: "mc_FindOne cls (ce_env E i c) (\<lambda>d. ri_ID d = num) = (y, c1)" by fastforce
  have d1: "docs c1 = docs (ce_env E i c)" using f FindOne_at FindOne_failed by (cases y) blast+
  have k1: "rand_taken docs T c1 n" if "rand_taken docs T c n" for n
    using env[OF that] d1 by (simp add: rand_taken_def)
  note k2 = mid[OF k1]
  show ?thesis
  proof (cases "ce_done E i")
    case (Some e)
    with assms(1) stop show ?thesis by auto
  next
    case None
    show ?thesis
    proof (cases y)
      case (Inl e)
      with None assms(1) f k1 stop show ?thesis by auto
    next
      case (Inr z)
      show ?thesis
      proof (cases z)
        case None': None
        obtain x c2 where ins: "mc_InsertOne cls (ce_mid E i c1) (bson_rand \<lparr>ri_ID = num, ri_Expires = expires\<rparr>) = (x, c2)"
          by fastforce
        note k3 = insert_taken[OF ins k2]
        show ?thesis
        proof (cases x)
          case (Inl e)
          with None None' Inr assms(1) f ins k3 stop more show ?thesis by (auto split: if_splits)
        next
          case x: (Inr u)
          with InsertOne_ok ins have "docs (ce_mid E i c1) num = None" "docs c2 num = Some (bson_rand \<lparr>ri_ID = num, ri_Expires = expires\<rparr>)"
            by fastforce+
          then have "\<not> rand_taken docs T c num" "rand_taken docs T c2 num"
            using k2[of num] assms(3) by (auto simp: rand_taken_def)
          with None None' Inr assms(1) f ins x k3 claimed show ?thesis by auto
        qed
      next
        case (Some doc)
        show ?thesis
        proof (cases "bson_time (ri_Expires doc) < ce_clock E i")
          case True
          then have old: "bson_time (ri_Expires doc) < T" using assms(2) unfolding env_keeps_def by (meson less_le_trans)
          obtain x c2 where up: "mc_UpdateOne cls (ce_mid E i c1)
              (\<lambda>d. ri_ID d = num \<and> bson_time (ri_Expires d) = bson_time (ri_Expires doc)) (renew expires) None = (x, c2)"
            by fastforce
          note k3 = takeover_taken[OF up old k2]
          show ?thesis
          proof (cases "\<exists>a b. x = Inr (a, b) \<and> b > 0")
            case pos: True
            then obtain a b where x: "x = Inr (a, b)" "b > 0" by blast
            from UpdateOne_at_modified[OF up[unfolded x(1)]] x(2) obtain d where
              "docs (ce_mid E i c1) num = Some d" "bson_time (ri_Expires d) = bson_time (ri_Expires doc)"
              "docs c2 num = Some (renew expires d)" by fastforce
            with old assms(3) have "\<not> rand_taken docs T (ce_mid E i c1) num" "rand_taken docs T c2 num"
              by (auto simp: rand_taken_def)
            with None Inr Some True assms(1) f up x k2 k3 claimed show ?thesis by auto
          next
            case False
            with None Inr Some True assms(1) f up k3 stop more show ?thesis
              by (cases x) (auto simp: Let_def split: if_splits)
          qed
        next
          case False
          with None Inr Some assms(1) f k1 more show ?thesis by auto
        qed
      qed
    qed
  qed
qed

lemma mongo_claim_result:
  assumes "mongo_claim E cls expires i nums c = (res, c')" and "env_keeps docs T E" and "T \<le> bson_time expires"
  shows "(\<forall>n. rand_taken docs T c n \<longrightarrow> rand_taken docs T c' n)
    \<and> (\<forall>n. res = Inr n \<longrightarrow> n \<in> set nums \<and> \<not> rand_taken docs T c n \<and> rand_taken docs T c' n)"
  using assms(1)
proof (induction nums arbitrary: i c)
  case (Cons num nums)
  from Cons.prems assms(2,3) show ?case
  proof (cases rule: mongo_claim_step)
    case (more c1)
    from Cons.IH[OF more(1)] more(2) show ?thesis by auto
  qed auto
qed auto

end

section \<open>The allocator meets its contract\<close>

record ('c, 'g) mongo_call =
  mk_seed :: time
  mk_now :: time
  mk_env :: "'c claim_env"
  mk_max :: int
  mk_impl :: "('c, 'g) mongo_random"

definition mongo_alloc :: "'g go_rand \<Rightarrow> ('c, 'g) mongo_call \<Rightarrow> 'c \<Rightarrow> int result \<times> 'c" where
  "mongo_alloc R a c =
     (case mongo_GetUniqueRandomNumber R (mk_seed a) (mk_now a) (mk_env a) (mk_max a) (mk_impl a) c of
        (res, impl', c') \<Rightarrow> (res, c'))"

definition mongo_call_ok ::
    "('c \<Rightarrow> int \<Rightarrow> RandInfo option) \<Rightarrow> ('c, RandInfo) mongo_coll \<Rightarrow> 'g go_rand \<Rightarrow> time \<Rightarrow> ('c, 'g) mongo_call \<Rightarrow> bool" where
  "mongo_call_ok docs cls R T a \<longleftrightarrow> perm_ok R \<and> mr_cls (mk_impl a) = Some cls
     \<and> env_keeps docs T (mk_env a) \<and> T \<le> bson_time (mk_now a + Minute)"

context mongo_numbers
begin

lemma mongo_alloc_one:
  assumes "mongo_call_ok docs cls R T a" and "mongo_alloc R a c = (res, c')"
  shows "(\<forall>n. rand_taken docs T c n \<longrightarrow> rand_taken docs T c' n)
    \<and> (\<forall>n. res = Inr n \<longrightarrow> 0 \<le> n \<and> n < mk_max a \<and> \<not> rand_taken docs T c n \<and> rand_taken docs T c' n)"
proof (cases "mk_max a \<le> 0")
  case True
  with assms show ?thesis by (auto simp: mongo_alloc_def mongo_GetUniqueRandomNumber_def)
next
  case False
  let ?g = "case mr_r (mk_impl a) of None \<Rightarrow> rand_New R (mk_seed a) | Some g \<Rightarrow> g"
  obtain nums g' where p: "rand_Perm R ?g (mk_max a) = (nums, g')" by fastforce
  have ok: "perm_ok R" "mr_cls (mk_impl a) = Some cls" "env_keeps docs T (mk_env a)"
      "T \<le> bson_time (mk_now a + Minute)"
    using assms(1) by (simp_all add: mongo_call_ok_def)
  have nums: "set nums = {0..<mk_max a}"
    using ok(1) False p unfolding perm_ok_def by (metis fst_conv not_less nle_le)
  have "mongo_claim (mk_env a) cls (mk_now a + Minute) 0 nums c = (res, c')"
    using assms(2) False p ok(2)
    by (auto simp: mongo_alloc_def mongo_GetUniqueRandomNumber_def Let_def split: prod.splits)
  from mongo_claim_result[OF this ok(3,4)] nums show ?thesis by auto
qed

end

sublocale mongo_numbers \<subseteq> malloc: number_allocator
  "mongo_alloc R" "mongo_call_ok docs cls R T" mk_max "rand_taken docs T"
  for R :: "'g go_rand" and T :: time
proof (unfold_locales, goal_cases)
  case (1 a s n s')
  from mongo_alloc_one[OF this] show ?case by simp
next
  case (2 a s n s')
  from mongo_alloc_one[OF this] show ?case by simp
next
  case (3 a s res s' k)
  from mongo_alloc_one[OF 3(1,2)] 3(3) show ?case by simp
qed

context mongo_numbers
begin

lemmas mongo_run_allocs = malloc.run_allocs_distinct

end

interpretation memn: mongo_numbers "mem_coll ri_ID" "mem_docs ri_ID"
  by unfold_locales

section \<open>Properties\<close>

definition demo_mcall :: "(RandInfo list, unit) mongo_call" where
  "demo_mcall = \<lparr>mk_seed = 0, mk_now = 0,
     mk_env = \<lparr>ce_done = (\<lambda>i. None), ce_clock = (\<lambda>i. 5), ce_env = (\<lambda>i c. c), ce_mid = (\<lambda>i c. c)\<rparr>,
     mk_max = 3, mk_impl = mongo_NewRandomNumberImpl (Some (mem_coll ri_ID))\<rparr>"

lemma demo_mcall_ok: "mongo_call_ok (mem_docs ri_ID) (mem_coll ri_ID) demo_rand 10 demo_mcall"
  by (simp add: mongo_call_ok_def demo_rand_ok demo_mcall_def mongo_NewRandomNumberImpl_def env_keeps_def
      bson_time_def)

text \<open>
  Unique random numbers on MongoDB: over any sequence of calls whose clock readings do not pass
  a horizon \<open>T\<close> that their one-minute leases outlast, with other clients acting between all calls of
  the driver but no lease that lasts beyond \<open>T\<close> being lost, the numbers handed out are pairwise
  distinct, none of them was taken at the start, and all are taken at the end.
\<close>

theorem mongo_numbers_unique:
  assumes "mongo_numbers cls docs" and "list_all (mongo_call_ok docs cls R T) as"
    and "run_allocs (mongo_alloc R) as c = (rs, c')"
  shows "distinct (numbers rs)
    \<and> (\<forall>n \<in> set (numbers rs). \<not> rand_taken docs T c n \<and> rand_taken docs T c' n)
    \<and> (\<forall>k. rand_taken docs T c k \<longrightarrow> rand_taken docs T c' k)"
  by (rule mongo_numbers.mongo_run_allocs[OF assms])

theorem mongo_numbers_unique_witness:
  "numbers (fst (run_allocs (mongo_alloc demo_rand) [demo_mcall, demo_mcall] [])) = [0, 1]
   \<and> distinct (numbers (fst (run_allocs (mongo_alloc demo_rand) [demo_mcall, demo_mcall] [])))"
proof -
  obtain rs c' where run: "run_allocs (mongo_alloc demo_rand) [demo_mcall, demo_mcall] [] = (rs, c')"
    by fastforce
  have "numbers (fst (run_allocs (mongo_alloc demo_rand) [demo_mcall, demo_mcall] [])) = [0, 1]"
    by code_simp
  moreover have "list_all (mongo_call_ok (mem_docs ri_ID) (mem_coll ri_ID) demo_rand 10) [demo_mcall, demo_mcall]"
    by (simp add: demo_mcall_ok)
  ultimately show ?thesis
    using mongo_numbers_unique[OF memn.mongo_numbers_axioms _ run] run by simp
qed

end
