(* ===== verification/Mongo_Elect.thy ===== *)
theory Mongo_Elect
  imports Dkit_Elect Mongo_Server
begin

text \<open>
  \<open>dkit/mongo/elect.go\<close>: leader election and heartbeats on MongoDB. \<open>mongo_election_args\<close> is an
  \<open>ElectionImpl\<close> before \<open>Init\<close>, \<open>mongo_election\<close> one whose options \<open>Init\<close> has accepted. A round
  reads the leader document of the domain and then inserts it or takes an expired one over by
  compare-and-set; between the two other clients may act. The election and the heartbeat
  collection have their own states. Log output is left out; timeouts show as failing calls.

  Lemmas: what a round leaves behind, published events, alive nodes. Single leadership is in
  \<open>Mongo_Leases\<close>.
\<close>

section \<open>Data\<close>

abbreviation (input) LeaderKey :: string where "LeaderKey \<equiv> ''leader''"

record Payload =
  hp_NodeKey :: string
  hp_IsolationKey :: string
  hp_Expires :: time

record LeaderPayload =
  lp_ID :: string
  lp_NodeKey :: string
  lp_IsolationKey :: string
  lp_Expires :: time

definition bson_leader :: "LeaderPayload \<Rightarrow> LeaderPayload" where
  "bson_leader d = d\<lparr>lp_Expires := bson_time (lp_Expires d)\<rparr>"

lemma bson_leader_simps [simp]:
  "lp_ID (bson_leader d) = lp_ID d" "lp_NodeKey (bson_leader d) = lp_NodeKey d"
  "lp_IsolationKey (bson_leader d) = lp_IsolationKey d" "lp_Expires (bson_leader d) = bson_time (lp_Expires d)"
  by (simp_all add: bson_leader_def)

definition mongo_buildLeaderKey :: "string \<Rightarrow> string" where
  "mongo_buildLeaderKey isolationKey =
     (if isolationKey \<noteq> [] then LeaderKey @ ''-'' @ isolationKey else LeaderKey)"

lemma mongo_buildLeaderKey_inj [simp]:
  "mongo_buildLeaderKey a = mongo_buildLeaderKey b \<longleftrightarrow> a = b"
  by (auto simp: mongo_buildLeaderKey_def)

record ('c, 'h) mongo_election_args =
  mea_opt :: "election_option option"
  mea_electCls :: "('c, LeaderPayload) mongo_coll option"
  mea_hbCls :: "('h, Payload) mongo_coll option"

record ('c, 'h) mongo_election =
  me_opt :: election_option
  me_electCls :: "('c, LeaderPayload) mongo_coll"
  me_hbCls :: "('h, Payload) mongo_coll option"
  me_leader :: leader_state
  me_ready :: bool
  me_closed :: bool

definition mongo_NewElectionImpl ::
    "election_option option \<Rightarrow> ('c, LeaderPayload) mongo_coll option \<Rightarrow> ('h, Payload) mongo_coll option
       \<Rightarrow> ('c, 'h) mongo_election_args" where
  "mongo_NewElectionImpl opt electCls hbCls = \<lparr>mea_opt = opt, mea_electCls = electCls, mea_hbCls = hbCls\<rparr>"

definition mongo_NodeKey :: "election_option option \<Rightarrow> string" where
  "mongo_NodeKey opt = (case opt of None \<Rightarrow> [] | Some o' \<Rightarrow> eo_NodeKey o')"

definition mongo_readOpt :: "('c, 'h) mongo_election_args \<Rightarrow> ('c, 'h) mongo_election result" where
  "mongo_readOpt a =
     (case mea_opt a of
        None \<Rightarrow> Inl (WrapError [] ErrInvalidOption '': election option is nil'')
      | Some opt \<Rightarrow>
          if eo_NodeKey opt = [] then Inl (WrapError [] ErrInvalidOption '': node key is empty'')
          else
            let opt = (if eo_UnhealthyTime opt \<le> 0 then opt\<lparr>eo_UnhealthyTime := 5 * Second\<rparr> else opt);
                opt = (if eo_Timeout opt \<le> 0 then opt\<lparr>eo_Timeout := 2 * Second\<rparr> else opt)
            in case mea_electCls a of
                 None \<Rightarrow> Inl (WrapError [] ErrInvalidOption '': election collection is nil'')
               | Some cls \<Rightarrow>
                   if eo_KeepHeartbeat opt \<and> mea_hbCls a = None
                   then Inl (WrapError [] ErrInvalidOption '': heartbeat collection is nil'')
                   else Inr \<lparr>me_opt = opt, me_electCls = cls, me_hbCls = mea_hbCls a,
                             me_leader = initial_leader_state, me_ready = False, me_closed = False\<rparr>)"

section \<open>Election rounds\<close>

definition mongo_leaderKey :: "('c, 'h) mongo_election \<Rightarrow> string" where
  "mongo_leaderKey e = mongo_buildLeaderKey (eo_IsolationKey (me_opt e))"

definition mongo_set_flag :: "bool \<Rightarrow> ('c, 'h) mongo_election \<Rightarrow> ('c, 'h) mongo_election" where
  "mongo_set_flag b e = e\<lparr>me_leader := setLeaderFlag (me_opt e) b (me_leader e)\<rparr>"

definition mongo_markReady :: "('c, 'h) mongo_election \<Rightarrow> ('c, 'h) mongo_election" where
  "mongo_markReady e = e\<lparr>me_ready := True\<rparr>"

definition mongo_IsLeader :: "('c, 'h) mongo_election \<Rightarrow> bool" where
  "mongo_IsLeader e = ls_flag (me_leader e)"

text \<open>What a campaign is about to write after reading.\<close>

datatype leader_write = LInsert LeaderPayload | LTakeover LeaderPayload time

definition mongo_campaign_read ::
    "time \<Rightarrow> ('c, 'h) mongo_election \<Rightarrow> 'c \<Rightarrow> (go_error option \<times> ('c, 'h) mongo_election + leader_write) \<times> 'c" where
  "mongo_campaign_read now e c =
     (case mc_Find (me_electCls e) c (\<lambda>d. lp_IsolationKey d = eo_IsolationKey (me_opt e)) of
        (Inl err, c) \<Rightarrow> (Inl (Some (WrapError ''find election data failed: '' err []), e), c)
      | (Inr (doc # _), c) \<Rightarrow>
          let leader = bson_leader doc in
          if lp_NodeKey leader = eo_NodeKey (me_opt e) then (Inl (None, mongo_set_flag True e), c)
          else if lp_Expires leader < now
          then (Inr (LTakeover leader (now + eo_UnhealthyTime (me_opt e))), c)
          else (Inl (None, e), c)
      | (Inr [], c) \<Rightarrow>
          (Inr (LInsert \<lparr>lp_ID = mongo_leaderKey e, lp_NodeKey = eo_NodeKey (me_opt e),
                         lp_IsolationKey = eo_IsolationKey (me_opt e),
                         lp_Expires = now + eo_UnhealthyTime (me_opt e)\<rparr>), c))"

definition take_leader :: "string \<Rightarrow> time \<Rightarrow> LeaderPayload \<Rightarrow> LeaderPayload" where
  "take_leader nodeKey expires d = d\<lparr>lp_NodeKey := nodeKey, lp_Expires := bson_time expires\<rparr>"

definition renew_leader :: "time \<Rightarrow> LeaderPayload \<Rightarrow> LeaderPayload" where
  "renew_leader expires d = d\<lparr>lp_Expires := bson_time expires\<rparr>"

lemma leader_updates [simp]:
  "lp_ID (take_leader n x d) = lp_ID d" "lp_NodeKey (take_leader n x d) = n"
  "lp_IsolationKey (take_leader n x d) = lp_IsolationKey d"
  "lp_ID (renew_leader x d) = lp_ID d" "lp_NodeKey (renew_leader x d) = lp_NodeKey d"
  "lp_IsolationKey (renew_leader x d) = lp_IsolationKey d"
  by (simp_all add: take_leader_def renew_leader_def)

definition mongo_campaign_write ::
    "leader_write \<Rightarrow> ('c, 'h) mongo_election \<Rightarrow> 'c \<Rightarrow> go_error option \<times> ('c, 'h) mongo_election \<times> 'c" where
  "mongo_campaign_write w e c =
     (case w of
        LTakeover leader expires \<Rightarrow>
          (case mc_UpdateOne (me_electCls e) c
                  (\<lambda>d. lp_ID d = lp_ID leader \<and> lp_NodeKey d = lp_NodeKey leader
                        \<and> bson_time (lp_Expires d) = bson_time (lp_Expires leader))
                  (take_leader (eo_NodeKey (me_opt e)) expires) None of
             (Inl err, c) \<Rightarrow> (Some (WrapError ''update leader failed: '' err []), e, c)
           | (Inr (matched, modified), c) \<Rightarrow>
               (None, if modified > 0 then mongo_set_flag True e else e, c))
      | LInsert d \<Rightarrow>
          (case mc_InsertOne (me_electCls e) c (bson_leader d) of
             (Inl err, c) \<Rightarrow>
               if mc_IsDuplicateKeyError (me_electCls e) err then (None, e, c)
               else (Some (WrapError ''insert leader failed: '' err []), e, c)
           | (Inr u, c) \<Rightarrow> (None, mongo_set_flag True e, c)))"

definition mongo_campaign ::
    "time \<Rightarrow> ('c \<Rightarrow> 'c) \<Rightarrow> ('c, 'h) mongo_election \<Rightarrow> 'c \<Rightarrow> go_error option \<times> ('c, 'h) mongo_election \<times> 'c" where
  "mongo_campaign now mid e c =
     (case mongo_campaign_read now e c of
        (Inl (err, e), c) \<Rightarrow> (err, e, c)
      | (Inr w, c) \<Rightarrow> mongo_campaign_write w e (mid c))"

definition mongo_continueLeader ::
    "time \<Rightarrow> ('c, 'h) mongo_election \<Rightarrow> 'c \<Rightarrow> go_error option \<times> 'c" where
  "mongo_continueLeader now e c =
     (case mc_UpdateOne (me_electCls e) c
             (\<lambda>d. lp_ID d = mongo_leaderKey e \<and> lp_NodeKey d = eo_NodeKey (me_opt e))
             (renew_leader (now + eo_UnhealthyTime (me_opt e))) None of
        (Inl err, c) \<Rightarrow> (Some (WrapError ''update leader failed: '' err []), c)
      | (Inr (matched, modified), c) \<Rightarrow>
          if matched = 0 then (Some (OpaqueError ''continue leader failed''), c) else (None, c))"

definition mongo_elect ::
    "time \<Rightarrow> ('c \<Rightarrow> 'c) \<Rightarrow> ('c, 'h) mongo_election \<Rightarrow> 'c \<Rightarrow> ('c, 'h) mongo_election \<times> 'c" where
  "mongo_elect now mid e c =
     (if mongo_IsLeader e then
        (case mongo_continueLeader now e c of
           (Some err, c) \<Rightarrow> (mongo_set_flag False e, c)
         | (None, c) \<Rightarrow> (e, c))
      else
        (case mongo_campaign now mid e c of (err, e, c) \<Rightarrow> (e, c)))"

definition mongo_runElectionOnce ::
    "time \<Rightarrow> ('c \<Rightarrow> 'c) \<Rightarrow> ('c, 'h) mongo_election \<Rightarrow> 'c \<Rightarrow> ('c, 'h) mongo_election \<times> 'c" where
  "mongo_runElectionOnce now mid e c =
     (if \<not> may_elect now (me_opt e) then (mongo_markReady (mongo_set_flag False e), c)
      else (case mongo_elect now mid e c of (e, c) \<Rightarrow> (mongo_markReady e, c)))"

text \<open>\<open>Init\<close>: the indexes, then the first round; the heartbeat worker runs beside it.\<close>

definition mongo_election_Init ::
    "time \<Rightarrow> ('c \<Rightarrow> 'c) \<Rightarrow> ('c, 'h) mongo_election_args \<Rightarrow> 'c \<times> 'h \<Rightarrow> ('c, 'h) mongo_election result \<times> 'c \<times> 'h" where
  "mongo_election_Init now mid a w =
     (case mongo_readOpt a of
        Inl err \<Rightarrow> (Inl err, w)
      | Inr e \<Rightarrow>
          (let (c, h) = w in
           case ensureTTLIndex (Some (me_electCls e)) c of
             (Some err, c) \<Rightarrow> (Inl err, c, h)
           | (None, c) \<Rightarrow>
               (case (if eo_KeepHeartbeat (me_opt e) then ensureTTLIndex (me_hbCls e) h else (None, h)) of
                  (Some err, h) \<Rightarrow> (Inl err, c, h)
                | (None, h) \<Rightarrow>
                    (case mongo_runElectionOnce now mid e c of (e, c) \<Rightarrow> (Inr e, c, h)))))"

section \<open>Heartbeats\<close>

definition nil_heartbeat :: go_error where
  "nil_heartbeat = OpaqueError ''panic: nil heartbeat collection''"

definition mongo_heartBeat :: "time \<Rightarrow> ('c, 'h) mongo_election \<Rightarrow> 'h \<Rightarrow> go_error option \<times> 'h" where
  "mongo_heartBeat now e h =
     (case me_hbCls e of
        None \<Rightarrow> (Some nil_heartbeat, h)
      | Some cls \<Rightarrow>
          (let expires = bson_time (now + eo_UnhealthyTime (me_opt e)); isoKey = eo_IsolationKey (me_opt e) in
           case mc_UpdateOne cls h (\<lambda>d. hp_NodeKey d = eo_NodeKey (me_opt e))
                  (\<lambda>d. d\<lparr>hp_Expires := expires, hp_IsolationKey := isoKey\<rparr>)
                  (Some \<lparr>hp_NodeKey = eo_NodeKey (me_opt e), hp_IsolationKey = isoKey, hp_Expires = expires\<rparr>) of
             (Inl err, h) \<Rightarrow> (Some (WrapError ''update heartbeat failed: '' err []), h)
           | (Inr u, h) \<Rightarrow> (None, h)))"

definition mongo_AliveNodes :: "time \<Rightarrow> ('c, 'h) mongo_election \<Rightarrow> 'h \<Rightarrow> string list result \<times> 'h" where
  "mongo_AliveNodes now e h =
     (case me_hbCls e of
        None \<Rightarrow> (Inl nil_heartbeat, h)
      | Some cls \<Rightarrow>
          (case mc_Find cls h (\<lambda>d. bson_time now \<le> hp_Expires d \<and> hp_IsolationKey d = eo_IsolationKey (me_opt e)) of
             (Inl err, h) \<Rightarrow> (Inl (WrapError ''find alive nodes failed: '' err []), h)
           | (Inr ret, h) \<Rightarrow> (Inr (map hp_NodeKey ret), h)))"

definition mongo_IsAlive :: "time \<Rightarrow> ('c, 'h) mongo_election \<Rightarrow> string \<Rightarrow> 'h \<Rightarrow> bool result \<times> 'h" where
  "mongo_IsAlive now e nodeKey h =
     (case me_hbCls e of
        None \<Rightarrow> (Inl nil_heartbeat, h)
      | Some cls \<Rightarrow>
          (case mc_FindOne cls h (\<lambda>d. hp_NodeKey d = nodeKey \<and> bson_time now \<le> hp_Expires d
                                    \<and> hp_IsolationKey d = eo_IsolationKey (me_opt e)) of
             (Inr None, h) \<Rightarrow> (Inr False, h)
           | (Inl err, h) \<Rightarrow> (Inl (WrapError ''query alive node failed: '' err []), h)
           | (Inr (Some p), h) \<Rightarrow> (Inr True, h)))"

section \<open>Closing\<close>

definition mongo_Close ::
    "('c, 'h) mongo_election \<Rightarrow> 'c \<times> 'h \<Rightarrow> ('c, 'h) mongo_election \<times> 'c \<times> 'h" where
  "mongo_Close e w =
     (if me_closed e then (e, w)
      else
        let (c, h) = w;
            c = (if mongo_IsLeader e
                 then snd (mc_DeleteOne (me_electCls e) c
                        (\<lambda>d. lp_ID d = mongo_leaderKey e \<and> lp_NodeKey d = eo_NodeKey (me_opt e)))
                 else c);
            h = (if eo_KeepHeartbeat (me_opt e)
                 then (case me_hbCls e of
                         None \<Rightarrow> h
                       | Some cls \<Rightarrow> snd (mc_DeleteOne cls h
                           (\<lambda>d. hp_NodeKey d = eo_NodeKey (me_opt e) \<and> hp_IsolationKey d = eo_IsolationKey (me_opt e))))
                 else h)
        in (e\<lparr>me_closed := True\<rparr>, c, h))"

section \<open>One round\<close>

lemma mongo_flag_simps [simp]:
  "mongo_IsLeader (mongo_set_flag b e) = b" "me_opt (mongo_set_flag b e) = me_opt e"
  "me_electCls (mongo_set_flag b e) = me_electCls e" "me_closed (mongo_set_flag b e) = me_closed e"
  "mongo_IsLeader (mongo_markReady e) = mongo_IsLeader e" "me_opt (mongo_markReady e) = me_opt e"
  "me_electCls (mongo_markReady e) = me_electCls e" "me_closed (mongo_markReady e) = me_closed e"
  "me_leader (mongo_markReady e) = me_leader e"
  by (simp_all add: mongo_set_flag_def mongo_markReady_def mongo_IsLeader_def)

text \<open>Nothing but the leader flag and the ready mark of a node ever changes in a round.\<close>

definition mongo_same :: "('c, 'h) mongo_election \<Rightarrow> ('c, 'h) mongo_election \<Rightarrow> bool" where
  "mongo_same e e' \<longleftrightarrow> me_opt e' = me_opt e \<and> me_electCls e' = me_electCls e \<and> me_closed e' = me_closed e
     \<and> (me_leader e' = me_leader e \<or> (\<exists>b. me_leader e' = setLeaderFlag (me_opt e) b (me_leader e)))"

lemma mongo_same_simps [simp]:
  "mongo_same e e" "mongo_same e (mongo_set_flag b e)" "mongo_same e (mongo_markReady e') = mongo_same e e'"
  by (auto simp: mongo_same_def mongo_set_flag_def)

lemma mongo_campaign_read_same:
  "mongo_campaign_read now e c = (Inl (err, e'), c') \<Longrightarrow> mongo_same e e'"
  by (auto simp: mongo_campaign_read_def Let_def split: prod.splits sum.splits list.splits if_splits)

lemma mongo_campaign_write_same: "mongo_campaign_write w e c = (err, e', c') \<Longrightarrow> mongo_same e e'"
  by (auto simp: mongo_campaign_write_def split: leader_write.splits prod.splits sum.splits if_splits)

lemma mongo_elect_same: "mongo_elect now mid e c = (e', c') \<Longrightarrow> mongo_same e e'"
  by (auto simp: mongo_elect_def mongo_campaign_def split: if_splits prod.splits option.splits sum.splits
      dest: mongo_campaign_read_same mongo_campaign_write_same)

lemma mongo_runElectionOnce_same: "mongo_runElectionOnce now mid e c = (e', c') \<Longrightarrow> mongo_same e e'"
  by (auto simp: mongo_runElectionOnce_def split: if_splits prod.splits dest: mongo_elect_same)

text \<open>Leader documents as this code writes them: the domain determines the \<open>_id\<close>.\<close>

definition leaders_wf :: "('c \<Rightarrow> string \<Rightarrow> LeaderPayload option) \<Rightarrow> 'c \<Rightarrow> bool" where
  "leaders_wf docs c \<longleftrightarrow> (\<forall>k d. docs c k = Some d \<longrightarrow> k = mongo_buildLeaderKey (lp_IsolationKey d))"

definition mongo_holder :: "('c \<Rightarrow> string \<Rightarrow> LeaderPayload option) \<Rightarrow> string \<Rightarrow> 'c \<Rightarrow> string option" where
  "mongo_holder docs ik c = map_option lp_NodeKey (docs c (mongo_buildLeaderKey ik))"

abbreviation iso_key :: "('c, 'h) mongo_election \<Rightarrow> string" where "iso_key e \<equiv> eo_IsolationKey (me_opt e)"
abbreviation nkey :: "('c, 'h) mongo_election \<Rightarrow> string" where "nkey e \<equiv> eo_NodeKey (me_opt e)"

definition write_ok :: "time \<Rightarrow> ('c, 'h) mongo_election \<Rightarrow> leader_write \<Rightarrow> bool" where
  "write_ok now e w \<longleftrightarrow> (case w of
       LInsert d \<Rightarrow> lp_ID d = mongo_leaderKey e \<and> lp_NodeKey d = nkey e \<and> lp_IsolationKey d = iso_key e
     | LTakeover d x \<Rightarrow> lp_ID d = mongo_leaderKey e \<and> lp_NodeKey d \<noteq> nkey e \<and> bson_time (lp_Expires d) < now)"

locale mongo_leaders = mongo_collection cls docs lp_ID
  for cls :: "('c, LeaderPayload) mongo_coll" and docs :: "'c \<Rightarrow> string \<Rightarrow> LeaderPayload option"
begin

lemma campaign_read_cases:
  assumes "me_electCls e = cls" and "leaders_wf docs c" and "mongo_campaign_read now e c = (x, c')"
  shows "docs c' = docs c \<and>
    ((\<exists>err. x = Inl (err, e)) \<or> (x = Inl (None, mongo_set_flag True e) \<and> mongo_holder docs (iso_key e) c = Some (nkey e))
     \<or> (\<exists>d. x = Inr (LInsert d) \<and> write_ok now e (LInsert d) \<and> mongo_holder docs (iso_key e) c = None)
     \<or> (\<exists>d t. x = Inr (LTakeover d t) \<and> write_ok now e (LTakeover d t)
          \<and> (\<exists>doc. docs c (mongo_leaderKey e) = Some doc \<and> bson_leader doc = d)))"
proof -
  obtain y c1 where f: "mc_Find cls c (\<lambda>d. lp_IsolationKey d = iso_key e) = (y, c1)" by fastforce
  show ?thesis
  proof (cases y)
    case (Inl err)
    with f assms(1,3) Find_failed[OF f[unfolded Inl]] show ?thesis by (auto simp: mongo_campaign_read_def)
  next
    case (Inr ds)
    from Find_ok[OF f[unfolded Inr]] have fd: "docs c1 = docs c"
      "\<And>d. d \<in> set ds \<longleftrightarrow> lp_IsolationKey d = iso_key e \<and> docs c (lp_ID d) = Some d" by auto
    show ?thesis
    proof (cases ds)
      case Nil
      have "docs c (mongo_leaderKey e) = None"
      proof (cases "docs c (mongo_leaderKey e)")
        case (Some d)
        with assms(2) have "lp_IsolationKey d = iso_key e"
          unfolding leaders_wf_def mongo_leaderKey_def by fastforce
        with fd(2)[of d] Some docs_id[OF Some] Nil show ?thesis by simp
      qed
      with f Inr Nil assms(1,3) fd show ?thesis
        by (auto simp: mongo_campaign_read_def write_ok_def mongo_holder_def mongo_leaderKey_def)
    next
      case (Cons doc rest)
      then have "lp_IsolationKey doc = iso_key e" "docs c (lp_ID doc) = Some doc" using fd(2)[of doc] by auto
      with assms(2) have "lp_ID doc = mongo_leaderKey e" "docs c (mongo_leaderKey e) = Some doc"
        unfolding leaders_wf_def mongo_leaderKey_def by metis+
      with f Inr Cons assms(1,3) fd(1) show ?thesis
        by (auto simp: mongo_campaign_read_def write_ok_def mongo_holder_def mongo_leaderKey_def Let_def
            split: if_splits)
    qed
  qed
qed

lemma campaign_write_cases:
  assumes "me_electCls e = cls" and "write_ok now e w" and "mongo_campaign_write w e c = (err, e', c')"
  shows "(e' = e \<or> (e' = mongo_set_flag True e \<and> mongo_holder docs (iso_key e) c' = Some (nkey e)))
    \<and> (docs c' = docs c \<or> docs c (mongo_leaderKey e) = None
       \<or> (\<exists>d t doc. w = LTakeover d t \<and> docs c (mongo_leaderKey e) = Some doc
            \<and> bson_time (lp_Expires doc) = bson_time (lp_Expires d)))"
proof (cases w)
  case (LInsert d)
  obtain y c1 where f: "mc_InsertOne cls c (bson_leader d) = (y, c1)" by fastforce
  have d: "lp_ID d = mongo_leaderKey e" "lp_NodeKey d = nkey e" using assms(2) LInsert by (simp_all add: write_ok_def)
  show ?thesis
  proof (cases y)
    case (Inl x)
    with f LInsert assms(1,3) d InsertOne_failed[OF f[unfolded Inl]] show ?thesis
      by (auto simp: mongo_campaign_write_def split: if_splits)
  next
    case (Inr u)
    with f LInsert assms(1,3) d InsertOne_ok[OF f[unfolded Inr]] show ?thesis
      by (auto simp: mongo_campaign_write_def mongo_holder_def mongo_leaderKey_def)
  qed
next
  case (LTakeover d t)
  have id: "lp_ID d = mongo_leaderKey e" using assms(2) LTakeover by (simp add: write_ok_def)
  let ?g = "\<lambda>x. lp_NodeKey x = lp_NodeKey d \<and> bson_time (lp_Expires x) = bson_time (lp_Expires d)"
  obtain y c1 where f: "mc_UpdateOne cls c (\<lambda>x. lp_ID x = mongo_leaderKey e \<and> ?g x) (take_leader (nkey e) t) None = (y, c1)"
    by fastforce
  have c': "c' = c1" using f LTakeover assms(1,3) id
    by (auto simp: mongo_campaign_write_def split: sum.splits)
  have at: "docs c1 = docs c \<or> (\<exists>doc. docs c (mongo_leaderKey e) = Some doc \<and> ?g doc
      \<and> docs c1 = (docs c)(mongo_leaderKey e \<mapsto> take_leader (nkey e) t doc))"
    using UpdateOne_at[OF f] by simp
  have e': "e' = e \<or> (e' = mongo_set_flag True e \<and> (\<exists>a b. y = Inr (a, b) \<and> b > 0))"
    using f LTakeover assms(1,3) id by (auto simp: mongo_campaign_write_def split: sum.splits if_splits)
  have "mongo_holder docs (iso_key e) c1 = Some (nkey e)" if "y = Inr (a, b)" "b > 0" for a b
    using UpdateOne_at_modified[OF f[unfolded that(1)]] that(2)
    by (fastforce simp: mongo_holder_def mongo_leaderKey_def)
  with e' at c' LTakeover show ?thesis by blast
qed

lemma mongo_continueLeader_cases:
  assumes "me_electCls e = cls" and "mongo_continueLeader now e c = (res, c')"
  shows "(\<forall>k. map_option lp_NodeKey (docs c' k) = map_option lp_NodeKey (docs c k))
    \<and> (res = None \<longrightarrow> mongo_holder docs (iso_key e) c = Some (nkey e))
    \<and> (mongo_holder docs (iso_key e) c \<noteq> Some (nkey e) \<longrightarrow> docs c' = docs c)"
proof -
  let ?u = "renew_leader (now + eo_UnhealthyTime (me_opt e))"
  obtain y c1 where f: "mc_UpdateOne cls c (\<lambda>x. lp_ID x = mongo_leaderKey e \<and> lp_NodeKey x = nkey e) ?u None = (y, c1)"
    by fastforce
  have c': "c' = c1" using f assms by (auto simp: mongo_continueLeader_def split: sum.splits if_splits)
  have at: "docs c1 = docs c \<or> (\<exists>doc. docs c (mongo_leaderKey e) = Some doc \<and> lp_NodeKey doc = nkey e
      \<and> docs c1 = (docs c)(mongo_leaderKey e \<mapsto> ?u doc))"
    using UpdateOne_at[OF f] by simp
  have "mongo_holder docs (iso_key e) c = Some (nkey e)" if "res = None"
  proof -
    from that f assms obtain a b where y: "y = Inr (a, b)" "a \<noteq> 0"
      by (auto simp: mongo_continueLeader_def split: sum.splits if_splits)
    from UpdateOne_matched[OF f[unfolded y(1)] y(2)] obtain k d where
      d: "docs c k = Some d" "lp_ID d = mongo_leaderKey e" "lp_NodeKey d = nkey e" by auto
    from docs_id[OF d(1)] d show ?thesis by (simp add: mongo_holder_def mongo_leaderKey_def)
  qed
  with at c' show ?thesis by (auto simp: mongo_holder_def mongo_leaderKey_def)
qed

end

section \<open>The nodes of a domain\<close>

text \<open>A round in two parts: up to the writing call of a campaign, and that call.\<close>

definition mongo_round_start ::
    "time \<Rightarrow> ('c, 'h) mongo_election \<Rightarrow> 'c \<Rightarrow> (('c, 'h) mongo_election + leader_write) \<times> 'c" where
  "mongo_round_start now e c =
     (if \<not> may_elect now (me_opt e) then (Inl (mongo_markReady (mongo_set_flag False e)), c)
      else if mongo_IsLeader e then
        (case mongo_continueLeader now e c of
           (Some err, c) \<Rightarrow> (Inl (mongo_markReady (mongo_set_flag False e)), c)
         | (None, c) \<Rightarrow> (Inl (mongo_markReady e), c))
      else
        (case mongo_campaign_read now e c of
           (Inl (err, e), c) \<Rightarrow> (Inl (mongo_markReady e), c)
         | (Inr w, c) \<Rightarrow> (Inr w, c)))"

definition mongo_round_finish ::
    "leader_write \<Rightarrow> ('c, 'h) mongo_election \<Rightarrow> 'c \<Rightarrow> ('c, 'h) mongo_election \<times> 'c" where
  "mongo_round_finish w e c = (case mongo_campaign_write w e c of (err, e, c) \<Rightarrow> (mongo_markReady e, c))"

lemma mongo_runElectionOnce_split:
  "mongo_runElectionOnce now mid e c =
     (case mongo_round_start now e c of
        (Inl e, c) \<Rightarrow> (e, c)
      | (Inr w, c) \<Rightarrow> mongo_round_finish w e (mid c))"
  by (auto simp: mongo_runElectionOnce_def mongo_round_start_def mongo_round_finish_def mongo_elect_def
      mongo_campaign_def split: prod.splits option.splits sum.splits)

definition mongo_close_leader :: "('c, 'h) mongo_election \<Rightarrow> 'c \<Rightarrow> ('c, 'h) mongo_election \<times> 'c" where
  "mongo_close_leader e c =
     (if me_closed e then (e, c)
      else (e\<lparr>me_closed := True\<rparr>,
            if mongo_IsLeader e
            then snd (mc_DeleteOne (me_electCls e) c
                   (\<lambda>d. lp_ID d = mongo_leaderKey e \<and> lp_NodeKey d = eo_NodeKey (me_opt e)))
            else c))"

lemma mongo_Close_leader: "mongo_Close e (c, h) = (e', c', h') \<Longrightarrow> mongo_close_leader e c = (e', c')"
  by (auto simp: mongo_Close_def mongo_close_leader_def Let_def split: if_splits)

context mongo_leaders
begin

lemma round_start_cases:
  assumes "me_electCls e = cls" and "leaders_wf docs c" and "mongo_round_start now e c = (x, c')"
  shows "(\<forall>k. map_option lp_NodeKey (docs c' k) = map_option lp_NodeKey (docs c k))
    \<and> (\<forall>e'. x = Inl e' \<longrightarrow> mongo_same e e'
         \<and> (mongo_IsLeader e' \<longrightarrow> mongo_holder docs (iso_key e) c' = Some (nkey e)))
    \<and> (\<forall>w. x = Inr w \<longrightarrow> write_ok now e w \<and> \<not> mongo_IsLeader e \<and> docs c' = docs c)
    \<and> (\<forall>d t. x = Inr (LTakeover d t) \<longrightarrow> (\<exists>doc. docs c (mongo_leaderKey e) = Some doc \<and> bson_leader doc = d))"
proof -
  obtain cr c1 where cl: "mongo_continueLeader now e c = (cr, c1)" by fastforce
  obtain y c2 where rd: "mongo_campaign_read now e c = (y, c2)" by fastforce
  consider "\<not> may_elect now (me_opt e)" | "may_elect now (me_opt e)" "mongo_IsLeader e"
    | "may_elect now (me_opt e)" "\<not> mongo_IsLeader e" by blast
  then show ?thesis
  proof cases
    case 1
    with assms(3) show ?thesis by (auto simp: mongo_round_start_def)
  next
    case 2
    note cc = mongo_continueLeader_cases[OF assms(1) cl]
    then have "mongo_holder docs (iso_key e) c1 = mongo_holder docs (iso_key e) c"
      unfolding mongo_holder_def by blast
    with 2 assms(3) cl cc show ?thesis
      by (auto simp: mongo_round_start_def split: option.splits)
  next
    case 3
    note rc = campaign_read_cases[OF assms(1,2) rd]
    show ?thesis
    proof (cases y)
      case (Inl p)
      with 3 assms(3) rd rc show ?thesis
        by (cases p) (auto simp: mongo_round_start_def mongo_holder_def dest: mongo_campaign_read_same)
    next
      case (Inr w)
      with 3 assms(3) rd rc show ?thesis by (auto simp: mongo_round_start_def)
    qed
  qed
qed

lemma round_finish_cases:
  assumes "me_electCls e = cls" and "write_ok now e w" and "mongo_round_finish w e c = (e', c')"
  shows "mongo_same e e'
    \<and> (mongo_IsLeader e' \<longrightarrow> mongo_IsLeader e \<or> mongo_holder docs (iso_key e) c' = Some (nkey e))
    \<and> (docs c' = docs c \<or> docs c (mongo_leaderKey e) = None
       \<or> (\<exists>d t doc. w = LTakeover d t \<and> docs c (mongo_leaderKey e) = Some doc
            \<and> bson_time (lp_Expires doc) = bson_time (lp_Expires d)))"
proof -
  obtain err e1 c1 where wr: "mongo_campaign_write w e c = (err, e1, c1)" by (metis prod_cases3)
  with assms(3) have "e' = mongo_markReady e1" "c' = c1" by (simp_all add: mongo_round_finish_def)
  with campaign_write_cases[OF assms(1,2) wr] mongo_campaign_write_same[OF wr] show ?thesis by auto
qed

lemma close_leader_docs:
  assumes "me_electCls e = cls" and "mongo_close_leader e c = (e', c')"
  shows "docs c' = docs c \<or> (\<exists>d. docs c (mongo_leaderKey e) = Some d \<and> lp_NodeKey d = nkey e
    \<and> docs c' = (docs c)(mongo_leaderKey e := None))"
proof -
  obtain y c1 where f: "mc_DeleteOne cls c (\<lambda>d. lp_ID d = mongo_leaderKey e \<and> lp_NodeKey d = nkey e) = (y, c1)"
    by fastforce
  from DeleteOne_at[OF f] f assms show ?thesis by (auto simp: mongo_close_leader_def split: if_splits)
qed

end

interpretation memld: mongo_leaders "mem_coll lp_ID" "mem_docs lp_ID"
  by unfold_locales

section \<open>Published events and heartbeats\<close>

datatype 'c mongo_election_op = MRound time "'c \<Rightarrow> 'c" | MClosing

fun mongo_election_oper ::
    "'c mongo_election_op \<Rightarrow> ('c, 'h) mongo_election \<times> 'c \<times> 'h \<Rightarrow> ('c, 'h) mongo_election \<times> 'c \<times> 'h" where
  "mongo_election_oper (MRound now mid) (e, c, h) =
     (if me_closed e then (e, c, h)
      else (case mongo_runElectionOnce now mid e c of (e', c') \<Rightarrow> (e', c', h)))"
| "mongo_election_oper MClosing (e, c, h) = mongo_Close e (c, h)"

interpretation mongo_flag: leader_flag me_opt me_leader mongo_election_oper
proof
  fix a :: "'c mongo_election_op" and x :: "('c, 'h) mongo_election \<times> 'c \<times> 'h"
  obtain e c h where x: "x = (e, c, h)" by (metis prod_cases3)
  note run = mongo_runElectionOnce_same[unfolded mongo_same_def]
  have cl: "me_opt (fst (mongo_Close e (c, h))) = me_opt e" "me_leader (fst (mongo_Close e (c, h))) = me_leader e"
    by (simp_all add: mongo_Close_def Let_def)
  show "me_opt (fst (mongo_election_oper a x)) = me_opt (fst x)"
    using x cl by (cases a) (auto dest: run split: prod.splits)
  show "me_leader (fst (mongo_election_oper a x)) = me_leader (fst x)
      \<or> (\<exists>b. me_leader (fst (mongo_election_oper a x)) = setLeaderFlag (me_opt (fst x)) b (me_leader (fst x)))"
    using x cl by (cases a) (auto dest: run split: prod.splits)
qed

locale mongo_heartbeats = mongo_collection cls docs hp_NodeKey
  for cls :: "('h, Payload) mongo_coll" and docs :: "'h \<Rightarrow> string \<Rightarrow> Payload option"
begin

lemma heartBeat_stored:
  assumes "me_hbCls e = Some cls" and "mongo_heartBeat now e h = (None, h')"
  shows "docs h' = (docs h)(nkey e \<mapsto> \<lparr>hp_NodeKey = nkey e, hp_IsolationKey = iso_key e,
           hp_Expires = bson_time (now + eo_UnhealthyTime (me_opt e))\<rparr>)"
proof -
  let ?x = "bson_time (now + eo_UnhealthyTime (me_opt e))"
  let ?p = "\<lparr>hp_NodeKey = nkey e, hp_IsolationKey = iso_key e, hp_Expires = ?x\<rparr>"
  let ?u = "\<lambda>d. d\<lparr>hp_Expires := ?x, hp_IsolationKey := iso_key e\<rparr>"
  obtain n m where f: "mc_UpdateOne cls h (\<lambda>d. hp_NodeKey d = nkey e) ?u (Some ?p) = (Inr (n, m), h')"
    using assms by (auto simp: mongo_heartBeat_def Let_def split: sum.splits prod.splits)
  show ?thesis
  proof (cases "n = 0")
    case True
    with UpdateOne_none f show ?thesis by fastforce
  next
    case False
    from UpdateOne_matched[OF f False] obtain k d where
      d: "docs h k = Some d" "hp_NodeKey d = nkey e" "docs h' = (docs h)(k \<mapsto> ?u d)" by auto
    from docs_id[OF d(1)] d show ?thesis by (cases d) auto
  qed
qed

lemma IsAlive_iff:
  assumes "me_hbCls e = Some cls" and "mongo_IsAlive now e n h = (Inr b, h')"
  shows "b \<longleftrightarrow> (\<exists>d. docs h n = Some d \<and> bson_time now \<le> hp_Expires d \<and> hp_IsolationKey d = iso_key e)"
proof -
  let ?f = "\<lambda>d. hp_NodeKey d = n \<and> bson_time now \<le> hp_Expires d \<and> hp_IsolationKey d = iso_key e"
  obtain x where f: "mc_FindOne cls h ?f = (Inr x, h')" and b: "b = (x \<noteq> None)"
    using assms by (auto simp: mongo_IsAlive_def split: sum.splits prod.splits option.splits)
  show ?thesis
  proof (cases x)
    case None
    with FindOne_ok[OF f] have "\<forall>k d. docs h k = Some d \<longrightarrow> \<not> ?f d" by simp
    with None b show ?thesis by (auto dest: docs_id)
  next
    case (Some d)
    with FindOne_ok[OF f] b show ?thesis by auto
  qed
qed

lemma AliveNodes_set:
  assumes "me_hbCls e = Some cls" and "mongo_AliveNodes now e h = (Inr ns, h')"
  shows "set ns = {n. \<exists>d. docs h n = Some d \<and> bson_time now \<le> hp_Expires d \<and> hp_IsolationKey d = iso_key e}"
proof -
  let ?f = "\<lambda>d. bson_time now \<le> hp_Expires d \<and> hp_IsolationKey d = iso_key e"
  obtain ds where f: "mc_Find cls h ?f = (Inr ds, h')" and ns: "ns = map hp_NodeKey ds"
    using assms by (auto simp: mongo_AliveNodes_def split: sum.splits prod.splits)
  have "set ds = {d. ?f d \<and> docs h (hp_NodeKey d) = Some d}" using Find_ok[OF f] by simp
  then show ?thesis using ns docs_id[of h] by (auto simp: image_iff)
qed

end

interpretation memhb: mongo_heartbeats "mem_coll hp_NodeKey" "mem_docs hp_NodeKey"
  by unfold_locales

section \<open>Properties\<close>

definition demo_mopt :: "string \<Rightarrow> string \<Rightarrow> election_option" where
  "demo_mopt n ik = \<lparr>eo_NodeKey = n, eo_KeepHeartbeat = True, eo_UnhealthyTime = 5 * Second,
     eo_Timeout = 2 * Second, eo_IsolationKey = ik, eo_CanElect = None\<rparr>"

definition demo_mnode :: "string \<Rightarrow> string \<Rightarrow> (LeaderPayload list, Payload list) mongo_election" where
  "demo_mnode n ik = \<lparr>me_opt = demo_mopt n ik, me_electCls = mem_coll lp_ID, me_hbCls = Some (mem_coll hp_NodeKey),
     me_leader = initial_leader_state, me_ready = False, me_closed = False\<rparr>"

definition demo_leader :: "string \<Rightarrow> time \<Rightarrow> LeaderPayload" where
  "demo_leader n t = \<lparr>lp_ID = ''leader-jobs'', lp_NodeKey = n, lp_IsolationKey = ''jobs'', lp_Expires = t\<rparr>"

lemma demo_mnode_simps [simp]:
  "me_opt (demo_mnode n ik) = demo_mopt n ik" "me_electCls (demo_mnode n ik) = mem_coll lp_ID"
  "me_hbCls (demo_mnode n ik) = Some (mem_coll hp_NodeKey)" "\<not> me_closed (demo_mnode n ik)"
  "\<not> mongo_IsLeader (demo_mnode n ik)" "eo_NodeKey (demo_mopt n ik) = n" "eo_IsolationKey (demo_mopt n ik) = ik"
  "eo_UnhealthyTime (demo_mopt n ik) = 5 * Second" "may_elect now (demo_mopt n ik)"
  "mongo_leaderKey (demo_mnode n ik) = mongo_buildLeaderKey ik"
  by (simp_all add: demo_mnode_def demo_mopt_def mongo_IsLeader_def initial_leader_state_def may_elect_def
      mongo_leaderKey_def)

lemma demo_mkey [simp]: "mongo_buildLeaderKey ''jobs'' = ''leader-jobs''"
  by (simp add: mongo_buildLeaderKey_def)

lemma demo_mround_empty:
  "mongo_round_start 0 (demo_mnode n ''jobs'') [] = (Inr (LInsert (demo_leader n (5 * Second))), [])"
  by (simp add: mongo_round_start_def mongo_campaign_read_def demo_leader_def)

text \<open>
  An election round on MongoDB is truthful: a node whose round ends with the leader flag set is
  named by the leader document at that moment, whatever other clients did between reading and
  writing; and while the document names another node, is not expired at the round's clock reading
  and is left alone, the round ends without leadership and keeps the holder.
\<close>

theorem mongo_round_truthful:
  assumes "mongo_leaders cls docs" and "me_electCls e = cls" and "leaders_wf docs c"
    and "mongo_runElectionOnce now mid e c = (e', c')"
  shows "(mongo_IsLeader e' \<longrightarrow> mongo_holder docs (iso_key e) c' = Some (nkey e))
    \<and> (\<forall>d. docs c (mongo_leaderKey e) = Some d \<and> lp_NodeKey d \<noteq> nkey e \<and> \<not> bson_time (lp_Expires d) < now
        \<longrightarrow> \<not> mongo_IsLeader e' \<and> mongo_holder docs (iso_key e) c' = Some (lp_NodeKey d))"
proof -
  obtain x c1 where st: "mongo_round_start now e c = (x, c1)" by fastforce
  note rs = mongo_leaders.round_start_cases[OF assms(1-3) st]
  show ?thesis
  proof (cases x)
    case (Inl e1)
    with assms(4) st have eq: "e' = e1" "c' = c1" by (simp_all add: mongo_runElectionOnce_split)
    have "mongo_holder docs (iso_key e) c1 = mongo_holder docs (iso_key e) c"
      using rs unfolding mongo_holder_def by blast
    moreover have "mongo_holder docs (iso_key e) c = Some (lp_NodeKey d)" if "docs c (mongo_leaderKey e) = Some d" for d
      using that by (simp add: mongo_holder_def mongo_leaderKey_def)
    ultimately show ?thesis using rs Inl eq by auto
  next
    case (Inr w)
    with assms(4) st have fin: "mongo_round_finish w e (mid c1) = (e', c')"
      by (simp add: mongo_runElectionOnce_split)
    have ok: "write_ok now e w" and nl: "\<not> mongo_IsLeader e" using rs Inr by blast+
    have none: "docs c (mongo_leaderKey e) = None \<or>
      (\<exists>doc. docs c (mongo_leaderKey e) = Some doc \<and> bson_time (lp_Expires doc) < now)"
    proof (cases w)
      case (LInsert d)
      obtain y c2 where rd: "mongo_campaign_read now e c = (y, c2)" by fastforce
      with st Inr LInsert nl have "y = Inr (LInsert d)"
        by (auto simp: mongo_round_start_def split: if_splits sum.splits)
      with mongo_leaders.campaign_read_cases[OF assms(1-3) rd] show ?thesis
        by (auto simp: mongo_holder_def mongo_leaderKey_def)
    next
      case (LTakeover d t)
      with rs Inr ok show ?thesis by (auto simp: write_ok_def)
    qed
    from mongo_leaders.round_finish_cases[OF assms(1,2) ok fin] nl none show ?thesis by auto
  qed
qed

theorem mongo_round_truthful_witness:
  "let (e', c') = mongo_runElectionOnce 1 id (demo_mnode ''me'' ''jobs'') [demo_leader ''other'' (5 * Second)]
   in \<not> mongo_IsLeader e' \<and> mongo_holder (mem_docs lp_ID) ''jobs'' c' = Some ''other''"
proof -
  let ?c = "[demo_leader ''other'' (5 * Second)]"
  obtain e' c' where run: "mongo_runElectionOnce 1 id (demo_mnode ''me'' ''jobs'') ?c = (e', c')" by fastforce
  have wf: "leaders_wf (mem_docs lp_ID) ?c" by (simp add: leaders_wf_def demo_leader_def)
  from mongo_round_truthful[OF memld.mongo_leaders_axioms _ wf run]
  have "\<not> mongo_IsLeader e' \<and> mongo_holder (mem_docs lp_ID) ''jobs'' c' = Some ''other''"
    by (simp add: demo_leader_def bson_time_def)
  with run show ?thesis by simp
qed

text \<open>
  Heartbeats on MongoDB: the nodes \<open>AliveNodes\<close> returns are exactly those \<open>IsAlive\<close> answers yes
  for at the same moment, namely those with an unexpired heartbeat document of the domain; and after
  a heartbeat succeeded, the node is alive at any moment of the lease.
\<close>

theorem mongo_heartbeat_alive:
  assumes "mongo_heartbeats cls docs" and "me_hbCls e = Some cls"
    and "mongo_heartBeat now e h = (None, h1)" and "mongo_AliveNodes now' e h1 = (Inr ns, h2)"
    and "mongo_IsAlive now' e n h1 = (Inr b, h3)"
  shows "(b \<longleftrightarrow> n \<in> set ns) \<and> (now' \<le> now + eo_UnhealthyTime (me_opt e) \<longrightarrow> nkey e \<in> set ns)"
proof -
  have "bson_time now' \<le> bson_time (now + eo_UnhealthyTime (me_opt e))"
    if "now' \<le> now + eo_UnhealthyTime (me_opt e)"
    using that by (simp add: bson_time_def zdiv_mono1)
  then show ?thesis
    using mongo_heartbeats.IsAlive_iff[OF assms(1,2,5)] mongo_heartbeats.AliveNodes_set[OF assms(1,2,4)]
      mongo_heartbeats.heartBeat_stored[OF assms(1-3)]
    by auto
qed

theorem mongo_heartbeat_alive_witness:
  "\<exists>h1 ns h2. mongo_heartBeat 0 (demo_mnode ''me'' ''jobs'') [] = (None, h1)
     \<and> mongo_AliveNodes (3 * Second) (demo_mnode ''me'' ''jobs'') h1 = (Inr ns, h2) \<and> ''me'' \<in> set ns"
proof -
  let ?e = "demo_mnode ''me'' ''jobs''"
  obtain h1 where hb: "mongo_heartBeat 0 ?e [] = (None, h1)" by (simp add: mongo_heartBeat_def Let_def)
  obtain ns h2 where an: "mongo_AliveNodes (3 * Second) ?e h1 = (Inr ns, h2)" by (simp add: mongo_AliveNodes_def)
  obtain b h3 where ia: "mongo_IsAlive (3 * Second) ?e ''me'' h1 = (Inr b, h3)"
    by (cases "mongo_IsAlive (3 * Second) ?e ''me'' h1") (auto simp: mongo_IsAlive_def split: option.splits)
  from mongo_heartbeat_alive[OF memhb.mongo_heartbeats_axioms _ hb an ia] hb an show ?thesis by auto
qed

text \<open>
  Heartbeats of different domains share documents: the document of a heartbeat is found by the
  node key alone, so a node key that is used in two domains is alive only in the domain of its last
  heartbeat.
\<close>

theorem mongo_heartbeat_domains_overwrite:
  "let a = demo_mnode ''node-1'' ''billing''; b = demo_mnode ''node-1'' ''search'';
       h1 = snd (mongo_heartBeat 0 a []); h2 = snd (mongo_heartBeat 1 b h1)
   in fst (mongo_IsAlive 2 a ''node-1'' h1) = Inr True \<and> fst (mongo_IsAlive 2 a ''node-1'' h2) = Inr False"
  by (simp add: mongo_heartBeat_def mongo_IsAlive_def Let_def bson_time_def)

text \<open>
  A node that finds its own leader document, even an expired one, becomes leader without renewing
  it: another node's next round then takes the document over, and both report to be leader.
\<close>

theorem mongo_two_leaders_after_restart:
  "let (ea, c1) = mongo_runElectionOnce (6 * Second) id (demo_mnode ''a'' ''jobs'') [demo_leader ''a'' (5 * Second)];
       (eb, c2) = mongo_runElectionOnce (6 * Second + 1) id (demo_mnode ''b'' ''jobs'') c1
   in mongo_IsLeader ea \<and> mongo_IsLeader eb \<and> mongo_holder (mem_docs lp_ID) ''jobs'' c2 = Some ''b''"
  by (simp add: mongo_runElectionOnce_def mongo_elect_def mongo_campaign_def mongo_campaign_read_def
      mongo_campaign_write_def demo_leader_def bson_leader_def bson_time_def take_leader_def mongo_holder_def Let_def)

end
