(* ===== verification/Mongo_Atomic.thy ===== *)
theory Mongo_Atomic
  imports Mongo_Mutex Mongo_Random Mongo_Elect
begin

text \<open>
  \<open>dkit/mongo/mongo.go\<close>: the \<open>Atomic\<close> of the MongoDB backend. A database hands out the collections
  the code uses by name, one per kind of document; their states form the record \<open>mongo_world\<close>.
\<close>

record ('m, 'r, 'c, 'h) mongo_db =
  db_mutex :: "string \<Rightarrow> ('m, LockDetail) mongo_coll"
  db_random :: "string \<Rightarrow> ('r, RandInfo) mongo_coll"
  db_elect :: "string \<Rightarrow> ('c, LeaderPayload) mongo_coll"
  db_heartbeat :: "string \<Rightarrow> ('h, Payload) mongo_coll"

record ('m, 'r, 'c, 'h) mongo_world =
  w_mutex :: 'm
  w_random :: 'r
  w_elect :: 'c
  w_heartbeat :: 'h

record ('m, 'r, 'c, 'h) mongo_builder =
  mb_defaultTTL :: duration
  mb_mongoDB :: "('m, 'r, 'c, 'h) mongo_db option"
  mb_prefix :: string

type_synonym ('m, 'r, 'c, 'h) mongo_builder_op =
  "(('m, 'r, 'c, 'h) mongo_builder \<Rightarrow> ('m, 'r, 'c, 'h) mongo_builder) option"

definition mongo_NewBuilderOption :: "('m, 'r, 'c, 'h) mongo_builder" where
  "mongo_NewBuilderOption = \<lparr>mb_defaultTTL = DefaultLockTTL, mb_mongoDB = None, mb_prefix = ''dkit''\<rparr>"

definition mongo_TTL :: "duration \<Rightarrow> ('m, 'r, 'c, 'h) mongo_builder_op" where
  "mongo_TTL ttl = Some (\<lambda>opt. if ttl > 0 then opt\<lparr>mb_defaultTTL := ttl\<rparr> else opt)"

definition mongo_Database :: "('m, 'r, 'c, 'h) mongo_db option \<Rightarrow> ('m, 'r, 'c, 'h) mongo_builder_op" where
  "mongo_Database db = Some (\<lambda>opt. opt\<lparr>mb_mongoDB := db\<rparr>)"

definition mongo_CollectionPrefix :: "string \<Rightarrow> ('m, 'r, 'c, 'h) mongo_builder_op" where
  "mongo_CollectionPrefix p = Some (\<lambda>opt. if p \<noteq> [] then opt\<lparr>mb_prefix := p\<rparr> else opt)"

record ('m, 'r, 'c, 'h, 'g) mongo_atomic =
  ma_randomImpl :: "('r, 'g) mongo_random"
  ma_mutexImpl :: "'m mongo_mutex_impl"
  ma_electImpl :: "('c, 'h) mongo_election option"
  ma_opt :: "('m, 'r, 'c, 'h) mongo_builder"

definition mongo_mutex_Init :: "'m mongo_mutex_impl \<Rightarrow> 'm \<Rightarrow> go_error option \<times> 'm" where
  "mongo_mutex_Init impl m = ensureTTLIndex (mmi_cls impl) m"

definition mongo_random_Init ::
    "'g go_rand \<Rightarrow> time \<Rightarrow> ('r, 'g) mongo_random \<Rightarrow> 'r \<Rightarrow> go_error option \<times> ('r, 'g) mongo_random \<times> 'r" where
  "mongo_random_Init R now impl r =
     (case ensureTTLIndex (mr_cls impl) r of (e, r) \<Rightarrow> (e, impl\<lparr>mr_r := Some (rand_New R now)\<rparr>, r))"

definition mongo_NewAtomic ::
    "'g go_rand \<Rightarrow> time \<Rightarrow> ('m, 'r, 'c, 'h) mongo_builder_op list \<Rightarrow> ('m, 'r, 'c, 'h) mongo_world
       \<Rightarrow> ('m, 'r, 'c, 'h, 'g) mongo_atomic result \<times> ('m, 'r, 'c, 'h) mongo_world" where
  "mongo_NewAtomic R now ops w =
     (let opt = apply_ops ops mongo_NewBuilderOption in
      case mb_mongoDB opt of
        None \<Rightarrow> (Inl (WrapError [] ErrInvalidOption '': mongo database is nil''), w)
      | Some db \<Rightarrow>
          let mutexImpl = mongo_NewMutexImpl (Some (db_mutex db (mb_prefix opt @ ''_mutex''))) (mb_defaultTTL opt);
              randomImpl = mongo_NewRandomNumberImpl (Some (db_random db (mb_prefix opt @ ''_random'')))
          in case mongo_mutex_Init mutexImpl (w_mutex w) of
               (Some e, m) \<Rightarrow> (Inl e, w\<lparr>w_mutex := m\<rparr>)
             | (None, m) \<Rightarrow>
                 (case mongo_random_Init R now randomImpl (w_random w) of
                    (Some e, impl, r) \<Rightarrow> (Inl e, w\<lparr>w_mutex := m, w_random := r\<rparr>)
                  | (None, randomImpl, r) \<Rightarrow>
                      (Inr \<lparr>ma_randomImpl = randomImpl, ma_mutexImpl = mutexImpl, ma_electImpl = None, ma_opt = opt\<rparr>,
                       w\<lparr>w_mutex := m, w_random := r\<rparr>)))"

definition NewMongoAtomic ::
    "'g go_rand \<Rightarrow> time \<Rightarrow> ('m, 'r, 'c, 'h) mongo_builder_op list \<Rightarrow> ('m, 'r, 'c, 'h) mongo_world
       \<Rightarrow> ('m, 'r, 'c, 'h, 'g) mongo_atomic result \<times> ('m, 'r, 'c, 'h) mongo_world" where
  "NewMongoAtomic R now ops w = mongo_NewAtomic R now ops w"

definition mongo_atomic_NodeKey :: "('m, 'r, 'c, 'h, 'g) mongo_atomic \<Rightarrow> string" where
  "mongo_atomic_NodeKey at = (case ma_electImpl at of None \<Rightarrow> [] | Some e \<Rightarrow> mongo_NodeKey (Some (me_opt e)))"

definition mongo_EnableElection ::
    "time \<Rightarrow> ('c \<Rightarrow> 'c) \<Rightarrow> election_option option \<Rightarrow> ('m, 'r, 'c, 'h, 'g) mongo_atomic \<Rightarrow> ('m, 'r, 'c, 'h) mongo_world
       \<Rightarrow> go_error option \<times> ('m, 'r, 'c, 'h, 'g) mongo_atomic \<times> ('m, 'r, 'c, 'h) mongo_world" where
  "mongo_EnableElection now mid opt at w =
     (case mb_mongoDB (ma_opt at) of
        None \<Rightarrow> (Some (WrapError [] ErrInvalidOption '': mongo database is nil''), at, w)
      | Some db \<Rightarrow>
          if ma_electImpl at \<noteq> None
          then (Some (WrapError [] ErrInvalidOption '': election already enabled''), at, w)
          else
            let p = mb_prefix (ma_opt at) in
            (case mongo_election_Init now mid
                    (mongo_NewElectionImpl opt (Some (db_elect db (p @ ''_elect'')))
                       (Some (db_heartbeat db (p @ ''_heartbeat'')))) (w_elect w, w_heartbeat w) of
               (Inl e, c, h) \<Rightarrow> (Some e, at, w\<lparr>w_elect := c, w_heartbeat := h\<rparr>)
             | (Inr el, c, h) \<Rightarrow> (None, at\<lparr>ma_electImpl := Some el\<rparr>, w\<lparr>w_elect := c, w_heartbeat := h\<rparr>)))"

definition mongo_atomic_IsLeader :: "('m, 'r, 'c, 'h, 'g) mongo_atomic \<Rightarrow> bool" where
  "mongo_atomic_IsLeader at = (case ma_electImpl at of None \<Rightarrow> False | Some e \<Rightarrow> mongo_IsLeader e)"

definition mongo_atomic_AliveNodes ::
    "time \<Rightarrow> ('m, 'r, 'c, 'h, 'g) mongo_atomic \<Rightarrow> 'h \<Rightarrow> string list result \<times> 'h" where
  "mongo_atomic_AliveNodes now at h =
     (case ma_electImpl at of None \<Rightarrow> (Inl ErrElectionNotEnabled, h) | Some e \<Rightarrow> mongo_AliveNodes now e h)"

definition mongo_atomic_IsAlive ::
    "time \<Rightarrow> ('m, 'r, 'c, 'h, 'g) mongo_atomic \<Rightarrow> string \<Rightarrow> 'h \<Rightarrow> bool result \<times> 'h" where
  "mongo_atomic_IsAlive now at nodeKey h =
     (case ma_electImpl at of None \<Rightarrow> (Inl ErrElectionNotEnabled, h) | Some e \<Rightarrow> mongo_IsAlive now e nodeKey h)"

definition mongo_atomic_Close ::
    "('m, 'r, 'c, 'h, 'g) mongo_atomic \<Rightarrow> ('m, 'r, 'c, 'h) mongo_world
       \<Rightarrow> ('m, 'r, 'c, 'h, 'g) mongo_atomic \<times> ('m, 'r, 'c, 'h) mongo_world" where
  "mongo_atomic_Close at w =
     (case ma_electImpl at of
        None \<Rightarrow> (at\<lparr>ma_electImpl := None\<rparr>, w)
      | Some e \<Rightarrow>
          (case mongo_Close e (w_elect w, w_heartbeat w) of
             (e, c, h) \<Rightarrow> (at\<lparr>ma_electImpl := None\<rparr>, w\<lparr>w_elect := c, w_heartbeat := h\<rparr>)))"

definition mongo_atomic_GetUniqueRandomNumber ::
    "'g go_rand \<Rightarrow> time \<Rightarrow> time \<Rightarrow> 'r claim_env \<Rightarrow> int \<Rightarrow> ('m, 'r, 'c, 'h, 'g) mongo_atomic \<Rightarrow> 'r
       \<Rightarrow> int result \<times> ('m, 'r, 'c, 'h, 'g) mongo_atomic \<times> 'r" where
  "mongo_atomic_GetUniqueRandomNumber R seed now E mx at r =
     (case mongo_GetUniqueRandomNumber R seed now E mx (ma_randomImpl at) r of
        (res, impl, r) \<Rightarrow> (res, at\<lparr>ma_randomImpl := impl\<rparr>, r))"

definition mongo_atomic_NewMutex :: "('m, 'r, 'c, 'h, 'g) mongo_atomic \<Rightarrow> string \<Rightarrow> 'm mongo_mutex" where
  "mongo_atomic_NewMutex at key = mongo_NewMutex (ma_mutexImpl at) key"

definition mongo_atomic_GetMutexDefaultTTL :: "('m, 'r, 'c, 'h, 'g) mongo_atomic \<Rightarrow> duration" where
  "mongo_atomic_GetMutexDefaultTTL at = mongo_GetMutexDefaultTTL (ma_mutexImpl at)"

section \<open>What the parts share\<close>

lemma mongo_NewAtomic_parts:
  assumes "mongo_NewAtomic R now ops w = (Inr at, w')"
  shows "\<exists>db. mb_mongoDB (ma_opt at) = Some db \<and> ma_electImpl at = None
     \<and> mongo_fresh (db_mutex db (mb_prefix (ma_opt at) @ ''_mutex'')) (mongo_atomic_NewMutex at key)
     \<and> mm_key (mongo_atomic_NewMutex at key) = key
     \<and> 0 < mongo_atomic_GetMutexDefaultTTL at
     \<and> mr_cls (ma_randomImpl at) = Some (db_random db (mb_prefix (ma_opt at) @ ''_random''))"
  using assms
  by (auto simp: mongo_NewAtomic_def Let_def mongo_fresh_def mongo_atomic_NewMutex_def mongo_NewMutex_def
      mongo_NewMutexImpl_def mongo_atomic_GetMutexDefaultTTL_def mongo_GetMutexDefaultTTL_def
      mongo_random_Init_def mongo_NewRandomNumberImpl_def split: option.splits prod.splits)

lemma mongo_EnableElection_once:
  assumes "mongo_EnableElection now mid opt at w = (None, at1, w1)"
  shows "ma_electImpl at = None \<and> ma_electImpl at1 \<noteq> None
    \<and> (\<exists>e. mongo_EnableElection now2 mid2 opt2 at1 w2 = (Some e, at1, w2) \<and> errors_Is (=) e ErrInvalidOption)
    \<and> (\<forall>at2 w3. mongo_atomic_Close at1 w2 = (at2, w3) \<longrightarrow> \<not> mongo_atomic_IsLeader at2 \<and> mongo_atomic_NodeKey at2 = [])"
  using assms
  by (auto simp: mongo_EnableElection_def Let_def mongo_atomic_Close_def mongo_atomic_IsLeader_def
      mongo_atomic_NodeKey_def split: option.splits prod.splits sum.splits if_splits)

end
