(* ===== verification/Kit_Backends.thy ===== *)
theory Kit_Backends
  imports Dkit_Kit Redis_Atomic Mongo_Atomic
begin

text \<open>
  The kit on its two backends: the operations of \<open>Atomic\<close> and \<open>DistributedMutex\<close> that the kit
  calls, as provided by the Redis and the MongoDB implementation, meet what the kit relies on.
  The properties are those of the lock helpers and of identifiers of several kits on one backend.

  The record of operations is that of one call: the clock readings, what other clients do, and the
  wake-ups of a blocked \<open>Lock\<close> (which depend on the context it is given) are fixed in it. A kit draws
  one number in its life, when it is created, so the state of the random generator after
  that draw is not kept.
\<close>

section \<open>Redis\<close>

definition redis_ops ::
    "'g go_rand \<Rightarrow> time \<Rightarrow> ('x ctx \<Rightarrow> nat \<Rightarrow> go_error option) \<Rightarrow> (nat \<Rightarrow> 'r \<Rightarrow> 'r) \<Rightarrow> ('r \<Rightarrow> 'r) \<Rightarrow> ('x ctx \<Rightarrow> 'r wake list)
       \<Rightarrow> ('r, 'g) redis_atomic \<Rightarrow> ('x, 'r redis_mutex, 64 word \<times> 'r) atomic_ops" where
  "redis_ops R now ctxdone env mid wks at = \<lparr>
     a_GetUniqueRandomNumber = (\<lambda>c mx w.
       case atomic_GetUniqueRandomNumber R now (ctxdone c) env mx at (snd w) of (res, at', r) \<Rightarrow> (res, fst w, r)),
     a_NewMutex = (\<lambda>key. Some (atomic_NewMutex at key)),
     a_GetMutexDefaultTTL = atomic_GetMutexDefaultTTL at,
     a_TryLock = (\<lambda>c. redis_TryLock now mid []),
     a_Lock = (\<lambda>c. redis_Lock now mid [] (wks c)),
     a_Unlock = (\<lambda>c. redis_Unlock)\<rparr>"

lemma redis_ops_simps [simp]:
  "a_NewMutex (redis_ops R now ctxdone env mid wks at) key = Some (atomic_NewMutex at key)"
  "a_TryLock (redis_ops R now ctxdone env mid wks at) c = redis_TryLock now mid []"
  "a_Lock (redis_ops R now ctxdone env mid wks at) c = redis_Lock now mid [] (wks c)"
  "a_Unlock (redis_ops R now ctxdone env mid wks at) c = redis_Unlock"
  by (simp_all add: redis_ops_def)

definition redis_bound :: "string \<Rightarrow> 'r redis_mutex \<Rightarrow> string \<Rightarrow> bool" where
  "redis_bound p m key \<longleftrightarrow> rm_redisKey m = buildMutexKey p key"

text \<open>No operation changes the key an instance is bound to.\<close>

lemma redis_tryLock_key: "redis_tryLock now mid opt m w = (res, m', w') \<Longrightarrow> rm_redisKey m' = rm_redisKey m"
  by (auto simp: redis_tryLock_whole Let_def
      split: option.splits prod.splits sum.splits bool.splits if_splits)

lemma redis_TryLock_key: "redis_TryLock now mid ops m w = (res, m', w') \<Longrightarrow> rm_redisKey m' = rm_redisKey m"
  by (auto simp: redis_TryLock_def Let_def split: option.splits prod.splits dest: redis_tryLock_key)

lemma redis_Lock_loop_key:
  "redis_Lock_loop opt wks m w = Some (res, m', w') \<Longrightarrow> rm_redisKey m' = rm_redisKey m"
  by (induction opt wks m w rule: redis_Lock_loop.induct)
    (auto simp: Let_def split: lock_event.splits option.splits prod.splits if_splits dest: redis_tryLock_key)

lemma redis_Lock_key: "redis_Lock now mid ops wks m w = Some (res, m', w') \<Longrightarrow> rm_redisKey m' = rm_redisKey m"
  by (auto simp: redis_Lock_def Let_def split: option.splits prod.splits if_splits
      dest!: redis_tryLock_key redis_Lock_loop_key)

locale redis_backend = redis_server cli live
  for cli :: "'r redis_client" and live :: "'r \<Rightarrow> string \<Rightarrow> string option" +
  fixes at :: "('r, 'g) redis_atomic"
  assumes at_client: "mi_redisCli (at_mutexImpl at) = Some cli"
begin

lemma redis_Lock_owns:
  assumes "redis_fresh cli m" and "redis_Lock now mid ops wks m w = Some (None, m', w')"
  shows "redis_owns cli live m' w'"
proof -
  let ?opt = "NewLockOption (rm_defaultTTL m) ops"
  obtain e m1 w1 where t: "redis_tryLock now mid ?opt m w = (e, m1, w1)" by (metis prod_cases3)
  from redis_tryLock_fresh[OF assms(1) t] show ?thesis
  proof
    assume "m1 = m"
    with assms t have "e = None" "redis_Lock_loop ?opt wks m w1 = Some (None, m', w')"
      by (auto simp: redis_Lock_def redis_fresh_def split: option.splits)
    from redis_Lock_loop_owns[OF assms(1) this(2)] show ?thesis .
  qed (use assms(2) t in \<open>auto simp: redis_Lock_def redis_owns_def\<close>)
qed

end

sublocale redis_backend \<subseteq> rkit: mutex_factory
  "redis_ops R now ctxdone env mid wks at" "redis_fresh cli" "redis_owns cli live" "redis_free live"
  "redis_bound (mi_keyPrefix (at_mutexImpl at))"
  for R :: "'g go_rand" and now :: time and ctxdone :: "'x ctx \<Rightarrow> nat \<Rightarrow> go_error option"
    and env :: "nat \<Rightarrow> 'r \<Rightarrow> 'r" and mid :: "'r \<Rightarrow> 'r" and wks :: "'x ctx \<Rightarrow> 'r wake list"
proof (intro mutex_factory.intro, goal_cases)
  case (1 c)
  show ?case by (simp add: rmutex.distributed_mutex_axioms)
next
  case (2 key m)
  with at_client show ?case
    by (auto simp: redis_fresh_def redis_bound_def atomic_NewMutex_def redis_NewMutex_def)
next
  case (3 m key c s res m' s')
  then show ?case by (auto simp: redis_bound_def dest: redis_TryLock_key)
next
  case (4 m key c s m' s')
  then show ?case by (auto simp: redis_bound_def dest: redis_Lock_key redis_Lock_owns)
next
  case (5 m s0 c s m' s')
  then have "redis_Unlock m s = (None, m', s')" "rm_redisCli m = Some cli" "rm_lockValue m \<noteq> []"
    by (simp_all add: redis_owns_def)
  with redis_Unlock_cases[of m s None m' s'] show ?case
    by (auto simp: redis_owns_def redis_free_def split: if_splits)
qed

context redis_backend
begin

lemmas redis_try_do = rkit.try_do
lemmas redis_wait_do = rkit.wait_do

end

section \<open>MongoDB\<close>

definition mongo_ops ::
    "'g go_rand \<Rightarrow> time \<Rightarrow> time \<Rightarrow> ('x ctx \<Rightarrow> 'r claim_env) \<Rightarrow> ('m \<Rightarrow> 'm) \<Rightarrow> ('x ctx \<Rightarrow> 'm mongo_wake list)
       \<Rightarrow> ('m, 'r, 'c, 'h, 'g) mongo_atomic \<Rightarrow> ('x, 'm mongo_mutex, 'm \<times> 'r) atomic_ops" where
  "mongo_ops R now1 now2 E mid wks at = \<lparr>
     a_GetUniqueRandomNumber = (\<lambda>c mx w.
       case mongo_atomic_GetUniqueRandomNumber R now1 now2 (E c) mx at (snd w) of (res, at', r) \<Rightarrow> (res, fst w, r)),
     a_NewMutex = (\<lambda>key. Some (mongo_atomic_NewMutex at key)),
     a_GetMutexDefaultTTL = mongo_atomic_GetMutexDefaultTTL at,
     a_TryLock = (\<lambda>c m w. case mongo_TryLock now1 now2 mid [] m (fst w) of (res, m', c') \<Rightarrow> (res, m', c', snd w)),
     a_Lock = (\<lambda>c m w.
       case mongo_Lock now1 now2 mid [] (wks c) m (fst w) of
         None \<Rightarrow> None
       | Some (e, m', c') \<Rightarrow> Some (e, m', c', snd w)),
     a_Unlock = (\<lambda>c m w. case mongo_Unlock m (fst w) of (e, m', c') \<Rightarrow> (e, m', c', snd w))\<rparr>"

definition mongo_bound :: "'m mongo_mutex \<Rightarrow> string \<Rightarrow> bool" where
  "mongo_bound m key \<longleftrightarrow> mm_key m = key"

lemma mongo_tryLock_key: "mongo_tryLock now1 now2 mid opt m c = (res, m', c') \<Longrightarrow> mm_key m' = mm_key m"
  by (auto simp: mongo_tryLock_def mongo_try_read_def mongo_try_write_def Let_def
      split: option.splits prod.splits sum.splits bool.splits if_splits lock_write.splits)

lemma mongo_TryLock_key: "mongo_TryLock now1 now2 mid ops m c = (res, m', c') \<Longrightarrow> mm_key m' = mm_key m"
  by (auto simp: mongo_TryLock_def Let_def split: option.splits prod.splits dest: mongo_tryLock_key)

lemma mongo_Lock_loop_key: "mongo_Lock_loop opt wks m c = Some (res, m', c') \<Longrightarrow> mm_key m' = mm_key m"
  by (induction opt wks m c rule: mongo_Lock_loop.induct)
    (auto simp: Let_def split: lock_event.splits option.splits prod.splits if_splits dest: mongo_tryLock_key)

lemma mongo_Lock_key: "mongo_Lock now1 now2 mid ops wks m c = Some (res, m', c') \<Longrightarrow> mm_key m' = mm_key m"
  by (auto simp: mongo_Lock_def Let_def split: option.splits prod.splits if_splits
      dest!: mongo_tryLock_key mongo_Lock_loop_key)

text \<open>The contract of the mutex, on the first component of the state.\<close>

definition on_fst :: "('a \<Rightarrow> 'b \<Rightarrow> 'c) \<Rightarrow> 'a \<Rightarrow> 'b \<times> 'd \<Rightarrow> 'c" where
  "on_fst f a w = f a (fst w)"

locale mongo_backend = mongo_lock cls docs
  for cls :: "('m, LockDetail) mongo_coll" and docs :: "'m \<Rightarrow> string \<Rightarrow> LockDetail option" +
  fixes at :: "('m, 'r, 'c, 'h, 'g) mongo_atomic"
  assumes at_cls: "mmi_cls (ma_mutexImpl at) = Some cls"
begin

lemma mongo_Lock_owns:
  assumes "mongo_fresh cls m" and "mongo_Lock now1 now2 mid ops wks m c = Some (None, m', c')"
  shows "mongo_owns cls docs m' c'"
proof -
  let ?opt = "NewLockOption (mm_defaultTTL m) ops"
  obtain e m1 c1 where t: "mongo_tryLock now1 now2 mid ?opt m c = (e, m1, c1)" by (metis prod_cases3)
  from mongo_tryLock_fresh[OF assms(1) t] show ?thesis
  proof
    assume "m1 = m"
    with assms t have "e = None" "mongo_Lock_loop ?opt wks m c1 = Some (None, m', c')"
      by (auto simp: mongo_Lock_def mongo_fresh_def split: option.splits)
    from mongo_Lock_loop_owns[OF assms(1) this(2)] show ?thesis .
  qed (use assms(2) t in \<open>auto simp: mongo_Lock_def mongo_owns_def\<close>)
qed

lemma mongo_ops_mutex:
  "distributed_mutex (a_TryLock (mongo_ops R now1 now2 E mid wks at) c) (a_Unlock (mongo_ops R now1 now2 E mid wks at) c)
     (mongo_fresh cls) (on_fst (mongo_owns cls docs)) (on_fst (mongo_free docs))"
proof (intro distributed_mutex.intro, goal_cases)
  case (1 m s m' s')
  then show ?case
    by (auto simp: mongo_ops_def on_fst_def split: prod.splits dest: mmutex.trylock_acquired)
next
  case (2 m s m' s')
  then show ?case by (auto simp: mongo_ops_def split: prod.splits dest: mmutex.trylock_refused)
next
  case (3 m s e m' s')
  then show ?case by (auto simp: mongo_ops_def split: prod.splits dest: mmutex.trylock_error)
next
  case (4 m s m' s')
  then show ?case by (auto simp: mongo_ops_def on_fst_def split: prod.splits dest: mmutex.unlock_released)
next
  case (5 m s)
  then show ?case by (auto simp: on_fst_def dest: mmutex.owned_not_free)
next
  case (6 m s)
  then have "fst (mongo_Unlock m (fst s)) \<noteq> Some ErrAlreadyUnlocked"
    by (auto simp: on_fst_def dest: mmutex.unlock_owned)
  then show ?case by (cases "mongo_Unlock m (fst s)") (auto simp: mongo_ops_def)
next
  case (7 m s)
  then show ?case by (simp add: mongo_ops_def mmutex.unlock_unheld)
qed

end

sublocale mongo_backend \<subseteq> mkit: mutex_factory
  "mongo_ops R now1 now2 E mid wks at" "mongo_fresh cls" "on_fst (mongo_owns cls docs)" "on_fst (mongo_free docs)"
  mongo_bound
  for R :: "'g go_rand" and now1 :: time and now2 :: time and E :: "'x ctx \<Rightarrow> 'r claim_env"
    and mid :: "'m \<Rightarrow> 'm" and wks :: "'x ctx \<Rightarrow> 'm mongo_wake list"
proof (intro mutex_factory.intro, goal_cases)
  case (1 c)
  show ?case by (rule mongo_ops_mutex)
next
  case (2 key m)
  with at_cls show ?case
    by (auto simp: mongo_ops_def mongo_fresh_def mongo_bound_def mongo_atomic_NewMutex_def mongo_NewMutex_def)
next
  case (3 m key c s res m' s')
  then show ?case by (auto simp: mongo_ops_def mongo_bound_def split: prod.splits dest: mongo_TryLock_key)
next
  case (4 m key c s m' s')
  then show ?case
    by (auto simp: mongo_ops_def mongo_bound_def on_fst_def split: prod.splits option.splits
        dest: mongo_Lock_key mongo_Lock_owns)
next
  case (5 m s0 c s m' s')
  then obtain ld c' where un: "mongo_Unlock m (fst s) = (None, m', c')" "mm_mongoCls m = Some cls"
      "mm_lockDetail m = Some ld" "s' = (c', snd s)"
    by (auto simp: mongo_ops_def on_fst_def mongo_owns_def split: prod.splits)
  from mongo_Unlock_cases[OF un(2,3,1)] un(4) show ?case by (auto simp: on_fst_def mongo_free_def)
qed

context mongo_backend
begin

lemmas mongo_try_do = mkit.try_do
lemmas mongo_wait_do = mkit.wait_do

end

section \<open>Machine numbers\<close>

lemma redis_ops_number:
  assumes "a_GetUniqueRandomNumber (redis_ops R now ctxdone env mid wks at) c mx w = (res, w')"
  shows "redis_alloc R \<lparr>ac_now = now, ac_done = ctxdone c, ac_env = env, ac_max = mx, ac_impl = at_randomImpl at\<rparr> (snd w)
    = (res, snd w')"
  using assms
  by (auto simp: redis_ops_def redis_alloc_def atomic_GetUniqueRandomNumber_def split: prod.splits)

section \<open>Properties\<close>

text \<open>An \<open>Atomic\<close> on the reference server, a kit on it, and a Sonyflake that counts.\<close>

definition demo_at :: "(mem_server, unit) redis_atomic" where
  "demo_at = \<lparr>at_randomImpl = NewRandomNumberImpl (Some mem_client) ''dkit'',
     at_mutexImpl = NewMutexImpl (Some mem_client) ''dkit'' (30 * Second), at_electImpl = None,
     at_opt = \<lparr>bo_defaultTTL = 30 * Second, bo_redisCli = Some mem_client, bo_keyPrefix = ''dkit''\<rparr>\<rparr>"

definition demo_ops :: "(unit, mem_server redis_mutex, 64 word \<times> mem_server) atomic_ops" where
  "demo_ops = redis_ops demo_rand 7 (\<lambda>c i. None) (\<lambda>i r. r) (\<lambda>r. r) (\<lambda>c. []) demo_at"

definition demo_sf :: "(16 word \<times> nat) sonyflake" where
  "demo_sf = \<lparr>sf_New = (\<lambda>t num. Some (num, 0)),
     sf_NextID = (\<lambda>(num, n). if n < 2 ^ 47 then (Inr (of_nat (n * 65536 + unat num)), (num, Suc n))
                             else (Inl (OpaqueError ''over the time limit''), (num, n)))\<rparr>"

definition demo_kit :: "(unit, mem_server redis_mutex, 64 word \<times> mem_server, 16 word \<times> nat) defaultKit" where
  "demo_kit = \<lparr>k_Atomic = demo_ops, k_ins = (3, 0)\<rparr>"

interpretation demo_backend: redis_backend mem_client mem_live demo_at
  by unfold_locales (simp add: demo_at_def NewMutexImpl_def)

lemma demo_try_run:
  "\<exists>w'. MutexCtxTryDo demo_kit None ''job'' (Some (\<lambda>c s. (Returns None, s))) (0, demo_server) = (Returns (True, None), w')"
  by (simp add: MutexCtxTryDo_def demo_kit_def demo_ops_def run_locked_def redis_TryLock_def redis_tryLock_whole
      redis_Unlock_def deleteIfValueScript_def demo_at_def atomic_NewMutex_def redis_NewMutex_def NewMutexImpl_def
      nextLockValue_def mem_client_def Let_def join_unlock_def deferred_end_def)

definition demo_mat :: "(LockDetail list, unit, unit, unit, unit) mongo_atomic" where
  "demo_mat = \<lparr>ma_randomImpl = mongo_NewRandomNumberImpl None,
     ma_mutexImpl = mongo_NewMutexImpl (Some (mem_coll ld_Key)) (30 * Second), ma_electImpl = None,
     ma_opt = mongo_NewBuilderOption\<rparr>"

interpretation demo_mbackend: mongo_backend "mem_coll ld_Key" "mem_docs ld_Key" demo_mat
  by unfold_locales (simp add: demo_mat_def mongo_NewMutexImpl_def)

definition demo_claims :: "unit claim_env" where
  "demo_claims = \<lparr>ce_done = (\<lambda>i. None), ce_clock = (\<lambda>i. 0), ce_env = (\<lambda>i c. c), ce_mid = (\<lambda>i c. c)\<rparr>"

definition demo_mkit :: "(unit, LockDetail list mongo_mutex, LockDetail list \<times> unit, unit) defaultKit" where
  "demo_mkit = \<lparr>k_Atomic = mongo_ops demo_rand 7 7 (\<lambda>c. demo_claims) (\<lambda>c. c) (\<lambda>c. []) demo_mat, k_ins = ()\<rparr>"

lemma demo_wait_run:
  "\<exists>w'. MutexCtxDo demo_mkit None ''job'' (Some (\<lambda>c s. (Returns None, s))) ([], ()) = Some (Returns None, w')"
proof -
  have "map_option fst (MutexCtxDo demo_mkit None ''job'' (Some (\<lambda>c s. (Returns None, s))) ([], ())) = Some (Returns None)"
    by code_simp
  then show ?thesis by (cases "MutexCtxDo demo_mkit None ''job'' (Some (\<lambda>c s. (Returns None, s))) ([], ())") auto
qed

text \<open>
  C10. Running an action under a Redis lock without waiting (\<open>MutexCtxTryDo\<close>): either the lock was not
  obtained and the action did not run, the result being the same for every action; or the action
  ran exactly once, starting on a state in which the lock of the key was owned, \<open>Unlock\<close> was then called
  once, even if the action failed or panicked, and the result reports the action's end joined with
  the error of the release. When the release succeeded the lock was still owned at the end of the
  action and the key is free. (The lease can end while the action runs; the release then fails.)
\<close>

theorem kit_redis_try_section:
  assumes "redis_server c lv" and "mi_redisCli (at_mutexImpl at) = Some c"
    and "k_Atomic d = redis_ops R now ctxdone env mid wks at"
    and "MutexCtxTryDo d ctx key (Some act) w = (res, w')"
  shows "(\<exists>err. res = Returns (False, err) \<and> (\<forall>act'. MutexCtxTryDo d ctx key (Some act') w = (res, w')))
    \<or> (\<exists>r. section_ran (k_Atomic d) (redis_owns c lv) (redis_free lv) (redis_bound (mi_keyPrefix (at_mutexImpl at)))
             (or_background ctx) key act r w'
          \<and> res = (case r of Returns err \<Rightarrow> Returns (True, err) | Panics v \<Rightarrow> Panics v))"
proof -
  have "redis_backend c lv at" using assms(1,2) by (simp add: redis_backend_def redis_backend_axioms_def)
  from redis_backend.redis_try_do[OF this assms(3,4)] assms(3) show ?thesis by simp
qed

theorem kit_redis_try_section_witness:
  "\<exists>w'. MutexCtxTryDo demo_kit None ''job'' (Some (\<lambda>c s. (Returns None, s))) (0, demo_server) = (Returns (True, None), w')
     \<and> mem_live (snd w') (buildMutexKey ''dkit'' ''job'') = None"
proof -
  obtain w' where run: "MutexCtxTryDo demo_kit None ''job'' (Some (\<lambda>c s. (Returns None, s))) (0, demo_server)
      = (Returns (True, None), w')"
    using demo_try_run by blast
  have d: "k_Atomic demo_kit = redis_ops demo_rand 7 (\<lambda>c i. None) (\<lambda>i r. r) (\<lambda>r. r) (\<lambda>c. []) demo_at"
    by (simp add: demo_kit_def demo_ops_def)
  obtain r where r: "section_ran (k_Atomic demo_kit) (redis_owns mem_client mem_live) (redis_free mem_live)
      (redis_bound ''dkit'') (or_background None) ''job'' (\<lambda>c s. (Returns None, s)) r w'"
      "Returns (True, None) = (case r of Returns err \<Rightarrow> Returns (True, err) | Panics v \<Rightarrow> Panics v)"
    using kit_redis_try_section[OF mem.redis_server_axioms demo_backend.at_client d run]
    by (auto simp: demo_at_def NewMutexImpl_def)
  from r(2) have "r = Returns None" by (cases r) simp_all
  with r(1) have "section_ran (k_Atomic demo_kit) (redis_owns mem_client mem_live) (redis_free mem_live) (redis_bound ''dkit'')
      (or_background None) ''job'' (\<lambda>c s. (Returns None, s)) (Returns None) w'"
    by simp
  then have "mem_live (snd w') (buildMutexKey ''dkit'' ''job'') = None"
    by (elim section_ran_ok) (simp add: redis_free_def redis_bound_def)
  with run show ?thesis by blast
qed

text \<open>
  C11. Running an action under a MongoDB lock, waiting for it (\<open>MutexCtxDo\<close>): when the call returns,
  either the lock was not obtained, an error says so and the action did not run; or the action ran
  exactly once, starting on a state in which the lock was owned, \<open>Unlock\<close> was called once however the action
  ended, and when that succeeded the lock was still owned at the end of the action and the key is free.
\<close>

theorem kit_mongo_section:
  assumes "mongo_lock cls docs" and "mmi_cls (ma_mutexImpl at) = Some cls"
    and "k_Atomic d = mongo_ops R now1 now2 E mid wks at"
    and "MutexCtxDo d ctx key (Some act) w = Some (res, w')"
  shows "(\<exists>e. res = Returns (Some e) \<and> (\<forall>act'. MutexCtxDo d ctx key (Some act') w = Some (res, w')))
    \<or> section_ran (k_Atomic d) (on_fst (mongo_owns cls docs)) (on_fst (mongo_free docs)) mongo_bound
         (or_background ctx) key act res w'"
proof -
  have "mongo_backend cls docs at" using assms(1,2) by (simp add: mongo_backend_def mongo_backend_axioms_def)
  from mongo_backend.mongo_wait_do[OF this assms(3,4)] assms(3) show ?thesis by simp
qed

theorem kit_mongo_section_witness:
  "\<exists>w'. MutexCtxDo demo_mkit None ''job'' (Some (\<lambda>c s. (Returns None, s))) ([], ()) = Some (Returns None, w')
     \<and> mem_docs ld_Key (fst w') ''job'' = None"
proof -
  obtain w' where run: "MutexCtxDo demo_mkit None ''job'' (Some (\<lambda>c s. (Returns None, s))) ([], ()) = Some (Returns None, w')"
    using demo_wait_run by blast
  have d: "k_Atomic demo_mkit = mongo_ops demo_rand 7 7 (\<lambda>c. demo_claims) (\<lambda>c. c) (\<lambda>c. []) demo_mat"
    by (simp add: demo_mkit_def)
  from kit_mongo_section[OF meml.mongo_lock_axioms demo_mbackend.at_cls d run]
  have "section_ran (k_Atomic demo_mkit) (on_fst (mongo_owns (mem_coll ld_Key) (mem_docs ld_Key)))
      (on_fst (mongo_free (mem_docs ld_Key))) mongo_bound (or_background None) ''job''
      (\<lambda>c s. (Returns None, s)) (Returns None) w'"
    by simp
  then have "mem_docs ld_Key (fst w') ''job'' = None"
    by (elim section_ran_ok) (simp add: on_fst_def mongo_free_def mongo_bound_def)
  with run show ?thesis by blast
qed

text \<open>
  C12. Identifiers of kits on one Redis backend never collide: when two kits are created one after
  the other with allocators of one key prefix, with other clients acting at any time but no lease
  ending between the two creations, then all identifiers the two kits ever generate are pairwise
  different, whatever number of them each generates. It rests on the documented layout of
  Sonyflake identifiers. (The lease of a machine number is one minute and is not renewed, so the
  hypothesis on leases covers kits created within a minute of each other.)
\<close>

theorem kit_redis_ids_unique:
  assumes "redis_server c lv" and "sf_documented sf" and "perm_ok R1" and "perm_ok R2"
    and "rn_redisCli (at_randomImpl at1) = Some c" and "rn_redisCli (at_randomImpl at2) = Some c"
    and "rn_keyPrefix (at_randomImpl at1) = rn_keyPrefix (at_randomImpl at2)"
    and "keeps_leases lv env1" and "keeps_leases lv env2"
    and "NewDefaultKitWithContext sf ctx1 (Some (redis_ops R1 now1 done1 env1 mid1 wks1 at1)) w = (Inr k1, w1)"
    and "\<forall>k. lv (snd w1) k \<noteq> None \<longrightarrow> lv (snd w2) k \<noteq> None"
    and "NewDefaultKitWithContext sf ctx2 (Some (redis_ops R2 now2 done2 env2 mid2 wks2 at2)) w2 = (Inr k2, w3)"
  shows "distinct (kit_ids sf n1 k1 @ kit_ids sf n2 k2)"
proof (rule kits_apart[OF assms(2,10,12)])
  fix x y
  assume x: "a_GetUniqueRandomNumber (redis_ops R1 now1 done1 env1 mid1 wks1 at1) (or_background ctx1) MaxUint16 w = (Inr x, w1)"
    and y: "a_GetUniqueRandomNumber (redis_ops R2 now2 done2 env2 mid2 wks2 at2) (or_background ctx2) MaxUint16 w2 = (Inr y, w3)"
  let ?p = "rn_keyPrefix (at_randomImpl at2)"
  have "call_ok lv c R1 ?p \<lparr>ac_now = now1, ac_done = done1 (or_background ctx1), ac_env = env1,
      ac_max = MaxUint16, ac_impl = at_randomImpl at1\<rparr>"
    and "call_ok lv c R2 ?p \<lparr>ac_now = now2, ac_done = done2 (or_background ctx2), ac_env = env2,
      ac_max = MaxUint16, ac_impl = at_randomImpl at2\<rparr>"
    using assms(3-9) by (simp_all add: call_ok_def)
  from redis_server.alloc_one[OF assms(1) this(1) redis_ops_number[OF x]]
    redis_server.alloc_one[OF assms(1) this(2) redis_ops_number[OF y]]
  have "lv (snd w1) (buildRandomKey ?p x) = Some ''1''" "lv (snd w2) (buildRandomKey ?p y) = None" by simp_all
  with assms(11) show "x \<noteq> y" by (metis option.distinct(1))
qed

lemma demo_sf_id:
  assumes "n < 2 ^ 47"
  shows "ucast (of_nat (n * 65536 + unat (num :: 16 word)) :: 64 word) = num"
    and "unat (of_nat (n * 65536 + unat num) :: 64 word) = n * 65536 + unat num"
proof -
  have "unat num < 2 ^ LENGTH(16)" by (rule unsigned_less)
  then have lt: "n * 65536 + unat num < 2 ^ 64" using assms by simp
  have "unat (of_nat m :: 64 word) = m" if "m < 2 ^ 64" for m
    using that by (simp add: unsigned_of_nat take_bit_nat_eq_self)
  from this[OF lt] show u: "unat (of_nat (n * 65536 + unat num) :: 64 word) = n * 65536 + unat num" .
  have "(ucast (of_nat (n * 65536 + unat num) :: 64 word) :: 16 word) = of_nat (n * 65536 + unat num)"
    by (metis u of_nat_unat)
  moreover have z: "(65536 :: 16 word) = 0" by code_simp
  have "(of_nat (n * 65536 + unat num) :: 16 word) = of_nat n * 65536 + num" by simp
  then have "(of_nat (n * 65536 + unat num) :: 16 word) = num" by (simp only: z mult_zero_right add_0)
  ultimately show "ucast (of_nat (n * 65536 + unat (num :: 16 word)) :: 64 word) = num" by simp
qed

lemma demo_sf_step:
  "sf_ids demo_sf (Suc n) (num, k) =
     (if k < 2 ^ 47 then of_nat (k * 65536 + unat num) # sf_ids demo_sf n (num, Suc k)
      else sf_ids demo_sf n (num, k))"
  by (simp add: demo_sf_def)

lemma demo_sf_ids:
  "\<forall>i \<in> set (sf_ids demo_sf n (num, k)). \<exists>j. k \<le> j \<and> j < 2 ^ 47 \<and> i = of_nat (j * 65536 + unat num)"
  "distinct (sf_ids demo_sf n (num, k))"
proof (induction n arbitrary: k)
  case (Suc n)
  {
    case 1
    show ?case
    proof (cases "k < 2 ^ 47")
      case True
      then show ?thesis
        using Suc(1)[of "Suc k"] unfolding demo_sf_step set_simps if_P[OF True] by (meson Suc_leD insertE order_refl)
    next
      case False
      then show ?thesis using Suc(1)[of k] unfolding demo_sf_step by simp
    qed
  next
    case 2
    have "of_nat (k * 65536 + unat num) \<notin> set (sf_ids demo_sf n (num, Suc k))" if "k < 2 ^ 47"
    proof
      assume "of_nat (k * 65536 + unat num) \<in> set (sf_ids demo_sf n (num, Suc k))"
      with Suc(1)[of "Suc k"] obtain j where j: "Suc k \<le> j" "j < 2 ^ 47"
        "(of_nat (k * 65536 + unat num) :: 64 word) = of_nat (j * 65536 + unat num)" by blast
      from j(3) demo_sf_id(2)[OF that, of num] demo_sf_id(2)[OF j(2), of num]
      have "k * 65536 + unat num = j * 65536 + unat num" by metis
      with j(1) show False by simp
    qed
    with Suc(2)[of "Suc k"] Suc(2)[of k] show ?case unfolding demo_sf_step by simp
  }
qed simp_all

lemma demo_sf_documented: "sf_documented demo_sf"
proof -
  have "ucast i = num" if "i \<in> set (sf_ids demo_sf n (num, k))" for i n num k
    using demo_sf_ids(1)[of n num k] that demo_sf_id(1) by metis
  moreover have "f = (num, 0)" if "sf_New demo_sf t num = Some f" for t num f
    using that by (simp add: demo_sf_def)
  ultimately show ?thesis unfolding sf_documented_def using demo_sf_ids(2) by metis
qed

text \<open>Two kits, one after the other, on the reference server.\<close>

lemma demo_numbers: "rand_Perm demo_rand g MaxUint16 = (0 # 1 # map int [2..<65535], g)"
proof -
  have "[0..<65535::nat] = 0 # [Suc 0..<65535]" by (rule upt_conv_Cons) simp
  also have "[Suc 0..<65535::nat] = Suc 0 # [Suc (Suc 0)..<65535]" by (rule upt_conv_Cons) simp
  finally have "map int [0..<65535] = 0 # 1 # map int [2..<65535]"
    by (simp del: upt_Suc upt_rec_numeral add: numeral_2_eq_2)
  moreover have "nat MaxUint16 = 65535" by simp
  ultimately show ?thesis by (simp only: demo_rand_def go_rand.simps prod.inject)
qed

lemma demo_create:
  "NewDefaultKitWithContext demo_sf None (Some demo_ops) (q, r) =
     (if mem_live r (buildRandomKey ''dkit'' 0) = None
      then (Inr \<lparr>k_Atomic = demo_ops, k_ins = (0, 0)\<rparr>, q, mem_put r (buildRandomKey ''dkit'' 0) ''1'' Minute)
      else if mem_live r (buildRandomKey ''dkit'' 1) = None
      then (Inr \<lparr>k_Atomic = demo_ops, k_ins = (1, 0)\<rparr>, q, mem_put r (buildRandomKey ''dkit'' 1) ''1'' Minute)
      else NewDefaultKitWithContext demo_sf None (Some demo_ops) (q, r))"
  by (simp add: NewDefaultKitWithContext_def demo_ops_def redis_ops_def demo_at_def atomic_GetUniqueRandomNumber_def
      redis_GetUniqueRandomNumber_def NewRandomNumberImpl_def nextPerm_def demo_numbers mem_client_def demo_sf_def
      del: upt_rec_numeral upt_Suc cong: if_cong)

theorem kit_redis_ids_unique_witness:
  "\<exists>k1 w1 k2 w2. NewDefaultKitWithContext demo_sf None (Some demo_ops) (0, demo_server) = (Inr k1, w1)
     \<and> NewDefaultKitWithContext demo_sf None (Some demo_ops) w1 = (Inr k2, w2)
     \<and> length (kit_ids demo_sf 2 k1 @ kit_ids demo_sf 2 k2) = 4
     \<and> distinct (kit_ids demo_sf 2 k1 @ kit_ids demo_sf 2 k2)"
proof -
  let ?r1 = "mem_put demo_server (buildRandomKey ''dkit'' 0) ''1'' Minute"
  let ?k1 = "\<lparr>k_Atomic = demo_ops, k_ins = (0, 0)\<rparr>" and ?k2 = "\<lparr>k_Atomic = demo_ops, k_ins = (1, 0)\<rparr>"
  have one: "NewDefaultKitWithContext demo_sf None (Some demo_ops) (0, demo_server) = (Inr ?k1, 0, ?r1)"
    by (subst demo_create) simp
  have "buildRandomKey ''dkit'' 0 \<noteq> buildRandomKey ''dkit'' 1" by (simp add: buildRandomKey_def FormatInt_def FormatUint_small digit_char_def)
  then have two: "NewDefaultKitWithContext demo_sf None (Some demo_ops) (0, ?r1)
      = (Inr ?k2, 0, mem_put ?r1 (buildRandomKey ''dkit'' 1) ''1'' Minute)"
    by (subst demo_create) simp
  have "distinct (kit_ids demo_sf 2 ?k1 @ kit_ids demo_sf 2 ?k2)"
    unfolding demo_ops_def
    by (rule kit_redis_ids_unique[OF mem.redis_server_axioms demo_sf_documented demo_rand_ok demo_rand_ok _ _ refl _ _
          one[unfolded demo_ops_def] _ two[unfolded demo_ops_def]])
      (simp_all add: keeps_leases_def demo_at_def NewRandomNumberImpl_def)
  moreover have "length (kit_ids demo_sf 2 ?k1 @ kit_ids demo_sf 2 ?k2) = 4"
    unfolding kit_ids_sf Suc_1[symmetric] One_nat_def by (simp add: demo_sf_def)
  ultimately show ?thesis using one two by blast
qed

end
