(* ===== verification/Config_Map.thy ===== *)
theory Config_Map
  imports Datax_Errors "HOL-Library.AList" "HOL-Library.Char_ord" "HOL-Library.List_Lexorder"
begin

text \<open>
  \<open>config/config.go\<close>, the maps: normalisation, merging, access by path, flattening and the record of
  where a value came from. A Go \<open>map[string]any\<close> is an association list; its order is the order in
  which one \<open>range\<close> loop happens to visit it, so a statement about every list is one about every order.

  Lemmas: an invariant of normalised maps, what a merge leaves at a path, and flat keys against paths.
\<close>

section \<open>Values\<close>

text \<open>
  \<open>CFloat\<close> and \<open>COther\<close> (any other dynamic type) carry their \<open>%v\<close> rendering; \<open>CAnyMap\<close> is a
  \<open>map[any]any\<close> whose keys are rendered.
\<close>

datatype cvalue =
    CNil
  | CBool bool
  | CInt int
  | CInt64 int
  | CFloat string
  | CStr string
  | COther string
  | CList "cvalue list"
  | CMap "(string \<times> cvalue) list"
  | CAnyMap "(string \<times> cvalue) list"

type_synonym cmap = "(string \<times> cvalue) list"

fun is_CMap :: "cvalue \<Rightarrow> bool" where
  "is_CMap (CMap m) = True"
| "is_CMap _ = False"

section \<open>Normalisation\<close>

fun put_all :: "(string \<times> 'v) list \<Rightarrow> (string \<times> 'v) list \<Rightarrow> (string \<times> 'v) list" where
  "put_all [] out = out"
| "put_all ((k, v) # kvs) out = put_all kvs (AList.update k v out)"

fun normalizeValue :: "cvalue \<Rightarrow> cvalue" where
  "normalizeValue (CMap t) = CMap (put_all (map (\<lambda>(k, v). (ToLower k, normalizeValue v)) t) [])"
| "normalizeValue (CAnyMap t) = CMap (put_all (map (\<lambda>(k, v). (ToLower k, normalizeValue v)) t) [])"
| "normalizeValue (CList t) = CList (map normalizeValue t)"
| "normalizeValue v = v"

text \<open>\<open>normalizeMap\<close> gives an empty map for what is no map.\<close>

fun normalizeMap :: "cvalue \<Rightarrow> cmap" where
  "normalizeMap (CMap t) = put_all (map (\<lambda>(k, v). (ToLower k, normalizeValue v)) t) []"
| "normalizeMap (CAnyMap t) = put_all (map (\<lambda>(k, v). (ToLower k, normalizeValue v)) t) []"
| "normalizeMap v = []"

section \<open>Merging and paths\<close>

function mergeMaps :: "cmap \<Rightarrow> cmap \<Rightarrow> cmap" where
  "mergeMaps dst [] = dst"
| "mergeMaps dst ((k, v) # src) =
     mergeMaps (AList.update k (case (map_of dst k, v) of
                                  (Some (CMap dm), CMap sm) \<Rightarrow> CMap (mergeMaps dm sm)
                                | _ \<Rightarrow> v) dst) src"
  by pat_completeness auto
termination by (relation "measure (\<lambda>(d, s). size (CMap s))") auto

fun setPath :: "cmap \<Rightarrow> string list \<Rightarrow> cvalue \<Rightarrow> cmap" where
  "setPath m [] value = m"
| "setPath m [n] value = AList.update n value m"
| "setPath m (n # n' # nodes) value =
     AList.update n (CMap (setPath (case map_of m n of Some (CMap next) \<Rightarrow> next | _ \<Rightarrow> []) (n' # nodes) value)) m"

fun getPath :: "cmap \<Rightarrow> string list \<Rightarrow> cvalue option" where
  "getPath m [] = Some (CMap m)"
| "getPath m [n] = map_of m n"
| "getPath m (n # n' # nodes) =
     (case map_of m n of
        Some (CMap nm) \<Rightarrow> getPath nm (n' # nodes)
      | _ \<Rightarrow> None)"

section \<open>Flat keys\<close>

definition dotted :: "string \<Rightarrow> string \<Rightarrow> string" where
  "dotted pre k = (if pre \<noteq> [] then pre @ ''.'' @ k else k)"

function flatten_into :: "cmap \<Rightarrow> cmap \<Rightarrow> string \<Rightarrow> cmap" where
  "flatten_into out [] pre = out"
| "flatten_into out ((k, v) # m) pre =
     flatten_into (case v of
                     CMap t \<Rightarrow> put_all (flatten_into [] t (dotted pre k)) out
                   | _ \<Rightarrow> AList.update (dotted pre k) v out) m pre"
  by pat_completeness auto
termination by (relation "measure (\<lambda>(out, m, p). size (CMap m))") auto

definition flattenMap :: "cmap \<Rightarrow> string \<Rightarrow> cmap" where
  "flattenMap m pre = flatten_into [] m pre"

type_synonym source_map = "(string \<times> string) list"

function recordSources :: "source_map \<Rightarrow> cmap \<Rightarrow> string \<Rightarrow> string \<Rightarrow> source_map" where
  "recordSources dest [] source pre = dest"
| "recordSources dest ((k, v) # m) source pre =
     recordSources (case v of
                      CMap mv \<Rightarrow> recordSources dest mv source (dotted pre k)
                    | _ \<Rightarrow> AList.update (dotted pre k) source dest) m source pre"
  by pat_completeness auto
termination by (relation "measure (\<lambda>(dest, m, s, p). size (CMap m))") auto

text \<open>\<open>hashMap\<close>: \<open>fmtv\<close> is the rendering by \<open>%v\<close>, \<open>sha256\<close> the digest.\<close>

definition hash_lines :: "(cvalue \<Rightarrow> string) \<Rightarrow> cmap \<Rightarrow> string" where
  "hash_lines fmtv flat =
     concat (map (\<lambda>k. k @ ''='' @ fmtv (case map_of flat k of Some v \<Rightarrow> v | None \<Rightarrow> CNil) @ [CHR 0x0A]) (sort (map fst flat)))"

definition hashMap :: "(cvalue \<Rightarrow> string) \<Rightarrow> (string \<Rightarrow> string) \<Rightarrow> cmap \<Rightarrow> string" where
  "hashMap fmtv sha256 m = hex_encode (sha256 (hash_lines fmtv (flattenMap m [])))"

section \<open>Normal maps\<close>

text \<open>Keys are unique and lower-case at every level, and there is no \<open>map[any]any\<close>.\<close>

fun normal :: "cvalue \<Rightarrow> bool" where
  "normal (CMap m) \<longleftrightarrow> distinct (map fst m) \<and> list_all (\<lambda>kv. ToLower (fst kv) = fst kv \<and> normal (snd kv)) m"
| "normal (CAnyMap m) \<longleftrightarrow> False"
| "normal (CList vs) \<longleftrightarrow> list_all normal vs"
| "normal _ \<longleftrightarrow> True"

abbreviation normal_map :: "cmap \<Rightarrow> bool" where "normal_map m \<equiv> normal (CMap m)"

lemma set_update_subset: "set (AList.update k v m) \<subseteq> insert (k, v) (set m)"
  by (induction m) auto

lemma normal_update:
  assumes "normal_map m" and "ToLower k = k" and "normal v"
  shows "normal_map (AList.update k v m)"
  using assms set_update_subset[of k v m] by (auto simp: list_all_iff distinct_update)

lemma normal_put_all:
  "normal_map out \<Longrightarrow> list_all (\<lambda>kv. ToLower (fst kv) = fst kv \<and> normal (snd kv)) kvs \<Longrightarrow> normal_map (put_all kvs out)"
  by (induction kvs out rule: put_all.induct) (simp_all add: normal_update del: normal.simps(1))

lemma normal_get: "normal_map m \<Longrightarrow> map_of m k = Some v \<Longrightarrow> normal v"
  by (auto simp: list_all_iff dest!: map_of_SomeD)

lemma normal_get_map: "normal_map m \<Longrightarrow> map_of m k = Some (CMap t) \<Longrightarrow> normal_map t"
  using normal_get by blast

lemma normal_normalizeValue: "normal (normalizeValue v)"
proof (induction v rule: normalizeValue.induct)
  case (1 t)
  then show ?case unfolding normalizeValue.simps by (intro normal_put_all) (force simp: list_all_iff)+
next
  case (2 t)
  then show ?case unfolding normalizeValue.simps by (intro normal_put_all) (force simp: list_all_iff)+
qed (auto simp: list_all_iff)

lemma normal_normalizeMap: "normal_map (normalizeMap v)"
proof (cases "\<exists>t. v = CMap t \<or> v = CAnyMap t")
  case True
  then show ?thesis using normal_normalizeValue[of v] by auto
next
  case False
  then show ?thesis by (cases v) simp_all
qed

text \<open>What a merge puts at a key of the source.\<close>

definition merge_entry :: "cvalue option \<Rightarrow> cvalue \<Rightarrow> cvalue" where
  "merge_entry dv v = (case (dv, v) of (Some (CMap dm), CMap sm) \<Rightarrow> CMap (mergeMaps dm sm) | _ \<Rightarrow> v)"

lemma merge_entry_cases:
  "merge_entry dv v = v \<or> (\<exists>dm sm. dv = Some (CMap dm) \<and> v = CMap sm \<and> merge_entry dv v = CMap (mergeMaps dm sm))"
  by (cases dv; cases "the dv"; cases v) (simp_all add: merge_entry_def)

lemma mergeMaps_Cons: "mergeMaps dst ((k, v) # src) = mergeMaps (AList.update k (merge_entry (map_of dst k) v) dst) src"
  by (simp add: merge_entry_def)

declare mergeMaps.simps(2) [simp del]
declare normal.simps(1) [simp del]

lemma normal_map_Cons: "normal_map ((k, v) # m) \<longleftrightarrow> k \<notin> fst ` set m \<and> ToLower k = k \<and> normal v \<and> normal_map m"
  by (auto simp: normal.simps(1))

lemma normal_map_Nil [simp]: "normal_map []" by (simp add: normal.simps(1))

lemma normal_mergeMaps: "normal_map dst \<Longrightarrow> normal_map src \<Longrightarrow> normal_map (mergeMaps dst src)"
proof (induction "size (CMap src)" arbitrary: dst src rule: less_induct)
  case less
  show ?case
  proof (cases src)
    case (Cons kv src')
    obtain k v where kv: "kv = (k, v)" by fastforce
    have p: "normal v" "ToLower k = k" "normal_map src'" using less.prems(2) Cons kv by (simp_all add: normal_map_Cons)
    have "normal (merge_entry (map_of dst k) v)"
      using merge_entry_cases[of "map_of dst k" v]
    proof (elim disjE exE conjE)
      fix dm sm assume c: "map_of dst k = Some (CMap dm)" "v = CMap sm"
        and e: "merge_entry (map_of dst k) v = CMap (mergeMaps dm sm)"
      have "normal_map (mergeMaps dm sm)"
        by (rule less.hyps) (use c p Cons kv normal_get_map[OF less.prems(1)] in simp_all)
      then show ?thesis unfolding e .
    qed (use p in simp)
    with p less.prems(1) have "normal_map (mergeMaps (AList.update k (merge_entry (map_of dst k) v) dst) src')"
      by (intro less.hyps normal_update) (simp_all add: Cons kv)
    then show ?thesis by (simp add: Cons kv mergeMaps_Cons)
  qed (use less.prems in simp)
qed

lemma normal_setPath:
  "normal_map m \<Longrightarrow> list_all (\<lambda>n. ToLower n = n) nodes \<Longrightarrow> normal v \<Longrightarrow> normal_map (setPath m nodes v)"
proof (induction m nodes v rule: setPath.induct)
  case (3 m n n' nodes v)
  let ?next = "case map_of m n of Some (CMap next) \<Rightarrow> next | _ \<Rightarrow> []"
  have "normal_map ?next"
    using normal_get_map[OF "3.prems"(1)] by (simp split: option.split cvalue.split)
  then have "normal_map (setPath ?next (n' # nodes) v)" by (intro "3.IH") (use "3.prems" in simp_all)
  with "3.prems" show ?case unfolding setPath.simps by (intro normal_update) simp_all
qed (simp_all add: normal_update)

section \<open>What is at a path\<close>

text \<open>A leaf is a value other than a map; \<open>touches\<close>: the map has an entry at the path or cuts it off with a leaf.\<close>

definition leaf_at :: "cmap \<Rightarrow> string list \<Rightarrow> cvalue \<Rightarrow> bool" where
  "leaf_at m nodes v \<longleftrightarrow> nodes \<noteq> [] \<and> getPath m nodes = Some v \<and> \<not> is_CMap v"

fun touches :: "cmap \<Rightarrow> string list \<Rightarrow> bool" where
  "touches m [] \<longleftrightarrow> True"
| "touches m (n # nodes) \<longleftrightarrow> (case map_of m n of None \<Rightarrow> False | Some (CMap t) \<Rightarrow> touches t nodes | Some _ \<Rightarrow> True)"

lemma getPath_step:
  "getPath m (n # nodes) = (case map_of m n of
      None \<Rightarrow> None | Some v \<Rightarrow> if nodes = [] then Some v else case v of CMap t \<Rightarrow> getPath t nodes | _ \<Rightarrow> None)"
  by (cases nodes) (auto split: option.splits cvalue.splits)

text \<open>One step of a leaf, and of touching.\<close>

fun leaf_under :: "cvalue option \<Rightarrow> string list \<Rightarrow> cvalue \<Rightarrow> bool" where
  "leaf_under None nodes v \<longleftrightarrow> False"
| "leaf_under (Some (CMap t)) nodes v \<longleftrightarrow> leaf_at t nodes v"
| "leaf_under (Some w) nodes v \<longleftrightarrow> nodes = [] \<and> v = w"

fun touches_under :: "cvalue option \<Rightarrow> string list \<Rightarrow> bool" where
  "touches_under None nodes \<longleftrightarrow> False"
| "touches_under (Some (CMap t)) nodes \<longleftrightarrow> touches t nodes"
| "touches_under (Some w) nodes \<longleftrightarrow> True"

lemma leaf_at_Nil [simp]: "\<not> leaf_at m [] v" by (simp add: leaf_at_def)

lemma leaf_at_Cons: "leaf_at m (n # nodes) v \<longleftrightarrow> leaf_under (map_of m n) nodes v"
proof (cases "map_of m n")
  case (Some w)
  then show ?thesis by (cases w) (auto simp: leaf_at_def getPath_step)
qed (simp add: leaf_at_def getPath_step)

lemma touches_Cons: "touches m (n # nodes) \<longleftrightarrow> touches_under (map_of m n) nodes"
proof (cases "map_of m n")
  case (Some w)
  then show ?thesis by (cases w) simp_all
qed simp

lemma leaf_at_empty [simp]: "\<not> leaf_at [] p v"
  by (cases p) (simp_all add: leaf_at_Cons)

lemma leaf_touches: "leaf_at m p v \<Longrightarrow> touches m p"
proof (induction p arbitrary: m)
  case (Cons n p)
  then obtain w where "map_of m n = Some w" by (auto simp: leaf_at_Cons elim: leaf_under.elims)
  with Cons show ?case by (cases w) (simp_all add: leaf_at_Cons)
qed simp

lemma leaf_unique: "leaf_at m p v \<Longrightarrow> leaf_at m p w \<Longrightarrow> v = w"
  by (simp add: leaf_at_def)

lemma leaf_not_map: "leaf_at m p v \<Longrightarrow> \<not> is_CMap v"
  by (simp add: leaf_at_def)

lemma mergeMaps_get:
  "distinct (map fst src) \<Longrightarrow>
     map_of (mergeMaps dst src) k = (case map_of src k of None \<Rightarrow> map_of dst k | Some v \<Rightarrow> Some (merge_entry (map_of dst k) v))"
proof (induction src arbitrary: dst)
  case (Cons jv src)
  obtain j v where jv: "jv = (j, v)" by fastforce
  have "map_of src j = None" "distinct (map fst src)" using Cons.prems jv by (simp_all add: map_of_eq_None_iff)
  with jv show ?case unfolding jv mergeMaps_Cons by (simp add: Cons.IH update_conv' split: option.split)
qed simp

lemma mergeMaps_leaf:
  "normal_map src \<Longrightarrow>
     leaf_at (mergeMaps dst src) p v \<longleftrightarrow> leaf_at src p v \<or> leaf_at dst p v \<and> \<not> touches src p"
proof (induction p arbitrary: dst src)
  case (Cons n p)
  have d: "distinct (map fst src)" using Cons.prems by (simp add: normal.simps(1))
  show ?case
  proof (cases "map_of src n")
    case None
    with d show ?thesis by (simp add: leaf_at_Cons touches_Cons mergeMaps_get)
  next
    case (Some w)
    note w = this
    show ?thesis
    proof (cases "\<exists>sm. w = CMap sm")
      case False
      with w d have "merge_entry (map_of dst n) w = w" by (auto simp: merge_entry_def split: option.split cvalue.split)
      with False w d show ?thesis by (cases w) (simp_all add: leaf_at_Cons touches_Cons mergeMaps_get)
    next
      case True
      then obtain sm where sm: "w = CMap sm" by blast
      have n: "normal_map sm" using normal_get_map[OF Cons.prems] w sm by blast
      show ?thesis
      proof (cases "\<exists>dm. map_of dst n = Some (CMap dm)")
        case True
        then obtain dm where "map_of dst n = Some (CMap dm)" by blast
        with w sm d Cons.IH[OF n] show ?thesis
          by (simp add: leaf_at_Cons touches_Cons mergeMaps_get merge_entry_def del: touches.simps)
      next
        case False
        then have "merge_entry (map_of dst n) w = w" using sm by (auto simp: merge_entry_def split: option.split cvalue.split)
        moreover have "leaf_under (map_of dst n) p v \<Longrightarrow> p = []" using False by (auto elim: leaf_under.elims)
        ultimately show ?thesis using w sm d
          by (auto simp add: leaf_at_Cons touches_Cons mergeMaps_get simp del: touches.simps(2))
      qed
    qed
  qed
qed simp

section \<open>Flat keys against paths\<close>

fun dotpath :: "string \<Rightarrow> string list \<Rightarrow> string" where
  "dotpath pre [] = pre"
| "dotpath pre (n # nodes) = dotpath (dotted pre n) nodes"

definition leaf_keys :: "cmap \<Rightarrow> string \<Rightarrow> string set" where
  "leaf_keys m pre = {dotpath pre p | p v. leaf_at m p v}"

definition leaf_pairs :: "cmap \<Rightarrow> string \<Rightarrow> (string \<times> cvalue) set" where
  "leaf_pairs m pre = {(dotpath pre p, v) | p v. leaf_at m p v}"

lemma leaf_keys_pairs: "leaf_keys m pre = fst ` leaf_pairs m pre"
  by (force simp: leaf_keys_def leaf_pairs_def)

lemma leaf_at_split:
  assumes "normal_map ((k, w) # m)"
  shows "leaf_at ((k, w) # m) p v \<longleftrightarrow> (\<exists>q. p = k # q \<and> leaf_under (Some w) q v) \<or> leaf_at m p v"
proof (cases p)
  case (Cons n q)
  have "map_of m k = None" using assms by (simp add: normal_map_Cons map_of_eq_None_iff)
  with Cons show ?thesis by (auto simp: leaf_at_Cons)
qed simp

lemma leaf_pairs_Nil [simp]: "leaf_pairs [] pre = {}"
  by (simp add: leaf_pairs_def)

lemma leaf_pairs_Cons:
  assumes "normal_map ((k, w) # m)"
  shows "leaf_pairs ((k, w) # m) pre =
    (case w of CMap t \<Rightarrow> leaf_pairs t (dotted pre k) | _ \<Rightarrow> {(dotted pre k, w)}) \<union> leaf_pairs m pre"
proof -
  have "{(dotpath pre (k # q), v) | q v. leaf_under (Some w) q v} =
      (case w of CMap t \<Rightarrow> leaf_pairs t (dotted pre k) | _ \<Rightarrow> {(dotted pre k, w)})"
    by (cases w) (auto simp: leaf_pairs_def)
  moreover have "leaf_pairs ((k, w) # m) pre = {(dotpath pre (k # q), v) | q v. leaf_under (Some w) q v} \<union> leaf_pairs m pre"
    unfolding leaf_pairs_def leaf_at_split[OF assms] by blast
  ultimately show ?thesis by simp
qed

lemma leaf_keys_Cons:
  assumes "normal_map ((k, w) # m)"
  shows "leaf_keys ((k, w) # m) pre =
    (case w of CMap t \<Rightarrow> leaf_keys t (dotted pre k) | _ \<Rightarrow> {dotted pre k}) \<union> leaf_keys m pre"
  unfolding leaf_keys_pairs leaf_pairs_Cons[OF assms] image_Un by (cases w) simp_all

lemma put_all_set: "set (put_all kvs out) \<subseteq> set kvs \<union> set out"
  by (induction kvs out rule: put_all.induct) (use set_update_subset in \<open>fastforce+\<close>)

lemma put_all_keys: "fst ` set (put_all kvs out) = fst ` set kvs \<union> fst ` set out"
  by (induction kvs out rule: put_all.induct) (auto simp: dom_update)

lemma put_all_distinct: "distinct (map fst out) \<Longrightarrow> distinct (map fst (put_all kvs out))"
  by (induction kvs out rule: put_all.induct) (simp_all add: distinct_update)

lemma flatten_into_pairs:
  "normal_map m \<Longrightarrow> set (flatten_into out m pre) \<subseteq> set out \<union> leaf_pairs m pre
     \<and> fst ` set (flatten_into out m pre) = fst ` set out \<union> fst ` leaf_pairs m pre"
proof (induction out m pre rule: flatten_into.induct)
  case (2 out k w m pre)
  have n: "normal_map m" "normal w" using "2.prems" by (simp_all add: normal_map_Cons)
  let ?out = "case w of CMap t \<Rightarrow> put_all (flatten_into [] t (dotted pre k)) out | _ \<Rightarrow> AList.update (dotted pre k) w out"
  let ?new = "case w of CMap t \<Rightarrow> leaf_pairs t (dotted pre k) | _ \<Rightarrow> {(dotted pre k, w)}"
  have o: "set ?out \<subseteq> set out \<union> ?new \<and> fst ` set ?out = fst ` set out \<union> fst ` ?new"
  proof (cases "\<exists>t. w = CMap t")
    case True
    then obtain t where t: "w = CMap t" by blast
    let ?f = "flatten_into [] t (dotted pre k)"
    have f: "set ?f \<subseteq> leaf_pairs t (dotted pre k)" "fst ` set ?f = fst ` leaf_pairs t (dotted pre k)"
      using "2.IH"(1)[OF t] n t by simp_all
    have "set (put_all ?f out) \<subseteq> set out \<union> leaf_pairs t (dotted pre k)" using put_all_set[of ?f out] f(1) by blast
    moreover have "fst ` set (put_all ?f out) = fst ` set out \<union> fst ` leaf_pairs t (dotted pre k)"
      unfolding put_all_keys f(2) by (rule Un_commute)
    ultimately show ?thesis by (simp add: t)
  next
    case False
    then have e: "?out = AList.update (dotted pre k) w out" "?new = {(dotted pre k, w)}"
      by (auto split: cvalue.splits)
    show ?thesis unfolding e using set_update_subset[of "dotted pre k" w out] by (auto simp: dom_update)
  qed
  with "2.IH"(2)[OF n(1)] show ?case unfolding leaf_pairs_Cons[OF "2.prems"] flatten_into.simps(2) image_Un
    by (intro conjI) (blast, simp add: Un_assoc)
qed simp

lemma flatten_into_distinct: "distinct (map fst out) \<Longrightarrow> distinct (map fst (flatten_into out m pre))"
proof (induction out m pre rule: flatten_into.induct)
  case (2 out k w m pre)
  then show ?case by (cases w) (simp_all add: put_all_distinct distinct_update)
qed simp

lemma flattenMap_sound: "normal_map m \<Longrightarrow> (key, v) \<in> set (flattenMap m []) \<Longrightarrow> \<exists>p. leaf_at m p v \<and> key = dotpath [] p"
  using flatten_into_pairs[of m "[]" "[]"] by (auto simp: flattenMap_def leaf_pairs_def)

lemma flattenMap_keys: "normal_map m \<Longrightarrow> fst ` set (flattenMap m []) = leaf_keys m []"
  using flatten_into_pairs[of m "[]" "[]"] by (simp add: flattenMap_def leaf_keys_pairs)

lemma recordSources_get:
  "normal_map m \<Longrightarrow> map_of (recordSources dest m src pre) key = (if key \<in> leaf_keys m pre then Some src else map_of dest key)"
proof (induction dest m src pre rule: recordSources.induct)
  case (1 dest src pre)
  then show ?case by (simp add: leaf_keys_def)
next
  case (2 dest k w m src pre)
  have n: "normal_map m" "normal w" using "2.prems" by (simp_all add: normal_map_Cons)
  show ?case
  proof (cases "\<exists>t. w = CMap t")
    case True
    then obtain t where t: "w = CMap t" by blast
    have "map_of (recordSources (recordSources dest t src (dotted pre k)) m src pre) key =
        (if key \<in> leaf_keys m pre then Some src else map_of (recordSources dest t src (dotted pre k)) key)"
      using "2.IH"(2)[OF n(1)] t by simp
    moreover have "map_of (recordSources dest t src (dotted pre k)) key =
        (if key \<in> leaf_keys t (dotted pre k) then Some src else map_of dest key)"
      using "2.IH"(1)[OF t] n(2) t by simp
    ultimately show ?thesis using "2.prems" by (simp add: t leaf_keys_Cons)
  next
    case False
    then have "(case w of CMap mv \<Rightarrow> recordSources dest mv src (dotted pre k) | _ \<Rightarrow> AList.update (dotted pre k) src dest)
        = AList.update (dotted pre k) src dest" "(case w of CMap t \<Rightarrow> leaf_keys t (dotted pre k) | _ \<Rightarrow> {dotted pre k}) = {dotted pre k}"
      by (auto split: cvalue.splits)
    with "2.IH"(2)[OF n(1)] show ?thesis by (simp add: leaf_keys_Cons[OF "2.prems"] update_conv')
  qed
qed

text \<open>With keys that are not empty and have no dot, flat keys determine paths.\<close>

fun plain :: "cvalue \<Rightarrow> bool" where
  "plain (CMap m) \<longleftrightarrow> list_all (\<lambda>kv. fst kv \<noteq> [] \<and> CHR ''.'' \<notin> set (fst kv) \<and> plain (snd kv)) m"
| "plain _ \<longleftrightarrow> True"

abbreviation plain_map :: "cmap \<Rightarrow> bool" where "plain_map m \<equiv> plain (CMap m)"

definition plain_path :: "string list \<Rightarrow> bool" where
  "plain_path p \<longleftrightarrow> list_all (\<lambda>n. n \<noteq> [] \<and> CHR ''.'' \<notin> set n) p"

lemma leaf_plain: "plain_map m \<Longrightarrow> leaf_at m p v \<Longrightarrow> plain_path p"
proof (induction p arbitrary: m)
  case (Cons n p)
  then obtain w where w: "map_of m n = Some w" by (auto simp: leaf_at_Cons elim: leaf_under.elims)
  then have n: "n \<noteq> []" "CHR ''.'' \<notin> set n" "plain w" using Cons.prems(1) by (auto simp: list_all_iff dest!: map_of_SomeD)
  show ?case
  proof (cases "\<exists>t. w = CMap t")
    case True
    with n w Cons show ?thesis by (auto simp: leaf_at_Cons plain_path_def)
  next
    case False
    with w Cons.prems(2) have "p = []" by (cases w) (simp_all add: leaf_at_Cons)
    with n show ?thesis by (simp add: plain_path_def)
  qed
qed (simp add: plain_path_def)

lemma dotpath_nonempty: "pre \<noteq> [] \<Longrightarrow> dotpath pre p = pre @ concat (map (\<lambda>n. CHR ''.'' # n) p)"
  by (induction p arbitrary: pre) (simp_all add: dotted_def)

lemma dot_concat_inj:
  "plain_path p \<Longrightarrow> plain_path q \<Longrightarrow> concat (map (\<lambda>n. CHR ''.'' # n) p) = concat (map (\<lambda>n. CHR ''.'' # n) q) \<Longrightarrow> p = q"
proof (induction p arbitrary: q)
  case Nil
  then show ?case by (cases q) simp_all
next
  case (Cons a p)
  then obtain b q' where q: "q = b # q'" by (cases q) simp_all
  let ?d = "\<lambda>p. concat (map (\<lambda>n. CHR ''.'' # n) p)"
  have ab: "a @ ?d p = b @ ?d q'" "CHR ''.'' \<notin> set a" "CHR ''.'' \<notin> set b"
    using Cons.prems q by (simp_all add: plain_path_def)
  have t: "takeWhile (\<lambda>c. c \<noteq> CHR ''.'') (x @ ?d r) = x" if "CHR ''.'' \<notin> set x" for x r
  proof -
    have "takeWhile (\<lambda>c. c \<noteq> CHR ''.'') (x @ ?d r) = x @ takeWhile (\<lambda>c. c \<noteq> CHR ''.'') (?d r)"
      using that by (intro takeWhile_append2) auto
    then show ?thesis by (cases r) simp_all
  qed
  have "a = b" using t[OF ab(2), of p] t[OF ab(3), of q'] ab(1) by simp
  with ab(1) Cons q show ?case by (simp add: plain_path_def)
qed

lemma dotpath_inj:
  assumes "plain_path p" and "plain_path q" and "p \<noteq> []" and "q \<noteq> []" and "dotpath [] p = dotpath [] q"
  shows "p = q"
proof -
  obtain a p' b q' where pq: "p = a # p'" "q = b # q'" using assms by (cases p; cases q) auto
  have "CHR ''.'' # dotpath [] p = concat (map (\<lambda>n. CHR ''.'' # n) p)" "CHR ''.'' # dotpath [] q = concat (map (\<lambda>n. CHR ''.'' # n) q)"
    using assms(1,2) unfolding pq by (simp_all add: dotted_def plain_path_def dotpath_nonempty)
  with assms dot_concat_inj[of p q] show ?thesis by simp
qed

lemma leaf_nonempty: "leaf_at m p v \<Longrightarrow> p \<noteq> []" by (auto simp: leaf_at_def)

lemma flattenMap_get:
  assumes "normal_map m" and "plain_map m"
  shows "map_of (flattenMap m []) key = Some v \<longleftrightarrow> (\<exists>p. leaf_at m p v \<and> key = dotpath [] p)"
proof
  assume "map_of (flattenMap m []) key = Some v"
  then show "\<exists>p. leaf_at m p v \<and> key = dotpath [] p" by (intro flattenMap_sound[OF assms(1)] map_of_SomeD)
next
  assume "\<exists>p. leaf_at m p v \<and> key = dotpath [] p"
  then obtain p where p: "leaf_at m p v" "key = dotpath [] p" by blast
  then have "key \<in> fst ` set (flattenMap m [])" by (auto simp: flattenMap_keys[OF assms(1)] leaf_keys_def)
  then obtain w where w: "map_of (flattenMap m []) key = Some w" by (metis map_of_eq_None_iff not_None_eq)
  then obtain q where q: "leaf_at m q w" "key = dotpath [] q" using flattenMap_sound[OF assms(1) map_of_SomeD] by blast
  have "p = q"
    by (rule dotpath_inj) (use p q leaf_plain[OF assms(2)] leaf_nonempty in auto)
  with p q w show "map_of (flattenMap m []) key = Some v" using leaf_unique by blast
qed

section \<open>The configuration hash\<close>

text \<open>
  The hash of a configuration depends on its content only: two maps with the same value at every
  path have the same hash, in whatever order their entries are visited at every level and whatever empty
  sub-maps they hold.
\<close>

theorem config_hash_content:
  assumes "normal_map m" and "plain_map m" and "normal_map m'" and "plain_map m'"
    and "\<forall>p v. leaf_at m p v \<longleftrightarrow> leaf_at m' p v"
  shows "hashMap fmtv sha256 m = hashMap fmtv sha256 m'"
proof -
  have g: "map_of (flattenMap m []) = map_of (flattenMap m' [])"
  proof
    fix key
    have "map_of (flattenMap m []) key = Some v \<longleftrightarrow> map_of (flattenMap m' []) key = Some v" for v
      unfolding flattenMap_get[OF assms(1,2)] flattenMap_get[OF assms(3,4)] using assms(5) by blast
    then show "map_of (flattenMap m []) key = map_of (flattenMap m' []) key" by (metis not_Some_eq)
  qed
  have "set (map fst (flattenMap m [])) = set (map fst (flattenMap m' []))"
    using arg_cong[OF g, of dom] by (simp add: dom_map_of_conv_image_fst)
  moreover have "distinct (map fst (flattenMap m []))" "distinct (map fst (flattenMap m' []))"
    by (simp_all add: flattenMap_def flatten_into_distinct)
  ultimately have "sort (map fst (flattenMap m [])) = sort (map fst (flattenMap m' []))"
    by (intro sorted_distinct_set_unique) simp_all
  with g show ?thesis by (simp add: hashMap_def hash_lines_def)
qed

theorem config_hash_content_witness:
  "hashMap (\<lambda>v. ''v'') id [(''a'', CBool True), (''b'', CMap [(''c'', CNil), (''d'', CInt 2)])] =
   hashMap (\<lambda>v. ''v'') id [(''b'', CMap [(''d'', CInt 2), (''c'', CNil)]), (''a'', CBool True), (''e'', CMap [])]"
proof (rule config_hash_content)
  let ?m = "[(''a'', CBool True), (''b'', CMap [(''c'', CNil), (''d'', CInt 2)])]"
  let ?m' = "[(''b'', CMap [(''d'', CInt 2), (''c'', CNil)]), (''a'', CBool True), (''e'', CMap [])]"
  show "normal_map ?m" "plain_map ?m" "normal_map ?m'" "plain_map ?m'"
    by (simp_all add: normal.simps(1) ToLower_def lower_char_def)
  have "leaf_at ?m p v \<longleftrightarrow> leaf_at ?m' p v" for p v
  proof (cases p)
    case (Cons n q)
    then show ?thesis by (cases q) (simp_all add: leaf_at_Cons)
  qed simp
  then show "\<forall>p v. leaf_at ?m p v \<longleftrightarrow> leaf_at ?m' p v" by blast
qed

section \<open>Setting a path\<close>

lemma setPath_leaf:
  assumes "p \<noteq> []" and "\<not> is_CMap v"
  shows "leaf_at (setPath m p v) q w \<longleftrightarrow> (if q = p then w = v else leaf_at m q w \<and> \<not> prefix p q \<and> \<not> prefix q p)"
  using assms
proof (induction m p v arbitrary: q rule: setPath.induct)
  case (2 m n v)
  then show ?case
  proof (cases q)
    case (Cons k ks)
    with 2 show ?thesis by (cases v) (auto simp: leaf_at_Cons update_conv' prefix_def)
  qed simp
next
  case (3 m n n' nodes v)
  let ?next = "case map_of m n of Some (CMap next) \<Rightarrow> next | _ \<Rightarrow> []"
  show ?case
  proof (cases q)
    case (Cons k ks)
    show ?thesis
    proof (cases "k = n")
      case True
      have IH: "leaf_at (setPath ?next (n' # nodes) v) ks w \<longleftrightarrow>
          (if ks = n' # nodes then w = v else leaf_at ?next ks w \<and> \<not> prefix (n' # nodes) ks \<and> \<not> prefix ks (n' # nodes))"
        using "3.prems" by (intro "3.IH") simp_all
      have "leaf_under (map_of m n) ks w \<and> \<not> prefix ks (n' # nodes) \<longleftrightarrow> leaf_at ?next ks w \<and> \<not> prefix ks (n' # nodes)"
      proof (cases "map_of m n")
        case (Some u)
        then show ?thesis by (cases u) auto
      qed simp
      with IH Cons True show ?thesis by (auto simp: leaf_at_Cons update_conv')
    qed (use Cons in \<open>simp add: leaf_at_Cons update_conv'\<close>)
  qed simp
qed simp

end
