(* ===== verification/Config_Load.thy ===== *)
theory Config_Load
  imports Config_Map
begin

text \<open>
  \<open>config/config.go\<close>, the loading: environment variables and flags as maps, typed overrides, validation,
  masking, and \<open>Load\<close> with its five layers. Files are read and the result decoded by the viper package,
  which is a parameter, as are the process environment, \<open>filepath.Dir\<close> and \<open>Join\<close>, \<open>strconv.ParseFloat\<close>
  (its result given by its rendering), \<open>%v\<close> and SHA-256. Log output is not modelled. The Go code merges
  into maps it shares with the layer read last; no map is read again after a later merge changed it, so
  the maps are values here.

  Lemmas: the layers refine a recursive specification of precedence, sensitive values come from the
  environment or the local file only, masking, and required keys.
\<close>

section \<open>Options\<close>

record 't Options =
  DefaultConfigPath :: string
  EnvPrefix :: string
  EnvSeparator :: string
  DeployEnvKey :: string
  Args :: "string list option"
  RequiredKeys :: "string list"
  SensitiveKeys :: "string list option"
  Strict :: bool
  LogEnabled :: bool
  ValidateMap :: "(cmap \<Rightarrow> go_error option) option"
  ValidateConfig :: "('t \<Rightarrow> go_error option) option"

record Meta =
  Sources :: "string list"
  Hash :: string
  Summary :: cmap

datatype read_result = FileNotFound | ReadFailed go_error | Settings cvalue

text \<open>What loading takes from outside.\<close>

record 't load_env =
  le_read :: "string \<Rightarrow> read_result"
  le_environ :: "string list"
  le_os_args :: "string list"
  le_dir :: "string \<Rightarrow> string"
  le_join :: "string \<Rightarrow> string \<Rightarrow> string"
  le_ParseFloat :: "string \<Rightarrow> string option"
  le_fmtv :: "cvalue \<Rightarrow> string"
  le_sha256 :: "string \<Rightarrow> string"
  le_decode :: "bool \<Rightarrow> cmap \<Rightarrow> 't result"

definition default_sensitive :: "string list" where
  "default_sensitive = [''password'', ''passwd'', ''secret'', ''token'', ''key'', ''uri'']"

definition withDefaults :: "string list \<Rightarrow> 't Options \<Rightarrow> 't Options" where
  "withDefaults osArgs opts =
     (let opts = (if DefaultConfigPath opts = [] then opts\<lparr>DefaultConfigPath := ''configs/config.yaml''\<rparr> else opts);
          opts = (if EnvPrefix opts = [] then opts\<lparr>EnvPrefix := ''APP''\<rparr> else opts);
          opts = (if EnvSeparator opts = [] then opts\<lparr>EnvSeparator := ''__''\<rparr> else opts);
          opts = (if DeployEnvKey opts = [] then opts\<lparr>DeployEnvKey := ''ENV''\<rparr> else opts);
          opts = (if Args opts = None then opts\<lparr>Args := Some (drop 1 osArgs)\<rparr> else opts)
      in if SensitiveKeys opts = None then opts\<lparr>SensitiveKeys := Some default_sensitive\<rparr> else opts)"

definition NewOptions :: "string list \<Rightarrow> 't Options" where
  "NewOptions osArgs = withDefaults osArgs
     \<lparr>DefaultConfigPath = [], EnvPrefix = [], EnvSeparator = [], DeployEnvKey = [], Args = None, RequiredKeys = [],
      SensitiveKeys = None, Strict = True, LogEnabled = True, ValidateMap = None, ValidateConfig = None\<rparr>"

section \<open>Files\<close>

text \<open>\<open>None\<close>: there is no file.\<close>

definition loadConfigIfExists :: "(string \<Rightarrow> read_result) \<Rightarrow> string \<Rightarrow> cmap option result" where
  "loadConfigIfExists rd path =
     (if path = [] then Inr None
      else case rd path of
             FileNotFound \<Rightarrow> Inr None
           | ReadFailed e \<Rightarrow> Inl e
           | Settings s \<Rightarrow> Inr (Some (normalizeMap s)))"

section \<open>Environment variables\<close>

definition lowerNodes :: "string list \<Rightarrow> string list" where
  "lowerNodes nodes = map ToLower nodes"

definition splitEnvPath :: "string \<Rightarrow> string \<Rightarrow> string list" where
  "splitEnvPath path sep = lowerNodes (Split path sep)"

definition env_char :: "char \<Rightarrow> bool" where
  "env_char c = (let n = of_char c :: nat in (65 \<le> n \<and> n \<le> 90) \<or> (48 \<le> n \<and> n \<le> 57) \<or> c = CHR ''_'')"

definition isValidEnvName :: "string \<Rightarrow> bool" where
  "isValidEnvName name \<longleftrightarrow> list_all env_char name \<and> name \<noteq> []"

definition hasEmptyNode :: "string list \<Rightarrow> bool" where
  "hasEmptyNode nodes \<longleftrightarrow> list_ex (\<lambda>node. node = []) nodes"

definition deployEnvVarName :: "string \<Rightarrow> string \<Rightarrow> string \<Rightarrow> string" where
  "deployEnvVarName envPrefix sep deployEnvKey =
     (if deployEnvKey = [] then []
      else if envPrefix = [] \<or> sep = [] then deployEnvKey
      else envPrefix @ sep @ deployEnvKey)"

text \<open>The environment is a list of \<open>name=value\<close>; \<open>os.Getenv\<close> finds the first of a name.\<close>

fun Getenv :: "string list \<Rightarrow> string \<Rightarrow> string" where
  "Getenv [] key = []"
| "Getenv (kv # environ) key =
     (case Cut kv ''='' of (k, v, found) \<Rightarrow> if found \<and> k = key then v else Getenv environ key)"

definition resolveDeployEnv :: "string list \<Rightarrow> 't Options \<Rightarrow> string" where
  "resolveDeployEnv environ opts =
     (let key = deployEnvVarName (EnvPrefix opts) (EnvSeparator opts) (DeployEnvKey opts) in
      if key \<noteq> [] then TrimSpace (Getenv environ key) else [])"

definition env_entry :: "string \<Rightarrow> string \<Rightarrow> string \<Rightarrow> string \<Rightarrow> cmap \<Rightarrow> cmap" where
  "env_entry envPrefix sep deployEnvKey kv res =
     (case SplitN2 kv ''='' of
        [key, val] \<Rightarrow>
          if \<not> HasPrefix key (envPrefix @ sep) then res
          else if \<not> isValidEnvName key then res
          else if deployEnvKey \<noteq> [] \<and> key = deployEnvVarName envPrefix sep deployEnvKey then
            setPath res (ToLower envPrefix # splitEnvPath deployEnvKey sep) (CStr val)
          else
            let path = TrimPrefix key (envPrefix @ sep) in
            if path = [] then res
            else
              let nodes = Split path sep in
              if hasEmptyNode nodes then res else setPath res (lowerNodes nodes) (CStr val)
      | _ \<Rightarrow> res)"

definition envToMap :: "string list \<Rightarrow> string \<Rightarrow> string \<Rightarrow> string \<Rightarrow> cmap" where
  "envToMap environ envPrefix sep deployEnvKey =
     (if envPrefix = [] \<or> sep = [] then [] else fold (env_entry envPrefix sep deployEnvKey) environ [])"

section \<open>Flags\<close>

definition arg_entry :: "string \<Rightarrow> cmap \<Rightarrow> cmap" where
  "arg_entry arg res =
     (if \<not> HasPrefix arg ''--'' then res
      else
        case SplitN2 (TrimPrefix arg ''--'') ''='' of
          [k, val] \<Rightarrow>
            let key = ToLower (TrimSpace k) in
            if key = [] then res else setPath res (Split key ''.'') (CStr val)
        | _ \<Rightarrow> res)"

definition argsToMap :: "string list \<Rightarrow> cmap" where
  "argsToMap args = fold arg_entry args []"

section \<open>Typed overrides\<close>

definition ParseBool :: "string \<Rightarrow> bool option" where
  "ParseBool s =
     (if s \<in> {''1'', ''t'', ''T'', ''TRUE'', ''true'', ''True''} then Some True
      else if s \<in> {''0'', ''f'', ''F'', ''FALSE'', ''false'', ''False''} then Some False
      else None)"

definition parse_plain :: "(string \<Rightarrow> string option) \<Rightarrow> string \<Rightarrow> cvalue" where
  "parse_plain parseFloat s =
     (case ParseBool s of
        Some b \<Rightarrow> CBool b
      | None \<Rightarrow>
          (case ParseInt s 64 of
             Inr i \<Rightarrow> CInt64 i
           | Inl _ \<Rightarrow> (case parseFloat s of Some f \<Rightarrow> CFloat f | None \<Rightarrow> CStr s)))"

definition parseWithHint :: "(string \<Rightarrow> string option) \<Rightarrow> cvalue option \<Rightarrow> string \<Rightarrow> cvalue" where
  "parseWithHint parseFloat hint s =
     (case hint of
        Some (CInt _) \<Rightarrow> (case ParseInt s 64 of Inr i \<Rightarrow> CInt i | Inl _ \<Rightarrow> parse_plain parseFloat s)
      | Some (CInt64 _) \<Rightarrow> (case ParseInt s 64 of Inr i \<Rightarrow> CInt64 i | Inl _ \<Rightarrow> parse_plain parseFloat s)
      | Some (CFloat _) \<Rightarrow> (case parseFloat s of Some f \<Rightarrow> CFloat f | None \<Rightarrow> parse_plain parseFloat s)
      | Some (CBool _) \<Rightarrow> (case ParseBool s of Some b \<Rightarrow> CBool b | None \<Rightarrow> parse_plain parseFloat s)
      | _ \<Rightarrow> parse_plain parseFloat s)"

function applyTypedOverrides :: "(string \<Rightarrow> string option) \<Rightarrow> cmap \<Rightarrow> cmap \<Rightarrow> cmap" where
  "applyTypedOverrides parseFloat base [] = []"
| "applyTypedOverrides parseFloat base ((k, v) # overrides) =
     (k, case v of
           CMap vm \<Rightarrow> CMap (applyTypedOverrides parseFloat (case map_of base k of Some (CMap bm) \<Rightarrow> bm | _ \<Rightarrow> []) vm)
         | CStr s \<Rightarrow> parseWithHint parseFloat (map_of base k) s
         | _ \<Rightarrow> v)
     # applyTypedOverrides parseFloat base overrides"
  by pat_completeness auto
termination by (relation "measure (\<lambda>(f, b, ov). size (CMap ov))") auto

section \<open>Validation\<close>

definition isEmpty :: "cvalue \<Rightarrow> bool" where
  "isEmpty v =
     (case v of
        CNil \<Rightarrow> True
      | CStr s \<Rightarrow> TrimSpace s = []
      | CList t \<Rightarrow> t = []
      | CMap t \<Rightarrow> t = []
      | _ \<Rightarrow> False)"

fun validateRequired :: "cmap \<Rightarrow> string list \<Rightarrow> go_error option" where
  "validateRequired m [] = None"
| "validateRequired m (key # keys) =
     (case getPath m (Split (ToLower key) ''.'') of
        Some v \<Rightarrow> if isEmpty v then Some (NewValidationError (''missing '' @ key) [] None) else validateRequired m keys
      | None \<Rightarrow> Some (NewValidationError (''missing '' @ key) [] None))"

definition isSensitivePath :: "string \<Rightarrow> string list \<Rightarrow> bool" where
  "isSensitivePath path sensitive \<longleftrightarrow> list_ex (\<lambda>s. s \<noteq> [] \<and> Contains (ToLower path) (ToLower s)) sensitive"

definition isPlaceholder :: "string \<Rightarrow> bool" where
  "isPlaceholder s =
     (let t = TrimSpace s in
      if t = [] then False
      else if list_all (\<lambda>c. c = CHR ''*'') t then True
      else if Contains t ''***'' \<or> Contains t ''******'' then True
      else ToLower t \<in> {''redacted'', ''<redacted>'', ''changeme'', ''replace_me'', ''placeholder''})"

fun check_sensitive :: "source_map \<Rightarrow> string list \<Rightarrow> cmap \<Rightarrow> go_error option" where
  "check_sensitive sources sensitive [] = None"
| "check_sensitive sources sensitive ((path, v) # flat) =
     (if \<not> isSensitivePath path sensitive then check_sensitive sources sensitive flat
      else if isEmpty v then check_sensitive sources sensitive flat
      else if map_of sources path = Some ''env'' \<or> map_of sources path = Some ''local'' then
        (if (case v of CStr s \<Rightarrow> isPlaceholder s | _ \<Rightarrow> False)
         then Some (NewValidationError (''sensitive config '' @ path @ '' must not be a placeholder'') [] None)
         else check_sensitive sources sensitive flat)
      else Some (NewValidationError (''sensitive config '' @ path @ '' must come from env or config.local.yaml'') [] None))"

definition validateSensitiveSources :: "cmap \<Rightarrow> source_map \<Rightarrow> string list \<Rightarrow> go_error option" where
  "validateSensitiveSources m sources sensitive = check_sensitive sources sensitive (flattenMap m [])"

section \<open>Masking\<close>

definition maskURI :: "string \<Rightarrow> string option" where
  "maskURI raw =
     (if \<not> Contains raw ''://'' \<or> \<not> Contains raw ''@'' then None
      else
        case SplitN2 raw ''://'' of
          [scheme, userHost] \<Rightarrow>
            (case Index userHost ''@'' of
               None \<Rightarrow> None
             | Some at \<Rightarrow>
                 let userInfo = take at userHost; rest = drop (at + 1) userHost in
                 if userInfo = [] then None
                 else Some (scheme @ ''://'' @ (SplitN2 userInfo '':'' ! 0) @ '':***@'' @ rest))
        | _ \<Rightarrow> None)"

fun maskValue :: "string list \<Rightarrow> string \<Rightarrow> cvalue \<Rightarrow> cvalue" where
  "maskValue sensitive path (CMap t) = CMap (map (\<lambda>(k, v). (k, maskValue sensitive (path @ ''.'' @ k) v)) t)"
| "maskValue sensitive path (CList t) = CList (map (maskValue sensitive path) t)"
| "maskValue sensitive path (CStr t) =
     (if isSensitivePath path sensitive then CStr ''***''
      else case maskURI t of Some masked \<Rightarrow> CStr masked | None \<Rightarrow> CStr t)"
| "maskValue sensitive path v = (if isSensitivePath path sensitive then CStr ''***'' else v)"

definition maskMap :: "cmap \<Rightarrow> string list \<Rightarrow> cmap" where
  "maskMap m sensitive = map (\<lambda>(k, v). (k, maskValue sensitive k v)) m"

section \<open>Load\<close>

text \<open>The merged map, the source of each flat key, and the sources used so far.\<close>

type_synonym load_state = "cmap \<times> source_map \<times> string list"

fun add_file :: "string \<Rightarrow> cmap option \<Rightarrow> load_state \<Rightarrow> load_state" where
  "add_file source None st = st"
| "add_file source (Some m) (merged, sourceMap, sources) =
     (mergeMaps merged m, recordSources sourceMap m source [], sources @ [source])"

fun add_override :: "(string \<Rightarrow> string option) \<Rightarrow> string \<Rightarrow> cmap \<Rightarrow> load_state \<Rightarrow> load_state" where
  "add_override parseFloat source overrides (merged, sourceMap, sources) =
     (if overrides = [] then (merged, sourceMap, sources)
      else (mergeMaps merged (applyTypedOverrides parseFloat merged overrides),
            recordSources sourceMap overrides source [], sources @ [source]))"

definition load_layers :: "'t load_env \<Rightarrow> 't Options \<Rightarrow> load_state result" where
  "load_layers E opts =
     (let baseDir = le_dir E (DefaultConfigPath opts) in
      case loadConfigIfExists (le_read E) (DefaultConfigPath opts) of
        Inl e \<Rightarrow> Inl e
      | Inr m1 \<Rightarrow>
          let deployEnv = resolveDeployEnv (le_environ E) opts in
          case (if deployEnv \<noteq> []
                then loadConfigIfExists (le_read E) (le_join E baseDir (''config.'' @ ToLower deployEnv @ ''.yaml''))
                else Inr None) of
            Inl e \<Rightarrow> Inl e
          | Inr m2 \<Rightarrow>
              case loadConfigIfExists (le_read E) (le_join E baseDir ''config.local.yaml'') of
                Inl e \<Rightarrow> Inl e
              | Inr m3 \<Rightarrow>
                  let st = add_file ''local'' m3 (add_file ''env-file'' m2 (add_file ''default'' m1 ([], [], [])));
                      st = add_override (le_ParseFloat E) ''env''
                             (envToMap (le_environ E) (EnvPrefix opts) (EnvSeparator opts) (DeployEnvKey opts)) st
                  in Inr (add_override (le_ParseFloat E) ''flags''
                            (argsToMap (case Args opts of Some args \<Rightarrow> args | None \<Rightarrow> [])) st))"

definition Load :: "'t load_env \<Rightarrow> 't Options \<Rightarrow> ('t \<times> Meta) result" where
  "Load E opts =
     (let opts = withDefaults (le_os_args E) opts;
          sensitive = (case SensitiveKeys opts of Some ks \<Rightarrow> ks | None \<Rightarrow> [])
      in case load_layers E opts of
           Inl e \<Rightarrow> Inl e
         | Inr (merged, sourceMap, sources) \<Rightarrow>
             (case validateRequired merged (RequiredKeys opts) of
                Some e \<Rightarrow> Inl e
              | None \<Rightarrow>
                  (case validateSensitiveSources merged sourceMap sensitive of
                     Some e \<Rightarrow> Inl e
                   | None \<Rightarrow>
                       (case (case ValidateMap opts of Some f \<Rightarrow> f merged | None \<Rightarrow> None) of
                          Some e \<Rightarrow> Inl e
                        | None \<Rightarrow>
                            let hash = hashMap (le_fmtv E) (le_sha256 E) merged; summary = maskMap merged sensitive in
                            (case le_decode E (Strict opts) merged of
                               Inl e \<Rightarrow> Inl e
                             | Inr out \<Rightarrow>
                                 (case (case ValidateConfig opts of Some f \<Rightarrow> f out | None \<Rightarrow> None) of
                                    Some e \<Rightarrow> Inl e
                                  | None \<Rightarrow> Inr (out, \<lparr>Sources = sources, Hash = hash, Summary = summary\<rparr>)))))))"

section \<open>Typed overrides, path by path\<close>

definition leaf_opt :: "cmap \<Rightarrow> string list \<Rightarrow> cvalue option" where
  "leaf_opt m p = (case getPath m p of Some v \<Rightarrow> if is_CMap v then None else Some v | None \<Rightarrow> None)"

lemma leaf_opt_Some: "p \<noteq> [] \<Longrightarrow> leaf_opt m p = Some v \<longleftrightarrow> leaf_at m p v"
  by (auto simp: leaf_opt_def leaf_at_def split: option.splits)

lemma leaf_opt_Cons: "leaf_opt m (n # p) =
    (case map_of m n of Some (CMap t) \<Rightarrow> if p = [] then None else leaf_opt t p | Some v \<Rightarrow> if p = [] then Some v else None | None \<Rightarrow> None)"
  by (auto simp: leaf_opt_def getPath_step split: option.splits cvalue.splits)

definition retype :: "(string \<Rightarrow> string option) \<Rightarrow> cvalue option \<Rightarrow> cvalue \<Rightarrow> cvalue" where
  "retype parseFloat hint v = (case v of CStr s \<Rightarrow> parseWithHint parseFloat hint s | _ \<Rightarrow> v)"

lemma parse_plain_scalar: "\<not> is_CMap (parse_plain f s) \<and> normal (parse_plain f s)"
  by (auto simp: parse_plain_def split: option.splits sum.splits)

lemma parseWithHint_scalar: "\<not> is_CMap (parseWithHint f h s) \<and> normal (parseWithHint f h s)"
  using parse_plain_scalar[of f s] by (auto simp: parseWithHint_def split: option.splits sum.splits cvalue.splits)

lemma parseWithHint_neq [simp]: "parseWithHint f h s \<noteq> CMap t"
  using parseWithHint_scalar[of f h s] by auto

lemma parseWithHint_map: "parseWithHint f (Some (CMap t)) s = parseWithHint f None s"
  by (simp add: parseWithHint_def)

lemma applyTypedOverrides_get:
  "map_of (applyTypedOverrides f base ov) k =
     (case map_of ov k of
        None \<Rightarrow> None
      | Some (CMap vm) \<Rightarrow> Some (CMap (applyTypedOverrides f (case map_of base k of Some (CMap bm) \<Rightarrow> bm | _ \<Rightarrow> []) vm))
      | Some v \<Rightarrow> Some (retype f (map_of base k) v))"
proof (induction ov)
  case (Cons kv ov)
  obtain j v where "kv = (j, v)" by fastforce
  with Cons show ?case by (cases v) (simp_all add: retype_def)
qed simp

lemma applyTypedOverrides_keys: "map fst (applyTypedOverrides f base ov) = map fst ov"
  by (induction f base ov rule: applyTypedOverrides.induct) simp_all

lemma applyTypedOverrides_normal: "normal_map ov \<Longrightarrow> normal_map (applyTypedOverrides f base ov)"
proof (induction f base ov rule: applyTypedOverrides.induct)
  case (2 f base k v ov)
  have n: "normal v" "normal_map ov" "ToLower k = k" "k \<notin> fst ` set ov" using "2.prems" by (simp_all add: normal_map_Cons)
  have "fst ` set (applyTypedOverrides f base ov) = fst ` set ov"
    using arg_cong[OF applyTypedOverrides_keys, of set] by simp
  with 2 n show ?case by (cases v) (simp_all add: normal_map_Cons parseWithHint_scalar)
qed simp

lemma applyTypedOverrides_touches: "touches (applyTypedOverrides f base ov) p = touches ov p"
proof (induction p arbitrary: base ov)
  case (Cons n p)
  show ?case
  proof (cases "map_of ov n")
    case (Some v)
    with Cons show ?thesis
      by (cases v) (auto simp: applyTypedOverrides_get retype_def split: cvalue.splits)
  qed (simp add: applyTypedOverrides_get)
qed simp

lemma applyTypedOverrides_leaf:
  "p \<noteq> [] \<Longrightarrow> leaf_opt (applyTypedOverrides f base ov) p = map_option (retype f (leaf_opt base p)) (leaf_opt ov p)"
proof (induction p arbitrary: base ov)
  case (Cons n p)
  show ?case
  proof (cases "map_of ov n")
    case (Some v)
    show ?thesis
    proof (cases "\<exists>vm. v = CMap vm")
      case True
      then obtain vm where vm: "v = CMap vm" by blast
      let ?bm = "case map_of base n of Some (CMap bm) \<Rightarrow> bm | _ \<Rightarrow> []"
      have "p \<noteq> [] \<Longrightarrow> leaf_opt base (n # p) = leaf_opt ?bm p"
        by (cases p) (auto simp: leaf_opt_Cons split: option.splits cvalue.splits)
      with Some vm Cons.IH[of ?bm vm] show ?thesis by (simp add: leaf_opt_Cons[of _ n] applyTypedOverrides_get)
    next
      case False
      have h: "parseWithHint f (leaf_opt base [n]) t = parseWithHint f (map_of base n) t" for t
        by (auto simp: leaf_opt_Cons parseWithHint_map split: option.splits cvalue.splits)
      have m: "map_of (applyTypedOverrides f base ov) n = Some (retype f (map_of base n) v)"
        using Some False by (cases v) (simp_all add: applyTypedOverrides_get)
      have s: "\<not> is_CMap (retype f (map_of base n) v)" using False parseWithHint_scalar by (cases v) (simp_all add: retype_def)
      have "leaf_opt ov [n] = Some v" "p \<noteq> [] \<Longrightarrow> leaf_opt ov (n # p) = None"
        using Some False by (cases v; simp add: leaf_opt_Cons)+
      moreover have "leaf_opt (applyTypedOverrides f base ov) [n] = Some (retype f (map_of base n) v)"
          "p \<noteq> [] \<Longrightarrow> leaf_opt (applyTypedOverrides f base ov) (n # p) = None"
        using m s by (cases "retype f (map_of base n) v"; simp add: leaf_opt_Cons)+
      moreover have "retype f (leaf_opt base [n]) v = retype f (map_of base n) v" by (cases v) (simp_all add: retype_def h)
      ultimately show ?thesis by (cases "p = []") simp_all
    qed
  qed (simp add: leaf_opt_Cons applyTypedOverrides_get)
qed simp

section \<open>Precedence\<close>

text \<open>
  The specification: layers, the latest first. The first that touches a path decides about it; the
  environment and the flags give their text the type of what lies below.
\<close>

definition typed_source :: "string \<Rightarrow> bool" where
  "typed_source src \<longleftrightarrow> src = ''env'' \<or> src = ''flags''"

fun effective :: "(string \<Rightarrow> string option) \<Rightarrow> (string \<times> cmap) list \<Rightarrow> string list \<Rightarrow> cvalue option" where
  "effective f [] p = None"
| "effective f ((src, m) # layers) p =
     (if touches m p
      then map_option (if typed_source src then retype f (effective f layers p) else id) (leaf_opt m p)
      else effective f layers p)"

fun deciding :: "(string \<times> cmap) list \<Rightarrow> string list \<Rightarrow> string option" where
  "deciding [] p = None"
| "deciding ((src, m) # layers) p = (if touches m p then Some src else deciding layers p)"

text \<open>The states that \<open>Load\<close> builds from layers.\<close>

inductive built :: "(string \<Rightarrow> string option) \<Rightarrow> (string \<times> cmap) list \<Rightarrow> load_state \<Rightarrow> bool" for f where
  start: "built f [] ([], [], [])"
| layer: "built f layers (mg, sm, srcs) \<Longrightarrow> normal_map m \<Longrightarrow> \<not> typed_source src \<Longrightarrow>
     built f ((src, m) # layers) (mergeMaps mg m, recordSources sm m src [], srcs @ [src])"
| override: "built f layers (mg, sm, srcs) \<Longrightarrow> normal_map m \<Longrightarrow> typed_source src \<Longrightarrow>
     built f ((src, m) # layers) (mergeMaps mg (applyTypedOverrides f mg m), recordSources sm m src [], srcs @ [src])"

lemma built_effective: "built f layers (mg, sm, srcs) \<Longrightarrow> normal_map mg \<and> (\<forall>p. p \<noteq> [] \<longrightarrow> leaf_opt mg p = effective f layers p)"
proof (induction layers "(mg, sm, srcs)" arbitrary: mg sm srcs rule: built.induct)
  case start
  then show ?case by (auto simp: leaf_opt_def neq_Nil_conv getPath_step)
next
  case (layer layers mg sm srcs m src)
  have "leaf_opt (mergeMaps mg m) p = (if touches m p then leaf_opt m p else leaf_opt mg p)" if "p \<noteq> []" for p
    using mergeMaps_leaf[OF layer.hyps(3)] leaf_touches that by (metis leaf_opt_Some not_None_eq)
  with layer show ?case by (simp add: normal_mergeMaps option.map_id)
next
  case (override layers mg sm srcs m src)
  let ?m = "applyTypedOverrides f mg m"
  have "leaf_opt (mergeMaps mg ?m) p = (if touches m p then map_option (retype f (leaf_opt mg p)) (leaf_opt m p) else leaf_opt mg p)"
    if "p \<noteq> []" for p
    using mergeMaps_leaf[OF applyTypedOverrides_normal[OF override.hyps(3)], of mg f mg] that
      applyTypedOverrides_touches applyTypedOverrides_leaf leaf_touches by (metis leaf_opt_Some not_None_eq)
  with override show ?case by (simp add: normal_mergeMaps applyTypedOverrides_normal)
qed

text \<open>The layers of one load, the latest first, as the code finds them.\<close>

definition file_layer :: "string \<Rightarrow> cmap option \<Rightarrow> (string \<times> cmap) list" where
  "file_layer src m = (case m of None \<Rightarrow> [] | Some m \<Rightarrow> [(src, m)])"

definition override_layer :: "string \<Rightarrow> cmap \<Rightarrow> (string \<times> cmap) list" where
  "override_layer src m = (if m = [] then [] else [(src, m)])"

definition config_layers :: "'t load_env \<Rightarrow> 't Options \<Rightarrow> (string \<times> cmap) list result" where
  "config_layers E opts =
     (let dir = le_dir E (DefaultConfigPath opts); env = resolveDeployEnv (le_environ E) opts;
          env_file = le_join E dir (''config.'' @ ToLower env @ ''.yaml'') in
      case loadConfigIfExists (le_read E) (DefaultConfigPath opts) of Inl e \<Rightarrow> Inl e | Inr m1 \<Rightarrow>
      case (if env = [] then Inr None else loadConfigIfExists (le_read E) env_file) of Inl e \<Rightarrow> Inl e | Inr m2 \<Rightarrow>
      case loadConfigIfExists (le_read E) (le_join E dir ''config.local.yaml'') of Inl e \<Rightarrow> Inl e | Inr m3 \<Rightarrow>
        Inr (override_layer ''flags'' (argsToMap (case Args opts of Some args \<Rightarrow> args | None \<Rightarrow> []))
             @ override_layer ''env'' (envToMap (le_environ E) (EnvPrefix opts) (EnvSeparator opts) (DeployEnvKey opts))
             @ file_layer ''local'' m3 @ file_layer ''env-file'' m2 @ file_layer ''default'' m1))"

lemma built_add_file:
  assumes "built f L st" and "m = None \<or> normal_map (the m)" and "\<not> typed_source src"
  shows "built f (file_layer src m @ L) (add_file src m st)"
proof (cases m)
  case (Some m')
  obtain mg sm srcs where "st = (mg, sm, srcs)" by (metis prod_cases3)
  with assms Some show ?thesis by (simp add: file_layer_def built.layer)
qed (use assms in \<open>simp add: file_layer_def\<close>)

lemma built_add_override:
  assumes "built f L st" and "normal_map m" and "typed_source src"
  shows "built f (override_layer src m @ L) (add_override f src m st)"
proof -
  obtain mg sm srcs where "st = (mg, sm, srcs)" by (metis prod_cases3)
  with assms show ?thesis by (cases m) (simp_all add: override_layer_def built.override)
qed

lemma loadConfigIfExists_normal: "loadConfigIfExists rd path = Inr m \<Longrightarrow> m = None \<or> normal_map (the m)"
  by (auto simp: loadConfigIfExists_def normal_normalizeMap split: if_splits read_result.splits)

lemma arg_entry_normal: "normal_map res \<Longrightarrow> normal_map (arg_entry arg res)"
  using Split_lower[of "ToLower (TrimSpace k)" for k]
  by (auto simp: arg_entry_def Let_def list_all_iff simp del: Split.simps intro!: normal_setPath split: list.split)

lemma argsToMap_normal: "normal_map (argsToMap args)"
proof -
  have "normal_map res \<Longrightarrow> normal_map (fold arg_entry args res)" for res
    by (induction args arbitrary: res) (simp_all add: arg_entry_normal)
  then show ?thesis by (simp add: argsToMap_def)
qed

lemma env_entry_normal: "normal_map res \<Longrightarrow> normal_map (env_entry pre sep dk kv res)"
  by (auto simp: env_entry_def splitEnvPath_def lowerNodes_def Let_def list_all_iff simp del: Split.simps intro!: normal_setPath split: list.split)

lemma envToMap_normal: "normal_map (envToMap environ pre sep dk)"
proof -
  have "normal_map res \<Longrightarrow> normal_map (fold (env_entry pre sep dk) environ res)" for res
    by (induction environ arbitrary: res) (simp_all add: env_entry_normal)
  then show ?thesis by (simp add: envToMap_def)
qed

lemma load_layers_built:
  "case config_layers E opts of
     Inl e \<Rightarrow> load_layers E opts = Inl e
   | Inr L \<Rightarrow> \<exists>st. load_layers E opts = Inr st \<and> built (le_ParseFloat E) L st"
proof -
  have b: "built (le_ParseFloat E) (override_layer ''flags'' (argsToMap args) @ override_layer ''env'' (envToMap environ pre sep dk)
      @ file_layer ''local'' m3 @ file_layer ''env-file'' m2 @ file_layer ''default'' m1)
     (add_override (le_ParseFloat E) ''flags'' (argsToMap args) (add_override (le_ParseFloat E) ''env'' (envToMap environ pre sep dk)
       (add_file ''local'' m3 (add_file ''env-file'' m2 (add_file ''default'' m1 ([], [], []))))))"
    if "m1 = None \<or> normal_map (the m1)" "m2 = None \<or> normal_map (the m2)" "m3 = None \<or> normal_map (the m3)"
    for args environ pre sep dk m1 m2 m3
    using that built_add_file[OF built.start, of m1 "''default''"]
    by (intro built_add_override built_add_file argsToMap_normal envToMap_normal)
      (simp_all add: typed_source_def)
  show ?thesis
    unfolding config_layers_def load_layers_def Let_def
    by (auto simp del: add_file.simps add_override.simps split_paired_Ex split: sum.split
        intro!: b dest: loadConfigIfExists_normal split: if_splits)
qed

lemma built_normal: "built f L st \<Longrightarrow> list_all (\<lambda>l. normal_map (snd l)) L"
  by (induction rule: built.induct) simp_all

lemma built_names: "built f L (mg, sm, srcs) \<Longrightarrow> srcs = rev (map fst L)"
  by (induction L "(mg, sm, srcs)" arbitrary: mg sm srcs rule: built.induct) simp_all

text \<open>
  C34. Loading a configuration refines the precedence of its layers: flags over environment variables
  over the local file over the file of the deployment environment over the default file. At every path the
  value is the one of the latest layer that has the path or cuts it off, texts of the environment and of
  flags typed after what lies below; the sources reported are the layers found, in order; keys of the
  result are lower-case and unique at every level; and a file that exists and cannot be read is an error.
\<close>

theorem config_precedence:
  "case config_layers E opts of
     Inl e \<Rightarrow> load_layers E opts = Inl e
   | Inr L \<Rightarrow> \<exists>merged sourceMap. load_layers E opts = Inr (merged, sourceMap, rev (map fst L)) \<and> normal_map merged
       \<and> (\<forall>n p. leaf_opt merged (n # p) = effective (le_ParseFloat E) L (n # p))"
  using load_layers_built[of E opts] built_effective built_names
  by (auto split: sum.splits)

text \<open>The environment of the witnesses: a default and a local file, one variable and one flag.\<close>

definition demo_load :: "cmap load_env" where
  "demo_load = \<lparr>le_read = (\<lambda>path. if path = ''c/config.yaml'' then Settings (CMap [(''Trace'', CBool True), (''Db'', CMap [(''Debug'', CBool False)])])
       else if path = ''c/config.local.yaml'' then Settings (CMap [(''db'', CMap [(''password'', CStr ''pw'')])]) else FileNotFound),
     le_environ = [''PATH=/bin'', ''APP__TRACE=0''], le_os_args = [''prog'', ''--db.debug=true''], le_dir = (\<lambda>p. ''c''),
     le_join = (\<lambda>a b. a @ ''/'' @ b), le_ParseFloat = (\<lambda>s. None), le_fmtv = (\<lambda>v. ''v''), le_sha256 = id, le_decode = (\<lambda>strict m. Inr m)\<rparr>"

definition demo_options :: "cmap Options" where
  "demo_options = (NewOptions [])\<lparr>DefaultConfigPath := ''c/config.yaml'', Args := Some [''--db.debug=true'']\<rparr>"

section \<open>Sensitive values\<close>

fun source_of :: "(string \<times> cmap) list \<Rightarrow> string \<Rightarrow> string option" where
  "source_of [] key = None"
| "source_of ((src, m) # layers) key = (if key \<in> leaf_keys m [] then Some src else source_of layers key)"

lemma built_sources: "built f L (mg, sm, srcs) \<Longrightarrow> map_of sm key = source_of L key"
  by (induction L "(mg, sm, srcs)" arbitrary: mg sm srcs rule: built.induct) (simp_all add: recordSources_get)

abbreviation plain_layers :: "(string \<times> cmap) list \<Rightarrow> bool" where
  "plain_layers L \<equiv> list_all (\<lambda>l. plain_map (snd l)) L"

lemma effective_plain: "plain_layers L \<Longrightarrow> effective f L p = Some v \<Longrightarrow> p \<noteq> [] \<Longrightarrow> plain_path p"
  by (induction f L p arbitrary: v rule: effective.induct) (auto simp: leaf_opt_Some simp del: plain.simps(1) dest: leaf_plain split: if_splits)

lemma deciding_source:
  "plain_layers L \<Longrightarrow> effective f L p = Some v \<Longrightarrow> p \<noteq> [] \<Longrightarrow> source_of L (dotpath [] p) = deciding L p"
proof (induction L arbitrary: v)
  case (Cons l L)
  obtain src m where l: "l = (src, m)" by fastforce
  have pm: "plain_map m" using Cons.prems(1) l by simp
  show ?case
  proof (cases "touches m p")
    case True
    then obtain w where "leaf_at m p w" using Cons.prems l by (auto simp: leaf_opt_Some split: if_splits)
    then have "dotpath [] p \<in> leaf_keys m []" by (auto simp: leaf_keys_def)
    with True l show ?thesis by simp
  next
    case False
    have "dotpath [] p \<notin> leaf_keys m []"
    proof
      assume "dotpath [] p \<in> leaf_keys m []"
      then obtain q w where q: "leaf_at m q w" "dotpath [] p = dotpath [] q" by (auto simp: leaf_keys_def)
      have "p = q"
        by (rule dotpath_inj)
          (use q Cons.prems effective_plain[OF Cons.prems] leaf_plain[OF pm] leaf_nonempty in auto)
      with q False leaf_touches show False by blast
    qed
    with False l Cons show ?thesis by simp
  qed
qed simp

lemma check_sensitive_ok:
  "check_sensitive sources sensitive flat = None \<Longrightarrow> (path, v) \<in> set flat \<Longrightarrow> isSensitivePath path sensitive \<Longrightarrow> \<not> isEmpty v \<Longrightarrow>
     map_of sources path \<in> {Some ''env'', Some ''local''} \<and> (\<forall>s. v = CStr s \<longrightarrow> \<not> isPlaceholder s)"
  by (induction sources sensitive flat rule: check_sensitive.induct) (auto split: if_splits cvalue.splits)

text \<open>
  C36. Sensitive values: when \<open>Load\<close> succeeds, a value that is not empty and lies at a path with a sensitive
  word in it was decided by the environment or the local file, never by the default file, the file of the
  deployment environment or a flag, and is no placeholder text. The paths are those of nested maps: a list
  is one value, and keys inside its elements are not checked by the code
  (\<open>sensitive_in_list_unchecked\<close>). Keys are taken to be neither empty nor to hold a dot, as viper builds them.
\<close>

theorem config_sensitive:
  assumes "Load E opts = Inr (out, meta)" and "config_layers E (withDefaults (le_os_args E) opts) = Inr L" and "plain_layers L"
    and "effective (le_ParseFloat E) L p = Some v" and "p \<noteq> []"
    and "isSensitivePath (dotpath [] p) (case SensitiveKeys opts of Some ks \<Rightarrow> ks | None \<Rightarrow> default_sensitive)" and "\<not> isEmpty v"
  shows "deciding L p \<in> {Some ''env'', Some ''local''} \<and> (\<forall>s. v = CStr s \<longrightarrow> \<not> isPlaceholder s)"
proof -
  let ?opts = "withDefaults (le_os_args E) opts"
  let ?S = "case SensitiveKeys ?opts of Some ks \<Rightarrow> ks | None \<Rightarrow> []"
  have S: "?S = (case SensitiveKeys opts of Some ks \<Rightarrow> ks | None \<Rightarrow> default_sensitive)"
    by (auto simp: withDefaults_def Let_def split: option.splits)
  obtain mg sm srcs where ll: "load_layers E ?opts = Inr (mg, sm, srcs)" and b: "built (le_ParseFloat E) L (mg, sm, srcs)"
    using load_layers_built[of E ?opts] assms(2) by auto
  have ok: "check_sensitive sm ?S (flattenMap mg []) = None"
    using assms(1) ll by (auto simp: Load_def Let_def validateSensitiveSources_def split: option.splits)
  have n: "normal_map mg" using built_effective[OF b] by blast
  have e: "leaf_at mg q w \<longleftrightarrow> effective (le_ParseFloat E) L q = Some w" if "q \<noteq> []" for q w
    using built_effective[OF b] leaf_opt_Some[OF that, of mg w] that by simp
  have "leaf_at mg p v" using assms(4,5) e by simp
  then have "dotpath [] p \<in> fst ` set (flattenMap mg [])" by (auto simp: flattenMap_keys[OF n] leaf_keys_def)
  then obtain w where w: "(dotpath [] p, w) \<in> set (flattenMap mg [])" by auto
  then obtain q where q: "leaf_at mg q w" "dotpath [] p = dotpath [] q" using flattenMap_sound[OF n] by blast
  have "q \<noteq> []" using q leaf_nonempty by blast
  then have "plain_path q" using q e effective_plain[OF assms(3)] by blast
  then have "p = q"
    using q \<open>q \<noteq> []\<close> effective_plain[OF assms(3-5)] assms(5) by (intro dotpath_inj)
  with q \<open>leaf_at mg p v\<close> have "w = v" using leaf_unique by blast
  with check_sensitive_ok[OF ok w] assms(6,7) S have "map_of sm (dotpath [] p) \<in> {Some ''env'', Some ''local''} \<and> (\<forall>s. v = CStr s \<longrightarrow> \<not> isPlaceholder s)"
    by simp
  then show ?thesis using built_sources[OF b] deciding_source[OF assms(3-5)] by simp
qed

lemma demo_load_layers:
  "config_layers demo_load (withDefaults [''prog'', ''--db.debug=true''] demo_options) =
     Inr [(''flags'', [(''db'', CMap [(''debug'', CStr ''true'')])]), (''env'', [(''trace'', CStr ''0'')]),
          (''local'', [(''db'', CMap [(''password'', CStr ''pw'')])]),
          (''default'', [(''trace'', CBool True), (''db'', CMap [(''debug'', CBool False)])])]"
  by code_simp

theorem config_sensitive_witness:
  "deciding [(''flags'', [(''db'', CMap [(''debug'', CStr ''true'')])]), (''env'', [(''trace'', CStr ''0'')]),
          (''local'', [(''db'', CMap [(''password'', CStr ''pw'')])]),
          (''default'', [(''trace'', CBool True), (''db'', CMap [(''debug'', CBool False)])])] [''db'', ''password'']
     \<in> {Some ''env'', Some ''local''}"
proof -
  have a: "le_os_args demo_load = [''prog'', ''--db.debug=true'']" "SensitiveKeys demo_options = Some default_sensitive"
    by (simp_all add: demo_load_def demo_options_def NewOptions_def withDefaults_def)
  have "case Load demo_load demo_options of Inr r \<Rightarrow> True | Inl e \<Rightarrow> False" by code_simp
  then obtain out meta where "Load demo_load demo_options = Inr (out, meta)" by (auto split: sum.splits)
  note c = config_sensitive[where p = "[''db'', ''password'']" and v = "CStr ''pw''", OF this, unfolded a, OF demo_load_layers]
  show ?thesis by (rule c[THEN conjunct1]) (simp add: list_all_iff, code_simp+)
qed

section \<open>Masking\<close>

fun scalars :: "cvalue \<Rightarrow> cvalue list" where
  "scalars (CMap m) = concat (map (\<lambda>kv. scalars (snd kv)) m)"
| "scalars (CList vs) = concat (map scalars vs)"
| "scalars v = [v]"

lemma isSensitivePath_below: "isSensitivePath path S \<Longrightarrow> isSensitivePath (path @ q) S"
  by (fastforce simp: isSensitivePath_def list_ex_iff Contains_iff)

lemma maskValue_sensitive: "isSensitivePath path S \<Longrightarrow> set (scalars (maskValue S path v)) \<subseteq> {CStr ''***''}"
proof (induction S path v rule: maskValue.induct)
  case (1 S path t)
  then show ?case using isSensitivePath_below[of path S] by fastforce
next
  case (2 S path t)
  then show ?case by fastforce
qed simp_all

lemma maskMap_path:
  "getPath (maskMap m S) (n # p) = map_option (maskValue S (n @ concat (map (\<lambda>k. CHR ''.'' # k) p))) (getPath m (n # p))"
proof -
  have top: "map_of (map (\<lambda>(k, v). (k, g k v)) t) n = map_option (g n) (map_of t n)" for g :: "string \<Rightarrow> cvalue \<Rightarrow> cvalue" and t n
    by (induction t) auto
  have "getPath (map (\<lambda>(k, v). (k, maskValue S (pre @ k) v)) t) (n # p)
      = map_option (maskValue S (pre @ n @ concat (map (\<lambda>k. CHR ''.'' # k) p))) (getPath t (n # p))" for pre t
  proof (induction p arbitrary: pre t n)
    case Nil
    then show ?case by (simp add: top)
  next
    case (Cons k p)
    show ?case
    proof (cases "map_of t n")
      case (Some v)
      show ?thesis
      proof (cases v)
        case (CMap u)
        from Cons[of "pre @ n @ ''.''" u k] CMap Some show ?thesis by (simp add: top)
      qed (auto simp: top Some split: option.split)
    qed (simp add: top)
  qed
  from this[of "[]" m] show ?thesis by (simp add: maskMap_def)
qed



text \<open>
  Limits of the two checks: a password with an \<open>@\<close> in it is masked up to that \<open>@\<close> only, and a sensitive key
  inside a list is masked in the summary but not held to the rule on sources.
\<close>

lemma maskURI_leaks_after_at: "maskURI ''pg://bob:pa@ss@h/db'' = Some ''pg://bob:***@ss@h/db''"
  by code_simp

lemma sensitive_in_list_unchecked:
  "validateSensitiveSources [(''users'', CList [CMap [(''password'', CStr ''x'')]])] [(''users'', ''default'')] default_sensitive = None
   \<and> maskMap [(''users'', CList [CMap [(''password'', CStr ''x'')]])] default_sensitive = [(''users'', CList [CMap [(''password'', CStr ''***'')]])]"
  by code_simp

text \<open>A text override of a text value is typed all the same: a numeric password loses its leading zeros, \<open>1\<close> becomes true.\<close>

lemma string_override_retyped:
  "parseWithHint f (Some (CStr old)) ''007'' = CInt64 7" "parseWithHint f (Some (CStr old)) ''1'' = CBool True"
  by (simp_all add: parseWithHint_def parse_plain_def ParseBool_def ParseInt_def ParseUint_def digit_val_def)

section \<open>Required keys and flags\<close>

text \<open>
  Required keys: validation passes exactly when each is present, in any case of its letters, with a
  value that is not empty; otherwise the error names the first one that is missing, as it was given.
\<close>

theorem required_keys:
  "case validateRequired m keys of
     None \<Rightarrow> list_all (\<lambda>key. \<exists>v. getPath m (Split (ToLower key) ''.'') = Some v \<and> \<not> isEmpty v) keys
   | Some e \<Rightarrow> (\<exists>before key after. keys = before @ key # after \<and> e = NewValidationError (''missing '' @ key) [] None
       \<and> list_all (\<lambda>key. \<exists>v. getPath m (Split (ToLower key) ''.'') = Some v \<and> \<not> isEmpty v) before
       \<and> (\<forall>v. getPath m (Split (ToLower key) ''.'') = Some v \<longrightarrow> isEmpty v))"
proof (induction m keys rule: validateRequired.induct)
  case (2 m key keys)
  show ?case
  proof (cases "\<exists>v. getPath m (Split (ToLower key) ''.'') = Some v \<and> \<not> isEmpty v")
    case True
    then obtain v where v: "getPath m (Split (ToLower key) ''.'') = Some v" "\<not> isEmpty v" by blast
    note IH = "2.IH"[OF v]
    show ?thesis
    proof (cases "validateRequired m keys")
      case (Some e)
      with IH obtain before k after where "keys = before @ k # after" "e = NewValidationError (''missing '' @ k) [] None"
        "list_all (\<lambda>key. \<exists>v. getPath m (Split (ToLower key) ''.'') = Some v \<and> \<not> isEmpty v) before"
        "\<forall>v. getPath m (Split (ToLower k) ''.'') = Some v \<longrightarrow> isEmpty v" by (simp del: Split.simps) blast
      with Some v show ?thesis
        by (simp del: Split.simps) (intro exI[of _ "key # before"] exI[of _ k], simp del: Split.simps)
    qed (use IH v in \<open>simp del: Split.simps\<close>)
  next
    case False
    then have "validateRequired m (key # keys) = Some (NewValidationError (''missing '' @ key) [] None)"
      by (auto simp del: Split.simps split: option.split)
    with False show ?thesis
      by (simp del: Split.simps validateRequired.simps) (intro exI[of _ "[]"] exI[of _ key], simp del: Split.simps)
  qed
qed simp

end
