(* ===== verification/Config_Types.thy ===== *)
theory Config_Types
  imports Config_Load
begin

text \<open>
  \<open>config/config.go\<close>: the types of configuration values. Environment variables and flags are texts;
  \<open>parseWithHint\<close> gives them the type of the value they override when they are literals of that type.

  Lemmas: overriding keeps the type exactly for such literals; a loaded configuration conforms to the schema its
  default file sets when every layer does.
\<close>

section \<open>Kinds\<close>

datatype kind = KNil | KBool | KInt | KInt64 | KFloat | KStr | KOther | KList | KMap

fun kind_of :: "cvalue \<Rightarrow> kind" where
  "kind_of CNil = KNil"
| "kind_of (CBool b) = KBool"
| "kind_of (CInt i) = KInt"
| "kind_of (CInt64 i) = KInt64"
| "kind_of (CFloat s) = KFloat"
| "kind_of (CStr s) = KStr"
| "kind_of (COther s) = KOther"
| "kind_of (CList vs) = KList"
| "kind_of (CMap m) = KMap"
| "kind_of (CAnyMap m) = KMap"

text \<open>A text that is a literal of a kind. As a string only a text that is no boolean and no number counts.\<close>

fun literal :: "(string \<Rightarrow> string option) \<Rightarrow> kind \<Rightarrow> string \<Rightarrow> bool" where
  "literal pf KBool s \<longleftrightarrow> ParseBool s \<noteq> None"
| "literal pf KInt s \<longleftrightarrow> (\<exists>i. ParseInt s 64 = Inr i)"
| "literal pf KInt64 s \<longleftrightarrow> (\<exists>i. ParseInt s 64 = Inr i)"
| "literal pf KFloat s \<longleftrightarrow> pf s \<noteq> None"
| "literal pf KStr s \<longleftrightarrow> ParseBool s = None \<and> (\<forall>i. ParseInt s 64 \<noteq> Inr i) \<and> pf s = None"
| "literal pf _ s \<longleftrightarrow> False"

lemma parse_plain_kind:
  "kind_of (parse_plain pf s) = KBool \<longleftrightarrow> ParseBool s \<noteq> None"
  "kind_of (parse_plain pf s) = KStr \<longleftrightarrow> literal pf KStr s"
  "kind_of (parse_plain pf s) \<in> {KBool, KInt64, KFloat, KStr}"
  by (auto simp: parse_plain_def split: option.split sum.split)

text \<open>The hint keeps the type exactly when the text is a literal of it.\<close>

lemma parseWithHint_kind:
  "kind_of (parseWithHint pf (Some v) s) = kind_of v \<longleftrightarrow> literal pf (kind_of v) s"
proof (cases v)
  case (CInt i)
  then show ?thesis using parse_plain_kind(3)[of pf s] by (auto simp: parseWithHint_def split: sum.split)
next
  case (CInt64 i)
  then show ?thesis by (auto simp: parseWithHint_def parse_plain_def split: sum.split option.split)
next
  case (CFloat f)
  then show ?thesis by (auto simp: parseWithHint_def parse_plain_def split: sum.split option.split)
next
  case (CBool b)
  then show ?thesis using parse_plain_kind(1)[of pf s] by (auto simp: parseWithHint_def split: option.split)
next
  case (CStr t)
  then show ?thesis using parse_plain_kind(2)[of pf s] by (simp add: parseWithHint_def)
qed (use parse_plain_kind(3)[of pf s] in \<open>auto simp: parseWithHint_def\<close>)

section \<open>Schemas\<close>

text \<open>A schema gives the kinds of some paths. A file fits it with values of these kinds, an override with literals.\<close>

type_synonym schema = "(string list \<times> kind) list"

definition fits_value :: "(string \<Rightarrow> string option) \<Rightarrow> bool \<Rightarrow> kind \<Rightarrow> cvalue \<Rightarrow> bool" where
  "fits_value pf typed t x \<longleftrightarrow>
     (case x of
        CStr s \<Rightarrow> if typed then literal pf t s else t = KStr
      | _ \<Rightarrow> kind_of x = t)"

definition fits_layer :: "(string \<Rightarrow> string option) \<Rightarrow> schema \<Rightarrow> string \<times> cmap \<Rightarrow> bool" where
  "fits_layer pf S layer \<longleftrightarrow>
     (\<forall>(p, t) \<in> set S. touches (snd layer) p \<longrightarrow>
        (case leaf_opt (snd layer) p of Some x \<Rightarrow> fits_value pf (typed_source (fst layer)) t x | None \<Rightarrow> False))"

text \<open>The lowest layer is a file that sets every path of the schema.\<close>

definition sets_schema :: "schema \<Rightarrow> string \<times> cmap \<Rightarrow> bool" where
  "sets_schema S layer \<longleftrightarrow> \<not> typed_source (fst layer) \<and> (\<forall>(p, t) \<in> set S. touches (snd layer) p)"

definition conforms :: "schema \<Rightarrow> (string list \<Rightarrow> cvalue option) \<Rightarrow> bool" where
  "conforms S get \<longleftrightarrow> (\<forall>(p, t) \<in> set S. \<exists>x. get p = Some x \<and> kind_of x = t)"

lemma fits_file: "fits_value pf False t x \<Longrightarrow> kind_of x = t"
  by (cases x) (simp_all add: fits_value_def)

lemma fits_override: "fits_value pf True t x \<Longrightarrow> kind_of v = t \<Longrightarrow> kind_of (retype pf (Some v) x) = t"
  using parseWithHint_kind[of pf v] by (cases x) (auto simp: fits_value_def retype_def)

lemma effective_conforms:
  assumes "L \<noteq> []" and "sets_schema S (last L)" and "\<forall>layer \<in> set L. fits_layer pf S layer"
  shows "conforms S (effective pf L)"
  using assms
proof (induction L)
  case (Cons layer L)
  obtain src m where layer: "layer = (src, m)" by fastforce
  have "\<exists>x. effective pf (layer # L) p = Some x \<and> kind_of x = t" if pt: "(p, t) \<in> set S" for p t
  proof (cases "touches m p")
    case False
    then have "L \<noteq> []" using Cons.prems(2) pt layer by (auto simp: sets_schema_def)
    with Cons have "conforms S (effective pf L)" by simp
    with False pt layer show ?thesis by (auto simp: conforms_def)
  next
    case True
    have "fits_layer pf S (src, m)" using Cons.prems(3) layer by simp
    with True pt obtain x where x: "leaf_opt m p = Some x" "fits_value pf (typed_source src) t x"
      by (force simp: fits_layer_def split: option.splits)
    show ?thesis
    proof (cases "typed_source src")
      case False
      with True x layer fits_file[of pf t x] show ?thesis by simp
    next
      case ty: True
      then have "L \<noteq> []" using Cons.prems(2) layer by (auto simp: sets_schema_def)
      with Cons have "conforms S (effective pf L)" by simp
      with pt obtain v where "effective pf L p = Some v" "kind_of v = t" by (auto simp: conforms_def)
      with True ty x layer fits_override[of pf t x v] show ?thesis by simp
    qed
  qed
  then show ?case by (auto simp: conforms_def)
qed simp

section \<open>Properties\<close>

text \<open>
  C35. Types of a loaded configuration. When the default file sets every path of a schema and every layer fits it
  (files with values of the right kinds, environment variables and flags with literals of them), every path of the
  schema has a value of its kind in the loaded configuration. And literals are needed: an override
  by any other text changes the kind.
\<close>

theorem config_types:
  assumes "config_layers E opts = Inr L" and "load_layers E opts = Inr (merged, sourceMap, sources)"
    and "L \<noteq> []" and "sets_schema S (last L)" and "\<forall>layer \<in> set L. fits_layer (le_ParseFloat E) S layer"
    and "\<forall>(p, t) \<in> set S. p \<noteq> []"
  shows "conforms S (leaf_opt merged)
    \<and> (\<forall>v s. kind_of (parseWithHint (le_ParseFloat E) (Some v) s) = kind_of v \<longleftrightarrow> literal (le_ParseFloat E) (kind_of v) s)"
proof -
  from load_layers_built[of E opts] assms(1,2) have "built (le_ParseFloat E) L (merged, sourceMap, sources)" by auto
  from built_effective[OF this] effective_conforms[OF assms(3-5)] assms(6) show ?thesis
    unfolding parseWithHint_kind by (force simp: conforms_def)
qed

theorem config_types_witness:
  "\<exists>merged sm srcs. load_layers demo_load (withDefaults [''prog'', ''--db.debug=true''] demo_options) = Inr (merged, sm, srcs)
    \<and> (\<exists>b. leaf_opt merged [''trace''] = Some (CBool b)) \<and> (\<exists>b. leaf_opt merged [''db'', ''debug''] = Some (CBool b))"
proof -
  let ?o = "withDefaults [''prog'', ''--db.debug=true''] demo_options"
  let ?S = "[([''trace''], KBool), ([''db'', ''debug''], KBool)]"
  let ?L = "[(''flags'', [(''db'', CMap [(''debug'', CStr ''true'')])]), (''env'', [(''trace'', CStr ''0'')]),
          (''local'', [(''db'', CMap [(''password'', CStr ''pw'')])]),
          (''default'', [(''trace'', CBool True), (''db'', CMap [(''debug'', CBool False)])])]"
  have "case load_layers demo_load ?o of Inr r \<Rightarrow> True | Inl e \<Rightarrow> False" by code_simp
  then obtain merged sm srcs where l: "load_layers demo_load ?o = Inr (merged, sm, srcs)" by (auto split: sum.splits)
  have f: "sets_schema ?S (last ?L)" "\<forall>layer \<in> set ?L. fits_layer (le_ParseFloat demo_load) ?S layer"
    "\<forall>(p, t) \<in> set ?S. p \<noteq> []" "?L \<noteq> []"
    by (simp_all add: sets_schema_def fits_layer_def fits_value_def typed_source_def leaf_opt_def ParseBool_def)
  have k: "kind_of x = KBool \<longleftrightarrow> (\<exists>b. x = CBool b)" for x by (cases x) simp_all
  from config_types[OF demo_load_layers l f(4,1,2,3)] have "conforms ?S (leaf_opt merged)" by blast
  with l k show ?thesis by (auto simp: conforms_def)
qed

end
