(* ===== verification/Net_Url.thy ===== *)
theory Net_Url
  imports Datax_Errors "HOL-Library.AList" "HOL-Library.Char_ord" "HOL-Library.List_Lexorder"
begin

text \<open>
  The part of \<open>net/url\<close> that \<open>resource/parse.go\<close> and \<open>httpx/req.go\<close> use: escaping and query strings.
  \<open>url.Values\<close> is an association list in the order one \<open>range\<close> loop visits the map.

  Lemmas: unescaping undoes escaping, and parsing an encoded query gives its values back.
\<close>

section \<open>Escapes\<close>

definition hex_val :: "char \<Rightarrow> nat option" where
  "hex_val c =
     (let n = of_char c :: nat in
      if 48 \<le> n \<and> n \<le> 57 then Some (n - 48)
      else if 97 \<le> n \<and> n \<le> 102 then Some (n - 87)
      else if 65 \<le> n \<and> n \<le> 70 then Some (n - 55)
      else None)"

definition quote_char :: "char \<Rightarrow> string" where
  "quote_char c =
     (let n = of_char c :: nat; bs = CHR 0x5C in
      if n = 34 \<or> n = 92 then [bs, c]
      else if n = 7 then [bs, CHR ''a''] else if n = 8 then [bs, CHR ''b''] else if n = 12 then [bs, CHR ''f'']
      else if n = 10 then [bs, CHR ''n''] else if n = 13 then [bs, CHR ''r''] else if n = 9 then [bs, CHR ''t'']
      else if n = 11 then [bs, CHR ''v'']
      else if n < 32 \<or> n = 127 then [bs, CHR ''x''] @ hex_encode [c]
      else [c])"

definition Quote :: "string \<Rightarrow> string" where
  "Quote s = [CHR 0x22] @ concat (map quote_char s) @ [CHR 0x22]"

text \<open>\<open>url.QueryUnescape\<close> (\<open>query\<close>: a plus sign is a space) and \<open>url.PathUnescape\<close>.\<close>

fun unescape :: "bool \<Rightarrow> string \<Rightarrow> string result" where
  "unescape query [] = Inr []"
| "unescape query (c # s) =
     (if c = CHR ''%'' then
        (case s of
           a # b # rest \<Rightarrow>
             (case (hex_val a, hex_val b) of
                (Some h, Some l) \<Rightarrow>
                  (case unescape query rest of Inl e \<Rightarrow> Inl e | Inr t \<Rightarrow> Inr (char_of (16 * h + l) # t))
              | _ \<Rightarrow> Inl (OpaqueError (''invalid URL escape '' @ Quote (take 3 (c # s)))))
         | _ \<Rightarrow> Inl (OpaqueError (''invalid URL escape '' @ Quote (take 3 (c # s)))))
      else
        (case unescape query s of
           Inl e \<Rightarrow> Inl e
         | Inr t \<Rightarrow> Inr ((if query \<and> c = CHR ''+'' then CHR '' '' else c) # t)))"

definition QueryUnescape :: "string \<Rightarrow> string result" where "QueryUnescape = unescape True"
definition PathUnescape :: "string \<Rightarrow> string result" where "PathUnescape = unescape False"

text \<open>\<open>url.ParseQuery\<close>: the values and the error, which it both returns.\<close>

type_synonym url_values = "(string \<times> string list) list"

fun parse_pairs :: "string list \<Rightarrow> url_values \<times> go_error option \<Rightarrow> url_values \<times> go_error option" where
  "parse_pairs [] (m, err) = (m, err)"
| "parse_pairs (pair # pairs) (m, err) =
     parse_pairs pairs
       (if Contains pair '';'' then (m, Some (OpaqueError ''invalid semicolon separator in query''))
        else if pair = [] then (m, err)
        else
          case Cut pair ''='' of
            (k, v, _) \<Rightarrow>
              (case QueryUnescape k of
                 Inl e \<Rightarrow> (m, if err = None then Some e else err)
               | Inr key \<Rightarrow>
                   (case QueryUnescape v of
                      Inl e \<Rightarrow> (m, if err = None then Some e else err)
                    | Inr val \<Rightarrow>
                        (AList.update key ((case map_of m key of Some vs \<Rightarrow> vs | None \<Rightarrow> []) @ [val]) m, err))))"

definition ParseQuery :: "string \<Rightarrow> url_values \<times> go_error option" where
  "ParseQuery query = parse_pairs (Split query ''&'') ([], None)"

text \<open>\<open>url.QueryEscape\<close>.\<close>

definition unreserved :: "char \<Rightarrow> bool" where
  "unreserved c =
     (let n = of_char c :: nat in
      (97 \<le> n \<and> n \<le> 122) \<or> (65 \<le> n \<and> n \<le> 90) \<or> (48 \<le> n \<and> n \<le> 57) \<or> c \<in> set ''-_.~'')"

definition upper_hex :: "nat \<Rightarrow> char" where
  "upper_hex d = (if d < 10 then char_of (48 + d) else char_of (55 + d))"

definition escape_char :: "char \<Rightarrow> string" where
  "escape_char c =
     (if unreserved c then [c] else if c = CHR '' '' then ''+''
      else [CHR ''%'', upper_hex (of_char c div 16), upper_hex (of_char c mod 16)])"

definition QueryEscape :: "string \<Rightarrow> string" where
  "QueryEscape s = concat (map escape_char s)"

lemma upper_hex_val: "d < 16 \<Longrightarrow> hex_val (upper_hex d) = Some d"
  by (auto simp: hex_val_def upper_hex_def Let_def)

lemma upper_hex_plain: "d < 16 \<Longrightarrow> upper_hex d \<notin> set ''&=#;%''"
proof -
  assume "d < 16"
  then have "d \<in> set [0..<16]" by simp
  moreover have "\<forall>d \<in> set [0..<16]. upper_hex d \<notin> set ''&=#;%''" by code_simp
  ultimately show ?thesis by blast
qed

lemma char_halves: "(of_char c :: nat) div 16 < 16" "(of_char c :: nat) mod 16 < 16"
    "char_of (16 * ((of_char c :: nat) div 16) + of_char c mod 16) = c"
proof -
  have "(of_char c :: nat) < 256" by (rule nat_of_char_less_256)
  then show "(of_char c :: nat) div 16 < 16" "(of_char c :: nat) mod 16 < 16" by linarith+
  have "16 * ((of_char c :: nat) div 16) + of_char c mod 16 = of_char c" by simp
  then show "char_of (16 * ((of_char c :: nat) div 16) + of_char c mod 16) = c" by (metis char_of_char)
qed

lemma unescape_escape: "unescape True (QueryEscape s) = Inr s"
proof (induction s)
  case (Cons c s)
  have u: "unreserved c \<Longrightarrow> c \<noteq> CHR ''%'' \<and> c \<noteq> CHR ''+''" by (auto simp: unreserved_def)
  show ?case
  proof (cases "unreserved c \<or> c = CHR '' ''")
    case True
    with Cons u show ?thesis by (auto simp: QueryEscape_def escape_char_def)
  next
    case False
    with Cons show ?thesis by (simp add: QueryEscape_def escape_char_def upper_hex_val char_halves)
  qed
qed (simp add: QueryEscape_def)

lemma escape_plain: "set (QueryEscape s) \<inter> set ''&=#;'' = {}"
proof -
  have "set (escape_char c) \<inter> set ''&=#;'' = {}" for c
  proof (cases "unreserved c")
    case True
    then show ?thesis by (auto simp: escape_char_def unreserved_def)
  next
    case False
    have "upper_hex (of_char c div 16) \<notin> set ''&=#;%''" "upper_hex (of_char c mod 16) \<notin> set ''&=#;%''"
      by (rule upper_hex_plain, rule char_halves)+
    with False show ?thesis by (auto simp: escape_char_def)
  qed
  then show ?thesis by (fastforce simp: QueryEscape_def)
qed

lemma byte_not_contained: "c \<notin> set s \<Longrightarrow> \<not> Contains s [c]"
  by (auto simp: Contains_iff)

section \<open>Encoding values\<close>

text \<open>\<open>url.Values.Add\<close> and \<open>url.Values.Encode\<close>; a missing key has no values.\<close>

definition values_of :: "url_values \<Rightarrow> string \<Rightarrow> string list" where
  "values_of m k = (case map_of m k of Some vs \<Rightarrow> vs | None \<Rightarrow> [])"

definition values_Add :: "string \<Rightarrow> string \<Rightarrow> url_values \<Rightarrow> url_values" where
  "values_Add k v m = AList.update k (values_of m k @ [v]) m"

definition encode_pair :: "string \<times> string \<Rightarrow> string" where
  "encode_pair kv = (case kv of (k, v) \<Rightarrow> QueryEscape k @ ''='' @ QueryEscape v)"

definition key_pairs :: "url_values \<Rightarrow> (string \<times> string) list" where
  "key_pairs m = concat (map (\<lambda>(k, vs). map (\<lambda>v. (k, v)) vs) m)"

definition values_Encode :: "url_values \<Rightarrow> string" where
  "values_Encode m = Join (map encode_pair (key_pairs (sort_key fst m))) ''&''"

lemma values_of_Add: "values_of (values_Add k v m) j = values_of m j @ (if j = k then [v] else [])"
  by (simp add: values_of_def values_Add_def update_conv' split: option.split)

lemma values_Add_distinct: "distinct (map fst m) \<Longrightarrow> distinct (map fst (values_Add k v m))"
  by (simp add: values_Add_def distinct_update)

text \<open>The values a list of pairs has for a key, in order.\<close>

definition picked :: "(string \<times> string) list \<Rightarrow> string \<Rightarrow> string list" where
  "picked ps k = map snd (filter (\<lambda>p. fst p = k) ps)"

lemma picked_simps [simp]:
  "picked [] k = []" "picked ((j, v) # ps) k = (if j = k then [v] else []) @ picked ps k"
  "picked (ps @ qs) k = picked ps k @ picked qs k"
  by (simp_all add: picked_def)

lemma picked_key: "picked (map (\<lambda>v. (j, v)) vs) k = (if j = k then vs else [])"
  by (induction vs) simp_all

lemma picked_key_pairs: "distinct (map fst m) \<Longrightarrow> picked (key_pairs m) k = values_of m k"
proof (induction m)
  case (Cons a m)
  obtain j vs where a: "a = (j, vs)" by fastforce
  have "values_of m j = []" using Cons.prems a by (auto simp: values_of_def dest: map_of_SomeD split: option.split) (metis image_eqI fst_conv)
  with Cons a show ?case by (auto simp: key_pairs_def picked_key values_of_def)
qed (simp add: key_pairs_def values_of_def)

lemma sort_keys_distinct: "distinct (map fst m) \<Longrightarrow> distinct (map fst (sort_key fst m))"
  by (simp add: distinct_map)

lemma values_of_sort: "distinct (map fst m) \<Longrightarrow> values_of (sort_key fst m) k = values_of m k"
proof -
  assume d: "distinct (map fst m)"
  have "distinct (map fst (sort_key fst m))" using d by (rule sort_keys_distinct)
  then have "map_of (sort_key fst m) = map_of m"
    using d by (intro map_of_inject_set[THEN iffD2]) simp_all
  then show ?thesis by (simp add: values_of_def)
qed

fun add_pairs :: "(string \<times> string) list \<Rightarrow> url_values \<Rightarrow> url_values" where
  "add_pairs [] m = m"
| "add_pairs ((k, v) # ps) m = add_pairs ps (values_Add k v m)"

lemma values_of_add_pairs: "values_of (add_pairs ps m) k = values_of m k @ picked ps k"
  by (induction ps m rule: add_pairs.induct) (simp_all add: values_of_Add)

lemma add_pairs_distinct: "distinct (map fst m) \<Longrightarrow> distinct (map fst (add_pairs ps m))"
  by (induction ps m rule: add_pairs.induct) (simp_all add: values_Add_distinct)

lemma parse_encoded: "parse_pairs (map encode_pair ps) (m, None) = (add_pairs ps m, None)"
proof (induction ps arbitrary: m)
  case (Cons a ps)
  obtain k v where a: "a = (k, v)" by fastforce
  have p: "set (QueryEscape k @ ''='' @ QueryEscape v) \<inter> {CHR '';''} = {}" "CHR ''='' \<notin> set (QueryEscape k)"
    using escape_plain[of k] escape_plain[of v] by auto
  have "\<not> Contains (encode_pair (k, v)) '';''" using p(1) by (intro byte_not_contained) (auto simp: encode_pair_def)
  moreover have "Cut (encode_pair (k, v)) ''='' = (QueryEscape k, QueryEscape v, True)"
    using p(2) by (simp add: encode_pair_def Cut_byte)
  moreover have "encode_pair (k, v) \<noteq> []" by (simp add: encode_pair_def)
  ultimately show ?case using Cons unescape_escape
    by (simp add: a QueryUnescape_def values_Add_def values_of_def)
qed simp

lemma ParseQuery_Encode:
  assumes "distinct (map fst m)"
  shows "\<exists>m'. ParseQuery (values_Encode m) = (m', None) \<and> values_of m' = values_of m"
proof -
  define ps where "ps = key_pairs (sort_key fst m)"
  have "distinct (map fst (sort_key fst m))"
    using assms by (rule sort_keys_distinct)
  then have "picked ps k = values_of m k" for k using picked_key_pairs values_of_sort[OF assms] by (simp add: ps_def)
  then have v: "values_of (add_pairs ps []) = values_of m" by (simp add: fun_eq_iff values_of_add_pairs) (simp add: values_of_def)
  have amp: "CHR ''&'' \<notin> set (encode_pair p)" for p
    using escape_plain[of "fst p"] escape_plain[of "snd p"] by (auto simp: encode_pair_def split: prod.split)
  have "parse_pairs (Split (Join (map encode_pair ps) ''&'') ''&'') ([], None) = (add_pairs ps [], None)"
  proof (cases "ps = []")
    case True
    then show ?thesis by (simp add: Join_def Contains_iff)
  next
    case False
    then have "Split (Join (map encode_pair ps) ''&'') ''&'' = map encode_pair ps"
      using amp by (intro Split_Join) auto
    then show ?thesis by (simp only: parse_encoded)
  qed
  with v show ?thesis by (simp add: ParseQuery_def values_Encode_def ps_def)
qed

lemma parse_pairs_distinct: "distinct (map fst m) \<Longrightarrow> distinct (map fst (fst (parse_pairs ps (m, err))))"
proof (induction ps arbitrary: m err)
  case (Cons p ps)
  show ?case
    using Cons by (simp add: distinct_update split: sum.split prod.split)
qed simp

lemma ParseQuery_distinct: "distinct (map fst (fst (ParseQuery q)))"
  by (simp add: ParseQuery_def parse_pairs_distinct)

end
