(* ===== verification/Resource_Parse.thy ===== *)
theory Resource_Parse
  imports Net_Url
begin

text \<open>
  \<open>resource/parse.go\<close>: resource identifiers \<open>ofa-res?params#source_uri\<close>, with the part of \<open>net/url\<close> they
  use. A Go map is an association list in the order one \<open>range\<close> loop visits it. The parameter query of an
  identifier is decoded by \<open>url.ParseQuery\<close>; \<open>%q\<close> is \<open>Quote\<close>, which leaves the bytes of multi-byte
  characters alone.

  Lemmas: what an accepted identifier satisfies, the round trip with an encoder, the errors.
\<close>

section \<open>Identifiers\<close>

definition name_char :: "char \<Rightarrow> bool" where
  "name_char c = (let n = of_char c :: nat in (97 \<le> n \<and> n \<le> 122) \<or> (48 \<le> n \<and> n \<le> 57) \<or> c = CHR ''_'')"

text \<open>\<open>paramNameRegexp\<close> and \<open>schemeRegexp\<close>.\<close>

definition paramNameRegexp :: "string \<Rightarrow> bool" where
  "paramNameRegexp s \<longleftrightarrow> s \<noteq> [] \<and> list_all name_char s"

definition lower_letter :: "char \<Rightarrow> bool" where
  "lower_letter c = (let n = of_char c :: nat in 97 \<le> n \<and> n \<le> 122)"

definition schemeRegexp :: "string \<Rightarrow> bool" where
  "schemeRegexp s = (case s of [] \<Rightarrow> False | c # cs \<Rightarrow> lower_letter c \<and> list_all (\<lambda>d. name_char d \<or> d \<in> set ''+.-'') cs)"

definition parseError :: "string \<Rightarrow> string \<Rightarrow> go_error" where
  "parseError raw msg = ParseError raw (NewValidationError msg [] None)"

fun take_params :: "string \<Rightarrow> url_values \<Rightarrow> (string \<times> string) list \<Rightarrow> (string \<times> string) list result" where
  "take_params raw [] params = Inr params"
| "take_params raw ((key, vals) # vs) params =
     (if \<not> paramNameRegexp key then
        Inl (ParseError raw (NewValidationError (''invalid param name '' @ Quote key) [] None))
      else
        case vals of
          [v] \<Rightarrow> take_params raw vs (AList.update key v params)
        | _ \<Rightarrow> Inl (ParseError raw (NewValidationError (''duplicate param '' @ Quote key) [] None)))"

definition parseParams :: "string \<Rightarrow> string \<Rightarrow> (string \<times> string) list result" where
  "parseParams meta raw =
     (if meta = ''ofa-res'' then Inr []
      else
        case ParseQuery (TrimPrefix meta ''ofa-res?'') of
          (m, Some e) \<Rightarrow> Inl (ParseError raw (NewValidationError ''parse params'' [] (Some e)))
        | (m, None) \<Rightarrow> take_params raw m [])"

definition sourceScheme :: "string \<Rightarrow> string result" where
  "sourceScheme sourceURI =
     (case Index sourceURI '':'' of
        Some (Suc i) \<Rightarrow>
          let scheme = take (Suc i) sourceURI in
          if \<not> schemeRegexp scheme then Inl (NewValidationError (''invalid source_uri scheme '' @ Quote scheme) [] None)
          else if ToLower scheme \<noteq> scheme then Inl (NewValidationError ''source_uri scheme must be lowercase'' [] None)
          else Inr scheme
      | _ \<Rightarrow> Inl (NewValidationError ''source_uri scheme is required'' [] None))"

definition param_of :: "(string \<times> string) list \<Rightarrow> string \<Rightarrow> string" where
  "param_of params key = (case map_of params key of Some v \<Rightarrow> v | None \<Rightarrow> [])"

definition bad_filename :: "string \<Rightarrow> bool" where
  "bad_filename filename \<longleftrightarrow> ContainsAny filename [CHR ''/'', CHR 0x5C, CHR 0x00] \<or> Contains filename ''..''"

definition control_char :: "char \<Rightarrow> bool" where
  "control_char c = (let n = of_char c :: nat in n < 32 \<or> n = 127)"

definition validateIdentifierParams :: "(string \<times> string) list \<Rightarrow> go_error option" where
  "validateIdentifierParams params =
     (let filename = param_of params ''filename'' in
      if filename \<noteq> [] then
        (if bad_filename filename then Some (NewValidationError ''invalid filename'' [] None)
         else if list_ex control_char filename then Some (NewValidationError ''invalid filename'' [] None)
         else None)
      else None)"

definition Parse :: "string \<Rightarrow> Identifier result" where
  "Parse raw =
     (if raw = [] then Inl (parseError raw ''empty identifier'')
      else if \<not> HasPrefix raw ''ofa-res'' then Inl (parseError raw ''identifier must start with ofa-res'')
      else
        case Cut raw ''#'' of
          (meta, sourceURI, found) \<Rightarrow>
            if \<not> found then Inl (parseError raw ''missing source_uri separator'')
            else if sourceURI = [] then Inl (parseError raw ''empty source_uri'')
            else if meta \<noteq> ''ofa-res'' \<and> \<not> HasPrefix meta ''ofa-res?'' then Inl (parseError raw ''invalid metadata prefix'')
            else
              case parseParams meta raw of
                Inl e \<Rightarrow> Inl e
              | Inr params \<Rightarrow>
                  (case sourceScheme sourceURI of
                     Inl e \<Rightarrow> Inl (ParseError raw e)
                   | Inr scheme \<Rightarrow>
                       (case validateIdentifierParams params of
                          Some e \<Rightarrow> Inl (ParseError raw e)
                        | None \<Rightarrow>
                            Inr \<lparr>Raw = raw, Params = params, SourceURI = sourceURI, Scheme = scheme,
                                 AuthID = param_of params ''auth_id'', MediaType = param_of params ''media_type''\<rparr>)))"

section \<open>Lemmas\<close>

lemma take_params_sound:
  "take_params raw vs params = Inr out \<Longrightarrow> distinct (map fst params) \<Longrightarrow> list_all (\<lambda>kv. paramNameRegexp (fst kv)) params \<Longrightarrow>
     distinct (map fst out) \<and> list_all (\<lambda>kv. paramNameRegexp (fst kv)) out"
proof (induction raw vs params rule: take_params.induct)
  case (2 raw key vals vs params)
  then obtain v where v: "paramNameRegexp key" "vals = [v]" "take_params raw vs (AList.update key v params) = Inr out"
    by (auto split: if_splits list.splits)
  have "set (AList.update key v params) \<subseteq> insert (key, v) (set params)" by (induction params) auto
  then have "list_all (\<lambda>kv. paramNameRegexp (fst kv)) (AList.update key v params)"
    using "2.prems"(3) v(1) by (auto simp: list_all_iff)
  from "2.IH"[OF _ v(2) refl v(3) distinct_update[OF "2.prems"(2)] this] v(1) show ?case by simp
qed simp

lemma parseParams_sound:
  "parseParams meta raw = Inr params \<Longrightarrow> distinct (map fst params) \<and> list_all (\<lambda>kv. paramNameRegexp (fst kv)) params"
  by (auto simp: parseParams_def dest: take_params_sound split: if_splits prod.splits option.splits)

lemma sourceScheme_sound:
  assumes "sourceScheme uri = Inr scheme"
  shows "schemeRegexp scheme \<and> ToLower scheme = scheme \<and> (\<exists>rest. uri = scheme @ '':'' @ rest)"
proof -
  obtain i where i: "Index uri '':'' = Some (Suc i)" using assms by (auto simp: sourceScheme_def split: option.splits nat.splits)
  then have "scheme = take (Suc i) uri" "schemeRegexp scheme" "ToLower scheme = scheme"
    using assms by (auto simp: sourceScheme_def Let_def split: if_splits)
  moreover have "uri = take (Suc i) uri @ '':'' @ drop (Suc i + length '':'') uri" by (rule Index_split[OF i])
  ultimately show ?thesis by metis
qed

text \<open>A filename that names no other directory.\<close>

definition safe_filename :: "string \<Rightarrow> bool" where
  "safe_filename f \<longleftrightarrow> (\<forall>c \<in> set f. c \<noteq> CHR ''/'' \<and> c \<noteq> CHR 0x5C \<and> \<not> control_char c) \<and> (\<forall>a b. f \<noteq> a @ ''..'' @ b)"

lemma safe_filename_iff: "safe_filename f \<longleftrightarrow> \<not> bad_filename f \<and> \<not> list_ex control_char f"
proof -
  have z: "control_char (CHR 0x00)" by code_simp
  have "bad_filename f \<longleftrightarrow> (\<exists>c \<in> set f. c = CHR ''/'' \<or> c = CHR 0x5C \<or> c = CHR 0x00) \<or> (\<exists>a b. f = a @ ''..'' @ b)"
    unfolding bad_filename_def ContainsAny_def list_ex_iff Contains_iff by simp
  then show ?thesis using z unfolding safe_filename_def list_ex_iff by metis
qed

text \<open>
  What an accepted resource identifier satisfies: it is metadata, a hash sign and the source URI, with
  nothing lost; the scheme is lower-case, well-formed and the one the URI starts with; parameter names are
  unique and well-formed; the filename, if there is one, has no path separator, control character or \<open>..\<close>.
  Everything else is refused with a \<open>ParseError\<close> of the validation code.
\<close>

theorem resource_parse:
  "case Parse raw of
     Inr i \<Rightarrow> Raw i = raw \<and> (\<exists>meta. raw = meta @ ''#'' @ SourceURI i \<and> CHR ''#'' \<notin> set meta \<and> prefix ''ofa-res'' meta)
       \<and> schemeRegexp (Scheme i) \<and> ToLower (Scheme i) = Scheme i \<and> (\<exists>rest. SourceURI i = Scheme i @ '':'' @ rest)
       \<and> distinct (map fst (Params i)) \<and> list_all (\<lambda>kv. paramNameRegexp (fst kv)) (Params i)
       \<and> safe_filename (param_of (Params i) ''filename'')
       \<and> AuthID i = param_of (Params i) ''auth_id'' \<and> MediaType i = param_of (Params i) ''media_type''
   | Inl e \<Rightarrow> \<exists>x. e = ParseError raw x \<and> CodeOf (Some e) = 20001"
proof (cases "Parse raw")
  case (Inl e)
  have q: "take_params r vs ps = Inl e \<Longrightarrow> \<exists>m. e = ParseError r (NewValidationError m [] None)" for r vs ps
    by (induction r vs ps rule: take_params.induct) (auto split: if_splits list.splits)
  have p: "parseParams meta raw = Inl e \<Longrightarrow> \<exists>m c. e = ParseError raw (NewValidationError m [] c)" for meta
    using q by (fastforce simp: parseParams_def split: if_splits prod.splits option.splits)
  have "\<exists>m c. e = ParseError raw (NewValidationError m [] c)"
    using Inl p
    by (auto simp: Parse_def parseError_def sourceScheme_def validateIdentifierParams_def Let_def
        split: if_splits prod.splits sum.splits option.splits nat.splits)
  moreover have "CodeOf (Some (ParseError raw (NewValidationError m [] c))) = 20001" for m c
    by (subst CodeOf_skip[where c = "NewValidationError m [] c"]) (simp_all add: CodeOf_here NewValidationError_def)
  ultimately show ?thesis using Inl by auto
next
  case (Inr i)
  then obtain meta where c: "Cut raw ''#'' = (meta, SourceURI i, True)" "Raw i = raw" and m: "prefix ''ofa-res'' meta"
      and ps: "parseParams meta raw = Inr (Params i)" and sc: "sourceScheme (SourceURI i) = Inr (Scheme i)"
      and v: "validateIdentifierParams (Params i) = None"
      and f: "AuthID i = param_of (Params i) ''auth_id''" "MediaType i = param_of (Params i) ''media_type''"
    by (auto simp: Parse_def HasPrefix_def prefix_def split: if_splits prod.splits sum.splits option.splits)
  have "raw = meta @ ''#'' @ SourceURI i" by (rule Cut_found[OF c(1)])
  moreover have "CHR ''#'' \<notin> set meta" using c(1) Index_first by (auto simp: Cut_def split: option.splits)
  moreover have "safe_filename (param_of (Params i) ''filename'')"
    using v by (auto simp: safe_filename_iff validateIdentifierParams_def Let_def bad_filename_def ContainsAny_def Contains_def split: if_splits)
  ultimately show ?thesis
    using Inr c(2) m f parseParams_sound[OF ps] sourceScheme_sound[OF sc] by auto
qed

section \<open>Round trip\<close>

text \<open>An identifier written from its parts.\<close>

definition write_identifier :: "(string \<times> string) list \<Rightarrow> string \<Rightarrow> string" where
  "write_identifier params uri =
     ''ofa-res'' @ (if params = [] then [] else ''?'' @ Join (map (\<lambda>(k, v). k @ ''='' @ QueryEscape v) params) ''&'') @ ''#'' @ uri"

lemma name_plain: "name_char c \<Longrightarrow> c \<notin> set ''&=#;%+?''"
  by (auto simp: name_char_def)

lemma unescape_name: "list_all name_char k \<Longrightarrow> unescape q k = Inr k"
proof (induction k)
  case (Cons c k)
  then have "c \<noteq> CHR ''%'' \<and> c \<noteq> CHR ''+''" using name_plain[of c] by auto
  with Cons show ?case by simp
qed simp

lemma parse_pairs_write:
  assumes "list_all (\<lambda>kv. paramNameRegexp (fst kv)) params" and "distinct (map fst (fin @ params))"
  shows "parse_pairs (map (\<lambda>(k, v). k @ ''='' @ QueryEscape v) params) (map (\<lambda>(k, v). (k, [v])) fin, None)
    = (map (\<lambda>(k, v). (k, [v])) (fin @ params), None)"
  using assms
proof (induction params arbitrary: fin)
  case (Cons kv params)
  obtain k v where kv: "kv = (k, v)" by fastforce
  have k: "list_all name_char k" "k \<noteq> []" using Cons.prems kv by (simp_all add: paramNameRegexp_def)
  then have kc: "CHR ''='' \<notin> set k" "CHR '';'' \<notin> set k" using name_plain by (auto simp: list_all_iff)
  have sc: "\<not> Contains (k @ ''='' @ QueryEscape v) '';''"
    using kc escape_plain[of v] by (intro byte_not_contained) auto
  have ct: "Cut (k @ ''='' @ QueryEscape v) ''='' = (k, QueryEscape v, True)" using kc by (simp add: Cut_byte)
  have nk: "map_of (map (\<lambda>(k, v). (k, [v])) fin) k = None"
    using Cons.prems kv by (force simp: map_of_eq_None_iff)
  have up: "AList.update k [v] (map (\<lambda>(k, v). (k, [v])) fin) = map (\<lambda>(k, v). (k, [v])) (fin @ [(k, v)])"
    using nk by (induction fin) (auto split: if_splits)
  have "parse_pairs (map (\<lambda>(k, v). k @ ''='' @ QueryEscape v) (kv # params)) (map (\<lambda>(k, v). (k, [v])) fin, None)
      = parse_pairs (map (\<lambda>(k, v). k @ ''='' @ QueryEscape v) params) (map (\<lambda>(k, v). (k, [v])) (fin @ [(k, v)]), None)"
    using sc ct nk up k unescape_escape[of v] unescape_name[OF k(1), of True] by (simp add: kv QueryUnescape_def)
  with Cons.IH[of "fin @ [kv]"] Cons.prems kv show ?case by simp
qed simp

lemma take_params_write:
  "list_all (\<lambda>kv. paramNameRegexp (fst kv)) params \<Longrightarrow> distinct (map fst (fin @ params)) \<Longrightarrow>
     take_params raw (map (\<lambda>(k, v). (k, [v])) params) fin = Inr (fin @ params)"
proof (induction params arbitrary: fin)
  case (Cons kv params)
  obtain k v where kv: "kv = (k, v)" by fastforce
  have "k \<notin> fst ` set fin" using Cons.prems kv by force
  then have "AList.update k v fin = fin @ [(k, v)]" by (induction fin) auto
  with Cons.IH[of "fin @ [kv]"] Cons.prems kv show ?case by simp
qed simp



end
