(* ===== verification/Resource_Stream.thy ===== *)
theory Resource_Stream
  imports Datax_Errors
begin

text \<open>
  \<open>resource/http.go\<close>, \<open>limitReadCloser\<close>: a reader that passes on at most a number of bytes of another one
  and then fails. A Go \<open>io.Reader\<close> is a function from the size of the buffer and its state to the bytes
  read, the error returned with them (\<open>io.EOF\<close> is one) and the state after. What a reader promises is the
  locale \<open>byte_source\<close>; a limited reader over any source is one again.
\<close>

type_synonym 'r reader = "nat \<Rightarrow> 'r \<Rightarrow> string \<times> go_error option \<times> 'r"

definition EOF :: go_error where "EOF = OpaqueError ''EOF''"

section \<open>The limited reader\<close>

record 'r limitReadCloser =
  l_body :: 'r
  l_max :: int
  l_read :: int
  l_over :: bool

definition limit_Read :: "'r reader \<Rightarrow> 'r limitReadCloser reader" where
  "limit_Read rd n l =
     (if l_over l then ([], Some ErrSizeLimitExceeded, l)
      else
        let remaining = l_max l - l_read l;
            readLimit = int64 (remaining + 1);
            readLimit = (if readLimit \<le> 0 then 1 else readLimit);
            n = (if int n > readLimit then nat readLimit else n)
        in case rd n (l_body l) of
             (bs, err, body) \<Rightarrow>
               let l = l\<lparr>l_body := body, l_read := l_read l + int (length bs)\<rparr> in
               if l_read l > l_max l then
                 let allowed = int (length bs) - (l_read l - l_max l);
                     allowed = (if allowed < 0 then 0 else allowed)
                 in (take (nat allowed) bs, Some ErrSizeLimitExceeded, l\<lparr>l_over := True\<rparr>)
               else (bs, err, l))"

text \<open>\<open>io.ReadAll\<close>: reads until an error, which ends it; \<open>sizes\<close> are the free sizes of its growing buffer.\<close>

fun read_all :: "'r reader \<Rightarrow> (nat \<Rightarrow> nat) \<Rightarrow> nat \<Rightarrow> nat \<Rightarrow> 'r \<Rightarrow> (string \<times> go_error \<times> 'r) option" where
  "read_all rd sizes k 0 s = None"
| "read_all rd sizes k (Suc fuel) s =
     (case rd (sizes k) s of
        (bs, Some e, s) \<Rightarrow> Some (bs, e, s)
      | (bs, None, s) \<Rightarrow> map_option (\<lambda>(rest, e, s). (bs @ rest, e, s)) (read_all rd sizes (Suc k) fuel s))"

text \<open>
  A response body: the bytes still to come, the error after them, and for each \<open>Read\<close> how many bytes
  beyond the first have arrived and whether the error comes with the last bytes.
\<close>

record body =
  b_rest :: string
  b_final :: go_error
  b_arrivals :: "(nat \<times> bool) list"

definition body_Read :: "body reader" where
  "body_Read n b =
     (if b_rest b = [] then ([], Some (b_final b), b)
      else
        let (k, with_error) = (case b_arrivals b of [] \<Rightarrow> (0, False) | a # _ \<Rightarrow> a);
            m = min n (Suc k); bs = take m (b_rest b); rest = drop m (b_rest b)
        in (bs, if rest = [] \<and> with_error then Some (b_final b) else None,
            b\<lparr>b_rest := rest, b_arrivals := tl (b_arrivals b)\<rparr>))"

section \<open>Sources of bytes\<close>

locale byte_source =
  fixes rd :: "'r reader" and inv :: "'r \<Rightarrow> bool" and content :: "'r \<Rightarrow> string" and final :: "'r \<Rightarrow> go_error"
    and budget :: "'r \<Rightarrow> nat"
  assumes read_inv: "inv s \<Longrightarrow> rd n s = (bs, e, s') \<Longrightarrow> inv s'"
    and read_length: "inv s \<Longrightarrow> rd n s = (bs, e, s') \<Longrightarrow> length bs \<le> n"
    and read_content: "inv s \<Longrightarrow> rd n s = (bs, e, s') \<Longrightarrow> content s = bs @ content s'"
    and read_more: "inv s \<Longrightarrow> rd n s = (bs, None, s') \<Longrightarrow> final s' = final s"
    and read_end: "inv s \<Longrightarrow> rd n s = (bs, Some x, s') \<Longrightarrow> content s' = [] \<and> final s = x"
    and read_progress: "inv s \<Longrightarrow> rd n s = (bs, None, s') \<Longrightarrow> 0 < n \<Longrightarrow> budget s' < budget s"
begin

lemma read_all_content:
  "inv s \<Longrightarrow> \<forall>k. 0 < sizes k \<Longrightarrow> budget s < fuel \<Longrightarrow> \<exists>s'. read_all rd sizes k fuel s = Some (content s, final s, s')"
proof (induction fuel arbitrary: k s)
  case (Suc fuel)
  obtain bs e s1 where r: "rd (sizes k) s = (bs, e, s1)" by (metis prod_cases3)
  show ?case
  proof (cases e)
    case (Some x)
    with r show ?thesis using read_content[OF Suc.prems(1) r] read_end[OF Suc.prems(1)] by auto
  next
    case None
    note r0 = r[unfolded None]
    have "budget s1 < fuel" using read_progress[OF Suc.prems(1) r0] Suc.prems(2,3) by (metis less_Suc_eq_le less_le_trans)
    from Suc.IH[OF read_inv[OF Suc.prems(1) r] Suc.prems(2) this, of "Suc k"] obtain s' where
      "read_all rd sizes (Suc k) fuel s1 = Some (content s1, final s1, s')" by blast
    with r0 show ?thesis using read_content[OF Suc.prems(1) r] read_more[OF Suc.prems(1) r0] by simp
  qed
qed simp

text \<open>The contract of a limited reader over this source.\<close>

definition limit_inv :: "'r limitReadCloser \<Rightarrow> bool" where
  "limit_inv l \<longleftrightarrow> inv (l_body l) \<and> (l_over l \<or> l_read l \<le> l_max l)"

definition limit_content :: "'r limitReadCloser \<Rightarrow> string" where
  "limit_content l = (if l_over l then [] else take (nat (l_max l - l_read l)) (content (l_body l)))"

definition limit_final :: "'r limitReadCloser \<Rightarrow> go_error" where
  "limit_final l = (if l_over l \<or> length (content (l_body l)) > nat (l_max l - l_read l) then ErrSizeLimitExceeded else final (l_body l))"

lemma limit_Read_cases:
  assumes "limit_inv l" and "limit_Read rd n l = (bs, e, l')"
  obtains (over) "l_over l" "bs = []" "e = Some ErrSizeLimitExceeded" "l' = l"
  | (passed) n' body where "\<not> l_over l" "rd n' (l_body l) = (bs, e, body)" "n' \<le> n" "0 < n \<longrightarrow> 0 < n'"
      "l' = l\<lparr>l_body := body, l_read := l_read l + int (length bs)\<rparr>" "l_read l + int (length bs) \<le> l_max l"
  | (exceeded) n' body bs' e' where "\<not> l_over l" "rd n' (l_body l) = (bs', e', body)" "n' \<le> n"
      "length bs' = Suc (nat (l_max l - l_read l))" "bs = take (nat (l_max l - l_read l)) bs'"
      "e = Some ErrSizeLimitExceeded" "l_over l'" "l_body l' = body"
proof (cases "l_over l")
  case True
  with assms(2) show thesis by (intro over) (auto simp: limit_Read_def)
next
  case False
  define lim where "lim = (if int64 (l_max l - l_read l + 1) \<le> 0 then 1 else int64 (l_max l - l_read l + 1))"
  define n' where "n' = (if int n > lim then nat lim else n)"
  obtain bs' e' body where r: "rd n' (l_body l) = (bs', e', body)" by (metis prod_cases3)
  have i: "inv (l_body l)" "l_read l \<le> l_max l" using assms(1) False by (simp_all add: limit_inv_def)
  have lim: "1 \<le> lim" "lim \<le> l_max l - l_read l + 1"
  proof -
    have "int64 x \<le> x" if "0 < x" "0 < int64 x" for x
      using that by (simp add: int64_def) (smt (verit) zmod_le_nonneg_dividend)
    with i(2) show "1 \<le> lim" "lim \<le> l_max l - l_read l + 1" by (auto simp: lim_def)
  qed
  have n': "n' \<le> n" "0 < n \<longrightarrow> 0 < n'" using lim(1) by (auto simp: n'_def)
  have len: "length bs' \<le> n'" by (rule read_length[OF i(1) r])
  then have "int (length bs') \<le> l_max l - l_read l + 1" using lim by (auto simp: n'_def split: if_splits)
  have step: "limit_Read rd n l = (let l1 = l\<lparr>l_body := body, l_read := l_read l + int (length bs')\<rparr> in
      if l_read l1 > l_max l1 then
        (take (nat (let a = int (length bs') - (l_read l1 - l_max l1) in if a < 0 then 0 else a)) bs', Some ErrSizeLimitExceeded, l1\<lparr>l_over := True\<rparr>)
      else (bs', e', l1))"
    unfolding limit_Read_def Let_def lim_def[symmetric] n'_def[symmetric] using False r by simp
  show thesis
  proof (cases "l_read l + int (length bs') > l_max l")
    case True
    then have "int (length bs') = l_max l - l_read l + 1" using \<open>int (length bs') \<le> _\<close> by simp
    with True step assms(2) False r n' i(2) show thesis
      by (intro exceeded[of n' bs' e' body]) (auto simp: Let_def)
  next
    case F: False
    with step assms(2) have "bs = bs'" "e = e'" "l' = l\<lparr>l_body := body, l_read := l_read l + int (length bs')\<rparr>"
      by (auto simp: Let_def)
    with F r n' False show thesis by (intro passed[of n' body]) auto
  qed
qed

lemma limit_source: "byte_source (limit_Read rd) limit_inv limit_content limit_final (\<lambda>l. budget (l_body l))"
proof (unfold_locales, goal_cases)
  case (1 l n bs e l')
  from 1 show ?case
  proof (cases rule: limit_Read_cases)
    case (passed n' body)
    with 1 show ?thesis using read_inv[of "l_body l"] by (auto simp: limit_inv_def)
  next
    case (exceeded n' body bs' e')
    with 1 show ?thesis using read_inv[of "l_body l"] by (auto simp: limit_inv_def)
  qed (use 1 in simp)
next
  case (2 l n bs e l')
  from 2 show ?case
  proof (cases rule: limit_Read_cases)
    case (passed n' body)
    with 2 show ?thesis using read_length[of "l_body l"] by (fastforce simp: limit_inv_def)
  next
    case (exceeded n' body bs' e')
    with 2 show ?thesis using read_length[of "l_body l" n' bs' e' body] by (simp add: limit_inv_def)
  qed simp
next
  case (3 l n bs e l')
  from 3 show ?case
  proof (cases rule: limit_Read_cases)
    case (passed n' body)
    have "content (l_body l) = bs @ content body" using read_content[OF _ passed(2)] 3 by (simp add: limit_inv_def)
    moreover have "nat (l_max l - l_read l) = length bs + nat (l_max l - (l_read l + int (length bs)))" using passed(6) by simp
    ultimately show ?thesis using passed by (simp add: limit_content_def)
  next
    case (exceeded n' body bs' e')
    have "content (l_body l) = bs' @ content body" using read_content[OF _ exceeded(2)] 3 by (simp add: limit_inv_def)
    with exceeded show ?thesis by (simp add: limit_content_def)
  qed (simp add: limit_content_def)
next
  case (4 l n bs l')
  from 4 show ?case
  proof (cases rule: limit_Read_cases)
    case (passed n' body)
    have "content (l_body l) = bs @ content body" "final body = final (l_body l)"
      using read_content[OF _ passed(2)] read_more[OF _ passed(2)] 4 by (simp_all add: limit_inv_def)
    moreover have "nat (l_max l - l_read l) = length bs + nat (l_max l - (l_read l + int (length bs)))" using passed(6) by simp
    ultimately show ?thesis using passed by (simp add: limit_final_def)
  qed simp_all
next
  case (5 l n bs x l')
  from 5 show ?case
  proof (cases rule: limit_Read_cases)
    case (passed n' body)
    have "content (l_body l) = bs @ content body" "content body = []" "final (l_body l) = x"
      using read_content[OF _ passed(2)] read_end[OF _ passed(2)] 5 by (simp_all add: limit_inv_def)
    moreover have "length bs \<le> nat (l_max l - l_read l)" using passed(6) by simp
    ultimately show ?thesis using passed by (simp add: limit_final_def limit_content_def)
  next
    case (exceeded n' body bs' e')
    have "content (l_body l) = bs' @ content body" using read_content[OF _ exceeded(2)] 5 by (simp add: limit_inv_def)
    with exceeded show ?thesis by (simp add: limit_final_def limit_content_def)
  qed (simp add: limit_final_def limit_content_def)
next
  case (6 l n bs l')
  from 6(1,2) show ?case
  proof (cases rule: limit_Read_cases)
    case (passed n' body)
    with 6 show ?thesis using read_progress[OF _ passed(2)] by (simp add: limit_inv_def)
  qed simp_all
qed

end

section \<open>Response bodies\<close>

interpretation response: byte_source body_Read "\<lambda>b. True" b_rest b_final "\<lambda>b. length (b_rest b)"
proof (unfold_locales, goal_cases)
  case (6 b n bs b')
  then show ?case by (auto simp: body_Read_def Let_def min_def split: if_splits prod.splits list.splits)
qed (auto simp: body_Read_def Let_def split: if_splits prod.splits list.splits)

interpretation limited: byte_source "limit_Read body_Read" response.limit_inv response.limit_content response.limit_final
  "\<lambda>l. length (b_rest (l_body l))"
  by (rule response.limit_source)

text \<open>
  C38. The size limit: reading a limited response body to its end terminates, whatever the sizes of the
  buffers and the arrival of the bytes; a body within the limit comes through unchanged with its own
  error, of a longer one exactly the allowed bytes arrive and then \<open>ErrSizeLimitExceeded\<close>.
\<close>

theorem limited_body:
  assumes "0 \<le> mx" and "\<forall>k. 0 < sizes k" and "length (b_rest b) < fuel"
  shows "\<exists>l. read_all (limit_Read body_Read) sizes 0 fuel \<lparr>l_body = b, l_max = mx, l_read = 0, l_over = False\<rparr> =
    (if length (b_rest b) \<le> nat mx then Some (b_rest b, b_final b, l)
     else Some (take (nat mx) (b_rest b), ErrSizeLimitExceeded, l))"
proof -
  let ?l = "\<lparr>l_body = b, l_max = mx, l_read = 0, l_over = False\<rparr>"
  have "response.limit_inv ?l" using assms(1) by (simp add: response.limit_inv_def)
  from limited.read_all_content[OF this assms(2), of fuel 0] assms(3) show ?thesis
    by (auto simp: response.limit_content_def response.limit_final_def not_le)
qed

theorem limited_body_witness:
  "\<exists>l. read_all (limit_Read body_Read) (\<lambda>k. 2) 0 6 \<lparr>l_body = \<lparr>b_rest = ''hello'', b_final = EOF, b_arrivals = [(1, False), (7, True)]\<rparr>,
      l_max = 3, l_read = 0, l_over = False\<rparr> = Some (''hel'', ErrSizeLimitExceeded, l)"
  using limited_body[of 3 "\<lambda>k. 2" "\<lparr>b_rest = ''hello'', b_final = EOF, b_arrivals = [(1, False), (7, True)]\<rparr>" 6] by simp

end
