(* ===== verification/Httpx_Tracing.thy ===== *)
theory Httpx_Tracing
  imports Pass_Context "HOL-Library.AList"
begin

text \<open>
  \<open>trace/trace.go\<close> and \<open>httpx/tracing.go\<close>: identifiers of a trace and of a request, the headers a
  call carries, and the context a server rebuilds from them, with the locale and the deadline.
  \<open>http.Header\<close> of the standard library is a list of canonical names with their values; a \<open>range\<close>
  over a map takes its keys in some order, which is an argument (\<open>order\<close>, or the order of the list
  itself). Random bytes and the clock are arguments.

  Lemmas: what one hop hands to the next; the locale; the deadline budget, which never grows
  from hop to hop, and where its conversion overflows.
\<close>

section \<open>net/http headers\<close>

definition upper_char :: "char \<Rightarrow> char" where
  "upper_char c = (let n = of_char c :: nat in if 97 \<le> n \<and> n \<le> 122 then char_of (n - 32) else c)"

definition is_token_char :: "char \<Rightarrow> bool" where
  "is_token_char c =
     (let n = of_char c :: nat in
      (48 \<le> n \<and> n \<le> 57) \<or> (65 \<le> n \<and> n \<le> 90) \<or> (97 \<le> n \<and> n \<le> 122) \<or> c \<in> set ''!#$%&*+-.^_|~'' \<or> n = 39 \<or> n = 96)"

fun canonical :: "bool \<Rightarrow> string \<Rightarrow> string" where
  "canonical up [] = []"
| "canonical up (c # s) = (if up then upper_char c else lower_char c) # canonical (c = CHR ''-'') s"

text \<open>\<open>textproto.CanonicalMIMEHeaderKey\<close>: a name with other characters is left as it is.\<close>

definition CanonicalHeaderKey :: "string \<Rightarrow> string" where
  "CanonicalHeaderKey s = (if list_all is_token_char s then canonical True s else s)"

type_synonym http_header = "(string \<times> string list) list"

definition header_Get :: "http_header \<Rightarrow> string \<Rightarrow> string" where
  "header_Get h key = (case map_of h (CanonicalHeaderKey key) of Some (v # vs) \<Rightarrow> v | _ \<Rightarrow> [])"

definition header_Set :: "string \<Rightarrow> string \<Rightarrow> http_header \<Rightarrow> http_header" where
  "header_Set key v h = AList.update (CanonicalHeaderKey key) [v] h"

section \<open>Identifiers\<close>

text \<open>\<open>base32\<close> without padding: five bits at a time, most significant first.\<close>

definition byte_bits :: "char \<Rightarrow> nat list" where
  "byte_bits b = map (\<lambda>i. of_char b div 2 ^ (7 - i) mod 2) [0..<8]"

definition base32_digit :: "nat \<Rightarrow> char" where
  "base32_digit d = (if d < 26 then char_of (65 + d) else char_of (24 + d))"

definition bits_val :: "nat list \<Rightarrow> nat" where
  "bits_val bs = foldl (\<lambda>n b. 2 * n + b) 0 bs"

fun base32_groups :: "nat list \<Rightarrow> string" where
  "base32_groups [] = []"
| "base32_groups (a # b # c # d # e # bs) = base32_digit (bits_val [a, b, c, d, e]) # base32_groups bs"
| "base32_groups bs = [base32_digit (bits_val (take 5 (bs @ [0, 0, 0, 0])))]"

definition base32_encode :: "string \<Rightarrow> string" where
  "base32_encode bs = base32_groups (concat (map byte_bits bs))"

text \<open>\<open>Format("20060102_150405")\<close> of a UTC time: the civil date of a day number, then the time of day.\<close>

definition civil :: "int \<Rightarrow> int \<times> int \<times> int" where
  "civil days =
     (let z = days + 719468;
          era = z div 146097;
          doe = z mod 146097;
          yoe = (doe - doe div 1460 + doe div 36524 - doe div 146096) div 365;
          doy = doe - (365 * yoe + yoe div 4 - yoe div 100);
          mp = (5 * doy + 2) div 153;
          d = doy - (153 * mp + 2) div 5 + 1;
          m = (if mp < 10 then mp + 3 else mp - 9)
      in (yoe + era * 400 + (if m \<le> 2 then 1 else 0), m, d))"

definition pad_int :: "nat \<Rightarrow> int \<Rightarrow> string" where
  "pad_int w i = (let s = FormatInt i in replicate (w - length s) CHR ''0'' @ s)"

definition format_stamp :: "time \<Rightarrow> string" where
  "format_stamp t =
     (let secs = t div Second; (y, m, d) = civil (secs div 86400); s = secs mod 86400 in
      pad_int 4 y @ pad_int 2 m @ pad_int 2 d @ ''_''
        @ pad_int 2 (s div 3600) @ pad_int 2 (s mod 3600 div 60) @ pad_int 2 (s mod 60))"

text \<open>\<open>rnd\<close>: the bytes that \<open>crypto/rand.Read\<close> put in the buffer, or its error.\<close>

definition NewTraceID :: "string result \<Rightarrow> string result" where
  "NewTraceID rnd =
     (case rnd of
        Inl e \<Rightarrow> Inl (WrapError ''generate trace id failed: '' e [])
      | Inr buf \<Rightarrow> Inr (hex_encode buf))"

definition NewRequestIDWithTime :: "time \<Rightarrow> string result \<Rightarrow> string result" where
  "NewRequestIDWithTime now rnd =
     (case rnd of
        Inl e \<Rightarrow> Inl (WrapError ''generate request id failed: '' e [])
      | Inr buf \<Rightarrow> Inr (''req_'' @ format_stamp now @ ''_'' @ ToLower (base32_encode buf)))"

definition NewRequestID :: "time \<Rightarrow> string result \<Rightarrow> string result" where
  "NewRequestID now rnd = NewRequestIDWithTime now rnd"

section \<open>Deadlines\<close>

definition authoritativeDeadline :: "'x ctx \<Rightarrow> time option" where
  "authoritativeDeadline ctx =
     (case CtxGetRequestDeadline ctx of Some d \<Rightarrow> Some d | None \<Rightarrow> ctx_deadline ctx)"

definition contextWithAuthoritativeDeadline :: "'x ctx \<Rightarrow> time \<Rightarrow> 'x ctx" where
  "contextWithAuthoritativeDeadline ctx deadline =
     (let deadline = (case ctx_deadline ctx of
                        Some existing \<Rightarrow> if existing < deadline then existing else deadline
                      | None \<Rightarrow> deadline)
      in WithDeadline (CtxSetRequestDeadline ctx deadline) deadline)"

section \<open>Locale\<close>

definition normalizeLocale :: "string \<Rightarrow> string" where
  "normalizeLocale value =
     (let normalized = ToLower (ReplaceByte (TrimSpace value) CHR ''_'' CHR ''-'') in
      if normalized \<in> {''zh'', ''zh-cn'', ''zh-hans'', ''zh-hans-cn''} then ''zh-CN''
      else if normalized \<in> {''en'', ''en-us''} then ''en-US''
      else [])"

fun first_locale :: "string list \<Rightarrow> string" where
  "first_locale [] = ''zh-CN''"
| "first_locale (part # parts) =
     (let loc = normalizeLocale (TrimSpace (SplitN2 part '';'' ! 0)) in
      if loc \<noteq> [] then loc else first_locale parts)"

definition resolveLocale :: "http_header \<Rightarrow> string" where
  "resolveLocale header =
     (let loc = normalizeLocale (header_Get header KeyLocale) in
      if loc \<noteq> [] then loc
      else first_locale (Split (TrimSpace (header_Get header ''Accept-Language'')) '',''))"

section \<open>Inbound and outbound headers\<close>

fun contextWithPassHeaders :: "'x ctx \<Rightarrow> http_header \<Rightarrow> 'x ctx" where
  "contextWithPassHeaders ctx [] = ctx"
| "contextWithPassHeaders ctx ((key, vals) # header) =
     (if \<not> HasPrefix (ToLower key) ''ofa-pass-'' \<or> vals = [] then contextWithPassHeaders ctx header
      else contextWithPassHeaders (CtxSetPassVal ctx key (vals ! 0)) header)"

text \<open>The timeout of an inbound request: \<open>time.Duration(ms) * time.Millisecond\<close> wraps at 64 bits.\<close>

definition inbound_timeout :: "http_header \<Rightarrow> duration \<Rightarrow> duration \<Rightarrow> duration" where
  "inbound_timeout header defaultTimeout maxTimeout =
     (let raw = header_Get header KeyRemainingTimeoutMS;
          timeout = (if raw \<noteq> [] then
                       (case ParseInt raw 64 of
                          Inr ms \<Rightarrow> if ms > 0 then int64 (ms * Millisecond) else defaultTimeout
                        | Inl e \<Rightarrow> defaultTimeout)
                     else defaultTimeout)
      in if maxTimeout > 0 \<and> (timeout = 0 \<or> timeout > maxTimeout) then maxTimeout else timeout)"

definition ContextFromHeaders :: "time \<Rightarrow> 'x ctx option \<Rightarrow> http_header \<Rightarrow> duration \<Rightarrow> duration \<Rightarrow> 'x ctx" where
  "ContextFromHeaders now ctx header defaultTimeout maxTimeout =
     (let ctx = (case ctx of None \<Rightarrow> Background | Some c \<Rightarrow> c);
          ctx = contextWithPassHeaders ctx header;
          requestID = header_Get header KeyRequestID;
          ctx = (if requestID \<noteq> [] then CtxSetRequestID ctx requestID else ctx);
          ctx = CtxSetLocale ctx (resolveLocale header);
          timeout = inbound_timeout header defaultTimeout maxTimeout
      in if timeout > 0 then contextWithAuthoritativeDeadline ctx (now + timeout) else ctx)"

definition ensureTraceContext :: "string result \<Rightarrow> 'x ctx option \<Rightarrow> 'x ctx \<times> string result" where
  "ensureTraceContext rnd ctx =
     (let ctx = (case ctx of None \<Rightarrow> Background | Some c \<Rightarrow> c) in
      case CtxGetTraceID ctx of
        Some (c # t) \<Rightarrow> (ctx, Inr (c # t))
      | _ \<Rightarrow>
          (case NewTraceID rnd of
             Inl e \<Rightarrow> (ctx, Inl e)
           | Inr traceID \<Rightarrow> (CtxSetTraceID ctx traceID, Inr traceID)))"

fun set_headers :: "(string \<rightharpoonup> string) \<Rightarrow> string list \<Rightarrow> http_header \<Rightarrow> http_header" where
  "set_headers m [] h = h"
| "set_headers m (key # order) h =
     set_headers m order (case m key of Some v \<Rightarrow> header_Set key v h | None \<Rightarrow> h)"

text \<open>
  \<open>injectTraceHeaders\<close>: \<open>now1\<close> is the time of the request identifier, \<open>now2\<close> that of \<open>time.Until\<close>.
  The header keeps what was set before an error.
\<close>

definition injectTraceHeaders ::
    "string result \<Rightarrow> time \<Rightarrow> string result \<Rightarrow> time \<Rightarrow> string list \<Rightarrow> 'x ctx \<Rightarrow> http_header
       \<Rightarrow> ('x ctx \<times> string \<times> go_error option) \<times> http_header" where
  "injectTraceHeaders rnd1 now1 rnd2 now2 order ctx h =
     (case ensureTraceContext rnd1 (Some ctx) of
        (ctx, Inl e) \<Rightarrow> ((ctx, [], Some e), h)
      | (ctx, Inr traceID) \<Rightarrow>
          (case NewRequestID now1 rnd2 of
             Inl e \<Rightarrow> ((ctx, [], Some e), h)
           | Inr requestID \<Rightarrow>
               let ctx = CtxSetRequestID ctx requestID;
                   h = set_headers (CtxPassHeaders ctx) order h;
                   h = header_Set KeyTraceID traceID h;
                   h = header_Set KeyRequestID requestID h
               in case authoritativeDeadline ctx of
                    None \<Rightarrow> ((ctx, requestID, None), h)
                  | Some deadline \<Rightarrow>
                      let remaining = deadline - now2 in
                      if remaining \<le> 0 then ((ctx, requestID, Some ErrTimeoutBudgetExhausted), h)
                      else ((ctx, requestID, None),
                            header_Set KeyRemainingTimeoutMS (FormatInt (Milliseconds remaining)) h)))"

section \<open>Header names\<close>

lemma lower_upper [simp]: "lower_char (upper_char c) = lower_char c"
  by (auto simp: lower_char_def upper_char_def Let_def)

lemma ToLower_canonical: "ToLower (canonical up s) = ToLower s"
  by (induction up s rule: canonical.induct) (simp_all add: ToLower_def)

lemma ToLower_CanonicalHeaderKey [simp]: "ToLower (CanonicalHeaderKey s) = ToLower s"
  by (simp add: CanonicalHeaderKey_def ToLower_canonical)

lemma FixedKey_CanonicalHeaderKey [simp]: "FixedKey (CanonicalHeaderKey k) = FixedKey k"
  by (simp add: FixedKey_def normalizeKey_def)

lemma FixedKey_lower [simp]: "ToLower (FixedKey k) = FixedKey k"
  using FixedKey_shape[of k] normalizeKey_lower[of "FixedKey k"] by simp

lemma CanonicalHeaderKey_inj: "ToLower j = j \<Longrightarrow> ToLower k = k \<Longrightarrow> CanonicalHeaderKey j = CanonicalHeaderKey k \<Longrightarrow> j = k"
  by (metis ToLower_CanonicalHeaderKey)

lemma header_names [simp]:
  "CanonicalHeaderKey ''ofa-direct-request-id'' = ''Ofa-Direct-Request-Id''"
  "CanonicalHeaderKey ''ofa-direct-remaining-timeout-ms'' = ''Ofa-Direct-Remaining-Timeout-Ms''"
  "CanonicalHeaderKey ''ofa-pass-trace-id'' = ''Ofa-Pass-Trace-Id''"
  "CanonicalHeaderKey ''ofa-pass-locale'' = ''Ofa-Pass-Locale''"
  by code_simp+

lemma map_of_header_Set [simp]: "map_of (header_Set k v h) = (map_of h)(CanonicalHeaderKey k \<mapsto> [v])"
  by (simp add: header_Set_def update_conv')

lemma distinct_header_Set: "distinct (map fst h) \<Longrightarrow> distinct (map fst (header_Set k v h))"
  by (simp add: header_Set_def distinct_update)

lemma CtxSetDirectVal_deadline [simp]: "ctx_deadline (CtxSetDirectVal c k v) = ctx_deadline c"
  by (simp add: CtxSetDirectVal_def)

lemma get_pass_authoritative [simp]:
  "CtxGetPassVal (contextWithAuthoritativeDeadline c d) k = CtxGetPassVal c k"
  by (simp add: contextWithAuthoritativeDeadline_def Let_def)

lemma get_direct_authoritative [simp]:
  "CtxGetDirectVal (contextWithAuthoritativeDeadline c d) k = CtxGetDirectVal c k"
  by (simp add: contextWithAuthoritativeDeadline_def Let_def CtxGetDirectVal_def CtxSetRequestDeadline_def ctx_string_def)

section \<open>From one hop to the next\<close>

definition is_pass_name :: "string \<Rightarrow> bool" where
  "is_pass_name key \<longleftrightarrow> HasPrefix (ToLower key) ''ofa-pass-''"

lemma FixedKey_pass_name [simp]: "is_pass_name (CanonicalHeaderKey (FixedKey k))"
  using FixedKey_shape[of k] by (simp add: is_pass_name_def HasPrefix_def)

text \<open>Headers that a request has of its own: no duplicate names, none of the pass family.\<close>

definition plain_header :: "http_header \<Rightarrow> bool" where
  "plain_header h \<longleftrightarrow> distinct (map fst h) \<and> (\<forall>key \<in> fst ` set h. \<not> is_pass_name key)"

text \<open>A header whose pass entries are exactly the values of \<open>m\<close>.\<close>

definition carries :: "(string \<rightharpoonup> string) \<Rightarrow> http_header \<Rightarrow> bool" where
  "carries m h \<longleftrightarrow> distinct (map fst h)
     \<and> (\<forall>key vals. map_of h key = Some vals \<longrightarrow> is_pass_name key \<longrightarrow>
          (\<exists>k v. key = CanonicalHeaderKey (FixedKey k) \<and> m (FixedKey k) = Some v \<and> vals = [v]))
     \<and> (\<forall>k v. m (FixedKey k) = Some v \<longrightarrow> map_of h (CanonicalHeaderKey (FixedKey k)) = Some [v])"

lemma set_headers_distinct: "distinct (map fst h) \<Longrightarrow> distinct (map fst (set_headers m order h))"
  by (induction m order h rule: set_headers.induct) (auto split: option.split simp: distinct_header_Set)

lemma set_headers_other:
  "\<forall>k \<in> set order. m k \<noteq> None \<longrightarrow> K \<noteq> CanonicalHeaderKey k \<Longrightarrow> map_of (set_headers m order h) K = map_of h K"
  by (induction m order h rule: set_headers.induct) (auto split: option.splits)

lemma set_headers_at:
  assumes "\<forall>key \<in> set order. FixedKey key = key" and "k \<in> set order" and "m k = Some v"
  shows "map_of (set_headers m order h) (CanonicalHeaderKey k) = Some [v]"
  using assms
proof (induction m order h rule: set_headers.induct)
  case (2 m key order h)
  show ?case
  proof (cases "k \<in> set order")
    case True
    with 2 show ?thesis by simp
  next
    case False
    with 2 have "k = key" by simp
    moreover have "CanonicalHeaderKey key \<noteq> CanonicalHeaderKey j" if "j \<in> set order" for j
      using that False \<open>k = key\<close> 2(2) CanonicalHeaderKey_inj[of key j] FixedKey_lower
      by (metis list.set_intros(1,2))
    ultimately show ?thesis using 2(4) by (simp add: set_headers_other)
  qed
qed simp

lemma set_headers_carries:
  assumes "plain_header h" and "set order = dom m" and "\<forall>key \<in> dom m. FixedKey key = key"
  shows "carries m (set_headers m order h)"
proof -
  have fixed: "\<forall>key \<in> set order. FixedKey key = key" using assms(2,3) by simp
  have "\<exists>k v. key = CanonicalHeaderKey (FixedKey k) \<and> m (FixedKey k) = Some v \<and> vals = [v]"
    if at: "map_of (set_headers m order h) key = Some vals" and p: "is_pass_name key" for key vals
  proof (cases "\<exists>k \<in> set order. m k \<noteq> None \<and> key = CanonicalHeaderKey k")
    case True
    then obtain k v where k: "k \<in> set order" "m k = Some v" "key = CanonicalHeaderKey k" by blast
    from set_headers_at[where m = m, OF fixed k(1,2)] at k(3) have "vals = [v]" by simp
    with k fixed show ?thesis by metis
  next
    case False
    then have "map_of (set_headers m order h) key = map_of h key" by (intro set_headers_other) blast
    with at have "map_of h key = Some vals" by simp
    then have "key \<in> fst ` set h" by (metis domI dom_map_of_conv_image_fst)
    with assms(1) p show ?thesis by (auto simp: plain_header_def)
  qed
  moreover have "map_of (set_headers m order h) (CanonicalHeaderKey (FixedKey k)) = Some [v]"
    if "m (FixedKey k) = Some v" for k v
    using set_headers_at[OF fixed] assms(2) that by blast
  ultimately show ?thesis using assms(1) by (simp add: carries_def plain_header_def set_headers_distinct)
qed

text \<open>Setting a header of another family, or a pass value that is carried already, changes nothing.\<close>

lemma carries_set_plain:
  assumes "carries m h" and "\<not> is_pass_name (CanonicalHeaderKey k)"
  shows "carries m (header_Set k v h)"
proof -
  have "CanonicalHeaderKey (FixedKey j) \<noteq> CanonicalHeaderKey k" for j using assms(2) FixedKey_pass_name by metis
  with assms show ?thesis by (auto simp: carries_def distinct_header_Set)
qed

lemma carries_set_again:
  assumes "carries m h" and "m (FixedKey k) = Some v"
  shows "carries m (header_Set (FixedKey k) v h)"
proof -
  have "FixedKey j = FixedKey k" if "CanonicalHeaderKey (FixedKey j) = CanonicalHeaderKey (FixedKey k)" for j
    using that CanonicalHeaderKey_inj by (metis FixedKey_lower)
  then have "m (FixedKey j) = Some v" if "CanonicalHeaderKey (FixedKey j) = CanonicalHeaderKey (FixedKey k)" for j
    using that assms(2) by metis
  then show ?thesis using assms by (fastforce simp: carries_def distinct_header_Set)
qed

lemma contextWithPassHeaders_deadline: "ctx_deadline (contextWithPassHeaders c h) = ctx_deadline c"
  by (induction c h rule: contextWithPassHeaders.induct) simp_all

text \<open>Reading the entries back, in whatever order they come.\<close>

lemma contextWithPassHeaders_get:
  "(\<forall>(key, vals) \<in> set h. is_pass_name key \<longrightarrow> FixedKey key = FixedKey k \<longrightarrow> vals = [v]) \<Longrightarrow>
     CtxGetPassVal (contextWithPassHeaders c h) k =
       (if \<exists>(key, vals) \<in> set h. is_pass_name key \<and> FixedKey key = FixedKey k then Some v else CtxGetPassVal c k)"
  by (induction c h rule: contextWithPassHeaders.induct) (auto simp: is_pass_name_def)

lemma carries_read:
  assumes "carries m h"
  shows "CtxGetPassVal (contextWithPassHeaders c h) k = (case m (FixedKey k) of Some v \<Rightarrow> Some v | None \<Rightarrow> CtxGetPassVal c k)"
proof -
  have entries: "m (FixedKey k) = Some v \<and> vals = [v] \<and> key = CanonicalHeaderKey (FixedKey k)"
    if "(key, vals) \<in> set h" "is_pass_name key" "FixedKey key = FixedKey k" "v = the (m (FixedKey k))" for key vals v
  proof -
    from that assms have "map_of h key = Some vals" by (simp add: carries_def)
    with that(2) assms obtain j w where j: "key = CanonicalHeaderKey (FixedKey j)" "m (FixedKey j) = Some w" "vals = [w]"
      unfolding carries_def by blast
    with that(3) have "FixedKey j = FixedKey k" by simp
    with j that(4) show ?thesis by simp
  qed
  show ?thesis
  proof (cases "m (FixedKey k)")
    case None
    then have "\<not> (\<exists>(key, vals) \<in> set h. is_pass_name key \<and> FixedKey key = FixedKey k)"
      using entries[OF _ _ _ refl] by fastforce
    with None show ?thesis by (subst contextWithPassHeaders_get) auto
  next
    case (Some v)
    then have "map_of h (CanonicalHeaderKey (FixedKey k)) = Some [v]" using assms by (simp add: carries_def)
    then have "(CanonicalHeaderKey (FixedKey k), [v]) \<in> set h" by (rule map_of_SomeD)
    moreover have "is_pass_name (CanonicalHeaderKey (FixedKey k))" "FixedKey (CanonicalHeaderKey (FixedKey k)) = FixedKey k"
      by simp_all
    ultimately have ex: "\<exists>(key, vals) \<in> set h. is_pass_name key \<and> FixedKey key = FixedKey k" by blast
    have "\<forall>(key, vals) \<in> set h. is_pass_name key \<longrightarrow> FixedKey key = FixedKey k \<longrightarrow> vals = [v]"
      using entries Some by fastforce
    from contextWithPassHeaders_get[OF this, of c] ex Some show ?thesis by (simp only: if_True option.case)
  qed
qed

lemma pass_built_dom_fixed: "pass_built c \<Longrightarrow> \<forall>key \<in> dom (CtxPassHeaders c). FixedKey key = key"
  using pass_built_headers_agree unfolding headers_agree_def by (metis domD option.distinct(1))

lemma ensureTraceContext_ok:
  assumes "ensureTraceContext rnd (Some c) = (c1, Inr t)" and "pass_built c"
  shows "pass_built c1 \<and> CtxGetTraceID c1 = Some t \<and> ctx_deadline c1 = ctx_deadline c
    \<and> CtxGetRequestDeadline c1 = CtxGetRequestDeadline c"
  using assms
  by (auto simp: ensureTraceContext_def ctx_named_defs split: option.splits list.splits sum.splits
      intro: pass_built.intros)

lemma not_pass_names [simp]:
  "\<not> is_pass_name ''Ofa-Direct-Request-Id''" "\<not> is_pass_name ''Ofa-Direct-Remaining-Timeout-Ms''"
  by code_simp+

text \<open>What a successful injection puts on the request.\<close>

lemma injectTraceHeaders_ok:
  assumes "injectTraceHeaders rnd1 now1 rnd2 now2 order c h0 = ((c1, rid, None), h)"
    and "pass_built c" and "plain_header h0" and "set order = dom (CtxPassHeaders c1)"
  shows "pass_built c1 \<and> carries (CtxPassHeaders c1) h \<and> header_Get h KeyRequestID = rid \<and> rid \<noteq> []
    \<and> CtxGetRequestID c1 = Some rid \<and> CtxGetTraceID c1 \<noteq> None
    \<and> (\<forall>d. authoritativeDeadline c1 = Some d \<longrightarrow>
          now2 < d \<and> header_Get h KeyRemainingTimeoutMS = FormatInt (Milliseconds (d - now2)))"
proof -
  obtain c2 t where e: "ensureTraceContext rnd1 (Some c) = (c2, Inr t)"
    using assms(1) by (cases "ensureTraceContext rnd1 (Some c)"; cases "snd (ensureTraceContext rnd1 (Some c))")
      (auto simp: injectTraceHeaders_def)
  then obtain r where r: "NewRequestID now1 rnd2 = Inr r" using assms(1)
    by (cases "NewRequestID now1 rnd2") (auto simp: injectTraceHeaders_def)
  let ?h1 = "header_Set KeyRequestID r (header_Set KeyTraceID t (set_headers (CtxPassHeaders c1) order h0))"
  have c1: "c1 = CtxSetRequestID c2 r" "rid = r"
    and h: "case authoritativeDeadline c1 of None \<Rightarrow> h = ?h1
      | Some d \<Rightarrow> now2 < d \<and> h = header_Set KeyRemainingTimeoutMS (FormatInt (Milliseconds (d - now2))) ?h1"
    using assms(1) e r
    by (auto simp: injectTraceHeaders_def Let_def split: option.splits if_splits)
  note t = ensureTraceContext_ok[OF e assms(2)]
  have b: "pass_built c1" using t c1 by (simp add: CtxSetRequestID_def pass_built.intros)
  have tr: "CtxPassHeaders c1 (FixedKey KeyTraceID) = Some t"
  proof -
    have "CtxPassHeaders c1 (FixedKey KeyTraceID) = CtxGetPassVal c1 KeyTraceID"
      using pass_built_headers_agree[OF b] unfolding headers_agree_def by blast
    with t c1(1) show ?thesis by (simp add: ctx_named_defs)
  qed
  have "carries (CtxPassHeaders c1) (set_headers (CtxPassHeaders c1) order h0)"
    by (rule set_headers_carries[OF assms(3,4) pass_built_dom_fixed[OF b]])
  from carries_set_again[OF this tr]
  have "carries (CtxPassHeaders c1) (header_Set KeyTraceID t (set_headers (CtxPassHeaders c1) order h0))" by simp
  then have "carries (CtxPassHeaders c1) ?h1"
    by (rule carries_set_plain) simp
  then have ca: "carries (CtxPassHeaders c1) h"
    using h by (auto split: option.splits intro: carries_set_plain)
  have "r \<noteq> []" using r by (auto simp: NewRequestID_def NewRequestIDWithTime_def split: sum.splits)
  moreover have "CtxGetTraceID c1 = Some t" "CtxGetRequestID c1 = Some r"
    using t c1(1) by (simp_all add: ctx_named_defs)
  ultimately show ?thesis
    using b ca h c1(2) by (auto simp: header_Get_def split: option.splits)
qed

section \<open>Properties\<close>

text \<open>The caller of the witnesses: an operator and a deadline, in order of the map.\<close>

definition demo_ctx :: "unit ctx" where
  "demo_ctx = CtxSetOperator (WithDeadline Background (2 * Second)) ''alice''"

definition demo_order :: "string list" where
  "demo_order = [KeyOperator, KeyTraceID]"

lemma demo_ctx_built: "pass_built demo_ctx"
  by (simp add: demo_ctx_def CtxSetOperator_def pass_built.intros)

lemma demo_inject:
  obtains c1 rid h where
    "injectTraceHeaders (Inr ''ab'') 0 (Inr ''abcde'') Second demo_order demo_ctx [] = ((c1, rid, None), h)"
    and "set demo_order = dom (CtxPassHeaders c1)" and "authoritativeDeadline c1 = Some (2 * Second)"
    and "CtxGetPassVal c1 KeyOperator = Some ''alice''"
proof -
  let ?t = "hex_encode ''ab''" and ?r = "''req_'' @ format_stamp 0 @ ''_'' @ ToLower (base32_encode ''abcde'')"
  let ?c1 = "CtxSetRequestID (CtxSetTraceID demo_ctx ?t) ?r"
  have no: "CtxGetTraceID demo_ctx = None"
    by (simp add: demo_ctx_def ctx_named_defs Background_def CtxGetPassVal_def ctx_string_def)
  have dl: "authoritativeDeadline ?c1 = Some (2 * Second)"
    by (simp add: authoritativeDeadline_def demo_ctx_def ctx_named_defs CtxGetRequestDeadline_def CtxSetDirectVal_def
        Background_def WithDeadline_def)
  have "dom (CtxPassHeaders ?c1) = set demo_order"
    by (auto simp: demo_ctx_def demo_order_def ctx_named_defs Background_def CtxPassHeaders_def[of Background] WithDeadline_def
        CtxPassHeaders_def[of "\<lparr>ctx_vals = Map.empty, ctx_deadline = d, ctx_cancel = None\<rparr>" for d])
  moreover have "\<exists>h. injectTraceHeaders (Inr ''ab'') 0 (Inr ''abcde'') Second demo_order demo_ctx [] = ((?c1, ?r, None), h)"
    using no dl
    by (simp add: injectTraceHeaders_def ensureTraceContext_def NewTraceID_def NewRequestID_def NewRequestIDWithTime_def Let_def)
  moreover have "CtxGetPassVal ?c1 KeyOperator = Some ''alice''" by (simp add: demo_ctx_def ctx_named_defs)
  ultimately show thesis using that dl by metis
qed

lemma first_locale_supported: "first_locale parts \<in> {''zh-CN'', ''en-US''}"
proof (induction parts rule: first_locale.induct)
  case (2 part parts)
  have "normalizeLocale v \<in> {''zh-CN'', ''en-US'', []}" for v by (simp add: normalizeLocale_def Let_def)
  from this[of "TrimSpace (SplitN2 part '';'' ! 0)"] 2 show ?case by (auto simp: Let_def)
qed simp

lemma injectTraceHeaders_caller:
  assumes "injectTraceHeaders rnd1 now1 rnd2 now2 order c h0 = ((c1, rid, None), h)"
  shows "FixedKey k \<noteq> KeyTraceID \<or> CtxGetTraceID c \<notin> {None, Some []} \<Longrightarrow> CtxGetPassVal c1 k = CtxGetPassVal c k"
  using assms
  by (auto simp: injectTraceHeaders_def ensureTraceContext_def ctx_named_defs Let_def
      split: option.splits list.splits sum.splits if_splits prod.splits)

lemma normalizeLocale_values: "normalizeLocale v \<in> {''zh-CN'', ''en-US'', []}"
  by (simp add: normalizeLocale_def Let_def)

lemma resolveLocale_supported: "resolveLocale h \<in> {''zh-CN'', ''en-US''}"
  using normalizeLocale_values[of "header_Get h KeyLocale"] first_locale_supported
  by (auto simp: resolveLocale_def Let_def)

text \<open>
  C25. Propagation of trace values over one hop: what \<open>injectTraceHeaders\<close> puts on a request, and
  \<open>ContextFromHeaders\<close> reads back on the other side, is exactly the set of pass values of the caller's
  context, whatever the order in which maps are traversed, with one exception that the code makes on
  purpose: the locale is normalised, so the next hop has one of the two supported locales, and the
  caller's own when that names a supported one in any spelling. The request identifier arrives as
  the direct value of this hop, and the trace identifier is the caller's own, or a new one when the
  caller has none.
\<close>

theorem trace_propagation:
  assumes "injectTraceHeaders rnd1 now1 rnd2 now2 order c h0 = ((c1, rid, None), h)"
    and "pass_built c" and "plain_header h0" and "set order = dom (CtxPassHeaders c1)"
  shows "(\<forall>k. CtxGetPassVal (ContextFromHeaders now (None :: 'y ctx option) h dflt mx) k =
            (if FixedKey k = KeyLocale then Some (resolveLocale h) else CtxGetPassVal c1 k))
    \<and> (\<forall>k. FixedKey k \<noteq> KeyTraceID \<or> CtxGetTraceID c \<notin> {None, Some []} \<longrightarrow> CtxGetPassVal c1 k = CtxGetPassVal c k)
    \<and> resolveLocale h \<in> {''zh-CN'', ''en-US''}
    \<and> (\<forall>l. CtxGetLocale c1 = Some l \<and> normalizeLocale l \<noteq> [] \<longrightarrow> resolveLocale h = normalizeLocale l)
    \<and> CtxGetRequestID (ContextFromHeaders now (None :: 'y ctx option) h dflt mx) = Some rid
    \<and> CtxGetTraceID (ContextFromHeaders now (None :: 'y ctx option) h dflt mx) = CtxGetTraceID c1
    \<and> CtxGetTraceID c1 \<noteq> None"
proof -
  let ?b = "contextWithPassHeaders (Background :: 'y ctx) h"
  let ?s = "CtxSetLocale (CtxSetRequestID ?b rid) (resolveLocale h)"
  note i = injectTraceHeaders_ok[OF assms]
  have "CtxGetPassVal ?b k = CtxGetPassVal c1 k" for k
  proof -
    have "CtxPassHeaders c1 (FixedKey k) = CtxGetPassVal c1 k"
      using i pass_built_headers_agree[of c1] unfolding headers_agree_def by blast
    moreover have "CtxGetPassVal (Background :: 'y ctx) k = None"
      by (simp add: Background_def CtxGetPassVal_def ctx_string_def)
    moreover have "carries (CtxPassHeaders c1) h" using i by blast
    ultimately show ?thesis by (simp only: carries_read option.case_eq_if) simp
  qed
  moreover have "CtxGetPassVal (ContextFromHeaders now (None :: 'y ctx option) h dflt mx) k = CtxGetPassVal ?s k"
      "CtxGetDirectVal (ContextFromHeaders now (None :: 'y ctx option) h dflt mx) k = CtxGetDirectVal ?s k" for k
    using i by (simp_all add: ContextFromHeaders_def Let_def)
  moreover have "resolveLocale h = normalizeLocale l" if "CtxGetLocale c1 = Some l" "normalizeLocale l \<noteq> []" for l
  proof -
    have "CtxPassHeaders c1 (FixedKey KeyLocale) = Some l"
      using i that(1) pass_built_headers_agree[of c1] unfolding headers_agree_def CtxGetLocale_def by metis
    with i have "map_of h (CanonicalHeaderKey (FixedKey KeyLocale)) = Some [l]" unfolding carries_def by blast
    then have "header_Get h KeyLocale = l" by (simp add: header_Get_def)
    with that(2) show ?thesis by (simp add: resolveLocale_def)
  qed
  ultimately show ?thesis using i resolveLocale_supported[of h] injectTraceHeaders_caller[OF assms(1)]
    by (simp add: ctx_named_defs)
qed

theorem trace_propagation_witness:
  "\<exists>c1 rid h. injectTraceHeaders (Inr ''ab'') 0 (Inr ''abcde'') Second demo_order demo_ctx [] = ((c1, rid, None), h)
     \<and> CtxGetPassVal (ContextFromHeaders 0 (None :: unit ctx option) h 0 0) KeyOperator = Some ''alice''"
proof -
  obtain c1 rid h where i: "injectTraceHeaders (Inr ''ab'') 0 (Inr ''abcde'') Second demo_order demo_ctx [] = ((c1, rid, None), h)"
    "set demo_order = dom (CtxPassHeaders c1)" "CtxGetPassVal c1 KeyOperator = Some ''alice''"
    by (rule demo_inject)
  have "plain_header []" by (simp add: plain_header_def)
  from trace_propagation[where 'y = unit, OF i(1) demo_ctx_built this i(2)] i show ?thesis by auto
qed

text \<open>Milliseconds of a positive duration, and the way back.\<close>

lemma Milliseconds_back:
  assumes "0 < r"
  shows "0 \<le> Milliseconds r" and "Milliseconds r * Millisecond \<le> r"
proof -
  have ms: "Milliseconds r = r div 1000000" using assms by (simp add: Milliseconds_def go_div_nonneg)
  then show "0 \<le> Milliseconds r" using assms by (simp add: pos_imp_zdiv_nonneg_iff)
  from ms show "Milliseconds r * Millisecond \<le> r" by simp
qed

text \<open>
  C26. The time budget does not grow from hop to hop as long as a millisecond of it is left: when
  the caller has a deadline at least a millisecond away (the unit of the header), the deadline the next hop rebuilds from the header leaves it at most the time the
  caller had left when it sent the request, and at most the configured maximum. (Both clocks are
  past the Unix epoch; the remaining time is the 64-bit duration it is in Go.)
\<close>

theorem deadline_budget_shrinks:
  assumes "injectTraceHeaders rnd1 now1 rnd2 now2 order c h0 = ((c1, rid, None), h)"
    and "pass_built c" and "plain_header h0" and "set order = dom (CtxPassHeaders c1)"
    and "authoritativeDeadline c1 = Some d" and "Millisecond \<le> d - now2" and "d - now2 < 2 ^ 63" and "0 \<le> now"
  shows "\<exists>d'. authoritativeDeadline (ContextFromHeaders now (None :: 'y ctx option) h dflt mx) = Some d'
    \<and> 0 < d' - now \<and> d' - now \<le> d - now2 \<and> (0 < mx \<longrightarrow> d' - now \<le> mx)"
proof -
  let ?ms = "Milliseconds (d - now2)"
  have "header_Get h KeyRemainingTimeoutMS = FormatInt ?ms"
    using injectTraceHeaders_ok[OF assms(1-4)] assms(5) by blast
  moreover have ms: "1 \<le> ?ms" "?ms * Millisecond \<le> d - now2"
    using assms(6) Milliseconds_back[of "d - now2"] by (simp_all add: Milliseconds_def go_div_nonneg)
  moreover have "ParseInt (FormatInt ?ms) 64 = Inr ?ms"
    by (rule ParseInt_FormatInt) (use ms assms(7) in \<open>simp add: in_int64_def\<close>)
  moreover have "int64 (?ms * Millisecond) = ?ms * Millisecond"
    by (rule int64_id) (use ms assms(7) in \<open>simp add: in_int64_def\<close>)
  moreover have "FormatInt ?ms \<noteq> []" by (simp add: FormatInt_def)
  ultimately have t: "inbound_timeout h dflt mx = (if mx > 0 \<and> ?ms * Millisecond > mx then mx else ?ms * Millisecond)"
    by (simp add: inbound_timeout_def Let_def)
  let ?t = "inbound_timeout h dflt mx"
  have "0 < ?t" "?t \<le> d - now2" "0 < mx \<longrightarrow> ?t \<le> mx" using t ms by auto
  moreover have "authoritativeDeadline (ContextFromHeaders now (None :: 'y ctx option) h dflt mx) = Some (now + ?t)"
    if "0 < ?t"
  proof -
    have "\<not> IsZero (now + ?t)" using that assms(8) by (simp add: IsZero_def zero_time_def)
    moreover have "ctx_deadline (contextWithPassHeaders (Background :: 'y ctx) h) = None"
      by (simp add: contextWithPassHeaders_deadline Background_def)
    ultimately show ?thesis using that
      by (simp add: ContextFromHeaders_def Let_def contextWithAuthoritativeDeadline_def authoritativeDeadline_def
          ctx_named_defs)
  qed
  ultimately show ?thesis by simp
qed

theorem deadline_budget_shrinks_witness:
  "\<exists>c1 rid h d'. injectTraceHeaders (Inr ''ab'') 0 (Inr ''abcde'') Second demo_order demo_ctx [] = ((c1, rid, None), h)
     \<and> authoritativeDeadline (ContextFromHeaders (5 * Second) (None :: unit ctx option) h 0 0) = Some d' \<and> d' - 5 * Second \<le> Second"
proof -
  obtain c1 rid h where i: "injectTraceHeaders (Inr ''ab'') 0 (Inr ''abcde'') Second demo_order demo_ctx [] = ((c1, rid, None), h)"
    "set demo_order = dom (CtxPassHeaders c1)" "authoritativeDeadline c1 = Some (2 * Second)"
    by (rule demo_inject)
  have "plain_header []" by (simp add: plain_header_def)
  from deadline_budget_shrinks[where 'y = unit, OF i(1) demo_ctx_built this i(2,3), of "5 * Second"] i(1) show ?thesis
    by auto
qed

text \<open>
  Where the budget is lost: a remaining time below one millisecond is sent as \<open>0\<close>, which the next
  hop ignores, so its timeout is its own default.
\<close>

lemma sub_millisecond_budget_ignored:
  assumes "header_Get h KeyRemainingTimeoutMS = FormatInt (Milliseconds r)" and "0 < r" and "r < Millisecond"
  shows "inbound_timeout h dflt 0 = dflt"
proof -
  have "Milliseconds r = 0" using assms(2,3) by (simp add: Milliseconds_def go_div_nonneg)
  with assms(1) show ?thesis by (simp add: inbound_timeout_def Let_def FormatInt_def FormatUint_small digit_char_def
      ParseInt_def ParseUint_def digit_val_def)
qed

text \<open>
  The maximal timeout is not enforced on every header: a remaining time of 9223372036855
  milliseconds passes the checks on its sign but overflows when converted to a duration, and the
  request then runs without any deadline although a positive maximum is configured.
\<close>

theorem remaining_timeout_overflow:
  "authoritativeDeadline (ContextFromHeaders now (None :: 'y ctx option)
      [(''Ofa-Direct-Remaining-Timeout-Ms'', [''9223372036855''])] dflt (30 * Second)) = None
   \<and> authoritativeDeadline (ContextFromHeaders 0 (None :: 'y ctx option)
      [(''Ofa-Direct-Remaining-Timeout-Ms'', [''9223372036854''])] dflt (30 * Second)) = Some (30 * Second)"
proof -
  let ?h = "\<lambda>v. [(''Ofa-Direct-Remaining-Timeout-Ms'', [v])]"
  have t: "inbound_timeout (?h ''9223372036855'') dflt (30 * Second) = - 9223372036854551616"
    "inbound_timeout (?h ''9223372036854'') dflt (30 * Second) = 30 * Second"
    by (simp_all add: inbound_timeout_def Let_def header_Get_def ParseInt_def ParseUint_def digit_val_def int64_def)
  have p: "contextWithPassHeaders (Background :: 'y ctx) (?h v) = Background" for v
    by (simp add: HasPrefix_def ToLower_def lower_char_def prefix_def)
  have r: "header_Get (?h v) KeyRequestID = []" for v by (simp add: header_Get_def)
  have b: "CtxGetRequestDeadline (Background :: 'y ctx) = None" "ctx_deadline (Background :: 'y ctx) = None"
    by (simp_all add: Background_def CtxGetRequestDeadline_def)
  show ?thesis
    using t p r b
    by (simp add: ContextFromHeaders_def Let_def authoritativeDeadline_def ctx_named_defs
        contextWithAuthoritativeDeadline_def IsZero_def zero_time_def)
qed

text \<open>
  The locale of a request: whatever headers arrive, it is one of the supported locales; an
  explicit locale header that names a supported one in any spelling wins over \<open>Accept-Language\<close>; and
  a locale that was resolved once is resolved to itself by every later hop.
\<close>

theorem locale_resolution:
  "resolveLocale h \<in> {''zh-CN'', ''en-US''}
   \<and> (normalizeLocale (header_Get h KeyLocale) \<noteq> [] \<longrightarrow> resolveLocale h = normalizeLocale (header_Get h KeyLocale))
   \<and> resolveLocale (header_Set KeyLocale (resolveLocale h) h') = resolveLocale h"
proof -
  note l = resolveLocale_supported[of h]
  have "normalizeLocale ''zh-CN'' = ''zh-CN''" "normalizeLocale ''en-US'' = ''en-US''" by code_simp+
  with l have "normalizeLocale (resolveLocale h) = resolveLocale h" "resolveLocale h \<noteq> []" by auto
  then have "resolveLocale (header_Set KeyLocale (resolveLocale h) h') = resolveLocale h"
    by (simp add: resolveLocale_def[of "header_Set _ _ _"] header_Get_def)
  with l show ?thesis by (simp add: resolveLocale_def Let_def)
qed

theorem locale_resolution_witness:
  "resolveLocale [(''Ofa-Pass-Locale'', ['' EN_us '']), (''Accept-Language'', [''zh''])] = ''en-US''"
proof -
  have "normalizeLocale (header_Get [(''Ofa-Pass-Locale'', ['' EN_us '']), (''Accept-Language'', [''zh''])] KeyLocale) = ''en-US''"
    by code_simp
  with locale_resolution[of "[(''Ofa-Pass-Locale'', ['' EN_us '']), (''Accept-Language'', [''zh''])]"] show ?thesis by simp
qed

section \<open>Identifiers, continued\<close>

lemma hex_digit_range: "d < 16 \<Longrightarrow> hex_digit d \<in> set ''0123456789abcdef''"
proof -
  assume "d < 16"
  then have "d \<in> set [0..<16]" by simp
  moreover have "\<forall>d \<in> set [0..<16]. hex_digit d \<in> set ''0123456789abcdef''" by code_simp
  ultimately show ?thesis by blast
qed

lemma hex_digit_inj: "d < 16 \<Longrightarrow> e < 16 \<Longrightarrow> hex_digit d = hex_digit e \<Longrightarrow> d = e"
proof -
  assume "d < 16" "e < 16" "hex_digit d = hex_digit e"
  moreover have "\<forall>d \<in> set [0..<16]. \<forall>e \<in> set [0..<16]. hex_digit d = hex_digit e \<longrightarrow> d = e" by code_simp
  ultimately show ?thesis by simp
qed

lemma byte_lt: "(of_char c :: nat) div 16 < 16"
proof -
  have "(of_char c :: nat) < 256" by (rule nat_of_char_less_256)
  then show ?thesis by linarith
qed

lemma hex_encode_length [simp]: "length (hex_encode bs) = 2 * length bs"
  by (induction bs) (simp_all add: hex_encode_def)

lemma hex_encode_digits: "set (hex_encode bs) \<subseteq> set ''0123456789abcdef''"
proof -
  have "hex_digit (of_char b div 16) \<in> set ''0123456789abcdef''" "hex_digit (of_char b mod 16) \<in> set ''0123456789abcdef''" for b
    by (intro hex_digit_range; simp add: byte_lt)+
  then show ?thesis unfolding hex_encode_def set_concat set_map by force
qed

lemma hex_encode_inj: "hex_encode a = hex_encode b \<Longrightarrow> a = b"
proof (induction a arbitrary: b)
  case Nil
  then show ?case by (cases b) (simp_all add: hex_encode_def)
next
  case (Cons x xs)
  then obtain y ys where b: "b = y # ys" by (cases b) (simp_all add: hex_encode_def)
  have "hex_digit (of_char x div 16) = hex_digit (of_char y div 16)" "hex_digit (of_char x mod 16) = hex_digit (of_char y mod 16)"
      "hex_encode xs = hex_encode ys"
    using Cons.prems b by (simp_all add: hex_encode_def)
  then have "(of_char x div 16 :: nat) = of_char y div 16" "(of_char x mod 16 :: nat) = of_char y mod 16"
    using hex_digit_inj[OF byte_lt byte_lt] hex_digit_inj[of "of_char x mod 16" "of_char y mod 16"] by simp_all
  then have "(of_char x :: nat) = of_char y" by (metis div_mult_mod_eq)
  then have "x = y" by simp
  with Cons.IH \<open>hex_encode xs = hex_encode ys\<close> b show ?case by simp
qed

lemma base32_groups_length: "length (base32_groups bs) = (length bs + 4) div 5"
  by (induction bs rule: base32_groups.induct) simp_all

lemma bits_val_bound: "\<forall>b \<in> set bs. b < 2 \<Longrightarrow> bits_val bs < 2 ^ length bs"
proof (induction bs rule: rev_induct)
  case (snoc b bs)
  then have "bits_val bs < 2 ^ length bs" "b < 2" by simp_all
  then show ?case by (simp add: bits_val_def)
qed (simp add: bits_val_def)

lemma base32_groups_digits:
  "\<forall>b \<in> set bs. b < 2 \<Longrightarrow> c \<in> set (base32_groups bs) \<Longrightarrow> \<exists>d < 32. c = base32_digit d"
proof (induction bs rule: base32_groups.induct, goal_cases)
  case (2 a b c' d e bs)
  then show ?case using bits_val_bound[of "[a, b, c', d, e]"] by auto
next
  case (3 v)
  then show ?case using bits_val_bound[of "[v, 0, 0, 0, 0]"] by auto
next
  case (4 v vb)
  then show ?case using bits_val_bound[of "[v, vb, 0, 0, 0]"] by auto
next
  case (5 v vb vd)
  then show ?case using bits_val_bound[of "[v, vb, vd, 0, 0]"] by auto
next
  case (6 v vb vd vf)
  then show ?case using bits_val_bound[of "[v, vb, vd, vf, 0]"] by auto
qed simp

text \<open>The lower-case base-32 alphabet: the letters and the digits 2 to 7.\<close>

definition base32_char :: "char \<Rightarrow> bool" where
  "base32_char c = (let n = of_char c :: nat in (97 \<le> n \<and> n \<le> 122) \<or> (50 \<le> n \<and> n \<le> 55))"

lemma base32_lower: "d < 32 \<Longrightarrow> base32_char (lower_char (base32_digit d))"
  by (auto simp: base32_char_def lower_char_def base32_digit_def Let_def)

lemma base32_bits_length: "length (concat (map byte_bits bs)) = 8 * length bs"
  by (induction bs) (simp_all add: byte_bits_def)

lemma base32_bits: "\<forall>b \<in> set (concat (map byte_bits bs)). b < 2"
  by (auto simp: byte_bits_def)

text \<open>
  Identifiers: from sixteen random bytes a trace identifier has 32 characters, all lower-case
  hexadecimal digits, and different bytes give different identifiers; from ten random bytes a request
  identifier is \<open>req_\<close>, the time stamp, and 16 characters of the lower-case base-32 alphabet.
\<close>

theorem identifier_format:
  assumes "length buf = 16" and "length buf2 = 10"
  shows "(\<exists>t. NewTraceID (Inr buf) = Inr t \<and> length t = 32 \<and> set t \<subseteq> set ''0123456789abcdef''
        \<and> (\<forall>buf'. NewTraceID (Inr buf') = Inr t \<longrightarrow> buf' = buf))
    \<and> (\<exists>x. NewRequestID now (Inr buf2) = Inr (''req_'' @ format_stamp now @ ''_'' @ x)
        \<and> length x = 16 \<and> list_all base32_char x)"
proof
  show "\<exists>t. NewTraceID (Inr buf) = Inr t \<and> length t = 32 \<and> set t \<subseteq> set ''0123456789abcdef''
        \<and> (\<forall>buf'. NewTraceID (Inr buf') = Inr t \<longrightarrow> buf' = buf)"
    using assms(1) hex_encode_digits[of buf] hex_encode_inj by (auto simp: NewTraceID_def)
  have "list_all base32_char (ToLower (base32_encode buf2))"
    using base32_groups_digits[OF base32_bits[of buf2]] base32_lower
    unfolding base32_encode_def ToLower_def list_all_iff set_map by blast
  moreover have "length (ToLower (base32_encode buf2)) = 16"
    using assms(2) by (simp add: ToLower_def base32_encode_def base32_groups_length base32_bits_length)
  ultimately show "\<exists>x. NewRequestID now (Inr buf2) = Inr (''req_'' @ format_stamp now @ ''_'' @ x)
        \<and> length x = 16 \<and> list_all base32_char x"
    by (intro exI[of _ "ToLower (base32_encode buf2)"]) (simp add: NewRequestID_def NewRequestIDWithTime_def)
qed

theorem identifier_format_witness:
  "\<exists>x. NewRequestID (1183248000 * Second) (Inr ''0123456789'') = Inr (''req_20070701_000000_'' @ x) \<and> length x = 16"
proof -
  have s: "format_stamp (1183248000 * Second) = ''20070701_000000''" by code_simp
  have "length ''0123456789abcdef'' = 16" "length ''0123456789'' = 10" by simp_all
  from identifier_format[OF this, of "1183248000 * Second"] s show ?thesis by auto
qed

end
