(* ===== verification/Httpx_Discovery.thy ===== *)
theory Httpx_Discovery
  imports Pass_Context
begin

text \<open>
  \<open>httpx/discovery.go\<close>: service discovery for a call. Resolver and custom picker are functions of
  the caller; a \<open>nil\<close> one is \<open>None\<close>. \<open>rand.Intn\<close> is the argument \<open>intn\<close>, of which only its documented
  range is assumed. Weights are 64-bit integers, so their sum may wrap around. Of a URL the model
  has the parts the code reads or replaces, and the rest as one string.

  Lemmas: which instances are eligible, that the picker takes one of them, that it fails only
  when there is none, and that it takes each in proportion to its weight.
\<close>

section \<open>Data\<close>

type_synonym ResolveMode = string
type_synonym HealthStatus = string

abbreviation (input) ResolveModeHealthyOnly :: ResolveMode where "ResolveModeHealthyOnly \<equiv> ''healthy_only''"
abbreviation (input) ResolveModeAll :: ResolveMode where "ResolveModeAll \<equiv> ''all''"
abbreviation (input) HealthStatusHealthy :: HealthStatus where "HealthStatusHealthy \<equiv> ''healthy''"

record Instance =
  InstanceID :: string
  Host :: string
  Port :: int
  inst_Scheme :: string
  inst_HealthStatus :: HealthStatus
  Weight :: int
  Zone :: string
  Labels :: "(string \<times> string) list"

record ResolveRequest =
  rq_ServiceName :: string
  rq_Namespace :: string
  rq_LabelSelector :: "(string \<times> string) list"
  rq_PreferredLabelSelector :: "(string \<times> string) list"
  rq_PreferredZone :: string
  rq_ResolveMode :: ResolveMode
  rq_RequestID :: string
  rq_TraceID :: string

record ResolveResponse =
  rs_ServiceName :: string
  rs_Namespace :: string
  rs_Instances :: "Instance list"
  rs_ResolveTime :: time
  rs_Version :: string
  rs_CacheTTL :: duration
  rs_Partial :: bool
  rs_Warnings :: "string list"

type_synonym 'x resolver = "'x ctx \<Rightarrow> ResolveRequest \<Rightarrow> ResolveResponse option result"
type_synonym 'x picker = "'x ctx \<Rightarrow> ResolveRequest \<Rightarrow> ResolveResponse option \<Rightarrow> Instance result"

record 'x ServiceOptions =
  EnableDiscovery :: bool
  so_ServiceName :: string
  so_Namespace :: string
  so_PreferredZone :: string
  so_LabelSelector :: "(string \<times> string) list"
  so_PreferredLabelSelector :: "(string \<times> string) list"
  so_ResolveMode :: ResolveMode
  so_Resolver :: "'x resolver option"
  so_Picker :: "'x picker option"
  so_InstanceOverride :: "Instance option"

section \<open>Picking\<close>

definition healthy_for :: "ResolveRequest \<Rightarrow> Instance \<Rightarrow> bool" where
  "healthy_for req inst \<longleftrightarrow>
     \<not> (rq_ResolveMode req \<noteq> ResolveModeAll \<and> inst_HealthStatus inst \<noteq> [] \<and> inst_HealthStatus inst \<noteq> HealthStatusHealthy)"

definition in_zone :: "ResolveRequest \<Rightarrow> Instance \<Rightarrow> bool" where
  "in_zone req inst \<longleftrightarrow>
     \<not> (rq_PreferredZone req \<noteq> [] \<and> Zone inst \<noteq> [] \<and> Zone inst \<noteq> rq_PreferredZone req)"

definition candidates :: "ResolveRequest \<Rightarrow> Instance list \<Rightarrow> Instance list" where
  "candidates req insts =
     (let cands = filter (\<lambda>i. healthy_for req i \<and> in_zone req i) insts in
      if cands = [] \<and> rq_PreferredZone req \<noteq> [] then filter (healthy_for req) insts else cands)"

fun total_weight :: "int \<Rightarrow> Instance list \<Rightarrow> int" where
  "total_weight tot [] = tot"
| "total_weight tot (inst # insts) =
     total_weight (if Weight inst > 0 then int64 (tot + Weight inst) else tot) insts"

text \<open>The loop over the weights, and the candidate after the loop when it falls through.\<close>

fun pick_weighted :: "Instance \<Rightarrow> int \<Rightarrow> Instance list \<Rightarrow> Instance" where
  "pick_weighted lst pick [] = lst"
| "pick_weighted lst pick (inst # insts) =
     (if Weight inst \<le> 0 then pick_weighted lst pick insts
      else let pick = pick - Weight inst in if pick < 0 then inst else pick_weighted lst pick insts)"

definition RandomPicker_Pick :: "(int \<Rightarrow> int) \<Rightarrow> ResolveRequest \<Rightarrow> ResolveResponse option \<Rightarrow> Instance result" where
  "RandomPicker_Pick intn req resp =
     (case resp of
        None \<Rightarrow> Inl ErrNoHealthyInstance
      | Some rs \<Rightarrow>
          if rs_Instances rs = [] then Inl ErrNoHealthyInstance
          else
            let cands = candidates req (rs_Instances rs) in
            if cands = [] then Inl ErrNoHealthyInstance
            else
              let tot = total_weight 0 cands in
              if tot \<le> 0 then Inr (cands ! nat (intn (int (length cands))))
              else Inr (pick_weighted (cands ! (length cands - 1)) (intn tot) cands))"

section \<open>URLs\<close>

record url =
  u_Scheme :: string
  u_Host :: string
  u_RawQuery :: string
  u_rest :: string

text \<open>\<open>url.URL.Hostname\<close>: the host without a port and without the brackets of an IPv6 address.\<close>

definition valid_port :: "string \<Rightarrow> bool" where
  "valid_port s \<longleftrightarrow> list_all (\<lambda>c. digit_val c \<noteq> None) s"

definition Hostname :: "string \<Rightarrow> string" where
  "Hostname hostPort =
     (let host = (case LastIndexByte hostPort CHR '':'' of
                    Some colon \<Rightarrow> if valid_port (drop (colon + 1) hostPort) then take colon hostPort else hostPort
                  | None \<Rightarrow> hostPort)
      in if HasPrefix host ''['' \<and> host \<noteq> [] \<and> last host = CHR '']'' then butlast (tl host) else host)"

text \<open>\<open>net.JoinHostPort\<close>.\<close>

definition JoinHostPort :: "string \<Rightarrow> string \<Rightarrow> string" where
  "JoinHostPort host port =
     (if CHR '':'' \<in> set host then ''['' @ host @ '']:'' @ port else host @ '':'' @ port)"

definition rewriteURLToInstance :: "url \<Rightarrow> Instance \<Rightarrow> url" where
  "rewriteURLToInstance original inst =
     (let u = (if inst_Scheme inst \<noteq> [] then original\<lparr>u_Scheme := inst_Scheme inst\<rparr> else original);
          host = (if Port inst > 0 then JoinHostPort (Host inst) (FormatInt (Port inst)) else Host inst)
      in u\<lparr>u_Host := host\<rparr>)"

definition stringsSplitNonEmpty :: "string \<Rightarrow> string \<Rightarrow> string list" where
  "stringsSplitNonEmpty s sep = filter (\<lambda>item. item \<noteq> []) (Split s sep)"

definition parseServiceIdentifier :: "string \<Rightarrow> string \<Rightarrow> string \<times> string" where
  "parseServiceIdentifier host namespace =
     (let parts = stringsSplitNonEmpty host ''.'' in
      if length parts \<ge> 2 then (parts ! 0, if namespace = [] then parts ! 1 else namespace)
      else (host, namespace))"

definition resolveURL ::
    "(int \<Rightarrow> int) \<Rightarrow> 'x ctx \<Rightarrow> url \<Rightarrow> 'x ServiceOptions \<Rightarrow> string \<Rightarrow> string \<Rightarrow> (url \<times> string) result" where
  "resolveURL intn ctx original opt traceID requestID =
     (if \<not> EnableDiscovery opt then Inr (original, [])
      else
        case so_InstanceOverride opt of
          Some inst \<Rightarrow> Inr (rewriteURLToInstance original inst, u_Host original)
        | None \<Rightarrow>
            (case so_Resolver opt of
               None \<Rightarrow> Inl ErrServiceDiscoveryDisabled
             | Some resolve \<Rightarrow>
                 let (serviceName, namespace) =
                       (if so_ServiceName opt = []
                        then parseServiceIdentifier (Hostname (u_Host original)) (so_Namespace opt)
                        else (so_ServiceName opt, so_Namespace opt))
                 in if serviceName = [] \<or> namespace = []
                    then Inl (NewValidationError ''service discovery requires service name and namespace'' [] None)
                    else
                      let mode = (if so_ResolveMode opt = [] then ResolveModeHealthyOnly else so_ResolveMode opt);
                          req = \<lparr>rq_ServiceName = serviceName, rq_Namespace = namespace,
                                 rq_LabelSelector = so_LabelSelector opt,
                                 rq_PreferredLabelSelector = so_PreferredLabelSelector opt,
                                 rq_PreferredZone = so_PreferredZone opt, rq_ResolveMode = mode,
                                 rq_RequestID = requestID, rq_TraceID = traceID\<rparr>
                      in case resolve ctx req of
                           Inl e \<Rightarrow> Inl e
                         | Inr resp \<Rightarrow>
                             (case (case so_Picker opt of
                                      None \<Rightarrow> RandomPicker_Pick intn req resp
                                    | Some pick \<Rightarrow> pick ctx req resp) of
                                Inl e \<Rightarrow> Inl e
                              | Inr inst \<Rightarrow> Inr (rewriteURLToInstance original inst, u_Host original))))"

section \<open>Eligible instances\<close>

lemma candidates_subset: "set (candidates req insts) \<subseteq> {i \<in> set insts. healthy_for req i}"
  by (auto simp: candidates_def Let_def split: if_splits)

lemma candidates_empty: "candidates req insts = [] \<longleftrightarrow> (\<forall>i \<in> set insts. \<not> healthy_for req i)"
proof -
  have "in_zone req i" if "rq_PreferredZone req = []" for i using that by (simp add: in_zone_def)
  then show ?thesis by (auto simp: candidates_def Let_def filter_empty_conv)
qed

lemma candidates_zone:
  assumes "i \<in> set (candidates req insts)" and "\<exists>j \<in> set insts. healthy_for req j \<and> in_zone req j"
  shows "in_zone req i"
  using assms by (auto simp: candidates_def Let_def filter_empty_conv split: if_splits)

section \<open>Weighted choice\<close>

definition weight :: "Instance \<Rightarrow> int" where
  "weight i = max 0 (Weight i)"

abbreviation weights :: "Instance list \<Rightarrow> int" where
  "weights insts \<equiv> sum_list (map weight insts)"

lemma weight_nonneg [simp]: "0 \<le> weight i"
  by (simp add: weight_def)

lemma weights_nonneg: "0 \<le> weights insts"
  by (induction insts) simp_all

text \<open>While the sum stays in 64 bits, the loop computes it.\<close>

lemma total_weight_exact:
  "0 \<le> tot \<Longrightarrow> tot + weights insts < 2 ^ 63 \<Longrightarrow> total_weight tot insts = tot + weights insts"
proof (induction tot insts rule: total_weight.induct)
  case (2 tot inst insts)
  have "int64 (tot + Weight inst) = tot + Weight inst" if "Weight inst > 0"
  proof (rule int64_id)
    have "weight inst = Weight inst" using that by (simp add: weight_def)
    with that 2(2,3) weights_nonneg[of insts] show "in_int64 (tot + Weight inst)" by (simp add: in_int64_def)
  qed
  with 2 show ?case by (auto simp: weight_def)
qed simp

lemma pick_weighted_in: "lst \<in> set cs \<Longrightarrow> set xs \<subseteq> set cs \<Longrightarrow> pick_weighted lst pick xs \<in> set cs"
  by (induction lst pick xs rule: pick_weighted.induct) (auto simp: Let_def)

text \<open>The draws between 0 and the total that select \<open>x\<close> are as many as \<open>x\<close> has weight.\<close>

lemma pick_weighted_positive:
  "0 \<le> pick \<Longrightarrow> pick < weights xs \<Longrightarrow> pick_weighted lst pick xs \<in> set xs \<and> 0 < Weight (pick_weighted lst pick xs)"
  by (induction lst pick xs rule: pick_weighted.induct) (auto simp: Let_def weight_def split: if_splits)

lemma pick_weighted_share:
  "card {r. 0 \<le> r \<and> r < weights xs \<and> pick_weighted lst r xs = x} = nat (weights (filter (\<lambda>i. i = x) xs))"
proof (induction xs)
  case (Cons i xs)
  show ?case
  proof (cases "Weight i \<le> 0")
    case True
    then have "weight i = 0" by (simp add: weight_def)
    with Cons True show ?thesis by (cases "i = x") simp_all
  next
    case False
    then have w: "weight i = Weight i" "0 < Weight i" by (simp_all add: weight_def)
    let ?A = "{r. 0 \<le> r \<and> r < Weight i \<and> i = x}"
    let ?B = "{r. 0 \<le> r \<and> r < weights xs \<and> pick_weighted lst r xs = x}"
    have split: "{r. 0 \<le> r \<and> r < weights (i # xs) \<and> pick_weighted lst r (i # xs) = x}
        = ?A \<union> (\<lambda>r. r + Weight i) ` ?B" (is "?L = ?R")
    proof
      show "?L \<subseteq> ?R"
      proof
        fix r assume r: "r \<in> ?L"
        show "r \<in> ?R"
        proof (cases "r < Weight i")
          case True
          with r w show ?thesis by (simp add: Let_def)
        next
          case False
          with r w have "r - Weight i \<in> ?B" by (simp add: Let_def)
          then have "r - Weight i + Weight i \<in> (\<lambda>r. r + Weight i) ` ?B" by (rule imageI)
          then show ?thesis by simp
        qed
      qed
      show "?R \<subseteq> ?L" using w weights_nonneg[of xs] by (auto simp: Let_def)
    qed
    have "finite ?B" by (rule finite_subset[of _ "{0..<weights xs}"]) auto
    moreover have "finite ?A" by (rule finite_subset[of _ "{0..<Weight i}"]) auto
    moreover have "?A \<inter> (\<lambda>r. r + Weight i) ` ?B = {}" by auto
    ultimately have "card ?L = card ?A + card ?B"
      unfolding split by (simp add: card_Un_disjoint card_image inj_on_def)
    moreover have "?A = (if i = x then {0..<Weight i} else {})" by auto
    then have "card ?A = (if i = x then nat (Weight i) else 0)" by simp
    ultimately show ?thesis
      using Cons.IH w weights_nonneg[of "filter (\<lambda>i. i = x) xs"] by (cases "i = x") (simp_all add: nat_add_distrib)
  qed
next
  case Nil
  show ?case by (auto simp: card_eq_0_iff)
qed

section \<open>Properties\<close>

definition demo_inst :: "string \<Rightarrow> string \<Rightarrow> int \<Rightarrow> Instance" where
  "demo_inst name health w = \<lparr>InstanceID = name, Host = name, Port = 80, inst_Scheme = [],
     inst_HealthStatus = health, Weight = w, Zone = [], Labels = []\<rparr>"

definition demo_req :: ResolveRequest where
  "demo_req = \<lparr>rq_ServiceName = ''s'', rq_Namespace = ''n'', rq_LabelSelector = [], rq_PreferredLabelSelector = [],
     rq_PreferredZone = [], rq_ResolveMode = ResolveModeHealthyOnly, rq_RequestID = [], rq_TraceID = []\<rparr>"

definition demo_resp :: "Instance list \<Rightarrow> ResolveResponse" where
  "demo_resp insts = \<lparr>rs_ServiceName = ''s'', rs_Namespace = ''n'', rs_Instances = insts, rs_ResolveTime = 0,
     rs_Version = [], rs_CacheTTL = 0, rs_Partial = False, rs_Warnings = []\<rparr>"

lemma candidates_nth:
  assumes "0 \<le> intn (int (length cs))" "intn (int (length cs)) < int (length cs)"
  shows "cs ! nat (intn (int (length cs))) \<in> set cs"
  using assms by (intro nth_mem) simp

lemma picker_outcome:
  assumes "\<forall>n > 0. 0 \<le> intn n \<and> intn n < n"
  shows "(case RandomPicker_Pick intn req (Some rs) of
      Inl e \<Rightarrow> e = ErrNoHealthyInstance \<and> (\<forall>i \<in> set (rs_Instances rs). \<not> healthy_for req i)
    | Inr i \<Rightarrow> i \<in> set (rs_Instances rs) \<and> healthy_for req i
        \<and> ((\<exists>j \<in> set (rs_Instances rs). healthy_for req j \<and> in_zone req j) \<longrightarrow> in_zone req i))
    \<and> RandomPicker_Pick intn req None = Inl ErrNoHealthyInstance"
proof -
  let ?cs = "candidates req (rs_Instances rs)"
  have ne: "rs_Instances rs \<noteq> []" if "?cs \<noteq> []" using that candidates_subset[of req "[]"] by auto
  have last: "?cs ! (length ?cs - 1) \<in> set ?cs" if "?cs \<noteq> []" using that by (intro nth_mem) simp
  have "i \<in> set ?cs" if "RandomPicker_Pick intn req (Some rs) = Inr i" for i
  proof (cases "total_weight 0 ?cs \<le> 0")
    case True
    with that have i: "i = ?cs ! nat (intn (int (length ?cs)))" and "?cs \<noteq> []"
      by (auto simp: RandomPicker_Pick_def Let_def split: if_splits)
    then have "0 < int (length ?cs)" by simp
    with assms have "0 \<le> intn (int (length ?cs)) \<and> intn (int (length ?cs)) < int (length ?cs)" by blast
    with i candidates_nth show ?thesis by blast
  next
    case False
    with that have i: "i = pick_weighted (?cs ! (length ?cs - 1)) (intn (total_weight 0 ?cs)) ?cs" and "?cs \<noteq> []"
      by (auto simp: RandomPicker_Pick_def Let_def split: if_splits)
    from pick_weighted_in[OF last[OF \<open>?cs \<noteq> []\<close>] order_refl] show ?thesis unfolding i .
  qed
  moreover have "?cs = [] \<and> e = ErrNoHealthyInstance" if "RandomPicker_Pick intn req (Some rs) = Inl e" for e
    using that candidates_subset[of req "[]"] by (auto simp: RandomPicker_Pick_def Let_def split: if_splits)
  ultimately have r: "\<And>i. RandomPicker_Pick intn req (Some rs) = Inr i \<Longrightarrow> i \<in> set ?cs"
    "\<And>e. RandomPicker_Pick intn req (Some rs) = Inl e \<Longrightarrow> ?cs = [] \<and> e = ErrNoHealthyInstance" by blast+
  show ?thesis
  proof (cases "RandomPicker_Pick intn req (Some rs)")
    case (Inl e)
    with r(2)[OF Inl] candidates_empty[of req "rs_Instances rs"] show ?thesis by (simp add: RandomPicker_Pick_def[of _ _ None])
  next
    case (Inr i)
    from r(1)[OF Inr] candidates_subset[of req "rs_Instances rs"]
    have "i \<in> set (rs_Instances rs)" "healthy_for req i" by blast+
    with Inr candidates_zone[OF r(1)[OF Inr]] show ?thesis by (simp add: RandomPicker_Pick_def[of _ _ None])
  qed
qed

text \<open>
  The default picker: with a random source in its documented range it returns an instance of the
  response that is healthy for the request, and that lies in the preferred zone whenever some healthy
  instance does (or has no zone); it fails, with \<open>ErrNoHealthyInstance\<close>, exactly when the response has
  no healthy instance. It never fails otherwise and never picks outside the response, even when the
  sum of the weights overflows.
\<close>

theorem picker_picks_eligible:
  assumes "\<forall>n > 0. 0 \<le> intn n \<and> intn n < n"
  shows "(case RandomPicker_Pick intn req (Some rs) of
      Inl e \<Rightarrow> e = ErrNoHealthyInstance \<and> (\<forall>i \<in> set (rs_Instances rs). \<not> healthy_for req i)
    | Inr i \<Rightarrow> i \<in> set (rs_Instances rs) \<and> healthy_for req i
        \<and> ((\<exists>j \<in> set (rs_Instances rs). healthy_for req j \<and> in_zone req j) \<longrightarrow> in_zone req i))
    \<and> RandomPicker_Pick intn req None = Inl ErrNoHealthyInstance"
  by (rule picker_outcome[OF assms])

theorem picker_picks_eligible_witness:
  "\<exists>i. RandomPicker_Pick (\<lambda>n. 0) demo_req (Some (demo_resp [demo_inst ''a'' ''unhealthy'' 5, demo_inst ''b'' ''healthy'' 1])) = Inr i
     \<and> healthy_for demo_req i"
proof -
  let ?rs = "demo_resp [demo_inst ''a'' ''unhealthy'' 5, demo_inst ''b'' ''healthy'' 1]"
  have "\<forall>n > 0. (0::int) \<le> 0 \<and> 0 < n" by simp
  note p = picker_picks_eligible[where req = demo_req and rs = ?rs, OF this]
  have "healthy_for demo_req (demo_inst ''b'' ''healthy'' 1)" by (simp add: healthy_for_def demo_inst_def)
  with p show ?thesis by (auto simp: demo_resp_def split: sum.splits)
qed

text \<open>
  The default picker balances by weight: over the possible draws of \<open>rand.Intn(total)\<close>, each
  instance is chosen for exactly as many draws as its positive weight, as long as the sum of the
  weights is positive and fits 64 bits; instances without positive weight are not chosen at all.
\<close>

theorem picker_proportional:
  assumes "0 < weights (candidates req (rs_Instances rs))" and "weights (candidates req (rs_Instances rs)) < 2 ^ 63"
  shows "card {r. 0 \<le> r \<and> r < weights (candidates req (rs_Instances rs)) \<and> RandomPicker_Pick (\<lambda>n. r) req (Some rs) = Inr x}
      = nat (weights (filter (\<lambda>i. i = x) (candidates req (rs_Instances rs))))
    \<and> (RandomPicker_Pick (\<lambda>n. r) req (Some rs) = Inr x \<longrightarrow> 0 \<le> r \<longrightarrow> r < weights (candidates req (rs_Instances rs))
         \<longrightarrow> 0 < Weight x)"
proof -
  let ?cs = "candidates req (rs_Instances rs)"
  have "?cs \<noteq> []" using assms(1) by auto
  moreover have "rs_Instances rs \<noteq> []" using \<open>?cs \<noteq> []\<close> candidates_subset[of req "[]"] by auto
  moreover have "total_weight 0 ?cs = weights ?cs" using total_weight_exact[of 0 ?cs] assms(2) by simp
  ultimately have "RandomPicker_Pick (\<lambda>n. r) req (Some rs) = Inr (pick_weighted (?cs ! (length ?cs - 1)) r ?cs)" for r
    using assms(1) by (simp add: RandomPicker_Pick_def Let_def)
  then show ?thesis
    using pick_weighted_share[of ?cs "?cs ! (length ?cs - 1)" x] pick_weighted_positive[of r ?cs] by auto
qed

theorem picker_proportional_witness:
  "card {r. 0 \<le> r \<and> r < 4 \<and> RandomPicker_Pick (\<lambda>n. r) demo_req
       (Some (demo_resp [demo_inst ''a'' ''healthy'' 3, demo_inst ''b'' ''healthy'' 1])) = Inr (demo_inst ''a'' ''healthy'' 3)} = 3"
proof -
  let ?a = "demo_inst ''a'' ''healthy'' 3" and ?b = "demo_inst ''b'' ''healthy'' 1"
  have c: "candidates demo_req (rs_Instances (demo_resp [?a, ?b])) = [?a, ?b]"
    by (simp add: candidates_def demo_resp_def demo_inst_def demo_req_def healthy_for_def in_zone_def)
  have w: "weights [?a, ?b] = 4" by (simp add: weight_def demo_inst_def)
  have f: "weights (filter (\<lambda>i. i = ?a) [?a, ?b]) = 3" by (simp add: weight_def demo_inst_def)
  from picker_proportional[where req = demo_req and rs = "demo_resp [?a, ?b]" and x = ?a] show ?thesis unfolding c w f by simp
qed

text \<open>
  C27. Calls through discovery reach healthy instances: with the default picker and a mode other than
  \<open>all\<close>, a URL that is resolved points at an instance the resolver returned for a request with service
  name and namespace, and that instance is healthy or of unstated health; scheme and host are the
  instance's, the rest of the URL is unchanged, and the original host is handed on for the Host header.
\<close>

theorem discovery_reaches_healthy:
  assumes "\<forall>n > 0. 0 \<le> intn n \<and> intn n < n"
    and "EnableDiscovery opt" and "so_InstanceOverride opt = None" and "so_Picker opt = None"
    and "so_ResolveMode opt \<noteq> ResolveModeAll"
    and "resolveURL intn ctx original opt traceID requestID = Inr (u, h)"
  shows "\<exists>resolve req rs i. so_Resolver opt = Some resolve \<and> resolve ctx req = Inr (Some rs)
    \<and> rq_ServiceName req \<noteq> [] \<and> rq_Namespace req \<noteq> [] \<and> rq_TraceID req = traceID \<and> rq_RequestID req = requestID
    \<and> i \<in> set (rs_Instances rs) \<and> (inst_HealthStatus i = [] \<or> inst_HealthStatus i = HealthStatusHealthy)
    \<and> u = rewriteURLToInstance original i \<and> u_RawQuery u = u_RawQuery original \<and> u_rest u = u_rest original \<and> h = u_Host original"
proof -
  from assms obtain resolve req resp i where r: "so_Resolver opt = Some resolve" "resolve ctx req = Inr resp"
      "rq_ServiceName req \<noteq> []" "rq_Namespace req \<noteq> []" "rq_TraceID req = traceID" "rq_RequestID req = requestID"
      "rq_ResolveMode req \<noteq> ResolveModeAll"
      "RandomPicker_Pick intn req resp = Inr i" "u = rewriteURLToInstance original i" "h = u_Host original"
    by (auto simp: resolveURL_def Let_def split: option.splits prod.splits if_splits sum.splits)
  then obtain rs where rs: "resp = Some rs" by (cases resp) (simp_all add: RandomPicker_Pick_def)
  have "i \<in> set (rs_Instances rs)" "healthy_for req i"
    using picker_outcome[where req = req and rs = rs, OF assms(1)] r(8) rs by simp_all
  moreover have "u_RawQuery u = u_RawQuery original" "u_rest u = u_rest original" using r(9) by (simp_all add: rewriteURLToInstance_def Let_def)
  ultimately show ?thesis using r rs by (auto simp: healthy_for_def)
qed

definition demo_service :: "unit ServiceOptions" where
  "demo_service = \<lparr>EnableDiscovery = True, so_ServiceName = [], so_Namespace = [], so_PreferredZone = [],
     so_LabelSelector = [], so_PreferredLabelSelector = [], so_ResolveMode = [],
     so_Resolver = Some (\<lambda>c req. Inr (Some (demo_resp [demo_inst ''10.0.0.7'' ''healthy'' 1]))),
     so_Picker = None, so_InstanceOverride = None\<rparr>"

theorem discovery_reaches_healthy_witness:
  "\<exists>u. resolveURL (\<lambda>n. 0) Background \<lparr>u_Scheme = ''http'', u_Host = ''users.prod'', u_RawQuery = [], u_rest = ''/v1''\<rparr> demo_service ''t'' ''r''
      = Inr (u, ''users.prod'') \<and> u_rest u = ''/v1'' \<and> u_Host u = ''10.0.0.7:80''"
proof -
  let ?o = "\<lparr>u_Scheme = ''http'', u_Host = ''users.prod'', u_RawQuery = [], u_rest = ''/v1''\<rparr>"
  have h: "Hostname ''users.prod'' = ''users.prod''" by code_simp
  have p: "parseServiceIdentifier ''users.prod'' [] = (''users'', ''prod'')" by code_simp
  have f: "FormatInt 80 = ''80''" by code_simp
  obtain u where u: "resolveURL (\<lambda>n. 0) Background ?o demo_service ''t'' ''r'' = Inr (u, ''users.prod'')"
    "u_Host u = ''10.0.0.7:80''"
    by (simp add: resolveURL_def demo_service_def h p RandomPicker_Pick_def candidates_def demo_resp_def demo_inst_def
        healthy_for_def in_zone_def int64_def rewriteURLToInstance_def JoinHostPort_def f)
  have "\<forall>n > 0. (0::int) \<le> 0 \<and> 0 < n" by simp
  from discovery_reaches_healthy[OF this _ _ _ _ u(1)] u show ?thesis by (auto simp: demo_service_def)
qed

end
