(* ===== verification/Httpx_Agent.thy ===== *)
theory Httpx_Agent
  imports Httpx_Tracing Httpx_Discovery
begin

text \<open>
  \<open>httpx/agent.go\<close>: one HTTP call with its option pipeline, its attempts and the retry loop. The
  state \<open>'s\<close> is everything outside the agent: the network behind the client and the variables a
  response handler writes. The client, parsing of URLs, and handlers are functions over it. What one
  attempt reads from outside (clock, random bytes, map order, random draws, the end of a wait) is a
  record; attempt \<open>n\<close> takes the \<open>n\<close>-th. Log output and the release of timers and bodies are not
  values of the model.

  Lemmas: how often a request is sent, which errors a call returns and what they keep of their cause,
  the deadline of a call, and the bounds of the back-off delay with its overflow.
\<close>

section \<open>Data\<close>

abbreviation (input) defaultTimeoutQuota :: duration where "defaultTimeoutQuota \<equiv> 5 * Second"
abbreviation (input) defaultRetryAttempts :: int where "defaultRetryAttempts \<equiv> 3"
abbreviation (input) defaultRetryBase :: duration where "defaultRetryBase \<equiv> 100 * Millisecond"
abbreviation (input) defaultRetryMaxDelay :: duration where "defaultRetryMaxDelay \<equiv> Second"

record http_request =
  req_Method :: string
  req_URL :: url
  req_Host :: string
  req_Header :: http_header
  req_ContentLength :: int
  req_Body :: "string option"

text \<open>A response; reading its body yields the bytes read and, if the reading failed, its error.\<close>

record http_response =
  StatusCode :: int
  resp_Header :: http_header
  resp_ContentLength :: int
  resp_Body :: "string \<times> go_error option"

type_synonym 's http_client = "http_request \<Rightarrow> 's \<Rightarrow> http_response result \<times> 's"
type_synonym pre_handler = "http_request \<Rightarrow> http_request option result"
type_synonym ('p, 's) resp_handler = "http_response \<Rightarrow> 'p option \<Rightarrow> 's \<Rightarrow> go_error option \<times> 's"

record RetryOpt =
  MaxDelay :: duration
  BaseDelay :: duration
  RetryAppError :: bool
  Attempts :: int
  Idempotent :: bool

record ('x, 'p, 's) agent =
  ag_url :: string
  ag_method :: string
  ag_ctx :: "'x ctx option"
  ag_reqPreHandlers :: "pre_handler list"
  ag_respHandler :: "('p, 's) resp_handler option"
  ag_respWrapper :: "'p option"
  ag_client :: "'s http_client option"
  ag_expectedStatusCodes :: "int list"
  ag_retryStatusCodes :: "int list"
  ag_retryOpt :: "RetryOpt option"
  ag_timeoutQuota :: duration
  ag_service :: "'x ServiceOptions"

text \<open>What an attempt takes from outside, and the wait after it: \<open>ae_done\<close> is \<open>ctx.Err()\<close> if the context ends first.\<close>

record attempt_env =
  ae_now_prepare :: time
  ae_rnd_trace :: "string result"
  ae_now_request :: time
  ae_rnd_request :: "string result"
  ae_now_inject :: time
  ae_order :: "string list"
  ae_intn :: "int \<Rightarrow> int"
  ae_jitter :: "int \<Rightarrow> int"
  ae_now_wait :: time
  ae_done :: "go_error option"

section \<open>Options\<close>

type_synonym ('x, 'p, 's) agent_op = "('x, 'p, 's) agent \<Rightarrow> ('x, 'p, 's) agent result"

definition no_service :: "'x ServiceOptions" where
  "no_service = \<lparr>EnableDiscovery = False, so_ServiceName = [], so_Namespace = [], so_PreferredZone = [],
     so_LabelSelector = [], so_PreferredLabelSelector = [], so_ResolveMode = [], so_Resolver = None,
     so_Picker = None, so_InstanceOverride = None\<rparr>"

definition newAgent :: "string \<Rightarrow> string \<Rightarrow> ('x, 'p, 's) agent" where
  "newAgent url method =
     \<lparr>ag_url = url, ag_method = method, ag_ctx = Some Background, ag_reqPreHandlers = [], ag_respHandler = None,
      ag_respWrapper = None, ag_client = None, ag_expectedStatusCodes = [], ag_retryStatusCodes = [],
      ag_retryOpt = None, ag_timeoutQuota = 0, ag_service = no_service\<rparr>"

definition Get :: "string \<Rightarrow> ('x, 'p, 's) agent" where "Get url = newAgent url ''GET''"
definition Post :: "string \<Rightarrow> ('x, 'p, 's) agent" where "Post url = newAgent url ''POST''"
definition Put :: "string \<Rightarrow> ('x, 'p, 's) agent" where "Put url = newAgent url ''PUT''"
definition Patch :: "string \<Rightarrow> ('x, 'p, 's) agent" where "Patch url = newAgent url ''PATCH''"
definition Delete :: "string \<Rightarrow> ('x, 'p, 's) agent" where "Delete url = newAgent url ''DELETE''"

definition Retry :: "RetryOpt option \<Rightarrow> ('x, 'p, 's) agent_op" where
  "Retry opt a =
     Inr (a\<lparr>ag_retryOpt := Some (case opt of
              None \<Rightarrow> \<lparr>MaxDelay = 0, BaseDelay = 0, RetryAppError = False, Attempts = 0, Idempotent = False\<rparr>
            | Some o' \<Rightarrow> o')\<rparr>)"

definition ExpectedStatusCodes :: "int list \<Rightarrow> ('x, 'p, 's) agent_op" where
  "ExpectedStatusCodes codes a = Inr (a\<lparr>ag_expectedStatusCodes := codes\<rparr>)"

definition RetryStatusCodes :: "int list \<Rightarrow> ('x, 'p, 's) agent_op" where
  "RetryStatusCodes codes a = Inr (a\<lparr>ag_retryStatusCodes := codes\<rparr>)"

definition Context :: "'x ctx option \<Rightarrow> ('x, 'p, 's) agent_op" where
  "Context ctx a = Inr (a\<lparr>ag_ctx := ctx\<rparr>)"

definition Client :: "'s http_client option \<Rightarrow> ('x, 'p, 's) agent_op" where
  "Client client a = Inr (a\<lparr>ag_client := client\<rparr>)"

definition TimeoutQuota :: "duration \<Rightarrow> ('x, 'p, 's) agent_op" where
  "TimeoutQuota timeout a = Inr (a\<lparr>ag_timeoutQuota := timeout\<rparr>)"

definition Service :: "'x ServiceOptions \<Rightarrow> ('x, 'p, 's) agent_op" where
  "Service opt a = Inr (a\<lparr>ag_service := opt\<rparr>)"

text \<open>\<open>SetHeader\<close> writes the given names as they are, without making them canonical.\<close>

fun put_headers :: "http_header \<Rightarrow> http_header \<Rightarrow> http_header" where
  "put_headers [] h = h"
| "put_headers ((k, v) # header) h = put_headers header (AList.update k v h)"

definition SetHeader :: "http_header \<Rightarrow> ('x, 'p, 's) agent_op" where
  "SetHeader header a =
     Inr (a\<lparr>ag_reqPreHandlers := ag_reqPreHandlers a @
              [\<lambda>req. Inr (Some (req\<lparr>req_Header := put_headers header (req_Header req)\<rparr>))]\<rparr>)"

text \<open>A wrapper is given with whether its dynamic type is a pointer; nil is \<open>None\<close>.\<close>

definition RespWrapper :: "('p \<times> bool) option \<Rightarrow> ('x, 'p, 's) agent_op" where
  "RespWrapper wrapper a =
     (case wrapper of
        Some (w, True) \<Rightarrow> Inr (a\<lparr>ag_respWrapper := Some w\<rparr>)
      | _ \<Rightarrow> Inl (NewValidationError ''response wrapper should be ptr'' [] None))"

definition CustomRespHandler :: "('p, 's) resp_handler option \<Rightarrow> ('x, 'p, 's) agent_op" where
  "CustomRespHandler handler a = Inr (a\<lparr>ag_respHandler := handler\<rparr>)"

section \<open>Initialisation\<close>

fun run_ops :: "('x, 'p, 's) agent_op list \<Rightarrow> ('x, 'p, 's) agent \<Rightarrow> go_error option \<times> ('x, 'p, 's) agent" where
  "run_ops [] a = (None, a)"
| "run_ops (op # ops) a = (case op a of Inl e \<Rightarrow> (Some e, a) | Inr a \<Rightarrow> run_ops ops a)"

text \<open>\<open>init\<close>: \<open>rnd\<close> for a trace identifier, \<open>now\<close> for the default deadline, \<open>dflt\<close> is \<open>DefaultClient\<close>.\<close>

definition agent_init ::
    "'s http_client \<Rightarrow> string result \<Rightarrow> time \<Rightarrow> ('x, 'p, 's) agent_op list \<Rightarrow> ('x, 'p, 's) agent
       \<Rightarrow> go_error option \<times> ('x, 'p, 's) agent" where
  "agent_init dflt rnd now ops a =
     (case run_ops ops a of
        (Some e, a) \<Rightarrow> (Some e, a)
      | (None, a) \<Rightarrow>
          let a = (if ag_expectedStatusCodes a = [] then a\<lparr>ag_expectedStatusCodes := [200]\<rparr> else a)
          in case ensureTraceContext rnd (ag_ctx a) of
               (ctx, Inl e) \<Rightarrow> (Some e, a\<lparr>ag_ctx := Some ctx\<rparr>)
             | (ctx, Inr traceID) \<Rightarrow>
                 let ctx = (case authoritativeDeadline ctx of
                              Some deadline \<Rightarrow> contextWithAuthoritativeDeadline ctx deadline
                            | None \<Rightarrow>
                                let timeout = (if ag_timeoutQuota a \<le> 0 then defaultTimeoutQuota else ag_timeoutQuota a)
                                in contextWithAuthoritativeDeadline ctx (now + timeout))
                 in (None, a\<lparr>ag_ctx := Some ctx,
                             ag_client := Some (case ag_client a of None \<Rightarrow> dflt | Some c \<Rightarrow> c)\<rparr>))"

section \<open>One attempt\<close>

fun run_pre_handlers :: "pre_handler list \<Rightarrow> http_request \<Rightarrow> http_request result" where
  "run_pre_handlers [] req = Inr req"
| "run_pre_handlers (h # hs) req =
     (case h req of
        Inl e \<Rightarrow> Inl e
      | Inr newReq \<Rightarrow> run_pre_handlers hs (case newReq of Some r \<Rightarrow> r | None \<Rightarrow> req))"

text \<open>The request identifier is returned also when a later step fails. \<open>parse\<close> is \<open>url.Parse\<close>.\<close>

definition prepareRequest ::
    "(string \<Rightarrow> url result) \<Rightarrow> attempt_env \<Rightarrow> ('x, 'p, 's) agent
       \<Rightarrow> http_request result \<times> string \<times> ('x, 'p, 's) agent" where
  "prepareRequest parse E a =
     (let ctx = (case ag_ctx a of None \<Rightarrow> Background | Some c \<Rightarrow> c) in
      if (case ctx_deadline ctx of Some d \<Rightarrow> d - ae_now_prepare E \<le> 0 | None \<Rightarrow> False)
      then (Inl ErrTimeoutBudgetExhausted, [], a)
      else
        case parse (ag_url a) of
          Inl e \<Rightarrow> (Inl (WrapError ''new request failed: '' e []), [], a)
        | Inr u \<Rightarrow>
            (case run_pre_handlers (ag_reqPreHandlers a)
                    \<lparr>req_Method = ag_method a, req_URL = u, req_Host = u_Host u, req_Header = [],
                     req_ContentLength = 0, req_Body = None\<rparr> of
               Inl e \<Rightarrow> (Inl e, [], a)
             | Inr req \<Rightarrow>
                 (case injectTraceHeaders (ae_rnd_trace E) (ae_now_request E) (ae_rnd_request E) (ae_now_inject E)
                         (ae_order E) ctx (req_Header req) of
                    ((ctx, requestID, Some e), h) \<Rightarrow> (Inl e, requestID, a)
                  | ((ctx, requestID, None), h) \<Rightarrow>
                      let req = req\<lparr>req_Header := h\<rparr>; a = a\<lparr>ag_ctx := Some ctx\<rparr> in
                      if EnableDiscovery (ag_service a) then
                        (case resolveURL (ae_intn E) ctx (req_URL req) (ag_service a)
                                (header_Get (req_Header req) KeyTraceID) requestID of
                           Inl e \<Rightarrow> (Inl e, requestID, a)
                         | Inr (resolved, originalHost) \<Rightarrow>
                             (Inr (req\<lparr>req_URL := resolved,
                                       req_Host := if originalHost \<noteq> [] then originalHost else req_Host req\<rparr>),
                              requestID, a))
                      else (Inr req, requestID, a))))"

fun is_CallError :: "go_error \<Rightarrow> bool" where
  "is_CallError (CallError m u r s e) = True"
| "is_CallError _ = False"

fun is_ErrHttp :: "go_error \<Rightarrow> bool" where
  "is_ErrHttp (ErrHttp c m e s b) = True"
| "is_ErrHttp _ = False"

definition wrapCallError :: "('x, 'p, 's) agent \<Rightarrow> string \<Rightarrow> go_error \<Rightarrow> go_error" where
  "wrapCallError a requestID err =
     (case errors_As is_CallError err of
        Some callErr \<Rightarrow> err
      | None \<Rightarrow>
          (case errors_As is_ErrHttp err of
             Some (ErrHttp code msg cause status body) \<Rightarrow>
               CallError (ag_method a) (ag_url a) requestID status
                 (NewUpstreamError (ag_url a) (ag_method a) requestID
                    (Some (HTTPStatusError status (ag_expectedStatusCodes a) body None (Some err))))
           | _ \<Rightarrow>
               CallError (ag_method a) (ag_url a) requestID 0
                 (NewUpstreamError (ag_url a) (ag_method a) requestID (Some err))))"

text \<open>
  The errors that implement \<open>net.Error\<close>: those of package \<open>net\<close>, \<open>*url.Error\<close>, and the error of a
  context deadline.
\<close>

fun is_net_error :: "go_error \<Rightarrow> bool" where
  "is_net_error (NetError s) = True"
| "is_net_error (UrlError op u e) = True"
| "is_net_error CtxDeadlineExceeded = True"
| "is_net_error _ = False"

definition isRetryableTransportError :: "go_error \<Rightarrow> bool" where
  "isRetryableTransportError err \<longleftrightarrow> errors_As is_net_error err \<noteq> None"

definition isInExpectedStatusCodes :: "('x, 'p, 's) agent \<Rightarrow> int \<Rightarrow> bool" where
  "isInExpectedStatusCodes a code \<longleftrightarrow> list_ex (\<lambda>ac. ac = code) (ag_expectedStatusCodes a)"

definition isInRetryStatusCodes :: "('x, 'p, 's) agent \<Rightarrow> int \<Rightarrow> bool" where
  "isInRetryStatusCodes a code \<longleftrightarrow> list_ex (\<lambda>rc. rc = code) (ag_retryStatusCodes a)"

datatype executeMode = executeHandle | executeStream

definition mark_retryable :: "bool \<Rightarrow> go_error \<Rightarrow> go_error" where
  "mark_retryable b e = (if b then the (WithRetryableError (Some e)) else e)"

text \<open>\<open>doHTTP\<close>: a response is returned in stream mode only. The client was set by \<open>init\<close>.\<close>

definition doHTTP ::
    "(string \<Rightarrow> url result) \<Rightarrow> 's http_client \<Rightarrow> executeMode \<Rightarrow> attempt_env \<Rightarrow> ('x, 'p, 's) agent \<Rightarrow> 's
       \<Rightarrow> http_response option result \<times> ('x, 'p, 's) agent \<times> 's" where
  "doHTTP parse client mode E a s =
     (case prepareRequest parse E a of
        (Inl e, requestID, a) \<Rightarrow> (Inl (wrapCallError a requestID e), a, s)
      | (Inr req, requestID, a) \<Rightarrow>
          (case client req s of
             (Inl e, s) \<Rightarrow>
               (Inl (wrapCallError a requestID
                       (mark_retryable (isRetryableTransportError e) (WrapError ''request do failed: '' e []))), a, s)
           | (Inr resp, s) \<Rightarrow>
               if \<not> isInExpectedStatusCodes a (StatusCode resp) then
                 let (body, readErr) = resp_Body resp;
                     cause = NewErrHttp (StatusCode resp) body;
                     cause = (case readErr of
                                None \<Rightarrow> cause
                              | Some r \<Rightarrow> WrapError [] cause ('': read body failed: '' @ Error r))
                 in (Inl (wrapCallError a requestID (mark_retryable (isInRetryStatusCodes a (StatusCode resp)) cause)), a, s)
               else
                 case mode of
                   executeStream \<Rightarrow> (Inr (Some resp), a, s)
                 | executeHandle \<Rightarrow>
                     (case ag_respHandler a of
                        None \<Rightarrow> (Inr None, a, s)
                      | Some handle \<Rightarrow>
                          (case handle resp (ag_respWrapper a) s of
                             (None, s) \<Rightarrow> (Inr None, a, s)
                           | (Some e, s) \<Rightarrow>
                               (Inl (wrapCallError a requestID
                                       (mark_retryable (case ag_retryOpt a of Some opt \<Rightarrow> RetryAppError opt | None \<Rightarrow> False) e)), a, s)))))"

section \<open>Retries\<close>

definition canRetryMethod :: "('x, 'p, 's) agent \<Rightarrow> bool" where
  "canRetryMethod a =
     (if (case ag_retryOpt a of Some opt \<Rightarrow> Idempotent opt | None \<Rightarrow> False) then True
      else ag_method a = ''GET'' \<or> ag_method a = ''HEAD'' \<or> ag_method a = ''OPTIONS'')"

definition shouldRetry :: "go_error \<Rightarrow> bool" where
  "shouldRetry err = IsRetryableError (Some err)"

text \<open>\<open>jitter n\<close> is \<open>rand.Int63n(n)\<close>; the shift is on 64-bit integers. \<open>attempt\<close> is at least 1.\<close>

definition retryDelay :: "(int \<Rightarrow> int) \<Rightarrow> RetryOpt \<Rightarrow> nat \<Rightarrow> duration" where
  "retryDelay jitter opt attempt =
     (let base = (if BaseDelay opt \<le> 0 then defaultRetryBase else BaseDelay opt);
          maxDelay = (if MaxDelay opt \<le> 0 then defaultRetryMaxDelay else MaxDelay opt);
          delay = int64 (base * 2 ^ (attempt - 1));
          delay = (if delay > maxDelay then maxDelay else delay)
      in if delay \<le> 0 then 0 else go_div delay 2 + go_div (jitter delay) 2)"

text \<open>The loop from attempt \<open>attempt\<close> on, with \<open>left\<close> attempts left.\<close>

fun retry_loop ::
    "(string \<Rightarrow> url result) \<Rightarrow> 's http_client \<Rightarrow> executeMode \<Rightarrow> (nat \<Rightarrow> attempt_env) \<Rightarrow> RetryOpt \<Rightarrow> nat \<Rightarrow> nat
       \<Rightarrow> ('x, 'p, 's) agent \<Rightarrow> 's \<Rightarrow> http_response option result \<times> ('x, 'p, 's) agent \<times> 's" where
  "retry_loop parse client mode envs opt 0 attempt a s = (Inl (OpaqueError []), a, s)"
| "retry_loop parse client mode envs opt (Suc left) attempt a s =
     (case doHTTP parse client mode (envs attempt) a s of
        (Inr resp, a, s) \<Rightarrow> (Inr resp, a, s)
      | (Inl err, a, s) \<Rightarrow>
          if left = 0 \<or> \<not> shouldRetry err then (Inl err, a, s)
          else
            let delay = retryDelay (ae_jitter (envs attempt)) opt attempt in
            if (case Option.bind (ag_ctx a) ctx_deadline of
                  Some d \<Rightarrow> d - ae_now_wait (envs attempt) \<le> delay
                | None \<Rightarrow> False)
            then (Inl err, a, s)
            else
              case ae_done (envs attempt) of
                Some e \<Rightarrow> (Inl (wrapCallError a [] e), a, s)
              | None \<Rightarrow> retry_loop parse client mode envs opt left (Suc attempt) a s)"

definition max_attempts :: "('x, 'p, 's) agent \<Rightarrow> RetryOpt \<Rightarrow> nat" where
  "max_attempts a opt =
     (let attempts = (if Attempts opt \<le> 0 then defaultRetryAttempts else Attempts opt) in
      nat (if \<not> canRetryMethod a then 1 else attempts))"

definition retryDoHTTP ::
    "(string \<Rightarrow> url result) \<Rightarrow> 's http_client \<Rightarrow> executeMode \<Rightarrow> (nat \<Rightarrow> attempt_env) \<Rightarrow> RetryOpt
       \<Rightarrow> ('x, 'p, 's) agent \<Rightarrow> 's \<Rightarrow> http_response option result \<times> ('x, 'p, 's) agent \<times> 's" where
  "retryDoHTTP parse client mode envs opt a s = retry_loop parse client mode envs opt (max_attempts a opt) 1 a s"

definition executeHTTP ::
    "(string \<Rightarrow> url result) \<Rightarrow> 's http_client \<Rightarrow> executeMode \<Rightarrow> (nat \<Rightarrow> attempt_env)
       \<Rightarrow> ('x, 'p, 's) agent \<Rightarrow> 's \<Rightarrow> http_response option result \<times> ('x, 'p, 's) agent \<times> 's" where
  "executeHTTP parse client mode envs a s =
     (case ag_retryOpt a of
        None \<Rightarrow> doHTTP parse client mode (envs 1) a s
      | Some opt \<Rightarrow> retryDoHTTP parse client mode envs opt a s)"

text \<open>\<open>Do\<close> and \<open>DoStream\<close>.\<close>

definition run_agent ::
    "(string \<Rightarrow> url result) \<Rightarrow> 's http_client \<Rightarrow> executeMode \<Rightarrow> string result \<Rightarrow> time \<Rightarrow> (nat \<Rightarrow> attempt_env)
       \<Rightarrow> ('x, 'p, 's) agent_op list \<Rightarrow> ('x, 'p, 's) agent \<Rightarrow> 's \<Rightarrow> http_response option result \<times> 's" where
  "run_agent parse dflt mode rnd now envs ops a s =
     (case agent_init dflt rnd now ops a of
        (Some e, a) \<Rightarrow> (Inl (wrapCallError a [] e), s)
      | (None, a) \<Rightarrow>
          (case executeHTTP parse (case ag_client a of Some c \<Rightarrow> c | None \<Rightarrow> dflt) mode envs a s of
             (res, a, s) \<Rightarrow> (res, s)))"

definition Do ::
    "(string \<Rightarrow> url result) \<Rightarrow> 's http_client \<Rightarrow> string result \<Rightarrow> time \<Rightarrow> (nat \<Rightarrow> attempt_env)
       \<Rightarrow> ('x, 'p, 's) agent_op list \<Rightarrow> ('x, 'p, 's) agent \<Rightarrow> 's \<Rightarrow> go_error option \<times> 's" where
  "Do parse dflt rnd now envs ops a s =
     (case run_agent parse dflt executeHandle rnd now envs ops a s of
        (Inl e, s) \<Rightarrow> (Some e, s)
      | (Inr resp, s) \<Rightarrow> (None, s))"

definition DoStream ::
    "(string \<Rightarrow> url result) \<Rightarrow> 's http_client \<Rightarrow> string result \<Rightarrow> time \<Rightarrow> (nat \<Rightarrow> attempt_env)
       \<Rightarrow> ('x, 'p, 's) agent_op list \<Rightarrow> ('x, 'p, 's) agent \<Rightarrow> 's \<Rightarrow> http_response option result \<times> 's" where
  "DoStream parse dflt rnd now envs ops a s = run_agent parse dflt executeStream rnd now envs ops a s"

section \<open>Errors of a call\<close>

text \<open>\<open>wrapCallError\<close> gives an error with a \<open>CallError\<close> in its chain that keeps all that its cause says.\<close>

lemma wrapCallError_shape:
  "wrapCallError a r e = e \<and> errors_As is_CallError e \<noteq> None
   \<or> (\<exists>st. wrapCallError a r e = CallError (ag_method a) (ag_url a) r st (UpstreamError (Some e) (ag_url a) (ag_method a) r))
   \<or> (\<exists>st b. wrapCallError a r e = CallError (ag_method a) (ag_url a) r st
        (UpstreamError (Some (HTTPStatusError st (ag_expectedStatusCodes a) b None (Some e))) (ag_url a) (ag_method a) r))"
proof (cases "errors_As is_CallError e")
  case None
  then show ?thesis
    by (cases "errors_As is_ErrHttp e") (auto simp: wrapCallError_def NewUpstreamError_def split: go_error.split)
qed (simp add: wrapCallError_def)

lemma wrapCallError_keeps:
  "errors_As is_CallError (wrapCallError a r e) \<noteq> None \<and> in_chain (wrapCallError a r e) e
   \<and> CodeOf (Some (wrapCallError a r e)) = CodeOf (Some e)
   \<and> IsRetryableError (Some (wrapCallError a r e)) = IsRetryableError (Some e)"
  using wrapCallError_shape[of a r e]
proof (elim disjE exE conjE)
  fix st
  assume w: "wrapCallError a r e = CallError (ag_method a) (ag_url a) r st (UpstreamError (Some e) (ag_url a) (ag_method a) r)"
  show ?thesis unfolding w
    by (auto simp: CodeOf_skip IsRetryableError_skip intro!: in_chain.there[where e = "CallError _ _ _ _ _"]
        in_chain.there[where e = "UpstreamError _ _ _ _"] in_chain.here)
next
  fix st b
  assume w: "wrapCallError a r e = CallError (ag_method a) (ag_url a) r st
        (UpstreamError (Some (HTTPStatusError st (ag_expectedStatusCodes a) b None (Some e))) (ag_url a) (ag_method a) r)"
  show ?thesis unfolding w
    by (auto simp: CodeOf_skip IsRetryableError_skip intro!: in_chain.there[where e = "CallError _ _ _ _ _"]
        in_chain.there[where e = "UpstreamError _ _ _ _"] in_chain.there[where e = "HTTPStatusError _ _ _ _ _"] in_chain.here)
qed (auto intro: in_chain.here)

text \<open>An attempt changes nothing of the agent but its context.\<close>

definition same_agent :: "('x, 'p, 's) agent \<Rightarrow> ('x, 'p, 's) agent \<Rightarrow> bool" where
  "same_agent a a' \<longleftrightarrow> a' = a\<lparr>ag_ctx := ag_ctx a'\<rparr>"

lemma same_agent_simps [simp]: "same_agent a a" "same_agent a (a\<lparr>ag_ctx := c\<rparr>)"
  by (simp_all add: same_agent_def)

lemma same_agentD:
  assumes "same_agent a a'"
  shows "ag_respHandler a' = ag_respHandler a" "ag_retryOpt a' = ag_retryOpt a" "ag_method a' = ag_method a"
    "ag_url a' = ag_url a" "ag_expectedStatusCodes a' = ag_expectedStatusCodes a" "ag_retryStatusCodes a' = ag_retryStatusCodes a"
proof -
  obtain c where "a' = a\<lparr>ag_ctx := c\<rparr>" using assms unfolding same_agent_def by blast
  then show "ag_respHandler a' = ag_respHandler a" "ag_retryOpt a' = ag_retryOpt a" "ag_method a' = ag_method a"
    "ag_url a' = ag_url a" "ag_expectedStatusCodes a' = ag_expectedStatusCodes a" "ag_retryStatusCodes a' = ag_retryStatusCodes a"
    by simp_all
qed

lemma prepareRequest_agent: "prepareRequest parse E a = (x, r, a') \<Longrightarrow> same_agent a a'"
  by (auto simp: prepareRequest_def Let_def split: if_splits sum.splits prod.splits option.splits)

lemma doHTTP_agent:
  assumes "doHTTP parse client mode E a s = (res, a', s')"
  shows "same_agent a a'"
proof -
  obtain x r a1 where p: "prepareRequest parse E a = (x, r, a1)" by (metis prod_cases3)
  then have "a' = a1" using assms
    by (auto simp: doHTTP_def Let_def split: prod.splits sum.splits if_splits executeMode.splits option.splits)
  with prepareRequest_agent[OF p] show ?thesis by simp
qed

lemma doHTTP_error:
  assumes "doHTTP parse client mode E a s = (Inl e, a', s')"
  shows "errors_As is_CallError e \<noteq> None"
  using assms wrapCallError_keeps
  by (auto simp: doHTTP_def Let_def split: prod.splits sum.splits if_splits executeMode.splits option.splits)

lemma retry_loop_error:
  assumes "retry_loop parse client mode envs opt (Suc n) k a s = (Inl e, a', s')"
  shows "errors_As is_CallError e \<noteq> None"
  using assms
proof (induction n arbitrary: k a s)
  case 0
  then show ?case by (auto split: prod.splits sum.splits dest: doHTTP_error)
next
  case (Suc n)
  obtain x a1 s1 where d: "doHTTP parse client mode (envs k) a s = (x, a1, s1)" by (metis prod_cases3)
  show ?case
  proof (cases "retry_loop parse client mode envs opt (Suc n) (Suc k) a1 s1 = (Inl e, a', s')")
    case True
    then show ?thesis by (rule Suc.IH)
  next
    case False
    with Suc.prems d show ?thesis using wrapCallError_keeps
      by (subst (asm) retry_loop.simps(2)) (auto simp: Let_def simp del: retry_loop.simps
          split: sum.splits if_splits option.splits dest: doHTTP_error)
  qed
qed

lemma max_attempts_pos: "0 < max_attempts a opt"
  by (simp add: max_attempts_def Let_def)

lemma executeHTTP_error:
  assumes "executeHTTP parse client mode envs a s = (Inl e, a', s')"
  shows "errors_As is_CallError e \<noteq> None"
proof (cases "ag_retryOpt a")
  case None
  with assms show ?thesis by (auto simp: executeHTTP_def dest: doHTTP_error)
next
  case (Some opt)
  obtain m where "max_attempts a opt = Suc m" using max_attempts_pos[of a opt] by (cases "max_attempts a opt") auto
  with assms Some show ?thesis
    by (auto simp: executeHTTP_def retryDoHTTP_def simp del: retry_loop.simps dest: retry_loop_error)
qed

section \<open>Sending\<close>

text \<open>A counter \<open>cnt\<close> of the outside state that the client advances and response handlers leave alone.\<close>

definition counts_sends :: "('s \<Rightarrow> nat) \<Rightarrow> 's http_client \<Rightarrow> ('x, 'p, 's) agent \<Rightarrow> bool" where
  "counts_sends cnt client a \<longleftrightarrow>
     (\<forall>req s. cnt (snd (client req s)) = Suc (cnt s))
     \<and> (\<forall>h. ag_respHandler a = Some h \<longrightarrow> (\<forall>resp p s. cnt (snd (h resp p s)) = cnt s))"

lemma counts_sends_same: "counts_sends cnt client a \<Longrightarrow> same_agent a a' \<Longrightarrow> counts_sends cnt client a'"
  by (simp add: counts_sends_def same_agentD)

lemma doHTTP_sends:
  assumes "counts_sends cnt client a" and "doHTTP parse client mode E a s = (res, a', s')"
  shows "cnt s' \<le> Suc (cnt s)"
proof -
  obtain x r a1 where p: "prepareRequest parse E a = (x, r, a1)" by (metis prod_cases3)
  have c: "counts_sends cnt client a1" using assms(1) prepareRequest_agent[OF p] by (rule counts_sends_same)
  show ?thesis
  proof (cases x)
    case (Inl e)
    with assms(2) p show ?thesis by (simp add: doHTTP_def)
  next
    case (Inr req)
    obtain y s1 where y: "client req s = (y, s1)" by fastforce
    with c have "cnt s1 = Suc (cnt s)" by (metis counts_sends_def snd_conv)
    moreover have "cnt s' = cnt s1"
    proof (cases "\<exists>h resp e. ag_respHandler a1 = Some h \<and> h resp (ag_respWrapper a1) s1 = (e, s')")
      case True
      with c show ?thesis by (metis counts_sends_def snd_conv)
    next
      case False
      with assms(2) p Inr y show ?thesis
        by (auto simp: doHTTP_def Let_def split: sum.splits if_splits prod.splits executeMode.splits option.splits)
    qed
    ultimately show ?thesis by simp
  qed
qed

lemma retry_loop_sends:
  assumes "counts_sends cnt client a" and "retry_loop parse client mode envs opt n k a s = (res, a', s')"
  shows "cnt s' \<le> cnt s + n"
  using assms
proof (induction n arbitrary: k a s)
  case (Suc n)
  obtain x a1 s1 where d: "doHTTP parse client mode (envs k) a s = (x, a1, s1)" by (metis prod_cases3)
  have one: "cnt s1 \<le> Suc (cnt s)" by (rule doHTTP_sends[OF Suc.prems(1) d])
  show ?case
  proof (cases "s' = s1")
    case False
    with Suc.prems(2) d have "retry_loop parse client mode envs opt n (Suc k) a1 s1 = (res, a', s')"
      by (auto simp: Let_def split: sum.splits if_splits option.splits)
    from Suc.IH[OF counts_sends_same[OF Suc.prems(1) doHTTP_agent[OF d]] this] one show ?thesis by simp
  qed (use one in simp)
qed simp

text \<open>\<open>n\<close> attempts that all failed with a retryable error.\<close>

inductive retried ::
    "(string \<Rightarrow> url result) \<Rightarrow> 's http_client \<Rightarrow> executeMode \<Rightarrow> (nat \<Rightarrow> attempt_env) \<Rightarrow> nat \<Rightarrow> ('x, 'p, 's) agent \<Rightarrow> 's
       \<Rightarrow> nat \<Rightarrow> ('x, 'p, 's) agent \<Rightarrow> 's \<Rightarrow> bool"
  for parse client mode envs where
  none: "retried parse client mode envs k a s k a s"
| more: "doHTTP parse client mode (envs k) a s = (Inl e, a1, s1) \<Longrightarrow> IsRetryableError (Some e) \<Longrightarrow>
     retried parse client mode envs (Suc k) a1 s1 n a2 s2 \<Longrightarrow> retried parse client mode envs k a s n a2 s2"

text \<open>Why the loop stops after the failure \<open>e\<close> of attempt \<open>n\<close>: the last one, not retryable, or out of time.\<close>

definition gives_up :: "(nat \<Rightarrow> attempt_env) \<Rightarrow> RetryOpt \<Rightarrow> nat \<Rightarrow> nat \<Rightarrow> ('x, 'p, 's) agent \<Rightarrow> go_error \<Rightarrow> bool" where
  "gives_up envs opt final n a e \<longleftrightarrow> n = final \<or> \<not> IsRetryableError (Some e)
     \<or> (\<exists>d. Option.bind (ag_ctx a) ctx_deadline = Some d
          \<and> d - ae_now_wait (envs n) \<le> retryDelay (ae_jitter (envs n)) opt n)"

text \<open>How the loop ends after attempt \<open>n\<close>: with its result, or with the error of the context if that ends during the wait.\<close>

definition ends_loop ::
    "(string \<Rightarrow> url result) \<Rightarrow> 's http_client \<Rightarrow> executeMode \<Rightarrow> (nat \<Rightarrow> attempt_env) \<Rightarrow> RetryOpt \<Rightarrow> nat \<Rightarrow> nat
       \<Rightarrow> ('x, 'p, 's) agent \<Rightarrow> 's \<Rightarrow> http_response option result \<Rightarrow> ('x, 'p, 's) agent \<Rightarrow> 's \<Rightarrow> bool" where
  "ends_loop parse client mode envs opt final n a s res a' s' \<longleftrightarrow>
     (case doHTTP parse client mode (envs n) a s of
        (Inr resp, a1, s1) \<Rightarrow> (res, a', s') = (Inr resp, a1, s1)
      | (Inl err, a1, s1) \<Rightarrow> a' = a1 \<and> s' = s1 \<and>
          (if gives_up envs opt final n a1 err then res = Inl err
           else \<exists>e. ae_done (envs n) = Some e \<and> res = Inl (wrapCallError a1 [] e)))"

lemma retry_loop_step:
  "retry_loop parse client mode envs opt (Suc m) k a s =
     (case doHTTP parse client mode (envs k) a s of
        (Inr resp, a, s) \<Rightarrow> (Inr resp, a, s)
      | (Inl err, a, s) \<Rightarrow>
          if gives_up envs opt (k + m) k a err then (Inl err, a, s)
          else case ae_done (envs k) of
                 Some e \<Rightarrow> (Inl (wrapCallError a [] e), a, s)
               | None \<Rightarrow> retry_loop parse client mode envs opt m (Suc k) a s)"
  by (auto simp: gives_up_def shouldRetry_def Let_def split: prod.split sum.split option.split)

lemma retry_loop_refines:
  assumes "retry_loop parse client mode envs opt (Suc m) k a s = (res, a', s')"
  shows "\<exists>n a1 s1. k \<le> n \<and> n \<le> k + m \<and> retried parse client mode envs k a s n a1 s1
    \<and> ends_loop parse client mode envs opt (k + m) n a1 s1 res a' s'"
  using assms
proof (induction m arbitrary: k a s)
  case (0 k a s)
  then have "ends_loop parse client mode envs opt (k + 0) k a s res a' s'"
    by (auto simp: ends_loop_def gives_up_def split: prod.splits sum.splits)
  then show ?case by (intro exI[of _ k] exI[of _ a] exI[of _ s]) (simp add: retried.none)
next
  case (Suc m k a s)
  obtain x a1 s1 where d: "doHTTP parse client mode (envs k) a s = (x, a1, s1)" by (metis prod_cases3)
  show ?case
  proof (cases "\<exists>e. x = Inl e \<and> \<not> gives_up envs opt (k + Suc m) k a1 e \<and> ae_done (envs k) = None")
    case False
    with Suc.prems d have "ends_loop parse client mode envs opt (k + Suc m) k a s res a' s'"
      unfolding retry_loop_step by (auto simp: ends_loop_def split: sum.splits if_splits option.splits)
    then show ?thesis by (intro exI[of _ k] exI[of _ a] exI[of _ s]) (simp add: retried.none)
  next
    case True
    then obtain e where x: "x = Inl e" and go: "\<not> gives_up envs opt (k + Suc m) k a1 e" and w: "ae_done (envs k) = None"
      by blast
    then have r: "IsRetryableError (Some e)" by (simp add: gives_up_def)
    have "retry_loop parse client mode envs opt (Suc m) (Suc k) a1 s1 = (res, a', s')"
      using Suc.prems d x go w by (subst (asm) retry_loop_step) simp
    from Suc.IH[OF this] obtain n a2 s2 where n: "Suc k \<le> n" "n \<le> Suc k + m"
      and R: "retried parse client mode envs (Suc k) a1 s1 n a2 s2"
      and E: "ends_loop parse client mode envs opt (Suc k + m) n a2 s2 res a' s'" by blast
    have "retried parse client mode envs k a s n a2 s2"
      by (rule retried.more[where envs = envs and k = k, OF d[unfolded x] r R])
    with n E show ?thesis by (intro exI[of _ n] exI[of _ a2] exI[of _ s2]) simp
  qed
qed

section \<open>Properties\<close>

text \<open>The call of the witnesses: the client counts requests and always answers 503 with a body.\<close>

definition demo_client :: "nat http_client" where
  "demo_client req s = (Inr \<lparr>StatusCode = 503, resp_Header = [], resp_ContentLength = 4, resp_Body = (''busy'', None)\<rparr>, Suc s)"

definition demo_url :: url where
  "demo_url = \<lparr>u_Scheme = ''http'', u_Host = ''h'', u_RawQuery = [], u_rest = ''/''\<rparr>"

definition demo_retry :: RetryOpt where
  "demo_retry = \<lparr>MaxDelay = 0, BaseDelay = 0, RetryAppError = False, Attempts = 0, Idempotent = False\<rparr>"

definition demo_agent :: "string \<Rightarrow> (unit, unit, nat) agent" where
  "demo_agent method = (newAgent ''http://h/'' method)\<lparr>ag_ctx := Some demo_ctx, ag_client := Some demo_client,
     ag_expectedStatusCodes := [200], ag_retryStatusCodes := [503], ag_retryOpt := Some demo_retry\<rparr>"

definition demo_env :: attempt_env where
  "demo_env = \<lparr>ae_now_prepare = 0, ae_rnd_trace = Inr ''ab'', ae_now_request = 0, ae_rnd_request = Inr ''abcde'',
     ae_now_inject = Second, ae_order = demo_order, ae_intn = \<lambda>n. 0, ae_jitter = \<lambda>n. 0, ae_now_wait = Second,
     ae_done = None\<rparr>"

lemma demo_counts: "counts_sends id demo_client (demo_agent m)"
  by (simp add: counts_sends_def demo_client_def demo_agent_def newAgent_def)

lemma demo_prepare:
  obtains req rid a1 where "prepareRequest (\<lambda>u. Inr demo_url) demo_env (demo_agent m) = (Inr req, rid, a1)"
proof -
  obtain c1 rid h where
    "injectTraceHeaders (Inr ''ab'') 0 (Inr ''abcde'') Second demo_order demo_ctx [] = ((c1, rid, None), h)"
    by (rule demo_inject)
  moreover have "ctx_deadline demo_ctx = Some (2 * Second)"
    by (simp add: demo_ctx_def CtxSetOperator_def WithDeadline_def Background_def)
  ultimately show thesis
    by (intro that) (simp add: prepareRequest_def demo_env_def demo_agent_def newAgent_def no_service_def Let_def)
qed

text \<open>
  C28. How often a call is sent: without retry options at most once; with them at most the configured
  number of times (three by default), and at most once for a method that is not safe to repeat unless
  the caller declared it idempotent. This holds whatever the network, the handlers and the clocks do.
\<close>

theorem sends_bounded:
  assumes "counts_sends cnt client a" and "executeHTTP parse client mode envs a s = (res, a', s')"
  shows "cnt s' \<le> cnt s + (case ag_retryOpt a of None \<Rightarrow> 1 | Some opt \<Rightarrow>
            if \<not> Idempotent opt \<and> ag_method a \<notin> {''GET'', ''HEAD'', ''OPTIONS''} then 1
            else if Attempts opt \<le> 0 then 3 else nat (Attempts opt))"
proof (cases "ag_retryOpt a")
  case None
  with assms show ?thesis by (auto simp: executeHTTP_def dest: doHTTP_sends)
next
  case (Some opt)
  with assms have "cnt s' \<le> cnt s + max_attempts a opt"
    by (intro retry_loop_sends) (simp_all add: executeHTTP_def retryDoHTTP_def)
  with Some show ?thesis by (auto simp: max_attempts_def canRetryMethod_def Let_def split: if_splits)
qed

theorem sends_bounded_witness:
  "snd (snd (executeHTTP (\<lambda>u. Inr demo_url) demo_client executeHandle (\<lambda>n. demo_env) (demo_agent ''GET'') 0)) \<le> 3
   \<and> snd (snd (executeHTTP (\<lambda>u. Inr demo_url) demo_client executeHandle (\<lambda>n. demo_env) (demo_agent ''POST'') 0)) \<le> 1"
proof -
  let ?run = "\<lambda>m. executeHTTP (\<lambda>u. Inr demo_url) demo_client executeHandle (\<lambda>n. demo_env) (demo_agent m) 0"
  have opt: "ag_retryOpt (demo_agent m) = Some demo_retry" "ag_method (demo_agent m) = m"
      "Attempts demo_retry = 0" "\<not> Idempotent demo_retry" for m
    by (simp_all add: demo_agent_def newAgent_def demo_retry_def)
  have "snd (snd (?run m)) \<le> (if m \<notin> {''GET'', ''HEAD'', ''OPTIONS''} then 1 else 3)" for m
  proof -
    obtain res a' s' where r: "?run m = (res, a', s')" by (metis prod_cases3)
    from sends_bounded[OF demo_counts r] r opt show ?thesis by (auto split: if_splits)
  qed
  from this[of "''GET''"] this[of "''POST''"] show ?thesis by simp
qed

text \<open>
  C29. The retry loop refines its specification: some attempts failed with a retryable error, and then
  one attempt within the limit decided: its response is the result; or its error is, because it was
  the last attempt, the error is not retryable, or the deadline would pass during the wait; or the
  context ended during the wait, and its error is the result.
\<close>

theorem retry_refines:
  assumes "ag_retryOpt a = Some opt" and "executeHTTP parse client mode envs a s = (res, a', s')"
  shows "\<exists>n a1 s1. 1 \<le> n \<and> n \<le> max_attempts a opt \<and> retried parse client mode envs 1 a s n a1 s1
    \<and> ends_loop parse client mode envs opt (max_attempts a opt) n a1 s1 res a' s'"
proof -
  obtain m where m: "max_attempts a opt = Suc m" using max_attempts_pos[of a opt] by (cases "max_attempts a opt") auto
  with assms have "retry_loop parse client mode envs opt (Suc m) 1 a s = (res, a', s')"
    by (simp add: executeHTTP_def retryDoHTTP_def)
  from retry_loop_refines[OF this] m show ?thesis by simp
qed

theorem retry_refines_witness:
  "\<exists>n a1 s1 res a' s'. n \<le> 3 \<and> retried (\<lambda>u. Inr demo_url) demo_client executeHandle (\<lambda>n. demo_env) 1 (demo_agent ''GET'') 0 n a1 s1
     \<and> ends_loop (\<lambda>u. Inr demo_url) demo_client executeHandle (\<lambda>n. demo_env) demo_retry 3 n a1 s1 res a' s'"
proof -
  obtain res a' s' where
    "executeHTTP (\<lambda>u. Inr demo_url) demo_client executeHandle (\<lambda>n. demo_env) (demo_agent ''GET'') 0 = (res, a', s')"
    by (metis prod_cases3)
  moreover have "ag_retryOpt (demo_agent ''GET'') = Some demo_retry" by (simp add: demo_agent_def)
  moreover have "max_attempts (demo_agent ''GET'') demo_retry = 3"
    by (simp add: max_attempts_def canRetryMethod_def demo_retry_def demo_agent_def newAgent_def)
  ultimately show ?thesis using retry_refines[of "demo_agent ''GET''" demo_retry] by metis
qed

text \<open>
  C30. Errors of a call: whatever fails, the options, the preparation of the request, the transport, the
  status, the handler or the wait, the error handed to the caller has a \<open>CallError\<close> in its chain; and
  wrapping keeps the cause in the chain, its code and whether it is retryable.
\<close>

theorem call_errors:
  "(\<forall>e s'. DoStream parse dflt rnd now envs ops a s = (Inl e, s') \<longrightarrow> errors_As is_CallError e \<noteq> None)
   \<and> (\<forall>e s'. Do parse dflt rnd now envs ops a s = (Some e, s') \<longrightarrow> errors_As is_CallError e \<noteq> None)
   \<and> in_chain (wrapCallError b r c) c \<and> CodeOf (Some (wrapCallError b r c)) = CodeOf (Some c)
   \<and> IsRetryableError (Some (wrapCallError b r c)) = IsRetryableError (Some c)"
proof -
  have "errors_As is_CallError e \<noteq> None" if "run_agent parse dflt mode rnd now envs ops a s = (Inl e, s')" for mode e s'
    using that wrapCallError_keeps executeHTTP_error
    by (auto simp: run_agent_def split: prod.splits option.splits)
  then show ?thesis using wrapCallError_keeps[of b r c]
    by (auto simp: Do_def DoStream_def split: prod.splits sum.splits)
qed

theorem call_errors_witness:
  "case Do (\<lambda>u. Inl (OpaqueError ''bad url'')) demo_client (Inr ''ab'') 0 (\<lambda>n. demo_env) [ExpectedStatusCodes [200]] (demo_agent ''GET'') 0 of
     (Some e, s') \<Rightarrow> errors_As is_CallError e \<noteq> None | (None, s') \<Rightarrow> True"
proof -
  let ?do = "Do (\<lambda>u. Inl (OpaqueError ''bad url'')) demo_client (Inr ''ab'') 0 (\<lambda>n. demo_env) [ExpectedStatusCodes [200]] (demo_agent ''GET'') 0"
  have "\<forall>e s'. ?do = (Some e, s') \<longrightarrow> errors_As is_CallError e \<noteq> None"
    using call_errors[where a = "demo_agent ''GET''" and dflt = demo_client] by blast
  then show ?thesis by (cases ?do; cases "fst ?do") auto
qed

text \<open>
  An answer with an unexpected status: the response handler does not run (the outside state is the
  one the client left), and the error names the status and the request identifier, holds the body that
  was read even when reading it failed, and is retryable exactly for the configured status codes.
\<close>

theorem unexpected_status:
  assumes "prepareRequest parse E a = (Inr req, rid, a1)" and "client req s = (Inr resp, s1)"
    and "StatusCode resp \<notin> set (ag_expectedStatusCodes a)"
  shows "\<exists>e cause. doHTTP parse client mode E a s = (Inl e, a1, s1)
    \<and> e = CallError (ag_method a) (ag_url a) rid (StatusCode resp) (UpstreamError (Some
           (HTTPStatusError (StatusCode resp) (ag_expectedStatusCodes a) (fst (resp_Body resp)) None (Some cause)))
             (ag_url a) (ag_method a) rid)
    \<and> (IsRetryableError (Some e) \<longleftrightarrow> StatusCode resp \<in> set (ag_retryStatusCodes a))"
proof -
  obtain body readErr where b: "resp_Body resp = (body, readErr)" by fastforce
  let ?h = "NewErrHttp (StatusCode resp) body"
  let ?c = "case readErr of None \<Rightarrow> ?h | Some r \<Rightarrow> WrapError [] ?h ('': read body failed: '' @ Error r)"
  let ?m = "mark_retryable (isInRetryStatusCodes a1 (StatusCode resp)) ?c"
  note same = same_agentD[OF prepareRequest_agent[OF assms(1)]]
  have "\<not> isInExpectedStatusCodes a1 (StatusCode resp)" using assms(3) same by (simp add: isInExpectedStatusCodes_def list_ex_iff)
  with assms(1,2) b have d: "doHTTP parse client mode E a s = (Inl (wrapCallError a1 rid ?m), a1, s1)"
    by (simp add: doHTTP_def Let_def)
  have "errors_As is_ErrHttp ?m = Some ?h" "errors_As is_CallError ?m = None"
    by (auto simp: mark_retryable_def WithRetryableError_def NewErrHttp_def errors_As_skip errors_As_end split: option.splits)
  then have w: "wrapCallError a1 rid ?m = CallError (ag_method a) (ag_url a) rid (StatusCode resp) (UpstreamError (Some
       (HTTPStatusError (StatusCode resp) (ag_expectedStatusCodes a) body None (Some ?m))) (ag_url a) (ag_method a) rid)"
    by (simp add: wrapCallError_def NewErrHttp_def NewUpstreamError_def same)
  have "IsRetryableError (Some ?m) \<longleftrightarrow> StatusCode resp \<in> set (ag_retryStatusCodes a)"
    using same by (auto simp: mark_retryable_def WithRetryableError_def NewErrHttp_def isInRetryStatusCodes_def list_ex_iff
        IsRetryableError_def errors_As_skip errors_As_end split: option.splits)
  moreover have "IsRetryableError (Some (wrapCallError a1 rid ?m)) = IsRetryableError (Some ?m)"
    using wrapCallError_keeps by blast
  ultimately show ?thesis using d w b by (intro exI[of _ "wrapCallError a1 rid ?m"] exI[of _ ?m]) simp
qed

theorem unexpected_status_witness:
  "\<exists>e a1. doHTTP (\<lambda>u. Inr demo_url) demo_client executeHandle demo_env (demo_agent ''GET'') 0 = (Inl e, a1, 1)
     \<and> IsRetryableError (Some e)"
proof -
  obtain req rid a1 where p: "prepareRequest (\<lambda>u. Inr demo_url) demo_env (demo_agent ''GET'') = (Inr req, rid, a1)"
    by (rule demo_prepare)
  from unexpected_status[where client = demo_client and s = 0 and mode = executeHandle, OF p demo_client_def]
  show ?thesis by (auto simp: demo_agent_def)
qed

section \<open>Time\<close>

lemma contextWithAuthoritativeDeadline_gives:
  "\<exists>e. ctx_deadline (contextWithAuthoritativeDeadline c d) = Some e \<and> e \<le> d
     \<and> (\<forall>x. ctx_deadline c = Some x \<longrightarrow> e \<le> x) \<and> (ctx_deadline c = None \<longrightarrow> e = d)"
  by (cases "ctx_deadline c")
    (simp_all add: contextWithAuthoritativeDeadline_def WithDeadline_def CtxSetRequestDeadline_def)

lemma CtxGetRequestDeadline_pass [simp]: "CtxGetRequestDeadline (CtxSetPassVal c k v) = CtxGetRequestDeadline c"
  by (simp add: CtxGetRequestDeadline_def)

lemma ensureTraceContext_keeps:
  assumes "ensureTraceContext rnd c = (c1, Inr t)"
  shows "CtxGetTraceID c1 = Some t \<and> ctx_deadline c1 = Option.bind c ctx_deadline
    \<and> authoritativeDeadline c1 = Option.bind c authoritativeDeadline"
proof (cases c)
  case None
  have "CtxGetPassVal (Background :: 'a ctx) k = None" "CtxGetRequestDeadline (Background :: 'a ctx) = None"
      "ctx_deadline (Background :: 'a ctx) = None" for k
    by (simp_all add: Background_def CtxGetPassVal_def ctx_string_def CtxGetRequestDeadline_def)
  with None assms show ?thesis
    by (auto simp: ensureTraceContext_def ctx_named_defs authoritativeDeadline_def split: sum.splits)
next
  case (Some c0)
  with assms show ?thesis
    by (auto simp: ensureTraceContext_def ctx_named_defs authoritativeDeadline_def
        split: sum.splits option.splits list.splits)
qed

lemma injectTraceHeaders_deadline:
  assumes "injectTraceHeaders rnd1 now1 rnd2 now2 order c h0 = ((c1, rid, e), h)"
  shows "ctx_deadline c1 = ctx_deadline c"
proof -
  have "ctx_deadline (fst (ensureTraceContext rnd1 (Some c))) = ctx_deadline c"
    by (auto simp: ensureTraceContext_def ctx_named_defs split: option.split list.split sum.split)
  with assms show ?thesis
    by (auto simp: injectTraceHeaders_def Let_def ctx_named_defs CtxSetDirectVal_def
        split: prod.splits sum.splits option.splits if_splits)
qed

lemma prepareRequest_deadline:
  assumes "prepareRequest parse E a = (res, rid, a1)" and "Option.bind (ag_ctx a) ctx_deadline = Some d"
  shows "Option.bind (ag_ctx a1) ctx_deadline = Some d"
  using assms
  by (auto simp: prepareRequest_def Let_def bind_eq_Some_conv dest!: injectTraceHeaders_deadline
      split: sum.splits prod.splits option.splits if_splits)

lemma doHTTP_deadline:
  assumes "doHTTP parse client mode E a s = (res, a1, s1)" and "Option.bind (ag_ctx a) ctx_deadline = Some d"
  shows "Option.bind (ag_ctx a1) ctx_deadline = Some d"
proof -
  obtain r rid a2 where p: "prepareRequest parse E a = (r, rid, a2)" by (metis prod_cases3)
  have "ag_ctx a1 = ag_ctx a2"
    using assms(1) p
    by (auto simp: doHTTP_def Let_def split: sum.splits prod.splits option.splits if_splits executeMode.splits)
  with prepareRequest_deadline[OF p assms(2)] show ?thesis by simp
qed

lemma retried_deadline:
  assumes "retried parse client mode envs k a s n a2 s2" and "Option.bind (ag_ctx a) ctx_deadline = Some d"
  shows "Option.bind (ag_ctx a2) ctx_deadline = Some d"
  using assms by (induction rule: retried.induct) (blast dest: doHTTP_deadline)+

lemma doHTTP_expired:
  "Option.bind (ag_ctx a) ctx_deadline = Some d \<Longrightarrow> d \<le> ae_now_prepare E \<Longrightarrow>
     doHTTP parse client mode E a s = (Inl (wrapCallError a [] ErrTimeoutBudgetExhausted), a, s)"
  by (auto simp: doHTTP_def prepareRequest_def bind_eq_Some_conv)

text \<open>
  C33. Time of a call: after initialisation the context has a deadline; it is never later than the
  deadline the caller's context or its request carries, and without one it is the quota (five seconds by
  default) from now. The context has a trace identifier, there is a client and at least one expected
  status. The deadline stays through all attempts: no attempt, the first or one after any number of
  retried failures, that starts at or after it sends anything; it fails with \<open>ErrTimeoutBudgetExhausted\<close>.
\<close>

theorem call_deadline:
  assumes "run_ops ops a = (None, a1)" and "agent_init dflt rnd now ops a = (None, a')"
  shows "\<exists>c d. ag_ctx a' = Some c \<and> ctx_deadline c = Some d
    \<and> (case Option.bind (ag_ctx a1) authoritativeDeadline of
         Some d0 \<Rightarrow> d \<le> d0
       | None \<Rightarrow> d = now + (if ag_timeoutQuota a1 \<le> 0 then 5 * Second else ag_timeoutQuota a1))
    \<and> (\<forall>x. Option.bind (ag_ctx a1) ctx_deadline = Some x \<longrightarrow> d \<le> x)
    \<and> CtxGetTraceID c \<noteq> None \<and> ag_client a' \<noteq> None \<and> ag_expectedStatusCodes a' \<noteq> []
    \<and> (\<forall>envs n a2 s2. retried parse client mode envs 1 a' s n a2 s2 \<longrightarrow>
          Option.bind (ag_ctx a2) ctx_deadline = Some d
          \<and> (d \<le> ae_now_prepare (envs n) \<longrightarrow> doHTTP parse client mode (envs n) a2 s2 =
                (Inl (wrapCallError a2 [] ErrTimeoutBudgetExhausted), a2, s2)))"
proof -
  define q where "q = (if ag_timeoutQuota a1 \<le> 0 then 5 * Second else ag_timeoutQuota a1)"
  define b where "b = (if ag_expectedStatusCodes a1 = [] then a1\<lparr>ag_expectedStatusCodes := [200]\<rparr> else a1)"
  have b: "ag_expectedStatusCodes b \<noteq> []" "ag_ctx b = ag_ctx a1" "ag_client b = ag_client a1" "ag_timeoutQuota b = ag_timeoutQuota a1"
    by (simp_all add: b_def)
  obtain c1 t where e: "ensureTraceContext rnd (ag_ctx a1) = (c1, Inr t)"
    using assms by (auto simp: agent_init_def Let_def split: prod.splits sum.splits if_splits)
  note k = ensureTraceContext_keeps[OF e]
  define dl where "dl = (case authoritativeDeadline c1 of Some d \<Rightarrow> d | None \<Rightarrow> now + q)"
  define c where "c = contextWithAuthoritativeDeadline c1 dl"
  have "agent_init dflt rnd now ops a =
      (None, b\<lparr>ag_ctx := Some c, ag_client := Some (case ag_client b of None \<Rightarrow> dflt | Some c \<Rightarrow> c)\<rparr>)"
    unfolding agent_init_def assms(1) Let_def prod.case option.case b_def[symmetric] b(2) e sum.case b(4) q_def[symmetric]
    by (simp add: c_def dl_def split: option.split)
  with assms(2) have a': "ag_ctx a' = Some c" "ag_client a' \<noteq> None" "ag_expectedStatusCodes a' \<noteq> []"
    using b by auto
  obtain d where d: "ctx_deadline c = Some d" "d \<le> dl" "\<forall>x. ctx_deadline c1 = Some x \<longrightarrow> d \<le> x"
      "ctx_deadline c1 = None \<longrightarrow> d = dl"
    using contextWithAuthoritativeDeadline_gives[of c1 dl, folded c_def] by (elim exE conjE) (rule that)
  have "Option.bind (ag_ctx a2) ctx_deadline = Some d
      \<and> (d \<le> ae_now_prepare (envs n) \<longrightarrow> doHTTP parse client mode (envs n) a2 s2 =
            (Inl (wrapCallError a2 [] ErrTimeoutBudgetExhausted), a2, s2))"
    if "retried parse client mode envs 1 a' s n a2 s2" for envs n a2 s2
    using retried_deadline[OF that, of d] doHTTP_expired[of a2 d] d(1) a'(1) by simp
  note sent = this
  have "authoritativeDeadline c1 = None \<Longrightarrow> ctx_deadline c1 = None"
    by (simp add: authoritativeDeadline_def split: option.splits)
  with d(2,4) have q: "case Option.bind (ag_ctx a1) authoritativeDeadline of Some d0 \<Rightarrow> d \<le> d0 | None \<Rightarrow> d = now + q"
    unfolding dl_def k[THEN conjunct2, THEN conjunct2, symmetric] by (cases "authoritativeDeadline c1") simp_all
  have mx: "\<forall>x. Option.bind (ag_ctx a1) ctx_deadline = Some x \<longrightarrow> d \<le> x"
    using d(3) unfolding k[THEN conjunct2, THEN conjunct1] .
  have tr: "CtxGetTraceID c \<noteq> None" using k by (simp add: ctx_named_defs c_def)
  show ?thesis unfolding q_def[symmetric]
    by (rule exI[of _ c], rule exI[of _ d]) (intro conjI mx a' d(1) q tr allI impI sent)
qed

theorem call_deadline_witness:
  "\<exists>a' c. agent_init demo_client (Inr ''ab'') 7 [TimeoutQuota Second, Context None] (demo_agent ''GET'') = (None, a')
     \<and> ag_ctx a' = Some c \<and> ctx_deadline c = Some (7 + Second)"
proof -
  let ?ops = "[TimeoutQuota Second, Context None]" and ?a1 = "(demo_agent ''GET'')\<lparr>ag_timeoutQuota := Second, ag_ctx := None\<rparr>"
  have r: "run_ops ?ops (demo_agent ''GET'') = (None, ?a1)" by (simp add: TimeoutQuota_def Context_def)
  have "\<exists>c t. ensureTraceContext (Inr ''ab'') (None :: unit ctx option) = (c, Inr t)"
    by (simp add: ensureTraceContext_def ctx_named_defs Background_def CtxGetPassVal_def ctx_string_def NewTraceID_def)
  then obtain a' where i: "agent_init demo_client (Inr ''ab'') 7 ?ops (demo_agent ''GET'') = (None, a')"
    using r by (auto simp: agent_init_def Let_def demo_agent_def)
  from call_deadline[where parse = "\<lambda>u. Inr demo_url" and client = demo_client and mode = executeHandle and s = 0, OF r i]
  obtain c where "ag_ctx a' = Some c" "ctx_deadline c = Some (7 + Second)" by auto
  with i show ?thesis by blast
qed

text \<open>
  The back-off delay of an attempt lies between zero and the maximal delay, for every outcome of the
  random draw; as long as the doubled base does not leave 64 bits it lies between half of the capped
  exponential delay, rounded down, and that delay.
\<close>

theorem retry_delay_bounds:
  assumes "\<forall>n > 0. 0 \<le> jitter n \<and> jitter n < n"
  shows "0 \<le> retryDelay jitter opt k \<and> retryDelay jitter opt k \<le> (if MaxDelay opt \<le> 0 then Second else MaxDelay opt)
    \<and> (let base = (if BaseDelay opt \<le> 0 then 100 * Millisecond else BaseDelay opt);
           full = min (base * 2 ^ (k - 1)) (if MaxDelay opt \<le> 0 then Second else MaxDelay opt)
       in base * 2 ^ (k - 1) < 2 ^ 63 \<longrightarrow> full div 2 \<le> retryDelay jitter opt k \<and> retryDelay jitter opt k \<le> full)"
proof -
  define B M where "B = (if BaseDelay opt \<le> 0 then 100 * Millisecond else BaseDelay opt)"
    and "M = (if MaxDelay opt \<le> 0 then Second else MaxDelay opt)"
  define E where "E = B * 2 ^ (k - 1)"
  have pos: "0 < M" "0 < B" "0 < E" by (simp_all add: B_def M_def E_def)
  have r: "retryDelay jitter opt k =
      (let d = min (int64 E) M in if d \<le> 0 then 0 else d div 2 + jitter d div 2)"
    using assms unfolding retryDelay_def B_def[symmetric] M_def[symmetric] E_def[symmetric] Let_def
    by (simp add: go_div_nonneg min_def not_less)
  have half: "d div 2 \<le> d div 2 + jitter d div 2 \<and> d div 2 + jitter d div 2 \<le> d" if "0 < d" for d
  proof -
    have "0 \<le> jitter d" "jitter d < d" using assms that by auto
    then show ?thesis by presburger
  qed
  have "0 \<le> retryDelay jitter opt k \<and> retryDelay jitter opt k \<le> M"
    unfolding r Let_def using half[of "min (int64 E) M"] pos(1) by (cases "min (int64 E) M \<le> 0") auto
  moreover have "min E M div 2 \<le> retryDelay jitter opt k \<and> retryDelay jitter opt k \<le> min E M" if "E < 2 ^ 63"
  proof -
    have "int64 E = E" using that pos by (intro int64_id) (simp add: in_int64_def)
    moreover have "0 < min E M" using pos by simp
    ultimately show ?thesis using half[of "min E M"] unfolding r Let_def by simp
  qed
  ultimately show ?thesis unfolding Let_def B_def[symmetric] M_def[symmetric] E_def[symmetric] by blast
qed

theorem retry_delay_bounds_witness:
  "400 * Millisecond div 2 \<le> retryDelay (\<lambda>n. n div 2) demo_retry 3 \<and> retryDelay (\<lambda>n. n div 2) demo_retry 3 \<le> 400 * Millisecond"
proof -
  have "\<forall>n > 0. 0 \<le> n div 2 \<and> n div 2 < (n :: int)" by auto
  from retry_delay_bounds[OF this, of demo_retry 3] show ?thesis by (simp add: demo_retry_def)
qed

text \<open>
  The bound of 64 bits is reached: with the default options the shift of attempt 38 gives a negative
  number, and from attempt 64 on zero, so that the loop does not wait at all.
\<close>

lemma retryDelay_overflow:
  "retryDelay jitter demo_retry 38 = 0" "retryDelay jitter demo_retry 65 = 0"
  by (simp_all add: retryDelay_def demo_retry_def int64_def)

text \<open>\<open>http.Client.Do\<close> wraps every failure in a \<open>*url.Error\<close>, which is a \<open>net.Error\<close>: all of them count as transport errors.\<close>

lemma client_errors_retryable: "isRetryableTransportError (UrlError op u e)"
  by (simp add: isRetryableTransportError_def)

end
