(* ===== verification/Resource_Manager.thy ===== *)
theory Resource_Manager
  imports Resource_Parse Resource_Stream Httpx_Agent
begin

text \<open>
  \<open>resource\<close>: options (\<open>options.go\<close>), streams and handlers (\<open>types.go\<close>), the handlers for data URLs
  (\<open>data.go\<close>) and for HTTP (\<open>http.go\<close>, a client of the \<open>httpx\<close> agent), and the manager (\<open>manager.go\<close>).
  The state \<open>'s\<close> is what handlers act on. The body of a stream is what reading it to the end gives: the
  bytes and, unless they end with \<open>io.EOF\<close>, the error; for a limited body this is justified by the
  theorem on limited readers. The mutex of the manager protects single map accesses, which are atomic here.
  \<open>mime.ParseMediaType\<close> is a parameter.

  Lemmas: the schemes of a manager, errors of \<open>Open\<close>, the limits of the built-in handlers, and that
  \<open>Download\<close> replaces its target in one step or not at all.
\<close>

section \<open>Options\<close>

record 's ResourceOptions =
  ro_HTTPClient :: "'s http_client"
  ro_MaxBytes :: int
  ro_DataMaxBytes :: int
  ro_TimeoutQuota :: duration
  ro_ConnectTimeout :: duration
  ro_RedirectLimit :: int
  ro_RetryAttempts :: int
  ro_RetryBaseDelay :: duration
  ro_RetryMaxDelay :: duration
  ro_EnableHTTP :: bool

type_synonym 's resource_option = "'s ResourceOptions \<Rightarrow> 's ResourceOptions"

definition defaultResourceOptions :: "'s http_client \<Rightarrow> 's ResourceOptions" where
  "defaultResourceOptions client =
     \<lparr>ro_HTTPClient = client, ro_MaxBytes = 32 * 2 ^ 20, ro_DataMaxBytes = 2 ^ 20, ro_TimeoutQuota = 5 * Second,
      ro_ConnectTimeout = 3 * Second, ro_RedirectLimit = 5, ro_RetryAttempts = 3, ro_RetryBaseDelay = 100 * Millisecond,
      ro_RetryMaxDelay = Second, ro_EnableHTTP = True\<rparr>"

definition WithHTTPClient :: "'s http_client option \<Rightarrow> 's resource_option" where
  "WithHTTPClient client opts = (case client of Some c \<Rightarrow> opts\<lparr>ro_HTTPClient := c\<rparr> | None \<Rightarrow> opts)"

definition WithMaxBytes :: "int \<Rightarrow> 's resource_option" where
  "WithMaxBytes maxBytes opts = (if maxBytes > 0 then opts\<lparr>ro_MaxBytes := maxBytes\<rparr> else opts)"

definition WithDataMaxBytes :: "int \<Rightarrow> 's resource_option" where
  "WithDataMaxBytes maxBytes opts = (if maxBytes > 0 then opts\<lparr>ro_DataMaxBytes := maxBytes\<rparr> else opts)"

definition WithTimeoutQuota :: "duration \<Rightarrow> 's resource_option" where
  "WithTimeoutQuota timeout opts = (if timeout > 0 then opts\<lparr>ro_TimeoutQuota := timeout\<rparr> else opts)"

definition WithRedirectLimit :: "int \<Rightarrow> 's resource_option" where
  "WithRedirectLimit limit opts = (if limit \<ge> 0 then opts\<lparr>ro_RedirectLimit := limit\<rparr> else opts)"

definition WithRetry :: "int \<Rightarrow> duration \<Rightarrow> duration \<Rightarrow> 's resource_option" where
  "WithRetry attempts baseDelay maxDelay opts =
     (let opts = (if attempts > 0 then opts\<lparr>ro_RetryAttempts := attempts\<rparr> else opts);
          opts = (if baseDelay > 0 then opts\<lparr>ro_RetryBaseDelay := baseDelay\<rparr> else opts)
      in if maxDelay > 0 then opts\<lparr>ro_RetryMaxDelay := maxDelay\<rparr> else opts)"

definition WithHTTPEnabled :: "bool \<Rightarrow> 's resource_option" where
  "WithHTTPEnabled enabled opts = opts\<lparr>ro_EnableHTTP := enabled\<rparr>"

section \<open>Streams and handlers\<close>

type_synonym content = "string \<times> go_error option"

record Stream =
  st_Body :: "content option"
  st_MediaType :: string
  st_Filename :: string
  st_Size :: int
  st_SourceURI :: string
  st_Headers :: http_header

record UploadInput =
  in_Body :: "content option"
  in_MediaType :: string
  in_Filename :: string
  in_AuthID :: string
  in_TargetHint :: string

record ('x, 's) ResourceHandler =
  h_Open :: "'x ctx option \<Rightarrow> Identifier \<Rightarrow> 's \<Rightarrow> Stream option result \<times> 's"
  h_Upload :: "'x ctx option \<Rightarrow> UploadInput \<Rightarrow> 's \<Rightarrow> Identifier result \<times> 's"

definition HandlerFuncs ::
    "('x ctx option \<Rightarrow> Identifier \<Rightarrow> 's \<Rightarrow> Stream option result \<times> 's) option
       \<Rightarrow> ('x ctx option \<Rightarrow> UploadInput \<Rightarrow> 's \<Rightarrow> Identifier result \<times> 's) option \<Rightarrow> ('x, 's) ResourceHandler" where
  "HandlerFuncs openFunc uploadFunc =
     \<lparr>h_Open = (\<lambda>ctx i s. case openFunc of None \<Rightarrow> (Inl ErrOpenUnsupported, s) | Some f \<Rightarrow> f ctx i s),
      h_Upload = (\<lambda>ctx inp s. case uploadFunc of None \<Rightarrow> (Inl ErrUploadUnsupported, s) | Some f \<Rightarrow> f ctx inp s)\<rparr>"

section \<open>Data URLs\<close>

type_synonym parse_media = "string \<Rightarrow> (string \<times> (string \<times> string) list) result"

definition b64_std_val :: "char \<Rightarrow> nat option" where
  "b64_std_val c =
     (let n = of_char c in
      if 65 \<le> n \<and> n \<le> 90 then Some (n - 65)
      else if 97 \<le> n \<and> n \<le> 122 then Some (n - 97 + 26)
      else if 48 \<le> n \<and> n \<le> (57::nat) then Some (n - 48 + 52)
      else if c = CHR ''+'' then Some 62
      else if c = CHR ''/'' then Some 63
      else None)"

text \<open>Groups of four characters, the last one padded; \<open>None\<close> is \<open>CorruptInputError\<close>.\<close>

fun b64_std_dec :: "string \<Rightarrow> nat list option" where
  "b64_std_dec [] = Some []"
| "b64_std_dec (a # b # c # d # rest) =
     (case (b64_std_val a, b64_std_val b) of
        (Some x, Some y) \<Rightarrow>
          if c = CHR ''='' \<and> d = CHR ''='' \<and> rest = [] then Some [x * 4 + y div 16]
          else
            (case b64_std_val c of
               None \<Rightarrow> None
             | Some z \<Rightarrow>
                 if d = CHR ''='' \<and> rest = [] then Some [x * 4 + y div 16, (y mod 16) * 16 + z div 4]
                 else
                   (case (b64_std_val d, b64_std_dec rest) of
                      (Some u, Some bs) \<Rightarrow> Some ((x * 4 + y div 16) # ((y mod 16) * 16 + z div 4) # ((z mod 4) * 64 + u) # bs)
                    | _ \<Rightarrow> None))
      | _ \<Rightarrow> None)"
| "b64_std_dec _ = None"

definition StdDecodeString :: "string \<Rightarrow> string result" where
  "StdDecodeString s =
     (case b64_std_dec (filter (\<lambda>c. c \<noteq> CHR 0x0A \<and> c \<noteq> CHR 0x0D) s) of
        None \<Rightarrow> Inl (OpaqueError ''illegal base64 data'')
      | Some bs \<Rightarrow> Inr (map char_of bs))"

definition parseDataURL :: "string \<Rightarrow> (string \<times> string) result" where
  "parseDataURL raw =
     (if \<not> HasPrefix raw ''data:'' then Inl (NewValidationError ''invalid data URL'' [] None)
      else
        case Index raw '','' of
          None \<Rightarrow> Inl (NewValidationError ''invalid data URL payload'' [] None)
        | Some payloadStart \<Rightarrow>
            let meta = drop (length ''data:'') (take payloadStart raw);
                payload = drop (payloadStart + 1) raw;
                parts = Split meta '';'';
                mediaType = (if hd parts \<noteq> [] then hd parts else ''text/plain;charset=US-ASCII'');
                isBase64 = list_ex (\<lambda>part. EqualFold part ''base64'') (tl parts)
            in if isBase64 then (case StdDecodeString payload of Inl e \<Rightarrow> Inl e | Inr body \<Rightarrow> Inr (mediaType, body))
               else (case PathUnescape payload of Inl e \<Rightarrow> Inl e | Inr body \<Rightarrow> Inr (mediaType, body)))"

definition sameMediaType :: "parse_media \<Rightarrow> string \<Rightarrow> string \<Rightarrow> bool" where
  "sameMediaType pmt a b =
     (case (pmt a, pmt b) of
        (Inr (aType, _), Inr (bType, _)) \<Rightarrow> EqualFold aType bType
      | _ \<Rightarrow> EqualFold a b)"

definition data_Open :: "parse_media \<Rightarrow> int \<Rightarrow> Identifier \<Rightarrow> Stream option result" where
  "data_Open pmt maxBytes i =
     (case parseDataURL (SourceURI i) of
        Inl e \<Rightarrow> Inl e
      | Inr (mediaType, body) \<Rightarrow>
          if MediaType i \<noteq> [] \<and> mediaType \<noteq> [] \<and> \<not> sameMediaType pmt (MediaType i) mediaType then
            Inl (NewValidationError (''data media type '' @ Quote mediaType @ '' does not match identifier media_type ''
                   @ Quote (MediaType i)) [] None)
          else if maxBytes > 0 \<and> int (length body) > maxBytes then Inl ErrSizeLimitExceeded
          else
            Inr (Some \<lparr>st_Body = Some (body, None), st_MediaType = (if MediaType i \<noteq> [] then MediaType i else mediaType),
                       st_Filename = [], st_Size = int (length body), st_SourceURI = SourceURI i, st_Headers = []\<rparr>))"

definition newDataHandler :: "parse_media \<Rightarrow> 's ResourceOptions \<Rightarrow> ('x, 's) ResourceHandler" where
  "newDataHandler pmt opts =
     \<lparr>h_Open = (\<lambda>ctx i s. (data_Open pmt (ro_DataMaxBytes opts) i, s)),
      h_Upload = (\<lambda>ctx inp s. (Inl ErrUploadUnsupported, s))\<rparr>"

section \<open>HTTP\<close>

text \<open>The redirect policy given to the client: \<open>via\<close> is the number of requests already made.\<close>

definition checkRedirect :: "'s ResourceOptions \<Rightarrow> int \<Rightarrow> go_error option" where
  "checkRedirect opts via =
     (if ro_RedirectLimit opts \<ge> 0 \<and> via \<ge> ro_RedirectLimit opts
      then Some (OpaqueError (''stopped after '' @ FormatInt (ro_RedirectLimit opts) @ '' redirects'')) else None)"

definition successStatusCodes :: "int list" where
  "successStatusCodes = [200, 201, 202, 203, 204, 205, 206, 207, 208, 226]"

definition serverErrorStatusCodes :: "int list" where
  "serverErrorStatusCodes = [500..511]"

definition filenameFromDisposition :: "parse_media \<Rightarrow> string \<Rightarrow> string" where
  "filenameFromDisposition pmt disposition =
     (if disposition = [] then []
      else
        case pmt disposition of
          Inl _ \<Rightarrow> []
        | Inr (_, params) \<Rightarrow>
            let filename = param_of params ''filename'' in if bad_filename filename then [] else filename)"

definition limited_content :: "int \<Rightarrow> content \<Rightarrow> content" where
  "limited_content mx c =
     (if int (length (fst c)) \<le> mx then c else (take (nat mx) (fst c), Some ErrSizeLimitExceeded))"

text \<open>What the agent of one call takes from outside.\<close>

record 's http_env =
  he_parse :: "string \<Rightarrow> url result"
  he_default :: "'s http_client"
  he_rnd :: "string result"
  he_now :: time
  he_envs :: "nat \<Rightarrow> attempt_env"

definition http_ops :: "'s ResourceOptions \<Rightarrow> 'x ctx option \<Rightarrow> ('x, unit, 's) agent_op list" where
  "http_ops opts ctx =
     [Context ctx, Client (Some (ro_HTTPClient opts)), TimeoutQuota (ro_TimeoutQuota opts),
      ExpectedStatusCodes successStatusCodes, RetryStatusCodes serverErrorStatusCodes,
      Retry (Some \<lparr>MaxDelay = ro_RetryMaxDelay opts, BaseDelay = ro_RetryBaseDelay opts, RetryAppError = False,
                   Attempts = ro_RetryAttempts opts, Idempotent = False\<rparr>)]"

definition http_Open ::
    "parse_media \<Rightarrow> 's http_env \<Rightarrow> 's ResourceOptions \<Rightarrow> 'x ctx option \<Rightarrow> Identifier \<Rightarrow> 's \<Rightarrow> Stream option result \<times> 's" where
  "http_Open pmt H opts ctx i s =
     (case DoStream (he_parse H) (he_default H) (he_rnd H) (he_now H) (he_envs H) (http_ops opts ctx)
             (Get (SourceURI i)) s of
        (Inl e, s) \<Rightarrow> (Inl e, s)
      | (Inr None, s) \<Rightarrow> (Inr None, s)
      | (Inr (Some resp), s) \<Rightarrow>
          if ro_MaxBytes opts > 0 \<and> resp_ContentLength resp > ro_MaxBytes opts then (Inl ErrSizeLimitExceeded, s)
          else
            let body = (if ro_MaxBytes opts > 0 then limited_content (ro_MaxBytes opts) (resp_Body resp) else resp_Body resp);
                mediaType = header_Get (resp_Header resp) ''Content-Type'';
                mediaType = (if mediaType = [] then MediaType i else mediaType);
                filename = param_of (Params i) ''filename'';
                filename = (if filename = [] then filenameFromDisposition pmt (header_Get (resp_Header resp) ''Content-Disposition'')
                            else filename)
            in (Inr (Some \<lparr>st_Body = Some body, st_MediaType = mediaType, st_Filename = filename,
                           st_Size = resp_ContentLength resp, st_SourceURI = SourceURI i, st_Headers = resp_Header resp\<rparr>), s))"

definition newHTTPHandler :: "parse_media \<Rightarrow> 's http_env \<Rightarrow> 's ResourceOptions \<Rightarrow> ('x, 's) ResourceHandler" where
  "newHTTPHandler pmt H opts =
     \<lparr>h_Open = http_Open pmt H opts, h_Upload = (\<lambda>ctx inp s. (Inl ErrUploadUnsupported, s))\<rparr>"

section \<open>Manager\<close>

record ('x, 's) Manager =
  m_opts :: "'s ResourceOptions"
  m_handlers :: "string \<Rightarrow> ('x, 's) ResourceHandler option"

fun apply_options :: "'s resource_option option list \<Rightarrow> 's ResourceOptions \<Rightarrow> 's ResourceOptions" where
  "apply_options [] opts = opts"
| "apply_options (opt # rest) opts = apply_options rest (case opt of None \<Rightarrow> opts | Some f \<Rightarrow> f opts)"

definition NewManager ::
    "parse_media \<Rightarrow> 's http_env \<Rightarrow> 's http_client \<Rightarrow> 's resource_option option list \<Rightarrow> ('x, 's) Manager" where
  "NewManager pmt H client opts =
     (let options = apply_options opts (defaultResourceOptions client);
          handlers = Map.empty(''https'' \<mapsto> newHTTPHandler pmt H options);
          handlers = (if ro_EnableHTTP options then handlers(''http'' \<mapsto> newHTTPHandler pmt H options) else handlers)
      in \<lparr>m_opts = options, m_handlers = handlers(''data'' \<mapsto> newDataHandler pmt options)\<rparr>)"

definition Register ::
    "string \<Rightarrow> ('x, 's) ResourceHandler option \<Rightarrow> ('x, 's) Manager \<Rightarrow> go_error option \<times> ('x, 's) Manager" where
  "Register scheme handler m =
     (case handler of
        None \<Rightarrow> (Some (NewValidationError ''handler is nil'' [] None), m)
      | Some h \<Rightarrow>
          if scheme = [] \<or> ToLower scheme \<noteq> scheme \<or> \<not> schemeRegexp scheme then
            (Some (NewValidationError (''invalid scheme '' @ Quote scheme) [] None), m)
          else (None, m\<lparr>m_handlers := (m_handlers m)(scheme \<mapsto> h)\<rparr>))"

definition manager_handler :: "('x, 's) Manager \<Rightarrow> string \<Rightarrow> ('x, 's) ResourceHandler result" where
  "manager_handler m scheme = (case m_handlers m scheme of None \<Rightarrow> Inl ErrUnsupportedScheme | Some h \<Rightarrow> Inr h)"

definition manager_Open :: "('x, 's) Manager \<Rightarrow> 'x ctx option \<Rightarrow> string \<Rightarrow> 's \<Rightarrow> Stream result \<times> 's" where
  "manager_Open m ctx raw s =
     (case Parse raw of
        Inl e \<Rightarrow> (Inl e, s)
      | Inr i \<Rightarrow>
          (case manager_handler m (Scheme i) of
             Inl e \<Rightarrow> (Inl (OpenError i e), s)
           | Inr h \<Rightarrow>
               (case h_Open h ctx i s of
                  (Inl e, s) \<Rightarrow> (Inl (OpenError i e), s)
                | (Inr None, s) \<Rightarrow> (Inl (OpenError i (NewValidationError ''handler returned empty stream'' [] None)), s)
                | (Inr (Some stream), s) \<Rightarrow>
                    if st_Body stream = None
                    then (Inl (OpenError i (NewValidationError ''handler returned empty stream'' [] None)), s)
                    else (Inr stream, s))))"

definition manager_Upload ::
    "('x, 's) Manager \<Rightarrow> 'x ctx option \<Rightarrow> string \<Rightarrow> UploadInput \<Rightarrow> 's \<Rightarrow> Identifier result \<times> 's" where
  "manager_Upload m ctx scheme inp s =
     (if scheme = [] \<or> ToLower scheme \<noteq> scheme \<or> \<not> schemeRegexp scheme then
        (Inl (UploadError scheme (NewValidationError (''invalid scheme '' @ Quote scheme) [] None)), s)
      else
        case manager_handler m scheme of
          Inl e \<Rightarrow> (Inl (UploadError scheme e), s)
        | Inr h \<Rightarrow>
            (case h_Upload h ctx inp s of
               (Inl e, s) \<Rightarrow> (Inl (UploadError scheme e), s)
             | (Inr i, s) \<Rightarrow> (Inr i, s)))"

section \<open>Download\<close>

text \<open>
  The file system: the content of each file. One download takes from it whether the parent of the target
  is a directory, the path of the new temporary file, and which operation fails: a write after some bytes,
  closing, renaming, removing.
\<close>

type_synonym files = "string \<Rightarrow> string option"

record download_env =
  de_stat :: "bool result"
  de_temp :: "string result"
  de_write :: "(nat \<times> go_error) option"
  de_close :: "go_error option"
  de_rename :: "go_error option"
  de_remove_fails :: bool

text \<open>\<open>io.Copy\<close>: what is written, and the first error of reading or writing.\<close>

definition copy_body :: "(nat \<times> go_error) option \<Rightarrow> content \<Rightarrow> content" where
  "copy_body wr c =
     (case wr of
        Some (k, e) \<Rightarrow> if k < length (fst c) then (take k (fst c), Some e) else c
      | None \<Rightarrow> c)"

definition remove_temp :: "download_env \<Rightarrow> string \<Rightarrow> files \<Rightarrow> files" where
  "remove_temp E tmpPath fs = (if de_remove_fails E then fs else fs(tmpPath := None))"

definition Download ::
    "download_env \<Rightarrow> ('x, 's) Manager \<Rightarrow> 'x ctx option \<Rightarrow> string \<Rightarrow> string \<Rightarrow> 's \<Rightarrow> files
       \<Rightarrow> go_error option \<times> 's \<times> files" where
  "Download E m ctx raw dstPath s fs =
     (if dstPath = [] then (Some (DownloadError dstPath (NewValidationError ''dstPath is empty'' [] None)), s, fs)
      else
        case manager_Open m ctx raw s of
          (Inl e, s) \<Rightarrow> (Some (DownloadError dstPath e), s, fs)
        | (Inr stream, s) \<Rightarrow>
            (case de_stat E of
               Inl e \<Rightarrow> (Some (DownloadError dstPath e), s, fs)
             | Inr False \<Rightarrow>
                 (Some (DownloadError dstPath (NewValidationError ''destination parent is not a directory'' [] None)), s, fs)
             | Inr True \<Rightarrow>
                 (case de_temp E of
                    Inl e \<Rightarrow> (Some (DownloadError dstPath e), s, fs)
                  | Inr tmpPath \<Rightarrow>
                      (case copy_body (de_write E) (case st_Body stream of Some c \<Rightarrow> c | None \<Rightarrow> ([], None)) of
                         (written, copyErr) \<Rightarrow>
                           let fs = fs(tmpPath \<mapsto> written) in
                           (case copyErr of
                              Some e \<Rightarrow> (Some (DownloadError dstPath e), s, remove_temp E tmpPath fs)
                            | None \<Rightarrow>
                                if st_Size stream \<ge> 0 \<and> ro_MaxBytes (m_opts m) > 0 \<and> st_Size stream > ro_MaxBytes (m_opts m) then
                                  (Some (DownloadError dstPath ErrSizeLimitExceeded), s, remove_temp E tmpPath fs)
                                else
                                  case de_close E of
                                    Some e \<Rightarrow> (Some (DownloadError dstPath e), s, remove_temp E tmpPath fs)
                                  | None \<Rightarrow>
                                      (case de_rename E of
                                         Some e \<Rightarrow> (Some (DownloadError dstPath e), s, remove_temp E tmpPath fs)
                                       | None \<Rightarrow> (None, s, fs(tmpPath := None, dstPath \<mapsto> written))))))))"

section \<open>Deadlines\<close>

definition ensureDeadline :: "time \<Rightarrow> 'x ctx option \<Rightarrow> duration \<Rightarrow> 'x ctx" where
  "ensureDeadline now ctx timeout =
     (let ctx = (case ctx of None \<Rightarrow> Background | Some c \<Rightarrow> c) in
      if ctx_deadline ctx \<noteq> None \<or> timeout \<le> 0 then ctx else WithDeadline ctx (now + timeout))"

definition remainingTimeout :: "time \<Rightarrow> 'x ctx \<Rightarrow> duration result" where
  "remainingTimeout now ctx =
     (case ctx_deadline ctx of
        None \<Rightarrow> Inr 0
      | Some deadline \<Rightarrow>
          let remaining = deadline - now in
          if remaining \<le> 0 then Inl ErrResourceTimeoutBudgetExhausted else Inr remaining)"

lemma remainingTimeout_ensured:
  "0 < timeout \<Longrightarrow> remainingTimeout now (ensureDeadline now ctx timeout) =
     (case Option.bind ctx ctx_deadline of
        Some d \<Rightarrow> if d \<le> now then Inl ErrResourceTimeoutBudgetExhausted else Inr (d - now)
      | None \<Rightarrow> Inr timeout)"
  by (cases ctx; cases "ctx_deadline (the ctx)")
    (auto simp: remainingTimeout_def ensureDeadline_def Background_def WithDeadline_def)

section \<open>Properties\<close>

text \<open>
  C40. A download replaces its target in one step or not at all: on success the target holds exactly the
  bytes of the stream, read to its end without error, and nothing else changed; on every failure, of the
  source, of the size limit, of writing, closing or renaming, the target is as it was, the error is a
  \<open>DownloadError\<close>, and nothing is left behind unless removing the temporary file failed too.
  (\<open>os.CreateTemp\<close> creates a file that did not exist.)
\<close>

theorem download_atomic:
  assumes "\<forall>tmp. de_temp E = Inr tmp \<longrightarrow> fs tmp = None \<and> tmp \<noteq> dst"
  shows "case Download E m ctx raw dst s fs of
      (None, s', fs') \<Rightarrow> (\<exists>stream bytes. manager_Open m ctx raw s = (Inr stream, s') \<and> st_Body stream = Some (bytes, None)
          \<and> fs' = fs(dst \<mapsto> bytes))
    | (Some e, s', fs') \<Rightarrow> (\<exists>x. e = DownloadError dst x) \<and> fs' dst = fs dst
        \<and> (fs' = fs \<or> (\<exists>tmp bytes. de_remove_fails E \<and> de_temp E = Inr tmp \<and> fs' = fs(tmp \<mapsto> bytes)))"
proof (cases "\<exists>stream s1 tmp. dst \<noteq> [] \<and> manager_Open m ctx raw s = (Inr stream, s1) \<and> de_stat E = Inr True \<and> de_temp E = Inr tmp")
  case False
  then show ?thesis
    by (auto simp: Download_def split: sum.splits prod.splits bool.splits option.splits)
next
  case True
  then obtain stream s1 tmp where o: "dst \<noteq> []" "manager_Open m ctx raw s = (Inr stream, s1)" "de_stat E = Inr True" "de_temp E = Inr tmp"
    by blast
  have t: "fs tmp = None" "tmp \<noteq> dst" using assms o(4) by auto
  obtain c where body: "st_Body stream = Some c"
    using o(2) by (auto simp: manager_Open_def split: sum.splits prod.splits option.splits if_splits)
  obtain written err where w: "copy_body (de_write E) c = (written, err)" by fastforce
  have ok: "err = None \<Longrightarrow> c = (written, None)"
    using w by (auto simp: copy_body_def split: option.splits if_splits prod.splits)
  have gone: "(fs(tmp \<mapsto> written))(tmp := None) = fs" using t by (auto simp: fun_eq_iff)
  have rm: "remove_temp E tmp (fs(tmp \<mapsto> written)) dst = fs dst"
    "remove_temp E tmp (fs(tmp \<mapsto> written)) = fs \<or> (de_remove_fails E \<and> remove_temp E tmp (fs(tmp \<mapsto> written)) = fs(tmp \<mapsto> written))"
    using t gone by (auto simp: remove_temp_def)
  have fin: "(fs(tmp \<mapsto> written))(tmp := None, dst \<mapsto> written) = fs(dst \<mapsto> written)" using gone by simp
  show ?thesis
    using o body w ok rm fin
    by (auto simp: Download_def Let_def split: option.splits)
qed

text \<open>The download of the witness.\<close>

definition demo_http_env :: "nat http_env" where
  "demo_http_env = \<lparr>he_parse = (\<lambda>u. Inr demo_url), he_default = demo_client, he_rnd = Inr ''ab'', he_now = 0, he_envs = (\<lambda>n. demo_env)\<rparr>"

definition demo_manager :: "(unit, nat) Manager" where
  "demo_manager = NewManager (\<lambda>m. Inr (m, [])) demo_http_env demo_client [Some (WithDataMaxBytes 16), None]"

theorem download_atomic_witness:
  "case Download \<lparr>de_stat = Inr True, de_temp = Inr ''/d/.f.tmp-1'', de_write = None, de_close = None, de_rename = None, de_remove_fails = False\<rparr>
     demo_manager None ''ofa-res#data:,a%20b'' ''/d/f'' 0 (Map.empty(''/d/f'' \<mapsto> ''old'')) of
     (None, s', fs') \<Rightarrow> fs' = Map.empty(''/d/f'' \<mapsto> ''a b'') | (Some e, s', fs') \<Rightarrow> False"
proof -
  let ?E = "\<lparr>de_stat = Inr True, de_temp = Inr ''/d/.f.tmp-1'', de_write = None, de_close = None, de_rename = None, de_remove_fails = False\<rparr>"
  let ?dl = "Download ?E demo_manager None ''ofa-res#data:,a%20b'' ''/d/f'' 0 (Map.empty(''/d/f'' \<mapsto> ''old''))"
  have o: "case manager_Open demo_manager None ''ofa-res#data:,a%20b'' 0 of (Inr st, s) \<Rightarrow> st_Body st = Some (''a b'', None) \<and> st_Size st = 3 | _ \<Rightarrow> False"
    by code_simp
  have mx: "ro_MaxBytes (m_opts demo_manager) = 32 * 2 ^ 20"
    by (simp add: demo_manager_def NewManager_def Let_def WithDataMaxBytes_def defaultResourceOptions_def)
  have "\<forall>tmp. de_temp ?E = Inr tmp \<longrightarrow> (Map.empty(''/d/f'' \<mapsto> ''old'')) tmp = None \<and> tmp \<noteq> ''/d/f''" by simp
  note d = download_atomic[where fs = "Map.empty(''/d/f'' \<mapsto> ''old'')", OF this, of demo_manager None "''ofa-res#data:,a%20b''" 0]
  have "fst ?dl = None" using o mx by (auto simp: Download_def copy_body_def Let_def split: prod.splits sum.splits)
  then obtain s' fs' where r: "?dl = (None, s', fs')" by (cases ?dl) auto
  from d[unfolded r] obtain stream bytes where "manager_Open demo_manager None ''ofa-res#data:,a%20b'' 0 = (Inr stream, s')"
    "st_Body stream = Some (bytes, None)" "fs' = Map.empty(''/d/f'' \<mapsto> ''old'', ''/d/f'' \<mapsto> bytes)" by auto
  with o r show ?thesis by simp
qed

text \<open>What reading a limited response body to its end gives is its limited content.\<close>

lemma limited_content_read:
  assumes "0 \<le> mx" and "\<forall>k. 0 < sizes k" and "length (b_rest b) < fuel" and "b_final b = (case err of None \<Rightarrow> EOF | Some e \<Rightarrow> e)"
  shows "\<exists>l. read_all (limit_Read body_Read) sizes 0 fuel \<lparr>l_body = b, l_max = mx, l_read = 0, l_over = False\<rparr> =
    (case limited_content mx (b_rest b, err) of (bytes, e) \<Rightarrow> Some (bytes, case e of None \<Rightarrow> EOF | Some e \<Rightarrow> e, l))"
proof -
  let ?l = "\<lparr>l_body = b, l_max = mx, l_read = 0, l_over = False\<rparr>"
  have "response.limit_inv ?l" using assms(1) by (simp add: response.limit_inv_def)
  from limited.read_all_content[OF this assms(2), of fuel 0] assms(1,3,4) show ?thesis
    by (auto simp: response.limit_content_def response.limit_final_def limited_content_def)
qed

lemma run_ops_http:
  "run_ops (http_ops opts ctx) (Get u) = (None, (Get u)\<lparr>ag_ctx := ctx, ag_client := Some (ro_HTTPClient opts),
     ag_timeoutQuota := ro_TimeoutQuota opts, ag_expectedStatusCodes := successStatusCodes, ag_retryStatusCodes := serverErrorStatusCodes,
     ag_retryOpt := Some \<lparr>MaxDelay = ro_RetryMaxDelay opts, BaseDelay = ro_RetryBaseDelay opts, RetryAppError = False,
                   Attempts = ro_RetryAttempts opts, Idempotent = False\<rparr>\<rparr>)"
  by (simp add: http_ops_def Context_def Client_def TimeoutQuota_def ExpectedStatusCodes_def RetryStatusCodes_def Retry_def)

lemma agent_init_fields:
  assumes "run_ops ops a = (None, a1)" and "agent_init dflt rnd now ops a = (None, a')"
  shows "ag_retryOpt a' = ag_retryOpt a1" "ag_method a' = ag_method a1" "ag_respHandler a' = ag_respHandler a1"
    "ag_client a' = Some (case ag_client a1 of None \<Rightarrow> dflt | Some c \<Rightarrow> c)"
  using assms by (auto simp: agent_init_def Let_def split: prod.splits sum.splits option.splits if_splits)

lemma doHTTP_stream: "doHTTP parse client executeStream E a s = (Inr r, a', s') \<Longrightarrow> \<exists>resp. r = Some resp \<and> isInExpectedStatusCodes a' (StatusCode resp)"
  by (auto simp: doHTTP_def Let_def split: prod.splits sum.splits if_splits)

lemma retry_loop_stream:
  "retry_loop parse client executeStream envs opt n k a s = (Inr r, a', s') \<Longrightarrow> r \<noteq> None"
proof (induction n arbitrary: k a s)
  case (Suc n)
  obtain x a1 s1 where d: "doHTTP parse client executeStream (envs k) a s = (x, a1, s1)" by (metis prod_cases3)
  show ?case
  proof (cases x)
    case (Inr r')
    with Suc.prems d show ?thesis using doHTTP_stream[of parse client "envs k" a s] by auto
  next
    case (Inl e)
    with Suc.prems d have "retry_loop parse client executeStream envs opt n (Suc k) a1 s1 = (Inr r, a', s')"
      by (auto simp: Let_def split: if_splits option.splits)
    then show ?thesis by (rule Suc.IH)
  qed
qed simp

lemma DoStream_http:
  assumes "DoStream parse dflt rnd now envs (http_ops opts ctx) (Get u) s = (res, s')"
    and "\<forall>req s. cnt (snd (ro_HTTPClient opts req s)) = Suc (cnt s)" and "0 < ro_RetryAttempts opts"
  shows "cnt s' \<le> cnt s + nat (ro_RetryAttempts opts) \<and> (\<forall>r. res = Inr r \<longrightarrow> r \<noteq> None)"
proof -
  obtain err a' where i: "agent_init dflt rnd now (http_ops opts ctx) (Get u) = (err, a')" by fastforce
  show ?thesis
  proof (cases err)
    case (Some e)
    with i assms(1) show ?thesis by (auto simp: DoStream_def run_agent_def)
  next
    case None
    note f = agent_init_fields[OF run_ops_http i[unfolded None], simplified]
    let ?opt = "\<lparr>MaxDelay = ro_RetryMaxDelay opts, BaseDelay = ro_RetryBaseDelay opts, RetryAppError = False,
                   Attempts = ro_RetryAttempts opts, Idempotent = False\<rparr>"
    have c: "ag_client a' = Some (ro_HTTPClient opts)" and o: "ag_retryOpt a' = Some ?opt" using f by simp_all
    have "counts_sends cnt (ro_HTTPClient opts) a'"
      using f(3) assms(2) by (simp add: counts_sends_def Get_def newAgent_def)
    moreover have "max_attempts a' ?opt = nat (ro_RetryAttempts opts)"
      using assms(3) f(2) by (simp add: max_attempts_def canRetryMethod_def Get_def newAgent_def Let_def)
    moreover obtain a2 where "retry_loop parse (ro_HTTPClient opts) executeStream envs ?opt (max_attempts a' ?opt) 1 a' s = (res, a2, s')"
      using assms(1) i None c o
      by (auto simp: DoStream_def run_agent_def executeHTTP_def retryDoHTTP_def split: prod.splits)
    ultimately show ?thesis using retry_loop_sends retry_loop_stream by metis
  qed
qed

text \<open>
  Opening an HTTP resource: the request is sent at most as often as configured; on success there is a
  stream, and with a size limit neither its declared size nor the bytes it can deliver exceed the limit; a
  file name taken from the response names no other directory.
\<close>

theorem resource_http_open:
  assumes "http_Open pmt H opts ctx i s = (res, s')"
    and "\<forall>req s. cnt (snd (ro_HTTPClient opts req s)) = Suc (cnt s)" and "0 < ro_RetryAttempts opts"
  shows "cnt s' \<le> cnt s + nat (ro_RetryAttempts opts)
    \<and> (\<forall>st. res = Inr st \<longrightarrow> (\<exists>stream bytes err. st = Some stream \<and> st_Body stream = Some (bytes, err) \<and> st_SourceURI stream = SourceURI i
          \<and> (0 < ro_MaxBytes opts \<longrightarrow> int (length bytes) \<le> ro_MaxBytes opts \<and> st_Size stream \<le> ro_MaxBytes opts)
          \<and> (st_Filename stream = param_of (Params i) ''filename'' \<or> \<not> bad_filename (st_Filename stream))))"
proof -
  obtain r s1 where d: "DoStream (he_parse H) (he_default H) (he_rnd H) (he_now H) (he_envs H) (http_ops opts ctx) (Get (SourceURI i)) s = (r, s1)"
    by fastforce
  note D = DoStream_http[OF d assms(2,3)]
  have "s' = s1" using assms(1) d by (auto simp: http_Open_def Let_def split: sum.splits option.splits if_splits)
  moreover have l: "0 < mx \<Longrightarrow> int (length (fst (limited_content mx c))) \<le> mx" for mx c by (auto simp: limited_content_def)
  have fn: "\<not> bad_filename (filenameFromDisposition pmt x)" for x
    by (auto simp: filenameFromDisposition_def Let_def bad_filename_def ContainsAny_def Contains_def split: sum.splits)
  have "\<exists>stream bytes err. st = Some stream \<and> st_Body stream = Some (bytes, err) \<and> st_SourceURI stream = SourceURI i
          \<and> (0 < ro_MaxBytes opts \<longrightarrow> int (length bytes) \<le> ro_MaxBytes opts \<and> st_Size stream \<le> ro_MaxBytes opts)
          \<and> (st_Filename stream = param_of (Params i) ''filename'' \<or> \<not> bad_filename (st_Filename stream))" if r0: "res = Inr st" for st
  proof -
    obtain resp where resp: "r = Inr (Some resp)" and ok: "\<not> (ro_MaxBytes opts > 0 \<and> resp_ContentLength resp > ro_MaxBytes opts)"
      using assms(1) d D r0 by (auto simp: http_Open_def split: sum.splits option.splits if_splits)
    let ?body = "if ro_MaxBytes opts > 0 then limited_content (ro_MaxBytes opts) (resp_Body resp) else resp_Body resp"
    obtain stream where st: "st = Some stream" "st_Body stream = Some ?body" "st_SourceURI stream = SourceURI i"
        "st_Size stream = resp_ContentLength resp"
        "st_Filename stream = (if param_of (Params i) ''filename'' = [] then filenameFromDisposition pmt (header_Get (resp_Header resp) ''Content-Disposition'')
            else param_of (Params i) ''filename'')"
      using assms(1) d r0 resp ok by (auto simp: http_Open_def Let_def)
    obtain bytes err where b: "?body = (bytes, err)" by fastforce
    have "0 < ro_MaxBytes opts \<longrightarrow> int (length bytes) \<le> ro_MaxBytes opts"
      using l[of "ro_MaxBytes opts" "resp_Body resp"] b by auto
    with st ok b fn show ?thesis by (intro exI[of _ stream] exI[of _ bytes] exI[of _ err]) auto
  qed
  ultimately show ?thesis using D by simp
qed

theorem resource_http_open_witness:
  "snd (http_Open (\<lambda>m. Inr (m, [])) demo_http_env (defaultResourceOptions demo_client) (Some demo_ctx)
     \<lparr>Raw = [], Params = [], SourceURI = ''http://h/'', Scheme = ''http'', AuthID = [], MediaType = []\<rparr> 0) \<le> 3"
proof -
  let ?o = "http_Open (\<lambda>m. Inr (m, [])) demo_http_env (defaultResourceOptions demo_client) (Some demo_ctx)
     \<lparr>Raw = [], Params = [], SourceURI = ''http://h/'', Scheme = ''http'', AuthID = [], MediaType = []\<rparr> 0"
  have a: "\<forall>req s. id (snd (ro_HTTPClient (defaultResourceOptions demo_client) req s)) = Suc (id s)"
      "0 < ro_RetryAttempts (defaultResourceOptions demo_client)"
    by (simp_all add: defaultResourceOptions_def demo_client_def)
  have "?o = (fst ?o, snd ?o)" by simp
  from resource_http_open[where cnt = id, OF this a] show ?thesis by (simp add: defaultResourceOptions_def)
qed

text \<open>
  The manager: whatever handlers are registered, every scheme it serves is well-formed and lower-case, and
  the built-in ones stay served; a refused registration changes nothing.
\<close>

inductive managed :: "('x, 's) Manager \<Rightarrow> bool" where
  new: "managed (NewManager pmt H client opts)"
| register: "managed m \<Longrightarrow> managed (snd (Register scheme handler m))"

lemma managed_schemes:
  "managed m \<Longrightarrow> (\<forall>scheme \<in> dom (m_handlers m). schemeRegexp scheme \<and> ToLower scheme = scheme)
     \<and> {''https'', ''data''} \<subseteq> dom (m_handlers m)"
proof (induction rule: managed.induct)
  case (new pmt H client opts)
  have "schemeRegexp ''https'' \<and> ToLower ''https'' = ''https''" "schemeRegexp ''http'' \<and> ToLower ''http'' = ''http''"
    "schemeRegexp ''data'' \<and> ToLower ''data'' = ''data''" by code_simp+
  then show ?case by (auto simp: NewManager_def Let_def split: if_splits)
qed (auto simp: Register_def split: option.splits if_splits)

text \<open>The limit of \<open>Download\<close> rests on the size the handler declares: a custom handler that declares none is not limited.\<close>

lemma download_unknown_size_unlimited:
  assumes "manager_Open m ctx raw s = (Inr stream, s')" and "st_Body stream = Some (bytes, None)" and "st_Size stream = - 1"
    and "de_stat E = Inr True" "de_temp E = Inr tmp" "de_write E = None" "de_close E = None" "de_rename E = None" "dst \<noteq> []"
  shows "Download E m ctx raw dst s fs = (None, s', fs(tmp := None, dst \<mapsto> bytes))"
  using assms by (simp add: Download_def copy_body_def)

end
