(* ===== verification/Model_Audit.thy ===== *)
theory Model_Audit
  imports Pass_Context
begin

text \<open>
  Package \<open>model\<close> without its identifiers: the audit records of entities (\<open>model/audit.go\<close>), the
  options and paging input of a repository (\<open>model/types.go\<close>), the optimistic-lock helper
  (\<open>model/util.go\<close>) and the sort input of \<open>model/datax/page.go\<close>.

  An audit structure is a record with the fields of the Go structure; the interface a
  structure implements is a datatype of the implementations the package has, so that a method
  call dispatches on the constructor. An entity carries the audit structures it embeds as options:
  a type assertion such as \<open>entity.(CreateAuditor)\<close> succeeds when the option is present. Entities are
  pointers in Go and are changed in place, so every operation returns the entity as it is left
  behind, on errors too. \<open>timex.Now()\<close> is read through \<open>clk\<close>, a sequence of clock readings.
\<close>

section \<open>Time stamps\<close>

text \<open>\<open>time.UnixMilli(ms)\<close> and \<open>t.UnixMilli()\<close>.\<close>

definition FromUnixMilli :: "int \<Rightarrow> time" where
  "FromUnixMilli ms = ms * Millisecond"

definition UnixMilli :: "time \<Rightarrow> int" where
  "UnixMilli t = int64 (t div Millisecond)"

text \<open>The \<open>interface{}\<close> results of the \<open>Get*TimeRaw\<close> methods.\<close>

datatype raw_time = RawTime time | RawMs int

type_synonym clock = "nat \<Rightarrow> time"

definition later :: "clock \<Rightarrow> clock" where
  "later clk = (\<lambda>i. clk (Suc i))"

section \<open>Creation audit\<close>

record CreateAudit =
  CreatedAt :: time
  CreatedBy :: string

record CreateAuditMs =
  CreatedAtMs :: int
  CreatedByMs :: string

definition CreateAudit_GetCreateTimeRaw :: "CreateAudit \<Rightarrow> raw_time" where
  "CreateAudit_GetCreateTimeRaw c = RawTime (CreatedAt c)"

definition CreateAudit_GetCreatorInfo :: "CreateAudit \<Rightarrow> string \<times> time" where
  "CreateAudit_GetCreatorInfo c = (CreatedBy c, CreatedAt c)"

definition CreateAudit_SetUser :: "time \<Rightarrow> string \<Rightarrow> CreateAudit \<Rightarrow> CreateAudit" where
  "CreateAudit_SetUser now user c = c\<lparr>CreatedBy := user, CreatedAt := now\<rparr>"

definition CreateAudit_SetCreator :: "time \<Rightarrow> string \<Rightarrow> CreateAudit \<Rightarrow> CreateAudit" where
  "CreateAudit_SetCreator now user c = CreateAudit_SetUser now user c"

definition CreateAuditMs_GetCreateTimeRaw :: "CreateAuditMs \<Rightarrow> raw_time" where
  "CreateAuditMs_GetCreateTimeRaw c = RawMs (CreatedAtMs c)"

definition CreateAuditMs_GetCreatorInfo :: "CreateAuditMs \<Rightarrow> string \<times> time" where
  "CreateAuditMs_GetCreatorInfo c =
     (if CreatedAtMs c = 0 then (CreatedByMs c, zero_time)
      else (CreatedByMs c, FromUnixMilli (CreatedAtMs c)))"

definition CreateAuditMs_SetUser :: "time \<Rightarrow> string \<Rightarrow> CreateAuditMs \<Rightarrow> CreateAuditMs" where
  "CreateAuditMs_SetUser now user c = c\<lparr>CreatedByMs := user, CreatedAtMs := UnixMilli now\<rparr>"

definition CreateAuditMs_SetCreator :: "time \<Rightarrow> string \<Rightarrow> CreateAuditMs \<Rightarrow> CreateAuditMs" where
  "CreateAuditMs_SetCreator now user c = CreateAuditMs_SetUser now user c"

datatype CreateAuditor = ACreate CreateAudit | ACreateMs CreateAuditMs

fun GetCreatorInfo :: "CreateAuditor \<Rightarrow> string \<times> time" where
  "GetCreatorInfo (ACreate c) = CreateAudit_GetCreatorInfo c"
| "GetCreatorInfo (ACreateMs c) = CreateAuditMs_GetCreatorInfo c"

fun GetCreateTimeRaw :: "CreateAuditor \<Rightarrow> raw_time" where
  "GetCreateTimeRaw (ACreate c) = CreateAudit_GetCreateTimeRaw c"
| "GetCreateTimeRaw (ACreateMs c) = CreateAuditMs_GetCreateTimeRaw c"

fun SetCreator :: "time \<Rightarrow> string \<Rightarrow> CreateAuditor \<Rightarrow> CreateAuditor" where
  "SetCreator now user (ACreate c) = ACreate (CreateAudit_SetCreator now user c)"
| "SetCreator now user (ACreateMs c) = ACreateMs (CreateAuditMs_SetCreator now user c)"

section \<open>Update audit\<close>

record UpdateAudit =
  UpdatedAt :: time
  UpdatedBy :: string

record UpdateAuditMs =
  UpdatedAtMs :: int
  UpdatedByMs :: string

definition UpdateAudit_GetUpdateTimeRaw :: "UpdateAudit \<Rightarrow> raw_time" where
  "UpdateAudit_GetUpdateTimeRaw c = RawTime (UpdatedAt c)"

definition UpdateAudit_GetUpdateInfo :: "UpdateAudit \<Rightarrow> string \<times> time" where
  "UpdateAudit_GetUpdateInfo c = (UpdatedBy c, UpdatedAt c)"

definition UpdateAudit_SetUser :: "time \<Rightarrow> string \<Rightarrow> UpdateAudit \<Rightarrow> UpdateAudit" where
  "UpdateAudit_SetUser now user c = c\<lparr>UpdatedBy := user, UpdatedAt := now\<rparr>"

definition UpdateAudit_SetUpdater :: "time \<Rightarrow> string \<Rightarrow> UpdateAudit \<Rightarrow> UpdateAudit" where
  "UpdateAudit_SetUpdater now user c = UpdateAudit_SetUser now user c"

definition UpdateAuditMs_GetUpdateTimeRaw :: "UpdateAuditMs \<Rightarrow> raw_time" where
  "UpdateAuditMs_GetUpdateTimeRaw c = RawMs (UpdatedAtMs c)"

definition UpdateAuditMs_GetUpdateInfo :: "UpdateAuditMs \<Rightarrow> string \<times> time" where
  "UpdateAuditMs_GetUpdateInfo c =
     (if UpdatedAtMs c = 0 then (UpdatedByMs c, zero_time)
      else (UpdatedByMs c, FromUnixMilli (UpdatedAtMs c)))"

definition UpdateAuditMs_SetUser :: "time \<Rightarrow> string \<Rightarrow> UpdateAuditMs \<Rightarrow> UpdateAuditMs" where
  "UpdateAuditMs_SetUser now user c = c\<lparr>UpdatedByMs := user, UpdatedAtMs := UnixMilli now\<rparr>"

definition UpdateAuditMs_SetUpdater :: "time \<Rightarrow> string \<Rightarrow> UpdateAuditMs \<Rightarrow> UpdateAuditMs" where
  "UpdateAuditMs_SetUpdater now user c = UpdateAuditMs_SetUser now user c"

datatype UpdateAuditor = AUpdate UpdateAudit | AUpdateMs UpdateAuditMs

fun GetUpdateInfo :: "UpdateAuditor \<Rightarrow> string \<times> time" where
  "GetUpdateInfo (AUpdate c) = UpdateAudit_GetUpdateInfo c"
| "GetUpdateInfo (AUpdateMs c) = UpdateAuditMs_GetUpdateInfo c"

fun GetUpdateTimeRaw :: "UpdateAuditor \<Rightarrow> raw_time" where
  "GetUpdateTimeRaw (AUpdate c) = UpdateAudit_GetUpdateTimeRaw c"
| "GetUpdateTimeRaw (AUpdateMs c) = UpdateAuditMs_GetUpdateTimeRaw c"

fun SetUpdater :: "time \<Rightarrow> string \<Rightarrow> UpdateAuditor \<Rightarrow> UpdateAuditor" where
  "SetUpdater now user (AUpdate c) = AUpdate (UpdateAudit_SetUpdater now user c)"
| "SetUpdater now user (AUpdateMs c) = AUpdateMs (UpdateAuditMs_SetUpdater now user c)"

section \<open>Delete audit\<close>

text \<open>
  The \<open>Get*TimeRaw\<close> methods of the delete structures also accept a nil pointer. The structure of
  an entity is a value, so the models take the pointer as an option.
\<close>

record DeleteAudit =
  DeletedAt :: time
  DeletedBy :: string

record DeleteAuditMs =
  DeletedAtMs :: int
  DeletedByMs :: string

definition DeleteAudit_GetDeleteTimeRaw :: "DeleteAudit option \<Rightarrow> raw_time" where
  "DeleteAudit_GetDeleteTimeRaw p = (case p of None \<Rightarrow> RawTime zero_time | Some c \<Rightarrow> RawTime (DeletedAt c))"

definition DeleteAudit_GetDeleteInfo :: "DeleteAudit \<Rightarrow> string \<times> time" where
  "DeleteAudit_GetDeleteInfo c = (DeletedBy c, DeletedAt c)"

definition DeleteAudit_SetUser :: "time \<Rightarrow> string \<Rightarrow> DeleteAudit \<Rightarrow> DeleteAudit" where
  "DeleteAudit_SetUser now user c = c\<lparr>DeletedBy := user, DeletedAt := now\<rparr>"

definition DeleteAudit_SetDeleter :: "time \<Rightarrow> string \<Rightarrow> DeleteAudit \<Rightarrow> DeleteAudit" where
  "DeleteAudit_SetDeleter now user c = DeleteAudit_SetUser now user c"

definition DeleteAuditMs_GetDeleteTimeRaw :: "DeleteAuditMs option \<Rightarrow> raw_time" where
  "DeleteAuditMs_GetDeleteTimeRaw p = (case p of None \<Rightarrow> RawMs 0 | Some c \<Rightarrow> RawMs (DeletedAtMs c))"

definition DeleteAuditMs_GetDeleteInfo :: "DeleteAuditMs \<Rightarrow> string \<times> time" where
  "DeleteAuditMs_GetDeleteInfo c =
     (if DeletedAtMs c = 0 then (DeletedByMs c, zero_time)
      else (DeletedByMs c, FromUnixMilli (DeletedAtMs c)))"

definition DeleteAuditMs_SetUser :: "time \<Rightarrow> string \<Rightarrow> DeleteAuditMs \<Rightarrow> DeleteAuditMs" where
  "DeleteAuditMs_SetUser now user c = c\<lparr>DeletedByMs := user, DeletedAtMs := UnixMilli now\<rparr>"

definition DeleteAuditMs_SetDeleter :: "time \<Rightarrow> string \<Rightarrow> DeleteAuditMs \<Rightarrow> DeleteAuditMs" where
  "DeleteAuditMs_SetDeleter now user c = DeleteAuditMs_SetUser now user c"

datatype DeleteAuditor = ADelete DeleteAudit | ADeleteMs DeleteAuditMs

fun GetDeleteInfo :: "DeleteAuditor \<Rightarrow> string \<times> time" where
  "GetDeleteInfo (ADelete c) = DeleteAudit_GetDeleteInfo c"
| "GetDeleteInfo (ADeleteMs c) = DeleteAuditMs_GetDeleteInfo c"

fun GetDeleteTimeRaw :: "DeleteAuditor \<Rightarrow> raw_time" where
  "GetDeleteTimeRaw (ADelete c) = DeleteAudit_GetDeleteTimeRaw (Some c)"
| "GetDeleteTimeRaw (ADeleteMs c) = DeleteAuditMs_GetDeleteTimeRaw (Some c)"

fun SetDeleter :: "time \<Rightarrow> string \<Rightarrow> DeleteAuditor \<Rightarrow> DeleteAuditor" where
  "SetDeleter now user (ADelete c) = ADelete (DeleteAudit_SetDeleter now user c)"
| "SetDeleter now user (ADeleteMs c) = ADeleteMs (DeleteAuditMs_SetDeleter now user c)"

section \<open>Tenant and application\<close>

record TenantAudit =
  TenantID :: string
  AppID :: string

definition GetTenantID :: "TenantAudit \<Rightarrow> string" where
  "GetTenantID c = TenantID c"

definition SetTenantID :: "string \<Rightarrow> TenantAudit \<Rightarrow> TenantAudit" where
  "SetTenantID i c = c\<lparr>TenantID := i\<rparr>"

definition GetAppID :: "TenantAudit \<Rightarrow> string" where
  "GetAppID c = AppID c"

definition SetAppID :: "string \<Rightarrow> TenantAudit \<Rightarrow> TenantAudit" where
  "SetAppID i c = c\<lparr>AppID := i\<rparr>"

section \<open>Entities\<close>

text \<open>
  An entity: its identifier (\<open>Entity[P]\<close> or a structure of its own with \<open>GetID\<close> and \<open>SetID\<close>), the
  audit structures it embeds, and its remaining fields.
\<close>

record ('p, 'b) entity =
  ent_ID :: 'p
  ent_create :: "CreateAuditor option"
  ent_update :: "UpdateAuditor option"
  ent_delete :: "DeleteAuditor option"
  ent_tenant :: "TenantAudit option"
  ent_body :: 'b

definition entity_GetID :: "('p, 'b) entity \<Rightarrow> 'p" where
  "entity_GetID e = ent_ID e"

definition entity_SetID :: "'p \<Rightarrow> ('p, 'b) entity \<Rightarrow> ('p, 'b) entity" where
  "entity_SetID i e = e\<lparr>ent_ID := i\<rparr>"

section \<open>Filling audit fields from the context\<close>

definition no_user :: go_error where
  "no_user = NewValidationError ''there is no user in context'' [] None"

definition no_tenant :: go_error where
  "no_tenant = NewValidationError ''there is no tenantid in context'' [] None"

definition no_app :: go_error where
  "no_app = NewValidationError ''there is no appid in context'' [] None"

definition CtxUpdateAudit :: "'x ctx \<Rightarrow> time \<Rightarrow> ('p, 'b) entity \<Rightarrow> go_error option \<times> ('p, 'b) entity" where
  "CtxUpdateAudit ctx now e =
     (case ent_update e of
        None \<Rightarrow> (None, e)
      | Some uc \<Rightarrow>
          (case CtxGetOperator ctx of
             None \<Rightarrow> (Some no_user, e)
           | Some u \<Rightarrow> (None, e\<lparr>ent_update := Some (SetUpdater now u uc)\<rparr>)))"

definition CtxUpdateAuditAndEnv ::
    "'x ctx \<Rightarrow> time \<Rightarrow> ('p, 'b) entity \<Rightarrow> go_error option \<times> ('p, 'b) entity" where
  "CtxUpdateAuditAndEnv ctx now e =
     (case CtxUpdateAudit ctx now e of
        (Some err, e) \<Rightarrow> (Some err, e)
      | (None, e) \<Rightarrow> (None, e))"

text \<open>The part of \<open>CtxCreateAudit\<close> and \<open>CtxAudit\<close> that fills the tenant and the application.\<close>

definition fill_tenant :: "'x ctx \<Rightarrow> TenantAudit \<Rightarrow> go_error option \<times> TenantAudit" where
  "fill_tenant ctx tc =
     (case CtxGetTenantID ctx of
        None \<Rightarrow> (Some no_tenant, tc)
      | Some tId \<Rightarrow>
          let tc = SetTenantID tId tc in
          (case CtxGetAppID ctx of
             None \<Rightarrow> (Some no_app, tc)
           | Some aId \<Rightarrow> (None, SetAppID aId tc)))"

definition CtxCreateAudit ::
    "'x ctx \<Rightarrow> clock \<Rightarrow> ('p, 'b) entity \<Rightarrow> go_error option \<times> ('p, 'b) entity" where
  "CtxCreateAudit ctx clk e =
     (case (case ent_create e of
              None \<Rightarrow> (None, e)
            | Some cr \<Rightarrow>
                (case CtxGetOperator ctx of
                   None \<Rightarrow> (Some no_user, e)
                 | Some u \<Rightarrow> (None, e\<lparr>ent_create := Some (SetCreator (clk 0) u cr)\<rparr>))) of
        (Some err, e) \<Rightarrow> (Some err, e)
      | (None, e) \<Rightarrow>
          (case (case ent_tenant e of
                   None \<Rightarrow> (None, e)
                 | Some tc \<Rightarrow> (case fill_tenant ctx tc of (r, tc) \<Rightarrow> (r, e\<lparr>ent_tenant := Some tc\<rparr>))) of
             (Some err, e) \<Rightarrow> (Some err, e)
           | (None, e) \<Rightarrow> CtxUpdateAudit ctx (clk 1) e))"

definition CtxDeleteAudit ::
    "'x ctx \<Rightarrow> time \<Rightarrow> ('p, 'b) entity \<Rightarrow> bool result \<times> ('p, 'b) entity" where
  "CtxDeleteAudit ctx now e =
     (case ent_delete e of
        None \<Rightarrow> (Inr False, e)
      | Some uc \<Rightarrow>
          (case CtxGetOperator ctx of
             None \<Rightarrow> (Inl no_user, e)
           | Some u \<Rightarrow> (Inr True, e\<lparr>ent_delete := Some (SetDeleter now u uc)\<rparr>)))"

text \<open>
  \<open>CtxAudit\<close> takes values of any type. What it uses of one is whether it is an
  \<open>OperatorCarrier\<close> (a single audit structure with \<open>SetUser\<close>) and whether it is a \<open>TenantCarrier\<close>.
\<close>

datatype OperatorCarrier =
    OpCreate CreateAuditor
  | OpUpdate UpdateAuditor
  | OpDelete DeleteAuditor

fun SetUser :: "time \<Rightarrow> string \<Rightarrow> OperatorCarrier \<Rightarrow> OperatorCarrier" where
  "SetUser now user (OpCreate (ACreate c)) = OpCreate (ACreate (CreateAudit_SetUser now user c))"
| "SetUser now user (OpCreate (ACreateMs c)) = OpCreate (ACreateMs (CreateAuditMs_SetUser now user c))"
| "SetUser now user (OpUpdate (AUpdate c)) = OpUpdate (AUpdate (UpdateAudit_SetUser now user c))"
| "SetUser now user (OpUpdate (AUpdateMs c)) = OpUpdate (AUpdateMs (UpdateAuditMs_SetUser now user c))"
| "SetUser now user (OpDelete (ADelete c)) = OpDelete (ADelete (DeleteAudit_SetUser now user c))"
| "SetUser now user (OpDelete (ADeleteMs c)) = OpDelete (ADeleteMs (DeleteAuditMs_SetUser now user c))"

record any_auditor =
  aud_op :: "OperatorCarrier option"
  aud_tenant :: "TenantAudit option"

fun CtxAudit :: "'x ctx \<Rightarrow> clock \<Rightarrow> any_auditor list \<Rightarrow> go_error option \<times> any_auditor list" where
  "CtxAudit ctx clk [] = (None, [])"
| "CtxAudit ctx clk (v # vs) =
     (case (case aud_op v of
              None \<Rightarrow> (None, v)
            | Some p \<Rightarrow>
                (case CtxGetOperator ctx of
                   None \<Rightarrow> (Some no_user, v)
                 | Some u \<Rightarrow> (None, v\<lparr>aud_op := Some (SetUser (clk 0) u p)\<rparr>))) of
        (Some err, v) \<Rightarrow> (Some err, v # vs)
      | (None, v) \<Rightarrow>
          (case (case aud_tenant v of
                   None \<Rightarrow> (None, v)
                 | Some tc \<Rightarrow> (case fill_tenant ctx tc of (r, tc) \<Rightarrow> (r, v\<lparr>aud_tenant := Some tc\<rparr>))) of
             (Some err, v) \<Rightarrow> (Some err, v # vs)
           | (None, v) \<Rightarrow> (case CtxAudit ctx (later clk) vs of (r, vs) \<Rightarrow> (r, v # vs))))"

section \<open>Repository options\<close>

abbreviation (input) FixedStrategyNone :: string where "FixedStrategyNone \<equiv> ''none''"
abbreviation (input) FixedStrategyBackoff :: string where "FixedStrategyBackoff \<equiv> ''backoff''"
abbreviation (input) UpdateRunContextAlways :: string where "UpdateRunContextAlways \<equiv> ''always''"
abbreviation (input) DataIsolationTenant :: string where "DataIsolationTenant \<equiv> ''tenant''"
abbreviation (input) DataIsolationUser :: string where "DataIsolationUser \<equiv> ''user''"
abbreviation (input) DataIsolationApp :: string where "DataIsolationApp \<equiv> ''app''"
abbreviation (input) SoftDeleteDisable :: string where "SoftDeleteDisable \<equiv> ''disable''"

record RepoOpt =
  DeployIsolation :: string
  DataIsolation :: string
  UpdateRunContext :: string
  TryFixSyncDelay :: string
  SoftDelete :: string

definition zero_RepoOpt :: RepoOpt where
  "zero_RepoOpt = \<lparr>DeployIsolation = [], DataIsolation = [], UpdateRunContext = [], TryFixSyncDelay = [], SoftDelete = []\<rparr>"

definition CtxKeyRepoOpt :: ctx_key where
  "CtxKeyRepoOpt = CtxKey ''model.CtxKey'' ''repo-opt''"

text \<open>
  The key has a type of package \<open>model\<close>, whose functions store nothing but a \<open>RepoOpt\<close> under it;
  a value of another type, on which the type assertion of the code panics, is not modelled.
\<close>

type_synonym repo_ctx = "RepoOpt ctx"

definition CtxRepoOptOrNew :: "repo_ctx \<Rightarrow> RepoOpt" where
  "CtxRepoOptOrNew ctx =
     (case ctx_vals ctx CtxKeyRepoOpt of Some (VOther o1) \<Rightarrow> o1 | _ \<Rightarrow> zero_RepoOpt)"

definition SetCtxRepoDeployIsolation :: "repo_ctx \<Rightarrow> string \<Rightarrow> repo_ctx" where
  "SetCtxRepoDeployIsolation ctx di =
     WithValue ctx CtxKeyRepoOpt (VOther ((CtxRepoOptOrNew ctx)\<lparr>DeployIsolation := di\<rparr>))"

definition SetCtxRepoDataIsolation :: "repo_ctx \<Rightarrow> string \<Rightarrow> repo_ctx" where
  "SetCtxRepoDataIsolation ctx di =
     WithValue ctx CtxKeyRepoOpt (VOther ((CtxRepoOptOrNew ctx)\<lparr>DataIsolation := di\<rparr>))"

definition SetCtxRepoUpdateRunContext :: "repo_ctx \<Rightarrow> string \<Rightarrow> repo_ctx" where
  "SetCtxRepoUpdateRunContext ctx urc =
     WithValue ctx CtxKeyRepoOpt (VOther ((CtxRepoOptOrNew ctx)\<lparr>UpdateRunContext := urc\<rparr>))"

definition SetCtxSoftDelete :: "repo_ctx \<Rightarrow> string \<Rightarrow> repo_ctx" where
  "SetCtxSoftDelete ctx sd =
     WithValue ctx CtxKeyRepoOpt (VOther ((CtxRepoOptOrNew ctx)\<lparr>SoftDelete := sd\<rparr>))"

definition SetCtxFixedStrategy :: "repo_ctx \<Rightarrow> string \<Rightarrow> repo_ctx" where
  "SetCtxFixedStrategy ctx fs =
     WithValue ctx CtxKeyRepoOpt (VOther ((CtxRepoOptOrNew ctx)\<lparr>TryFixSyncDelay := fs\<rparr>))"

definition CtxMergeRepoOpt :: "repo_ctx \<Rightarrow> RepoOpt option \<Rightarrow> RepoOpt" where
  "CtxMergeRepoOpt ctx merge =
     (let ctxOpt = CtxRepoOptOrNew ctx in
      case merge of
        None \<Rightarrow> ctxOpt
      | Some m \<Rightarrow>
          let ctxOpt = (if DataIsolation ctxOpt = [] then ctxOpt\<lparr>DataIsolation := DataIsolation m\<rparr> else ctxOpt);
              ctxOpt = (if DeployIsolation ctxOpt = [] then ctxOpt\<lparr>DeployIsolation := DeployIsolation m\<rparr> else ctxOpt);
              ctxOpt = (if UpdateRunContext ctxOpt = [] then ctxOpt\<lparr>UpdateRunContext := UpdateRunContext m\<rparr> else ctxOpt);
              ctxOpt = (if SoftDelete ctxOpt = [] then ctxOpt\<lparr>SoftDelete := SoftDelete m\<rparr> else ctxOpt);
              ctxOpt = (if TryFixSyncDelay ctxOpt = [] then ctxOpt\<lparr>TryFixSyncDelay := TryFixSyncDelay m\<rparr> else ctxOpt)
          in ctxOpt)"

section \<open>Optimistic-lock helper\<close>

record UpdatesResult =
  HasOriginalUpdate :: bool
  OriginalUpdatedAt :: "raw_time option"

definition UpdateLockAndAudit ::
    "'x ctx \<Rightarrow> time \<Rightarrow> ('p, 'b) entity \<Rightarrow> RepoOpt option \<Rightarrow> UpdatesResult result \<times> ('p, 'b) entity" where
  "UpdateLockAndAudit ctx now doc opt =
     (let opt = (case opt of None \<Rightarrow> zero_RepoOpt | Some o1 \<Rightarrow> o1);
          (originalUpdated, originalRawUpdated) =
            (case ent_update doc of
               None \<Rightarrow> (zero_time, None)
             | Some ur \<Rightarrow> (snd (GetUpdateInfo ur), Some (GetUpdateTimeRaw ur)));
          finish = (\<lambda>doc. (Inr (if \<not> IsZero originalUpdated
                                then \<lparr>HasOriginalUpdate = True, OriginalUpdatedAt = originalRawUpdated\<rparr>
                                else \<lparr>HasOriginalUpdate = False, OriginalUpdatedAt = None\<rparr>), doc))
      in if UpdateRunContext opt = UpdateRunContextAlways then
           (case CtxUpdateAuditAndEnv ctx now doc of
              (Some err, doc) \<Rightarrow> (Inl (WrapError ''audit env failed: '' err []), doc)
            | (None, doc) \<Rightarrow> finish doc)
         else
           (case CtxUpdateAudit ctx now doc of
              (Some err, doc) \<Rightarrow> (Inl (WrapError ''audit failed: '' err []), doc)
            | (None, doc) \<Rightarrow> finish doc))"

section \<open>Paging and sorting\<close>

record Pager =
  PageSize :: int
  PageNum :: int
  PageToken :: string

definition GetPageInfo :: "Pager \<Rightarrow> int \<times> int \<times> string" where
  "GetPageInfo p = (PageSize p, PageNum p, PageToken p)"

definition SetPageNumber :: "int \<Rightarrow> Pager \<Rightarrow> Pager" where
  "SetPageNumber n p = p\<lparr>PageNum := n\<rparr>"

definition InitialDefaultVal :: "Pager \<Rightarrow> Pager" where
  "InitialDefaultVal p = (if PageSize p = 0 then p\<lparr>PageSize := 20\<rparr> else p)"

record 'e PagedResult =
  paged_Rows :: "'e list"
  TotalCount :: int

record 'e FeedResult =
  feed_Rows :: "'e list"
  NextPageToken :: string

record SortAble =
  OrderBy :: string

record SortPair =
  SortField :: string
  IsDescending :: bool

definition sort_pair :: "string \<Rightarrow> SortPair" where
  "sort_pair aField =
     (let nameAndDesc = Split (TrimSpace aField) '' '' in
      \<lparr>SortField = nameAndDesc ! 0,
       IsDescending = (length nameAndDesc > 1 \<and> nameAndDesc ! 1 = ''desc'')\<rparr>)"

definition GetSortInfo :: "SortAble \<Rightarrow> SortPair list" where
  "GetSortInfo s = (if OrderBy s = [] then [] else map sort_pair (Split (OrderBy s) '',''))"

lemmas audit_defs =
  CreateAudit_SetCreator_def CreateAudit_SetUser_def CreateAuditMs_SetCreator_def CreateAuditMs_SetUser_def
  CreateAudit_GetCreatorInfo_def CreateAuditMs_GetCreatorInfo_def
  CreateAudit_GetCreateTimeRaw_def CreateAuditMs_GetCreateTimeRaw_def
  UpdateAudit_SetUpdater_def UpdateAudit_SetUser_def UpdateAuditMs_SetUpdater_def UpdateAuditMs_SetUser_def
  UpdateAudit_GetUpdateInfo_def UpdateAuditMs_GetUpdateInfo_def
  UpdateAudit_GetUpdateTimeRaw_def UpdateAuditMs_GetUpdateTimeRaw_def
  DeleteAudit_SetDeleter_def DeleteAudit_SetUser_def DeleteAuditMs_SetDeleter_def DeleteAuditMs_SetUser_def
  DeleteAudit_GetDeleteInfo_def DeleteAuditMs_GetDeleteInfo_def
  DeleteAudit_GetDeleteTimeRaw_def DeleteAuditMs_GetDeleteTimeRaw_def
  SetTenantID_def SetAppID_def GetTenantID_def GetAppID_def

section \<open>Codes of the errors the repository returns\<close>

lemma CodeOf_NewValidationError [simp]: "CodeOf (Some (NewValidationError m xs c)) = ErrCodeValidate"
  by (rule CodeOf_here) (simp_all add: NewValidationError_def)

lemma CodeOf_NewResourceError [simp]:
  "code \<noteq> 0 \<Longrightarrow> CodeOf (Some (NewResourceError code m r c)) = code"
  by (rule CodeOf_here) (simp_all add: NewResourceError_def Let_def)

lemma CodeOf_NotFound [simp]: "CodeOf (Some (NewResourceNotFoundError r c)) = ErrCodeNotFound"
  by (simp add: NewResourceNotFoundError_def)

lemma CodeOf_Conflict [simp]: "CodeOf (Some (NewResourceConflictError r c)) = ErrCodeConflict"
  by (simp add: NewResourceConflictError_def)

section \<open>Contexts for tests\<close>

text \<open>\<open>model/test_util.go\<close>; \<open>context.TODO()\<close> is as empty as the background context.\<close>

record ByteReqInfo =
  info_UID :: string
  info_TID :: string
  info_AID :: string
  info_TraceID :: string
  info_RequestID :: string

definition NewByteReqInfo :: ByteReqInfo where
  "NewByteReqInfo = \<lparr>info_UID = ''vinci'', info_TID = ''tenant'', info_AID = ''app'', info_TraceID = ''trace_id'',
     info_RequestID = ''request_id''\<rparr>"

definition GenUserInfoContext :: "ByteReqInfo \<Rightarrow> 'x ctx" where
  "GenUserInfoContext info =
     (let ctx = Background;
          ctx = CtxSetTraceID ctx (info_TraceID info);
          ctx = CtxSetRequestID ctx (info_RequestID info);
          ctx = CtxSetOperator ctx (info_UID info);
          ctx = CtxSetTenantID ctx (info_TID info);
          ctx = CtxSetAppID ctx (info_AID info)
      in ctx)"

lemma GenUserInfoContext_values [simp]:
  "CtxGetOperator (GenUserInfoContext info) = Some (info_UID info)"
  "CtxGetTenantID (GenUserInfoContext info) = Some (info_TID info)"
  "CtxGetAppID (GenUserInfoContext info) = Some (info_AID info)"
  "CtxGetTraceID (GenUserInfoContext info) = Some (info_TraceID info)"
  "CtxGetRequestID (GenUserInfoContext info) = Some (info_RequestID info)"
  by (simp_all add: GenUserInfoContext_def ctx_named_defs Let_def)

end
