(* ===== verification/Mongox_Value.thy ===== *)
theory Mongox_Value
  imports Model_Audit "HOL-Library.AList"
begin

text \<open>
  The reflection half of \<open>model/mongox/mongox.go\<close>: Go types and values as far as package
  \<open>reflect\<close> is asked about them, the payload of a patch, the search for a field by its
  BSON name, and feed tokens. A structure value lists its fields with the exported flag and the
  \<open>bson\<close> tag. A \<open>time.Time\<close> is a value of its own; for \<open>reflect\<close> it is a structure all of
  whose fields are unexported. The text form of floats and of times is a parameter.
\<close>

section \<open>Types and values\<close>

record struct_field =
  sf_Name :: string
  sf_Exported :: bool
  sf_Tag :: "string option"

datatype go_type =
    TyString
  | TyInt nat
  | TyUint nat
  | TyFloat nat
  | TyBool
  | TyTime
  | TyPtr go_type
  | TyStruct string "(struct_field \<times> go_type) list"
  | TyOther string

datatype go_val =
    GString string
  | GInt int
  | GUint nat
  | GFloat "64 word"
  | GBool bool
  | GTime time
  | GNil go_type
  | GPtr go_val
  | GStruct "(struct_field \<times> go_val) list"
  | GOther bool string

text \<open>\<open>reflect.Value.IsZero\<close>; \<open>GOther\<close> (slices, maps and the like) carries the answer.\<close>

fun go_IsZero :: "go_val \<Rightarrow> bool" where
  "go_IsZero (GString s) \<longleftrightarrow> s = []"
| "go_IsZero (GInt i) \<longleftrightarrow> i = 0"
| "go_IsZero (GUint n) \<longleftrightarrow> n = 0"
| "go_IsZero (GFloat w) \<longleftrightarrow> w = 0"
| "go_IsZero (GBool b) \<longleftrightarrow> \<not> b"
| "go_IsZero (GTime t) \<longleftrightarrow> IsZero t"
| "go_IsZero (GNil T) \<longleftrightarrow> True"
| "go_IsZero (GPtr v) \<longleftrightarrow> False"
| "go_IsZero (GStruct fs) \<longleftrightarrow> list_all (\<lambda>(f, v). go_IsZero v) fs"
| "go_IsZero (GOther z s) \<longleftrightarrow> z"

section \<open>Patch payloads\<close>

definition genDbKey :: "string \<Rightarrow> string \<Rightarrow> string" where
  "genDbKey parent fieldKey = (if parent = [] then fieldKey else parent @ ''.'' @ fieldKey)"

text \<open>The raw BSON name of a field: its tag, or its lower-case name.\<close>

definition raw_bson_name :: "struct_field \<Rightarrow> string" where
  "raw_bson_name f = (case sf_Tag f of Some mongoTag \<Rightarrow> mongoTag | None \<Rightarrow> ToLower (sf_Name f))"

definition tag_name :: "struct_field \<Rightarrow> string" where
  "tag_name f = Split (raw_bson_name f) '','' ! 0"

text \<open>
  A payload \<open>bson.M\<close> is an association list with \<open>AList.update\<close> for assignment.
  \<open>patch_struct\<close> is the body of \<open>BuildPatchPayloadWithParent\<close> on a structure that is not behind a
  pointer; \<open>copy_payload\<close> is its inner loop over the payload of an embedded structure.
\<close>

type_synonym payload = "(string \<times> go_val) list"

fun copy_payload :: "payload \<Rightarrow> payload \<Rightarrow> payload" where
  "copy_payload [] out = out"
| "copy_payload ((k, v) # kvs) out = copy_payload kvs (AList.update k v out)"

fun patch_struct :: "(struct_field \<times> go_val) list \<Rightarrow> string \<Rightarrow> payload \<Rightarrow> payload" where
  "patch_struct [] parent out = out"
| "patch_struct ((f, v) # fs) parent out =
     patch_struct fs parent
       (if \<not> sf_Exported f then out
        else if go_IsZero v then out
        else
          let name = tag_name f in
          if name = ''-'' then out
          else
            let name = (if parent \<noteq> ''inline'' then genDbKey parent name else name) in
            (case v of
               GStruct gs \<Rightarrow> copy_payload (patch_struct gs name []) out
             | GTime t \<Rightarrow> copy_payload [] out
             | _ \<Rightarrow> AList.update name v out))"

text \<open>\<open>None\<close> is the panic of reading a field through a nil pointer.\<close>

definition BuildPatchPayloadWithParent :: "go_val \<Rightarrow> string \<Rightarrow> payload option" where
  "BuildPatchPayloadWithParent v parent =
     (case v of
        GStruct fs \<Rightarrow> Some (patch_struct fs parent [])
      | GPtr (GStruct fs) \<Rightarrow> Some (patch_struct fs parent [])
      | GNil (TyStruct n fs) \<Rightarrow> if list_ex (\<lambda>(f, T). sf_Exported f) fs then None else Some []
      | _ \<Rightarrow> Some [])"

definition BuildPatchPayload :: "go_val \<Rightarrow> payload option" where
  "BuildPatchPayload ptr = BuildPatchPayloadWithParent ptr []"

section \<open>Fields by BSON name\<close>

text \<open>Name, whether the field is inlined, whether it is skipped.\<close>

definition parseBSONFieldName :: "struct_field \<Rightarrow> string \<times> bool \<times> bool" where
  "parseBSONFieldName f =
     (let parts = Split (raw_bson_name f) '','';
          name = parts ! 0
      in if name = ''-'' then ([], False, True)
         else (name, ''inline'' \<in> set (tl parts) \<or> name = ''inline'', False))"

text \<open>The loops \<open>for Kind() == Ptr\<close>: through pointers to the type or value behind them.\<close>

fun ty_base :: "go_type \<Rightarrow> go_type" where
  "ty_base (TyPtr T) = ty_base T"
| "ty_base T = T"

fun findBSONFieldType :: "go_type \<Rightarrow> string \<Rightarrow> go_type option"
  and find_field_type :: "(struct_field \<times> go_type) list \<Rightarrow> string \<Rightarrow> go_type option" where
  "findBSONFieldType (TyPtr T) cursorField = findBSONFieldType T cursorField"
| "findBSONFieldType (TyStruct n fs) cursorField = find_field_type fs cursorField"
| "findBSONFieldType T cursorField = None"
| "find_field_type [] cursorField = None"
| "find_field_type ((f, T) # fs) cursorField =
     (if \<not> sf_Exported f then find_field_type fs cursorField
      else
        (case parseBSONFieldName f of
           (name, inline, skip) \<Rightarrow>
             if skip then find_field_type fs cursorField
             else if inline then
               (case findBSONFieldType T cursorField of
                  Some R \<Rightarrow> Some R
                | None \<Rightarrow> find_field_type fs cursorField)
             else if name = cursorField then Some T
             else find_field_type fs cursorField))"

fun findBSONFieldValue :: "go_val \<Rightarrow> string \<Rightarrow> go_val option"
  and find_field_value :: "(struct_field \<times> go_val) list \<Rightarrow> string \<Rightarrow> go_val option" where
  "findBSONFieldValue (GPtr v) cursorField = findBSONFieldValue v cursorField"
| "findBSONFieldValue (GStruct fs) cursorField = find_field_value fs cursorField"
| "findBSONFieldValue v cursorField = None"
| "find_field_value [] cursorField = None"
| "find_field_value ((f, v) # fs) cursorField =
     (if \<not> sf_Exported f then find_field_value fs cursorField
      else
        (case parseBSONFieldName f of
           (name, inline, skip) \<Rightarrow>
             if skip then find_field_value fs cursorField
             else if inline then
               (case findBSONFieldValue v cursorField of
                  Some r \<Rightarrow> Some r
                | None \<Rightarrow> find_field_value fs cursorField)
             else if name = cursorField then Some v
             else find_field_value fs cursorField))"

section \<open>Feed tokens\<close>

record text_conv =
  conv_FormatTime :: "time \<Rightarrow> string"
  conv_ParseTime :: "string \<Rightarrow> time result"
  conv_SprintFloat :: "64 word \<Rightarrow> string"
  conv_ParseFloat :: "string \<Rightarrow> nat \<Rightarrow> 64 word result"
  conv_SprintOther :: "go_val \<Rightarrow> string"
  conv_TypeString :: "go_type \<Rightarrow> string"

text \<open>The \<open>strconv.NumError\<close> of a token; escapes inside the quoted token are left out.\<close>

definition num_error_error :: "string \<Rightarrow> string \<Rightarrow> num_error \<Rightarrow> go_error" where
  "num_error_error fn s e =
     OpaqueError (''strconv.'' @ fn @ '': parsing '' @ [CHR 0x22] @ s @ [CHR 0x22] @ '': '' @
       (case e of ErrSyntax \<Rightarrow> ''invalid syntax'' | ErrRange \<Rightarrow> ''value out of range''))"

definition parseFeedTokenByType :: "text_conv \<Rightarrow> string \<Rightarrow> go_type \<Rightarrow> go_val result" where
  "parseFeedTokenByType cv pageToken fieldType =
     (let fieldType = ty_base fieldType in
      case fieldType of
        TyTime \<Rightarrow>
          (case conv_ParseTime cv pageToken of
             Inl err \<Rightarrow> Inl (NewValidationError ''parse time feed token failed'' [] (Some err))
           | Inr v \<Rightarrow> Inr (GTime v))
      | TyString \<Rightarrow> Inr (GString pageToken)
      | TyInt bits \<Rightarrow>
          (case ParseInt pageToken bits of
             Inl err \<Rightarrow> Inl (NewValidationError ''parse int feed token failed'' []
                              (Some (num_error_error ''ParseInt'' pageToken err)))
           | Inr v \<Rightarrow> Inr (GInt v))
      | TyUint bits \<Rightarrow>
          (case ParseUint pageToken bits of
             Inl err \<Rightarrow> Inl (NewValidationError ''parse uint feed token failed'' []
                              (Some (num_error_error ''ParseUint'' pageToken err)))
           | Inr v \<Rightarrow> Inr (GUint v))
      | TyFloat bits \<Rightarrow>
          (case conv_ParseFloat cv pageToken bits of
             Inl err \<Rightarrow> Inl (NewValidationError ''parse float feed token failed'' [] (Some err))
           | Inr v \<Rightarrow> Inr (GFloat v))
      | T \<Rightarrow> Inl (NewValidationError (''unsupported cursor field type '' @ conv_TypeString cv T) [] None))"

text \<open>\<open>fmt.Sprint\<close> of a value.\<close>

fun Sprint :: "text_conv \<Rightarrow> go_val \<Rightarrow> string" where
  "Sprint cv (GString s) = s"
| "Sprint cv (GInt i) = FormatInt i"
| "Sprint cv (GUint n) = FormatUint n"
| "Sprint cv (GFloat w) = conv_SprintFloat cv w"
| "Sprint cv (GBool b) = (if b then ''true'' else ''false'')"
| "Sprint cv (GNil T) = ''<nil>''"
| "Sprint cv v = conv_SprintOther cv v"

definition token_of_value :: "text_conv \<Rightarrow> go_val \<Rightarrow> string" where
  "token_of_value cv v = (case v of GTime t \<Rightarrow> conv_FormatTime cv t | _ \<Rightarrow> Sprint cv v)"

end
