(* ===== verification/Mongox_Repo.thy ===== *)
theory Mongox_Repo
  imports Mongox_Value
begin

text \<open>
  The repository of \<open>model/mongox/mongox.go\<close>: \<open>CollectionLib\<close>, its filters with the injected
  isolation and soft-delete conditions, queries, pages and feeds, and the operations that write.

  The MongoDB driver and the retry package are not part of the repository: \<open>collection\<close> is a
  record of the calls the code makes, over an arbitrary type \<open>'c\<close> of collection states. A
  filter is the \<open>bson.M\<close> the code builds, an association list from keys to conditions, and an
  update is its \<open>$set\<close> and \<open>$unset\<close> documents. What the calls do is stated in \<open>Mongox_Store\<close>.
  An entity is a pointer to a structure of a type \<open>T\<close>; a filter map the caller passes is changed
  in place, which shows in the returned inputs of the page, feed and patch operations.
\<close>

section \<open>Entities as structures\<close>

type_synonym fields = "(struct_field \<times> go_val) list"
type_synonym doc = "(go_val, fields) entity"

definition fld :: "string \<Rightarrow> string \<Rightarrow> struct_field" where
  "fld name tag = \<lparr>sf_Name = name, sf_Exported = True, sf_Tag = Some tag\<rparr>"

text \<open>The audit structures with the tags of \<open>model/audit.go\<close>.\<close>

fun create_struct :: "CreateAuditor \<Rightarrow> go_val" where
  "create_struct (ACreate c) = GStruct
     [(fld ''CreatedAt'' ''created_at,omitempty'', GTime (CreatedAt c)),
      (fld ''CreatedBy'' ''created_by,omitempty'', GString (CreatedBy c))]"
| "create_struct (ACreateMs c) = GStruct
     [(fld ''CreatedAt'' ''created_at,omitempty'', GInt (CreatedAtMs c)),
      (fld ''CreatedBy'' ''created_by,omitempty'', GString (CreatedByMs c))]"

fun update_struct :: "UpdateAuditor \<Rightarrow> go_val" where
  "update_struct (AUpdate c) = GStruct
     [(fld ''UpdatedAt'' ''updated_at,omitempty'', GTime (UpdatedAt c)),
      (fld ''UpdatedBy'' ''updated_by,omitempty'', GString (UpdatedBy c))]"
| "update_struct (AUpdateMs c) = GStruct
     [(fld ''UpdatedAt'' ''updated_at,omitempty'', GInt (UpdatedAtMs c)),
      (fld ''UpdatedBy'' ''updated_by,omitempty'', GString (UpdatedByMs c))]"

fun delete_struct :: "DeleteAuditor \<Rightarrow> go_val" where
  "delete_struct (ADelete c) = GStruct
     [(fld ''DeletedAt'' ''deleted_at,omitempty'', GTime (DeletedAt c)),
      (fld ''DeletedBy'' ''deleted_by,omitempty'', GString (DeletedBy c))]"
| "delete_struct (ADeleteMs c) = GStruct
     [(fld ''DeletedAt'' ''deleted_at,omitempty'', GInt (DeletedAtMs c)),
      (fld ''DeletedBy'' ''deleted_by,omitempty'', GString (DeletedByMs c))]"

definition tenant_struct :: "TenantAudit \<Rightarrow> go_val" where
  "tenant_struct c = GStruct
     [(fld ''TenantID'' ''tenant_id,omitempty'', GString (TenantID c)),
      (fld ''AppID'' ''app_id,omitempty'', GString (AppID c))]"

text \<open>
  The structure behind an entity: the identifier and the embedded audits, all inlined, then the
  other fields. With a \<open>CreateAudit\<close> the first field is the base \<open>Entity[P]\<close> of \<open>model/types.go\<close>.
\<close>

definition base_struct :: "doc \<Rightarrow> fields" where
  "base_struct e =
     (let idf = (fld ''ID'' ''_id,omitempty'', ent_ID e) in
      case ent_create e of
        Some (ACreate c) \<Rightarrow>
          [(fld ''Entity'' ''inline'', GStruct [idf, (fld ''CreateAudit'' ''inline'', create_struct (ACreate c))])]
      | Some (ACreateMs c) \<Rightarrow> [idf, (fld ''CreateAuditMs'' ''inline'', create_struct (ACreateMs c))]
      | None \<Rightarrow> [idf])"

definition entity_struct :: "doc \<Rightarrow> go_val" where
  "entity_struct e = GPtr (GStruct
     (base_struct e
      @ (case ent_update e of None \<Rightarrow> [] | Some u \<Rightarrow> [(fld ''UpdateAudit'' ''inline'', update_struct u)])
      @ (case ent_delete e of None \<Rightarrow> [] | Some d \<Rightarrow> [(fld ''DeleteAudit'' ''inline'', delete_struct d)])
      @ (case ent_tenant e of None \<Rightarrow> [] | Some t \<Rightarrow> [(fld ''TenantAudit'' ''inline'', tenant_struct t)])
      @ ent_body e))"

section \<open>Filters, updates and the driver\<close>

datatype cond =
    CEq go_val
  | CExists bool
  | CIn "go_val list"
  | CGt go_val
  | CLt go_val
  | CAnd "(string \<times> cond) list list"
  | COther string

type_synonym bfilter = "(string \<times> cond) list"

record update_doc =
  upd_set :: "payload option"
  upd_unset :: "payload option"

record find_opts =
  fo_limit :: "int option"
  fo_skip :: "int option"
  fo_sort :: "(string \<times> int) list"

definition no_opts :: find_opts where
  "no_opts = \<lparr>fo_limit = None, fo_skip = None, fo_sort = []\<rparr>"

text \<open>
  \<open>cls_Find\<close> is \<open>Find\<close> followed by \<open>cur.All\<close>: the outer result is that of the query, the inner one
  that of decoding. \<open>cls_FindOne\<close> is \<open>FindOne(...).Decode\<close>, with \<open>mongo.ErrNoDocuments\<close> as \<open>Inr None\<close>.
  \<open>cls_ReplaceOne\<close> returns the matched, modified and upserted counts. \<open>cls_retry_Do\<close> is \<open>retry.Do\<close>
  with \<open>Attempts\<close>, \<open>RetryIf\<close> and \<open>LastErrorOnly(true)\<close>, on closures over the variable \<open>ret\<close> and the
  collection. The \<open>fmt\<close> functions are the \<open>%v\<close> renderings of driver types.
\<close>

record 'c collection =
  cls_Name :: string
  cls_Find :: "'c \<Rightarrow> bfilter \<Rightarrow> find_opts \<Rightarrow> doc list result result \<times> 'c"
  cls_CountDocuments :: "'c \<Rightarrow> bfilter \<Rightarrow> int result \<times> 'c"
  cls_FindOne :: "'c \<Rightarrow> bfilter \<Rightarrow> doc option result \<times> 'c"
  cls_InsertOne :: "'c \<Rightarrow> doc \<Rightarrow> go_error option \<times> 'c"
  cls_InsertMany :: "'c \<Rightarrow> doc list \<Rightarrow> go_error option \<times> 'c"
  cls_ReplaceOne :: "'c \<Rightarrow> bfilter \<Rightarrow> doc \<Rightarrow> bool \<Rightarrow> (int \<times> int \<times> int) result \<times> 'c"
  cls_UpdateOne :: "'c \<Rightarrow> bfilter \<Rightarrow> update_doc \<Rightarrow> (int \<times> int) result \<times> 'c"
  cls_UpdateMany :: "'c \<Rightarrow> bfilter \<Rightarrow> update_doc \<Rightarrow> (int \<times> int) result \<times> 'c"
  cls_DeleteOne :: "'c \<Rightarrow> bfilter \<Rightarrow> int result \<times> 'c"
  cls_DeleteMany :: "'c \<Rightarrow> bfilter \<Rightarrow> int result \<times> 'c"
  cls_IsDuplicateKeyError :: "go_error \<Rightarrow> bool"
  cls_retry_Do :: "nat \<Rightarrow> (go_error \<Rightarrow> bool) \<Rightarrow> (doc option \<times> 'c \<Rightarrow> go_error option \<times> (doc option \<times> 'c))
                   \<Rightarrow> doc option \<times> 'c \<Rightarrow> go_error option \<times> (doc option \<times> 'c)"
  cls_fmt_cond :: "cond \<Rightarrow> string"
  cls_fmt_filter :: "bfilter \<Rightarrow> string"
  cls_fmt_doc :: "doc \<Rightarrow> string"
  cls_conv :: text_conv

section \<open>CollectionLib\<close>

text \<open>
  \<open>lib_zero\<close> is \<open>gtx.Zero[T]()\<close>, of which the code asks only which interfaces \<open>T\<close> implements;
  \<open>lib_P\<close> and \<open>lib_T\<close> are the type arguments.
\<close>

record 'c CollectionLib =
  lib_cls :: "'c collection"
  lib_opt :: "RepoOpt option"
  lib_idKey :: string
  lib_zero :: doc
  lib_P :: go_type
  lib_T :: go_type

text \<open>
  The base structures \<open>NewCollectionLib\<close> looks for, by name and fields. Convertibility of
  structures ignores tags.
\<close>

definition sfield :: "string \<Rightarrow> struct_field" where
  "sfield n = \<lparr>sf_Name = n, sf_Exported = True, sf_Tag = None\<rparr>"

definition base_type :: "string \<Rightarrow> (string \<times> go_type) list \<Rightarrow> go_type" where
  "base_type n fs = TyStruct n (map (\<lambda>(f, T). (sfield f, T)) fs)"

definition CreateAudit_type :: go_type where
  "CreateAudit_type = base_type ''CreateAudit'' [(''CreatedAt'', TyTime), (''CreatedBy'', TyString)]"

definition base_checks :: "go_type \<Rightarrow> string \<Rightarrow> go_type list" where
  "base_checks P pname =
     [base_type (''Entity['' @ pname @ '']'') [(''ID'', P), (''CreateAudit'', CreateAudit_type)],
      CreateAudit_type,
      base_type ''CreateAuditMs'' [(''CreatedAt'', TyInt 64), (''CreatedBy'', TyString)],
      base_type ''UpdateAudit'' [(''UpdatedAt'', TyTime), (''UpdatedBy'', TyString)],
      base_type ''UpdateAuditMs'' [(''UpdatedAt'', TyInt 64), (''UpdatedBy'', TyString)],
      base_type ''DeleteAudit'' [(''DeletedAt'', TyTime), (''DeletedBy'', TyString)],
      base_type ''DeleteAuditMs'' [(''DeletedAt'', TyInt 64), (''DeletedBy'', TyString)],
      base_type ''TenantAudit'' [(''TenantID'', TyString), (''AppID'', TyString)]]"

fun erase_tags :: "go_type \<Rightarrow> go_type" where
  "erase_tags (TyStruct n fs) = TyStruct n (map (\<lambda>(f, T). (f\<lparr>sf_Tag := None\<rparr>, erase_tags T)) fs)"
| "erase_tags (TyPtr T) = TyPtr (erase_tags T)"
| "erase_tags T = T"

fun ConvertibleTo :: "go_type \<Rightarrow> go_type \<Rightarrow> bool" where
  "ConvertibleTo (TyStruct n fs) (TyStruct m gs) \<longleftrightarrow> erase_tags (TyStruct [] fs) = erase_tags (TyStruct [] gs)"
| "ConvertibleTo T U \<longleftrightarrow> False"

fun type_Name :: "go_type \<Rightarrow> string" where
  "type_Name (TyStruct n fs) = n"
| "type_Name T = []"

text \<open>The panic of the first field that embeds a base structure without an \<open>inline\<close> tag.\<close>

fun check_inline :: "go_type list \<Rightarrow> string \<Rightarrow> (struct_field \<times> go_type) list \<Rightarrow> string option" where
  "check_inline checks tname [] = None"
| "check_inline checks tname ((f, T) # fs) =
     (case List.find (\<lambda>v. ConvertibleTo T v
              \<and> \<not> Contains (case sf_Tag f of Some t \<Rightarrow> t | None \<Rightarrow> []) ''inline'') checks of
        Some v \<Rightarrow> Some (''entity['' @ tname @ ''] implement base['' @ type_Name v
                        @ ''], should tag it with '' @ [CHR 0x27] @ ''bson: inline'' @ [CHR 0x27])
      | None \<Rightarrow> check_inline checks tname fs)"

text \<open>A panic is \<open>Inl\<close> with its message; \<open>NumField\<close> panics on a type that is no structure.\<close>

definition NewCollectionLib ::
    "'c collection option \<Rightarrow> doc \<Rightarrow> go_type \<Rightarrow> string \<Rightarrow> go_type \<Rightarrow> string + 'c CollectionLib" where
  "NewCollectionLib cls zero P pname T =
     (case cls of
        None \<Rightarrow> Inl ''cls should not be empty''
      | Some cls \<Rightarrow>
          (case (case T of TyPtr U \<Rightarrow> U | _ \<Rightarrow> T) of
             TyStruct n fs \<Rightarrow>
               (case check_inline (base_checks P pname) n fs of
                  Some msg \<Rightarrow> Inl msg
                | None \<Rightarrow>
                    Inr \<lparr>lib_cls = cls, lib_opt = Some zero_RepoOpt, lib_idKey = ''_id'',
                         lib_zero = zero, lib_P = P, lib_T = T\<rparr>)
           | _ \<Rightarrow> Inl ''reflect: NumField of non-struct type''))"

definition WithRepoOpt :: "'c CollectionLib \<Rightarrow> RepoOpt option \<Rightarrow> 'c CollectionLib" where
  "WithRepoOpt l opt = l\<lparr>lib_opt := opt\<rparr>"

definition GetMergedRepoOpt :: "'c CollectionLib \<Rightarrow> repo_ctx \<Rightarrow> RepoOpt" where
  "GetMergedRepoOpt l ctx = CtxMergeRepoOpt ctx (lib_opt l)"

definition injectIsolationCond :: "'c CollectionLib \<Rightarrow> repo_ctx \<Rightarrow> bfilter \<Rightarrow> bfilter result" where
  "injectIsolationCond l ctx filter1 =
     (let di = DataIsolation (GetMergedRepoOpt l ctx) in
      if di = DataIsolationUser then
        (if ent_create (lib_zero l) \<noteq> None then
           (case CtxGetOperator ctx of
              None \<Rightarrow> Inl (NewValidationError ''there is no user id in context'' [] None)
            | Some uid \<Rightarrow> Inr (AList.update ''created_by'' (CEq (GString uid)) filter1))
         else Inr filter1)
      else if di = DataIsolationTenant then
        (if ent_tenant (lib_zero l) \<noteq> None then
           (case CtxGetTenantID ctx of
              None \<Rightarrow> Inl (NewValidationError ''there is no tenant id in context'' [] None)
            | Some tid \<Rightarrow> Inr (AList.update ''tenant_id'' (CEq (GString tid)) filter1))
         else Inr filter1)
      else if di = DataIsolationApp then
        (if ent_tenant (lib_zero l) \<noteq> None then
           (case CtxGetAppID ctx of
              None \<Rightarrow> Inl (NewValidationError ''there is no app id in context'' [] None)
            | Some tid \<Rightarrow> Inr (AList.update ''app_id'' (CEq (GString tid)) filter1))
         else Inr filter1)
      else Inr filter1)"

definition injectSoftDeleteCond :: "'c CollectionLib \<Rightarrow> repo_ctx \<Rightarrow> bfilter \<Rightarrow> bfilter result" where
  "injectSoftDeleteCond l ctx filter1 =
     (if SoftDelete (GetMergedRepoOpt l ctx) = SoftDeleteDisable then Inr filter1
      else if ent_delete (lib_zero l) \<noteq> None
           then Inr (AList.update ''deleted_at'' (CExists False) filter1)
           else Inr filter1)"

text \<open>A nil filter is \<open>None\<close>.\<close>

definition injectCond :: "'c CollectionLib \<Rightarrow> repo_ctx \<Rightarrow> bfilter option \<Rightarrow> bfilter result" where
  "injectCond l ctx filter1 =
     (let filter1 = (case filter1 of None \<Rightarrow> [] | Some f \<Rightarrow> f) in
      case injectIsolationCond l ctx filter1 of
        Inl err \<Rightarrow> Inl err
      | Inr filter1 \<Rightarrow>
          (case injectSoftDeleteCond l ctx filter1 of
             Inl err \<Rightarrow> Inl err
           | Inr filter1 \<Rightarrow> Inr filter1))"

section \<open>Resource names\<close>

definition resourceByID :: "'c CollectionLib \<Rightarrow> go_val \<Rightarrow> string" where
  "resourceByID l i = cls_Name (lib_cls l) @ ''/'' @ Sprint (cls_conv (lib_cls l)) i"

definition resourceByDoc :: "'c CollectionLib \<Rightarrow> doc \<Rightarrow> string" where
  "resourceByDoc l doc = resourceByID l (entity_GetID doc)"

definition resourceByDocs :: "'c CollectionLib \<Rightarrow> doc list \<Rightarrow> string" where
  "resourceByDocs l docs =
     cls_Name (lib_cls l) @ '' ids=['' @ Join (map (\<lambda>d. Sprint (cls_conv (lib_cls l)) (entity_GetID d)) docs) '' '' @ '']''"

text \<open>The value under the identifier key may be a condition document, which is rendered as such.\<close>

definition resourceByFilter :: "'c CollectionLib \<Rightarrow> bfilter \<Rightarrow> string" where
  "resourceByFilter l filter1 =
     (case map_of filter1 (lib_idKey l) of
        Some (CEq i) \<Rightarrow> resourceByID l i
      | Some x \<Rightarrow> cls_Name (lib_cls l) @ ''/'' @ cls_fmt_cond (lib_cls l) x
      | None \<Rightarrow> cls_Name (lib_cls l) @ '' filter='' @ cls_fmt_filter (lib_cls l) filter1)"

section \<open>Queries\<close>

definition repo_Find ::
    "'c CollectionLib \<Rightarrow> repo_ctx \<Rightarrow> bfilter option \<Rightarrow> find_opts \<Rightarrow> 'c \<Rightarrow> doc list result \<times> 'c" where
  "repo_Find l ctx filter1 opts c =
     (case injectCond l ctx filter1 of
        Inl err \<Rightarrow> (Inl err, c)
      | Inr filter1 \<Rightarrow>
          (case cls_Find (lib_cls l) c filter1 opts of
             (Inl err, c) \<Rightarrow> (Inl (WrapError ''find mongo failed: '' err []), c)
           | (Inr (Inl err), c) \<Rightarrow> (Inl (WrapError ''cursor decode failed: '' err []), c)
           | (Inr (Inr ret), c) \<Rightarrow> (Inr ret, c)))"

definition repo_Count :: "'c CollectionLib \<Rightarrow> repo_ctx \<Rightarrow> bfilter option \<Rightarrow> 'c \<Rightarrow> int result \<times> 'c" where
  "repo_Count l ctx filter1 c =
     (case injectCond l ctx filter1 of
        Inl err \<Rightarrow> (Inl err, c)
      | Inr filter1 \<Rightarrow> cls_CountDocuments (lib_cls l) c filter1)"

record PageQueryInput =
  pq_Filter :: "bfilter option"
  pq_Pager :: "Pager option"
  pq_Sort :: "SortAble option"

definition modifyPageOpt :: "find_opts \<Rightarrow> PageQueryInput \<Rightarrow> find_opts" where
  "modifyPageOpt opt input =
     (let (pSize, pNum, tok) =
            (case pq_Pager input of None \<Rightarrow> (0, 0, []) | Some p \<Rightarrow> GetPageInfo p)
      in if pSize > 0 then
           let opt = opt\<lparr>fo_limit := Some pSize\<rparr> in
           if pNum > 0 then opt\<lparr>fo_skip := Some (int64 (pSize * (pNum - 1)))\<rparr> else opt
         else opt)"

definition modifySortOpt :: "'c CollectionLib \<Rightarrow> find_opts \<Rightarrow> PageQueryInput \<Rightarrow> find_opts" where
  "modifySortOpt l opt input =
     (let sortConf =
            (case pq_Sort input of
               None \<Rightarrow> []
             | Some s \<Rightarrow> map (\<lambda>v. (SortField v, if IsDescending v then - 1 else 1)) (GetSortInfo s));
          sortConf =
            (if sortConf = [] \<and> ent_create (lib_zero l) \<noteq> None then [(''created_at'', 1)] else sortConf)
      in opt\<lparr>fo_sort := sortConf\<rparr>)"

text \<open>The input is returned as it is left: with the injected filter, or with nil on an error.\<close>

definition PageQuery ::
    "'c CollectionLib \<Rightarrow> repo_ctx \<Rightarrow> PageQueryInput \<Rightarrow> 'c \<Rightarrow> doc PagedResult result \<times> PageQueryInput \<times> 'c" where
  "PageQuery l ctx input c =
     (case injectCond l ctx (pq_Filter input) of
        Inl err \<Rightarrow> (Inl err, input\<lparr>pq_Filter := None\<rparr>, c)
      | Inr filter1 \<Rightarrow>
          let input = input\<lparr>pq_Filter := Some filter1\<rparr> in
          (case cls_CountDocuments (lib_cls l) c filter1 of
             (Inl err, c) \<Rightarrow> (Inl (WrapError ''count document failed: '' err []), input, c)
           | (Inr count, c) \<Rightarrow>
               let opt = modifyPageOpt no_opts input;
                   opt = modifySortOpt l opt input
               in (case cls_Find (lib_cls l) c filter1 opt of
                     (Inl err, c) \<Rightarrow> (Inl (WrapError ''find result failed: '' err []), input, c)
                   | (Inr (Inl err), c) \<Rightarrow> (Inl (WrapError ''unmarshal result failed: '' err []), input, c)
                   | (Inr (Inr rows), c) \<Rightarrow>
                       (Inr \<lparr>paged_Rows = rows, TotalCount = count\<rparr>, input, c))))"

section \<open>Feeds\<close>

record FeedQueryInput =
  fq_Filter :: "bfilter option"
  fq_Pager :: "Pager option"
  fq_CursorField :: string
  fq_IsDescending :: bool

definition normalizeFeedCursorField :: "'c CollectionLib \<Rightarrow> string \<Rightarrow> string" where
  "normalizeFeedCursorField l cursorField =
     (if cursorField = [] \<or> cursorField = ''id'' then lib_idKey l else cursorField)"

definition feedSortOrder :: "bool \<Rightarrow> int" where
  "feedSortOrder isDescending = (if isDescending then - 1 else 1)"

definition parseFeedCursorToken :: "'c CollectionLib \<Rightarrow> string \<Rightarrow> string \<Rightarrow> go_val result" where
  "parseFeedCursorToken l cursorField pageToken =
     (case findBSONFieldType (lib_T l) cursorField of
        None \<Rightarrow> Inl (NewValidationError (''cursor field '' @ cursorField @ '' not found'') [] None)
      | Some fieldType \<Rightarrow> parseFeedTokenByType (cls_conv (lib_cls l)) pageToken fieldType)"

definition buildFeedCursorFilter :: "'c CollectionLib \<Rightarrow> string \<Rightarrow> string \<Rightarrow> bool \<Rightarrow> bfilter result" where
  "buildFeedCursorFilter l cursorField pageToken isDescending =
     (let cmp = (\<lambda>v. if isDescending then CLt v else CGt v) in
      if cursorField = lib_idKey l then
        (case parseFeedTokenByType (cls_conv (lib_cls l)) pageToken (lib_P l) of
           Inl err \<Rightarrow> Inl err
         | Inr v \<Rightarrow> Inr [(cursorField, cmp v)])
      else
        (case parseFeedCursorToken l cursorField pageToken of
           Inl err \<Rightarrow> Inl err
         | Inr v \<Rightarrow> Inr [(cursorField, cmp v)]))"

definition mergeFeedFilter :: "bfilter \<Rightarrow> bfilter \<Rightarrow> bfilter" where
  "mergeFeedFilter base cursor =
     (if base = [] then cursor
      else if cursor = [] then base
      else [(''$and'', CAnd [base, cursor])])"

definition feedCursorToken :: "'c CollectionLib \<Rightarrow> doc \<Rightarrow> string \<Rightarrow> string result" where
  "feedCursorToken l row cursorField =
     (if cursorField = lib_idKey l then Inr (Sprint (cls_conv (lib_cls l)) (entity_GetID row))
      else
        (case findBSONFieldValue (entity_struct row) cursorField of
           None \<Rightarrow> Inl (NewValidationError (''cursor field '' @ cursorField @ '' not found'') [] None)
         | Some v \<Rightarrow> Inr (token_of_value (cls_conv (lib_cls l)) v)))"

text \<open>The filter of a feed query: the injected conditions, and those of a token.\<close>

definition feed_filter ::
    "'c CollectionLib \<Rightarrow> string \<Rightarrow> string \<Rightarrow> bool \<Rightarrow> bfilter \<Rightarrow> bfilter result" where
  "feed_filter l cursorField pageToken isDescending filter1 =
     (if pageToken = [] then Inr filter1
      else
        (case buildFeedCursorFilter l cursorField pageToken isDescending of
           Inl err \<Rightarrow> Inl (WrapError ''build feed cursor filter failed: '' err [])
         | Inr cursorFilter \<Rightarrow> Inr (mergeFeedFilter filter1 cursorFilter)))"

definition FeedQuery ::
    "'c CollectionLib \<Rightarrow> repo_ctx \<Rightarrow> FeedQueryInput \<Rightarrow> 'c \<Rightarrow> doc FeedResult result \<times> FeedQueryInput \<times> 'c" where
  "FeedQuery l ctx input c =
     (let (pageSize, pn, pageToken) =
            (case fq_Pager input of None \<Rightarrow> (0, 0, []) | Some p \<Rightarrow> GetPageInfo p);
          pageSize = (if pageSize \<le> 0 then 20 else pageSize);
          cursorField = normalizeFeedCursorField l (fq_CursorField input)
      in case injectCond l ctx (fq_Filter input) of
           Inl err \<Rightarrow> (Inl err, input\<lparr>fq_Filter := None\<rparr>, c)
         | Inr filter0 \<Rightarrow>
             (case feed_filter l cursorField pageToken (fq_IsDescending input) filter0 of
                Inl err \<Rightarrow> (Inl err, input\<lparr>fq_Filter := Some filter0\<rparr>, c)
              | Inr filter1 \<Rightarrow>
                  let input = input\<lparr>fq_Filter := Some filter1\<rparr>;
                      opt = no_opts\<lparr>fo_limit := Some (int64 (pageSize + 1)),
                                    fo_sort := [(cursorField, feedSortOrder (fq_IsDescending input))]\<rparr>
                  in (case cls_Find (lib_cls l) c filter1 opt of
                        (Inl err, c) \<Rightarrow> (Inl (WrapError ''find feed result failed: '' err []), input, c)
                      | (Inr (Inl err), c) \<Rightarrow> (Inl (WrapError ''unmarshal feed result failed: '' err []), input, c)
                      | (Inr (Inr rows), c) \<Rightarrow>
                          if int (length rows) > pageSize then
                            let page = take (nat pageSize) rows in
                            (case feedCursorToken l (last page) cursorField of
                               Inl err \<Rightarrow> (Inl (WrapError ''build next page token failed: '' err []), input, c)
                             | Inr tok \<Rightarrow> (Inr \<lparr>feed_Rows = page, NextPageToken = tok\<rparr>, input, c))
                          else (Inr \<lparr>feed_Rows = rows, NextPageToken = []\<rparr>, input, c))))"

section \<open>Reading one document\<close>

definition find_one_attempt ::
    "'c CollectionLib \<Rightarrow> bfilter \<Rightarrow> string \<Rightarrow> doc option \<times> 'c \<Rightarrow> go_error option \<times> (doc option \<times> 'c)" where
  "find_one_attempt l filter1 resource s =
     (case s of (ret, c) \<Rightarrow>
        (case cls_FindOne (lib_cls l) c filter1 of
           (Inl err, c) \<Rightarrow> (Some (WrapError ''mongo find failed: '' err []), (ret, c))
         | (Inr None, c) \<Rightarrow> (Some (NewResourceNotFoundError resource None), (ret, c))
         | (Inr (Some e), c) \<Rightarrow> (None, (Some e, c))))"

text \<open>
  \<open>ret\<close> is the result variable, \<open>None\<close> its zero value; both branches read with the same closure body.
\<close>

definition GetByFilter ::
    "'c CollectionLib \<Rightarrow> repo_ctx \<Rightarrow> bfilter option \<Rightarrow> 'c \<Rightarrow> doc result \<times> 'c" where
  "GetByFilter l ctx filter1 c =
     (case injectCond l ctx filter1 of
        Inl err \<Rightarrow> (Inl err, c)
      | Inr filter1 \<Rightarrow>
          let resource = resourceByFilter l filter1;
              opt = GetMergedRepoOpt l ctx;
              result = (\<lambda>(r, ret, c). case r of
                          Some err \<Rightarrow> (Inl err, c)
                        | None \<Rightarrow> (Inr (case ret of Some e \<Rightarrow> e | None \<Rightarrow> lib_zero l), c))
          in if TryFixSyncDelay opt = FixedStrategyNone \<or> TryFixSyncDelay opt = []
             then result (find_one_attempt l filter1 resource (None, c))
             else result (cls_retry_Do (lib_cls l) 3 (\<lambda>err. IsErrCode ErrCodeNotFound (Some err))
                            (find_one_attempt l filter1 resource) (None, c)))"

definition repo_Get :: "'c CollectionLib \<Rightarrow> repo_ctx \<Rightarrow> go_val \<Rightarrow> 'c \<Rightarrow> doc result \<times> 'c" where
  "repo_Get l ctx i c = GetByFilter l ctx (Some [(lib_idKey l, CEq i)]) c"

section \<open>Creating\<close>

definition checkIfIDExisted :: "doc \<Rightarrow> go_error option" where
  "checkIfIDExisted doc =
     (if go_IsZero (entity_GetID doc) then Some (NewValidationError ''id can not be empty'' [] None) else None)"

definition repo_Create ::
    "'c CollectionLib \<Rightarrow> repo_ctx \<Rightarrow> clock \<Rightarrow> doc \<Rightarrow> 'c \<Rightarrow> doc result \<times> doc \<times> 'c" where
  "repo_Create l ctx clk doc c =
     (case checkIfIDExisted doc of
        Some err \<Rightarrow> (Inl err, doc, c)
      | None \<Rightarrow>
          (case CtxCreateAudit ctx clk doc of
             (Some err, doc) \<Rightarrow> (Inl (WrapError ''audit doc failed: '' err []), doc, c)
           | (None, doc) \<Rightarrow>
               (case cls_InsertOne (lib_cls l) c doc of
                  (Some err, c) \<Rightarrow>
                    if cls_IsDuplicateKeyError (lib_cls l) err
                    then (Inl (NewResourceConflictError (resourceByDoc l doc) None), doc, c)
                    else (Inl (WrapError ''create doc failed: '' err []), doc, c)
                | (None, c) \<Rightarrow> (Inr doc, doc, c))))"

text \<open>The loop of \<open>BatchCreate\<close>; the documents are returned as it leaves them.\<close>

fun audit_docs ::
    "'c CollectionLib \<Rightarrow> repo_ctx \<Rightarrow> clock \<Rightarrow> doc list \<Rightarrow> go_error option \<times> doc list" where
  "audit_docs l ctx clk [] = (None, [])"
| "audit_docs l ctx clk (doc # docs) =
     (case checkIfIDExisted doc of
        Some err \<Rightarrow> (Some err, doc # docs)
      | None \<Rightarrow>
          (case CtxCreateAudit ctx clk doc of
             (Some err, doc) \<Rightarrow>
               (Some (WrapError (''audit doc['' @ cls_fmt_doc (lib_cls l) doc @ ''] failed: '') err []), doc # docs)
           | (None, doc) \<Rightarrow>
               (case audit_docs l ctx (later (later clk)) docs of (r, docs) \<Rightarrow> (r, doc # docs))))"

definition BatchCreate ::
    "'c CollectionLib \<Rightarrow> repo_ctx \<Rightarrow> clock \<Rightarrow> doc list \<Rightarrow> 'c \<Rightarrow> go_error option \<times> doc list \<times> 'c" where
  "BatchCreate l ctx clk docs c =
     (case audit_docs l ctx clk docs of
        (Some err, docs) \<Rightarrow> (Some err, docs, c)
      | (None, docs) \<Rightarrow>
          (case cls_InsertMany (lib_cls l) c docs of
             (Some err, c) \<Rightarrow>
               if cls_IsDuplicateKeyError (lib_cls l) err
               then (Some (NewResourceConflictError (resourceByDocs l docs) None), docs, c)
               else (Some (WrapError ''batch create doc failed: '' err []), docs, c)
           | (None, c) \<Rightarrow> (None, docs, c)))"

section \<open>Replacing\<close>

definition raw_val :: "raw_time \<Rightarrow> go_val" where
  "raw_val r = (case r of RawTime t \<Rightarrow> GTime t | RawMs i \<Rightarrow> GInt i)"

definition baseUpdateOp ::
    "'c CollectionLib \<Rightarrow> repo_ctx \<Rightarrow> clock \<Rightarrow> doc \<Rightarrow> bfilter result \<times> doc" where
  "baseUpdateOp l ctx clk doc =
     (case UpdateLockAndAudit ctx (clk 0) doc (Some (GetMergedRepoOpt l ctx)) of
        (Inl err, doc) \<Rightarrow> (Inl err, doc)
      | (Inr ret, doc) \<Rightarrow>
          let filter1 = [(lib_idKey l, CEq (entity_GetID doc))];
              filter1 = (case OriginalUpdatedAt ret of
                           Some raw \<Rightarrow> if HasOriginalUpdate ret
                                       then AList.update ''updated_at'' (CEq (raw_val raw)) filter1 else filter1
                         | None \<Rightarrow> filter1)
          in (injectCond l ctx (Some filter1), doc))"

definition auditAndBuildReplaceFilter ::
    "'c CollectionLib \<Rightarrow> repo_ctx \<Rightarrow> clock \<Rightarrow> doc \<Rightarrow> bool \<Rightarrow> bfilter result \<times> doc" where
  "auditAndBuildReplaceFilter l ctx clk doc isUpsert =
     (if \<not> isUpsert then baseUpdateOp l ctx clk doc
      else
        (case ent_create doc of
           None \<Rightarrow> baseUpdateOp l ctx clk doc
         | Some cr \<Rightarrow>
             if IsZero (snd (GetCreatorInfo cr)) then
               let filter1 = [(lib_idKey l, CEq (entity_GetID doc))] in
               (case CtxCreateAudit ctx clk doc of
                  (Some err, doc) \<Rightarrow> (Inl err, doc)
                | (None, doc) \<Rightarrow> (Inr filter1, doc))
             else baseUpdateOp l ctx clk doc))"

definition commonReplace ::
    "'c CollectionLib \<Rightarrow> repo_ctx \<Rightarrow> clock \<Rightarrow> doc \<Rightarrow> bool \<Rightarrow> 'c \<Rightarrow> doc result \<times> doc \<times> 'c" where
  "commonReplace l ctx clk doc isUpsert c =
     (case auditAndBuildReplaceFilter l ctx clk doc isUpsert of
        (Inl err, doc) \<Rightarrow> (Inl err, doc, c)
      | (Inr filter1, doc) \<Rightarrow>
          (case cls_ReplaceOne (lib_cls l) c filter1 doc isUpsert of
             (Inl err, c) \<Rightarrow>
               if cls_IsDuplicateKeyError (lib_cls l) err
               then (Inl (NewResourceConflictError (resourceByDoc l doc) None), doc, c)
               else (Inl (WrapError ''create doc failed: '' err []), doc, c)
           | (Inr (matched, modified, upserted), c) \<Rightarrow>
               if isUpsert \<and> upserted > 0 then (Inr doc, doc, c)
               else if matched = 0 then
                 let filter2 = AList.delete ''updated_at'' filter1 in
                 (case cls_CountDocuments (lib_cls l) c filter2 of
                    (Inl err, c) \<Rightarrow> (Inl (WrapError ''check id failed: '' err []), doc, c)
                  | (Inr cnt, c) \<Rightarrow>
                      if cnt > 0
                      then (Inl (NewResourceError ErrCodeConflict ''data is modified by other''
                                   (resourceByFilter l filter2) None), doc, c)
                      else (Inl (NewResourceNotFoundError (resourceByFilter l filter2) None), doc, c))
               else if map_of filter1 ''updated_at'' \<noteq> None \<and> modified = 0
               then (Inl (NewResourceError ErrCodeConflict ''optimistic locking failed''
                            (resourceByFilter l filter1) None), doc, c)
               else (Inr doc, doc, c)))"

definition repo_Update ::
    "'c CollectionLib \<Rightarrow> repo_ctx \<Rightarrow> clock \<Rightarrow> doc \<Rightarrow> 'c \<Rightarrow> doc result \<times> doc \<times> 'c" where
  "repo_Update l ctx clk doc c = commonReplace l ctx clk doc False c"

definition repo_Upsert ::
    "'c CollectionLib \<Rightarrow> repo_ctx \<Rightarrow> clock \<Rightarrow> doc \<Rightarrow> 'c \<Rightarrow> doc result \<times> doc \<times> 'c" where
  "repo_Upsert l ctx clk doc c = commonReplace l ctx clk doc True c"

text \<open>The documents are returned as the loop leaves them.\<close>

fun BatchUpdate ::
    "'c CollectionLib \<Rightarrow> repo_ctx \<Rightarrow> clock \<Rightarrow> doc list \<Rightarrow> 'c \<Rightarrow> go_error option \<times> doc list \<times> 'c" where
  "BatchUpdate l ctx clk [] c = (None, [], c)"
| "BatchUpdate l ctx clk (v # vs) c =
     (case repo_Update l ctx clk v c of
        (Inl err, v, c) \<Rightarrow> (Some err, v # vs, c)
      | (Inr v1, v, c) \<Rightarrow>
          (case BatchUpdate l ctx (later clk) vs c of (r, vs, c) \<Rightarrow> (r, v # vs, c)))"

section \<open>Patching\<close>

record PatchRawInput =
  pr_Filter :: "bfilter option"
  pr_PatchPayload :: "payload option"
  pr_UnsetPayload :: "payload option"
  pr_IsMany :: bool
  pr_SkipInjectCond :: bool

definition opt_list :: "'a list option \<Rightarrow> 'a list" where
  "opt_list x = (case x of None \<Rightarrow> [] | Some xs \<Rightarrow> xs)"

text \<open>The audit of a patch, then the calls.\<close>

definition patch_audit ::
    "'c CollectionLib \<Rightarrow> repo_ctx \<Rightarrow> time \<Rightarrow> PatchRawInput \<Rightarrow> go_error option \<times> PatchRawInput" where
  "patch_audit l ctx now input =
     (if ent_update (lib_zero l) \<noteq> None then
        (case CtxGetOperator ctx of
           None \<Rightarrow> (Some no_user, input)
         | Some u \<Rightarrow>
             (None, input\<lparr>pr_PatchPayload :=
                Some (AList.update ''updated_by'' (GString u)
                       (AList.update ''updated_at'' (GTime now) (opt_list (pr_PatchPayload input))))\<rparr>))
      else (None, input))"

definition patch_send ::
    "'c CollectionLib \<Rightarrow> PatchRawInput \<Rightarrow> 'c \<Rightarrow> go_error option \<times> 'c" where
  "patch_send l input c =
     (let set1 = (if length (opt_list (pr_PatchPayload input)) > 0 then pr_PatchPayload input else None);
          unset1 = (if length (opt_list (pr_UnsetPayload input)) > 0 then pr_UnsetPayload input else None);
          updatePayload = \<lparr>upd_set = set1, upd_unset = unset1\<rparr>;
          filter1 = opt_list (pr_Filter input)
      in if set1 = None \<and> unset1 = None then (None, c)
         else
           (case (if pr_IsMany input then cls_UpdateMany (lib_cls l) c filter1 updatePayload
                  else cls_UpdateOne (lib_cls l) c filter1 updatePayload) of
              (Inl err, c) \<Rightarrow> (Some (WrapError ''patch doc failed: '' err []), c)
            | (Inr (matched, modified), c) \<Rightarrow>
                if matched = 0 then (Some (NewResourceNotFoundError (resourceByFilter l filter1) None), c)
                else if map_of filter1 ''updated_at'' \<noteq> None \<and> modified = 0
                then (Some (NewResourceError ErrCodeConflict ''optimistic locking failed''
                              (resourceByFilter l filter1) None), c)
                else (None, c)))"

definition PatchRaw ::
    "'c CollectionLib \<Rightarrow> repo_ctx \<Rightarrow> clock \<Rightarrow> PatchRawInput \<Rightarrow> 'c \<Rightarrow> go_error option \<times> PatchRawInput \<times> 'c" where
  "PatchRaw l ctx clk input c =
     (case (if \<not> pr_SkipInjectCond input
            then (case injectCond l ctx (pr_Filter input) of
                    Inl err \<Rightarrow> (Some err, input\<lparr>pr_Filter := None\<rparr>)
                  | Inr filter1 \<Rightarrow> (None, input\<lparr>pr_Filter := Some filter1\<rparr>))
            else (None, input)) of
        (Some err, input) \<Rightarrow> (Some err, input, c)
      | (None, input) \<Rightarrow>
          (case patch_audit l ctx (clk 0) input of
             (Some err, input) \<Rightarrow> (Some err, input, c)
           | (None, input) \<Rightarrow> (case patch_send l input c of (r, c) \<Rightarrow> (r, input, c))))"

text \<open>The payload is built from the document after its audit; an entity is never a nil pointer here.\<close>

definition repo_Patch ::
    "'c CollectionLib \<Rightarrow> repo_ctx \<Rightarrow> clock \<Rightarrow> doc \<Rightarrow> 'c \<Rightarrow> go_error option \<times> doc \<times> 'c" where
  "repo_Patch l ctx clk doc c =
     (case baseUpdateOp l ctx clk doc of
        (Inl err, doc) \<Rightarrow> (Some err, doc, c)
      | (Inr filter1, doc) \<Rightarrow>
          (case PatchRaw l ctx (later clk)
                  \<lparr>pr_Filter = Some filter1, pr_PatchPayload = BuildPatchPayload (entity_struct doc),
                   pr_UnsetPayload = None, pr_IsMany = False, pr_SkipInjectCond = True\<rparr> c of
             (r, input, c) \<Rightarrow> (r, doc, c)))"

section \<open>Deleting\<close>

definition repo_Delete ::
    "'c CollectionLib \<Rightarrow> repo_ctx \<Rightarrow> clock \<Rightarrow> doc \<Rightarrow> 'c \<Rightarrow> go_error option \<times> doc \<times> 'c" where
  "repo_Delete l ctx clk doc c =
     (case CtxDeleteAudit ctx (clk 0) doc of
        (Inl err, doc) \<Rightarrow> (Some (WrapError ''audit doc failed: '' err []), doc, c)
      | (Inr hasDeleteAudit, doc) \<Rightarrow>
          if hasDeleteAudit \<and> SoftDelete (GetMergedRepoOpt l ctx) \<noteq> SoftDeleteDisable then
            (case repo_Update l ctx (later clk) doc c of
               (Inl err, doc, c) \<Rightarrow> (Some err, doc, c)
             | (Inr e, doc, c) \<Rightarrow> (None, doc, c))
          else
            (case injectCond l ctx (Some [(lib_idKey l, CEq (entity_GetID doc))]) of
               Inl err \<Rightarrow> (Some err, doc, c)
             | Inr filter1 \<Rightarrow>
                 (case cls_DeleteOne (lib_cls l) c filter1 of
                    (Inl err, c) \<Rightarrow> (Some err, doc, c)
                  | (Inr deleted, c) \<Rightarrow>
                      if deleted = 0 then (Some (NewResourceNotFoundError (resourceByDoc l doc) None), doc, c)
                      else (None, doc, c))))"

definition BatchDeleteByFilter ::
    "'c CollectionLib \<Rightarrow> repo_ctx \<Rightarrow> clock \<Rightarrow> bfilter option \<Rightarrow> 'c \<Rightarrow> int result \<times> 'c" where
  "BatchDeleteByFilter l ctx clk filter1 c =
     (case injectCond l ctx filter1 of
        Inl err \<Rightarrow> (Inl err, c)
      | Inr filter1 \<Rightarrow>
          if ent_delete (lib_zero l) \<noteq> None \<and> SoftDelete (GetMergedRepoOpt l ctx) \<noteq> SoftDeleteDisable then
            (case CtxGetOperator ctx of
               None \<Rightarrow> (Inl (NewValidationError ''there is no user'' [] None), c)
             | Some u \<Rightarrow>
                 (case cls_UpdateMany (lib_cls l) c filter1
                         \<lparr>upd_set = Some [(''deleted_at'', GTime (clk 0)), (''deleted_by'', GString u)],
                          upd_unset = None\<rparr> of
                    (Inl err, c) \<Rightarrow> (Inl (WrapError ''batch delete mongo failed: '' err []), c)
                  | (Inr (matched, modified), c) \<Rightarrow>
                      if matched = 0
                      then (Inl (NewResourceNotFoundError (resourceByFilter l filter1) None), c)
                      else (Inr matched, c)))
          else
            (case cls_DeleteMany (lib_cls l) c filter1 of
               (Inl err, c) \<Rightarrow> (Inl (WrapError ''batch delete mongo failed: '' err []), c)
             | (Inr deleted, c) \<Rightarrow>
                 if deleted = 0
                 then (Inl (NewResourceNotFoundError (resourceByFilter l filter1) None), c)
                 else (Inr deleted, c)))"

definition BatchDeleteByIDs ::
    "'c CollectionLib \<Rightarrow> repo_ctx \<Rightarrow> clock \<Rightarrow> go_val list \<Rightarrow> 'c \<Rightarrow> int result \<times> 'c" where
  "BatchDeleteByIDs l ctx clk ids c =
     (if ids = [] then (Inr 0, c)
      else BatchDeleteByFilter l ctx clk (Some [(lib_idKey l, CIn ids)]) c)"

definition BatchDelete ::
    "'c CollectionLib \<Rightarrow> repo_ctx \<Rightarrow> clock \<Rightarrow> doc list \<Rightarrow> 'c \<Rightarrow> int result \<times> 'c" where
  "BatchDelete l ctx clk docs c = BatchDeleteByIDs l ctx clk (map entity_GetID docs) c"

end
