(* ===== verification/Mongox_Store.thy ===== *)
theory Mongox_Store
  imports Mongox_Repo "HOL-Library.Char_ord" "HOL-Library.List_Lexorder" "HOL-Library.Product_Lexorder"
begin

text \<open>
  The documented behaviour of a MongoDB collection that holds entities, as a locale. \<open>docs c k\<close> is the
  stored document with \<open>_id\<close> \<open>k\<close>, a map from top-level keys to BSON values. \<open>bv\<close> is the BSON value of a
  Go value, \<open>enc\<close> and \<open>dec\<close> the codec of the driver, \<open>matches\<close> the meaning of a filter,
  \<open>upd\<close> the effect of an update and \<open>blt\<close> the comparison of BSON values of one kind. A call that fails on
  the way may have been executed, wholly or, for the calls on many documents, in part.

  A reference collection over lists of documents shows that the stated behaviour can be had.
\<close>

datatype bson = BStr string | BInt int | BDate int | BOther string

type_synonym bdoc = "string \<Rightarrow> bson option"

fun plain_bson :: "bson \<Rightarrow> bool" where
  "plain_bson (BOther s) = False"
| "plain_bson b = True"

fun same_kind :: "bson \<Rightarrow> bson \<Rightarrow> bool" where
  "same_kind (BStr a) (BStr b) = True"
| "same_kind (BInt a) (BInt b) = True"
| "same_kind (BDate a) (BDate b) = True"
| "same_kind a b = False"

definition audit_keys :: "string list" where
  "audit_keys = [''_id'', ''created_at'', ''created_by'', ''updated_at'', ''updated_by'',
                 ''deleted_at'', ''deleted_by'', ''tenant_id'', ''app_id'']"

text \<open>A top-level key: no operator, no path.\<close>

definition top_key :: "string \<Rightarrow> bool" where
  "top_key q \<longleftrightarrow> q \<noteq> [] \<and> hd q \<noteq> CHR ''$'' \<and> CHR ''.'' \<notin> set q"

definition stamp_of :: "raw_time \<Rightarrow> bson option" where
  "stamp_of r = (case r of RawTime t \<Rightarrow> if IsZero t then None else Some (BDate (t div Millisecond))
                         | RawMs i \<Rightarrow> if i = 0 then None else Some (BInt i))"

definition text_of :: "string \<Rightarrow> bson option" where
  "text_of s = (if s = [] then None else Some (BStr s))"

definition matching :: "(bson \<Rightarrow> bdoc option) \<Rightarrow> (bdoc \<Rightarrow> bool) \<Rightarrow> bdoc set" where
  "matching m P = {d. \<exists>k. m k = Some d \<and> P d}"

definition window :: "find_opts \<Rightarrow> 'a list \<Rightarrow> 'a list" where
  "window opts xs =
     (let xs = drop (nat (case fo_skip opts of None \<Rightarrow> 0 | Some s \<Rightarrow> s)) xs in
      case fo_limit opts of None \<Rightarrow> xs | Some n \<Rightarrow> if n = 0 then xs else take (nat \<bar>n\<bar>) xs)"

text \<open>The order a one-key sort guarantees between documents that have the key with one kind of value.\<close>

definition in_order :: "(bson \<Rightarrow> bson \<Rightarrow> bool) \<Rightarrow> string \<Rightarrow> int \<Rightarrow> bdoc \<Rightarrow> bdoc \<Rightarrow> bool" where
  "in_order blt q s d1 d2 \<longleftrightarrow>
     (case (d1 q, d2 q) of
        (Some a, Some b) \<Rightarrow> same_kind a b \<longrightarrow> \<not> (if s > 0 then blt b a else blt a b)
      | _ \<Rightarrow> True)"

fun insert_all :: "(doc \<Rightarrow> bdoc) \<Rightarrow> (go_val \<Rightarrow> bson) \<Rightarrow> doc list \<Rightarrow> (bson \<Rightarrow> bdoc option) \<Rightarrow> bson \<Rightarrow> bdoc option" where
  "insert_all enc bv [] m = m"
| "insert_all enc bv (e # es) m = insert_all enc bv es (m(bv (ent_ID e) \<mapsto> enc e))"

section \<open>Codec\<close>

locale entity_codec =
  fixes bv :: "go_val \<Rightarrow> bson"
    and enc :: "doc \<Rightarrow> bdoc"
    and dec :: "bdoc \<Rightarrow> doc"
  assumes bv_string: "bv (GString s) = BStr s"
    and bv_int: "bv (GInt i) = BInt i"
    and bv_uint: "n < 2 ^ 63 \<Longrightarrow> bv (GUint n) = BInt (int n)"
    and bv_time: "bv (GTime t) = BDate (t div Millisecond)"
    and enc_id: "\<not> go_IsZero (ent_ID e) \<Longrightarrow> enc e ''_id'' = Some (bv (ent_ID e))"
    and enc_created_at: "ent_create e = Some cr \<Longrightarrow> enc e ''created_at'' = stamp_of (GetCreateTimeRaw cr)"
    and enc_created_by: "ent_create e = Some cr \<Longrightarrow> enc e ''created_by'' = text_of (fst (GetCreatorInfo cr))"
    and enc_updated_at: "ent_update e = Some ua \<Longrightarrow> enc e ''updated_at'' = stamp_of (GetUpdateTimeRaw ua)"
    and enc_deleted_at: "ent_delete e = Some dl \<Longrightarrow> enc e ''deleted_at'' = stamp_of (GetDeleteTimeRaw dl)"
    and enc_tenant_id: "ent_tenant e = Some ta \<Longrightarrow> enc e ''tenant_id'' = text_of (TenantID ta)"
    and enc_app_id: "ent_tenant e = Some ta \<Longrightarrow> enc e ''app_id'' = text_of (AppID ta)"
    and dec_id: "d ''_id'' = Some b \<Longrightarrow> plain_bson b \<Longrightarrow> bv (ent_ID (dec d)) = b"

section \<open>Filters\<close>

locale filter_semantics =
  fixes bv :: "go_val \<Rightarrow> bson"
    and matches :: "bfilter \<Rightarrow> bdoc \<Rightarrow> bool"
    and blt :: "bson \<Rightarrow> bson \<Rightarrow> bool"
  assumes matches_all: "matches f d \<longleftrightarrow> (\<forall>x \<in> set f. matches [x] d)"
    and matches_eq: "top_key q \<Longrightarrow> plain_bson (bv v) \<Longrightarrow> (\<And>b. d q = Some b \<Longrightarrow> plain_bson b) \<Longrightarrow>
      matches [(q, CEq v)] d \<longleftrightarrow> d q = Some (bv v)"
    and matches_absent: "top_key q \<Longrightarrow> matches [(q, CExists False)] d \<longleftrightarrow> d q = None"
    and matches_in: "top_key q \<Longrightarrow> (\<And>v. v \<in> set vs \<Longrightarrow> plain_bson (bv v)) \<Longrightarrow> (\<And>b. d q = Some b \<Longrightarrow> plain_bson b) \<Longrightarrow>
      matches [(q, CIn vs)] d \<longleftrightarrow> (\<exists>v \<in> set vs. d q = Some (bv v))"
    and matches_gt: "top_key q \<Longrightarrow> d q = Some b \<Longrightarrow> same_kind (bv v) b \<Longrightarrow>
      matches [(q, CGt v)] d \<longleftrightarrow> blt (bv v) b"
    and matches_lt: "top_key q \<Longrightarrow> d q = Some b \<Longrightarrow> same_kind (bv v) b \<Longrightarrow>
      matches [(q, CLt v)] d \<longleftrightarrow> blt b (bv v)"
    and matches_and: "matches [(''$and'', CAnd fs)] d \<longleftrightarrow> (\<forall>f \<in> set fs. matches f d)"
    and blt_irrefl: "\<not> blt a a"
    and blt_trans: "blt a b \<Longrightarrow> blt b c \<Longrightarrow> blt a c"
    and blt_total: "same_kind a b \<Longrightarrow> a \<noteq> b \<Longrightarrow> blt a b \<or> blt b a"

section \<open>Updates\<close>

locale update_semantics =
  fixes bv :: "go_val \<Rightarrow> bson"
    and upd :: "update_doc \<Rightarrow> bdoc \<Rightarrow> bdoc"
  assumes upd_set_key: "map_of (opt_list (upd_set u)) q = Some v \<Longrightarrow> top_key q \<Longrightarrow> q \<noteq> ''_id'' \<Longrightarrow>
      upd u d q = Some (bv v)"
    and upd_other_key: "top_key q \<Longrightarrow>
      (\<And>p. p \<in> fst ` set (opt_list (upd_set u)) \<union> fst ` set (opt_list (upd_unset u)) \<Longrightarrow>
        p \<noteq> q \<and> \<not> HasPrefix p (q @ ''.'')) \<Longrightarrow> upd u d q = d q"

section \<open>Collections of entities\<close>

locale entity_store =
  entity_codec bv enc dec + filter_semantics bv matches blt + update_semantics bv upd
  for bv enc dec matches blt upd +
  fixes cls :: "'c collection"
    and docs :: "'c \<Rightarrow> bson \<Rightarrow> bdoc option"
  assumes docs_id: "docs c k = Some d \<Longrightarrow> d ''_id'' = Some k"
    and docs_plain: "docs c k = Some d \<Longrightarrow> q \<in> set audit_keys \<Longrightarrow> d q = Some b \<Longrightarrow> plain_bson b"
    and docs_finite: "finite (dom (docs c))"
    and Find_ok: "cls_Find cls c f opts = (Inr (Inr es), c') \<Longrightarrow> docs c' = docs c \<and>
      (\<exists>ds. distinct ds \<and> set ds = matching (docs c) (matches f)
        \<and> (\<forall>q s. fo_sort opts = [(q, s)] \<longrightarrow> sorted_wrt (in_order blt q s) ds)
        \<and> es = map dec (window opts ds))"
    and Find_undecoded: "cls_Find cls c f opts = (Inr (Inl err), c') \<Longrightarrow> docs c' = docs c"
    and Find_failed: "cls_Find cls c f opts = (Inl err, c') \<Longrightarrow> docs c' = docs c"
    and Count_ok: "cls_CountDocuments cls c f = (Inr n, c') \<Longrightarrow>
      docs c' = docs c \<and> n = int (card (matching (docs c) (matches f)))"
    and Count_failed: "cls_CountDocuments cls c f = (Inl err, c') \<Longrightarrow> docs c' = docs c"
    and FindOne_some: "cls_FindOne cls c f = (Inr (Some e), c') \<Longrightarrow>
      docs c' = docs c \<and> (\<exists>d \<in> matching (docs c) (matches f). e = dec d)"
    and FindOne_none: "cls_FindOne cls c f = (Inr None, c') \<Longrightarrow>
      docs c' = docs c \<and> matching (docs c) (matches f) = {}"
    and FindOne_failed: "cls_FindOne cls c f = (Inl err, c') \<Longrightarrow> docs c' = docs c"
    and InsertOne_ok: "cls_InsertOne cls c e = (None, c') \<Longrightarrow> \<not> go_IsZero (ent_ID e) \<Longrightarrow>
      docs c (bv (ent_ID e)) = None \<and> docs c' = (docs c)(bv (ent_ID e) \<mapsto> enc e)"
    and InsertOne_dup: "cls_InsertOne cls c e = (Some err, c') \<Longrightarrow> cls_IsDuplicateKeyError cls err \<Longrightarrow>
      docs c' = docs c"
    and InsertOne_failed: "cls_InsertOne cls c e = (Some err, c') \<Longrightarrow> \<not> go_IsZero (ent_ID e) \<Longrightarrow>
      docs c' = docs c \<or> docs c (bv (ent_ID e)) = None \<and> docs c' = (docs c)(bv (ent_ID e) \<mapsto> enc e)"
    and InsertMany_ok: "cls_InsertMany cls c es = (None, c') \<Longrightarrow> (\<And>e. e \<in> set es \<Longrightarrow> \<not> go_IsZero (ent_ID e)) \<Longrightarrow>
      docs c' = insert_all enc bv es (docs c) \<and> (\<forall>e \<in> set es. docs c (bv (ent_ID e)) = None)
      \<and> distinct (map (\<lambda>e. bv (ent_ID e)) es)"
    and InsertMany_failed: "cls_InsertMany cls c es = (Some err, c') \<Longrightarrow> (\<And>e. e \<in> set es \<Longrightarrow> \<not> go_IsZero (ent_ID e)) \<Longrightarrow>
      \<exists>n. docs c' = insert_all enc bv (take n es) (docs c)
        \<and> (\<forall>e \<in> set (take n es). docs c (bv (ent_ID e)) = None)"
    and ReplaceOne_matched: "cls_ReplaceOne cls c f e ups = (Inr (n, m, j), c') \<Longrightarrow> n \<noteq> 0 \<Longrightarrow> \<not> go_IsZero (ent_ID e) \<Longrightarrow>
      j = 0 \<and> (\<exists>d. docs c (bv (ent_ID e)) = Some d \<and> matches f d \<and> docs c' = (docs c)(bv (ent_ID e) \<mapsto> enc e)
        \<and> (m = 0 \<longrightarrow> enc e = d))"
    and ReplaceOne_none: "cls_ReplaceOne cls c f e ups = (Inr (0, m, j), c') \<Longrightarrow> \<not> go_IsZero (ent_ID e) \<Longrightarrow>
      matching (docs c) (matches f) = {} \<and>
      (if ups then j > 0 \<and> docs c (bv (ent_ID e)) = None \<and> docs c' = (docs c)(bv (ent_ID e) \<mapsto> enc e)
       else j = 0 \<and> docs c' = docs c)"
    and ReplaceOne_dup: "cls_ReplaceOne cls c f e ups = (Inl err, c') \<Longrightarrow> cls_IsDuplicateKeyError cls err \<Longrightarrow>
      docs c' = docs c"
    and ReplaceOne_failed: "cls_ReplaceOne cls c f e ups = (Inl err, c') \<Longrightarrow> \<not> go_IsZero (ent_ID e) \<Longrightarrow>
      docs c' = docs c
      \<or> (\<exists>d. docs c (bv (ent_ID e)) = Some d \<and> matches f d \<and> docs c' = (docs c)(bv (ent_ID e) \<mapsto> enc e))
      \<or> (ups \<and> docs c (bv (ent_ID e)) = None \<and> docs c' = (docs c)(bv (ent_ID e) \<mapsto> enc e))"
    and UpdateOne_matched: "cls_UpdateOne cls c f u = (Inr (n, m), c') \<Longrightarrow> n \<noteq> 0 \<Longrightarrow>
      \<exists>k d. docs c k = Some d \<and> matches f d \<and> docs c' = (docs c)(k \<mapsto> upd u d)"
    and UpdateOne_none: "cls_UpdateOne cls c f u = (Inr (0, m), c') \<Longrightarrow>
      docs c' = docs c \<and> matching (docs c) (matches f) = {}"
    and UpdateOne_failed: "cls_UpdateOne cls c f u = (Inl err, c') \<Longrightarrow> docs c' = docs c
      \<or> (\<exists>k d. docs c k = Some d \<and> matches f d \<and> docs c' = (docs c)(k \<mapsto> upd u d))"
    and UpdateMany_ok: "cls_UpdateMany cls c f u = (Inr (n, m), c') \<Longrightarrow>
      n = int (card (matching (docs c) (matches f)))
      \<and> docs c' = (\<lambda>k. case docs c k of None \<Rightarrow> None | Some d \<Rightarrow> Some (if matches f d then upd u d else d))"
    and UpdateMany_failed: "cls_UpdateMany cls c f u = (Inl err, c') \<Longrightarrow>
      docs c' k = docs c k \<or> (\<exists>d. docs c k = Some d \<and> matches f d \<and> docs c' k = Some (upd u d))"
    and DeleteOne_some: "cls_DeleteOne cls c f = (Inr n, c') \<Longrightarrow> n \<noteq> 0 \<Longrightarrow>
      \<exists>k d. docs c k = Some d \<and> matches f d \<and> docs c' = (docs c)(k := None)"
    and DeleteOne_none: "cls_DeleteOne cls c f = (Inr 0, c') \<Longrightarrow>
      docs c' = docs c \<and> matching (docs c) (matches f) = {}"
    and DeleteOne_failed: "cls_DeleteOne cls c f = (Inl err, c') \<Longrightarrow> docs c' = docs c
      \<or> (\<exists>k d. docs c k = Some d \<and> matches f d \<and> docs c' = (docs c)(k := None))"
    and DeleteMany_ok: "cls_DeleteMany cls c f = (Inr n, c') \<Longrightarrow>
      n = int (card (matching (docs c) (matches f)))
      \<and> docs c' = (\<lambda>k. case docs c k of None \<Rightarrow> None | Some d \<Rightarrow> if matches f d then None else Some d)"
    and DeleteMany_failed: "cls_DeleteMany cls c f = (Inl err, c') \<Longrightarrow>
      docs c' k = docs c k \<or> (\<exists>d. docs c k = Some d \<and> matches f d \<and> docs c' k = None)"
    and retry_Do: "i \<noteq> 0 \<Longrightarrow> cls_retry_Do cls i p g s =
      (case g s of
         (None, s') \<Rightarrow> (None, s')
       | (Some err, s') \<Rightarrow> if i \<le> 1 \<or> \<not> p err then (Some err, s') else cls_retry_Do cls (i - 1) p g s')"

end
