(* ===== verification/Mongox_Guard.thy ===== *)
theory Mongox_Guard
  imports Mongox_Store
begin

text \<open>
  What the repository guarantees about whose documents it touches: the documents a request may see
  are those of its user, tenant or application that are not soft deleted (\<open>visible\<close>); queries
  return exactly visible documents and every operation on existing documents changes visible ones only.
\<close>

section \<open>Visible documents\<close>

definition isolated :: "'c CollectionLib \<Rightarrow> repo_ctx \<Rightarrow> bdoc \<Rightarrow> bool" where
  "isolated l ctx d \<longleftrightarrow>
     (let di = DataIsolation (GetMergedRepoOpt l ctx) in
      (di = DataIsolationUser \<and> ent_create (lib_zero l) \<noteq> None \<longrightarrow>
         (\<exists>u. CtxGetOperator ctx = Some u \<and> d ''created_by'' = Some (BStr u)))
      \<and> (di = DataIsolationTenant \<and> ent_tenant (lib_zero l) \<noteq> None \<longrightarrow>
         (\<exists>t. CtxGetTenantID ctx = Some t \<and> d ''tenant_id'' = Some (BStr t)))
      \<and> (di = DataIsolationApp \<and> ent_tenant (lib_zero l) \<noteq> None \<longrightarrow>
         (\<exists>a. CtxGetAppID ctx = Some a \<and> d ''app_id'' = Some (BStr a))))"

definition undeleted :: "'c CollectionLib \<Rightarrow> repo_ctx \<Rightarrow> bdoc \<Rightarrow> bool" where
  "undeleted l ctx d \<longleftrightarrow>
     (SoftDelete (GetMergedRepoOpt l ctx) \<noteq> SoftDeleteDisable \<and> ent_delete (lib_zero l) \<noteq> None
        \<longrightarrow> d ''deleted_at'' = None)"

definition visible :: "'c CollectionLib \<Rightarrow> repo_ctx \<Rightarrow> bdoc \<Rightarrow> bool" where
  "visible l ctx d \<longleftrightarrow> isolated l ctx d \<and> undeleted l ctx d"

text \<open>The keys a filter must leave to the repository.\<close>

definition injected_keys :: "string set" where
  "injected_keys = {''created_by'', ''tenant_id'', ''app_id'', ''deleted_at''}"

text \<open>From one content to another every document the request may not see stays as it is.\<close>

definition guarded ::
    "'c CollectionLib \<Rightarrow> repo_ctx \<Rightarrow> (bson \<Rightarrow> bdoc option) \<Rightarrow> (bson \<Rightarrow> bdoc option) \<Rightarrow> bool" where
  "guarded l ctx m m' \<longleftrightarrow> (\<forall>k d. m k = Some d \<longrightarrow> \<not> visible l ctx d \<longrightarrow> m' k = Some d)"

lemma guarded_same [simp, intro]: "guarded l ctx m m"
  by (simp add: guarded_def)

lemma guarded_trans: "guarded l ctx m m1 \<Longrightarrow> guarded l ctx m1 m2 \<Longrightarrow> guarded l ctx m m2"
  by (auto simp: guarded_def)

lemma guarded_upd: "m k = Some d \<Longrightarrow> visible l ctx d \<Longrightarrow> guarded l ctx m (m(k := x))"
  by (auto simp: guarded_def)

lemma guarded_new: "m k = None \<Longrightarrow> guarded l ctx m (m(k := x))"
  by (auto simp: guarded_def)

lemma guarded_insert_all:
  "(\<And>e. e \<in> set es \<Longrightarrow> m (bv (ent_ID e)) = None) \<Longrightarrow> guarded l ctx m (insert_all enc bv es m)"
proof -
  have "m k = Some d \<Longrightarrow> (\<And>e. e \<in> set es \<Longrightarrow> bv (ent_ID e) \<noteq> k) \<Longrightarrow> insert_all enc bv es m k = Some d" for k d
  proof (induction es arbitrary: m)
    case (Cons e es)
    from Cons.prems(2)[of e] have "bv (ent_ID e) \<noteq> k" by simp
    moreover from Cons.prems(2) have "bv (ent_ID x) \<noteq> k" if "x \<in> set es" for x using that by simp
    ultimately show ?case using Cons.prems(1) Cons.IH[of "m(bv (ent_ID e) \<mapsto> enc e)"]
      by (simp del: fun_upd_apply add: fun_upd_other)
  qed simp
  then show "(\<And>e. e \<in> set es \<Longrightarrow> m (bv (ent_ID e)) = None) \<Longrightarrow> guarded l ctx m (insert_all enc bv es m)"
    unfolding guarded_def by (metis option.distinct(1))
qed

section \<open>Association lists as maps\<close>

lemma set_update_here: "(k, v) \<in> set (AList.update k v xs)"
  by (induction xs) auto

lemma set_update_other: "x \<in> set xs \<Longrightarrow> fst x \<noteq> k \<Longrightarrow> x \<in> set (AList.update k v xs)"
  by (induction xs) auto

lemma set_update_distinct:
  "distinct (map fst xs) \<Longrightarrow> set (AList.update k v xs) = insert (k, v) {x \<in> set xs. fst x \<noteq> k}"
proof (induction xs)
  case (Cons p xs)
  obtain a b where p: "p = (a, b)" by fastforce
  from Cons.prems p have "\<And>w. (a, w) \<notin> set xs" by force
  with Cons p show ?case by (cases "a = k") auto
qed simp

lemma top_keys [simp]:
  "top_key ''_id''" "top_key ''created_by''" "top_key ''tenant_id''" "top_key ''app_id''"
  "top_key ''deleted_at''" "top_key ''updated_at''" "top_key ''created_at''" "top_key ''deleted_by''"
  "top_key ''updated_by''"
  by (simp_all add: top_key_def)

lemma in_audit_keys [simp]:
  "''_id'' \<in> set audit_keys" "''created_by'' \<in> set audit_keys" "''tenant_id'' \<in> set audit_keys"
  "''app_id'' \<in> set audit_keys" "''deleted_at'' \<in> set audit_keys" "''updated_at'' \<in> set audit_keys"
  "''created_at'' \<in> set audit_keys"
  by (simp_all add: audit_keys_def)

text \<open>What injection adds, as a list of conditions.\<close>

definition isolation_cond :: "'c CollectionLib \<Rightarrow> repo_ctx \<Rightarrow> bfilter" where
  "isolation_cond l ctx =
     (let di = DataIsolation (GetMergedRepoOpt l ctx) in
      if di = DataIsolationUser then
        (if ent_create (lib_zero l) \<noteq> None then [(''created_by'', CEq (GString (the (CtxGetOperator ctx))))] else [])
      else if di = DataIsolationTenant then
        (if ent_tenant (lib_zero l) \<noteq> None then [(''tenant_id'', CEq (GString (the (CtxGetTenantID ctx))))] else [])
      else if di = DataIsolationApp then
        (if ent_tenant (lib_zero l) \<noteq> None then [(''app_id'', CEq (GString (the (CtxGetAppID ctx))))] else [])
      else [])"

definition deletion_cond :: "'c CollectionLib \<Rightarrow> repo_ctx \<Rightarrow> bfilter" where
  "deletion_cond l ctx =
     (if SoftDelete (GetMergedRepoOpt l ctx) = SoftDeleteDisable then []
      else if ent_delete (lib_zero l) \<noteq> None then [(''deleted_at'', CExists False)] else [])"

fun update_each :: "bfilter \<Rightarrow> bfilter \<Rightarrow> bfilter" where
  "update_each [] f = f"
| "update_each ((k, v) # kvs) f = update_each kvs (AList.update k v f)"

definition has_subject :: "'c CollectionLib \<Rightarrow> repo_ctx \<Rightarrow> bool" where
  "has_subject l ctx \<longleftrightarrow>
     (let di = DataIsolation (GetMergedRepoOpt l ctx) in
      (di = DataIsolationUser \<and> ent_create (lib_zero l) \<noteq> None \<longrightarrow> CtxGetOperator ctx \<noteq> None)
      \<and> (di = DataIsolationTenant \<and> ent_tenant (lib_zero l) \<noteq> None \<longrightarrow> CtxGetTenantID ctx \<noteq> None)
      \<and> (di = DataIsolationApp \<and> ent_tenant (lib_zero l) \<noteq> None \<longrightarrow> CtxGetAppID ctx \<noteq> None))"

lemma injectCond_conds:
  "injectCond l ctx fo = Inr f \<longleftrightarrow> has_subject l ctx \<and>
     f = update_each (isolation_cond l ctx @ deletion_cond l ctx) (opt_list fo)"
  by (auto simp: injectCond_def injectIsolationCond_def injectSoftDeleteCond_def isolation_cond_def
      deletion_cond_def has_subject_def opt_list_def Let_def split: option.splits)

lemma injectCond_error:
  assumes "injectCond l ctx fo = Inl err"
  shows "\<not> has_subject l ctx \<and> CodeOf (Some err) = ErrCodeValidate"
  using assms
  by (auto simp: injectCond_def injectIsolationCond_def injectSoftDeleteCond_def has_subject_def
      Let_def split: option.splits if_splits)

lemma update_each_keep: "x \<in> set f \<Longrightarrow> fst x \<notin> fst ` set cs \<Longrightarrow> x \<in> set (update_each cs f)"
  by (induction cs f rule: update_each.induct) (auto intro: set_update_other)

lemma update_each_conds: "distinct (map fst cs) \<Longrightarrow> set cs \<subseteq> set (update_each cs f)"
proof (induction cs f rule: update_each.induct)
  case (2 k v kvs f)
  from "2.prems" have "(k, v) \<in> set (update_each kvs (AList.update k v f))"
    by (intro update_each_keep set_update_here) auto
  with 2 show ?case by simp
qed simp

lemma update_each_distinct: "distinct (map fst f) \<Longrightarrow> distinct (map fst (update_each cs f))"
  by (induction cs f rule: update_each.induct) (auto simp: distinct_update)

lemma update_each_set:
  "distinct (map fst f) \<Longrightarrow> distinct (map fst cs) \<Longrightarrow>
   set (update_each cs f) = set cs \<union> {x \<in> set f. fst x \<notin> fst ` set cs}"
proof (induction cs f rule: update_each.induct)
  case (2 k v kvs f)
  then show ?case by (auto simp: distinct_update set_update_distinct image_iff)
qed simp

lemma cond_keys:
  "distinct (map fst (isolation_cond l ctx @ deletion_cond l ctx))"
  "fst ` set (isolation_cond l ctx @ deletion_cond l ctx) \<subseteq> injected_keys"
  by (auto simp: isolation_cond_def deletion_cond_def injected_keys_def Let_def)

lemma visible_subject: "visible l ctx d \<Longrightarrow> has_subject l ctx"
  by (auto simp: visible_def isolated_def has_subject_def Let_def)

section \<open>Injected filters select visible documents\<close>

context entity_store
begin

lemma conds_visible:
  assumes "docs c k = Some d" and "has_subject l ctx"
  shows "matches (isolation_cond l ctx @ deletion_cond l ctx) d \<longleftrightarrow> visible l ctx d"
proof -
  have eq: "matches [(q, CEq (GString s))] d \<longleftrightarrow> d q = Some (BStr s)" if "q \<in> set audit_keys" "top_key q" for q s
    using matches_eq[of q "GString s" d] docs_plain[OF assms(1) that(1)] that by (simp add: bv_string)
  have cons: "matches (x # xs) d \<longleftrightarrow> matches [x] d \<and> matches xs d" for x xs
    using matches_all[of "x # xs" d] matches_all[of xs d] by simp
  have nil: "matches [] d" using matches_all[of "[]" d] by simp
  have app: "matches (xs @ ys) d \<longleftrightarrow> matches xs d \<and> matches ys d" for xs ys
    using matches_all[of "xs @ ys" d] matches_all[of xs d] matches_all[of ys d] by auto
  have "matches (isolation_cond l ctx) d \<longleftrightarrow> isolated l ctx d"
    using assms(2) by (auto simp: isolation_cond_def isolated_def has_subject_def Let_def nil eq)
  moreover have "matches (deletion_cond l ctx) d \<longleftrightarrow> undeleted l ctx d"
    by (auto simp: deletion_cond_def undeleted_def nil matches_absent)
  ultimately show ?thesis by (simp add: app visible_def)
qed

lemma matches_mono: "matches f d \<Longrightarrow> set g \<subseteq> set f \<Longrightarrow> matches g d"
  using matches_all[of f d] matches_all[of g d] by blast

text \<open>Whatever the caller's filter, also one that names the injected keys itself.\<close>

lemma injected_visible:
  assumes "injectCond l ctx fo = Inr f" and "docs c k = Some d" and "matches f d"
  shows "visible l ctx d"
proof -
  from assms(1) have s: "has_subject l ctx" and f: "f = update_each (isolation_cond l ctx @ deletion_cond l ctx) (opt_list fo)"
    by (simp_all add: injectCond_conds)
  from update_each_conds[OF cond_keys(1)] have "set (isolation_cond l ctx @ deletion_cond l ctx) \<subseteq> set f" by (simp only: f)
  with assms(3) have "matches (isolation_cond l ctx @ deletion_cond l ctx) d" by (rule matches_mono)
  with conds_visible[OF assms(2) s] show ?thesis by simp
qed

text \<open>A filter that leaves the injected keys alone keeps its own meaning.\<close>

lemma injected_exact:
  assumes "injectCond l ctx fo = Inr f" and "docs c k = Some d"
    and "distinct (map fst (opt_list fo))" and "fst ` set (opt_list fo) \<inter> injected_keys = {}"
  shows "matches f d \<longleftrightarrow> matches (opt_list fo) d \<and> visible l ctx d"
proof -
  define cs where "cs = isolation_cond l ctx @ deletion_cond l ctx"
  from assms(1) have s: "has_subject l ctx" and f: "f = update_each cs (opt_list fo)"
    by (simp_all add: injectCond_conds cs_def)
  from assms(4) cond_keys(2)[of l ctx] have "{x \<in> set (opt_list fo). fst x \<notin> fst ` set cs} = set (opt_list fo)"
    unfolding cs_def by blast
  then have "set f = set cs \<union> set (opt_list fo)"
    using update_each_set[OF assms(3), of cs] cond_keys(1)[of l ctx] by (simp add: f cs_def)
  then have "matches f d \<longleftrightarrow> matches cs d \<and> matches (opt_list fo) d"
    using matches_all[of f d] matches_all[of cs d] matches_all[of "opt_list fo" d] by auto
  with conds_visible[OF assms(2) s] show ?thesis by (auto simp: cs_def)
qed

end

section \<open>Repositories\<close>

text \<open>A \<open>CollectionLib\<close> over a collection that behaves as documented.\<close>

locale repository =
  entity_store bv enc dec matches blt upd "lib_cls l" docs
  for bv enc dec matches blt upd and l :: "'c CollectionLib" and docs :: "'c \<Rightarrow> bson \<Rightarrow> bdoc option" +
  assumes id_key: "lib_idKey l = ''_id''"

text \<open>A row the request may be shown: the decoding of a visible document.\<close>

definition shown :: "(bdoc \<Rightarrow> doc) \<Rightarrow> 'c CollectionLib \<Rightarrow> repo_ctx \<Rightarrow> (bson \<Rightarrow> bdoc option) \<Rightarrow> doc \<Rightarrow> bool" where
  "shown dec l ctx m e \<longleftrightarrow> (\<exists>k d. m k = Some d \<and> visible l ctx d \<and> e = dec d)"

lemma set_window: "x \<in> set (window opts xs) \<Longrightarrow> x \<in> set xs"
  by (auto simp: window_def Let_def split: option.splits if_splits dest: in_set_dropD in_set_takeD)

lemma shownI: "m k = Some d \<Longrightarrow> visible l ctx d \<Longrightarrow> shown dec l ctx m (dec d)"
  by (auto simp: shown_def)

context repository
begin

lemma shown_rows:
  assumes "cls_Find (lib_cls l) c f opts = (Inr (Inr es), c')" and "e \<in> set es"
    and "\<And>k d. docs c k = Some d \<Longrightarrow> matches f d \<Longrightarrow> visible l ctx d"
  shows "shown dec l ctx (docs c) e"
proof -
  from Find_ok[OF assms(1)] obtain ds where ds: "set ds = matching (docs c) (matches f)" "es = map dec (window opts ds)" by auto
  with assms(2) obtain d where "d \<in> set ds" "e = dec d" by (auto dest: set_window)
  with ds assms(3) show ?thesis by (auto simp: matching_def intro: shownI)
qed

lemma Find_docs: "cls_Find (lib_cls l) c f opts = (r, c') \<Longrightarrow> docs c' = docs c"
  by (cases r rule: sum.exhaust) (auto dest: Find_failed Find_undecoded Find_ok simp: split: sum.splits, metis Find_undecoded Find_ok sum.exhaust)

lemma Count_docs: "cls_CountDocuments (lib_cls l) c f = (r, c') \<Longrightarrow> docs c' = docs c"
  by (cases r) (auto dest: Count_ok Count_failed)

lemma feed_filter_visible:
  assumes "injectCond l ctx fo = Inr f0" and "feed_filter l q tok desc f0 = Inr f" and "docs c k = Some d"
    and "matches f d"
  shows "visible l ctx d"
proof -
  have "matches f0 d"
  proof (cases "tok = []")
    case False
    with assms(2) obtain cf where f: "f = mergeFeedFilter f0 cf"
      by (auto simp: feed_filter_def split: sum.splits)
    show ?thesis
    proof (cases "f0 = [] \<or> cf = []")
      case True
      then show ?thesis using assms(4) f matches_all[of "[]" d] by (auto simp: mergeFeedFilter_def split: if_splits)
    next
      case False
      with f assms(4) have "matches [(''$and'', CAnd [f0, cf])] d" by (simp add: mergeFeedFilter_def)
      then show ?thesis by (simp add: matches_and)
    qed
  qed (use assms(2,4) in \<open>simp add: feed_filter_def\<close>)
  with injected_visible[OF assms(1,3)] show ?thesis by simp
qed

lemma Find_shown:
  "repo_Find l ctx fo opts c = (r, c') \<Longrightarrow>
   docs c' = docs c \<and> (\<forall>es. r = Inr es \<longrightarrow> (\<forall>e \<in> set es. shown dec l ctx (docs c) e))"
  by (auto simp: repo_Find_def split: sum.splits prod.splits dest: Find_docs
      intro: shown_rows injected_visible)

lemma PageQuery_shown:
  "PageQuery l ctx input c = (r, input', c') \<Longrightarrow>
   docs c' = docs c \<and> (\<forall>res. r = Inr res \<longrightarrow> (\<forall>e \<in> set (paged_Rows res). shown dec l ctx (docs c) e))"
  by (auto simp: PageQuery_def Let_def split: sum.splits prod.splits dest!: Count_docs dest: Find_docs)
    (metis shown_rows injected_visible)+

lemma FeedQuery_shown:
  "FeedQuery l ctx input c = (r, input', c') \<Longrightarrow>
   docs c' = docs c \<and> (\<forall>res. r = Inr res \<longrightarrow> (\<forall>e \<in> set (feed_Rows res). shown dec l ctx (docs c) e))"
  by (auto simp: FeedQuery_def Let_def split: sum.splits prod.splits if_splits dest: Find_docs dest!: in_set_takeD
      intro: shown_rows feed_filter_visible)

text \<open>An invariant of the closure is an invariant of the retry loop.\<close>

lemma retry_inv:
  assumes "i \<noteq> 0" and "I s" and "cls_retry_Do (lib_cls l) i p g s = (r, s')"
    and "\<And>s r s'. I s \<Longrightarrow> g s = (r, s') \<Longrightarrow> I s' \<and> P r s'"
  shows "I s' \<and> P r s'"
  using assms(1-3)
proof (induction i arbitrary: s)
  case (Suc i)
  obtain r1 s1 where g: "g s = (r1, s1)" by (cases "g s")
  from assms(4)[OF Suc.prems(2) g] have s1: "I s1" "P r1 s1" by simp_all
  from Suc.prems(3) have "(case r1 of None \<Rightarrow> (None, s1)
      | Some err \<Rightarrow> if Suc i \<le> 1 \<or> \<not> p err then (Some err, s1) else cls_retry_Do (lib_cls l) i p g s1) = (r, s')"
    unfolding retry_Do[of "Suc i" p g s, OF nat.distinct(2)] g prod.case diff_Suc_1 .
  with s1 Suc.IH[OF _ s1(1)] show ?case by (auto split: option.splits if_splits)
qed simp

text \<open>The failures of a read: one of the driver, wrapped, or a missing document.\<close>

definition read_failure :: "(bson \<Rightarrow> bdoc option) \<Rightarrow> bfilter \<Rightarrow> string \<Rightarrow> go_error \<Rightarrow> bool" where
  "read_failure m f rs err \<longleftrightarrow> (\<exists>e0. err = WrapError ''mongo find failed: '' e0 [])
     \<or> err = NewResourceNotFoundError rs None \<and> matching m (matches f) = {}"

lemma find_one_attempt_step:
  "find_one_attempt l f rs (ret, c) = (r, (ret', c')) \<Longrightarrow>
   docs c' = docs c \<and> (r = None \<longrightarrow> (\<exists>d \<in> matching (docs c) (matches f). ret' = Some (dec d)))
   \<and> (\<forall>err. r = Some err \<longrightarrow> read_failure (docs c) f rs err)"
  by (auto simp: find_one_attempt_def read_failure_def split: prod.splits sum.splits option.splits
      dest: FindOne_some FindOne_none FindOne_failed)

lemma GetByFilter_found:
  assumes "GetByFilter l ctx fo c = (r, c')" and "injectCond l ctx fo = Inr f"
  shows "docs c' = docs c \<and> (\<forall>e. r = Inr e \<longrightarrow> (\<exists>d \<in> matching (docs c) (matches f). e = dec d))
    \<and> (\<forall>err. r = Inl err \<longrightarrow> read_failure (docs c) f (resourceByFilter l f) err)"
proof -
  let ?rs = "resourceByFilter l f"
  define I where "I = (\<lambda>s :: doc option \<times> 'c. docs (snd s) = docs c)"
  define P where "P = (\<lambda>x (s :: doc option \<times> 'c).
     (x = None \<longrightarrow> (\<exists>d \<in> matching (docs c) (matches f). fst s = Some (dec d)))
     \<and> (\<forall>err. x = Some err \<longrightarrow> read_failure (docs c) f ?rs err))"
  have step: "I s' \<and> P x s'" if "I s" "find_one_attempt l f ?rs s = (x, s')" for s x s'
    using that find_one_attempt_step[of f ?rs "fst s" "snd s" x "fst s'" "snd s'"] by (simp add: I_def P_def)
  have fin: ?thesis
    if "I s'" "P x s'" "(case x of Some err \<Rightarrow> (Inl err, snd s')
        | None \<Rightarrow> (Inr (case fst s' of Some e \<Rightarrow> e | None \<Rightarrow> lib_zero l), snd s')) = (r, c')" for x s'
    using that by (auto simp: I_def P_def split: option.splits)
  define g where "g = find_one_attempt l f ?rs"
  obtain x1 s1 where a: "g (None, c) = (x1, s1)" by (cases "g (None, c)")
  obtain x2 s2 where b: "cls_retry_Do (lib_cls l) 3 (\<lambda>err. IsErrCode ErrCodeNotFound (Some err)) g (None, c) = (x2, s2)" by (metis surj_pair)
  have i0: "I (None, c)" by (simp add: I_def)
  note p1 = step[OF i0 a[unfolded g_def]]
  have p2: "I s2 \<and> P x2 s2"
    by (rule retry_inv[where I = I and P = P, OF _ i0 b]) (simp, rule step, assumption, simp only: g_def)
  show ?thesis
  proof (cases "TryFixSyncDelay (GetMergedRepoOpt l ctx) = FixedStrategyNone \<or> TryFixSyncDelay (GetMergedRepoOpt l ctx) = []")
    case True
    show ?thesis
      by (rule fin[of s1 x1]) (use p1 assms True a in \<open>auto simp: GetByFilter_def g_def Let_def split: prod.splits option.splits\<close>)
  next
    case False
    show ?thesis
      by (rule fin[of s2 x2]) (use p2 assms False b in \<open>auto simp: GetByFilter_def g_def Let_def split: prod.splits option.splits\<close>)
  qed
qed

lemma GetByFilter_shown:
  assumes "GetByFilter l ctx fo c = (r, c')"
  shows "docs c' = docs c \<and> (\<forall>e. r = Inr e \<longrightarrow> shown dec l ctx (docs c) e)"
proof (cases "injectCond l ctx fo")
  case (Inl err)
  with assms show ?thesis by (auto simp: GetByFilter_def)
next
  case (Inr f)
  have "shown dec l ctx (docs c) (dec d)" if "d \<in> matching (docs c) (matches f)" for d
  proof -
    from that obtain k where k: "docs c k = Some d" "matches f d" by (auto simp: matching_def)
    from shownI[of "docs c" k d l ctx dec, OF k(1) injected_visible[OF Inr k]] show ?thesis .
  qed
  with GetByFilter_found[OF assms Inr] show ?thesis by blast
qed

end

section \<open>Operations and histories\<close>

text \<open>A call of the repository, and the collection it leaves behind.\<close>

datatype repo_op =
    RFind "bfilter option" find_opts
  | RCount "bfilter option"
  | RPage PageQueryInput
  | RFeed FeedQueryInput
  | RGet go_val
  | RGetBy "bfilter option"
  | RCreate doc
  | RUpdate doc
  | RUpsert doc
  | RPatch doc
  | RPatchRaw PatchRawInput
  | RDelete doc
  | RBatchCreate "doc list"
  | RBatchUpdate "doc list"
  | RBatchDelete "doc list"
  | RBatchDeleteByIDs "go_val list"
  | RBatchDeleteByFilter "bfilter option"

fun run_op :: "'c CollectionLib \<Rightarrow> repo_ctx \<Rightarrow> clock \<Rightarrow> repo_op \<Rightarrow> 'c \<Rightarrow> 'c" where
  "run_op l ctx clk (RFind f opts) c = snd (repo_Find l ctx f opts c)"
| "run_op l ctx clk (RCount f) c = snd (repo_Count l ctx f c)"
| "run_op l ctx clk (RPage input) c = snd (snd (PageQuery l ctx input c))"
| "run_op l ctx clk (RFeed input) c = snd (snd (FeedQuery l ctx input c))"
| "run_op l ctx clk (RGet i) c = snd (repo_Get l ctx i c)"
| "run_op l ctx clk (RGetBy f) c = snd (GetByFilter l ctx f c)"
| "run_op l ctx clk (RCreate e) c = snd (snd (repo_Create l ctx clk e c))"
| "run_op l ctx clk (RUpdate e) c = snd (snd (repo_Update l ctx clk e c))"
| "run_op l ctx clk (RUpsert e) c = snd (snd (repo_Upsert l ctx clk e c))"
| "run_op l ctx clk (RPatch e) c = snd (snd (repo_Patch l ctx clk e c))"
| "run_op l ctx clk (RPatchRaw input) c = snd (snd (PatchRaw l ctx clk input c))"
| "run_op l ctx clk (RDelete e) c = snd (snd (repo_Delete l ctx clk e c))"
| "run_op l ctx clk (RBatchCreate es) c = snd (snd (BatchCreate l ctx clk es c))"
| "run_op l ctx clk (RBatchUpdate es) c = snd (snd (BatchUpdate l ctx clk es c))"
| "run_op l ctx clk (RBatchDelete es) c = snd (BatchDelete l ctx clk es c)"
| "run_op l ctx clk (RBatchDeleteByIDs ids) c = snd (BatchDeleteByIDs l ctx clk ids c)"
| "run_op l ctx clk (RBatchDeleteByFilter f) c = snd (BatchDeleteByFilter l ctx clk f c)"

fun run_history :: "'c CollectionLib \<Rightarrow> (repo_ctx \<times> clock \<times> repo_op) list \<Rightarrow> 'c \<Rightarrow> 'c" where
  "run_history l [] c = c"
| "run_history l ((ctx, clk, x) # h) c = run_history l h (run_op l ctx clk x c)"

text \<open>
  The calls whose filter carries the injected conditions: documents have an identifier, a raw
  patch does not ask to skip the conditions, and an upserted document has a creation time or no
  creation audit at all.
\<close>

fun has_id :: "doc \<Rightarrow> bool" where
  "has_id e \<longleftrightarrow> \<not> go_IsZero (ent_ID e)"

fun checked_op :: "repo_op \<Rightarrow> bool" where
  "checked_op (RUpdate e) \<longleftrightarrow> has_id e"
| "checked_op (RUpsert e) \<longleftrightarrow> has_id e \<and>
     (case ent_create e of None \<Rightarrow> True | Some cr \<Rightarrow> \<not> IsZero (snd (GetCreatorInfo cr)))"
| "checked_op (RPatchRaw input) \<longleftrightarrow> \<not> pr_SkipInjectCond input"
| "checked_op (RDelete e) \<longleftrightarrow> has_id e"
| "checked_op (RBatchUpdate es) \<longleftrightarrow> list_all has_id es"
| "checked_op x \<longleftrightarrow> True"

section \<open>Audits keep identifiers\<close>

lemma CtxUpdateAudit_keeps:
  "CtxUpdateAudit ctx now e = (r, e') \<Longrightarrow> ent_ID e' = ent_ID e \<and> ent_create e' = ent_create e
     \<and> ent_tenant e' = ent_tenant e \<and> ent_delete e' = ent_delete e \<and> ent_body e' = ent_body e"
  by (auto simp: CtxUpdateAudit_def split: option.splits)

lemma UpdateLockAndAudit_keeps:
  "UpdateLockAndAudit ctx now e opt = (r, e') \<Longrightarrow> ent_ID e' = ent_ID e \<and> ent_create e' = ent_create e
     \<and> ent_tenant e' = ent_tenant e \<and> ent_delete e' = ent_delete e \<and> ent_body e' = ent_body e"
  by (auto simp: UpdateLockAndAudit_def CtxUpdateAuditAndEnv_def Let_def split: prod.splits option.splits if_splits
      dest: CtxUpdateAudit_keeps)

lemma CtxDeleteAudit_keeps:
  "CtxDeleteAudit ctx now e = (r, e') \<Longrightarrow> ent_ID e' = ent_ID e \<and> ent_create e' = ent_create e
     \<and> ent_tenant e' = ent_tenant e \<and> ent_update e' = ent_update e \<and> ent_body e' = ent_body e"
  by (auto simp: CtxDeleteAudit_def split: option.splits)

lemma CtxCreateAudit_keeps:
  "CtxCreateAudit ctx clk e = (r, e') \<Longrightarrow> ent_ID e' = ent_ID e \<and> ent_delete e' = ent_delete e \<and> ent_body e' = ent_body e"
  by (auto simp: CtxCreateAudit_def split: option.splits prod.splits dest!: CtxUpdateAudit_keeps)

lemma baseUpdateOp_keeps:
  "baseUpdateOp l ctx clk e = (r, e') \<Longrightarrow> ent_ID e' = ent_ID e \<and> ent_create e' = ent_create e
     \<and> ent_tenant e' = ent_tenant e \<and> ent_delete e' = ent_delete e \<and> ent_body e' = ent_body e"
  by (auto simp: baseUpdateOp_def Let_def split: prod.splits sum.splits dest!: UpdateLockAndAudit_keeps)

lemma baseUpdateOp_filter:
  "baseUpdateOp l ctx clk e = (Inr f, e') \<Longrightarrow> \<exists>fo. injectCond l ctx fo = Inr f"
  by (auto simp: baseUpdateOp_def Let_def split: prod.splits sum.splits)

lemma audit_docs_ids:
  "audit_docs l ctx clk es = (None, es') \<Longrightarrow> e \<in> set es' \<Longrightarrow> has_id e"
proof (induction es arbitrary: clk es' e)
  case (Cons a es)
  from Cons.prems(1) obtain a1 es1 where a1: "CtxCreateAudit ctx clk a = (None, a1)" "\<not> go_IsZero (ent_ID a)"
    and es1: "audit_docs l ctx (later (later clk)) es = (None, es1)" "es' = a1 # es1"
    by (auto simp: checkIfIDExisted_def entity_GetID_def split: option.splits prod.splits if_splits)
  from CtxCreateAudit_keeps[OF a1(1)] a1(2) Cons.IH[OF es1(1)] Cons.prems(2) es1(2) show ?case by auto
qed simp

section \<open>Every operation is guarded\<close>

context repository
begin

lemma replace_guarded:
  assumes "cls_ReplaceOne (lib_cls l) c f e ups = (r, c')" and "has_id e"
    and vis: "\<And>k d. docs c k = Some d \<Longrightarrow> matches f d \<Longrightarrow> visible l ctx d"
  shows "guarded l ctx (docs c) (docs c')"
proof -
  have gm: "guarded l ctx (docs c) ((docs c)(k := x))" if "docs c k = Some d" "matches f d" for k d x
    by (rule guarded_upd[where m = "docs c" and k = k and d = d, OF that(1) vis[OF that]])
  show ?thesis
  proof (cases r)
  case (Inl err)
  from ReplaceOne_failed[OF assms(1)[unfolded Inl]] assms(2)
  consider "docs c' = docs c"
    | d where "docs c (bv (ent_ID e)) = Some d" "matches f d" "docs c' = (docs c)(bv (ent_ID e) \<mapsto> enc e)"
    | "docs c (bv (ent_ID e)) = None" "docs c' = (docs c)(bv (ent_ID e) \<mapsto> enc e)"
    by auto
  then show ?thesis by cases (auto intro: gm guarded_new)
next
  case (Inr x)
  obtain n m j where x: "x = (n, m, j)" by (cases x)
  show ?thesis
  proof (cases "n = 0")
    case True
    from ReplaceOne_none[OF assms(1)[unfolded Inr x True]] assms(2) show ?thesis
      by (auto intro: guarded_new split: if_splits)
  next
    case False
    from ReplaceOne_matched[OF assms(1)[unfolded Inr x] False] assms(2) show ?thesis
      by (auto intro: gm)
  qed
  qed
qed

lemma commonReplace_guarded:
  assumes run: "commonReplace l ctx clk e ups c = (r, e', c')" and "has_id e"
    and created: "ups \<Longrightarrow> (case ent_create e of None \<Rightarrow> True | Some cr \<Rightarrow> \<not> IsZero (snd (GetCreatorInfo cr)))"
  shows "guarded l ctx (docs c) (docs c')"
proof -
  have base: "auditAndBuildReplaceFilter l ctx clk e ups = baseUpdateOp l ctx clk e"
    using created by (auto simp: auditAndBuildReplaceFilter_def split: option.splits)
  obtain r1 e1 where b: "baseUpdateOp l ctx clk e = (r1, e1)" by fastforce
  show ?thesis
  proof (cases r1)
    case (Inl err)
    with run b base show ?thesis by (simp add: commonReplace_def)
  next
    case (Inr f)
    obtain r2 c2 where rp: "cls_ReplaceOne (lib_cls l) c f e1 ups = (r2, c2)" by fastforce
    from baseUpdateOp_filter[OF b[unfolded Inr]] obtain fo where inj: "injectCond l ctx fo = Inr f" ..
    from baseUpdateOp_keeps[OF b] assms(2) have "has_id e1" by simp
    from replace_guarded[OF rp this, of ctx] injected_visible[OF inj] have g: "guarded l ctx (docs c) (docs c2)" by blast
    have "docs c' = docs c2"
      using run unfolding commonReplace_def base b Inr rp
      by (auto simp: rp Let_def split: sum.splits prod.splits if_splits dest!: Count_docs)
    with g show ?thesis by simp
  qed
qed

lemma BatchUpdate_guarded:
  "BatchUpdate l ctx clk es c = (r, es', c') \<Longrightarrow> list_all has_id es \<Longrightarrow> guarded l ctx (docs c) (docs c')"
proof (induction es arbitrary: clk c r es' c')
  case (Cons e es)
  obtain r1 e1 c1 where u: "repo_Update l ctx clk e c = (r1, e1, c1)" by (cases "repo_Update l ctx clk e c")
  from u Cons.prems(2) have g: "guarded l ctx (docs c) (docs c1)"
    by (auto simp: repo_Update_def intro: commonReplace_guarded)
  show ?case
  proof (cases r1)
    case (Inl err)
    with Cons.prems(1) u g show ?thesis by simp
  next
    case (Inr x)
    obtain r2 es2 c2 where b: "BatchUpdate l ctx (later clk) es c1 = (r2, es2, c2)" by (cases "BatchUpdate l ctx (later clk) es c1")
    with Cons.prems(1) u Inr have "c' = c2" by simp
    with Cons.IH[OF b] Cons.prems(2) guarded_trans[OF g] show ?thesis by simp
  qed
qed simp

lemma patch_send_guarded:
  assumes "patch_send l input c = (r, c')"
    and vis: "\<And>k d. docs c k = Some d \<Longrightarrow> matches (opt_list (pr_Filter input)) d \<Longrightarrow> visible l ctx d"
  shows "guarded l ctx (docs c) (docs c')"
proof -
  define f where "f = opt_list (pr_Filter input)"
  have gm: "guarded l ctx (docs c) ((docs c)(k := x))" if "docs c k = Some d" "matches f d" for k d x
    by (rule guarded_upd[where m = "docs c" and k = k and d = d, OF that(1) vis[OF that[unfolded f_def]]])
  have one: "guarded l ctx (docs c) (docs c1)" if "cls_UpdateOne (lib_cls l) c f u = (r1, c1)" for u r1 c1
  proof (cases r1)
    case (Inl err)
    from UpdateOne_failed[OF that[unfolded Inl]] show ?thesis by (auto intro: gm)
  next
    case (Inr x)
    obtain n m where x: "x = (n, m)" by fastforce
    show ?thesis
      using UpdateOne_matched[OF that[unfolded Inr x]] UpdateOne_none[of c f u m c1] that Inr x
      by (cases "n = 0") (auto intro: gm)
  qed
  have many: "guarded l ctx (docs c) (docs c1)" if "cls_UpdateMany (lib_cls l) c f u = (r1, c1)" for u r1 c1
  proof (cases r1)
    case (Inl err)
    have "docs c1 k = Some d" if "docs c k = Some d" "\<not> visible l ctx d" for k d
      using UpdateMany_failed[OF \<open>cls_UpdateMany (lib_cls l) c f u = (r1, c1)\<close>[unfolded Inl], of k] vis that by (auto simp: f_def)
    then show ?thesis by (simp add: guarded_def)
  next
    case (Inr x)
    obtain n m where x: "x = (n, m)" by fastforce
    from UpdateMany_ok[OF that[unfolded Inr x]] vis show ?thesis by (auto simp: guarded_def f_def)
  qed
  from assms(1) show ?thesis
    by (auto simp: patch_send_def Let_def f_def[symmetric] split: sum.splits prod.splits if_splits dest: one many)
qed

lemma PatchRaw_guarded:
  assumes "PatchRaw l ctx clk input c = (r, input', c')"
    and vis: "\<And>f k d. pr_SkipInjectCond input \<Longrightarrow> docs c k = Some d \<Longrightarrow> matches (opt_list (pr_Filter input)) d \<Longrightarrow>
      visible l ctx d"
  shows "guarded l ctx (docs c) (docs c')"
proof -
  have audit: "pr_Filter input2 = pr_Filter input1" if "patch_audit l ctx now input1 = (x, input2)" for now input1 x input2
    using that by (auto simp: patch_audit_def split: if_splits option.splits)
  have send: "guarded l ctx (docs c) (docs c1)"
    if a: "patch_audit l ctx (clk 0) input1 = (None, input2)" and s: "patch_send l input2 c = (r1, c1)"
      and v: "\<And>k d. docs c k = Some d \<Longrightarrow> matches (opt_list (pr_Filter input1)) d \<Longrightarrow> visible l ctx d"
    for input1 input2 r1 c1
    by (rule patch_send_guarded[OF s]) (use v audit[OF a] in simp)
  show ?thesis
  proof (cases "pr_SkipInjectCond input")
    case True
    with assms(1) show ?thesis
      by (auto simp: PatchRaw_def split: prod.splits option.splits intro!: send[of input] vis)
  next
    case False
    show ?thesis
    proof (cases "injectCond l ctx (pr_Filter input)")
      case (Inl err)
      with False assms(1) show ?thesis by (simp add: PatchRaw_def)
    next
      case (Inr f)
      have v: "visible l ctx d" if "docs c k = Some d" "matches f d" for k d
        by (rule injected_visible[OF Inr that])
      show ?thesis
        using False Inr assms(1)
        by (auto simp: PatchRaw_def opt_list_def split: prod.splits option.splits intro!: send[of "input\<lparr>pr_Filter := Some f\<rparr>"] v)
    qed
  qed
qed

lemma Patch_guarded:
  assumes "repo_Patch l ctx clk e c = (r, e', c')"
  shows "guarded l ctx (docs c) (docs c')"
proof -
  obtain r1 e1 where b: "baseUpdateOp l ctx clk e = (r1, e1)" by fastforce
  show ?thesis
  proof (cases r1)
    case (Inl err)
    with assms b show ?thesis by (simp add: repo_Patch_def)
  next
    case (Inr f)
    define input where "input = \<lparr>pr_Filter = Some f, pr_PatchPayload = BuildPatchPayload (entity_struct e1),
       pr_UnsetPayload = None, pr_IsMany = False, pr_SkipInjectCond = True\<rparr>"
    obtain r2 i2 c2 where p: "PatchRaw l ctx (later clk) input c = (r2, i2, c2)" by (cases "PatchRaw l ctx (later clk) input c")
    from baseUpdateOp_filter[OF b[unfolded Inr]] obtain fo where inj: "injectCond l ctx fo = Inr f" ..
    from assms b Inr p have "c' = c2" by (simp add: repo_Patch_def input_def)
    moreover have "guarded l ctx (docs c) (docs c2)"
      by (rule PatchRaw_guarded[OF p]) (auto simp: input_def opt_list_def intro: injected_visible[OF inj])
    ultimately show ?thesis by simp
  qed
qed

lemma DeleteOne_guarded:
  assumes "cls_DeleteOne (lib_cls l) c f = (r, c')"
    and vis: "\<And>k d. docs c k = Some d \<Longrightarrow> matches f d \<Longrightarrow> visible l ctx d"
  shows "guarded l ctx (docs c) (docs c')"
proof -
  have gm: "guarded l ctx (docs c) ((docs c)(k := x))" if "docs c k = Some d" "matches f d" for k d x
    by (rule guarded_upd[where m = "docs c" and k = k and d = d, OF that(1) vis[OF that]])
  show ?thesis
  proof (cases r)
    case (Inl err)
    from DeleteOne_failed[OF assms(1)[unfolded Inl]] show ?thesis by (auto intro: gm)
  next
    case (Inr n)
    with assms(1) show ?thesis
      by (cases "n = 0") (auto intro: gm dest!: DeleteOne_some DeleteOne_none)
  qed
qed

lemma DeleteMany_guarded:
  assumes "cls_DeleteMany (lib_cls l) c f = (r, c')"
    and vis: "\<And>k d. docs c k = Some d \<Longrightarrow> matches f d \<Longrightarrow> visible l ctx d"
  shows "guarded l ctx (docs c) (docs c')"
proof (cases r)
  case (Inl err)
  have "docs c' k = Some d" if "docs c k = Some d" "\<not> visible l ctx d" for k d
    using DeleteMany_failed[OF assms(1)[unfolded Inl], of k] vis that by auto
  then show ?thesis by (simp add: guarded_def)
next
  case (Inr n)
  from DeleteMany_ok[OF assms(1)[unfolded Inr]] vis show ?thesis by (auto simp: guarded_def)
qed

lemma UpdateMany_guarded:
  assumes "cls_UpdateMany (lib_cls l) c f u = (r, c')"
    and vis: "\<And>k d. docs c k = Some d \<Longrightarrow> matches f d \<Longrightarrow> visible l ctx d"
  shows "guarded l ctx (docs c) (docs c')"
proof (cases r)
  case (Inl err)
  have "docs c' k = Some d" if "docs c k = Some d" "\<not> visible l ctx d" for k d
    using UpdateMany_failed[OF assms(1)[unfolded Inl], of k] vis that by auto
  then show ?thesis by (simp add: guarded_def)
next
  case (Inr x)
  obtain n m where x: "x = (n, m)" by fastforce
  from UpdateMany_ok[OF assms(1)[unfolded Inr x]] vis show ?thesis by (auto simp: guarded_def)
qed

lemma Delete_guarded:
  assumes "repo_Delete l ctx clk e c = (r, e', c')" and "has_id e"
  shows "guarded l ctx (docs c) (docs c')"
proof -
  obtain r1 e1 where a: "CtxDeleteAudit ctx (clk 0) e = (r1, e1)" by fastforce
  from CtxDeleteAudit_keeps[OF a] assms(2) have id1: "has_id e1" by simp
  obtain r2 e2 c2 where u: "repo_Update l ctx (later clk) e1 c = (r2, e2, c2)" by (cases "repo_Update l ctx (later clk) e1 c")
  from u id1 have gu: "guarded l ctx (docs c) (docs c2)" by (auto simp: repo_Update_def intro: commonReplace_guarded)
  show ?thesis
    using assms(1) gu unfolding repo_Delete_def a
    by (auto simp: u split: sum.splits prod.splits if_splits
        intro: DeleteOne_guarded injected_visible)
qed

lemma BatchDeleteByFilter_guarded:
  "BatchDeleteByFilter l ctx clk fo c = (r, c') \<Longrightarrow> guarded l ctx (docs c) (docs c')"
  by (auto simp: BatchDeleteByFilter_def split: sum.splits prod.splits if_splits option.splits
      intro: DeleteMany_guarded UpdateMany_guarded injected_visible)

lemma Create_guarded:
  assumes "repo_Create l ctx clk e c = (r, e', c')"
  shows "guarded l ctx (docs c) (docs c')"
proof -
  have ins: "guarded l ctx (docs c) (docs c1)"
    if "cls_InsertOne (lib_cls l) c a = (r1, c1)" "\<not> go_IsZero (ent_ID a)" for a r1 c1
    using that by (cases r1) (auto dest!: InsertOne_ok InsertOne_failed intro: guarded_new)
  show ?thesis
  proof (cases "go_IsZero (ent_ID e)")
    case True
    with assms show ?thesis by (simp add: repo_Create_def checkIfIDExisted_def entity_GetID_def)
  next
    case False
    obtain x a where au: "CtxCreateAudit ctx clk e = (x, a)" by fastforce
    obtain y c1 where i: "cls_InsertOne (lib_cls l) c a = (y, c1)" by fastforce
    from CtxCreateAudit_keeps[OF au] False ins[OF i] have "guarded l ctx (docs c) (docs c1)" by simp
    with assms False show ?thesis
      by (auto simp: repo_Create_def checkIfIDExisted_def entity_GetID_def au i split: option.splits if_splits)
  qed
qed

lemma BatchCreate_guarded:
  assumes "BatchCreate l ctx clk es c = (r, es', c')"
  shows "guarded l ctx (docs c) (docs c')"
proof -
  have ins: "guarded l ctx (docs c) (docs c1)"
    if "cls_InsertMany (lib_cls l) c as = (r1, c1)" "\<And>e. e \<in> set as \<Longrightarrow> \<not> go_IsZero (ent_ID e)" for as r1 c1
  proof (cases r1)
    case None
    from InsertMany_ok[OF that(1)[unfolded None] that(2)] show ?thesis by (auto intro: guarded_insert_all)
  next
    case (Some err)
    from InsertMany_failed[OF that(1)[unfolded Some] that(2)] show ?thesis by (auto intro!: guarded_insert_all)
  qed
  from assms show ?thesis
    by (auto simp: BatchCreate_def split: option.splits prod.splits if_splits intro!: ins dest: audit_docs_ids)
qed

end

end
