(* ===== verification/Mongox_Memory.thy ===== *)
theory Mongox_Memory
  imports Mongox_Guard
begin

text \<open>
  A reference collection for \<open>Mongox_Store\<close>: a list of documents. Documents whose identifier or audit
  fields are no plain values, and later documents with an identifier already used, do not count
  (\<open>live\<close>); a write that would store such a document is refused.
\<close>

section \<open>Values and codec\<close>

fun mem_bv :: "go_val \<Rightarrow> bson" where
  "mem_bv (GString s) = BStr s"
| "mem_bv (GInt i) = BInt i"
| "mem_bv (GUint n) = BInt (int n)"
| "mem_bv (GTime t) = BDate (t div Millisecond)"
| "mem_bv v = BOther []"

fun from_bson :: "bson \<Rightarrow> go_val" where
  "from_bson (BStr s) = GString s"
| "from_bson (BInt i) = GInt i"
| "from_bson (BDate i) = GTime (i * Millisecond)"
| "from_bson (BOther s) = GOther False s"

definition mem_enc :: "doc \<Rightarrow> bdoc" where
  "mem_enc e q =
     (case map_of
        [(''_id'', if go_IsZero (ent_ID e) then None else Some (mem_bv (ent_ID e))),
         (''created_at'', Option.bind (ent_create e) (\<lambda>a. stamp_of (GetCreateTimeRaw a))),
         (''created_by'', Option.bind (ent_create e) (\<lambda>a. text_of (fst (GetCreatorInfo a)))),
         (''updated_at'', Option.bind (ent_update e) (\<lambda>a. stamp_of (GetUpdateTimeRaw a))),
         (''updated_by'', Option.bind (ent_update e) (\<lambda>a. text_of (fst (GetUpdateInfo a)))),
         (''deleted_at'', Option.bind (ent_delete e) (\<lambda>a. stamp_of (GetDeleteTimeRaw a))),
         (''deleted_by'', Option.bind (ent_delete e) (\<lambda>a. text_of (fst (GetDeleteInfo a)))),
         (''tenant_id'', Option.bind (ent_tenant e) (\<lambda>a. text_of (TenantID a))),
         (''app_id'', Option.bind (ent_tenant e) (\<lambda>a. text_of (AppID a)))] q of
        Some v \<Rightarrow> v
      | None \<Rightarrow> map_of (map (\<lambda>(f, v). (tag_name f, mem_bv v)) (ent_body e)) q)"

definition str_field :: "bdoc \<Rightarrow> string \<Rightarrow> string" where
  "str_field d q = (case d q of Some (BStr s) \<Rightarrow> s | _ \<Rightarrow> [])"

definition time_field :: "bdoc \<Rightarrow> string \<Rightarrow> time" where
  "time_field d q = (case d q of Some (BDate i) \<Rightarrow> i * Millisecond | _ \<Rightarrow> zero_time)"

definition int_field :: "bdoc \<Rightarrow> string \<Rightarrow> int" where
  "int_field d q = (case d q of Some (BInt i) \<Rightarrow> i | _ \<Rightarrow> 0)"

text \<open>Decoding into the type of \<open>z\<close>.\<close>

definition mem_dec :: "doc \<Rightarrow> bdoc \<Rightarrow> doc" where
  "mem_dec z d =
     \<lparr>ent_ID = (case d ''_id'' of Some b \<Rightarrow> from_bson b | None \<Rightarrow> ent_ID z),
      ent_create = map_option (\<lambda>a. case a of
          ACreate c \<Rightarrow> ACreate \<lparr>CreatedAt = time_field d ''created_at'', CreatedBy = str_field d ''created_by''\<rparr>
        | ACreateMs c \<Rightarrow> ACreateMs \<lparr>CreatedAtMs = int_field d ''created_at'', CreatedByMs = str_field d ''created_by''\<rparr>) (ent_create z),
      ent_update = map_option (\<lambda>a. case a of
          AUpdate c \<Rightarrow> AUpdate \<lparr>UpdatedAt = time_field d ''updated_at'', UpdatedBy = str_field d ''updated_by''\<rparr>
        | AUpdateMs c \<Rightarrow> AUpdateMs \<lparr>UpdatedAtMs = int_field d ''updated_at'', UpdatedByMs = str_field d ''updated_by''\<rparr>) (ent_update z),
      ent_delete = map_option (\<lambda>a. case a of
          ADelete c \<Rightarrow> ADelete \<lparr>DeletedAt = time_field d ''deleted_at'', DeletedBy = str_field d ''deleted_by''\<rparr>
        | ADeleteMs c \<Rightarrow> ADeleteMs \<lparr>DeletedAtMs = int_field d ''deleted_at'', DeletedByMs = str_field d ''deleted_by''\<rparr>) (ent_delete z),
      ent_tenant = map_option (\<lambda>a. \<lparr>TenantID = str_field d ''tenant_id'', AppID = str_field d ''app_id''\<rparr>) (ent_tenant z),
      ent_body = map (\<lambda>(f, v). (f, case d (tag_name f) of Some b \<Rightarrow> from_bson b | None \<Rightarrow> v)) (ent_body z)\<rparr>"

lemma mem_codec: "entity_codec mem_bv mem_enc (mem_dec z)"
proof
  fix d b assume "d ''_id'' = Some b" "plain_bson b"
  then show "mem_bv (ent_ID (mem_dec z d)) = b" by (cases b) (simp_all add: mem_dec_def)
qed (simp_all add: mem_enc_def)

section \<open>Filters and updates\<close>

text \<open>A sort key for values: absent values first, then by kind.\<close>

definition bson_key :: "bson option \<Rightarrow> nat \<times> int \<times> nat list" where
  "bson_key x =
     (case x of
        None \<Rightarrow> (0, 0, [])
      | Some (BInt i) \<Rightarrow> (1, i, [])
      | Some (BStr s) \<Rightarrow> (2, 0, map of_char s)
      | Some (BDate i) \<Rightarrow> (3, i, [])
      | Some (BOther s) \<Rightarrow> (4, 0, []))"

definition mem_blt :: "bson \<Rightarrow> bson \<Rightarrow> bool" where
  "mem_blt a b \<longleftrightarrow> bson_key (Some a) < bson_key (Some b)"

fun mem_holds :: "string \<Rightarrow> cond \<Rightarrow> bdoc \<Rightarrow> bool" where
  "mem_holds q (CEq v) d \<longleftrightarrow> d q = Some (mem_bv v)"
| "mem_holds q (CExists b) d \<longleftrightarrow> (d q \<noteq> None) = b"
| "mem_holds q (CIn vs) d \<longleftrightarrow> list_ex (\<lambda>v. d q = Some (mem_bv v)) vs"
| "mem_holds q (CGt v) d \<longleftrightarrow> (case d q of Some b \<Rightarrow> same_kind (mem_bv v) b \<and> mem_blt (mem_bv v) b | None \<Rightarrow> False)"
| "mem_holds q (CLt v) d \<longleftrightarrow> (case d q of Some b \<Rightarrow> same_kind (mem_bv v) b \<and> mem_blt b (mem_bv v) | None \<Rightarrow> False)"
| "mem_holds q (CAnd fs) d \<longleftrightarrow> list_all (\<lambda>f. list_all (\<lambda>(p, x). mem_holds p x d) f) fs"
| "mem_holds q (COther s) d \<longleftrightarrow> False"

definition mem_match :: "bfilter \<Rightarrow> bdoc \<Rightarrow> bool" where
  "mem_match f d \<longleftrightarrow> list_all (\<lambda>(q, x). mem_holds q x d) f"

definition mem_upd :: "update_doc \<Rightarrow> bdoc \<Rightarrow> bdoc" where
  "mem_upd u d = (\<lambda>q. case map_of (opt_list (upd_set u)) q of
       Some v \<Rightarrow> Some (mem_bv v)
     | None \<Rightarrow> if q \<in> fst ` set (opt_list (upd_unset u)) then None else d q)"

lemma of_char_inj: "map (of_char :: char \<Rightarrow> nat) s = map of_char t \<longleftrightarrow> s = t"
  by (simp add: inj_map_eq_map inj_of_char)

lemma bson_key_inj: "same_kind a b \<Longrightarrow> bson_key (Some a) = bson_key (Some b) \<Longrightarrow> a = b"
  by (cases a; cases b) (simp_all add: bson_key_def of_char_inj)

lemma mem_filters: "filter_semantics mem_bv mem_match mem_blt"
proof
  fix f d show "mem_match f d \<longleftrightarrow> (\<forall>x \<in> set f. mem_match [x] d)"
    by (auto simp: mem_match_def list_all_iff)
next
  fix a b assume "same_kind a b" "a \<noteq> b"
  then have "bson_key (Some a) \<noteq> bson_key (Some b)" using bson_key_inj by blast
  then show "mem_blt a b \<or> mem_blt b a" by (auto simp: mem_blt_def)
qed (auto simp: mem_match_def mem_blt_def list_all_iff list_ex_iff)

lemma map_of_None_key: "map_of xs q = None \<longleftrightarrow> q \<notin> fst ` set xs"
  by (induction xs) auto

lemma mem_updates: "update_semantics mem_bv mem_upd"
proof
  fix u :: update_doc and q v assume "map_of (opt_list (upd_set u)) q = Some v"
  then show "mem_upd u d q = Some (mem_bv v)" for d by (simp add: mem_upd_def)
next
  fix u :: update_doc and q :: string and d :: bdoc
  assume "\<And>p. p \<in> fst ` set (opt_list (upd_set u)) \<union> fst ` set (opt_list (upd_unset u)) \<Longrightarrow>
      p \<noteq> q \<and> \<not> HasPrefix p (q @ ''.'')"
  then have "q \<notin> fst ` set (opt_list (upd_set u))" "q \<notin> fst ` set (opt_list (upd_unset u))" by auto
  then show "mem_upd u d q = d q" by (simp add: mem_upd_def map_of_None_key[THEN iffD2])
qed

section \<open>The collection\<close>

definition good :: "bdoc \<Rightarrow> bool" where
  "good d \<longleftrightarrow> d ''_id'' \<noteq> None \<and> list_all (\<lambda>q. case d q of None \<Rightarrow> True | Some b \<Rightarrow> plain_bson b) audit_keys"

fun live :: "bdoc list \<Rightarrow> bdoc list" where
  "live [] = []"
| "live (d # ds) = (if good d then d # filter (\<lambda>x. x ''_id'' \<noteq> d ''_id'') (live ds) else live ds)"

definition repo_docs :: "bdoc list \<Rightarrow> bson \<Rightarrow> bdoc option" where
  "repo_docs c k = List.find (\<lambda>d. d ''_id'' = Some k) (live c)"

definition found :: "bdoc list \<Rightarrow> bfilter \<Rightarrow> bdoc list" where
  "found c f = filter (mem_match f) (live c)"

definition put_doc :: "bson \<Rightarrow> bdoc \<Rightarrow> bdoc list \<Rightarrow> bdoc list" where
  "put_doc k d ds = map (\<lambda>x. if x ''_id'' = Some k then d else x) ds"

definition refused :: go_error where
  "refused = OpaqueError ''document refused''"

definition duplicate :: go_error where
  "duplicate = OpaqueError ''E11000 duplicate key error''"

definition order_docs :: "(string \<times> int) list \<Rightarrow> bdoc list \<Rightarrow> bdoc list" where
  "order_docs ks ds =
     (case ks of
        [(q, s)] \<Rightarrow> if s > 0 then sort_key (\<lambda>d. bson_key (d q)) ds else rev (sort_key (\<lambda>d. bson_key (d q)) ds)
      | _ \<Rightarrow> ds)"

definition mem_Find :: "doc \<Rightarrow> bdoc list \<Rightarrow> bfilter \<Rightarrow> find_opts \<Rightarrow> doc list result result \<times> bdoc list" where
  "mem_Find z c f opts = (Inr (Inr (map (mem_dec z) (window opts (order_docs (fo_sort opts) (found c f))))), c)"

definition mem_Count :: "bdoc list \<Rightarrow> bfilter \<Rightarrow> int result \<times> bdoc list" where
  "mem_Count c f = (Inr (int (length (found c f))), c)"

definition mem_FindOne :: "doc \<Rightarrow> bdoc list \<Rightarrow> bfilter \<Rightarrow> doc option result \<times> bdoc list" where
  "mem_FindOne z c f = (case found c f of [] \<Rightarrow> (Inr None, c) | d # ds \<Rightarrow> (Inr (Some (mem_dec z d)), c))"

definition mem_InsertOne :: "bdoc list \<Rightarrow> doc \<Rightarrow> go_error option \<times> bdoc list" where
  "mem_InsertOne c e =
     (if \<not> good (mem_enc e) then (Some refused, c)
      else if repo_docs c (mem_bv (ent_ID e)) \<noteq> None then (Some duplicate, c)
      else (None, live c @ [mem_enc e]))"

fun mem_InsertMany :: "bdoc list \<Rightarrow> doc list \<Rightarrow> go_error option \<times> bdoc list" where
  "mem_InsertMany c [] = (None, c)"
| "mem_InsertMany c (e # es) =
     (case mem_InsertOne c e of
        (Some err, c) \<Rightarrow> (Some err, c)
      | (None, c) \<Rightarrow> mem_InsertMany c es)"

definition mem_ReplaceOne :: "bdoc list \<Rightarrow> bfilter \<Rightarrow> doc \<Rightarrow> bool \<Rightarrow> (int \<times> int \<times> int) result \<times> bdoc list" where
  "mem_ReplaceOne c f e ups =
     (let k = mem_bv (ent_ID e); d1 = mem_enc e in
      if \<not> good d1 then (Inl refused, c)
      else
        (case found c f of
           [] \<Rightarrow> if \<not> ups then (Inr (0, 0, 0), c)
                 else if repo_docs c k \<noteq> None then (Inl duplicate, c)
                 else (Inr (0, 0, 1), live c @ [d1])
         | d # ds \<Rightarrow> if d ''_id'' \<noteq> Some k then (Inl refused, c)
                     else (Inr (1, 1, 0), put_doc k d1 (live c))))"

definition mem_UpdateOne :: "bdoc list \<Rightarrow> bfilter \<Rightarrow> update_doc \<Rightarrow> (int \<times> int) result \<times> bdoc list" where
  "mem_UpdateOne c f u =
     (case found c f of
        [] \<Rightarrow> (Inr (0, 0), c)
      | d # ds \<Rightarrow>
          if \<not> good (mem_upd u d) \<or> mem_upd u d ''_id'' \<noteq> d ''_id'' then (Inl refused, c)
          else (Inr (1, 1), put_doc (the (d ''_id'')) (mem_upd u d) (live c)))"

definition mem_UpdateMany :: "bdoc list \<Rightarrow> bfilter \<Rightarrow> update_doc \<Rightarrow> (int \<times> int) result \<times> bdoc list" where
  "mem_UpdateMany c f u =
     (if list_ex (\<lambda>d. \<not> good (mem_upd u d) \<or> mem_upd u d ''_id'' \<noteq> d ''_id'') (found c f) then (Inl refused, c)
      else (Inr (int (length (found c f)), int (length (found c f))),
            map (\<lambda>d. if mem_match f d then mem_upd u d else d) (live c)))"

definition mem_DeleteOne :: "bdoc list \<Rightarrow> bfilter \<Rightarrow> int result \<times> bdoc list" where
  "mem_DeleteOne c f =
     (case found c f of
        [] \<Rightarrow> (Inr 0, c)
      | d # ds \<Rightarrow> (Inr 1, filter (\<lambda>x. x ''_id'' \<noteq> d ''_id'') (live c)))"

definition mem_DeleteMany :: "bdoc list \<Rightarrow> bfilter \<Rightarrow> int result \<times> bdoc list" where
  "mem_DeleteMany c f = (Inr (int (length (found c f))), filter (\<lambda>d. \<not> mem_match f d) (live c))"

fun mem_retry :: "nat \<Rightarrow> (go_error \<Rightarrow> bool) \<Rightarrow> ('s \<Rightarrow> go_error option \<times> 's) \<Rightarrow> 's \<Rightarrow> go_error option \<times> 's" where
  "mem_retry 0 p g s = g s"
| "mem_retry (Suc i) p g s =
     (case g s of
        (None, s) \<Rightarrow> (None, s)
      | (Some err, s) \<Rightarrow> if i = 0 \<or> \<not> p err then (Some err, s) else mem_retry i p g s)"

definition mem_collection :: "doc \<Rightarrow> bdoc list collection" where
  "mem_collection z =
     \<lparr>cls_Name = ''docs'', cls_Find = mem_Find z, cls_CountDocuments = mem_Count, cls_FindOne = mem_FindOne z,
      cls_InsertOne = mem_InsertOne, cls_InsertMany = mem_InsertMany, cls_ReplaceOne = mem_ReplaceOne,
      cls_UpdateOne = mem_UpdateOne, cls_UpdateMany = mem_UpdateMany, cls_DeleteOne = mem_DeleteOne,
      cls_DeleteMany = mem_DeleteMany, cls_IsDuplicateKeyError = (\<lambda>e. e = duplicate), cls_retry_Do = mem_retry,
      cls_fmt_cond = (\<lambda>x. []), cls_fmt_filter = (\<lambda>f. []), cls_fmt_doc = (\<lambda>d. []),
      cls_conv = \<lparr>conv_FormatTime = FormatInt,
                  conv_ParseTime = (\<lambda>s. case ParseInt s 64 of Inl e \<Rightarrow> Inl (OpaqueError s) | Inr i \<Rightarrow> Inr i),
                  conv_SprintFloat = (\<lambda>w. []), conv_ParseFloat = (\<lambda>s b. Inl (OpaqueError s)),
                  conv_SprintOther = (\<lambda>v. []), conv_TypeString = (\<lambda>T. [])\<rparr>\<rparr>"

definition mem_lib :: "RepoOpt \<Rightarrow> doc \<Rightarrow> go_type \<Rightarrow> go_type \<Rightarrow> bdoc list CollectionLib" where
  "mem_lib opt z P T =
     \<lparr>lib_cls = mem_collection z, lib_opt = Some opt, lib_idKey = ''_id'', lib_zero = z, lib_P = P, lib_T = T\<rparr>"

subsection \<open>Live documents\<close>

definition clean :: "bdoc list \<Rightarrow> bool" where
  "clean ds \<longleftrightarrow> list_all good ds \<and> distinct (map (\<lambda>d. d ''_id'') ds)"

lemma clean_filter: "clean ds \<Longrightarrow> clean (filter P ds)"
  by (induction ds) (auto simp: clean_def)

lemma clean_live: "clean (live c)"
proof (induction c)
  case (Cons d c)
  from clean_filter[OF Cons] have "clean (filter (\<lambda>x. x ''_id'' \<noteq> d ''_id'') (live c))" .
  then show ?case using Cons by (auto simp: clean_def)
qed (simp add: clean_def)

lemma live_clean: "clean ds \<Longrightarrow> live ds = ds"
proof (induction ds)
  case (Cons d ds)
  then have "good d" "clean ds" "\<And>x. x \<in> set ds \<Longrightarrow> x ''_id'' \<noteq> d ''_id''"
    by (auto simp: clean_def image_iff)
  with Cons.IH show ?case by (simp add: filter_id_conv)
qed simp

lemma live_live [simp]: "live (live c) = live c"
  by (rule live_clean[OF clean_live])

lemma find_clean:
  "clean ds \<Longrightarrow> List.find (\<lambda>d. d ''_id'' = Some k) ds = Some d \<longleftrightarrow> d \<in> set ds \<and> d ''_id'' = Some k"
  by (induction ds) (auto simp: clean_def image_iff)

lemma repo_docs_iff: "repo_docs c k = Some d \<longleftrightarrow> d \<in> set (live c) \<and> d ''_id'' = Some k"
  unfolding repo_docs_def by (rule find_clean[OF clean_live])

lemma repo_docs_clean: "clean ds \<Longrightarrow> repo_docs ds k = Some d \<longleftrightarrow> d \<in> set ds \<and> d ''_id'' = Some k"
  by (simp add: repo_docs_iff live_clean)

lemma repo_docs_live [simp]: "repo_docs (live c) = repo_docs c"
  by (simp add: repo_docs_def fun_eq_iff)

lemma live_id: "d \<in> set (live c) \<Longrightarrow> \<exists>k. d ''_id'' = Some k"
  using clean_live[of c] by (auto simp: clean_def list_all_iff good_def)

lemma matching_found: "matching (repo_docs c) (mem_match f) = set (found c f)"
  by (auto simp: matching_def found_def repo_docs_iff dest: live_id)

lemma distinct_live: "distinct (live c)"
  using clean_live[of c] by (simp add: clean_def distinct_map)

lemma card_found: "card (matching (repo_docs c) (mem_match f)) = length (found c f)"
  using distinct_card[OF distinct_filter[OF distinct_live, of "mem_match f" c]]
  by (simp only: matching_found found_def)

lemma docs_eqI:
  assumes "clean ds" and "\<And>k d. d \<in> set ds \<and> d ''_id'' = Some k \<longleftrightarrow> m k = Some d"
  shows "repo_docs ds = m"
proof
  fix k
  have "repo_docs ds k = Some d \<longleftrightarrow> m k = Some d" for d
    using repo_docs_clean[OF assms(1)] assms(2) by simp
  then show "repo_docs ds k = m k" by (metis not_Some_eq)
qed

lemma repo_docs_append:
  assumes "clean ds" and "good d" and "d ''_id'' = Some k" and "repo_docs ds k = None"
  shows "clean (ds @ [d]) \<and> repo_docs (ds @ [d]) = (repo_docs ds)(k \<mapsto> d)"
proof -
  have new: False if "x \<in> set ds" "x ''_id'' = Some k" for x
    using that assms(4) repo_docs_clean[OF assms(1), of k x] by simp
  have "Some k \<notin> set (map (\<lambda>d. d ''_id'') ds)"
  proof
    assume "Some k \<in> set (map (\<lambda>d. d ''_id'') ds)"
    then obtain x where "x \<in> set ds" "x ''_id'' = Some k" by auto
    then show False by (rule new)
  qed
  with assms(1-3) have c: "clean (ds @ [d])" by (simp add: clean_def)
  have "repo_docs (ds @ [d]) = (repo_docs ds)(k \<mapsto> d)"
  proof (rule docs_eqI[OF c])
    fix j x
    show "x \<in> set (ds @ [d]) \<and> x ''_id'' = Some j \<longleftrightarrow> ((repo_docs ds)(k \<mapsto> d)) j = Some x"
      using new assms(3) by (cases "j = k") (auto simp: repo_docs_clean[OF assms(1)])
  qed
  with c show ?thesis by simp
qed

lemma put_doc_ids: "d ''_id'' = Some k \<Longrightarrow> map (\<lambda>x. x ''_id'') (put_doc k d ds) = map (\<lambda>x. x ''_id'') ds"
  by (induction ds) (auto simp: put_doc_def)

lemma repo_docs_put:
  assumes "clean ds" and "good d" and "d ''_id'' = Some k" and "repo_docs ds k = Some d0"
  shows "repo_docs (put_doc k d ds) = (repo_docs ds)(k \<mapsto> d)"
proof (rule docs_eqI)
  show "clean (put_doc k d ds)"
    using assms by (simp add: clean_def put_doc_ids) (auto simp: put_doc_def list_all_iff)
next
  fix j x
  from assms(4) have d0: "d0 \<in> set ds" "d0 ''_id'' = Some k" by (simp_all add: repo_docs_clean[OF assms(1)])
  show "x \<in> set (put_doc k d ds) \<and> x ''_id'' = Some j \<longleftrightarrow> ((repo_docs ds)(k \<mapsto> d)) j = Some x"
  proof (cases "j = k")
    case True
    then show ?thesis using d0 assms(3) by (auto simp: put_doc_def intro!: rev_image_eqI[of d0])
  next
    case False
    then show ?thesis using assms(3) by (auto simp: put_doc_def repo_docs_clean[OF assms(1)] intro!: rev_image_eqI)
  qed
qed

lemma repo_docs_remove:
  assumes "clean ds"
  shows "repo_docs (filter (\<lambda>x. x ''_id'' \<noteq> Some k) ds) = (repo_docs ds)(k := None)"
  by (rule docs_eqI[OF clean_filter[OF assms]]) (auto simp: repo_docs_clean[OF assms])

lemma found_first:
  assumes "found c f = d # ds"
  obtains k where "repo_docs c k = Some d" "mem_match f d" "d ''_id'' = Some k" "good d"
proof -
  from assms have d: "d \<in> set (found c f)" by simp
  then have "d \<in> set (live c)" "mem_match f d" by (auto simp: found_def)
  with live_id[of d c] clean_live[of c] that show ?thesis by (auto simp: repo_docs_iff clean_def list_all_iff)
qed

lemma found_Nil: "found c f = [] \<Longrightarrow> matching (repo_docs c) (mem_match f) = {}"
  by (simp add: matching_found)

lemma mem_enc_id: "good (mem_enc e) \<Longrightarrow> \<not> go_IsZero (ent_ID e) \<and> mem_enc e ''_id'' = Some (mem_bv (ent_ID e))"
  by (auto simp: good_def mem_enc_def split: if_splits)

subsection \<open>The operations\<close>

lemma mem_InsertOne_ok:
  "mem_InsertOne c e = (None, c') \<Longrightarrow>
   repo_docs c (mem_bv (ent_ID e)) = None \<and> repo_docs c' = (repo_docs c)(mem_bv (ent_ID e) \<mapsto> mem_enc e)"
  using repo_docs_append[OF clean_live[of c], of "mem_enc e" "mem_bv (ent_ID e)"] mem_enc_id[of e]
  by (auto simp: mem_InsertOne_def split: if_splits)

lemma mem_InsertOne_failed: "mem_InsertOne c e = (Some err, c') \<Longrightarrow> c' = c"
  by (auto simp: mem_InsertOne_def split: if_splits)

lemma mem_InsertMany_steps:
  "mem_InsertMany c es = (r, c') \<Longrightarrow>
   \<exists>n. repo_docs c' = insert_all mem_enc mem_bv (take n es) (repo_docs c)
     \<and> (\<forall>e \<in> set (take n es). repo_docs c (mem_bv (ent_ID e)) = None)
     \<and> distinct (map (\<lambda>e. mem_bv (ent_ID e)) (take n es)) \<and> (r = None \<longrightarrow> take n es = es)"
proof (induction es arbitrary: c)
  case (Cons e es)
  obtain r1 c1 where i: "mem_InsertOne c e = (r1, c1)" by fastforce
  show ?case
  proof (cases r1)
    case (Some err)
    have "c1 = c" by (rule mem_InsertOne_failed[OF i[unfolded Some]])
    moreover from Cons.prems have "c' = c1" "r = Some err" by (simp_all add: i Some)
    ultimately have "c' = c" "r = Some err" by simp_all
    then show ?thesis by (intro exI[of _ 0]) simp
  next
    case None
    let ?k = "mem_bv (ent_ID e)"
    from mem_InsertOne_ok[OF i[unfolded None]]
    have d1: "repo_docs c ?k = None" "repo_docs c1 = (repo_docs c)(?k \<mapsto> mem_enc e)" by simp_all
    from Cons.prems i None have "mem_InsertMany c1 es = (r, c')" by simp
    from Cons.IH[OF this] obtain n where n: "repo_docs c' = insert_all mem_enc mem_bv (take n es) (repo_docs c1)"
        "\<And>e. e \<in> set (take n es) \<Longrightarrow> repo_docs c1 (mem_bv (ent_ID e)) = None"
        "distinct (map (\<lambda>e. mem_bv (ent_ID e)) (take n es))" "r = None \<longrightarrow> take n es = es" by blast
    have new: "mem_bv (ent_ID x) \<noteq> ?k \<and> repo_docs c (mem_bv (ent_ID x)) = None" if "x \<in> set (take n es)" for x
      using n(2)[OF that] by (auto simp: d1 split: if_splits)
    have "repo_docs c' = insert_all mem_enc mem_bv (take (Suc n) (e # es)) (repo_docs c)"
      by (simp add: n(1) d1)
    moreover have "\<forall>x \<in> set (take (Suc n) (e # es)). repo_docs c (mem_bv (ent_ID x)) = None"
      using new d1 by auto
    moreover have "distinct (map (\<lambda>e. mem_bv (ent_ID e)) (take (Suc n) (e # es)))"
      using n(3) new by fastforce
    moreover have "r = None \<longrightarrow> take (Suc n) (e # es) = e # es" using n(4) by simp
    ultimately show ?thesis by blast
  qed
qed simp

lemma order_docs_set: "set (order_docs ks ds) = set ds" and order_docs_distinct: "distinct (order_docs ks ds) = distinct ds"
  by (auto simp: order_docs_def split: list.splits prod.splits)

lemma order_docs_sorted: "sorted_wrt (in_order mem_blt q s) (order_docs [(q, s)] ds)"
proof -
  let ?k = "\<lambda>d :: bdoc. bson_key (d q)"
  have asc: "sorted_wrt (\<lambda>x y. ?k x \<le> ?k y) (sort_key ?k ds)"
    using sorted_sort_key[of ?k ds] by (simp add: sorted_map)
  show ?thesis
  proof (cases "s > 0")
    case True
    have "in_order mem_blt q s x y" if "?k x \<le> ?k y" for x y
      using that True by (auto simp: in_order_def mem_blt_def not_less split: option.splits)
    with asc True show ?thesis by (simp add: order_docs_def sorted_wrt_mono_rel[of _ "\<lambda>x y. ?k x \<le> ?k y"])
  next
    case False
    have "in_order mem_blt q s y x" if "?k x \<le> ?k y" for x y
      using that False by (auto simp: in_order_def mem_blt_def not_less split: option.splits)
    with asc False show ?thesis
      by (simp add: order_docs_def sorted_wrt_rev sorted_wrt_mono_rel[of _ "\<lambda>x y. ?k x \<le> ?k y"])
  qed
qed

lemma mem_retry_step:
  "i \<noteq> 0 \<Longrightarrow> mem_retry i p g s =
     (case g s of
        (None, s') \<Rightarrow> (None, s')
      | (Some err, s') \<Rightarrow> if i \<le> 1 \<or> \<not> p err then (Some err, s') else mem_retry (i - 1) p g s')"
  by (cases i) (auto split: prod.splits option.splits)

lemma mem_ReplaceOne_cases:
  assumes "mem_ReplaceOne c f e ups = (r, c')"
  obtains (refused) "r = Inl refused" "c' = c"
    | (none) "r = Inr (0, 0, 0)" "\<not> ups" "c' = c" "matching (repo_docs c) (mem_match f) = {}"
    | (dup) "r = Inl duplicate" "c' = c"
    | (new) "r = Inr (0, 0, 1)" "ups" "matching (repo_docs c) (mem_match f) = {}"
        "repo_docs c (mem_bv (ent_ID e)) = None" "repo_docs c' = (repo_docs c)(mem_bv (ent_ID e) \<mapsto> mem_enc e)"
    | (old) d where "r = Inr (1, 1, 0)" "repo_docs c (mem_bv (ent_ID e)) = Some d" "mem_match f d"
        "repo_docs c' = (repo_docs c)(mem_bv (ent_ID e) \<mapsto> mem_enc e)"
proof (cases "good (mem_enc e)")
  case False
  with assms refused show thesis by (simp add: mem_ReplaceOne_def)
next
  case True
  let ?k = "mem_bv (ent_ID e)"
  note i = mem_enc_id[OF True, THEN conjunct2]
  show thesis
  proof (cases "found c f")
    case Nil
    show thesis
    proof (cases "ups \<and> repo_docs c ?k = None")
      case True1: True
      with assms True Nil have "r = Inr (0, 0, 1)" "c' = live c @ [mem_enc e]" by (auto simp: mem_ReplaceOne_def Let_def)
      with new[OF _ _ found_Nil[OF Nil]] True1 repo_docs_append[OF clean_live[of c] True i] show thesis by simp
    next
      case False
      with assms True Nil none[OF _ _ _ found_Nil[OF Nil]] dup show thesis
        by (auto simp: mem_ReplaceOne_def Let_def split: if_splits)
    qed
  next
    case (Cons d ds)
    from found_first[OF Cons] obtain k where k: "repo_docs c k = Some d" "mem_match f d" "d ''_id'' = Some k" by blast
    show thesis
    proof (cases "k = ?k")
      case True1: True
      with assms True Cons k have "r = Inr (1, 1, 0)" "c' = put_doc ?k (mem_enc e) (live c)"
        by (auto simp: mem_ReplaceOne_def Let_def)
      moreover from k True1 have "repo_docs (live c) ?k = Some d" by simp
      ultimately show thesis using old k True1 repo_docs_put[OF clean_live True i] by simp
    next
      case False
      with assms True Cons k refused show thesis by (simp add: mem_ReplaceOne_def Let_def)
    qed
  qed
qed

lemma mem_UpdateOne_cases:
  assumes "mem_UpdateOne c f u = (r, c')"
  obtains (none) "r = Inr (0, 0)" "c' = c" "matching (repo_docs c) (mem_match f) = {}"
    | (refused) "r = Inl refused" "c' = c"
    | (old) k d where "r = Inr (1, 1)" "repo_docs c k = Some d" "mem_match f d"
        "repo_docs c' = (repo_docs c)(k \<mapsto> mem_upd u d)"
proof (cases "found c f")
  case Nil
  with assms none found_Nil[OF Nil] show thesis by (simp add: mem_UpdateOne_def)
next
  case (Cons d ds)
  from found_first[OF Cons] obtain k where k: "repo_docs c k = Some d" "mem_match f d" "d ''_id'' = Some k" by blast
  show thesis
  proof (cases "good (mem_upd u d) \<and> mem_upd u d ''_id'' = d ''_id''")
    case True
    with assms Cons k have "r = Inr (1, 1)" "c' = put_doc k (mem_upd u d) (live c)" by (simp_all add: mem_UpdateOne_def)
    with old k True repo_docs_put[OF clean_live, of "mem_upd u d" k c d] show thesis by simp
  next
    case False
    with assms Cons refused show thesis by (simp add: mem_UpdateOne_def)
  qed
qed

lemma repo_docs_map:
  assumes c: "clean ds" and good: "\<And>d. d \<in> set ds \<Longrightarrow> good (g d)" and id: "\<And>d. d \<in> set ds \<Longrightarrow> g d ''_id'' = d ''_id''"
  shows "repo_docs (map g ds) = (\<lambda>k. map_option g (repo_docs ds k))"
proof (rule docs_eqI)
  have "map (\<lambda>d. d ''_id'') (map g ds) = map (\<lambda>d. d ''_id'') ds" using id by simp
  moreover have "list_all good (map g ds)" using good by (simp add: list_all_iff)
  ultimately show "clean (map g ds)" using c by (simp add: clean_def del: map_map)
next
  fix k x
  have "x \<in> set (map g ds) \<and> x ''_id'' = Some k \<longleftrightarrow> (\<exists>d. d \<in> set ds \<and> d ''_id'' = Some k \<and> x = g d)"
    using id by fastforce
  also have "\<dots> \<longleftrightarrow> (\<exists>d. repo_docs ds k = Some d \<and> x = g d)" by (simp add: repo_docs_clean[OF c])
  finally show "x \<in> set (map g ds) \<and> x ''_id'' = Some k \<longleftrightarrow> map_option g (repo_docs ds k) = Some x" by auto
qed

lemma mem_UpdateMany_docs:
  assumes "list_all (\<lambda>d. good (mem_upd u d) \<and> mem_upd u d ''_id'' = d ''_id'') (found c f)"
  shows "repo_docs (map (\<lambda>d. if mem_match f d then mem_upd u d else d) (live c)) =
    (\<lambda>k. case repo_docs c k of None \<Rightarrow> None | Some d \<Rightarrow> Some (if mem_match f d then mem_upd u d else d))"
proof -
  have ok: "good (mem_upd u d) \<and> mem_upd u d ''_id'' = d ''_id''" if "d \<in> set (live c)" "mem_match f d" for d
    using assms that by (simp add: list_all_iff found_def)
  have "good d" if "d \<in> set (live c)" for d using clean_live[of c] that by (simp add: clean_def list_all_iff)
  with ok have "repo_docs (map (\<lambda>d. if mem_match f d then mem_upd u d else d) (live c)) =
      (\<lambda>k. map_option (\<lambda>d. if mem_match f d then mem_upd u d else d) (repo_docs (live c) k))"
    by (intro repo_docs_map[OF clean_live]) (simp_all split: if_split)
  then show ?thesis by (simp add: map_option_case)
qed

lemma mem_DeleteMany_docs:
  "repo_docs (filter (\<lambda>d. \<not> mem_match f d) (live c)) =
    (\<lambda>k. case repo_docs c k of None \<Rightarrow> None | Some d \<Rightarrow> if mem_match f d then None else Some d)"
proof (rule docs_eqI[OF clean_filter[OF clean_live]])
  fix k d
  have "d \<in> set (filter (\<lambda>d. \<not> mem_match f d) (live c)) \<and> d ''_id'' = Some k \<longleftrightarrow> repo_docs c k = Some d \<and> \<not> mem_match f d"
    by (auto simp: repo_docs_iff)
  then show "d \<in> set (filter (\<lambda>d. \<not> mem_match f d) (live c)) \<and> d ''_id'' = Some k \<longleftrightarrow>
      (case repo_docs c k of None \<Rightarrow> None | Some d \<Rightarrow> if mem_match f d then None else Some d) = Some d"
    by (auto split: option.splits)
qed

lemma mem_DeleteOne_cases:
  assumes "mem_DeleteOne c f = (r, c')"
  obtains (none) "r = Inr 0" "c' = c" "matching (repo_docs c) (mem_match f) = {}"
    | (old) k d where "r = Inr 1" "repo_docs c k = Some d" "mem_match f d" "repo_docs c' = (repo_docs c)(k := None)"
proof (cases "found c f")
  case Nil
  with assms none found_Nil[OF Nil] show thesis by (simp add: mem_DeleteOne_def)
next
  case (Cons d ds)
  from found_first[OF Cons] obtain k where k: "repo_docs c k = Some d" "mem_match f d" "d ''_id'' = Some k" by blast
  with assms Cons have "r = Inr 1" "c' = filter (\<lambda>x. x ''_id'' \<noteq> Some k) (live c)" by (simp_all add: mem_DeleteOne_def)
  with old k repo_docs_remove[OF clean_live[of c], of k] show thesis by simp
qed

lemma good_plain: "good d \<Longrightarrow> q \<in> set audit_keys \<Longrightarrow> d q = Some b \<Longrightarrow> plain_bson b"
  by (auto simp: good_def list_all_iff split: option.splits)

lemma repo_docs_good: "repo_docs c k = Some d \<Longrightarrow> good d"
  using clean_live[of c] by (auto simp: repo_docs_iff clean_def list_all_iff)

lemma repo_docs_finite: "finite (dom (repo_docs c))"
proof -
  have "dom (repo_docs c) \<subseteq> (\<lambda>d. the (d ''_id'')) ` set (live c)"
    by (force simp: dom_def repo_docs_iff intro!: rev_image_eqI)
  then show ?thesis by (rule finite_subset) simp
qed

lemma mem_store: "entity_store mem_bv mem_enc (mem_dec z) mem_match mem_blt mem_upd (mem_collection z) repo_docs"
proof (intro entity_store.intro entity_store_axioms.intro mem_codec mem_filters mem_updates, goal_cases)
  case (1 c k d)
  then show ?case by (simp add: repo_docs_iff)
next
  case (2 c k d q b)
  then show ?case using good_plain repo_docs_good by blast
next
  case (3 c)
  then show ?case by (rule repo_docs_finite)
next
  case (4 c f opts es c')
  then show ?case
    by (auto simp: mem_collection_def mem_Find_def matching_found order_docs_set order_docs_distinct found_def distinct_live
        intro!: exI[of _ "order_docs (fo_sort opts) (filter (mem_match f) (live c))"] intro: order_docs_sorted)
next
  case (7 c f n c')
  then show ?case by (auto simp add: mem_collection_def mem_Count_def card_found)
next
  case (9 c f e c')
  then show ?case by (auto simp: mem_collection_def mem_FindOne_def matching_found split: list.splits)
next
  case (10 c f c')
  then show ?case by (auto simp: mem_collection_def mem_FindOne_def matching_found split: list.splits)
next
  case (12 c e c')
  then show ?case using mem_InsertOne_ok by (simp add: mem_collection_def)
next
  case (13 c e err c')
  then have "mem_InsertOne c e = (Some err, c')" by (simp add: mem_collection_def)
  from mem_InsertOne_failed[OF this] show ?case by simp
next
  case (14 c e err c')
  then have "mem_InsertOne c e = (Some err, c')" by (simp add: mem_collection_def)
  from mem_InsertOne_failed[OF this] show ?case by simp
next
  case (15 c es c')
  then have "mem_InsertMany c es = (None, c')" by (simp add: mem_collection_def)
  from mem_InsertMany_steps[OF this] show ?case by auto
next
  case (16 c es err c')
  then have "mem_InsertMany c es = (Some err, c')" by (simp add: mem_collection_def)
  from mem_InsertMany_steps[OF this] show ?case by blast
next
  case (17 c f e ups n m j c')
  then have "mem_ReplaceOne c f e ups = (Inr (n, m, j), c')" by (simp add: mem_collection_def)
  from this \<open>n \<noteq> 0\<close> show ?case by (cases rule: mem_ReplaceOne_cases) auto
next
  case (18 c f e ups m j c')
  then have "mem_ReplaceOne c f e ups = (Inr (0, m, j), c')" by (simp add: mem_collection_def)
  then show ?case by (cases rule: mem_ReplaceOne_cases) auto
next
  case (19 c f e ups err c')
  then have "mem_ReplaceOne c f e ups = (Inl err, c')" by (simp add: mem_collection_def)
  then show ?case by (cases rule: mem_ReplaceOne_cases) auto
next
  case (20 c f e ups err c')
  then have "mem_ReplaceOne c f e ups = (Inl err, c')" by (simp add: mem_collection_def)
  then show ?case by (cases rule: mem_ReplaceOne_cases) auto
next
  case (21 c f u n m c')
  then have "mem_UpdateOne c f u = (Inr (n, m), c')" by (simp add: mem_collection_def)
  from this \<open>n \<noteq> 0\<close> show ?case by (cases rule: mem_UpdateOne_cases) auto
next
  case (22 c f u m c')
  then have "mem_UpdateOne c f u = (Inr (0, m), c')" by (simp add: mem_collection_def)
  then show ?case by (cases rule: mem_UpdateOne_cases) auto
next
  case (23 c f u err c')
  then have "mem_UpdateOne c f u = (Inl err, c')" by (simp add: mem_collection_def)
  then show ?case by (cases rule: mem_UpdateOne_cases) auto
next
  case (24 c f u n m c')
  then have a: "mem_UpdateMany c f u = (Inr (n, m), c')" by (simp add: mem_collection_def)
  then have g: "list_all (\<lambda>d. good (mem_upd u d) \<and> mem_upd u d ''_id'' = d ''_id'') (found c f)"
    by (auto simp: mem_UpdateMany_def list_all_iff list_ex_iff split: if_splits)
  with a mem_UpdateMany_docs[OF g] show ?case by (auto simp: mem_UpdateMany_def card_found split: if_splits)
next
  case (25 c f u err c' k)
  then show ?case by (auto simp: mem_collection_def mem_UpdateMany_def split: if_splits)
next
  case (26 c f n c')
  then have "mem_DeleteOne c f = (Inr n, c')" by (simp add: mem_collection_def)
  from this \<open>n \<noteq> 0\<close> show ?case by (cases rule: mem_DeleteOne_cases) auto
next
  case (27 c f c')
  then have "mem_DeleteOne c f = (Inr 0, c')" by (simp add: mem_collection_def)
  then show ?case by (cases rule: mem_DeleteOne_cases) auto
next
  case (28 c f err c')
  then have "mem_DeleteOne c f = (Inl err, c')" by (simp add: mem_collection_def)
  then show ?case by (cases rule: mem_DeleteOne_cases) auto
next
  case (29 c f n c')
  then show ?case by (auto simp: mem_collection_def mem_DeleteMany_def card_found mem_DeleteMany_docs)
next
  case (31 i p g s)
  have r: "cls_retry_Do (mem_collection z) = mem_retry" by (simp add: mem_collection_def)
  from 31 show ?case unfolding r by (rule mem_retry_step)
qed (auto simp: mem_collection_def mem_Find_def mem_Count_def mem_FindOne_def mem_DeleteMany_def split: list.splits)

interpretation memr: repository mem_bv mem_enc "mem_dec z" mem_match mem_blt mem_upd "mem_lib opt z P T" repo_docs
  for z opt P T
proof (intro repository.intro repository_axioms.intro)
  show "entity_store mem_bv mem_enc (mem_dec z) mem_match mem_blt mem_upd (lib_cls (mem_lib opt z P T)) repo_docs"
    using mem_store by (simp add: mem_lib_def)
qed (simp add: mem_lib_def)

end
