(* ===== verification/Mongox_Isolation.thy ===== *)
theory Mongox_Isolation
  imports Mongox_Memory
begin

text \<open>
  Isolation and soft deletion of the repository over whole histories of calls, what its queries
  return, and where the injected conditions do not reach.
\<close>

context repository
begin

lemma run_op_guarded: "checked_op x \<Longrightarrow> guarded l ctx (docs c) (docs (run_op l ctx clk x c))"
proof (cases x)
  case (RFind f opts)
  then show ?thesis using Find_shown[of ctx f opts c] by (cases "repo_Find l ctx f opts c") auto
next
  case (RCount f)
  then show ?thesis
    by (cases "cls_CountDocuments (lib_cls l) c (case injectCond l ctx f of Inr g \<Rightarrow> g | Inl e \<Rightarrow> [])")
      (auto simp: repo_Count_def split: sum.splits dest: Count_docs)
next
  case (RPage input)
  then show ?thesis using PageQuery_shown[of ctx input c] by (cases "PageQuery l ctx input c") auto
next
  case (RFeed input)
  then show ?thesis using FeedQuery_shown[of ctx input c] by (cases "FeedQuery l ctx input c") auto
next
  case (RGet i)
  then show ?thesis using GetByFilter_shown[of ctx "Some [(lib_idKey l, CEq i)]" c]
    by (cases "repo_Get l ctx i c") (auto simp: repo_Get_def)
next
  case (RGetBy f)
  then show ?thesis using GetByFilter_shown[of ctx f c] by (cases "GetByFilter l ctx f c") auto
next
  case (RCreate e)
  then show ?thesis using Create_guarded[of ctx clk e c] by (cases "repo_Create l ctx clk e c") auto
next
  case (RUpdate e)
  assume "checked_op x"
  with RUpdate show ?thesis using commonReplace_guarded[of ctx clk e False c]
    by (cases "commonReplace l ctx clk e False c") (auto simp: repo_Update_def)
next
  case (RUpsert e)
  assume "checked_op x"
  with RUpsert show ?thesis using commonReplace_guarded[of ctx clk e True c]
    by (cases "commonReplace l ctx clk e True c") (auto simp: repo_Upsert_def)
next
  case (RPatch e)
  then show ?thesis using Patch_guarded[of ctx clk e c] by (cases "repo_Patch l ctx clk e c") auto
next
  case (RPatchRaw input)
  assume "checked_op x"
  with RPatchRaw show ?thesis using PatchRaw_guarded[of ctx clk input c]
    by (cases "PatchRaw l ctx clk input c") auto
next
  case (RDelete e)
  assume "checked_op x"
  with RDelete show ?thesis using Delete_guarded[of ctx clk e c] by (cases "repo_Delete l ctx clk e c") auto
next
  case (RBatchCreate es)
  then show ?thesis using BatchCreate_guarded[of ctx clk es c] by (cases "BatchCreate l ctx clk es c") auto
next
  case (RBatchUpdate es)
  assume "checked_op x"
  with RBatchUpdate show ?thesis using BatchUpdate_guarded[of ctx clk es c]
    by (cases "BatchUpdate l ctx clk es c") auto
next
  case (RBatchDelete es)
  then show ?thesis using BatchDeleteByFilter_guarded[of ctx clk "Some [(lib_idKey l, CIn (map entity_GetID es))]" c]
    by (cases "BatchDeleteByFilter l ctx clk (Some [(lib_idKey l, CIn (map entity_GetID es))]) c")
      (auto simp: BatchDelete_def BatchDeleteByIDs_def)
next
  case (RBatchDeleteByIDs ids)
  then show ?thesis using BatchDeleteByFilter_guarded[of ctx clk "Some [(lib_idKey l, CIn ids)]" c]
    by (cases "BatchDeleteByFilter l ctx clk (Some [(lib_idKey l, CIn ids)]) c")
      (auto simp: BatchDeleteByIDs_def)
next
  case (RBatchDeleteByFilter f)
  then show ?thesis using BatchDeleteByFilter_guarded[of ctx clk f c]
    by (cases "BatchDeleteByFilter l ctx clk f c") auto
qed

lemma history_guarded:
  "docs c k = Some d \<Longrightarrow> \<forall>(ctx, clk, x) \<in> set h. checked_op x \<and> \<not> visible l ctx d \<Longrightarrow>
   docs (run_history l h c) k = Some d"
proof (induction h arbitrary: c)
  case (Cons a h)
  obtain ctx clk x where a: "a = (ctx, clk, x)" by (cases a)
  from Cons.prems(2) a have "checked_op x" "\<not> visible l ctx d" by simp_all
  with run_op_guarded[of x ctx c clk] Cons.prems(1) have "docs (run_op l ctx clk x c) k = Some d"
    by (simp add: guarded_def)
  from Cons.IH[OF this] Cons.prems(2) a show ?case by simp
qed simp

text \<open>The rows of a page and its total count, for a filter that leaves the injected keys alone.\<close>

lemma PageQuery_exact:
  assumes "PageQuery l ctx input c = (Inr res, input', c')"
    and "distinct (map fst (opt_list (pq_Filter input)))"
    and "fst ` set (opt_list (pq_Filter input)) \<inter> injected_keys = {}"
  shows "\<exists>ds. distinct ds
      \<and> set ds = matching (docs c) (\<lambda>d. matches (opt_list (pq_Filter input)) d \<and> visible l ctx d)
      \<and> (\<forall>q s. fo_sort (modifySortOpt l no_opts input) = [(q, s)] \<longrightarrow> sorted_wrt (in_order blt q s) ds)
      \<and> TotalCount res = int (length ds)
      \<and> paged_Rows res = map dec (window (modifyPageOpt no_opts input) ds)"
proof -
  from assms(1) obtain f where inj: "injectCond l ctx (pq_Filter input) = Inr f"
    by (auto simp: PageQuery_def split: sum.splits)
  define input1 where "input1 = input\<lparr>pq_Filter := Some f\<rparr>"
  define opts where "opts = modifySortOpt l (modifyPageOpt no_opts input1) input1"
  from assms(1) inj obtain n c1 where cnt: "cls_CountDocuments (lib_cls l) c f = (Inr n, c1)"
    and fnd: "cls_Find (lib_cls l) c1 f opts = (Inr (Inr (paged_Rows res)), c')" and tot: "TotalCount res = n"
    by (auto simp: PageQuery_def Let_def input1_def opts_def split: sum.splits prod.splits)
  from Count_ok[OF cnt] have c1: "docs c1 = docs c" "n = int (card (matching (docs c) (matches f)))" by simp_all
  from Find_ok[OF fnd] c1(1) obtain ds where ds: "distinct ds" "set ds = matching (docs c) (matches f)"
    "\<And>q s. fo_sort opts = [(q, s)] \<Longrightarrow> sorted_wrt (in_order blt q s) ds" "paged_Rows res = map dec (window opts ds)" by auto
  have "set ds = matching (docs c) (\<lambda>d. matches (opt_list (pq_Filter input)) d \<and> visible l ctx d)"
    using injected_exact[OF inj _ assms(2,3)] by (auto simp: ds(2) matching_def)
  moreover have "fo_sort opts = fo_sort (modifySortOpt l no_opts input)"
    by (simp add: opts_def modifySortOpt_def input1_def Let_def)
  moreover have "window opts ds = window (modifyPageOpt no_opts input) ds"
    by (simp add: opts_def modifySortOpt_def modifyPageOpt_def input1_def window_def Let_def split: option.split prod.split)
  moreover have "n = int (length ds)" using distinct_card[OF ds(1)] c1(2) ds(2) by simp
  ultimately show ?thesis using ds tot by auto
qed

end

section \<open>An example\<close>

text \<open>Two tenants, a repository isolated by tenant, one document of each.\<close>

definition demo_rctx :: "string \<Rightarrow> repo_ctx" where
  "demo_rctx t = CtxSetAppID (CtxSetTenantID (CtxSetOperator Background ''ann'') t) ''shop''"

definition demo_doc :: "string \<Rightarrow> string \<Rightarrow> time \<Rightarrow> doc" where
  "demo_doc i t upd =
     \<lparr>ent_ID = GString i,
      ent_create = Some (ACreate \<lparr>CreatedAt = 5000000, CreatedBy = ''ann''\<rparr>),
      ent_update = Some (AUpdate \<lparr>UpdatedAt = upd, UpdatedBy = ''ann''\<rparr>),
      ent_delete = Some (ADelete \<lparr>DeletedAt = zero_time, DeletedBy = []\<rparr>),
      ent_tenant = Some \<lparr>TenantID = t, AppID = ''shop''\<rparr>, ent_body = []\<rparr>"

definition demo_repo :: "bdoc list CollectionLib" where
  "demo_repo = mem_lib (zero_RepoOpt\<lparr>DataIsolation := DataIsolationTenant\<rparr>) (demo_doc [] [] zero_time) TyString (TyOther [])"

definition demo_docs :: "bdoc list" where
  "demo_docs = [mem_enc (demo_doc ''1'' ''red'' 5000000), mem_enc (demo_doc ''2'' ''blue'' 5000000)]"

lemma demo_rctx_simps [simp]:
  "CtxGetOperator (demo_rctx t) = Some ''ann''" "CtxGetTenantID (demo_rctx t) = Some t"
  "CtxGetAppID (demo_rctx t) = Some ''shop''" "CtxRepoOptOrNew (demo_rctx t) = zero_RepoOpt"
proof -
  have keep: "CtxRepoOptOrNew (CtxSetPassVal c k v) = CtxRepoOptOrNew c" for c :: repo_ctx and k v
    by (simp add: CtxRepoOptOrNew_def CtxKeyRepoOpt_def CtxSetPassVal_def Let_def WithValue_def skey_def passHeadersContextKey_def)
  show "CtxRepoOptOrNew (demo_rctx t) = zero_RepoOpt"
    by (simp add: demo_rctx_def ctx_named_defs keep) (simp add: CtxRepoOptOrNew_def Background_def)
qed (simp_all add: demo_rctx_def ctx_named_defs)

lemma demo_repo_opt [simp]: "GetMergedRepoOpt demo_repo (demo_rctx t) = zero_RepoOpt\<lparr>DataIsolation := DataIsolationTenant\<rparr>"
  by (simp add: GetMergedRepoOpt_def demo_repo_def mem_lib_def CtxMergeRepoOpt_def zero_RepoOpt_def)

lemma demo_shape [simp]:
  "ent_create (lib_zero demo_repo) \<noteq> None" "ent_update (lib_zero demo_repo) \<noteq> None"
  "ent_delete (lib_zero demo_repo) \<noteq> None" "ent_tenant (lib_zero demo_repo) \<noteq> None"
  "lib_idKey demo_repo = ''_id''" "lib_cls demo_repo = mem_collection (demo_doc [] [] zero_time)"
  by (simp_all add: demo_repo_def mem_lib_def demo_doc_def)

lemma demo_enc [simp]:
  "mem_enc (demo_doc i t u) ''_id'' = (if i = [] then None else Some (BStr i))"
  "mem_enc (demo_doc i t u) ''created_at'' = Some (BDate 5)"
  "mem_enc (demo_doc i t u) ''created_by'' = Some (BStr ''ann'')"
  "mem_enc (demo_doc i t u) ''updated_at'' = (if IsZero u then None else Some (BDate (u div Millisecond)))"
  "mem_enc (demo_doc i t u) ''updated_by'' = Some (BStr ''ann'')"
  "mem_enc (demo_doc i t u) ''deleted_at'' = None"
  "mem_enc (demo_doc i t u) ''deleted_by'' = None"
  "mem_enc (demo_doc i t u) ''tenant_id'' = (if t = [] then None else Some (BStr t))"
  "mem_enc (demo_doc i t u) ''app_id'' = Some (BStr ''shop'')"
  by (simp_all add: mem_enc_def demo_doc_def stamp_of_def text_of_def audit_defs IsZero_def zero_time_def)

lemma demo_good [simp]: "good (mem_enc (demo_doc i t u)) \<longleftrightarrow> i \<noteq> []"
  by (simp add: good_def audit_keys_def)

lemma demo_repo_live [simp]: "live demo_docs = demo_docs"
  by (simp add: demo_docs_def)

lemma demo_found [simp]:
  "repo_docs demo_docs (BStr ''1'') = Some (mem_enc (demo_doc ''1'' ''red'' 5000000))"
  "repo_docs demo_docs (BStr ''2'') = Some (mem_enc (demo_doc ''2'' ''blue'' 5000000))"
  by (simp_all add: repo_docs_def) (simp_all add: demo_docs_def)

lemma demo_visible [simp]: "visible demo_repo (demo_rctx s) (mem_enc (demo_doc i t u)) \<longleftrightarrow> s = t \<and> t \<noteq> []"
  by (auto simp: visible_def isolated_def undeleted_def zero_RepoOpt_def)

section \<open>Properties\<close>

text \<open>
  C6. Isolation. A document that none of the requests of a history may see (of another tenant,
  another user, another application, or soft deleted) is still stored unchanged after the history,
  whatever filters and payloads the calls carry, and also when calls of the driver fail half way. The
  calls are those with \<open>checked_op\<close>: every operation of the repository, but no update, upsert or deletion of
  an entity with a zero identifier, no \<open>Upsert\<close> of an entity without creation time (it replaces by
  identifier alone and does cross tenants, \<open>upsert_crosses_tenants\<close>), and no \<open>PatchRaw\<close> that asks to skip
  the injected conditions.
\<close>

theorem repository_isolation:
  assumes "repository bv enc dec matches blt upd l docs" and "docs c k = Some d"
    and "\<forall>(ctx, clk, x) \<in> set h. checked_op x \<and> \<not> visible l ctx d"
  shows "docs (run_history l h c) k = Some d"
  using assms(2,3) by (rule repository.history_guarded[OF assms(1)])

definition demo_clock :: clock where
  "demo_clock i = 7000000 + int i * 1000000"

definition demo_history :: "(repo_ctx \<times> clock \<times> repo_op) list" where
  "demo_history =
     [(demo_rctx ''red'', demo_clock, RUpdate (demo_doc ''2'' ''red'' zero_time)),
      (demo_rctx ''red'', demo_clock, RDelete (demo_doc ''2'' ''blue'' zero_time)),
      (demo_rctx ''red'', demo_clock, RBatchDeleteByFilter (Some [(''tenant_id'', CEq (GString ''blue''))]))]"

theorem repository_isolation_witness:
  "repo_docs (run_history demo_repo demo_history demo_docs) (BStr ''2'') = Some (mem_enc (demo_doc ''2'' ''blue'' 5000000))"
proof (rule repository_isolation)
  show "repository mem_bv mem_enc (mem_dec (demo_doc [] [] zero_time)) mem_match mem_blt mem_upd demo_repo repo_docs"
    unfolding demo_repo_def by (rule memr.repository_axioms)
  show "repo_docs demo_docs (BStr ''2'') = Some (mem_enc (demo_doc ''2'' ''blue'' 5000000))" by simp
  show "\<forall>(ctx, clk, x) \<in> set demo_history. checked_op x \<and> \<not> visible demo_repo ctx (mem_enc (demo_doc ''2'' ''blue'' 5000000))"
    by (simp add: demo_history_def) (simp add: demo_doc_def)
qed

text \<open>
  C16. Queries. Every row that \<open>Find\<close>, \<open>PageQuery\<close>, \<open>FeedQuery\<close> or \<open>GetByFilter\<close> returns decodes a
  stored document that the request may see, for every filter the caller passes, and no query changes
  the collection.
\<close>

theorem repository_reads:
  assumes "repository bv enc dec matches blt upd l docs"
  shows "(case repo_Find l ctx fo opts c of (r, c') \<Rightarrow>
            docs c' = docs c \<and> (\<forall>es. r = Inr es \<longrightarrow> (\<forall>e \<in> set es. shown dec l ctx (docs c) e)))
    \<and> (case PageQuery l ctx pin c of (r, pin', c') \<Rightarrow>
            docs c' = docs c \<and> (\<forall>res. r = Inr res \<longrightarrow> (\<forall>e \<in> set (paged_Rows res). shown dec l ctx (docs c) e)))
    \<and> (case FeedQuery l ctx fin c of (r, fin', c') \<Rightarrow>
            docs c' = docs c \<and> (\<forall>res. r = Inr res \<longrightarrow> (\<forall>e \<in> set (feed_Rows res). shown dec l ctx (docs c) e)))
    \<and> (case GetByFilter l ctx fo c of (r, c') \<Rightarrow>
            docs c' = docs c \<and> (\<forall>e. r = Inr e \<longrightarrow> shown dec l ctx (docs c) e))"
proof (intro conjI, goal_cases)
  case 1
  show ?case using repository.Find_shown[OF assms] by (cases "repo_Find l ctx fo opts c") simp
next
  case 2
  show ?case using repository.PageQuery_shown[OF assms] by (cases "PageQuery l ctx pin c") simp
next
  case 3
  show ?case using repository.FeedQuery_shown[OF assms] by (cases "FeedQuery l ctx fin c") simp
next
  case 4
  show ?case using repository.GetByFilter_shown[OF assms] by (cases "GetByFilter l ctx fo c") simp
qed

theorem repository_reads_witness:
  "repo_Find demo_repo (demo_rctx ''red'') None no_opts demo_docs
     = (Inr [mem_dec (demo_doc [] [] zero_time) (mem_enc (demo_doc ''1'' ''red'' 5000000))], demo_docs)
   \<and> shown (mem_dec (demo_doc [] [] zero_time)) demo_repo (demo_rctx ''red'') (repo_docs demo_docs)
       (mem_dec (demo_doc [] [] zero_time) (mem_enc (demo_doc ''1'' ''red'' 5000000)))"
proof -
  have r: "repository mem_bv mem_enc (mem_dec (demo_doc [] [] zero_time)) mem_match mem_blt mem_upd demo_repo repo_docs"
    unfolding demo_repo_def by (rule memr.repository_axioms)
  have f: "repo_Find demo_repo (demo_rctx ''red'') None no_opts demo_docs
     = (Inr [mem_dec (demo_doc [] [] zero_time) (mem_enc (demo_doc ''1'' ''red'' 5000000))], demo_docs)"
    by (simp add: repo_Find_def injectCond_def injectIsolationCond_def injectSoftDeleteCond_def zero_RepoOpt_def
        mem_collection_def mem_Find_def found_def no_opts_def order_docs_def window_def)
      (simp add: demo_docs_def mem_match_def)
  from repository_reads[OF r, where ctx = "demo_rctx ''red''" and fo = None and opts = no_opts and c = demo_docs
      and pin = "\<lparr>pq_Filter = None, pq_Pager = None, pq_Sort = None\<rparr>"
      and fin = "\<lparr>fq_Filter = None, fq_Pager = None, fq_CursorField = [], fq_IsDescending = False\<rparr>"] f
  show ?thesis by simp
qed

text \<open>
  C17. Pages. With a filter that does not name the injected keys, a successful \<open>PageQuery\<close> with
  page size \<open>n\<close> and page number \<open>p\<close> returns the \<open>p\<close>-th run of \<open>n\<close> documents of one enumeration of exactly the visible
  documents that match the filter, in the requested order, and their total number.
\<close>

theorem page_query_exact:
  assumes "repository bv enc dec matches blt upd l docs"
    and "PageQuery l ctx input c = (Inr res, input', c')"
    and "distinct (map fst (opt_list (pq_Filter input)))"
    and "fst ` set (opt_list (pq_Filter input)) \<inter> injected_keys = {}"
    and "pq_Pager input = Some p" and "PageSize p > 0" and "PageNum p > 0" and "PageSize p * (PageNum p - 1) < 2 ^ 63"
  shows "\<exists>ds. distinct ds
      \<and> set ds = matching (docs c) (\<lambda>d. matches (opt_list (pq_Filter input)) d \<and> visible l ctx d)
      \<and> (\<forall>q s. fo_sort (modifySortOpt l no_opts input) = [(q, s)] \<longrightarrow> sorted_wrt (in_order blt q s) ds)
      \<and> TotalCount res = int (length ds)
      \<and> paged_Rows res = map dec (take (nat (PageSize p)) (drop (nat (PageSize p * (PageNum p - 1))) ds))"
proof -
  from assms(6,7) have "0 \<le> PageSize p * (PageNum p - 1)" by simp
  with assms(8) have "int64 (PageSize p * (PageNum p - 1)) = PageSize p * (PageNum p - 1)" by (simp add: int64_id in_int64_def)
  with assms(5-7) have "window (modifyPageOpt no_opts input) ds =
      take (nat (PageSize p)) (drop (nat (PageSize p * (PageNum p - 1))) ds)" for ds :: "bdoc list"
    by (simp add: window_def modifyPageOpt_def no_opts_def GetPageInfo_def)
  with repository.PageQuery_exact[OF assms(1-4)] show ?thesis by simp
qed

theorem page_query_exact_witness:
  "\<exists>res input' c'. PageQuery demo_repo (demo_rctx ''red'')
       \<lparr>pq_Filter = None, pq_Pager = Some \<lparr>PageSize = 1, PageNum = 1, PageToken = []\<rparr>, pq_Sort = None\<rparr> demo_docs
       = (Inr res, input', c')
     \<and> TotalCount res = 1 \<and> length (paged_Rows res) = 1"
proof -
  let ?in = "\<lparr>pq_Filter = None, pq_Pager = Some \<lparr>PageSize = 1, PageNum = 1, PageToken = []\<rparr>, pq_Sort = None\<rparr>"
  have r: "repository mem_bv mem_enc (mem_dec (demo_doc [] [] zero_time)) mem_match mem_blt mem_upd demo_repo repo_docs"
    unfolding demo_repo_def by (rule memr.repository_axioms)
  have f: "found demo_docs [(''tenant_id'', CEq (GString ''red'')), (''deleted_at'', CExists False)] =
      [mem_enc (demo_doc ''1'' ''red'' 5000000)]"
    by (simp add: found_def) (simp add: demo_docs_def mem_match_def)
  obtain res input' c' where q: "PageQuery demo_repo (demo_rctx ''red'') ?in demo_docs = (Inr res, input', c')" and t: "TotalCount res = 1"
    by (simp add: PageQuery_def injectCond_def injectIsolationCond_def injectSoftDeleteCond_def zero_RepoOpt_def
        mem_collection_def mem_Find_def mem_Count_def f Let_def)
  from page_query_exact[OF r q, of "\<lparr>PageSize = 1, PageNum = 1, PageToken = []\<rparr>"]
  obtain ds where "TotalCount res = int (length ds)" "paged_Rows res = map (mem_dec (demo_doc [] [] zero_time)) (take 1 ds)"
    by (auto simp: opt_list_def)
  with q t show ?thesis by auto
qed

section \<open>Where the conditions do not reach\<close>

text \<open>
  \<open>Upsert\<close> with a document that has no creation time replaces by identifier alone: the document of
  another tenant is overwritten, and its tenant with it.
\<close>

definition stolen :: doc where
  "stolen = (demo_doc ''2'' [] zero_time)\<lparr>ent_create := Some (ACreate \<lparr>CreatedAt = zero_time, CreatedBy = []\<rparr>)\<rparr>"

lemma upsert_crosses_tenants:
  "\<not> visible demo_repo (demo_rctx ''red'') (mem_enc (demo_doc ''2'' ''blue'' 5000000))
   \<and> (\<exists>e e' c'. repo_Upsert demo_repo (demo_rctx ''red'') demo_clock stolen demo_docs = (Inr e, e', c')
        \<and> (\<exists>d. repo_docs c' (BStr ''2'') = Some d \<and> d ''tenant_id'' = Some (BStr ''red'')))"
proof -
  obtain e where a: "CtxCreateAudit (demo_rctx ''red'') demo_clock stolen = (None, e)"
    and e: "ent_ID e = GString ''2''" "ent_tenant e = Some \<lparr>TenantID = ''red'', AppID = ''shop''\<rparr>"
      "ent_create e = Some (ACreate \<lparr>CreatedAt = 7000000, CreatedBy = ''ann''\<rparr>)"
      "ent_update e = Some (AUpdate \<lparr>UpdatedAt = 8000000, UpdatedBy = ''ann''\<rparr>)"
      "ent_delete e = Some (ADelete \<lparr>DeletedAt = zero_time, DeletedBy = []\<rparr>)"
    by (simp add: CtxCreateAudit_def CtxUpdateAudit_def stolen_def demo_doc_def fill_tenant_def audit_defs demo_clock_def)
  have enc: "mem_enc e ''_id'' = Some (BStr ''2'')" "mem_enc e ''tenant_id'' = Some (BStr ''red'')" "good (mem_enc e)"
    by (simp_all add: good_def audit_keys_def mem_enc_def e stamp_of_def text_of_def audit_defs IsZero_def zero_time_def)
  have zero: "IsZero (snd (GetCreatorInfo (ACreate \<lparr>CreatedAt = zero_time, CreatedBy = []\<rparr>)))"
    by (simp add: audit_defs IsZero_def)
  have id: "entity_GetID stolen = GString ''2''" "ent_create stolen = Some (ACreate \<lparr>CreatedAt = zero_time, CreatedBy = []\<rparr>)"
    by (simp_all add: stolen_def demo_doc_def entity_GetID_def)
  have fnd: "found demo_docs [(''_id'', CEq (GString ''2''))] = [mem_enc (demo_doc ''2'' ''blue'' 5000000)]"
    by (simp add: found_def) (simp add: demo_docs_def mem_match_def)
  have f: "auditAndBuildReplaceFilter demo_repo (demo_rctx ''red'') demo_clock stolen True = (Inr [(''_id'', CEq (GString ''2''))], e)"
    using zero by (simp add: auditAndBuildReplaceFilter_def id a)
  have "mem_ReplaceOne demo_docs [(''_id'', CEq (GString ''2''))] e True = (Inr (1, 1, 0), put_doc (BStr ''2'') (mem_enc e) demo_docs)"
    by (simp add: mem_ReplaceOne_def Let_def enc e fnd)
  then have "repo_Upsert demo_repo (demo_rctx ''red'') demo_clock stolen demo_docs = (Inr e, e, put_doc (BStr ''2'') (mem_enc e) demo_docs)"
    by (simp add: repo_Upsert_def commonReplace_def f mem_collection_def)
  moreover have "repo_docs (put_doc (BStr ''2'') (mem_enc e) demo_docs) (BStr ''2'') = Some (mem_enc e)"
    using repo_docs_put[of demo_docs "mem_enc e" "BStr ''2''" "mem_enc (demo_doc ''2'' ''blue'' 5000000)"] clean_live[of demo_docs] enc by simp
  ultimately show ?thesis using enc by simp
qed

end
