(* ===== verification/Mongox_Lock.thy ===== *)
theory Mongox_Lock
  imports Mongox_Isolation
begin

text \<open>
  What single operations of the repository do: creation and reading back, replacement under the
  optimistic lock, soft deletion.
\<close>

section \<open>Identifiers and locks\<close>

text \<open>Identifiers of the types \<open>IDType\<close> allows, not zero, and representable in BSON.\<close>

fun proper_id :: "go_val \<Rightarrow> bool" where
  "proper_id (GString s) \<longleftrightarrow> s \<noteq> []"
| "proper_id (GInt i) \<longleftrightarrow> i \<noteq> 0"
| "proper_id (GUint n) \<longleftrightarrow> n \<noteq> 0 \<and> n < 2 ^ 63"
| "proper_id v \<longleftrightarrow> False"

lemma proper_id_nonzero: "proper_id v \<Longrightarrow> \<not> go_IsZero v"
  by (cases v) auto

text \<open>The version a document carries: its update time, when it has one.\<close>

definition version :: "doc \<Rightarrow> raw_time option" where
  "version e = (case ent_update e of
     None \<Rightarrow> None
   | Some ua \<Rightarrow> if IsZero (snd (GetUpdateInfo ua)) then None else Some (GetUpdateTimeRaw ua))"

definition lock_filter :: "doc \<Rightarrow> bfilter" where
  "lock_filter e = (''_id'', CEq (ent_ID e))
     # (case version e of None \<Rightarrow> [] | Some raw \<Rightarrow> [(''updated_at'', CEq (raw_val raw))])"

text \<open>A deletion leaves a stamp when the clock is past the first millisecond of the Unix epoch.\<close>

lemma deleter_stamp:
  assumes "Millisecond \<le> now" and "now < 2 ^ 63"
  shows "stamp_of (GetDeleteTimeRaw (SetDeleter now u dl)) \<noteq> None"
proof (cases dl)
  case (ADelete d)
  with assms(1) show ?thesis by (simp add: stamp_of_def audit_defs IsZero_def zero_time_def)
next
  case (ADeleteMs d)
  have "1 \<le> now div Millisecond" using zdiv_mono1[OF assms(1), of Millisecond] by simp
  moreover have "now div Millisecond \<le> now" using assms(1) zdiv_mono2[of now 1 Millisecond] by simp
  ultimately have "int64 (now div Millisecond) \<noteq> 0" using assms(2) by (simp add: int64_id in_int64_def)
  with ADeleteMs show ?thesis by (simp add: stamp_of_def audit_defs UnixMilli_def)
qed

text \<open>What the filter of an update selects.\<close>

definition current :: "(go_val \<Rightarrow> bson) \<Rightarrow> 'c CollectionLib \<Rightarrow> repo_ctx \<Rightarrow> doc \<Rightarrow> bdoc \<Rightarrow> bool" where
  "current bv l ctx e d \<longleftrightarrow> visible l ctx d \<and>
     (\<forall>raw. version e = Some raw \<longrightarrow> d ''updated_at'' = Some (bv (raw_val raw)))"

text \<open>The errors of an update that come from the driver: its own, wrapped, and a duplicate key.\<close>

definition update_driver_error :: "'c CollectionLib \<Rightarrow> doc \<Rightarrow> go_error \<Rightarrow> bool" where
  "update_driver_error l e err \<longleftrightarrow>
     (\<exists>e0. err = WrapError ''create doc failed: '' e0 [] \<or> err = WrapError ''check id failed: '' e0 [])
     \<or> err = NewResourceConflictError (resourceByDoc l e) None"

text \<open>Whether the context has what an update of \<open>e\<close> needs.\<close>

definition may_update :: "'c CollectionLib \<Rightarrow> repo_ctx \<Rightarrow> doc \<Rightarrow> bool" where
  "may_update l ctx e \<longleftrightarrow> (ent_update e \<noteq> None \<longrightarrow> CtxGetOperator ctx \<noteq> None) \<and> has_subject l ctx"

text \<open>The document an update audit leaves.\<close>

definition stamped :: "repo_ctx \<Rightarrow> time \<Rightarrow> doc \<Rightarrow> doc" where
  "stamped ctx now e = e\<lparr>ent_update := map_option (SetUpdater now (the (CtxGetOperator ctx))) (ent_update e)\<rparr>"

lemma CtxUpdateAudit_outcome:
  "CtxUpdateAudit ctx now e =
     (if ent_update e \<noteq> None \<and> CtxGetOperator ctx = None then (Some no_user, e) else (None, stamped ctx now e))"
  by (auto simp: CtxUpdateAudit_def stamped_def split: option.splits)

lemma UpdateLockAndAudit_outcome:
  "UpdateLockAndAudit ctx now e opt = (r, e') \<Longrightarrow>
   if ent_update e \<noteq> None \<and> CtxGetOperator ctx = None then e' = e \<and> (\<exists>p. r = Inl (WrapError p no_user []))
   else e' = stamped ctx now e \<and> (\<exists>res. r = Inr res
      \<and> (version e = None \<longrightarrow> \<not> HasOriginalUpdate res)
      \<and> (\<forall>raw. version e = Some raw \<longrightarrow> HasOriginalUpdate res \<and> OriginalUpdatedAt res = Some raw))"
  by (cases "ent_update e")
    (auto simp: UpdateLockAndAudit_def CtxUpdateAuditAndEnv_def CtxUpdateAudit_outcome version_def Let_def IsZero_def
      split: if_splits)

lemma baseUpdateOp_outcome:
  assumes "baseUpdateOp l ctx clk e = (r, e')" and "lib_idKey l = ''_id''"
  shows "if ent_update e \<noteq> None \<and> CtxGetOperator ctx = None then e' = e \<and> (\<exists>p. r = Inl (WrapError p no_user []))
    else e' = stamped ctx (clk 0) e \<and> r = injectCond l ctx (Some (lock_filter e))"
proof -
  obtain r1 e1 where u: "UpdateLockAndAudit ctx (clk 0) e (Some (GetMergedRepoOpt l ctx)) = (r1, e1)" by fastforce
  have id: "ent_ID (stamped ctx now e) = ent_ID e" for now by (simp add: stamped_def)
  from UpdateLockAndAudit_outcome[OF u] assms show ?thesis
    by (cases "version e")
      (auto simp: baseUpdateOp_def u Let_def lock_filter_def entity_GetID_def id split: if_splits option.splits)
qed

lemma lock_filter_keys:
  "distinct (map fst (lock_filter e))" "fst ` set (lock_filter e) \<inter> injected_keys = {}"
  by (auto simp: lock_filter_def injected_keys_def split: option.splits)

lemma update_each_delete:
  assumes "distinct (map fst f)" and "distinct (map fst cs)" and "k \<notin> fst ` set cs"
  shows "set (AList.delete k (update_each cs f)) = set (update_each cs (AList.delete k f))"
proof -
  have "set (AList.delete k (update_each cs f)) = {x \<in> set (update_each cs f). fst x \<noteq> k}"
    by (auto simp: AList.delete_eq)
  moreover have "distinct (map fst (AList.delete k f))" using assms(1) by (rule distinct_delete)
  ultimately show ?thesis
    using assms by (auto simp: update_each_set AList.delete_eq)
qed

context repository
begin

lemma plain_id: "proper_id i \<Longrightarrow> plain_bson (bv i)"
  by (cases i) (auto simp: bv_string bv_int bv_uint)

lemma plain_raw: "plain_bson (bv (raw_val raw))"
  by (cases raw) (auto simp: raw_val_def bv_int bv_time)

lemma matches_id:
  assumes "docs c k = Some d" and "proper_id i"
  shows "matches [(''_id'', CEq i)] d \<longleftrightarrow> k = bv i"
  using matches_eq[of "''_id''" i d] docs_id[OF assms(1)] docs_plain[OF assms(1), of "''_id''"] plain_id[OF assms(2)] by auto

lemma matches_version:
  assumes "docs c k = Some d"
  shows "matches [(''updated_at'', CEq (raw_val raw))] d \<longleftrightarrow> d ''updated_at'' = Some (bv (raw_val raw))"
  using matches_eq[of "''updated_at''" "raw_val raw" d] docs_plain[OF assms, of "''updated_at''"] plain_raw by simp

lemma matches_Cons: "matches (x # f) d \<longleftrightarrow> matches [x] d \<and> matches f d"
  using matches_all[of "x # f" d] matches_all[of f d] by simp

lemma matches_Nil: "matches [] d"
  using matches_all[of "[]" d] by simp

lemma matches_lock:
  assumes "injectCond l ctx (Some (lock_filter e)) = Inr f" and "docs c k = Some d" and "proper_id (ent_ID e)"
  shows "matches f d \<longleftrightarrow> k = bv (ent_ID e) \<and> current bv l ctx e d"
proof -
  have "matches f d \<longleftrightarrow> matches (lock_filter e) d \<and> visible l ctx d"
    using injected_exact[OF assms(1,2)] lock_filter_keys[of e] by (simp add: opt_list_def)
  also have "matches (lock_filter e) d \<longleftrightarrow> k = bv (ent_ID e) \<and> (\<forall>raw. version e = Some raw \<longrightarrow> d ''updated_at'' = Some (bv (raw_val raw)))"
    by (cases "version e") (auto simp: lock_filter_def matches_Cons[of _ "[_]"] matches_id[OF assms(2,3)] matches_version[OF assms(2)])
  finally show ?thesis by (auto simp: current_def)
qed

lemma matches_unlocked:
  assumes "injectCond l ctx (Some (lock_filter e)) = Inr f" and "docs c k = Some d" and "proper_id (ent_ID e)"
  shows "matches (AList.delete ''updated_at'' f) d \<longleftrightarrow> k = bv (ent_ID e) \<and> visible l ctx d"
proof -
  define cs where "cs = isolation_cond l ctx @ deletion_cond l ctx"
  from assms(1) have s: "has_subject l ctx" and f: "f = update_each cs (lock_filter e)"
    by (simp_all add: injectCond_conds cs_def opt_list_def)
  have "''updated_at'' \<notin> fst ` set cs" using cond_keys(2)[of l ctx] by (auto simp: cs_def injected_keys_def)
  then have "set (AList.delete ''updated_at'' f) = set (update_each cs [(''_id'', CEq (ent_ID e))])"
    using update_each_delete[of "lock_filter e" cs] lock_filter_keys(1)[of e] cond_keys(1)[of l ctx]
    by (simp add: f cs_def lock_filter_def split: option.split)
  then have "matches (AList.delete ''updated_at'' f) d \<longleftrightarrow> matches (update_each cs [(''_id'', CEq (ent_ID e))]) d"
    using matches_all[of "AList.delete ''updated_at'' f" d] matches_all[of "update_each cs [(''_id'', CEq (ent_ID e))]" d] by simp
  moreover have "injectCond l ctx (Some [(''_id'', CEq (ent_ID e))]) = Inr (update_each cs [(''_id'', CEq (ent_ID e))])"
    using s by (simp add: injectCond_conds cs_def opt_list_def)
  from injected_exact[OF this assms(2)]
  have "matches (update_each cs [(''_id'', CEq (ent_ID e))]) d \<longleftrightarrow> k = bv (ent_ID e) \<and> visible l ctx d"
    by (simp add: opt_list_def injected_keys_def matches_id[OF assms(2,3)])
  ultimately show ?thesis by simp
qed

lemma base_refused:
  assumes "\<not> may_update l ctx e"
  obtains err e1 where "baseUpdateOp l ctx clk e = (Inl err, e1)" and "CodeOf (Some err) = ErrCodeValidate"
proof -
  obtain r1 e1 where b: "baseUpdateOp l ctx clk e = (r1, e1)" by fastforce
  have "\<exists>err. r1 = Inl err \<and> CodeOf (Some err) = ErrCodeValidate"
  proof (cases "ent_update e \<noteq> None \<and> CtxGetOperator ctx = None")
    case True
    with baseUpdateOp_outcome[OF b id_key] show ?thesis by (auto simp: no_user_def)
  next
    case False
    with assms have "\<not> has_subject l ctx" by (auto simp: may_update_def)
    then obtain err where "injectCond l ctx (Some (lock_filter e)) = Inl err"
      using injectCond_conds[of l ctx "Some (lock_filter e)"] by (cases "injectCond l ctx (Some (lock_filter e))") auto
    with injectCond_error[OF this] baseUpdateOp_outcome[OF b id_key] False show ?thesis by simp
  qed
  with b that show ?thesis by blast
qed

lemma Update_refused:
  assumes "repo_Update l ctx clk e c = (r, e', c')" and "\<not> may_update l ctx e"
  shows "c' = c \<and> (\<exists>err. r = Inl err \<and> CodeOf (Some err) = ErrCodeValidate)"
  by (rule base_refused[OF assms(2), of clk])
    (use assms(1) in \<open>auto simp: repo_Update_def commonReplace_def auditAndBuildReplaceFilter_def\<close>)

lemma Update_filter:
  assumes "may_update l ctx e"
  obtains f where "injectCond l ctx (Some (lock_filter e)) = Inr f"
    and "baseUpdateOp l ctx clk e = (Inr f, stamped ctx (clk 0) e)"
    and "map_of f ''updated_at'' \<noteq> None \<longleftrightarrow> version e \<noteq> None"
proof -
  define f where "f = update_each (isolation_cond l ctx @ deletion_cond l ctx) (lock_filter e)"
  from assms have i: "injectCond l ctx (Some (lock_filter e)) = Inr f"
    by (simp add: injectCond_conds may_update_def f_def opt_list_def)
  obtain r1 e1 where b: "baseUpdateOp l ctx clk e = (r1, e1)" by fastforce
  with baseUpdateOp_outcome[OF b id_key] assms i have "baseUpdateOp l ctx clk e = (Inr f, stamped ctx (clk 0) e)"
    by (auto simp: may_update_def split: if_splits)
  moreover have "map_of f ''updated_at'' \<noteq> None \<longleftrightarrow> version e \<noteq> None"
  proof -
    define cs where "cs = isolation_cond l ctx @ deletion_cond l ctx"
    have "''updated_at'' \<notin> fst ` set cs" using cond_keys(2)[of l ctx] by (auto simp: cs_def injected_keys_def)
    moreover have "set f = set cs \<union> {x \<in> set (lock_filter e). fst x \<notin> fst ` set cs}"
      using update_each_set[OF lock_filter_keys(1)[of e] cond_keys(1)[of l ctx]] by (simp only: f_def cs_def)
    ultimately have "''updated_at'' \<in> fst ` set f \<longleftrightarrow> ''updated_at'' \<in> fst ` set (lock_filter e)" by force
    also have "\<dots> \<longleftrightarrow> version e \<noteq> None" by (cases "version e") (simp_all add: lock_filter_def)
    finally show ?thesis by (simp only: map_of_eq_None_iff not_not)
  qed
  ultimately show ?thesis using that i by blast
qed

lemma stamped_id [simp]: "ent_ID (stamped ctx now e) = ent_ID e"
  by (simp add: stamped_def)

lemma Update_success:
  assumes "repo_Update l ctx clk e c = (Inr x, e', c')" and "proper_id (ent_ID e)"
  shows "x = e' \<and> e' = stamped ctx (clk 0) e \<and> may_update l ctx e
    \<and> (\<exists>d. docs c (bv (ent_ID e)) = Some d \<and> current bv l ctx e d
        \<and> docs c' = (docs c)(bv (ent_ID e) \<mapsto> enc e'))"
proof -
  from assms(1) Update_refused have m: "may_update l ctx e" by fastforce
  obtain f where i: "injectCond l ctx (Some (lock_filter e)) = Inr f"
    and b: "baseUpdateOp l ctx clk e = (Inr f, stamped ctx (clk 0) e)" by (rule Update_filter[OF m])
  let ?e = "stamped ctx (clk 0) e"
  from assms(1) b obtain n md j where rp: "cls_ReplaceOne (lib_cls l) c f ?e False = (Inr (n, md, j), c')"
    and n: "n \<noteq> 0" and x: "x = ?e" "e' = ?e"
    by (auto simp: repo_Update_def commonReplace_def auditAndBuildReplaceFilter_def Let_def split: sum.splits prod.splits if_splits)
  from ReplaceOne_matched[OF rp n] proper_id_nonzero[OF assms(2)] obtain d
    where d: "docs c (bv (ent_ID e)) = Some d" "matches f d" "docs c' = (docs c)(bv (ent_ID e) \<mapsto> enc ?e)" by auto
  from matches_lock[OF i d(1) assms(2)] d(2) have "current bv l ctx e d" by simp
  with d x m show ?thesis by simp
qed

lemma Update_stale:
  assumes "repo_Update l ctx clk e c = (r, e', c')" and "proper_id (ent_ID e)" and "may_update l ctx e"
    and stale: "\<And>d. docs c (bv (ent_ID e)) = Some d \<Longrightarrow> \<not> current bv l ctx e d"
  shows "docs c' = docs c \<and> (\<exists>err. r = Inl err \<and> (update_driver_error l e' err \<or>
    CodeOf (Some err) = (case docs c (bv (ent_ID e)) of
       Some d \<Rightarrow> if visible l ctx d then ErrCodeConflict else ErrCodeNotFound | None \<Rightarrow> ErrCodeNotFound)))"
proof -
  obtain f where i: "injectCond l ctx (Some (lock_filter e)) = Inr f"
    and b: "baseUpdateOp l ctx clk e = (Inr f, stamped ctx (clk 0) e)" by (rule Update_filter[OF assms(3)])
  let ?e = "stamped ctx (clk 0) e" and ?k = "bv (ent_ID e)"
  have nz: "\<not> go_IsZero (ent_ID ?e)" using proper_id_nonzero[OF assms(2)] by simp
  have none: "\<not> matches f d" if "docs c k = Some d" for k d
    using matches_lock[OF i that assms(2)] stale that by auto
  have e': "e' = ?e" using assms(1) b
    by (auto simp: repo_Update_def commonReplace_def auditAndBuildReplaceFilter_def Let_def split: sum.splits prod.splits if_splits)
  obtain r1 c1 where rp: "cls_ReplaceOne (lib_cls l) c f ?e False = (r1, c1)" by fastforce
  show ?thesis
  proof (cases r1)
    case (Inl err)
    from ReplaceOne_failed[OF rp[unfolded Inl] nz] none have "docs c1 = docs c" by auto
    with assms(1) b rp Inl show ?thesis
      by (auto simp: repo_Update_def commonReplace_def auditAndBuildReplaceFilter_def update_driver_error_def split: if_splits)
  next
    case (Inr y)
    obtain n md j where y: "y = (n, md, j)" by (cases y)
    have n: "n = 0"
    proof (rule ccontr)
      assume "n \<noteq> 0"
      from ReplaceOne_matched[OF rp[unfolded Inr y] this nz] none show False by auto
    qed
    from ReplaceOne_none[OF rp[unfolded Inr y n] nz] have c1: "docs c1 = docs c" by simp
    define f2 where "f2 = AList.delete ''updated_at'' f"
    obtain r2 c2 where ct: "cls_CountDocuments (lib_cls l) c1 f2 = (r2, c2)" by fastforce
    from Count_docs[OF ct] c1 have c2: "docs c2 = docs c" by simp
    show ?thesis
    proof (cases r2)
      case (Inl err)
      with assms(1) b rp Inr y n ct c2 show ?thesis
        by (auto simp: repo_Update_def commonReplace_def auditAndBuildReplaceFilter_def update_driver_error_def f2_def Let_def)
    next
      case (Inr cnt)
      have f2: "matching (docs c1) (matches f2) = {d. docs c ?k = Some d \<and> visible l ctx d}"
        using matches_unlocked[OF i _ assms(2)] by (auto simp: matching_def c1 f2_def)
      have "card (matching (docs c1) (matches f2)) =
          (case docs c ?k of Some d \<Rightarrow> if visible l ctx d then 1 else 0 | None \<Rightarrow> 0)"
      proof (cases "docs c ?k")
        case (Some d)
        then have "{d. docs c ?k = Some d \<and> visible l ctx d} = (if visible l ctx d then {d} else {})" by auto
        with Some show ?thesis unfolding f2 by simp
      qed (simp add: f2)
      with Count_ok[OF ct[unfolded Inr]] have "cnt > 0 \<longleftrightarrow> (\<exists>d. docs c ?k = Some d \<and> visible l ctx d)"
        by (auto split: option.splits if_splits)
      with assms(1) b rp \<open>r1 = Inr y\<close> y n ct Inr c2 show ?thesis
        by (auto simp: repo_Update_def commonReplace_def auditAndBuildReplaceFilter_def f2_def Let_def
            split: if_splits option.splits)
    qed
  qed
qed

text \<open>Reading by identifier.\<close>

lemma Get_result:
  assumes "repo_Get l ctx i c = (r, c')" and "proper_id i" and "has_subject l ctx"
  shows "docs c' = docs c
    \<and> (\<forall>e. r = Inr e \<longrightarrow> (\<exists>d. docs c (bv i) = Some d \<and> visible l ctx d \<and> e = dec d))
    \<and> (\<forall>err. r = Inl err \<longrightarrow> (\<exists>e0. err = WrapError ''mongo find failed: '' e0 [])
        \<or> CodeOf (Some err) = ErrCodeNotFound \<and> (\<forall>d. docs c (bv i) = Some d \<longrightarrow> \<not> visible l ctx d))"
proof -
  define f where "f = update_each (isolation_cond l ctx @ deletion_cond l ctx) [(''_id'', CEq i)]"
  from assms(3) have inj: "injectCond l ctx (Some [(''_id'', CEq i)]) = Inr f"
    by (simp add: injectCond_conds f_def opt_list_def)
  have "matches f d \<longleftrightarrow> k = bv i \<and> visible l ctx d" if "docs c k = Some d" for k d
    using injected_exact[OF inj that] by (simp add: opt_list_def injected_keys_def matches_id[OF that assms(2)])
  then have "matching (docs c) (matches f) = {d. docs c (bv i) = Some d \<and> visible l ctx d}"
    by (auto simp: matching_def)
  with GetByFilter_found[OF assms(1)[unfolded repo_Get_def id_key] inj] show ?thesis
    by (auto simp: read_failure_def)
qed

text \<open>Inserting.\<close>

lemma Create_result:
  assumes "repo_Create l ctx clk e c = (Inr x, e', c')"
  shows "x = e' \<and> CtxCreateAudit ctx clk e = (None, e') \<and> docs c (bv (ent_ID e)) = None
    \<and> docs c' = (docs c)(bv (ent_ID e) \<mapsto> enc e')"
proof -
  from assms have z: "\<not> go_IsZero (ent_ID e)" and a: "CtxCreateAudit ctx clk e = (None, e')" and x: "x = e'"
    and i: "cls_InsertOne (lib_cls l) c e' = (None, c')"
    by (auto simp: repo_Create_def checkIfIDExisted_def entity_GetID_def split: option.splits prod.splits if_splits)
  from CtxCreateAudit_keeps[OF a] have "ent_ID e' = ent_ID e" by simp
  with InsertOne_ok[OF i] z a x show ?thesis by simp
qed

lemma Delete_soft:
  assumes "repo_Delete l ctx clk e c = (None, e', c')" and "proper_id (ent_ID e)" and "ent_delete e = Some dl"
    and "SoftDelete (GetMergedRepoOpt l ctx) \<noteq> SoftDeleteDisable"
  shows "docs c' = (docs c)(bv (ent_ID e) \<mapsto> enc e')
    \<and> (\<exists>u. CtxGetOperator ctx = Some u \<and> ent_delete e' = Some (SetDeleter (clk 0) u dl))
    \<and> (\<exists>d. docs c (bv (ent_ID e)) = Some d \<and> current bv l ctx e d)"
proof -
  from assms(1,3) obtain u where u: "CtxGetOperator ctx = Some u"
    by (auto simp: repo_Delete_def CtxDeleteAudit_def split: option.splits)
  define e1 where "e1 = e\<lparr>ent_delete := Some (SetDeleter (clk 0) u dl)\<rparr>"
  have a: "CtxDeleteAudit ctx (clk 0) e = (Inr True, e1)" by (simp add: CtxDeleteAudit_def assms(3) u e1_def)
  from assms(1,4) a obtain x where up: "repo_Update l ctx (later clk) e1 c = (Inr x, e', c')"
    by (auto simp: repo_Delete_def split: prod.splits sum.splits)
  have same: "ent_ID e1 = ent_ID e" "version e1 = version e" by (simp_all add: e1_def version_def)
  from Update_success[OF up] assms(2) same have "e' = stamped ctx (later clk 0) e1"
    "\<exists>d. docs c (bv (ent_ID e)) = Some d \<and> current bv l ctx e d \<and> docs c' = (docs c)(bv (ent_ID e) \<mapsto> enc e')"
    by (auto simp: current_def)
  then show ?thesis using u by (auto simp: stamped_def e1_def)
qed

end

context repository
begin

lemma Delete_lasts:
  assumes "proper_id (ent_ID e)" and "ent_delete e = Some dl"
    and "ent_delete (lib_zero l) \<noteq> None" and "SoftDelete (GetMergedRepoOpt l ctx) \<noteq> SoftDeleteDisable"
    and "Millisecond \<le> clk 0" and "clk 0 < 2 ^ 63"
    and "repo_Delete l ctx clk e c = (None, e', c')"
    and "\<forall>(ctx2, clk2, x) \<in> set h. checked_op x \<and> SoftDelete (GetMergedRepoOpt l ctx2) \<noteq> SoftDeleteDisable"
    and "SoftDelete (GetMergedRepoOpt l ctx3) \<noteq> SoftDeleteDisable" and "has_subject l ctx3"
  shows "docs (run_history l h c') (bv (ent_ID e)) = Some (enc e') \<and> enc e' ''deleted_at'' \<noteq> None
    \<and> (\<exists>err. fst (repo_Get l ctx3 (ent_ID e) (run_history l h c')) = Inl err
         \<and> (CodeOf (Some err) = ErrCodeNotFound \<or> (\<exists>e0. err = WrapError ''mongo find failed: '' e0 [])))"
proof -
  from Delete_soft[OF assms(7,1,2,4)] obtain u where d: "docs c' (bv (ent_ID e)) = Some (enc e')"
    and del: "ent_delete e' = Some (SetDeleter (clk 0) u dl)" by auto
  from enc_deleted_at[OF del] deleter_stamp[OF assms(5,6)] have st: "enc e' ''deleted_at'' \<noteq> None" by simp
  have hid: "\<not> visible l ctx2 (enc e')" if "SoftDelete (GetMergedRepoOpt l ctx2) \<noteq> SoftDeleteDisable" for ctx2
    using that st assms(3) by (simp add: visible_def undeleted_def)
  have k: "docs (run_history l h c') (bv (ent_ID e)) = Some (enc e')"
    by (rule history_guarded[OF d]) (use assms(8) hid in fast)
  obtain r c2 where g: "repo_Get l ctx3 (ent_ID e) (run_history l h c') = (r, c2)" by fastforce
  from Get_result[OF g assms(1,10)] k hid[OF assms(9)] have "\<exists>err. r = Inl err
      \<and> (CodeOf (Some err) = ErrCodeNotFound \<or> (\<exists>e0. err = WrapError ''mongo find failed: '' e0 []))"
    by (cases r) auto
  with k st g show ?thesis by simp
qed

end

section \<open>Creation and visibility\<close>

text \<open>The entity as \<open>CtxCreateAudit\<close> leaves it when the context has everything.\<close>

definition audited :: "repo_ctx \<Rightarrow> clock \<Rightarrow> doc \<Rightarrow> doc" where
  "audited ctx clk e = e\<lparr>
     ent_create := map_option (SetCreator (clk 0) (the (CtxGetOperator ctx))) (ent_create e),
     ent_update := map_option (SetUpdater (clk 1) (the (CtxGetOperator ctx))) (ent_update e),
     ent_tenant := map_option (\<lambda>t. \<lparr>TenantID = the (CtxGetTenantID ctx), AppID = the (CtxGetAppID ctx)\<rparr>) (ent_tenant e)\<rparr>"

definition audit_ready :: "repo_ctx \<Rightarrow> doc \<Rightarrow> bool" where
  "audit_ready ctx e \<longleftrightarrow>
     (ent_create e \<noteq> None \<or> ent_update e \<noteq> None \<longrightarrow> CtxGetOperator ctx \<noteq> None)
     \<and> (ent_tenant e \<noteq> None \<longrightarrow> CtxGetTenantID ctx \<noteq> None \<and> CtxGetAppID ctx \<noteq> None)"

lemma CtxCreateAudit_outcome:
  "if audit_ready ctx e then CtxCreateAudit ctx clk e = (None, audited ctx clk e)
   else \<exists>err e'. CtxCreateAudit ctx clk e = (Some err, e') \<and> CodeOf (Some err) = ErrCodeValidate"
proof -
  have ta: "t\<lparr>TenantID := x, AppID := y\<rparr> = \<lparr>TenantID = x, AppID = y\<rparr>" for t :: TenantAudit and x y by simp
  show ?thesis
    by (cases "ent_create e"; cases "ent_update e"; cases "ent_tenant e"; cases "CtxGetOperator ctx";
        cases "CtxGetTenantID ctx"; cases "CtxGetAppID ctx")
      (simp_all add: audit_ready_def audited_def CtxCreateAudit_def CtxUpdateAudit_def fill_tenant_def
        SetTenantID_def SetAppID_def no_user_def no_tenant_def no_app_def ta)
qed

text \<open>\<open>e\<close> is an entity of the type of the repository, not yet deleted, and the request has non-empty names.\<close>

definition of_type :: "'c CollectionLib \<Rightarrow> doc \<Rightarrow> bool" where
  "of_type l e \<longleftrightarrow> (ent_create e = None \<longleftrightarrow> ent_create (lib_zero l) = None)
     \<and> (ent_delete e = None \<longleftrightarrow> ent_delete (lib_zero l) = None) \<and> (ent_tenant e = None \<longleftrightarrow> ent_tenant (lib_zero l) = None)"

definition named :: "repo_ctx \<Rightarrow> bool" where
  "named ctx \<longleftrightarrow> CtxGetOperator ctx \<noteq> Some [] \<and> CtxGetTenantID ctx \<noteq> Some [] \<and> CtxGetAppID ctx \<noteq> Some []"

lemma creator_name: "fst (GetCreatorInfo (SetCreator now u cr)) = u"
  by (cases cr) (simp_all add: audit_defs)

context repository
begin

lemma audited_visible:
  assumes "audit_ready ctx e" and "of_type l e" and "named ctx"
    and "\<And>dl. ent_delete e = Some dl \<Longrightarrow> stamp_of (GetDeleteTimeRaw dl) = None"
  shows "visible l ctx (enc (audited ctx clk e))"
proof -
  let ?a = "audited ctx clk e"
  have un: "undeleted l ctx (enc ?a)"
    using assms(2,4) enc_deleted_at[of ?a] by (auto simp: undeleted_def of_type_def audited_def)
  have cr: "enc ?a ''created_by'' = Some (BStr u)" if "ent_create e \<noteq> None" "CtxGetOperator ctx = Some u" for u
    using that assms(3) enc_created_by[of ?a] by (auto simp: audited_def creator_name text_of_def named_def)
  have te: "enc ?a ''tenant_id'' = Some (BStr t)" if "ent_tenant e \<noteq> None" "CtxGetTenantID ctx = Some t" for t
    using that assms(3) enc_tenant_id[of ?a] by (auto simp: audited_def text_of_def named_def)
  have ap: "enc ?a ''app_id'' = Some (BStr t)" if "ent_tenant e \<noteq> None" "CtxGetAppID ctx = Some t" for t
    using that assms(3) enc_app_id[of ?a] by (auto simp: audited_def text_of_def named_def)
  have "isolated l ctx (enc ?a)"
    using assms(1,2) cr te ap by (auto simp: isolated_def of_type_def audit_ready_def Let_def)
  with un show ?thesis by (simp add: visible_def)
qed

lemma Create_get:
  assumes "repo_Create l ctx clk e c = (Inr x, e', c')" and "proper_id (ent_ID e)" and "of_type l e" and "named ctx"
    and "\<And>dl. ent_delete e = Some dl \<Longrightarrow> stamp_of (GetDeleteTimeRaw dl) = None"
  shows "x = audited ctx clk e \<and> docs c (bv (ent_ID e)) = None \<and> docs c' = (docs c)(bv (ent_ID e) \<mapsto> enc x)
    \<and> visible l ctx (enc x)
    \<and> (case fst (repo_Get l ctx (ent_ID e) c') of Inr y \<Rightarrow> y = dec (enc x)
        | Inl err \<Rightarrow> \<exists>e0. err = WrapError ''mongo find failed: '' e0 [])"
proof -
  from Create_result[OF assms(1)] CtxCreateAudit_outcome[of ctx e clk]
  have x: "x = audited ctx clk e" "audit_ready ctx e" and d: "docs c (bv (ent_ID e)) = None"
    "docs c' = (docs c)(bv (ent_ID e) \<mapsto> enc x)" by (auto split: if_splits)
  from audited_visible[OF x(2) assms(3,4,5)] x(1) have v: "visible l ctx (enc x)" by simp
  from visible_subject[OF v] have s: "has_subject l ctx" .
  obtain r c2 where g: "repo_Get l ctx (ent_ID e) c' = (r, c2)" by fastforce
  from Get_result[OF g assms(2) s] d v
  have "case r of Inr y \<Rightarrow> y = dec (enc x) | Inl err \<Rightarrow> \<exists>e0. err = WrapError ''mongo find failed: '' e0 []"
    by (cases r) auto
  with x d v g show ?thesis by simp
qed

end

section \<open>Properties\<close>

text \<open>
  C7. An update is a compare-and-set. It succeeds only when the stored document is visible and still carries
  the version the caller read, and then stores exactly the caller's document with a fresh update stamp. A stale
  or missing document is left alone and reported, as a conflict when the caller may see it and as not found
  otherwise, unless the driver itself failed. Without operator or isolation subject nothing is sent.
\<close>

theorem update_compare_and_set:
  assumes "repository bv enc dec matches blt upd l docs" and "proper_id (ent_ID e)"
  shows "case repo_Update l ctx clk e c of
      (Inr x, e', c') \<Rightarrow> x = e' \<and> e' = stamped ctx (clk 0) e \<and>
        (\<exists>d. docs c (bv (ent_ID e)) = Some d \<and> current bv l ctx e d \<and> docs c' = (docs c)(bv (ent_ID e) \<mapsto> enc e'))
    | (Inl err, e', c') \<Rightarrow>
        (\<not> may_update l ctx e \<longrightarrow> c' = c \<and> CodeOf (Some err) = ErrCodeValidate)
        \<and> (may_update l ctx e \<and> \<not> (\<exists>d. docs c (bv (ent_ID e)) = Some d \<and> current bv l ctx e d) \<longrightarrow>
            docs c' = docs c \<and> (update_driver_error l e' err \<or>
              CodeOf (Some err) = (case docs c (bv (ent_ID e)) of
                 Some d \<Rightarrow> if visible l ctx d then ErrCodeConflict else ErrCodeNotFound | None \<Rightarrow> ErrCodeNotFound)))"
proof -
  obtain r e' c' where u: "repo_Update l ctx clk e c = (r, e', c')" by (cases "repo_Update l ctx clk e c")
  show ?thesis
  proof (cases r)
    case (Inl err)
    then show ?thesis
      using u repository.Update_refused[OF assms(1) u] repository.Update_stale[OF assms(1) u assms(2)] by auto
  next
    case (Inr x)
    then show ?thesis using u repository.Update_success[OF assms(1) u[unfolded Inr] assms(2)] by auto
  qed
qed

text \<open>
  No lost update. Two requests read the same version of a document. When the first has updated it, with a
  time stamp that differs from that version, the second request's update changes nothing and fails, with
  the conflict code if it may see the document and the driver answered.
\<close>

theorem no_lost_update:
  assumes "repository bv enc dec matches blt upd l docs" and "proper_id (ent_ID e1)" and "ent_ID e2 = ent_ID e1"
    and "version e1 = Some raw" and "version e2 = Some raw"
    and "repo_Update l ctx1 clk1 e1 c = (Inr x1, e1', c1)"
    and "enc e1' ''updated_at'' \<noteq> Some (bv (raw_val raw))"
    and "repo_Update l ctx2 clk2 e2 c1 = (r, e2', c2)" and "may_update l ctx2 e2"
  shows "docs c2 = docs c1 \<and> docs c1 (bv (ent_ID e1)) = Some (enc e1')
    \<and> (\<exists>err. r = Inl err \<and> (visible l ctx2 (enc e1') \<longrightarrow> update_driver_error l e2' err \<or> CodeOf (Some err) = ErrCodeConflict))"
proof -
  from repository.Update_success[OF assms(1,6,2)] have s: "docs c1 (bv (ent_ID e1)) = Some (enc e1')" by auto
  then have "\<not> current bv l ctx2 e2 d" if "docs c1 (bv (ent_ID e2)) = Some d" for d
    using that assms(3,5,7) by (auto simp: current_def)
  with repository.Update_stale[OF assms(1,8) _ assms(9)] assms(2,3) s show ?thesis by auto
qed

text \<open>
  C18. Soft deletion. After a successful \<open>Delete\<close> of an entity with a delete audit the document is still
  stored, with its deletion stamp; no history of requests with soft deletion in force changes it, as long
  as the calls are checked (\<open>checked_op\<close>: no zero identifiers, no \<open>Upsert\<close> of an entity without creation
  time, which replaces by identifier alone, and no \<open>PatchRaw\<close> that skips the injected conditions), and
  none of them can read it by its identifier any more.
\<close>

theorem soft_delete_lasts:
  assumes "repository bv enc dec matches blt upd l docs" and "proper_id (ent_ID e)" and "ent_delete e = Some dl"
    and "ent_delete (lib_zero l) \<noteq> None" and "SoftDelete (GetMergedRepoOpt l ctx) \<noteq> SoftDeleteDisable"
    and "Millisecond \<le> clk 0" and "clk 0 < 2 ^ 63"
    and "repo_Delete l ctx clk e c = (None, e', c')"
    and "\<forall>(ctx2, clk2, x) \<in> set h. checked_op x \<and> SoftDelete (GetMergedRepoOpt l ctx2) \<noteq> SoftDeleteDisable"
    and "SoftDelete (GetMergedRepoOpt l ctx3) \<noteq> SoftDeleteDisable" and "has_subject l ctx3"
  shows "docs (run_history l h c') (bv (ent_ID e)) = Some (enc e') \<and> enc e' ''deleted_at'' \<noteq> None
    \<and> (\<exists>err. fst (repo_Get l ctx3 (ent_ID e) (run_history l h c')) = Inl err
         \<and> (CodeOf (Some err) = ErrCodeNotFound \<or> (\<exists>e0. err = WrapError ''mongo find failed: '' e0 [])))"
  by (rule repository.Delete_lasts[OF assms])

text \<open>
  C19. Creation. A created entity carries the operator, tenant and application of the request, was stored
  under a free identifier, is visible to the request that created it, and reading it back by its
  identifier gives what the driver decodes from its own encoding, unless the driver fails.
\<close>

theorem create_then_get:
  assumes "repository bv enc dec matches blt upd l docs" and "repo_Create l ctx clk e c = (Inr x, e', c')"
    and "proper_id (ent_ID e)" and "of_type l e" and "named ctx"
    and "\<forall>dl. ent_delete e = Some dl \<longrightarrow> stamp_of (GetDeleteTimeRaw dl) = None"
  shows "x = audited ctx clk e \<and> docs c (bv (ent_ID e)) = None \<and> docs c' = (docs c)(bv (ent_ID e) \<mapsto> enc x)
    \<and> visible l ctx (enc x)
    \<and> (case fst (repo_Get l ctx (ent_ID e) c') of Inr y \<Rightarrow> y = dec (enc x)
        | Inl err \<Rightarrow> \<exists>e0. err = WrapError ''mongo find failed: '' e0 [])"
  by (rule repository.Create_get[OF assms(1-5)]) (use assms(6) in simp)

section \<open>Examples\<close>

lemma demo_repository:
  "repository mem_bv mem_enc (mem_dec (demo_doc [] [] zero_time)) mem_match mem_blt mem_upd demo_repo repo_docs"
  unfolding demo_repo_def by (rule memr.repository_axioms)

lemma demo_conds:
  "injectCond demo_repo (demo_rctx t) (Some f) =
     Inr (AList.update ''deleted_at'' (CExists False) (AList.update ''tenant_id'' (CEq (GString t)) f))"
  by (simp add: injectCond_def injectIsolationCond_def injectSoftDeleteCond_def zero_RepoOpt_def)

lemma demo_doc_simps [simp]:
  "ent_ID (demo_doc i t u) = GString i"
  "ent_update (demo_doc i t u) = Some (AUpdate \<lparr>UpdatedAt = u, UpdatedBy = ''ann''\<rparr>)"
  "ent_delete (demo_doc i t u) = Some (ADelete \<lparr>DeletedAt = zero_time, DeletedBy = []\<rparr>)"
  "ent_create (demo_doc i t u) = Some (ACreate \<lparr>CreatedAt = 5000000, CreatedBy = ''ann''\<rparr>)"
  "ent_tenant (demo_doc i t u) = Some \<lparr>TenantID = t, AppID = ''shop''\<rparr>"
  by (simp_all add: demo_doc_def)

lemma demo_stamped [simp]: "stamped (demo_rctx s) now (demo_doc i t u) = demo_doc i t now"
  by (simp add: stamped_def demo_doc_def audit_defs)

lemma demo_version: "version (demo_doc i t u) = (if IsZero u then None else Some (RawTime u))"
  by (simp add: version_def audit_defs)

lemma demo_base:
  "u \<noteq> zero_time \<Longrightarrow> baseUpdateOp demo_repo (demo_rctx s) clk (demo_doc i t u) =
     (Inr [(''_id'', CEq (GString i)), (''updated_at'', CEq (GTime u)), (''tenant_id'', CEq (GString s)), (''deleted_at'', CExists False)],
      demo_doc i t (clk 0))"
proof -
  assume "u \<noteq> zero_time"
  obtain r e' where b: "baseUpdateOp demo_repo (demo_rctx s) clk (demo_doc i t u) = (r, e')" by fastforce
  from baseUpdateOp_outcome[OF b] \<open>u \<noteq> zero_time\<close> show ?thesis
    by (simp add: b demo_conds lock_filter_def demo_version IsZero_def raw_val_def)
qed

lemma demo_found_update:
  "found demo_docs [(''_id'', CEq (GString ''1'')), (''updated_at'', CEq (GTime 5000000)), (''tenant_id'', CEq (GString ''red'')), (''deleted_at'', CExists False)]
   = [mem_enc (demo_doc ''1'' ''red'' 5000000)]"
  by (simp add: found_def) (simp add: demo_docs_def mem_match_def IsZero_def zero_time_def)

definition demo_updated :: "bdoc list" where
  "demo_updated = put_doc (BStr ''1'') (mem_enc (demo_doc ''1'' ''red'' 7000000)) demo_docs"

lemma demo_update:
  "repo_Update demo_repo (demo_rctx ''red'') demo_clock (demo_doc ''1'' ''red'' 5000000) demo_docs =
     (Inr (demo_doc ''1'' ''red'' 7000000), demo_doc ''1'' ''red'' 7000000, demo_updated)"
proof -
  have "mem_ReplaceOne demo_docs [(''_id'', CEq (GString ''1'')), (''updated_at'', CEq (GTime 5000000)), (''tenant_id'', CEq (GString ''red'')), (''deleted_at'', CExists False)]
      (demo_doc ''1'' ''red'' 7000000) False = (Inr (1, 1, 0), demo_updated)"
    by (simp add: mem_ReplaceOne_def demo_found_update demo_updated_def)
  moreover have "(5000000::int) \<noteq> zero_time" "demo_clock 0 = 7000000" by (simp_all add: zero_time_def demo_clock_def)
  ultimately show ?thesis
    by (simp add: repo_Update_def commonReplace_def auditAndBuildReplaceFilter_def demo_base mem_collection_def)
qed

lemma demo_updated_live [simp]: "live demo_updated = demo_updated"
proof (rule live_clean)
  show "clean demo_updated"
    by (simp add: demo_updated_def clean_def put_doc_ids) (simp add: put_doc_def demo_docs_def)
qed

lemma demo_updated_docs: "repo_docs demo_updated (BStr ''1'') = Some (mem_enc (demo_doc ''1'' ''red'' 7000000))"
  by (simp add: repo_docs_def) (simp add: demo_updated_def put_doc_def demo_docs_def)

theorem update_compare_and_set_witness:
  "repo_docs demo_updated = (repo_docs demo_docs)(BStr ''1'' \<mapsto> mem_enc (demo_doc ''1'' ''red'' 7000000))
   \<and> current mem_bv demo_repo (demo_rctx ''red'') (demo_doc ''1'' ''red'' 5000000) (mem_enc (demo_doc ''1'' ''red'' 5000000))"
  using update_compare_and_set[OF demo_repository, where e = "demo_doc ''1'' ''red'' 5000000" and ctx = "demo_rctx ''red''"
      and clk = demo_clock and c = demo_docs]
  by (simp add: demo_update)

theorem no_lost_update_witness:
  "\<exists>err e c. repo_Update demo_repo (demo_rctx ''red'') demo_clock (demo_doc ''1'' ''red'' 5000000) demo_updated = (Inl err, e, c)
    \<and> repo_docs c (BStr ''1'') = Some (mem_enc (demo_doc ''1'' ''red'' 7000000))"
proof -
  obtain r e c where u: "repo_Update demo_repo (demo_rctx ''red'') demo_clock (demo_doc ''1'' ''red'' 5000000) demo_updated = (r, e, c)"
    by (cases "repo_Update demo_repo (demo_rctx ''red'') demo_clock (demo_doc ''1'' ''red'' 5000000) demo_updated")
  have v: "version (demo_doc ''1'' ''red'' 5000000) = Some (RawTime 5000000)" by (simp add: demo_version IsZero_def zero_time_def)
  have m: "may_update demo_repo (demo_rctx ''red'') (demo_doc ''1'' ''red'' 5000000)"
    by (simp add: may_update_def has_subject_def)
  from no_lost_update[OF demo_repository _ _ v v demo_update _ u m] u show ?thesis
    by (auto simp: raw_val_def IsZero_def zero_time_def)
qed

theorem create_then_get_witness:
  "\<exists>x e c. repo_Create demo_repo (demo_rctx ''red'') demo_clock (demo_doc ''3'' [] zero_time) demo_docs = (Inr x, e, c)
    \<and> visible demo_repo (demo_rctx ''red'') (mem_enc x) \<and> repo_docs c (BStr ''3'') = Some (mem_enc x)"
proof -
  let ?e = "demo_doc ''3'' [] zero_time"
  have a: "audited (demo_rctx ''red'') demo_clock ?e =
      (demo_doc ''3'' ''red'' 8000000)\<lparr>ent_create := Some (ACreate \<lparr>CreatedAt = 7000000, CreatedBy = ''ann''\<rparr>)\<rparr>"
    by (simp add: audited_def demo_doc_def audit_defs demo_clock_def)
  have g: "good (mem_enc (audited (demo_rctx ''red'') demo_clock ?e))"
    unfolding a by (simp add: good_def audit_keys_def mem_enc_def stamp_of_def text_of_def audit_defs IsZero_def zero_time_def)
  have n: "repo_docs demo_docs (BStr ''3'') = None"
    by (simp add: repo_docs_def) (simp add: demo_docs_def)
  have au: "CtxCreateAudit (demo_rctx ''red'') demo_clock ?e = (None, audited (demo_rctx ''red'') demo_clock ?e)"
    using CtxCreateAudit_outcome[of "demo_rctx ''red''" ?e demo_clock] by (simp add: audit_ready_def)
  have id: "ent_ID (audited (demo_rctx ''red'') demo_clock ?e) = GString ''3''" by (simp add: a)
  obtain x e c where r: "repo_Create demo_repo (demo_rctx ''red'') demo_clock ?e demo_docs = (Inr x, e, c)"
    by (simp add: repo_Create_def checkIfIDExisted_def entity_GetID_def au mem_collection_def mem_InsertOne_def g n id)
  have h: "proper_id (ent_ID ?e)" "of_type demo_repo ?e" "named (demo_rctx ''red'')"
    "\<forall>dl. ent_delete ?e = Some dl \<longrightarrow> stamp_of (GetDeleteTimeRaw dl) = None"
    by (simp_all add: of_type_def named_def stamp_of_def audit_defs IsZero_def)
  have k: "mem_bv (ent_ID ?e) = BStr ''3''" by simp
  from create_then_get[OF demo_repository r h, unfolded k]
  have "visible demo_repo (demo_rctx ''red'') (mem_enc x)" "repo_docs c (BStr ''3'') = Some (mem_enc x)"
    by (blast, metis fun_upd_same)
  with r show ?thesis by blast
qed

definition demo_gone :: doc where
  "demo_gone = (demo_doc ''1'' ''red'' 8000000)\<lparr>ent_delete := Some (ADelete \<lparr>DeletedAt = 7000000, DeletedBy = ''ann''\<rparr>)\<rparr>"

lemma demo_delete:
  "repo_Delete demo_repo (demo_rctx ''red'') demo_clock (demo_doc ''1'' ''red'' 5000000) demo_docs =
     (None, demo_gone, put_doc (BStr ''1'') (mem_enc demo_gone) demo_docs)"
proof -
  define e1 where "e1 = (demo_doc ''1'' ''red'' 5000000)\<lparr>ent_delete := Some (ADelete \<lparr>DeletedAt = 7000000, DeletedBy = ''ann''\<rparr>)\<rparr>"
  have a: "CtxDeleteAudit (demo_rctx ''red'') (demo_clock 0) (demo_doc ''1'' ''red'' 5000000) = (Inr True, e1)"
    by (simp add: CtxDeleteAudit_def e1_def audit_defs demo_clock_def)
  have e1: "ent_ID e1 = GString ''1''" "ent_update e1 \<noteq> None" "version e1 = Some (RawTime 5000000)"
    by (simp_all add: e1_def version_def audit_defs IsZero_def zero_time_def)
  have st: "stamped (demo_rctx ''red'') (later demo_clock 0) e1 = demo_gone"
    by (simp add: stamped_def e1_def demo_gone_def demo_doc_def audit_defs later_def demo_clock_def)
  obtain r e' where b: "baseUpdateOp demo_repo (demo_rctx ''red'') (later demo_clock) e1 = (r, e')" by fastforce
  from baseUpdateOp_outcome[OF b] e1 st have bb: "r = Inr [(''_id'', CEq (GString ''1'')), (''updated_at'', CEq (GTime 5000000)),
      (''tenant_id'', CEq (GString ''red'')), (''deleted_at'', CExists False)]" "e' = demo_gone"
    by (simp_all add: demo_conds lock_filter_def raw_val_def)
  have g: "good (mem_enc demo_gone)" "ent_ID demo_gone = GString ''1''"
    unfolding demo_gone_def good_def audit_keys_def
    by (simp_all add: mem_enc_def stamp_of_def text_of_def audit_defs IsZero_def zero_time_def)
  have "mem_ReplaceOne demo_docs [(''_id'', CEq (GString ''1'')), (''updated_at'', CEq (GTime 5000000)), (''tenant_id'', CEq (GString ''red'')), (''deleted_at'', CExists False)]
      demo_gone False = (Inr (1, 1, 0), put_doc (BStr ''1'') (mem_enc demo_gone) demo_docs)"
    by (simp add: mem_ReplaceOne_def demo_found_update g)
  then show ?thesis
    by (simp add: repo_Delete_def a repo_Update_def commonReplace_def auditAndBuildReplaceFilter_def b bb mem_collection_def zero_RepoOpt_def)
qed

theorem soft_delete_lasts_witness:
  "repo_docs (run_history demo_repo demo_history (put_doc (BStr ''1'') (mem_enc demo_gone) demo_docs)) (BStr ''1'') = Some (mem_enc demo_gone)"
proof -
  have k: "mem_bv (ent_ID (demo_doc ''1'' ''red'' 5000000)) = BStr ''1''" by simp
  have h: "\<forall>(ctx2, clk2, x) \<in> set demo_history. checked_op x \<and> SoftDelete (GetMergedRepoOpt demo_repo ctx2) \<noteq> SoftDeleteDisable"
    by (simp add: demo_history_def zero_RepoOpt_def)
  have c: "Millisecond \<le> demo_clock 0" "demo_clock 0 < 2 ^ 63" by (simp_all add: demo_clock_def)
  have s: "has_subject demo_repo (demo_rctx ''red'')" by (simp add: has_subject_def)
  have o1: "SoftDelete (GetMergedRepoOpt demo_repo (demo_rctx ''red'')) \<noteq> SoftDeleteDisable" by (simp add: zero_RepoOpt_def)
  from soft_delete_lasts[OF demo_repository _ _ _ o1 c demo_delete h o1 s, unfolded k] show ?thesis by simp
qed

section \<open>Resolution and type of the version\<close>

text \<open>
  BSON dates have milliseconds. When the first of two updates of one version falls into the millisecond
  of that version, the stored version does not change and the second update succeeds as well.
\<close>

definition quick_clock :: clock where
  "quick_clock i = 5000500"

lemma same_millisecond_update_lost:
  "\<exists>e1 e1' c1 e2 e2' c2.
     repo_Update demo_repo (demo_rctx ''red'') quick_clock (demo_doc ''1'' ''red'' 5000000) demo_docs = (Inr e1, e1', c1)
   \<and> repo_Update demo_repo (demo_rctx ''red'') demo_clock (demo_doc ''1'' ''red'' 5000000) c1 = (Inr e2, e2', c2)"
proof -
  let ?f = "[(''_id'', CEq (GString ''1'')), (''updated_at'', CEq (GTime 5000000)), (''tenant_id'', CEq (GString ''red'')), (''deleted_at'', CExists False)]"
  let ?d = "mem_enc (demo_doc ''1'' ''red'' 5000500)"
  define c1 where "c1 = put_doc (BStr ''1'') ?d demo_docs"
  have z: "(5000000::int) \<noteq> zero_time" by (simp add: zero_time_def)
  have "mem_ReplaceOne demo_docs ?f (demo_doc ''1'' ''red'' 5000500) False = (Inr (1, 1, 0), c1)"
    by (simp add: mem_ReplaceOne_def demo_found_update c1_def)
  then have u1: "repo_Update demo_repo (demo_rctx ''red'') quick_clock (demo_doc ''1'' ''red'' 5000000) demo_docs =
      (Inr (demo_doc ''1'' ''red'' 5000500), demo_doc ''1'' ''red'' 5000500, c1)"
    by (simp add: repo_Update_def commonReplace_def auditAndBuildReplaceFilter_def demo_base[OF z] mem_collection_def quick_clock_def)
  have l: "live c1 = c1"
    by (rule live_clean) (simp add: c1_def clean_def put_doc_ids, simp add: put_doc_def demo_docs_def)
  have "found c1 ?f = [?d]"
    by (simp add: found_def l) (simp add: c1_def put_doc_def demo_docs_def mem_match_def IsZero_def zero_time_def)
  then have "mem_ReplaceOne c1 ?f (demo_doc ''1'' ''red'' 7000000) False =
      (Inr (1, 1, 0), put_doc (BStr ''1'') (mem_enc (demo_doc ''1'' ''red'' 7000000)) c1)"
    by (simp add: mem_ReplaceOne_def l)
  then have "repo_Update demo_repo (demo_rctx ''red'') demo_clock (demo_doc ''1'' ''red'' 5000000) c1 =
      (Inr (demo_doc ''1'' ''red'' 7000000), demo_doc ''1'' ''red'' 7000000, put_doc (BStr ''1'') (mem_enc (demo_doc ''1'' ''red'' 7000000)) c1)"
    by (simp add: repo_Update_def commonReplace_def auditAndBuildReplaceFilter_def demo_base[OF z] mem_collection_def demo_clock_def)
  with u1 show ?thesis by blast
qed

context repository
begin

text \<open>
  A patch stamps \<open>updated_at\<close> with a date whatever the type of the audit. An entity with a
  millisecond audit never matches such a document again under the optimistic lock.
\<close>

lemma patched_ms_never_current:
  assumes "d ''updated_at'' = Some (bv (GTime now))" and "version e = Some (RawMs i)"
  shows "\<not> current bv l ctx e d"
  using assms by (simp add: current_def raw_val_def bv_time bv_int)

end

lemma patch_audit_date:
  "ent_update (lib_zero l) \<noteq> None \<Longrightarrow> CtxGetOperator ctx = Some u \<Longrightarrow> patch_audit l ctx now input = (r, input') \<Longrightarrow>
   map_of (opt_list (pr_PatchPayload input')) ''updated_at'' = Some (GTime now)
   \<and> map_of (opt_list (pr_PatchPayload input')) ''updated_by'' = Some (GString u)
   \<and> pr_Filter input' = pr_Filter input \<and> pr_UnsetPayload input' = pr_UnsetPayload input \<and> pr_IsMany input' = pr_IsMany input"
  by (auto simp: patch_audit_def opt_list_def update_conv)

end
