(* ===== verification/Mongox_Patch.thy ===== *)
theory Mongox_Patch
  imports Mongox_Lock
begin

text \<open>
  Patches: what \<open>BuildPatchPayload\<close> collects from an entity, and what a successful \<open>Patch\<close> does to
  the stored document, key by key.
\<close>

section \<open>Payloads\<close>

fun leaf_value :: "go_val \<Rightarrow> bool" where
  "leaf_value (GStruct fs) = False"
| "leaf_value (GTime t) = False"
| "leaf_value v = True"

lemma set_update_cases: "x \<in> set (AList.update k v xs) \<Longrightarrow> x = (k, v) \<or> x \<in> set xs"
  by (induction xs) (auto split: if_splits)

lemma copy_payload_cases: "x \<in> set (copy_payload kvs out) \<Longrightarrow> x \<in> set kvs \<or> x \<in> set out"
  by (induction kvs out rule: copy_payload.induct) (auto dest: set_update_cases)

lemma copy_payload_distinct: "distinct (map fst out) \<Longrightarrow> distinct (map fst (copy_payload kvs out))"
  by (induction kvs out rule: copy_payload.induct) (auto simp: distinct_update)

lemma copy_payload_keys: "fst ` set (copy_payload kvs out) = fst ` set kvs \<union> fst ` set out"
  by (induction kvs out rule: copy_payload.induct) (auto simp: dom_update)

text \<open>One step of \<open>patch_struct\<close>: the payload after a field.\<close>

definition after_field :: "struct_field \<Rightarrow> go_val \<Rightarrow> string \<Rightarrow> payload \<Rightarrow> payload" where
  "after_field f v parent out =
     (if \<not> sf_Exported f then out
      else if go_IsZero v then out
      else
        let name = tag_name f in
        if name = ''-'' then out
        else
          let name = (if parent \<noteq> ''inline'' then genDbKey parent name else name) in
          (case v of
             GStruct gs \<Rightarrow> copy_payload (patch_struct gs name []) out
           | GTime t \<Rightarrow> copy_payload [] out
           | _ \<Rightarrow> AList.update name v out))"

lemma patch_struct_Cons: "patch_struct ((f, v) # fs) parent out = patch_struct fs parent (after_field f v parent out)"
  unfolding after_field_def by (rule patch_struct.simps(2))

text \<open>An induction over structures and their fields, one field at a time.\<close>

lemma fields_induct [case_names Nil Cons]:
  assumes "P []" and "\<And>f v fs. (\<And>gs. v = GStruct gs \<Longrightarrow> P gs) \<Longrightarrow> P fs \<Longrightarrow> P ((f, v) # fs)"
  shows "P fs"
proof (induction "size_list (size_prod (\<lambda>x. 0) size) fs" arbitrary: fs rule: less_induct)
  case less
  show ?case
  proof (cases fs)
    case (Cons a rest)
    obtain f v where a: "a = (f, v)" by fastforce
    have "P gs" if "v = GStruct gs" for gs
      by (rule less) (simp add: Cons a that)
    moreover have "P rest" by (rule less) (simp add: Cons a)
    ultimately show ?thesis using assms(2) Cons a by simp
  qed (use assms(1) in simp)
qed

lemma patch_struct_entries:
  "(k, v) \<in> set (patch_struct fs parent out) \<Longrightarrow> (k, v) \<in> set out \<or> \<not> go_IsZero v \<and> leaf_value v"
proof (induction fs arbitrary: parent out rule: fields_induct)
  case (Cons f w fs)
  have "(k, v) \<in> set out \<or> \<not> go_IsZero v \<and> leaf_value v" if "(k, v) \<in> set (after_field f w parent out)"
  proof (cases w)
    case (GStruct gs)
    have "\<not> go_IsZero v \<and> leaf_value v" if "(k, v) \<in> set (patch_struct gs p [])" for p
      using Cons.IH(1)[OF GStruct, of p "[]"] that by simp
    with that GStruct show ?thesis
      by (force simp: after_field_def Let_def split: if_splits dest!: copy_payload_cases)
  qed (use that in \<open>auto simp: after_field_def Let_def split: if_splits dest!: set_update_cases\<close>)
  with Cons.IH(2) Cons.prems show ?case by (auto simp: patch_struct_Cons simp del: patch_struct.simps(2))
qed simp

lemma after_field_distinct: "distinct (map fst out) \<Longrightarrow> distinct (map fst (after_field f v parent out))"
  by (cases v) (simp_all add: after_field_def Let_def distinct_update copy_payload_distinct)

lemma patch_struct_distinct: "distinct (map fst out) \<Longrightarrow> distinct (map fst (patch_struct fs parent out))"
proof (induction fs arbitrary: out)
  case (Cons a fs)
  then show ?case by (cases a) (simp add: patch_struct_Cons after_field_distinct del: patch_struct.simps(2))
qed simp

lemma after_field_keeps: "fst ` set out \<subseteq> fst ` set (after_field f v parent out)"
  by (cases v) (auto simp: after_field_def Let_def dom_update copy_payload_keys)

lemma patch_struct_keeps: "fst ` set out \<subseteq> fst ` set (patch_struct fs parent out)"
proof (induction fs arbitrary: out)
  case (Cons a fs)
  obtain f v where "a = (f, v)" by fastforce
  with Cons[of "after_field f v parent out"] after_field_keeps[of out f v parent] show ?case
    by (simp add: patch_struct_Cons del: patch_struct.simps(2))
qed simp

lemma patch_struct_covers:
  "(f, v) \<in> set fs \<Longrightarrow> sf_Exported f \<Longrightarrow> \<not> go_IsZero v \<Longrightarrow> leaf_value v \<Longrightarrow> tag_name f \<noteq> ''-'' \<Longrightarrow>
   tag_name f \<in> fst ` set (patch_struct fs [] out)"
proof (induction fs arbitrary: out)
  case (Cons a fs)
  obtain g w where a: "a = (g, w)" by fastforce
  have eq: "patch_struct (a # fs) [] out = patch_struct fs [] (after_field g w [] out)"
    by (simp only: a patch_struct_Cons)
  show ?case
  proof (cases "(f, v) = (g, w)")
    case True
    with Cons.prems have "after_field g w [] out = AList.update (tag_name f) v out"
      by (cases w) (simp_all add: after_field_def genDbKey_def Let_def)
    with patch_struct_keeps[of "after_field g w [] out" fs "[]"] show ?thesis
      unfolding eq by (auto simp: dom_update)
  next
    case False
    with Cons a show ?thesis unfolding eq by auto
  qed
qed simp

section \<open>The payload as a map\<close>

text \<open>
  The exported non-zero fields of a structure in order, nested structures flattened, under the keys the
  payload derives from their tags. A \<open>time.Time\<close> is one field here.
\<close>

fun leaf_entries :: "(struct_field \<times> go_val) list \<Rightarrow> string \<Rightarrow> payload" where
  "leaf_entries [] parent = []"
| "leaf_entries ((f, v) # fs) parent =
     (if sf_Exported f \<and> \<not> go_IsZero v \<and> tag_name f \<noteq> ''-'' then
        (let key = (if parent = ''inline'' then tag_name f else genDbKey parent (tag_name f)) in
         case v of GStruct gs \<Rightarrow> leaf_entries gs key | _ \<Rightarrow> [(key, v)])
      else []) @ leaf_entries fs parent"

fun is_time :: "go_val \<Rightarrow> bool" where
  "is_time (GTime t) \<longleftrightarrow> True"
| "is_time _ \<longleftrightarrow> False"

text \<open>The entries without the times, which a patch does not write (\<open>patch_drops_times\<close> below).\<close>

abbreviation timeless :: "payload \<Rightarrow> payload" where
  "timeless \<equiv> filter (\<lambda>(k, v). \<not> is_time v)"

lemma map_of_copy: "map_of (copy_payload kvs out) = map_of out ++ map_of (rev kvs)"
  by (induction kvs out rule: copy_payload.induct) (auto simp: update_conv' map_add_def fun_eq_iff split: option.splits)

lemma map_of_rev_distinct: "distinct (map fst xs) \<Longrightarrow> map_of (rev xs) = map_of xs"
  by (rule map_of_eqI) (auto simp: rev_map[symmetric])

lemma patch_struct_map:
  "map_of (patch_struct fs parent out) = map_of out ++ map_of (rev (timeless (leaf_entries fs parent)))"
proof (induction fs arbitrary: parent out rule: fields_induct)
  case (Cons f v fs)
  have "map_of (after_field f v parent out) = map_of out ++ map_of (rev (timeless
      (if sf_Exported f \<and> \<not> go_IsZero v \<and> tag_name f \<noteq> ''-'' then
        (let key = (if parent = ''inline'' then tag_name f else genDbKey parent (tag_name f)) in
         case v of GStruct gs \<Rightarrow> leaf_entries gs key | _ \<Rightarrow> [(key, v)])
      else [])))"
  proof (cases v)
    case (GStruct gs)
    have "map_of (rev (patch_struct gs key [])) = map_of (rev (timeless (leaf_entries gs key)))" for key
      using Cons.IH(1)[OF GStruct, of key "[]"] map_of_rev_distinct[OF patch_struct_distinct[of "[]" gs key]] by simp
    then show ?thesis by (simp add: after_field_def GStruct Let_def map_of_copy)
  qed (simp_all add: after_field_def Let_def update_conv')
  then show ?case using Cons.IH(2)[of parent "after_field f v parent out"]
    by (simp only: patch_struct_Cons leaf_entries.simps filter_append rev_append map_of_append map_add_assoc)
qed simp

section \<open>What a patch sends\<close>

definition patch_fields :: "doc \<Rightarrow> payload" where
  "patch_fields e = opt_list (BuildPatchPayload (entity_struct e))"

definition patch_sets :: "'c CollectionLib \<Rightarrow> repo_ctx \<Rightarrow> time \<Rightarrow> doc \<Rightarrow> payload" where
  "patch_sets l ctx now e =
     (if ent_update (lib_zero l) \<noteq> None
      then AList.update ''updated_by'' (GString (the (CtxGetOperator ctx)))
             (AList.update ''updated_at'' (GTime now) (patch_fields e))
      else patch_fields e)"

lemma patch_fields_Some: "BuildPatchPayload (entity_struct e) = Some (patch_fields e)"
  by (simp add: patch_fields_def BuildPatchPayload_def BuildPatchPayloadWithParent_def entity_struct_def opt_list_def)

lemma patch_fields_distinct: "distinct (map fst (patch_fields e))"
  by (simp add: patch_fields_def BuildPatchPayload_def BuildPatchPayloadWithParent_def entity_struct_def opt_list_def
      patch_struct_distinct)

lemma tag_names [simp]:
  "tag_name (fld n ''_id,omitempty'') = ''_id''" "tag_name (fld n ''inline'') = ''inline''"
  using Split_Join[of "[''_id'', ''omitempty'']" "CHR '',''"] Split_Join[of "[''inline'']" "CHR '',''"]
  by (simp_all add: tag_name_def raw_bson_name_def fld_def Join_def del: Split.simps)

lemma patch_fields_id:
  assumes "proper_id (ent_ID e)"
  shows "patch_fields e \<noteq> []"
proof -
  have z: "\<not> go_IsZero (ent_ID e)" using proper_id_nonzero[OF assms] .
  have l: "leaf_value (ent_ID e)" using assms by (cases "ent_ID e") auto
  have x: "sf_Exported (fld n t)" for n t by (simp add: fld_def)
  have "patch_struct (base_struct e @ rest) [] [] \<noteq> []" for rest
  proof (cases "\<exists>c. ent_create e = Some (ACreate c)")
    case True
    then obtain c where c: "ent_create e = Some (ACreate c)" ..
    define gs where "gs = [(fld ''ID'' ''_id,omitempty'', ent_ID e), (fld ''CreateAudit'' ''inline'', create_struct (ACreate c))]"
    have "after_field (fld ''ID'' ''_id,omitempty'') (ent_ID e) ''inline'' [] = [(''_id'', ent_ID e)]"
      using z l by (cases "ent_ID e") (simp_all add: after_field_def Let_def x)
    then have "''_id'' \<in> fst ` set (patch_struct gs ''inline'' [])"
      using patch_struct_keeps[of "[(''_id'', ent_ID e)]" "tl gs" "''inline''"]
      by (auto simp: gs_def patch_struct_Cons simp del: patch_struct.simps(2))
    moreover have "after_field (fld ''Entity'' ''inline'') (GStruct gs) [] [] = copy_payload (patch_struct gs ''inline'' []) []"
      using z by (simp add: after_field_def genDbKey_def Let_def x gs_def)
    ultimately have "''_id'' \<in> fst ` set (after_field (fld ''Entity'' ''inline'') (GStruct gs) [] [])"
      by (simp add: copy_payload_keys)
    with patch_struct_keeps[of "after_field (fld ''Entity'' ''inline'') (GStruct gs) [] []" rest "[]"] show ?thesis
      by (auto simp: base_struct_def c gs_def patch_struct_Cons simp del: patch_struct.simps(2))
  next
    case False
    then have "(fld ''ID'' ''_id,omitempty'', ent_ID e) \<in> set (base_struct e @ rest)"
      by (auto simp: base_struct_def Let_def split: option.splits CreateAuditor.splits)
    from patch_struct_covers[OF this x z l, of "[]"] show ?thesis by auto
  qed
  then show ?thesis
    by (simp add: patch_fields_def BuildPatchPayload_def BuildPatchPayloadWithParent_def entity_struct_def opt_list_def)
qed

section \<open>What a successful patch does\<close>

lemma patch_sets_nonempty: "proper_id (ent_ID e) \<Longrightarrow> patch_sets l ctx now e \<noteq> []"
proof -
  have ne: "AList.update k v xs \<noteq> []" for k and v :: go_val and xs by (cases xs) auto
  show "proper_id (ent_ID e) \<Longrightarrow> ?thesis" using patch_fields_id[of e] ne by (auto simp: patch_sets_def)
qed

text \<open>The update document, and how the call goes once the filter is there.\<close>

definition patch_update :: "'c CollectionLib \<Rightarrow> repo_ctx \<Rightarrow> time \<Rightarrow> doc \<Rightarrow> update_doc" where
  "patch_update l ctx now e = \<lparr>upd_set = Some (patch_sets l ctx now e), upd_unset = None\<rparr>"

lemma Patch_sends:
  assumes "baseUpdateOp l ctx clk e = (Inr f, e1)" and "proper_id (ent_ID e1)"
    and "ent_update (lib_zero l) \<noteq> None \<Longrightarrow> CtxGetOperator ctx \<noteq> None"
  shows "repo_Patch l ctx clk e c =
    (case cls_UpdateOne (lib_cls l) c f (patch_update l ctx (clk 1) e1) of
       (Inl err, c) \<Rightarrow> (Some (WrapError ''patch doc failed: '' err []), e1, c)
     | (Inr (n, m), c) \<Rightarrow>
         if n = 0 then (Some (NewResourceNotFoundError (resourceByFilter l f) None), e1, c)
         else if map_of f ''updated_at'' \<noteq> None \<and> m = 0
         then (Some (NewResourceError ErrCodeConflict ''optimistic locking failed'' (resourceByFilter l f) None), e1, c)
         else (None, e1, c))"
proof -
  define input where "input = \<lparr>pr_Filter = Some f, pr_PatchPayload = Some (patch_fields e1),
    pr_UnsetPayload = None, pr_IsMany = False, pr_SkipInjectCond = True\<rparr>"
  have a: "patch_audit l ctx (clk 1) input = (None, input\<lparr>pr_PatchPayload := Some (patch_sets l ctx (clk 1) e1)\<rparr>)"
    using assms(3) by (cases "ent_update (lib_zero l)") (auto simp: patch_audit_def patch_sets_def input_def opt_list_def)
  have s: "patch_send l (input\<lparr>pr_PatchPayload := Some (patch_sets l ctx (clk 1) e1)\<rparr>) c =
    (case cls_UpdateOne (lib_cls l) c f (patch_update l ctx (clk 1) e1) of
       (Inl err, c) \<Rightarrow> (Some (WrapError ''patch doc failed: '' err []), c)
     | (Inr (n, m), c) \<Rightarrow>
         if n = 0 then (Some (NewResourceNotFoundError (resourceByFilter l f) None), c)
         else if map_of f ''updated_at'' \<noteq> None \<and> m = 0
         then (Some (NewResourceError ErrCodeConflict ''optimistic locking failed'' (resourceByFilter l f) None), c)
         else (None, c))"
    using patch_sets_nonempty[OF assms(2), of l ctx "clk 1"] by (simp add: patch_send_def patch_update_def input_def opt_list_def)
  have c1: "later clk 0 = clk 1" by (simp add: later_def)
  have "repo_Patch l ctx clk e c = (case patch_send l (input\<lparr>pr_PatchPayload := Some (patch_sets l ctx (clk 1) e1)\<rparr>) c of
      (r, c) \<Rightarrow> (r, e1, c))"
    using assms(1) a c1 by (simp add: repo_Patch_def PatchRaw_def patch_fields_Some input_def split: prod.splits)
  then show ?thesis unfolding s by (auto split: sum.splits prod.splits)
qed

context repository
begin

lemma Patch_outcome:
  assumes "repo_Patch l ctx clk e c = (r, e', c')" and "proper_id (ent_ID e)" and "may_update l ctx e"
    and "ent_update (lib_zero l) = None \<longleftrightarrow> ent_update e = None"
  shows "e' = stamped ctx (clk 0) e
    \<and> (case r of
         None \<Rightarrow> \<exists>d. docs c (bv (ent_ID e)) = Some d \<and> current bv l ctx e d
           \<and> docs c' = (docs c)(bv (ent_ID e) \<mapsto> upd (patch_update l ctx (clk 1) e') d)
       | Some err \<Rightarrow> (\<not> (\<exists>d. docs c (bv (ent_ID e)) = Some d \<and> current bv l ctx e d) \<longrightarrow>
           docs c' = docs c \<and> (CodeOf (Some err) = ErrCodeNotFound \<or> (\<exists>e0. err = WrapError ''patch doc failed: '' e0 []))))"
proof -
  obtain f where i: "injectCond l ctx (Some (lock_filter e)) = Inr f"
    and b: "baseUpdateOp l ctx clk e = (Inr f, stamped ctx (clk 0) e)" by (rule Update_filter[OF assms(3)])
  let ?e = "stamped ctx (clk 0) e"
  obtain r1 c1 where u: "cls_UpdateOne (lib_cls l) c f (patch_update l ctx (clk 1) ?e) = (r1, c1)" by fastforce
  have op: "ent_update (lib_zero l) \<noteq> None \<Longrightarrow> CtxGetOperator ctx \<noteq> None"
    using assms(3,4) by (simp add: may_update_def)
  have p: "repo_Patch l ctx clk e c = (case r1 of
       Inl err \<Rightarrow> (Some (WrapError ''patch doc failed: '' err []), ?e, c1)
     | Inr (n, m) \<Rightarrow>
         if n = 0 then (Some (NewResourceNotFoundError (resourceByFilter l f) None), ?e, c1)
         else if map_of f ''updated_at'' \<noteq> None \<and> m = 0
         then (Some (NewResourceError ErrCodeConflict ''optimistic locking failed'' (resourceByFilter l f) None), ?e, c1)
         else (None, ?e, c1))"
    using Patch_sends[OF b _ op, of c] assms(2) u by (simp split: sum.splits prod.splits)
  have hit: "k = bv (ent_ID e) \<and> current bv l ctx e d" if "docs c k = Some d" "matches f d" for k d
    using matches_lock[OF i that(1) assms(2)] that(2) by simp
  show ?thesis
  proof (cases r1)
    case (Inl err)
    from UpdateOne_failed[OF u[unfolded Inl]] hit show ?thesis
      using assms(1) p Inl by (auto simp: fun_upd_def)
  next
    case (Inr y)
    obtain n m where y: "y = (n, m)" by fastforce
    show ?thesis
    proof (cases "n = 0")
      case True
      with UpdateOne_none[OF u[unfolded Inr y True]] show ?thesis using assms(1) p Inr y by auto
    next
      case False
      from UpdateOne_matched[OF u[unfolded Inr y] False] hit
      obtain d where "docs c (bv (ent_ID e)) = Some d" "current bv l ctx e d"
        "docs c1 = (docs c)(bv (ent_ID e) \<mapsto> upd (patch_update l ctx (clk 1) ?e) d)" by blast
      with False show ?thesis using assms(1) p Inr y by (auto split: if_splits)
    qed
  qed
qed

lemma patch_update_key:
  assumes "map_of (patch_sets l ctx now e) q = Some v" and "top_key q" and "q \<noteq> ''_id''"
  shows "upd (patch_update l ctx now e) d q = Some (bv v)"
  by (rule upd_set_key) (simp_all add: patch_update_def opt_list_def assms)

lemma patch_update_other:
  assumes "top_key q" and "\<And>p. p \<in> fst ` set (patch_sets l ctx now e) \<Longrightarrow> p \<noteq> q \<and> \<not> HasPrefix p (q @ ''.'')"
  shows "upd (patch_update l ctx now e) d q = d q"
  by (rule upd_other_key) (use assms in \<open>auto simp: patch_update_def opt_list_def\<close>)

end

lemma patch_sets_audit:
  "ent_update (lib_zero l) \<noteq> None \<Longrightarrow>
   map_of (patch_sets l ctx now e) ''updated_at'' = Some (GTime now) \<and>
   map_of (patch_sets l ctx now e) ''updated_by'' = Some (GString (the (CtxGetOperator ctx)))"
  by (auto simp: patch_sets_def update_conv)

lemma patch_sets_field:
  "(q, v) \<in> set (patch_fields e) \<Longrightarrow> q \<noteq> ''updated_at'' \<Longrightarrow> q \<noteq> ''updated_by'' \<Longrightarrow>
   map_of (patch_sets l ctx now e) q = Some v"
  using map_of_is_SomeI[OF patch_fields_distinct] by (auto simp: patch_sets_def update_conv)

lemma patch_sets_keys:
  "fst ` set (patch_sets l ctx now e) \<subseteq> insert ''updated_at'' (insert ''updated_by'' (fst ` set (patch_fields e)))"
  by (auto simp: patch_sets_def dom_update)

text \<open>The effect of a patch with the audited entity \<open>e\<close> on a stored document.\<close>

definition patch_effect :: "(go_val \<Rightarrow> bson) \<Rightarrow> repo_ctx \<Rightarrow> time \<Rightarrow> doc \<Rightarrow> bdoc \<Rightarrow> bdoc \<Rightarrow> bool" where
  "patch_effect bv ctx now e d d' \<longleftrightarrow>
     (ent_update e \<noteq> None \<longrightarrow> d' ''updated_at'' = Some (BDate (now div Millisecond))
        \<and> d' ''updated_by'' = Some (BStr (the (CtxGetOperator ctx))))
     \<and> (\<forall>(q, v) \<in> set (patch_fields e). top_key q \<and> q \<notin> {''_id'', ''updated_at'', ''updated_by''} \<longrightarrow> d' q = Some (bv v))
     \<and> (\<forall>q. top_key q \<and> q \<notin> {''updated_at'', ''updated_by''}
          \<and> (\<forall>p \<in> fst ` set (patch_fields e). p \<noteq> q \<and> \<not> HasPrefix p (q @ ''.'')) \<longrightarrow> d' q = d q)"

lemma reaches_audit: "\<not> HasPrefix ''updated_at'' (q @ ''.'') \<and> \<not> HasPrefix ''updated_by'' (q @ ''.'')"
  by (auto simp: HasPrefix_def dest!: set_mono_prefix)

context repository
begin

lemma patch_update_effect:
  assumes "ent_update (lib_zero l) = None \<longleftrightarrow> ent_update e = None"
  shows "patch_effect bv ctx now e d (upd (patch_update l ctx now e) d)"
  unfolding patch_effect_def
proof (intro conjI impI allI ballI)
  let ?u = "patch_update l ctx now e"
  assume "ent_update e \<noteq> None"
  with assms patch_sets_audit[of l ctx now e] show "upd ?u d ''updated_at'' = Some (BDate (now div Millisecond))"
    "upd ?u d ''updated_by'' = Some (BStr (the (CtxGetOperator ctx)))"
    by (simp_all add: patch_update_key bv_time bv_string)
next
  fix x assume x: "x \<in> set (patch_fields e)"
  obtain q v where "x = (q, v)" by fastforce
  with x patch_sets_field[of q v e l ctx now] show "case x of (q, v) \<Rightarrow>
      top_key q \<and> q \<notin> {''_id'', ''updated_at'', ''updated_by''} \<longrightarrow> upd (patch_update l ctx now e) d q = Some (bv v)"
    by (simp add: patch_update_key)
next
  fix q
  assume a: "top_key q \<and> q \<notin> {''updated_at'', ''updated_by''}
    \<and> (\<forall>p \<in> fst ` set (patch_fields e). p \<noteq> q \<and> \<not> HasPrefix p (q @ ''.''))"
  then have q: "top_key q" "q \<noteq> ''updated_at''" "q \<noteq> ''updated_by''" by blast+
  have r: "p \<noteq> q \<and> \<not> HasPrefix p (q @ ''.'')" if "p \<in> fst ` set (patch_fields e)" for p
    using a that by blast
  show "upd (patch_update l ctx now e) d q = d q"
  proof (rule patch_update_other)
    fix p assume "p \<in> fst ` set (patch_sets l ctx now e)"
    with patch_sets_keys[of l ctx now e] consider "p = ''updated_at''" | "p = ''updated_by''" | "p \<in> fst ` set (patch_fields e)"
      by blast
    then show "p \<noteq> q \<and> \<not> HasPrefix p (q @ ''.'')"
    proof cases
      case 3
      then show ?thesis by (rule r)
    qed (use q reaches_audit[of q] in auto)
  qed (rule q(1))
qed

lemma Patch_cas:
  assumes "proper_id (ent_ID e)" and "ent_update (lib_zero l) = None \<longleftrightarrow> ent_update e = None"
  shows "case repo_Patch l ctx clk e c of
      (None, e', c') \<Rightarrow> e' = stamped ctx (clk 0) e \<and>
        (\<exists>d d'. docs c (bv (ent_ID e)) = Some d \<and> current bv l ctx e d
          \<and> docs c' = (docs c)(bv (ent_ID e) \<mapsto> d') \<and> patch_effect bv ctx (clk 1) e' d d')
    | (Some err, e', c') \<Rightarrow>
        (\<not> may_update l ctx e \<longrightarrow> c' = c \<and> CodeOf (Some err) = ErrCodeValidate)
        \<and> (may_update l ctx e \<and> \<not> (\<exists>d. docs c (bv (ent_ID e)) = Some d \<and> current bv l ctx e d) \<longrightarrow>
            docs c' = docs c \<and> (CodeOf (Some err) = ErrCodeNotFound \<or> (\<exists>e0. err = WrapError ''patch doc failed: '' e0 [])))"
proof (cases "may_update l ctx e")
  case False
  from base_refused[OF False, of clk] show ?thesis
    by (rule base_refused[OF False, of clk]) (simp add: repo_Patch_def False)
next
  case True
  obtain r e' c' where p: "repo_Patch l ctx clk e c = (r, e', c')" by (cases "repo_Patch l ctx clk e c")
  note o = Patch_outcome[OF p assms(1) True assms(2)]
  show ?thesis
  proof (cases r)
    case (Some err)
    with o p True show ?thesis by simp
  next
    case None
    from o None have "e' = stamped ctx (clk 0) e" by simp
    then have "ent_update (lib_zero l) = None \<longleftrightarrow> ent_update e' = None"
      using assms(2) by (simp add: stamped_def)
    from patch_update_effect[OF this, of ctx "clk 1"] have eff: "patch_effect bv ctx (clk 1) e' d (upd (patch_update l ctx (clk 1) e') d)" for d .
    from o None obtain d where "docs c (bv (ent_ID e)) = Some d" "current bv l ctx e d"
      "docs c' = (docs c)(bv (ent_ID e) \<mapsto> upd (patch_update l ctx (clk 1) e') d)" by auto
    with eff \<open>e' = stamped ctx (clk 0) e\<close> None show ?thesis unfolding p by (simp del: One_nat_def) blast
  qed
qed

end

section \<open>Properties\<close>

text \<open>
  C21. The payload of a patch is the finite map of the entity's exported non-zero fields other than
  \<open>time.Time\<close> values, embedded structures flattened, under the keys \<open>BuildPatchPayload\<close> derives from
  their tags, the later of two equal keys winning; no key occurs twice, and no entry is zero or a
  structure, so that a patch never clears a field and never replaces a sub-document as a whole. The
  times are missing although the comment of \<open>Patch\<close> promises the non-zero fields (\<open>patch_drops_times\<close>).
\<close>

theorem patch_payload:
  "\<exists>p. BuildPatchPayload (GPtr (GStruct fs)) = Some p \<and> map_of p = map_of (rev (timeless (leaf_entries fs [])))
     \<and> distinct (map fst p) \<and> list_all (\<lambda>(k, v). \<not> go_IsZero v \<and> leaf_value v) p"
  using patch_struct_entries[where fs = fs and parent = "[]" and out = "[]"] patch_struct_map[of fs "[]" "[]"]
    patch_struct_distinct[of "[]" fs "[]"]
  by (auto simp: BuildPatchPayload_def BuildPatchPayloadWithParent_def list_all_iff)

text \<open>
  C20. A patch is a compare-and-set as well. It succeeds only on the stored document of the entity's
  identifier, visible and of the version the caller read. It then gives every top-level field
  of the payload its value, stamps the update and leaves every top-level field alone that no key of the
  payload names or reaches into. On a stale or missing document it changes nothing and reports not found
  unless the driver failed; without operator or isolation subject nothing is sent.
\<close>

theorem patch_compare_and_set:
  assumes "repository bv enc dec matches blt upd l docs" and "proper_id (ent_ID e)"
    and "ent_update (lib_zero l) = None \<longleftrightarrow> ent_update e = None"
  shows "case repo_Patch l ctx clk e c of
      (None, e', c') \<Rightarrow> e' = stamped ctx (clk 0) e \<and>
        (\<exists>d d'. docs c (bv (ent_ID e)) = Some d \<and> current bv l ctx e d
          \<and> docs c' = (docs c)(bv (ent_ID e) \<mapsto> d') \<and> patch_effect bv ctx (clk 1) e' d d')
    | (Some err, e', c') \<Rightarrow>
        (\<not> may_update l ctx e \<longrightarrow> c' = c \<and> CodeOf (Some err) = ErrCodeValidate)
        \<and> (may_update l ctx e \<and> \<not> (\<exists>d. docs c (bv (ent_ID e)) = Some d \<and> current bv l ctx e d) \<longrightarrow>
            docs c' = docs c \<and> (CodeOf (Some err) = ErrCodeNotFound \<or> (\<exists>e0. err = WrapError ''patch doc failed: '' e0 [])))"
  by (rule repository.Patch_cas[OF assms])

section \<open>Examples\<close>

lemma tag_name_option: "CHR '','' \<notin> set k \<Longrightarrow> tag_name (fld n (k @ '',omitempty'')) = k"
  using Split_Join[of "[k, ''omitempty'']" "CHR '',''"]
  by (simp add: tag_name_def raw_bson_name_def fld_def Join_def del: Split.simps)

lemma demo_tags [simp]:
  "tag_name (fld n ''created_at,omitempty'') = ''created_at''" "tag_name (fld n ''created_by,omitempty'') = ''created_by''"
  "tag_name (fld n ''updated_at,omitempty'') = ''updated_at''" "tag_name (fld n ''updated_by,omitempty'') = ''updated_by''"
  "tag_name (fld n ''tenant_id,omitempty'') = ''tenant_id''" "tag_name (fld n ''app_id,omitempty'') = ''app_id''"
  using tag_name_option[of "''created_at''" n] tag_name_option[of "''created_by''" n] tag_name_option[of "''updated_at''" n]
    tag_name_option[of "''updated_by''" n] tag_name_option[of "''tenant_id''" n] tag_name_option[of "''app_id''" n]
  by simp_all

lemma exported_fld [simp]: "sf_Exported (fld n t)"
  by (simp add: fld_def)

lemma demo_patch_fields:
  "patch_fields (demo_doc ''1'' ''red'' 7000000) =
     [(''_id'', GString ''1''), (''created_by'', GString ''ann''), (''updated_by'', GString ''ann''),
      (''tenant_id'', GString ''red''), (''app_id'', GString ''shop'')]"
  by (simp add: patch_fields_def BuildPatchPayload_def BuildPatchPayloadWithParent_def entity_struct_def
      base_struct_def opt_list_def tenant_struct_def genDbKey_def Let_def IsZero_def zero_time_def)
    (simp add: demo_doc_def)

lemma demo_patch_sets:
  "patch_sets demo_repo (demo_rctx ''red'') 8000000 (demo_doc ''1'' ''red'' 7000000) =
     [(''_id'', GString ''1''), (''created_by'', GString ''ann''), (''updated_by'', GString ''ann''),
      (''tenant_id'', GString ''red''), (''app_id'', GString ''shop''), (''updated_at'', GTime 8000000)]"
  by (simp add: patch_sets_def demo_patch_fields)

lemma demo_patch:
  "\<exists>c. repo_Patch demo_repo (demo_rctx ''red'') demo_clock (demo_doc ''1'' ''red'' 5000000) demo_docs =
     (None, demo_doc ''1'' ''red'' 7000000, c)"
proof -
  let ?f = "[(''_id'', CEq (GString ''1'')), (''updated_at'', CEq (GTime 5000000)), (''tenant_id'', CEq (GString ''red'')), (''deleted_at'', CExists False)]"
  let ?u = "patch_update demo_repo (demo_rctx ''red'') 8000000 (demo_doc ''1'' ''red'' 7000000)"
  have c: "demo_clock 0 = 7000000" "demo_clock 1 = 8000000" by (simp_all add: demo_clock_def)
  have z: "(5000000::int) \<noteq> zero_time" by (simp add: zero_time_def)
  have b: "baseUpdateOp demo_repo (demo_rctx ''red'') demo_clock (demo_doc ''1'' ''red'' 5000000) = (Inr ?f, demo_doc ''1'' ''red'' 7000000)"
    using demo_base[OF z] c by simp
  have "good (mem_upd ?u (mem_enc (demo_doc ''1'' ''red'' 5000000)))"
    "mem_upd ?u (mem_enc (demo_doc ''1'' ''red'' 5000000)) ''_id'' = Some (BStr ''1'')"
    by (simp_all add: good_def audit_keys_def mem_upd_def patch_update_def opt_list_def demo_patch_sets)
  then have "\<exists>c. mem_UpdateOne demo_docs ?f ?u = (Inr (1, 1), c)"
    by (simp add: mem_UpdateOne_def demo_found_update)
  then obtain c where m: "cls_UpdateOne (lib_cls demo_repo) demo_docs ?f ?u = (Inr (1, 1), c)"
    by (auto simp: mem_collection_def)
  note sends = Patch_sends[OF b, where c = demo_docs, unfolded c m]
  have "repo_Patch demo_repo (demo_rctx ''red'') demo_clock (demo_doc ''1'' ''red'' 5000000) demo_docs =
      (None, demo_doc ''1'' ''red'' 7000000, c)"
    by (rule trans[OF sends]) simp_all
  then show ?thesis ..
qed

theorem patch_compare_and_set_witness:
  "\<exists>c d d'. repo_Patch demo_repo (demo_rctx ''red'') demo_clock (demo_doc ''1'' ''red'' 5000000) demo_docs = (None, demo_doc ''1'' ''red'' 7000000, c)
     \<and> repo_docs demo_docs (BStr ''1'') = Some d \<and> repo_docs c (BStr ''1'') = Some d' \<and> d' ''updated_at'' = Some (BDate 8)"
proof -
  obtain c where p: "repo_Patch demo_repo (demo_rctx ''red'') demo_clock (demo_doc ''1'' ''red'' 5000000) demo_docs =
     (None, demo_doc ''1'' ''red'' 7000000, c)" using demo_patch by blast
  have k: "proper_id (ent_ID (demo_doc ''1'' ''red'' 5000000))"
    "ent_update (lib_zero demo_repo) = None \<longleftrightarrow> ent_update (demo_doc ''1'' ''red'' 5000000) = None" by simp_all
  from patch_compare_and_set[OF demo_repository k, where ctx = "demo_rctx ''red''" and clk = demo_clock and c = demo_docs] p
  show ?thesis by (auto simp: patch_effect_def demo_clock_def)
qed

theorem patch_payload_witness:
  "\<exists>p. BuildPatchPayload (GPtr (GStruct [(fld ''City'' ''city'', GString ''Rome''), (fld ''Zip'' ''zip'', GInt 0)])) = Some p
     \<and> map_of p ''city'' = Some (GString ''Rome'') \<and> map_of p ''zip'' = None"
  using patch_payload[of "[(fld ''City'' ''city'', GString ''Rome''), (fld ''Zip'' ''zip'', GInt 0)]"]
    Split_Join[of "[''city'']" "CHR '',''"]
  by (auto simp: tag_name_def raw_bson_name_def fld_def genDbKey_def Join_def Let_def simp del: Split.simps)

section \<open>Fields a patch misses or misplaces\<close>

text \<open>A field of type \<open>time.Time\<close> is a structure for \<open>reflect\<close>, and all its fields are unexported: it is never patched.\<close>

lemma patch_drops_times:
  "BuildPatchPayload (GPtr (GStruct [(fld ''Due'' tag, GTime t)])) = Some []"
  by (simp add: BuildPatchPayload_def BuildPatchPayloadWithParent_def Let_def)

text \<open>A tag that only has options leaves an empty name, not the lower-case field name of the BSON driver.\<close>

lemma patch_option_tag_empty_key:
  "BuildPatchPayload (GPtr (GStruct [(fld ''City'' '',omitempty'', GString ''Rome'')])) = Some [([], GString ''Rome'')]"
  using tag_name_option[of "[]" "''City''"]
  by (simp add: BuildPatchPayload_def BuildPatchPayloadWithParent_def Let_def genDbKey_def)

text \<open>A structure inlined into a sub-document, whose fields are stored as \<open>addr.lat\<close>, is patched under a path that does not exist.\<close>

lemma patch_nested_inline_key:
  "BuildPatchPayload (GPtr (GStruct [(fld ''Addr'' ''addr,omitempty'',
     GStruct [(fld ''Geo'' ''inline'', GStruct [(fld ''Lat'' ''lat,omitempty'', GInt 1)])])])) = Some [(''addr.inline.lat'', GInt 1)]"
  using tag_name_option[of "''addr''" "''Addr''"] tag_name_option[of "''lat''" "''Lat''"]
  by (simp add: BuildPatchPayload_def BuildPatchPayloadWithParent_def Let_def genDbKey_def)

end
