(* ===== verification/Mongox_Feed.thy ===== *)
theory Mongox_Feed
  imports Mongox_Patch
begin

text \<open>
  Feeds: a client that follows the page tokens of \<open>FeedQuery\<close> from the first page to the last, over the
  identifier or another cursor that tells the rows apart, on a collection nobody else writes meanwhile.
\<close>

section \<open>Tokens of identifiers\<close>

text \<open>The values of the identifier types of \<open>IDType\<close>, as far as BSON holds them.\<close>

fun id_of_type :: "go_type \<Rightarrow> go_val \<Rightarrow> bool" where
  "id_of_type TyString (GString s) \<longleftrightarrow> s \<noteq> []"
| "id_of_type (TyInt bits) (GInt i) \<longleftrightarrow> bits = 64 \<and> in_int64 i"
| "id_of_type (TyUint bits) (GUint n) \<longleftrightarrow> bits = 64 \<and> n < 2 ^ 63"
| "id_of_type P v \<longleftrightarrow> False"

lemma id_token_nonempty: "id_of_type P v \<Longrightarrow> Sprint cv v \<noteq> []"
  by (cases "(P, v)" rule: id_of_type.cases) (simp_all add: FormatInt_def)

lemma id_token_parsed: "id_of_type P v \<Longrightarrow> parseFeedTokenByType cv (Sprint cv v) P = Inr v"
  by (cases "(P, v)" rule: id_of_type.cases)
    (simp_all add: parseFeedTokenByType_def ParseInt_FormatInt ParseUint_FormatUint)

section \<open>The client\<close>

text \<open>
  \<open>drain_feed n\<close> makes at most \<open>n\<close> calls, each with a fresh input that has the token of the page before;
  \<open>None\<close> is an error, or that \<open>n\<close> calls were not enough.
\<close>

fun drain_feed ::
    "nat \<Rightarrow> 'c CollectionLib \<Rightarrow> repo_ctx \<Rightarrow> bfilter option \<Rightarrow> string \<Rightarrow> bool \<Rightarrow> Pager \<Rightarrow> 'c \<Rightarrow> doc list option \<times> 'c" where
  "drain_feed 0 l ctx fo q desc p c = (None, c)"
| "drain_feed (Suc n) l ctx fo q desc p c =
     (case FeedQuery l ctx \<lparr>fq_Filter = fo, fq_Pager = Some p, fq_CursorField = q, fq_IsDescending = desc\<rparr> c of
        (Inl err, input, c) \<Rightarrow> (None, c)
      | (Inr res, input, c) \<Rightarrow>
          if NextPageToken res = [] then (Some (feed_Rows res), c)
          else
            (case drain_feed n l ctx fo q desc (p\<lparr>PageToken := NextPageToken res\<rparr>) c of
               (r, c) \<Rightarrow> (map_option (\<lambda>rows. feed_Rows res @ rows) r, c)))"

definition page_size :: "Pager \<Rightarrow> nat" where
  "page_size p = (if PageSize p \<le> 0 then 20 else nat (PageSize p))"

text \<open>A driver that answers queries, and the order of the feed.\<close>

definition answers :: "'c CollectionLib \<Rightarrow> bool" where
  "answers l \<longleftrightarrow> (\<forall>c f opts. \<exists>es c'. cls_Find (lib_cls l) c f opts = (Inr (Inr es), c'))"

definition ahead :: "(bson \<Rightarrow> bson \<Rightarrow> bool) \<Rightarrow> bool \<Rightarrow> bson \<Rightarrow> bson \<Rightarrow> bool" where
  "ahead blt desc a b = (if desc then blt b a else blt a b)"

definition feed_order :: "(bson \<Rightarrow> bson \<Rightarrow> bool) \<Rightarrow> string \<Rightarrow> bool \<Rightarrow> bdoc \<Rightarrow> bdoc \<Rightarrow> bool" where
  "feed_order blt q desc d1 d2 \<longleftrightarrow> (case (d1 q, d2 q) of (Some a, Some b) \<Rightarrow> ahead blt desc a b | _ \<Rightarrow> False)"

lemma sorted_wrt_strict:
  "sorted_wrt P xs \<Longrightarrow> distinct xs \<Longrightarrow> (\<And>x y. x \<in> set xs \<Longrightarrow> y \<in> set xs \<Longrightarrow> x \<noteq> y \<Longrightarrow> P x y \<Longrightarrow> Q x y) \<Longrightarrow> sorted_wrt Q xs"
  by (induction xs) auto

lemma sorted_drop:
  assumes "sorted_wrt Q xs" and "n < length xs" and "\<And>x. \<not> Q x x" and "\<And>x y z. Q x y \<Longrightarrow> Q y z \<Longrightarrow> Q x z"
  shows "{x \<in> set xs. Q (xs ! n) x} = set (drop (Suc n) xs)"
proof -
  have "Q (xs ! n) (xs ! i) \<longleftrightarrow> n < i" if "i < length xs" for i
    using assms sorted_wrt_nth_less[OF assms(1), of n i] sorted_wrt_nth_less[OF assms(1), of i n] that
    by (metis linorder_neqE_nat)
  moreover have "\<exists>j. xs ! i = xs ! Suc (n + j) \<and> j < length xs - Suc n" if "n < i" "i < length xs" for i
    using that by (intro exI[of _ "i - Suc n"]) simp
  ultimately show ?thesis by (auto simp: set_conv_nth)
qed

section \<open>One page\<close>

text \<open>The documents a feed delivers, and those still ahead at a token.\<close>

definition feed_docs ::
    "(bfilter \<Rightarrow> bdoc \<Rightarrow> bool) \<Rightarrow> 'c CollectionLib \<Rightarrow> repo_ctx \<Rightarrow> bfilter option \<Rightarrow> (bson \<Rightarrow> bdoc option) \<Rightarrow> bdoc set" where
  "feed_docs matches l ctx fo m = matching m (\<lambda>d. matches (opt_list fo) d \<and> visible l ctx d)"

text \<open>A row whose token leads back to its value of the cursor field, and cursors that tell the rows of a feed apart.\<close>

definition cursor_row :: "(go_val \<Rightarrow> bson) \<Rightarrow> (bdoc \<Rightarrow> doc) \<Rightarrow> 'c CollectionLib \<Rightarrow> string \<Rightarrow> bdoc \<Rightarrow> bool" where
  "cursor_row bv dec l q d \<longleftrightarrow>
     (\<exists>tok v. feedCursorToken l (dec d) q = Inr tok \<and> tok \<noteq> [] \<and> d q = Some (bv v)
        \<and> (\<forall>desc. buildFeedCursorFilter l q tok desc = Inr [(q, if desc then CLt v else CGt v)]))"

definition unique_cursor :: "(go_val \<Rightarrow> bson) \<Rightarrow> (bdoc \<Rightarrow> doc) \<Rightarrow> 'c CollectionLib \<Rightarrow> string \<Rightarrow> bdoc set \<Rightarrow> bool" where
  "unique_cursor bv dec l q M \<longleftrightarrow> top_key q \<and> (\<forall>d \<in> M. cursor_row bv dec l q d)
     \<and> (\<forall>x \<in> M. \<forall>y \<in> M. x q = y q \<longrightarrow> x = y)
     \<and> (\<forall>x \<in> M. \<forall>y \<in> M. \<forall>a b. x q = Some a \<longrightarrow> y q = Some b \<longrightarrow> same_kind a b)"

lemma unique_cursorD:
  assumes "unique_cursor bv dec l q M"
  shows "top_key q" and "d \<in> M \<Longrightarrow> cursor_row bv dec l q d" and "d \<in> M \<Longrightarrow> \<exists>v. d q = Some (bv v)"
    and "x \<in> M \<Longrightarrow> y \<in> M \<Longrightarrow> x q = y q \<Longrightarrow> x = y"
    and "x \<in> M \<Longrightarrow> y \<in> M \<Longrightarrow> x q = Some a \<Longrightarrow> y q = Some b \<Longrightarrow> same_kind a b"
proof -
  show "top_key q" "d \<in> M \<Longrightarrow> cursor_row bv dec l q d" "x \<in> M \<Longrightarrow> y \<in> M \<Longrightarrow> x q = y q \<Longrightarrow> x = y"
    "x \<in> M \<Longrightarrow> y \<in> M \<Longrightarrow> x q = Some a \<Longrightarrow> y q = Some b \<Longrightarrow> same_kind a b"
    using assms unfolding unique_cursor_def by blast+
  show "\<exists>v. d q = Some (bv v)" if "d \<in> M"
    using assms that unfolding unique_cursor_def cursor_row_def by blast
qed

definition cursor_token :: "(bdoc \<Rightarrow> doc) \<Rightarrow> 'c CollectionLib \<Rightarrow> string \<Rightarrow> bdoc \<Rightarrow> string" where
  "cursor_token dec l q d = (case feedCursorToken l (dec d) q of Inr tok \<Rightarrow> tok | Inl err \<Rightarrow> [])"

text \<open>The rows \<open>R\<close> of \<open>M\<close> still ahead at a token: all of them, or those beyond the value it stands for.\<close>

definition ahead_of ::
    "(go_val \<Rightarrow> bson) \<Rightarrow> (bson \<Rightarrow> bson \<Rightarrow> bool) \<Rightarrow> 'c CollectionLib \<Rightarrow> string \<Rightarrow> bool \<Rightarrow> string \<Rightarrow> bdoc set \<Rightarrow> bdoc set \<Rightarrow> bool" where
  "ahead_of bv blt l q desc tok M R \<longleftrightarrow>
     tok = [] \<and> R = M
     \<or> tok \<noteq> [] \<and> (\<exists>v. (\<exists>d \<in> M. d q = Some (bv v))
          \<and> buildFeedCursorFilter l q tok desc = Inr [(q, if desc then CLt v else CGt v)]
          \<and> R = {d \<in> M. \<exists>k. d q = Some k \<and> ahead blt desc (bv v) k})"

context repository
begin

lemma ahead_irrefl: "\<not> ahead blt desc a a"
  by (simp add: ahead_def blt_irrefl)

lemma ahead_trans: "ahead blt desc a b \<Longrightarrow> ahead blt desc b c \<Longrightarrow> ahead blt desc a c"
  by (auto simp: ahead_def intro: blt_trans split: if_splits)

lemma matches_cursor:
  assumes "top_key q" and "d q = Some k" and "same_kind (bv v) k"
  shows "matches [(q, if desc then CLt v else CGt v)] d \<longleftrightarrow> ahead blt desc (bv v) k"
  using matches_lt[of q d k v] matches_gt[of q d k v] assms by (simp add: ahead_def)

lemma matches_merged:
  "cf \<noteq> [] \<Longrightarrow> matches (mergeFeedFilter f cf) d \<longleftrightarrow> matches f d \<and> matches cf d"
  using matches_all[of "[]" d] by (auto simp: mergeFeedFilter_def matches_and)

lemma feed_page_filter:
  assumes "injectCond l ctx fo = Inr f0" and "distinct (map fst (opt_list fo))"
    and "fst ` set (opt_list fo) \<inter> injected_keys = {}"
    and "unique_cursor bv dec l q (feed_docs matches l ctx fo (docs c))"
    and "ahead_of bv blt l q desc tok (feed_docs matches l ctx fo (docs c)) R"
  obtains f where "feed_filter l q tok desc f0 = Inr f" and "matching (docs c) (matches f) = R"
proof -
  let ?M = "feed_docs matches l ctx fo (docs c)"
  have base: "matching (docs c) (matches f0) = ?M"
    using injected_exact[OF assms(1) _ assms(2,3)] by (auto simp: feed_docs_def matching_def)
  from assms(5) consider (all) "tok = []" "R = ?M"
    | (rest) v d0 where "tok \<noteq> []" "d0 \<in> ?M" "d0 q = Some (bv v)"
        "buildFeedCursorFilter l q tok desc = Inr [(q, if desc then CLt v else CGt v)]"
        "R = {d \<in> ?M. \<exists>k. d q = Some k \<and> ahead blt desc (bv v) k}" unfolding ahead_of_def by blast
  then show ?thesis
  proof cases
    case all
    with base show ?thesis by (intro that[of f0]) (simp_all add: feed_filter_def)
  next
    case rest
    let ?cf = "[(q, if desc then CLt v else CGt v)]"
    have "feed_filter l q tok desc f0 = Inr (mergeFeedFilter f0 ?cf)" using rest by (simp add: feed_filter_def)
    moreover have cf: "matches ?cf d \<longleftrightarrow> (\<exists>k. d q = Some k \<and> ahead blt desc (bv v) k)" if d: "d \<in> ?M" for d
    proof -
      from unique_cursorD(3)[OF assms(4) d] obtain w where w: "d q = Some (bv w)" ..
      with unique_cursorD(1,5)[OF assms(4)] d rest(2,3) have "top_key q" "same_kind (bv v) (bv w)" by blast+
      with matches_cursor[of q d "bv w" v desc] w show ?thesis by simp
    qed
    have "x \<in> matching (docs c) (matches (mergeFeedFilter f0 ?cf)) \<longleftrightarrow> x \<in> ?M \<and> matches ?cf x" for x
      unfolding base[symmetric] matching_def mem_Collect_eq matches_merged[OF list.distinct(2)] by blast
    with cf have "matching (docs c) (matches (mergeFeedFilter f0 ?cf)) = R" unfolding rest(5) by blast
    ultimately show ?thesis by (rule that)
  qed
qed

text \<open>The rows of a query sorted by a cursor that tells them apart are strictly ordered.\<close>

lemma sorted_by_cursor:
  assumes "sorted_wrt (in_order blt q (feedSortOrder desc)) ds" and "distinct ds" and "set ds \<subseteq> M"
    and "unique_cursor bv dec l q M"
  shows "sorted_wrt (feed_order blt q desc) ds"
proof (rule sorted_wrt_strict[OF assms(1,2)])
  fix x y assume xy: "x \<in> set ds" "y \<in> set ds" "x \<noteq> y" and o: "in_order blt q (feedSortOrder desc) x y"
  then have M: "x \<in> M" "y \<in> M" using assms(3) by auto
  from unique_cursorD(3)[OF assms(4)] M obtain a b where ab: "x q = Some a" "y q = Some b" by blast
  have k: "same_kind a b" by (rule unique_cursorD(5)[OF assms(4) M ab])
  from unique_cursorD(4)[OF assms(4) M] xy(3) ab have "a \<noteq> b" by auto
  then show "feed_order blt q desc x y"
    using o ab k blt_total[of a b] by (auto simp: in_order_def feed_order_def ahead_def feedSortOrder_def)
qed

lemma feed_page:
  assumes "answers l" and "injectCond l ctx fo = Inr f0" and "distinct (map fst (opt_list fo))"
    and "fst ` set (opt_list fo) \<inter> injected_keys = {}" and "normalizeFeedCursorField l field = q"
    and "unique_cursor bv dec l q (feed_docs matches l ctx fo (docs c))"
    and "ahead_of bv blt l q desc (PageToken p) (feed_docs matches l ctx fo (docs c)) R"
    and "int (page_size p) + 1 < 2 ^ 63"
  obtains ds input c' where "distinct ds" and "set ds = R" and "sorted_wrt (feed_order blt q desc) ds" and "docs c' = docs c"
    and "FeedQuery l ctx \<lparr>fq_Filter = fo, fq_Pager = Some p, fq_CursorField = field, fq_IsDescending = desc\<rparr> c =
      (Inr \<lparr>feed_Rows = map dec (take (page_size p) ds),
            NextPageToken = if page_size p < length ds then cursor_token dec l q (ds ! (page_size p - 1)) else []\<rparr>, input, c')"
proof -
  let ?M = "feed_docs matches l ctx fo (docs c)"
  obtain f where f: "feed_filter l q (PageToken p) desc f0 = Inr f" and R: "matching (docs c) (matches f) = R"
    by (rule feed_page_filter[OF assms(2-4,6,7)])
  have sub: "R \<subseteq> ?M" using assms(7) by (auto simp: ahead_of_def)
  define n where "n = page_size p"
  have n: "n > 0" by (auto simp: n_def page_size_def)
  define opts where "opts = no_opts\<lparr>fo_limit := Some (int n + 1), fo_sort := [(q, feedSortOrder desc)]\<rparr>"
  obtain es c' where find: "cls_Find (lib_cls l) c f opts = (Inr (Inr es), c')"
    using assms(1) unfolding answers_def by blast
  from Find_ok[OF find] R obtain ds where ds: "distinct ds" "set ds = R" "es = map dec (window opts ds)" "docs c' = docs c"
    and o: "sorted_wrt (in_order blt q (feedSortOrder desc)) ds" by (auto simp: opts_def)
  have w: "es = map dec (take (Suc n) ds)"
    by (simp add: ds(3) window_def opts_def no_opts_def nat_add_distrib)
  have sorted: "sorted_wrt (feed_order blt q desc) ds" by (rule sorted_by_cursor[OF o ds(1) _ assms(6)]) (use ds(2) sub in simp)
  have size: "(if PageSize p \<le> 0 then 20 else PageSize p) = int n" by (simp add: n_def page_size_def)
  have lim: "int64 (int n + 1) = int n + 1" using assms(8) by (simp add: int64_id in_int64_def n_def)
  have page: "take n (take (Suc n) ds) = take n ds" by (simp add: min_def)
  have last: "last (map dec (take n ds)) = dec (ds ! (n - 1))" if "n < length ds"
  proof -
    from that n have "take n ds \<noteq> []" "length (take n ds) = n" by auto
    then have "last (take n ds) = ds ! (n - 1)" using n by (simp add: last_conv_nth)
    with \<open>take n ds \<noteq> []\<close> show ?thesis by (simp add: last_map)
  qed
  let ?in = "\<lparr>fq_Filter = fo, fq_Pager = Some p, fq_CursorField = field, fq_IsDescending = desc\<rparr>"
  have rows: "take (nat (int n)) es = map dec (take n ds)" by (simp add: w page flip: take_map)
  have len: "n < length es \<longleftrightarrow> n < length ds" by (auto simp: w)
  have small: "es = map dec (take n ds)" if "\<not> n < length ds" using that by (simp add: w)
  have tok: "feedCursorToken l (last (map dec (take n ds))) q = Inr (cursor_token dec l q (ds ! (n - 1)))" if "n < length ds"
  proof -
    have "ds ! (n - 1) \<in> ?M" using that ds(2) sub by auto
    with assms(6) have "cursor_row bv dec l q (ds ! (n - 1))" by (simp add: unique_cursor_def)
    then show ?thesis unfolding last[OF that] by (auto simp: cursor_row_def cursor_token_def)
  qed
  have "FeedQuery l ctx ?in c = (if n < length ds
      then (Inr \<lparr>feed_Rows = map dec (take n ds), NextPageToken = cursor_token dec l q (ds ! (n - 1))\<rparr>,
            ?in\<lparr>fq_Filter := Some f\<rparr>, c')
      else (Inr \<lparr>feed_Rows = map dec (take n ds), NextPageToken = []\<rparr>, ?in\<lparr>fq_Filter := Some f\<rparr>, c'))"
    using find[unfolded opts_def] tok rows small
    by (simp add: FeedQuery_def GetPageInfo_def size assms(5) assms(2) f lim Let_def len)
  then have "FeedQuery l ctx ?in c =
      (Inr \<lparr>feed_Rows = map dec (take n ds),
            NextPageToken = if n < length ds then cursor_token dec l q (ds ! (n - 1)) else []\<rparr>, ?in\<lparr>fq_Filter := Some f\<rparr>, c')"
    by simp
  from that[OF ds(1,2) sorted ds(4) this[unfolded n_def]] show ?thesis .
qed

section \<open>All pages\<close>

text \<open>What is ahead of the last document of a page is what the page has left.\<close>

lemma ahead_after_page:
  assumes "unique_cursor bv dec l q M" and "ahead_of bv blt l q desc tok M (set ds)"
    and "sorted_wrt (feed_order blt q desc) ds" and "0 < n" and "n < length ds"
  shows "ahead_of bv blt l q desc (cursor_token dec l q (ds ! (n - 1))) M (set (drop n ds))"
    and "cursor_token dec l q (ds ! (n - 1)) \<noteq> []"
proof -
  let ?b = "ds ! (n - 1)"
  have sub: "set ds \<subseteq> M" using assms(2) by (auto simp: ahead_of_def)
  have b: "?b \<in> set ds" using assms(5) by simp
  with sub assms(1) have "cursor_row bv dec l q ?b" by (auto simp: unique_cursor_def)
  then obtain tok' v where t: "feedCursorToken l (dec ?b) q = Inr tok'" "tok' \<noteq> []" and v: "?b q = Some (bv v)"
    and f: "\<And>desc. buildFeedCursorFilter l q tok' desc = Inr [(q, if desc then CLt v else CGt v)]"
    by (auto simp: cursor_row_def)
  have tok: "cursor_token dec l q ?b = tok'" using t(1) by (simp add: cursor_token_def)
  with t(2) show "cursor_token dec l q ?b \<noteq> []" by simp
  have ord: "feed_order blt q desc ?b d \<longleftrightarrow> (\<exists>j. d q = Some j \<and> ahead blt desc (bv v) j)" for d
    using v by (simp add: feed_order_def split: option.split)
  have tr: "feed_order blt q desc x z" if "feed_order blt q desc x y" "feed_order blt q desc y z" for x y z
    using that by (auto simp: feed_order_def split: option.splits intro: ahead_trans)
  have ir: "\<not> feed_order blt q desc x x" for x
    by (auto simp: feed_order_def ahead_irrefl split: option.splits)
  have "d \<in> set ds" if "d \<in> M" "feed_order blt q desc ?b d" for d
  proof -
    from assms(2) consider "set ds = M"
      | w where "set ds = {d \<in> M. \<exists>k. d q = Some k \<and> ahead blt desc (bv w) k}" unfolding ahead_of_def by blast
    then show ?thesis
    proof cases
      case 1
      with that show ?thesis by simp
    next
      case (2 w)
      with b v have "ahead blt desc (bv w) (bv v)" by auto
      with that ord[of d] have "\<exists>j. d q = Some j \<and> ahead blt desc (bv w) j" by (auto intro: ahead_trans)
      with that(1) show ?thesis unfolding 2 by blast
    qed
  qed
  with sub have "{d \<in> M. feed_order blt q desc ?b d} = {d \<in> set ds. feed_order blt q desc ?b d}" by blast
  also have "\<dots> = set (drop (Suc (n - 1)) ds)"
    by (rule sorted_drop[OF assms(3) _ ir tr]) (use assms(5) in simp_all)
  finally have "{d \<in> M. feed_order blt q desc ?b d} = set (drop n ds)" using assms(4) by simp
  then have "set (drop n ds) = {d \<in> M. \<exists>j. d q = Some j \<and> ahead blt desc (bv v) j}" by (simp only: ord)
  with t(2) f b sub v show "ahead_of bv blt l q desc (cursor_token dec l q ?b) M (set (drop n ds))"
    unfolding ahead_of_def tok by blast
qed

lemma drain_complete:
  assumes "answers l" and "injectCond l ctx fo = Inr f0" and "distinct (map fst (opt_list fo))"
    and "fst ` set (opt_list fo) \<inter> injected_keys = {}" and "normalizeFeedCursorField l field = q"
    and "unique_cursor bv dec l q (feed_docs matches l ctx fo m)"
  shows "docs c = m \<Longrightarrow> ahead_of bv blt l q desc (PageToken p) (feed_docs matches l ctx fo m) R \<Longrightarrow>
    int (page_size p) + 1 < 2 ^ 63 \<Longrightarrow> card R div page_size p < n \<Longrightarrow>
    \<exists>ds c'. distinct ds \<and> set ds = R \<and> sorted_wrt (feed_order blt q desc) ds \<and> docs c' = m
      \<and> drain_feed n l ctx fo field desc p c = (Some (map dec ds), c')"
proof (induction n arbitrary: c p R)
  case (Suc n)
  let ?s = "page_size p"
  have s: "0 < ?s" by (auto simp: page_size_def)
  obtain ds input c' where ds: "distinct ds" "set ds = R" "sorted_wrt (feed_order blt q desc) ds" and c': "docs c' = docs c"
    and fq: "FeedQuery l ctx \<lparr>fq_Filter = fo, fq_Pager = Some p, fq_CursorField = field, fq_IsDescending = desc\<rparr> c =
      (Inr \<lparr>feed_Rows = map dec (take ?s ds),
            NextPageToken = if ?s < length ds then cursor_token dec l q (ds ! (?s - 1)) else []\<rparr>, input, c')"
    using feed_page[OF assms(1-5), of c desc p R] assms(6) Suc.prems(1-3) by metis
  show ?case
  proof (cases "?s < length ds")
    case False
    with fq ds c' Suc.prems(1) show ?thesis by (intro exI[of _ ds] exI[of _ c']) simp
  next
    case True
    let ?tok = "cursor_token dec l q (ds ! (?s - 1))"
    note next_page = ahead_after_page[OF assms(6) Suc.prems(2)[folded ds(2)] ds(3) s True]
    have card: "card (set (drop ?s ds)) = card R - ?s" using ds(1,2) distinct_card[of ds] distinct_card[of "drop ?s ds"] by auto
    have "length ds = card R" using ds distinct_card by fastforce
    then have "(card R - ?s) div ?s < n" using Suc.prems(4) True s by (simp add: le_div_geq)
    moreover have "page_size (p\<lparr>PageToken := ?tok\<rparr>) = ?s" by (simp add: page_size_def)
    ultimately obtain es c2 where es: "distinct es" "set es = set (drop ?s ds)" "sorted_wrt (feed_order blt q desc) es"
      "docs c2 = m" "drain_feed n l ctx fo field desc (p\<lparr>PageToken := ?tok\<rparr>) c' = (Some (map dec es), c2)"
      using Suc.IH[of c' "p\<lparr>PageToken := ?tok\<rparr>" "set (drop ?s ds)"] next_page(1) c' Suc.prems(1,3) card by auto
    have parts: "distinct (take ?s ds @ drop ?s ds)" "sorted_wrt (feed_order blt q desc) (take ?s ds @ drop ?s ds)"
      "set (take ?s ds @ drop ?s ds) = R" using ds by simp_all
    have "distinct (take ?s ds @ es)" using parts(1) es(1,2) unfolding distinct_append by metis
    moreover have "set (take ?s ds @ es) = R" using parts(3) es(2) unfolding set_append by metis
    moreover have "sorted_wrt (feed_order blt q desc) (take ?s ds @ es)"
      using parts(2) es(2,3) unfolding sorted_wrt_append by metis
    moreover have "drain_feed (Suc n) l ctx fo field desc p c = (Some (map dec (take ?s ds @ es)), c2)"
      using fq True next_page(2) es(5) by simp
    ultimately show ?thesis using es(4) by blast
  qed
qed simp

text \<open>Identifiers of the types \<open>IDType\<close> allows are such cursors.\<close>

lemma id_kinds: "id_of_type P v \<Longrightarrow> id_of_type P w \<Longrightarrow> same_kind (bv v) (bv w)"
  by (cases "(P, v)" rule: id_of_type.cases; cases w) (auto simp: bv_string bv_int bv_uint)

lemma ids_of_type:
  assumes "\<forall>k d. docs c k = Some d \<longrightarrow> id_of_type (lib_P l) (ent_ID (dec d))" and "docs c k = Some d"
  shows "bv (ent_ID (dec d)) = k" and "id_of_type (lib_P l) (ent_ID (dec d))"
  using assms dec_id[of d k] docs_plain[OF assms(2), of "''_id''" k] docs_id[OF assms(2)] by auto

lemma id_cursor:
  assumes "\<forall>k d. docs c k = Some d \<longrightarrow> id_of_type (lib_P l) (ent_ID (dec d))"
  shows "unique_cursor bv dec l ''_id'' (matching (docs c) P)"
  unfolding unique_cursor_def
proof (intro conjI ballI allI impI)
  fix d assume "d \<in> matching (docs c) P"
  then obtain k where k: "docs c k = Some d" by (auto simp: matching_def)
  note v = ids_of_type[OF assms k]
  show "cursor_row bv dec l ''_id'' d" unfolding cursor_row_def
    by (intro exI[of _ "Sprint (cls_conv (lib_cls l)) (ent_ID (dec d))"] exI[of _ "ent_ID (dec d)"])
      (simp add: feedCursorToken_def buildFeedCursorFilter_def id_key entity_GetID_def id_token_nonempty[OF v(2)]
        id_token_parsed[OF v(2)] v(1) docs_id[OF k])
next
  fix x y assume M: "x \<in> matching (docs c) P" "y \<in> matching (docs c) P"
  then obtain j k where jk: "docs c j = Some x" "docs c k = Some y" by (auto simp: matching_def)
  from jk docs_id[OF jk(1)] docs_id[OF jk(2)] show "x = y" if "x ''_id'' = y ''_id''" using that by simp
  fix a b assume "x ''_id'' = Some a" "y ''_id'' = Some b"
  then show "same_kind a b"
    using docs_id[OF jk(1)] docs_id[OF jk(2)] ids_of_type[OF assms jk(1)] ids_of_type[OF assms jk(2)] id_kinds by force
qed (simp add: top_key_def)

end

section \<open>Properties\<close>

text \<open>
  On a collection that nobody else writes and whose driver answers, a client that follows the page tokens of a
  feed over any cursor field with different values of one kind in the rows, whose tokens are parsed back to
  them, receives every visible document that matches its filter exactly once, in the order of the field.
\<close>

lemma feed_complete_cursor:
  assumes "repository bv enc dec matches blt upd l docs" and "answers l" and "has_subject l ctx"
    and "distinct (map fst (opt_list fo))" and "fst ` set (opt_list fo) \<inter> injected_keys = {}"
    and "normalizeFeedCursorField l field = q" and "unique_cursor bv dec l q (feed_docs matches l ctx fo (docs c))"
    and "int (page_size p) + 1 < 2 ^ 63" and "PageToken p = []"
    and "card (feed_docs matches l ctx fo (docs c)) div page_size p < n"
  shows "\<exists>ds c'. distinct ds \<and> set ds = feed_docs matches l ctx fo (docs c) \<and> sorted_wrt (feed_order blt q desc) ds
    \<and> docs c' = docs c \<and> drain_feed n l ctx fo field desc p c = (Some (map dec ds), c')"
proof -
  from assms(3) obtain f0 where f0: "injectCond l ctx fo = Inr f0" by (auto simp: injectCond_conds)
  have start: "ahead_of bv blt l q desc (PageToken p) (feed_docs matches l ctx fo (docs c)) (feed_docs matches l ctx fo (docs c))"
    using assms(9) by (simp add: ahead_of_def)
  show ?thesis by (rule repository.drain_complete[OF assms(1,2) f0 assms(4-7) refl start assms(8,10)])
qed

text \<open>
  C9. Feeds over the identifier are complete. On a collection that nobody else writes and whose driver answers, a client that
  follows the page tokens of a feed over the identifier receives every visible document that matches its
  filter exactly once, in strictly increasing or decreasing order of the identifiers, whatever
  the page size, within one call more than full pages fit into the result, and the last page says so. (A
  feed over a field whose values repeat can lose rows, \<open>feed_skips_equal_cursors\<close>.)
\<close>

theorem feed_complete:
  assumes "repository bv enc dec matches blt upd l docs" and "answers l" and "has_subject l ctx"
    and "distinct (map fst (opt_list fo))" and "fst ` set (opt_list fo) \<inter> injected_keys = {}"
    and "q \<in> {[], ''id'', ''_id''}" and "\<forall>k d. docs c k = Some d \<longrightarrow> id_of_type (lib_P l) (ent_ID (dec d))"
    and "int (page_size p) + 1 < 2 ^ 63" and "PageToken p = []"
    and "card (feed_docs matches l ctx fo (docs c)) div page_size p < n"
  shows "\<exists>ds c'. distinct ds \<and> set ds = feed_docs matches l ctx fo (docs c) \<and> sorted_wrt (feed_order blt ''_id'' desc) ds
    \<and> docs c' = docs c \<and> drain_feed n l ctx fo q desc p c = (Some (map dec ds), c')"
proof -
  have k: "normalizeFeedCursorField l q = ''_id''"
    using assms(6) repository.id_key[OF assms(1)] by (auto simp: normalizeFeedCursorField_def)
  have u: "unique_cursor bv dec l ''_id'' (feed_docs matches l ctx fo (docs c))"
    unfolding feed_docs_def by (rule repository.id_cursor[OF assms(1,7)])
  show ?thesis by (rule feed_complete_cursor[OF assms(1-5) k u assms(8-10)])
qed

text \<open>
  A page token names its identifier: for every identifier type, parsing the token the repository
  prints for an identifier gives that identifier back, and the token is never empty.
\<close>

theorem feed_token_roundtrip:
  assumes "id_of_type (lib_P l) (ent_ID row)" and "lib_idKey l = ''_id''"
  shows "\<exists>tok. feedCursorToken l row ''_id'' = Inr tok \<and> tok \<noteq> []
    \<and> buildFeedCursorFilter l ''_id'' tok desc = Inr [(''_id'', if desc then CLt (ent_ID row) else CGt (ent_ID row))]"
  using id_token_nonempty[OF assms(1)] id_token_parsed[OF assms(1)] assms(2)
  by (simp add: feedCursorToken_def buildFeedCursorFilter_def entity_GetID_def)

section \<open>Examples\<close>

lemma demo_docs_cases:
  "repo_docs demo_docs k = Some d \<Longrightarrow> d = mem_enc (demo_doc ''1'' ''red'' 5000000) \<or> d = mem_enc (demo_doc ''2'' ''blue'' 5000000)"
  by (simp add: repo_docs_def) (auto simp: demo_docs_def split: if_splits)

lemma demo_feed_docs:
  "feed_docs mem_match demo_repo (demo_rctx ''red'') None (repo_docs demo_docs) = {mem_enc (demo_doc ''1'' ''red'' 5000000)}"
proof (rule set_eqI)
  fix d
  have "d \<in> feed_docs mem_match demo_repo (demo_rctx ''red'') None (repo_docs demo_docs) \<longleftrightarrow>
      (\<exists>k. repo_docs demo_docs k = Some d) \<and> visible demo_repo (demo_rctx ''red'') d"
    by (auto simp: feed_docs_def matching_def opt_list_def mem_match_def)
  also have "\<dots> \<longleftrightarrow> d = mem_enc (demo_doc ''1'' ''red'' 5000000)"
  proof
    assume v: "(\<exists>k. repo_docs demo_docs k = Some d) \<and> visible demo_repo (demo_rctx ''red'') d"
    then consider "d = mem_enc (demo_doc ''1'' ''red'' 5000000)" | "d = mem_enc (demo_doc ''2'' ''blue'' 5000000)"
      using demo_docs_cases by blast
    then show "d = mem_enc (demo_doc ''1'' ''red'' 5000000)" using v by cases simp_all
  next
    assume "d = mem_enc (demo_doc ''1'' ''red'' 5000000)"
    then show "(\<exists>k. repo_docs demo_docs k = Some d) \<and> visible demo_repo (demo_rctx ''red'') d"
      using demo_visible[of "''red''" "''1''" "''red''" 5000000] demo_found(1) by blast
  qed
  finally show "d \<in> feed_docs mem_match demo_repo (demo_rctx ''red'') None (repo_docs demo_docs) \<longleftrightarrow>
      d \<in> {mem_enc (demo_doc ''1'' ''red'' 5000000)}" by simp
qed

theorem feed_complete_witness:
  "\<exists>c. drain_feed 2 demo_repo (demo_rctx ''red'') None ''id'' True \<lparr>PageSize = 1, PageNum = 0, PageToken = []\<rparr> demo_docs =
     (Some [mem_dec (demo_doc [] [] zero_time) (mem_enc (demo_doc ''1'' ''red'' 5000000))], c)"
proof -
  let ?p = "\<lparr>PageSize = 1, PageNum = 0, PageToken = []\<rparr>" and ?d = "mem_enc (demo_doc ''1'' ''red'' 5000000)"
  have a: "answers demo_repo" by (simp add: answers_def mem_collection_def mem_Find_def)
  have s: "has_subject demo_repo (demo_rctx ''red'')" by (simp add: has_subject_def)
  have P: "lib_P demo_repo = TyString" by (simp add: demo_repo_def mem_lib_def)
  have i: "\<forall>k d. repo_docs demo_docs k = Some d \<longrightarrow> id_of_type (lib_P demo_repo) (ent_ID (mem_dec (demo_doc [] [] zero_time) d))"
    by (auto dest!: demo_docs_cases simp: P mem_dec_def)
  from feed_complete[OF demo_repository a s _ _ _ i, of None "''id''" ?p 2 True]
  obtain ds c where "distinct ds" "set ds = {?d}"
    "drain_feed 2 demo_repo (demo_rctx ''red'') None ''id'' True ?p demo_docs = (Some (map (mem_dec (demo_doc [] [] zero_time)) ds), c)"
    by (auto simp: demo_feed_docs page_size_def opt_list_def)
  moreover from this(1,2) have "ds = [?d]" by (cases ds; cases "tl ds") auto
  ultimately show ?thesis by auto
qed

theorem feed_token_roundtrip_witness:
  "feedCursorToken demo_repo (demo_doc ''1'' ''red'' 5000000) ''_id'' = Inr ''1''
   \<and> buildFeedCursorFilter demo_repo ''_id'' ''1'' False = Inr [(''_id'', CGt (GString ''1''))]"
proof -
  have "id_of_type (lib_P demo_repo) (ent_ID (demo_doc ''1'' ''red'' 5000000))" by (simp add: demo_repo_def mem_lib_def)
  from feed_token_roundtrip[OF this, of False] show ?thesis by (auto simp: feedCursorToken_def entity_GetID_def)
qed

section \<open>Other cursors\<close>

text \<open>
  A cursor field with equal values at a page boundary loses rows: the next page asks for values beyond
  the last one. Of two documents of one creator, one row to a page, the second is never delivered.
\<close>

definition twin_docs :: "bdoc list" where
  "twin_docs = [mem_enc (demo_doc ''1'' ''red'' 5000000), mem_enc (demo_doc ''2'' ''red'' 5000000)]"

definition twin_repo :: "bdoc list CollectionLib" where
  "twin_repo = demo_repo\<lparr>lib_T := TyStruct ''doc'' [(fld ''CreatedBy'' ''created_by,omitempty'', TyString)]\<rparr>"

lemma twin_shape [simp]:
  "ent_create (lib_zero twin_repo) \<noteq> None" "ent_delete (lib_zero twin_repo) \<noteq> None" "ent_tenant (lib_zero twin_repo) \<noteq> None"
  "lib_idKey twin_repo = ''_id''" "lib_cls twin_repo = mem_collection (demo_doc [] [] zero_time)"
  "GetMergedRepoOpt twin_repo (demo_rctx t) = zero_RepoOpt\<lparr>DataIsolation := DataIsolationTenant\<rparr>"
  using demo_repo_opt[of t] by (simp_all add: twin_repo_def GetMergedRepoOpt_def)

lemma parsed_names [simp]:
  "parseBSONFieldName (fld n ''_id,omitempty'') = (''_id'', False, False)"
  "parseBSONFieldName (fld n ''created_at,omitempty'') = (''created_at'', False, False)"
  "parseBSONFieldName (fld n ''created_by,omitempty'') = (''created_by'', False, False)"
  "parseBSONFieldName (fld n ''inline'') = (''inline'', True, False)"
  using Split_Join[of "[''_id'', ''omitempty'']" "CHR '',''"] Split_Join[of "[''created_at'', ''omitempty'']" "CHR '',''"]
    Split_Join[of "[''created_by'', ''omitempty'']" "CHR '',''"] Split_Join[of "[''inline'']" "CHR '',''"]
  by (simp_all add: parseBSONFieldName_def raw_bson_name_def fld_def Join_def Let_def del: Split.simps)

lemma twin_live: "live twin_docs = twin_docs"
  by (simp add: twin_docs_def)

lemma twin_conds:
  "injectCond twin_repo (demo_rctx ''red'') None =
     Inr [(''tenant_id'', CEq (GString ''red'')), (''deleted_at'', CExists False)]"
  by (simp add: injectCond_def injectIsolationCond_def injectSoftDeleteCond_def zero_RepoOpt_def)

lemma feed_skips_equal_cursors:
  "fst (drain_feed 2 twin_repo (demo_rctx ''red'') None ''created_by'' False \<lparr>PageSize = 1, PageNum = 0, PageToken = []\<rparr> twin_docs) =
     Some [mem_dec (demo_doc [] [] zero_time) (mem_enc (demo_doc ''1'' ''red'' 5000000))]"
proof -
  let ?f0 = "[(''tenant_id'', CEq (GString ''red'')), (''deleted_at'', CExists False)]"
  let ?z = "demo_doc [] [] zero_time" and ?row = "mem_dec (demo_doc [] [] zero_time) (mem_enc (demo_doc ''1'' ''red'' 5000000))"
  let ?in = "\<lambda>tok. \<lparr>fq_Filter = None, fq_Pager = Some \<lparr>PageSize = 1, PageNum = 0, PageToken = tok\<rparr>, fq_CursorField = ''created_by'', fq_IsDescending = False\<rparr>"
  have key: "normalizeFeedCursorField twin_repo ''created_by'' = ''created_by''" by (simp add: normalizeFeedCursorField_def)
  have f0: "found twin_docs ?f0 = twin_docs"
    by (simp add: found_def twin_live) (simp add: twin_docs_def mem_match_def)
  have f1: "found twin_docs [(''$and'', CAnd [?f0, [(''created_by'', CGt (GString ''ann''))]])] = []"
    by (simp add: found_def twin_live) (simp add: twin_docs_def mem_match_def mem_blt_def)
  have o: "order_docs [(''created_by'', 1)] twin_docs = twin_docs"
    by (simp add: order_docs_def twin_docs_def)
  have val: "findBSONFieldValue (entity_struct ?row) ''created_by'' = Some (GString ''ann'')"
    by (simp add: entity_struct_def base_struct_def mem_dec_def Let_def str_field_def)
  have tok: "feedCursorToken twin_repo ?row ''created_by'' = Inr ''ann''"
    using val by (simp add: feedCursorToken_def token_of_value_def)
  have p1: "FeedQuery twin_repo (demo_rctx ''red'') (?in []) twin_docs =
      (Inr \<lparr>feed_Rows = [?row], NextPageToken = ''ann''\<rparr>, ?in []\<lparr>fq_Filter := Some ?f0\<rparr>, twin_docs)"
    using tok o by (simp add: FeedQuery_def GetPageInfo_def key twin_conds feed_filter_def mem_collection_def mem_Find_def
        f0 window_def no_opts_def feedSortOrder_def int64_def Let_def) (simp add: twin_docs_def)
  have c2: "feed_filter twin_repo ''created_by'' ''ann'' False ?f0 =
      Inr [(''$and'', CAnd [?f0, [(''created_by'', CGt (GString ''ann''))]])]"
    by (simp add: feed_filter_def buildFeedCursorFilter_def parseFeedCursorToken_def twin_repo_def parseFeedTokenByType_def
        mergeFeedFilter_def)
  have p2: "FeedQuery twin_repo (demo_rctx ''red'') (?in ''ann'') twin_docs =
      (Inr \<lparr>feed_Rows = [], NextPageToken = []\<rparr>,
       ?in ''ann''\<lparr>fq_Filter := Some [(''$and'', CAnd [?f0, [(''created_by'', CGt (GString ''ann''))]])]\<rparr>, twin_docs)"
    by (simp add: FeedQuery_def GetPageInfo_def key twin_conds c2 mem_collection_def mem_Find_def
        f1 window_def no_opts_def feedSortOrder_def order_docs_def Let_def)
  show ?thesis by (simp add: eval_nat_numeral p1 p2)
qed

end
