(* ===== verification/Mongox_Concurrent.thy ===== *)
theory Mongox_Concurrent
  imports Mongox_Lock "HOL-Library.Sublist"
begin

text \<open>
  Any number of clients read, modify and update one document at the same time. An \<open>Update\<close> of
  \<open>model/mongox/mongox.go\<close> is two calls of the driver: the conditional replacement, and, when nothing matched, a
  count that chooses the error. Other clients act between a read, the replacement and the count.

  Lemmas: the two parts make up \<open>commonReplace\<close>; whatever the interleaving, the document is the result of the
  accepted modifications, applied one after the other, each to the document its predecessor left.
\<close>

section \<open>The two calls of a replacement\<close>

definition commonReplace_send ::
    "'c CollectionLib \<Rightarrow> repo_ctx \<Rightarrow> clock \<Rightarrow> doc \<Rightarrow> bool \<Rightarrow> 'c \<Rightarrow> (doc result + bfilter) \<times> doc \<times> 'c" where
  "commonReplace_send l ctx clk doc isUpsert c =
     (case auditAndBuildReplaceFilter l ctx clk doc isUpsert of
        (Inl err, doc) \<Rightarrow> (Inl (Inl err), doc, c)
      | (Inr filter1, doc) \<Rightarrow>
          (case cls_ReplaceOne (lib_cls l) c filter1 doc isUpsert of
             (Inl err, c) \<Rightarrow>
               if cls_IsDuplicateKeyError (lib_cls l) err
               then (Inl (Inl (NewResourceConflictError (resourceByDoc l doc) None)), doc, c)
               else (Inl (Inl (WrapError ''create doc failed: '' err [])), doc, c)
           | (Inr (matched, modified, upserted), c) \<Rightarrow>
               if isUpsert \<and> upserted > 0 then (Inl (Inr doc), doc, c)
               else if matched = 0 then (Inr (AList.delete ''updated_at'' filter1), doc, c)
               else if map_of filter1 ''updated_at'' \<noteq> None \<and> modified = 0
               then (Inl (Inl (NewResourceError ErrCodeConflict ''optimistic locking failed''
                                (resourceByFilter l filter1) None)), doc, c)
               else (Inl (Inr doc), doc, c)))"

definition commonReplace_check :: "'c CollectionLib \<Rightarrow> bfilter \<Rightarrow> 'c \<Rightarrow> go_error \<times> 'c" where
  "commonReplace_check l filter2 c =
     (case cls_CountDocuments (lib_cls l) c filter2 of
        (Inl err, c) \<Rightarrow> (WrapError ''check id failed: '' err [], c)
      | (Inr cnt, c) \<Rightarrow>
          (if cnt > 0
           then NewResourceError ErrCodeConflict ''data is modified by other'' (resourceByFilter l filter2) None
           else NewResourceNotFoundError (resourceByFilter l filter2) None, c))"

lemma commonReplace_parts:
  "commonReplace l ctx clk doc isUpsert c =
     (case commonReplace_send l ctx clk doc isUpsert c of
        (Inl r, doc, c) \<Rightarrow> (r, doc, c)
      | (Inr filter2, doc, c) \<Rightarrow> (case commonReplace_check l filter2 c of (err, c) \<Rightarrow> (Inl err, doc, c)))"
  by (auto simp: commonReplace_def commonReplace_send_def commonReplace_check_def Let_def
      split: prod.splits sum.splits if_splits)

section \<open>Clients\<close>

text \<open>A client holds nothing, an entity it has read, or an unmatched replacement to be explained.\<close>

datatype client = Idle | Holding doc | Checking bfilter

text \<open>
  A modification that took effect: who made it, what it did to the entity, its context and its time. Driver
  failures can hide a replacement that was executed.
\<close>

record change =
  ch_client :: nat
  ch_modify :: "doc \<Rightarrow> doc"
  ch_ctx :: repo_ctx
  ch_time :: time

text \<open>The changes, latest first, applied one after the other to the document \<open>d0\<close>.\<close>

fun applied :: "(doc \<Rightarrow> bdoc) \<Rightarrow> (bdoc \<Rightarrow> doc) \<Rightarrow> bdoc \<Rightarrow> change list \<Rightarrow> bdoc" where
  "applied enc dec d0 [] = d0"
| "applied enc dec d0 (x # xs) = enc (stamped (ch_ctx x) (ch_time x) (ch_modify x (dec (applied enc dec d0 xs))))"

text \<open>The versions the document has had.\<close>

definition versions :: "(doc \<Rightarrow> bdoc) \<Rightarrow> (bdoc \<Rightarrow> doc) \<Rightarrow> bdoc \<Rightarrow> change list \<Rightarrow> bson option set" where
  "versions enc dec d0 xs = (\<lambda>ys. applied enc dec d0 ys ''updated_at'') ` {ys. suffix ys xs}"

text \<open>What the zero time of Go would be as a date; a time in its millisecond does not survive decoding as a time.\<close>

definition zero_date :: bson where
  "zero_date = BDate (zero_time div Millisecond)"

text \<open>The update time of \<open>e\<close> is a version the document has not had.\<close>

definition new_version :: "(doc \<Rightarrow> bdoc) \<Rightarrow> (bdoc \<Rightarrow> doc) \<Rightarrow> bdoc \<Rightarrow> change list \<Rightarrow> doc \<Rightarrow> bool" where
  "new_version enc dec d0 xs e \<longleftrightarrow> version e \<noteq> None \<and> enc e ''updated_at'' \<notin> insert (Some zero_date) (versions enc dec d0 xs)"

text \<open>The collection, the clients, and two records of what happened: the changes, and those confirmed to their client.\<close>

record 'c repo_system =
  rs_coll :: 'c
  rs_client :: "nat \<Rightarrow> client"
  rs_changes :: "change list"
  rs_confirmed :: "change list"

text \<open>A modification leaves identifier and audit of the entity alone.\<close>

definition plain_change :: "go_val \<Rightarrow> (doc \<Rightarrow> doc) \<Rightarrow> doc \<Rightarrow> bool" where
  "plain_change i f e \<longleftrightarrow> ent_ID (f e) = i \<and> ent_update (f e) = ent_update e"

text \<open>
  One step of the system around the document with identifier \<open>i\<close>. Clocks give every update a new version; foreign
  steps do not touch the document.
\<close>

inductive rmw_step ::
    "(doc \<Rightarrow> bdoc) \<Rightarrow> (bdoc \<Rightarrow> doc) \<Rightarrow> ('c \<Rightarrow> bdoc option) \<Rightarrow> 'c CollectionLib \<Rightarrow> go_val \<Rightarrow> bdoc \<Rightarrow> 'c repo_system \<Rightarrow> 'c repo_system \<Rightarrow> bool"
  for enc :: "doc \<Rightarrow> bdoc" and dec :: "bdoc \<Rightarrow> doc" and doc_of :: "'c \<Rightarrow> bdoc option" and l :: "'c CollectionLib"
    and i :: go_val and d0 :: bdoc where
  rmw_read: "repo_Get l ctx i (rs_coll s) = (Inr e, c') \<Longrightarrow>
    rmw_step enc dec doc_of l i d0 s (s\<lparr>rs_coll := c', rs_client := (rs_client s)(n := Holding e)\<rparr>)"
| rmw_read_failed: "repo_Get l ctx i (rs_coll s) = (Inl err, c') \<Longrightarrow>
    rmw_step enc dec doc_of l i d0 s (s\<lparr>rs_coll := c', rs_client := (rs_client s)(n := Idle)\<rparr>)"
| rmw_send: "rs_client s n = Holding e \<Longrightarrow> plain_change i f e \<Longrightarrow>
    x = \<lparr>ch_client = n, ch_modify = f, ch_ctx = ctx, ch_time = clk 0\<rparr> \<Longrightarrow>
    commonReplace_send l ctx clk (f e) False (rs_coll s) = (r, e', c') \<Longrightarrow>
    new_version enc dec d0 (rs_changes s) (stamped ctx (clk 0) (f e)) \<Longrightarrow>
    rmw_step enc dec doc_of l i d0 s
      (s\<lparr>rs_coll := c', rs_client := (rs_client s)(n := (case r of Inl r' \<Rightarrow> Idle | Inr f2 \<Rightarrow> Checking f2)),
         rs_changes := (if doc_of c' = doc_of (rs_coll s) then rs_changes s else x # rs_changes s),
         rs_confirmed := (case r of Inl (Inr y) \<Rightarrow> x # rs_confirmed s | _ \<Rightarrow> rs_confirmed s)\<rparr>)"
| rmw_check: "rs_client s n = Checking f2 \<Longrightarrow> commonReplace_check l f2 (rs_coll s) = (err, c') \<Longrightarrow>
    rmw_step enc dec doc_of l i d0 s (s\<lparr>rs_coll := c', rs_client := (rs_client s)(n := Idle)\<rparr>)"
| rmw_foreign: "doc_of c' = doc_of (rs_coll s) \<Longrightarrow>
    rmw_step enc dec doc_of l i d0 s (s\<lparr>rs_coll := c'\<rparr>)"

definition rmw_start :: "'c \<Rightarrow> 'c repo_system" where
  "rmw_start c = \<lparr>rs_coll = c, rs_client = \<lambda>n. Idle, rs_changes = [], rs_confirmed = []\<rparr>"

abbreviation rmw_reach where
  "rmw_reach enc dec doc_of l i d0 \<equiv> (rmw_step enc dec doc_of l i d0)\<^sup>*\<^sup>*"

section \<open>Decoding versions\<close>

text \<open>Two update audits of one type.\<close>

fun same_clock :: "UpdateAuditor \<Rightarrow> UpdateAuditor \<Rightarrow> bool" where
  "same_clock (AUpdate a) (AUpdate b) = True"
| "same_clock (AUpdateMs a) (AUpdateMs b) = True"
| "same_clock a b = False"

text \<open>A repository whose driver decodes an update time of the type of the entity to one that encodes to the same value.\<close>

locale versioned_repository = repository bv enc dec matches blt upd l docs
  for bv enc dec matches blt upd and l :: "'c CollectionLib" and docs :: "'c \<Rightarrow> bson \<Rightarrow> bdoc option" +
  assumes dec_updated: "ent_update (lib_zero l) = Some ua \<Longrightarrow> same_clock ua ub \<Longrightarrow>
    d ''updated_at'' = stamp_of (GetUpdateTimeRaw ub) \<Longrightarrow> d ''updated_at'' \<notin> {None, Some zero_date} \<Longrightarrow>
    \<exists>uc. ent_update (dec d) = Some uc \<and> same_clock ua uc \<and> stamp_of (GetUpdateTimeRaw uc) = d ''updated_at''"

text \<open>A document with an update time of the type of \<open>ua\<close>.\<close>

definition versioned :: "UpdateAuditor \<Rightarrow> bdoc \<Rightarrow> bool" where
  "versioned ua d \<longleftrightarrow> d ''updated_at'' \<noteq> Some zero_date \<and> (\<exists>ub. same_clock ua ub \<and> \<not> IsZero (snd (GetUpdateInfo ub)) \<and> d ''updated_at'' = stamp_of (GetUpdateTimeRaw ub))"

lemma stamp_kept:
  assumes "same_clock ua ub" and "same_clock ua uc" and "\<not> IsZero (snd (GetUpdateInfo ub))"
    and "stamp_of (GetUpdateTimeRaw uc) = stamp_of (GetUpdateTimeRaw ub)"
  shows "\<not> IsZero (snd (GetUpdateInfo uc)) \<and> stamp_of (GetUpdateTimeRaw ub) \<noteq> None"
  using assms
  by (cases ua; cases ub; cases uc) (auto simp: audit_defs stamp_of_def IsZero_def split: if_splits)

context versioned_repository
begin

lemma dec_version:
  assumes "ent_update (lib_zero l) = Some ua" and "versioned ua d"
  shows "\<exists>raw uc. version (dec d) = Some raw \<and> d ''updated_at'' = Some (bv (raw_val raw))
    \<and> ent_update (dec d) = Some uc \<and> same_clock ua uc"
proof -
  from assms(2) obtain ub where ub: "same_clock ua ub" "\<not> IsZero (snd (GetUpdateInfo ub))"
    "d ''updated_at'' = stamp_of (GetUpdateTimeRaw ub)" by (auto simp: versioned_def)
  then have "d ''updated_at'' \<notin> {None, Some zero_date}" using stamp_kept[OF ub(1,1,2)] assms(2) by (simp add: versioned_def)
  from dec_updated[where d = d, OF assms(1) ub(1,3) this] obtain uc where uc: "ent_update (dec d) = Some uc" "same_clock ua uc"
    "stamp_of (GetUpdateTimeRaw uc) = d ''updated_at''" by auto
  from stamp_kept[OF ub(1) uc(2) ub(2)] uc(3) ub(3) have nz: "\<not> IsZero (snd (GetUpdateInfo uc))" "d ''updated_at'' \<noteq> None" by simp_all
  have "d ''updated_at'' = Some (bv (raw_val (GetUpdateTimeRaw uc)))"
    using nz(2) uc(3) by (cases "GetUpdateTimeRaw uc") (auto simp: stamp_of_def raw_val_def bv_time bv_int split: if_splits)
  with nz uc show ?thesis by (simp add: version_def)
qed

lemma stamped_versioned:
  assumes "ent_update e = Some uc" and "same_clock ua uc" and "version (stamped ctx t e) \<noteq> None"
    and "enc (stamped ctx t e) ''updated_at'' \<noteq> Some zero_date"
  shows "versioned ua (enc (stamped ctx t e))"
proof -
  let ?u = "SetUpdater t (the (CtxGetOperator ctx)) uc"
  have u: "ent_update (stamped ctx t e) = Some ?u" using assms(1) by (simp add: stamped_def)
  have "same_clock ua ?u" using assms(2) by (cases ua; cases uc) simp_all
  with assms(3,4) u enc_updated_at[OF u] show ?thesis by (auto simp: versioned_def version_def split: if_splits)
qed

end

context repository
begin

lemma send_effect:
  assumes "commonReplace_send l ctx clk g False c = (r, e', c')" and "proper_id (ent_ID g)"
  shows "(docs c' = docs c \<and> (\<forall>y. r \<noteq> Inl (Inr y)))
    \<or> (\<exists>d. docs c (bv (ent_ID g)) = Some d \<and> current bv l ctx g d
        \<and> docs c' = (docs c)(bv (ent_ID g) \<mapsto> enc (stamped ctx (clk 0) g)))"
proof (cases "may_update l ctx g")
  case False
  obtain err e1 where b: "baseUpdateOp l ctx clk g = (Inl err, e1)" by (rule base_refused[OF False])
  show ?thesis using assms(1)
    by (auto simp: commonReplace_send_def auditAndBuildReplaceFilter_def b)
next
  case True
  obtain f where i: "injectCond l ctx (Some (lock_filter g)) = Inr f"
    and b: "baseUpdateOp l ctx clk g = (Inr f, stamped ctx (clk 0) g)" by (rule Update_filter[OF True])
  let ?e = "stamped ctx (clk 0) g" and ?k = "bv (ent_ID g)"
  have nz: "\<not> go_IsZero (ent_ID ?e)" using proper_id_nonzero[OF assms(2)] by simp
  obtain r1 c1 where rp: "cls_ReplaceOne (lib_cls l) c f ?e False = (r1, c1)" by fastforce
  have cur: "current bv l ctx g d" if "docs c ?k = Some d" "matches f d" for d
    using matches_lock[OF i that(1) assms(2)] that(2) by simp
  show ?thesis
  proof (cases r1)
    case (Inl err)
    with assms(1) b rp have "c' = c1" "\<And>y. r \<noteq> Inl (Inr y)"
      by (auto simp: commonReplace_send_def auditAndBuildReplaceFilter_def split: if_splits)
    with ReplaceOne_failed[OF rp[unfolded Inl] nz] cur show ?thesis by auto
  next
    case (Inr x)
    obtain n m j where x: "x = (n, m, j)" by (cases x)
    show ?thesis
    proof (cases "n = 0")
      case True
      with assms(1) b rp Inr x have "c' = c1" "\<And>y. r \<noteq> Inl (Inr y)"
        by (auto simp: commonReplace_send_def auditAndBuildReplaceFilter_def)
      with ReplaceOne_none[of c f ?e False m j c1] rp Inr x True nz show ?thesis by simp
    next
      case False
      with assms(1) b rp Inr x have "c' = c1"
        by (auto simp: commonReplace_send_def auditAndBuildReplaceFilter_def split: if_splits)
      with ReplaceOne_matched[OF rp[unfolded Inr x] False nz] cur show ?thesis by auto
    qed
  qed
qed

lemma check_effect: "commonReplace_check l f2 c = (err, c') \<Longrightarrow> docs c' = docs c"
  by (auto simp: commonReplace_check_def split: prod.splits sum.splits if_splits dest: Count_docs)

lemma Get_same:
  assumes "repo_Get l ctx i c = (r, c')" and "proper_id i"
  shows "docs c' = docs c \<and> (\<forall>e. r = Inr e \<longrightarrow> (\<exists>d. docs c (bv i) = Some d \<and> e = dec d))"
proof (cases "has_subject l ctx")
  case True
  from Get_result[OF assms True] show ?thesis by blast
next
  case False
  then obtain err where "injectCond l ctx (Some [(lib_idKey l, CEq i)]) = Inl err"
    using injectCond_conds[of l ctx "Some [(lib_idKey l, CEq i)]"]
    by (cases "injectCond l ctx (Some [(lib_idKey l, CEq i)])") auto
  with assms(1) show ?thesis by (auto simp: repo_Get_def GetByFilter_def)
qed

end

section \<open>The invariant\<close>

definition rmw_inv ::
    "(doc \<Rightarrow> bdoc) \<Rightarrow> (bdoc \<Rightarrow> doc) \<Rightarrow> ('c \<Rightarrow> bdoc option) \<Rightarrow> UpdateAuditor \<Rightarrow> bdoc \<Rightarrow> 'c repo_system \<Rightarrow> bool" where
  "rmw_inv enc dec doc_of ua d0 s \<longleftrightarrow>
     (let at = applied enc dec d0; xs = rs_changes s in
      doc_of (rs_coll s) = Some (at xs)
      \<and> (\<forall>ys. suffix ys xs \<longrightarrow> versioned ua (at ys))
      \<and> (\<forall>ys zs. suffix ys xs \<longrightarrow> suffix zs xs \<longrightarrow> at ys ''updated_at'' = at zs ''updated_at'' \<longrightarrow> ys = zs)
      \<and> (\<forall>n e. rs_client s n = Holding e \<longrightarrow> (\<exists>ys. suffix ys xs \<and> e = dec (at ys)))
      \<and> subseq (rs_confirmed s) xs)"

lemma rmw_invI:
  assumes "doc_of (rs_coll s) = Some (applied enc dec d0 (rs_changes s))"
    and "\<And>ys. suffix ys (rs_changes s) \<Longrightarrow> versioned ua (applied enc dec d0 ys)"
    and "\<And>ys zs. suffix ys (rs_changes s) \<Longrightarrow> suffix zs (rs_changes s) \<Longrightarrow>
      applied enc dec d0 ys ''updated_at'' = applied enc dec d0 zs ''updated_at'' \<Longrightarrow> ys = zs"
    and "\<And>n e. rs_client s n = Holding e \<Longrightarrow> \<exists>ys. suffix ys (rs_changes s) \<and> e = dec (applied enc dec d0 ys)"
    and "subseq (rs_confirmed s) (rs_changes s)"
  shows "rmw_inv enc dec doc_of ua d0 s"
  using assms unfolding rmw_inv_def Let_def by blast

lemma rmw_invD:
  assumes "rmw_inv enc dec doc_of ua d0 s"
  shows "doc_of (rs_coll s) = Some (applied enc dec d0 (rs_changes s))"
    and "suffix ys (rs_changes s) \<Longrightarrow> versioned ua (applied enc dec d0 ys)"
    and "suffix ys (rs_changes s) \<Longrightarrow> suffix zs (rs_changes s) \<Longrightarrow>
      applied enc dec d0 ys ''updated_at'' = applied enc dec d0 zs ''updated_at'' \<Longrightarrow> ys = zs"
    and "rs_client s n = Holding e \<Longrightarrow> \<exists>ys. suffix ys (rs_changes s) \<and> e = dec (applied enc dec d0 ys)"
    and "subseq (rs_confirmed s) (rs_changes s)"
  using assms unfolding rmw_inv_def Let_def by blast+

text \<open>Steps that leave the document, the changes and the confirmations alone.\<close>

lemma rmw_inv_quiet:
  assumes "rmw_inv enc dec doc_of ua d0 s" and "doc_of (rs_coll s') = doc_of (rs_coll s)"
    and "rs_changes s' = rs_changes s" and "rs_confirmed s' = rs_confirmed s"
    and "\<And>n e. rs_client s' n = Holding e \<Longrightarrow> rs_client s n = Holding e \<or> e = dec (applied enc dec d0 (rs_changes s))"
  shows "rmw_inv enc dec doc_of ua d0 s'"
proof (rule rmw_invI)
  fix n e assume "rs_client s' n = Holding e"
  from assms(5)[OF this] show "\<exists>ys. suffix ys (rs_changes s') \<and> e = dec (applied enc dec d0 ys)"
    using rmw_invD(4)[OF assms(1), of n e] assms(3) by auto
qed (use rmw_invD[OF assms(1)] assms in simp_all)

text \<open>A change that took effect.\<close>

lemma rmw_inv_change:
  assumes "rmw_inv enc dec doc_of ua d0 s" and "doc_of (rs_coll s') = Some (applied enc dec d0 (x # rs_changes s))"
    and "rs_changes s' = x # rs_changes s" and "subseq (rs_confirmed s') (rs_changes s')"
    and "\<And>n e. rs_client s' n = Holding e \<Longrightarrow> rs_client s n = Holding e"
    and "versioned ua (applied enc dec d0 (x # rs_changes s))"
    and "applied enc dec d0 (x # rs_changes s) ''updated_at'' \<notin> versions enc dec d0 (rs_changes s)"
  shows "rmw_inv enc dec doc_of ua d0 s'"
proof (rule rmw_invI)
  have new: "applied enc dec d0 (x # rs_changes s) ''updated_at'' \<noteq> applied enc dec d0 ys ''updated_at''"
    if "suffix ys (rs_changes s)" for ys using that assms(7) by (auto simp: versions_def)
  fix ys zs assume "suffix ys (rs_changes s')" "suffix zs (rs_changes s')"
    and eq: "applied enc dec d0 ys ''updated_at'' = applied enc dec d0 zs ''updated_at''"
  then have "ys = x # rs_changes s \<or> suffix ys (rs_changes s)" "zs = x # rs_changes s \<or> suffix zs (rs_changes s)"
    by (auto simp: assms(3) suffix_Cons)
  with eq new[of ys] new[of zs] rmw_invD(3)[OF assms(1), of ys zs] show "ys = zs" by metis
next
  fix ys assume "suffix ys (rs_changes s')"
  then show "versioned ua (applied enc dec d0 ys)"
    using assms(6) rmw_invD(2)[OF assms(1)] by (auto simp: assms(3) suffix_Cons)
next
  fix n e assume "rs_client s' n = Holding e"
  from rmw_invD(4)[OF assms(1) assms(5)[OF this]] show "\<exists>ys. suffix ys (rs_changes s') \<and> e = dec (applied enc dec d0 ys)"
    by (auto simp: assms(3) suffix_Cons)
qed (use assms in simp_all)

context versioned_repository
begin

abbreviation at_id where "at_id i \<equiv> \<lambda>c. docs c (bv i)"

lemma rmw_preserved:
  assumes "rmw_step enc dec (at_id i) l i d0 s s'" and "rmw_inv enc dec (at_id i) ua d0 s"
    and "proper_id i" and "ent_update (lib_zero l) = Some ua"
  shows "rmw_inv enc dec (at_id i) ua d0 s'"
  using assms(1)
proof cases
  case (rmw_read ctx e c' n)
  from Get_same[OF rmw_read(2) assms(3)] rmw_invD(1)[OF assms(2)] show ?thesis unfolding rmw_read(1)
    by (intro rmw_inv_quiet[OF assms(2)]) (auto split: if_splits)
next
  case (rmw_read_failed ctx err c' n)
  from Get_same[OF rmw_read_failed(2) assms(3)] show ?thesis unfolding rmw_read_failed(1)
    by (intro rmw_inv_quiet[OF assms(2)]) (auto split: if_splits)
next
  case (rmw_check n f2 err c')
  from check_effect[OF rmw_check(3)] show ?thesis unfolding rmw_check(1)
    by (intro rmw_inv_quiet[OF assms(2)]) (auto split: if_splits)
next
  case (rmw_foreign c')
  then show ?thesis by (intro rmw_inv_quiet[OF assms(2)]) auto
next
  case (rmw_send n e f x ctx clk r e' c')
  let ?xs = "rs_changes s" and ?g = "f e"
  have g: "ent_ID ?g = i" "ent_update ?g = ent_update e" using rmw_send(3) by (simp_all add: plain_change_def)
  from send_effect[OF rmw_send(5)] assms(3) g(1)
  consider (quiet) "docs c' = docs (rs_coll s)" "\<And>y. r \<noteq> Inl (Inr y)"
    | (sent) d where "docs (rs_coll s) (bv i) = Some d" "current bv l ctx ?g d"
        "docs c' = (docs (rs_coll s))(bv i \<mapsto> enc (stamped ctx (clk 0) ?g))" by auto
  then show ?thesis
  proof cases
    case quiet
    then show ?thesis unfolding rmw_send(1)
      by (intro rmw_inv_quiet[OF assms(2)]) (auto split: if_splits sum.splits)
  next
    case sent
    from rmw_invD(4)[OF assms(2) rmw_send(2)] obtain ys where ys: "suffix ys ?xs" "e = dec (applied enc dec d0 ys)" by blast
    from dec_version[OF assms(4) rmw_invD(2)[OF assms(2) ys(1)]] ys(2) obtain raw uc where
      v: "version e = Some raw" "applied enc dec d0 ys ''updated_at'' = Some (bv (raw_val raw))"
        "ent_update e = Some uc" "same_clock ua uc" by blast
    have d: "d = applied enc dec d0 ?xs" using sent(1) rmw_invD(1)[OF assms(2)] by simp
    have "version ?g = Some raw" using v(1) g(2) by (simp add: version_def)
    with sent(2) v(2) d have "applied enc dec d0 ys ''updated_at'' = applied enc dec d0 ?xs ''updated_at''"
      by (simp add: current_def)
    from rmw_invD(3)[OF assms(2) ys(1) _ this] have e: "e = dec (applied enc dec d0 ?xs)" using ys(2) by simp
    have at: "applied enc dec d0 (x # ?xs) = enc (stamped ctx (clk 0) ?g)" by (simp add: rmw_send(4) e)
    have new: "version (stamped ctx (clk 0) ?g) \<noteq> None"
      "applied enc dec d0 (x # ?xs) ''updated_at'' \<notin> versions enc dec d0 ?xs"
      "enc (stamped ctx (clk 0) ?g) ''updated_at'' \<noteq> Some zero_date"
      unfolding at using rmw_send(6) by (simp_all add: new_version_def)
    have "docs c' (bv i) \<noteq> docs (rs_coll s) (bv i)"
      using new(2) sent(1,3) d at by (auto simp: versions_def)
    then have s': "rs_changes s' = x # ?xs" by (simp add: rmw_send(1))
    show ?thesis
    proof (rule rmw_inv_change[OF assms(2) _ s'])
      show "versioned ua (applied enc dec d0 (x # ?xs))" unfolding at
        by (rule stamped_versioned) (use v g(2) new(1,3) in simp_all)
      show "subseq (rs_confirmed s') (rs_changes s')"
        using rmw_invD(5)[OF assms(2)] unfolding s' by (auto simp: rmw_send(1) split: sum.split)
    qed (use sent(3) at new(2) in \<open>auto simp: rmw_send(1) split: if_splits sum.splits\<close>)
  qed
qed

lemma rmw_invariant:
  assumes "rmw_reach enc dec (at_id i) l i d0 (rmw_start c) s" and "proper_id i" and "ent_update (lib_zero l) = Some ua"
    and "docs c (bv i) = Some d0" and "versioned ua d0"
  shows "rmw_inv enc dec (at_id i) ua d0 s"
  using assms(1)
proof (induction rule: rtranclp_induct)
  case base
  show ?case by (rule rmw_invI) (use assms(4,5) in \<open>simp_all add: rmw_start_def\<close>)
next
  case (step s s')
  from rmw_preserved[OF step(2,3) assms(2,3)] show ?case .
qed

end

section \<open>Properties\<close>

text \<open>
  C8. Concurrent updates. However many clients read, modify and update a document, and however their reads,
  replacements and counts interleave with each other, with foreign requests and with failures of the driver, the
  document is what the changes that took effect make of it one after the other, each applied to the entity its
  predecessor left; and every update that was confirmed to its client is among them, in the order of the
  confirmations. So no change is lost or applied to a stale entity. This holds as long as each update
  gets a version (its time in milliseconds) the document did not have before, which is a condition of the
  steps; without it an update can be lost (\<open>same_millisecond_update_lost\<close>).
\<close>

theorem concurrent_updates:
  assumes "versioned_repository bv enc dec matches blt upd l docs" and "proper_id i"
    and "ent_update (lib_zero l) = Some ua" and "docs c (bv i) = Some d0" and "versioned ua d0"
    and "rmw_reach enc dec (\<lambda>c. docs c (bv i)) l i d0 (rmw_start c) s"
  shows "docs (rs_coll s) (bv i) = Some (applied enc dec d0 (rs_changes s)) \<and> subseq (rs_confirmed s) (rs_changes s)"
  using rmw_invD(1,5)[OF versioned_repository.rmw_invariant[OF assms(1,6,2-5)]] by simp

section \<open>The reference collection\<close>

interpretation memv: versioned_repository mem_bv mem_enc "mem_dec z" mem_match mem_blt mem_upd "mem_lib opt z P T" repo_docs
  for z opt P T
proof
  fix ua ub and d :: bdoc
  assume "ent_update (lib_zero (mem_lib opt z P T)) = Some ua" "same_clock ua ub"
    "d ''updated_at'' = stamp_of (GetUpdateTimeRaw ub)" "d ''updated_at'' \<notin> {None, Some zero_date}"
  then show "\<exists>uc. ent_update (mem_dec z d) = Some uc \<and> same_clock ua uc \<and> stamp_of (GetUpdateTimeRaw uc) = d ''updated_at''"
    by (cases ua; cases ub)
      (auto simp: mem_lib_def mem_dec_def stamp_of_def audit_defs time_field_def int_field_def zero_date_def IsZero_def split: if_splits)
qed

lemma demo_versioned:
  "versioned_repository mem_bv mem_enc (mem_dec (demo_doc [] [] zero_time)) mem_match mem_blt mem_upd demo_repo repo_docs"
  unfolding demo_repo_def by (rule memv.versioned_repository_axioms)

lemma demo_send:
  "commonReplace_send demo_repo (demo_rctx ''red'') demo_clock (demo_doc ''1'' ''red'' 5000000) False demo_docs =
     (Inl (Inr (demo_doc ''1'' ''red'' 7000000)), demo_doc ''1'' ''red'' 7000000, demo_updated)"
  using demo_update by (auto simp: repo_Update_def commonReplace_parts split: prod.splits sum.splits)

lemma demo_get:
  "repo_Get demo_repo (demo_rctx ''red'') (GString ''1'') demo_docs = (Inr (demo_doc ''1'' ''red'' 5000000), demo_docs)"
proof -
  let ?f = "[(''_id'', CEq (GString ''1'')), (''tenant_id'', CEq (GString ''red'')), (''deleted_at'', CExists False)]"
  have "found demo_docs ?f = [mem_enc (demo_doc ''1'' ''red'' 5000000)]"
    by (simp add: found_def) (simp add: demo_docs_def mem_match_def IsZero_def zero_time_def)
  moreover have "mem_dec (demo_doc [] [] zero_time) (mem_enc (demo_doc ''1'' ''red'' 5000000)) = demo_doc ''1'' ''red'' 5000000"
    by (simp add: mem_dec_def) (simp add: demo_doc_def mem_enc_def audit_defs stamp_of_def text_of_def IsZero_def zero_time_def
        time_field_def str_field_def)
  ultimately show ?thesis
    by (simp add: repo_Get_def GetByFilter_def demo_conds find_one_attempt_def mem_collection_def mem_FindOne_def zero_RepoOpt_def)
qed

theorem concurrent_updates_witness:
  "\<exists>s. rmw_reach mem_enc (mem_dec (demo_doc [] [] zero_time)) (\<lambda>c. repo_docs c (BStr ''1'')) demo_repo (GString ''1'')
        (mem_enc (demo_doc ''1'' ''red'' 5000000)) (rmw_start demo_docs) s
     \<and> rs_client s 1 = Holding (demo_doc ''1'' ''red'' 5000000) \<and> length (rs_confirmed s) = 1
     \<and> repo_docs (rs_coll s) (BStr ''1'') = Some (applied mem_enc (mem_dec (demo_doc [] [] zero_time))
          (mem_enc (demo_doc ''1'' ''red'' 5000000)) (rs_changes s))"
proof -
  let ?e = "demo_doc ''1'' ''red'' 5000000" and ?dec = "mem_dec (demo_doc [] [] zero_time)"
  let ?x = "\<lparr>ch_client = 0, ch_modify = id, ch_ctx = demo_rctx ''red'', ch_time = demo_clock 0\<rparr>"
  let ?step = "rmw_step mem_enc ?dec (\<lambda>c. repo_docs c (BStr ''1'')) demo_repo (GString ''1'') (mem_enc ?e)"
  let ?s0 = "rmw_start demo_docs"
  let ?s1 = "?s0\<lparr>rs_coll := demo_docs, rs_client := (rs_client ?s0)(0 := Holding ?e)\<rparr>"
  let ?s2 = "?s1\<lparr>rs_coll := demo_docs, rs_client := (rs_client ?s1)(1 := Holding ?e)\<rparr>"
  have g: "repo_Get demo_repo (demo_rctx ''red'') (GString ''1'') (rs_coll ?s0) = (Inr ?e, demo_docs)"
    "repo_Get demo_repo (demo_rctx ''red'') (GString ''1'') (rs_coll ?s1) = (Inr ?e, demo_docs)"
    by (simp_all add: rmw_start_def demo_get)
  have 12: "?step ?s0 ?s1" "?step ?s1 ?s2" by (rule rmw_read[OF g(1)], rule rmw_read[OF g(2)])
  have h: "rs_client ?s2 0 = Holding ?e" "plain_change (GString ''1'') id ?e"
    "commonReplace_send demo_repo (demo_rctx ''red'') demo_clock (id ?e) False (rs_coll ?s2) =
       (Inl (Inr (demo_doc ''1'' ''red'' 7000000)), demo_doc ''1'' ''red'' 7000000, demo_updated)"
    by (simp_all add: plain_change_def demo_send)
  have new: "new_version mem_enc ?dec (mem_enc ?e) (rs_changes ?s2) (stamped (demo_rctx ''red'') (demo_clock 0) (id ?e))"
    by (simp add: rmw_start_def new_version_def versions_def demo_version demo_clock_def zero_date_def IsZero_def zero_time_def)
  have "\<exists>s3. ?step ?s2 s3 \<and> rs_client s3 1 = Holding ?e \<and> length (rs_confirmed s3) = 1"
    by (rule exI, rule conjI, rule rmw_send[OF h(1,2) refl h(3) new]) (simp add: rmw_start_def)
  then obtain s3 where 3: "?step ?s2 s3" "rs_client s3 1 = Holding ?e" "length (rs_confirmed s3) = 1" by blast
  from 12 3(1) have r: "?step\<^sup>*\<^sup>* ?s0 s3" by (meson converse_rtranclp_into_rtranclp rtranclp.rtrancl_refl)
  have k: "mem_bv (GString ''1'') = BStr ''1''" by simp
  have u: "ent_update (lib_zero demo_repo) = Some (AUpdate \<lparr>UpdatedAt = zero_time, UpdatedBy = ''ann''\<rparr>)"
    by (simp add: demo_repo_def mem_lib_def)
  have v: "versioned (AUpdate \<lparr>UpdatedAt = zero_time, UpdatedBy = ''ann''\<rparr>) (mem_enc ?e)"
    unfolding versioned_def
    by (intro conjI exI[of _ "AUpdate \<lparr>UpdatedAt = 5000000, UpdatedBy = []\<rparr>"])
      (simp_all add: zero_date_def zero_time_def IsZero_def audit_defs stamp_of_def)
  from concurrent_updates[OF demo_versioned _ u _ v, of "GString ''1''" demo_docs s3, unfolded k] r 3 show ?thesis by auto
qed

end
