(* ===== verification/Httpx_Message.thy ===== *)
theory Httpx_Message
  imports Httpx_Agent Net_Url
begin

text \<open>
  \<open>httpx/req.go\<close>, \<open>httpx/resp.go\<close> and \<open>httpx/httpx.go\<close>: request bodies, response handlers and the
  application wrapper. The encoder and decoder of \<open>encoding/json\<close> are parameters; a decoding target is a
  reference (a name), and decoding changes the state \<open>'s\<close> in which references are resolved. A reader
  is what reading all of it gives, the bytes and an error; \<open>ReaderReq\<close> reads it once, for all attempts.

  Lemmas: the values of a form reach the server as they are, and an application code that is not
  accepted reaches the caller of \<open>Do\<close> with its code and data.
\<close>

section \<open>Requests\<close>

definition add_pre_handler :: "('x, 'p, 's) agent \<Rightarrow> pre_handler \<Rightarrow> ('x, 'p, 's) agent" where
  "add_pre_handler a h = a\<lparr>ag_reqPreHandlers := ag_reqPreHandlers a @ [h]\<rparr>"

definition set_body :: "string \<Rightarrow> http_request \<Rightarrow> http_request" where
  "set_body b req = req\<lparr>req_ContentLength := int (length b), req_Body := Some b\<rparr>"

definition set_content_type :: "string \<Rightarrow> http_request \<Rightarrow> http_request" where
  "set_content_type t req = req\<lparr>req_Header := header_Set ''Content-Type'' t (req_Header req)\<rparr>"

definition TextReq :: "string \<Rightarrow> ('x, 'p, 's) agent_op" where
  "TextReq reqBody a =
     Inr (add_pre_handler a (\<lambda>req.
       let req = set_content_type ''text/plain; charset=utf-8'' req
       in Inr (Some (set_body reqBody req))))"

text \<open>\<open>encode\<close> is \<open>json.NewEncoder(&buffer).Encode(reqBody)\<close>, with the newline it ends with.\<close>

definition JSONReq :: "('b \<Rightarrow> string result) \<Rightarrow> 'b \<Rightarrow> ('x, 'p, 's) agent_op" where
  "JSONReq encode reqBody a =
     Inr (add_pre_handler a (\<lambda>req.
       let req = set_content_type ''application/json; charset=utf-8'' req
       in case encode reqBody of
            Inl err \<Rightarrow> Inl (WrapError ''json marshal failed: '' err [])
          | Inr buffer \<Rightarrow> Inr (Some (set_body buffer req))))"

definition JsonReq :: "('b \<Rightarrow> string result) \<Rightarrow> 'b \<Rightarrow> ('x, 'p, 's) agent_op" where
  "JsonReq encode reqBody = JSONReq encode reqBody"

definition RawReq :: "string \<Rightarrow> string \<Rightarrow> ('x, 'p, 's) agent_op" where
  "RawReq contentType body a =
     Inr (add_pre_handler a (\<lambda>req.
       let req = (if contentType \<noteq> [] then set_content_type contentType req else req)
       in Inr (Some (set_body body req))))"

text \<open>A nil reader is \<open>None\<close>; it gives the empty body.\<close>

definition read_once :: "(string \<times> go_error option) option \<Rightarrow> string \<times> go_error option" where
  "read_once body = (case body of None \<Rightarrow> ([], None) | Some r \<Rightarrow> r)"

definition ReaderReq :: "string \<Rightarrow> (string \<times> go_error option) option \<Rightarrow> ('x, 'p, 's) agent_op" where
  "ReaderReq contentType body a =
     Inr (add_pre_handler a (\<lambda>req.
       case read_once body of
         (bodyBuf, Some err) \<Rightarrow> Inl (WrapError ''read request body failed: '' err [])
       | (bodyBuf, None) \<Rightarrow>
           let req = (if contentType \<noteq> [] then set_content_type contentType req else req)
           in Inr (Some (set_body bodyBuf req))))"

text \<open>The loops of \<open>FormReq\<close> over the values, in the order of the map.\<close>

fun add_values :: "url_values \<Rightarrow> url_values \<Rightarrow> url_values" where
  "add_values [] query = query"
| "add_values ((k, vs) # values) query = add_values values (add_pairs (map (\<lambda>v. (k, v)) vs) query)"

definition FormReq :: "url_values \<Rightarrow> ('x, 'p, 's) agent_op" where
  "FormReq values a =
     Inr (add_pre_handler a (\<lambda>req.
       let req = set_content_type ''application/x-www-form-urlencoded; charset=UTF-8'' req
       in if ag_method a = ''GET'' \<or> ag_method a = ''HEAD'' then
            let query = add_values values (fst (ParseQuery (u_RawQuery (req_URL req))))
            in Inr (Some (req\<lparr>req_URL := (req_URL req)\<lparr>u_RawQuery := values_Encode query\<rparr>\<rparr>))
          else Inr (Some (set_body (values_Encode values) req))))"

section \<open>Response wrappers\<close>

text \<open>
  The interface \<open>Wrapper\<close> over the state, with the reference under which the decoder reaches the wrapper.
\<close>

record 's wrapper =
  w_ref :: string
  w_SetData :: "string \<Rightarrow> 's \<Rightarrow> 's"
  w_Validate :: "'s \<Rightarrow> go_error option"

record CommonWrapper =
  cw_Code :: int
  cw_Message :: string
  cw_RequestID :: string
  cw_Data :: go_data
  cw_allowCodes :: "int list"

definition NewCommonWrapper :: "int list \<Rightarrow> CommonWrapper" where
  "NewCommonWrapper allowCodes =
     \<lparr>cw_Code = 0, cw_Message = [], cw_RequestID = [], cw_Data = NoData, cw_allowCodes = allowCodes\<rparr>"

definition SetData :: "go_data \<Rightarrow> CommonWrapper \<Rightarrow> CommonWrapper" where
  "SetData data c = c\<lparr>cw_Data := data\<rparr>"

abbreviation (input) ErrCodeHTTPWrapperDefault :: int where "ErrCodeHTTPWrapperDefault \<equiv> ErrCodeExpected"

text \<open>The embedded \<open>BaseError\<close> of a \<open>WrapperError\<close> is its first two arguments.\<close>

definition NewWrapperError :: "int \<Rightarrow> string \<Rightarrow> string \<Rightarrow> go_data \<Rightarrow> go_error" where
  "NewWrapperError code message requestID data =
     (let code = (if code = 0 then ErrCodeHTTPWrapperDefault else code);
          message = (if message = [] then ''httpx wrapper validate failed'' else message)
      in WrapperError code message code message requestID data)"

definition Wrapper_Validate :: "CommonWrapper \<Rightarrow> go_error option" where
  "Wrapper_Validate c =
     (if cw_Code c = 0 then None
      else if list_ex (\<lambda>code. cw_Code c = code) (cw_allowCodes c) then None
      else
        let wrapperErr = NewWrapperError (cw_Code c) (cw_Message c) (cw_RequestID c) (cw_Data c)
        in if cw_Data c \<noteq> NoData then WithErrorData (Some wrapperErr) (cw_Data c)
           else Some wrapperErr)"

text \<open>A \<open>*CommonWrapper\<close> that lives in a variable of the state, given by its reading and writing.\<close>

definition common_wrapper :: "string \<Rightarrow> ('s \<Rightarrow> CommonWrapper) \<Rightarrow> (CommonWrapper \<Rightarrow> 's \<Rightarrow> 's) \<Rightarrow> 's wrapper" where
  "common_wrapper ref get put =
     \<lparr>w_ref = ref, w_SetData = (\<lambda>d s. put (SetData (Data d) (get s)) s), w_Validate = (\<lambda>s. Wrapper_Validate (get s))\<rparr>"

section \<open>Response handlers\<close>

type_synonym 's handler = "('s wrapper, 's) resp_handler"

text \<open>The variables a raw handler writes; nil is \<open>None\<close>.\<close>

record 's RawRespHandler =
  raw_resp :: "(http_response \<Rightarrow> 's \<Rightarrow> 's) option"
  raw_bs :: "(string \<Rightarrow> 's \<Rightarrow> 's) option"

definition RawResp :: "(http_response \<Rightarrow> 's \<Rightarrow> 's) option \<Rightarrow> (string \<Rightarrow> 's \<Rightarrow> 's) option \<Rightarrow> 's RawRespHandler" where
  "RawResp resp bs = \<lparr>raw_resp = resp, raw_bs = bs\<rparr>"

definition raw_HandleResponse :: "'s RawRespHandler \<Rightarrow> 's handler" where
  "raw_HandleResponse h resp wrap s =
     (let s = (case raw_resp h of Some write \<Rightarrow> write resp s | None \<Rightarrow> s) in
      case raw_bs h of
        None \<Rightarrow> (None, s)
      | Some write \<Rightarrow>
          (case resp_Body resp of
             (body, Some err) \<Rightarrow> (Some (WrapError ''read http body failed: '' err []), s)
           | (body, None) \<Rightarrow> (None, write body s)))"

definition raw_InitialAgent :: "'s RawRespHandler \<Rightarrow> ('x, 's wrapper, 's) agent_op" where
  "raw_InitialAgent h a = Inr (a\<lparr>ag_respHandler := Some (raw_HandleResponse h)\<rparr>)"

record 's RespHandlerPredicate =
  rp_Predicate :: "(http_response \<Rightarrow> bool) option"
  rp_RespHandler :: "'s handler option"

text \<open>The loop of \<open>HybridHandler.HandleResponse\<close> from index \<open>i\<close> on.\<close>

fun hybrid_from :: "nat \<Rightarrow> 's RespHandlerPredicate list \<Rightarrow> 's handler" where
  "hybrid_from i [] resp wrap s = (None, s)"
| "hybrid_from i (p # ps) resp wrap s =
     (if (case rp_Predicate p of None \<Rightarrow> True | Some pred \<Rightarrow> \<not> pred resp) then hybrid_from (Suc i) ps resp wrap s
      else
        (case rp_RespHandler p of
           None \<Rightarrow> (Some (OpaqueError (''hybrid resp handler is nil at '' @ FormatUint i)), s)
         | Some handle \<Rightarrow>
             (case handle resp wrap s of
                (Some err, s) \<Rightarrow> (Some (WrapError (''hybrid resp handle failed at '' @ FormatUint i @ '': '') err []), s)
              | (None, s) \<Rightarrow> (None, s))))"

definition hybrid_HandleResponse :: "'s RespHandlerPredicate list \<Rightarrow> 's handler" where
  "hybrid_HandleResponse predicates = hybrid_from 0 predicates"

definition hybrid_InitialAgent :: "'s RespHandlerPredicate list \<Rightarrow> ('x, 's wrapper, 's) agent_op" where
  "hybrid_InitialAgent predicates a = Inr (a\<lparr>ag_respHandler := Some (hybrid_HandleResponse predicates)\<rparr>)"

text \<open>\<open>unmarshal body ref\<close> is \<open>json.Unmarshal\<close> into what \<open>ref\<close> points to.\<close>

definition json_HandleResponse ::
    "(string \<Rightarrow> string \<Rightarrow> 's \<Rightarrow> go_error option \<times> 's) \<Rightarrow> string \<Rightarrow> 's handler" where
  "json_HandleResponse unmarshal ret0 resp respWrapper s =
     (let (ret, s) = (case respWrapper of
                        None \<Rightarrow> (ret0, s)
                      | Some w \<Rightarrow> (w_ref w, w_SetData w ret0 s))
      in case resp_Body resp of
           (body, Some err) \<Rightarrow> (Some (WrapError ''read body failed: '' err []), s)
         | (body, None) \<Rightarrow>
             if body = [] then (None, s)
             else
               (case unmarshal body ret s of
                  (Some err, s) \<Rightarrow> (Some (WrapError ''unmarshal body failed: '' err ('', body: '' @ body)), s)
                | (None, s) \<Rightarrow>
                    (case respWrapper of
                       Some w \<Rightarrow> (w_Validate w s, s)
                     | None \<Rightarrow> (None, s))))"

text \<open>The payload is given with whether it is a pointer; nil is \<open>None\<close>.\<close>

definition json_InitialAgent ::
    "(string \<Rightarrow> string \<Rightarrow> 's \<Rightarrow> go_error option \<times> 's) \<Rightarrow> (string \<times> bool) option \<Rightarrow> ('x, 's wrapper, 's) agent_op" where
  "json_InitialAgent unmarshal ret a =
     (case ret of
        Some (r, True) \<Rightarrow> Inr (a\<lparr>ag_respHandler := Some (json_HandleResponse unmarshal r)\<rparr>)
      | _ \<Rightarrow> Inl (NewValidationError ''result payload should be ptr'' [] None))"

section \<open>Forms\<close>

lemma add_pairs_append: "add_pairs (ps @ qs) m = add_pairs qs (add_pairs ps m)"
  by (induction ps m rule: add_pairs.induct) simp_all

lemma add_values_pairs: "add_values values q = add_pairs (key_pairs values) q"
  by (induction "values" q rule: add_values.induct) (simp_all add: key_pairs_def add_pairs_append add_pairs.simps(1))

lemma add_values_distinct: "distinct (map fst q) \<Longrightarrow> distinct (map fst (add_values values q))"
  by (simp add: add_values_pairs add_pairs_distinct)

lemma values_of_add_values: "distinct (map fst values) \<Longrightarrow> values_of (add_values values q) k = values_of q k @ values_of values k"
  by (simp add: add_values_pairs values_of_add_pairs picked_key_pairs)

text \<open>
  Forms. The values given to \<open>FormReq\<close> reach the server as they are, whatever bytes they hold and in their
  order for each key: for GET and HEAD after the values the query of the URL already had, otherwise as the
  body, whose length is announced.
\<close>

theorem form_roundtrip:
  assumes "distinct (map fst values)"
  shows "\<exists>h. FormReq values a = Inr (a\<lparr>ag_reqPreHandlers := ag_reqPreHandlers a @ [h]\<rparr>)
    \<and> (\<exists>req' q. h req = Inr (Some req')
        \<and> header_Get (req_Header req') ''Content-Type'' = ''application/x-www-form-urlencoded; charset=UTF-8''
        \<and> (if ag_method a = ''GET'' \<or> ag_method a = ''HEAD''
           then ParseQuery (u_RawQuery (req_URL req')) = (q, None) \<and> req_Body req' = req_Body req
             \<and> values_of q k = values_of (fst (ParseQuery (u_RawQuery (req_URL req)))) k @ values_of values k
           else \<exists>b. req_Body req' = Some b \<and> req_ContentLength req' = int (length b) \<and> req_URL req' = req_URL req
             \<and> ParseQuery b = (q, None) \<and> values_of q k = values_of values k))"
proof -
  let ?old = "fst (ParseQuery (u_RawQuery (req_URL req)))"
  from ParseQuery_Encode[OF add_values_distinct[OF ParseQuery_distinct]]
  obtain q1 where q1: "ParseQuery (values_Encode (add_values values ?old)) = (q1, None)"
    "values_of q1 = values_of (add_values values ?old)" by blast
  from ParseQuery_Encode[OF assms] obtain q2 where q2: "ParseQuery (values_Encode values) = (q2, None)" "values_of q2 = values_of values" by blast
  show ?thesis
  proof (cases "ag_method a = ''GET'' \<or> ag_method a = ''HEAD''")
    case True
    with q1 values_of_add_values[OF assms] show ?thesis
      by (auto simp: FormReq_def add_pre_handler_def set_content_type_def header_Get_def header_Set_def Let_def update_conv')
  next
    case False
    with q2 show ?thesis
      by (auto simp: FormReq_def add_pre_handler_def set_content_type_def set_body_def header_Get_def header_Set_def Let_def update_conv')
  qed
qed

section \<open>Application codes\<close>

lemma ErrorData_skip:
  "extra_data e = None \<Longrightarrow> Unwrap e = Some c \<Longrightarrow> ErrorData (Some e) = ErrorData (Some c)"
  by (simp add: ErrorData_def errors_As.simps[of _ e])

lemma ErrorData_here: "extra_data e = Some d \<Longrightarrow> ErrorData (Some e) = d"
  by (simp add: ErrorData_def errors_As.simps[of _ e])

lemma Validate_accepts: "Wrapper_Validate c = None \<longleftrightarrow> cw_Code c = 0 \<or> cw_Code c \<in> set (cw_allowCodes c)"
  by (auto simp: Wrapper_Validate_def WithErrorData_def Let_def list_ex_iff)

text \<open>An error that says what the wrapper \<open>c\<close> says.\<close>

definition tells :: "CommonWrapper \<Rightarrow> go_error \<Rightarrow> bool" where
  "tells c e \<longleftrightarrow> CodeOf (Some e) = cw_Code c \<and> ErrorData (Some e) = cw_Data c
     \<and> (\<exists>msg. in_chain e (WrapperError (cw_Code c) msg (cw_Code c) msg (cw_RequestID c) (cw_Data c))
          \<and> (cw_Message c \<noteq> [] \<longrightarrow> msg = cw_Message c))"

lemma tells_outer:
  assumes "tells c e" and "Unwrap x = Some e" and "ErrorCode x = None" and "extra_data x = None"
  shows "tells c x"
  using assms CodeOf_skip[OF assms(3,2)] ErrorData_skip[OF assms(4,2)]
  by (auto simp: tells_def intro: in_chain.there)

lemma Validate_refuses:
  assumes "Wrapper_Validate c = Some e"
  shows "tells c e" and "errors_As is_CallError e = None" and "errors_As is_ErrHttp e = None" and "\<not> IsRetryableError (Some e)"
proof -
  define msg where "msg = (if cw_Message c = [] then ''httpx wrapper validate failed'' else cw_Message c)"
  define w where "w = WrapperError (cw_Code c) msg (cw_Code c) msg (cw_RequestID c) (cw_Data c)"
  from assms have code: "cw_Code c \<noteq> 0" and e: "e = (if cw_Data c \<noteq> NoData then ExtraDataError (Some w) (cw_Data c) else w)"
    by (auto simp: Wrapper_Validate_def WithErrorData_def NewWrapperError_def w_def msg_def Let_def split: if_splits)
  have w: "CodeOf (Some w) = cw_Code c" "errors_As p w = (if p w then Some w else None)" for p
    using code CodeOf_here[of w "cw_Code c"] by (simp_all add: w_def errors_As.simps[of p "WrapperError _ _ _ _ _ _"])
  have x: "CodeOf (Some (ExtraDataError (Some w) d)) = cw_Code c"
    "errors_As p (ExtraDataError (Some w) d) = (if p (ExtraDataError (Some w) d) then Some (ExtraDataError (Some w) d) else errors_As p w)" for p d
    using w(1) CodeOf_skip[of "ExtraDataError (Some w) d" w] by (simp_all add: errors_As.simps[of p "ExtraDataError _ _"])
  have kinds: "\<not> is_CallError w" "\<not> is_ErrHttp w" "\<not> is_RetryableError w" by (simp_all add: w_def)
  have "in_chain e w" unfolding e by (auto intro: in_chain.here in_chain.there)
  then show "tells c e"
    using w x unfolding tells_def e by (auto simp: ErrorData_def w_def msg_def)
  show "errors_As is_CallError e = None" "errors_As is_ErrHttp e = None" "\<not> IsRetryableError (Some e)"
    using w(2) x(2) kinds by (simp_all add: e IsRetryableError_def)
qed

lemma tells_call:
  assumes "tells c e" and "errors_As is_CallError e = None" and "errors_As is_ErrHttp e = None"
  shows "tells c (wrapCallError a r (mark_retryable b e))"
    and "IsRetryableError (Some (wrapCallError a r (mark_retryable b e))) \<longleftrightarrow> b \<or> IsRetryableError (Some e)"
proof -
  let ?m = "mark_retryable b e"
  have m: "tells c ?m" using assms(1) tells_outer[OF assms(1), of "RetryableError (Some e)"]
    by (simp add: mark_retryable_def WithRetryableError_def)
  have n: "errors_As is_CallError ?m = None" "errors_As is_ErrHttp ?m = None"
    using assms(2,3) errors_As.simps[of is_CallError "RetryableError (Some e)"] errors_As.simps[of is_ErrHttp "RetryableError (Some e)"]
    by (simp_all add: mark_retryable_def WithRetryableError_def)
  then have w: "wrapCallError a r ?m = CallError (ag_method a) (ag_url a) r 0 (UpstreamError (Some ?m) (ag_url a) (ag_method a) r)"
    by (simp add: wrapCallError_def NewUpstreamError_def)
  have "tells c (UpstreamError (Some ?m) (ag_url a) (ag_method a) r)" by (rule tells_outer[OF m]) simp_all
  then show "tells c (wrapCallError a r ?m)" unfolding w by (rule tells_outer) simp_all
  show "IsRetryableError (Some (wrapCallError a r ?m)) \<longleftrightarrow> b \<or> IsRetryableError (Some e)"
    using wrapCallError_keeps[of a r ?m] IsRetryableError_layer[of "RetryableError (Some e)" e]
    by (simp add: mark_retryable_def WithRetryableError_def)
qed

text \<open>
  C31. Application codes. When an accepted answer with a body is decoded into a common wrapper, the call
  succeeds exactly for code 0 and the allowed codes; every other code reaches the caller: the error of the
  call has that code, holds the wrapper's error with its request identifier and the data of the answer,
  and is retryable exactly when the options say so for application errors.
\<close>

theorem application_codes:
  assumes "prepareRequest parse E a = (Inr req, rid, a1)" and "client req s = (Inr resp, s1)"
    and "StatusCode resp \<in> set (ag_expectedStatusCodes a)" and "ag_respHandler a = Some (json_HandleResponse unmarshal ret)"
    and "ag_respWrapper a = Some (common_wrapper ref get put)" and "resp_Body resp = (body, None)" and "body \<noteq> []"
    and "unmarshal body ref (put (SetData (Data ret) (get s1)) s1) = (None, s2)"
  shows "\<exists>res. doHTTP parse client executeHandle E a s = (res, a1, s2)
    \<and> (case res of
         Inr x \<Rightarrow> x = None \<and> (cw_Code (get s2) = 0 \<or> cw_Code (get s2) \<in> set (cw_allowCodes (get s2)))
       | Inl e \<Rightarrow> cw_Code (get s2) \<noteq> 0 \<and> cw_Code (get s2) \<notin> set (cw_allowCodes (get s2)) \<and> tells (get s2) e
           \<and> (IsRetryableError (Some e) \<longleftrightarrow> (case ag_retryOpt a of Some opt \<Rightarrow> RetryAppError opt | None \<Rightarrow> False)))"
proof -
  note same = prepareRequest_agent[OF assms(1)]
  then have a1: "ag_respHandler a1 = ag_respHandler a" "ag_respWrapper a1 = ag_respWrapper a"
    "ag_expectedStatusCodes a1 = ag_expectedStatusCodes a" "ag_retryOpt a1 = ag_retryOpt a"
    using same_agentD[OF same] by (simp_all add: same_agent_def) (metis agent.select_convs(6) agent.surjective agent.update_convs(3))
  have ex: "isInExpectedStatusCodes a1 (StatusCode resp)"
    using assms(3) a1 by (auto simp: isInExpectedStatusCodes_def list_ex_iff)
  have h: "json_HandleResponse unmarshal ret resp (Some (common_wrapper ref get put)) s1 = (Wrapper_Validate (get s2), s2)"
    using assms(6-8) by (simp add: json_HandleResponse_def common_wrapper_def)
  show ?thesis
  proof (cases "Wrapper_Validate (get s2)")
    case None
    with Validate_accepts[of "get s2"] h ex a1 assms(1,2,4,5) show ?thesis by (simp add: doHTTP_def)
  next
    case (Some e)
    note v = Validate_refuses[OF Some]
    from Some Validate_accepts[of "get s2"] have "cw_Code (get s2) \<noteq> 0" "cw_Code (get s2) \<notin> set (cw_allowCodes (get s2))" by auto
    with tells_call[OF v(1-3), of a1 rid "case ag_retryOpt a of Some opt \<Rightarrow> RetryAppError opt | None \<Rightarrow> False"] v(4)
      h ex a1 assms(1,2,4,5) Some show ?thesis by (simp add: doHTTP_def)
  qed
qed

section \<open>Examples\<close>

theorem form_roundtrip_witness:
  "\<exists>h req' b q. FormReq [(''k'', [''a b'', ''&=''])] (demo_agent ''POST'') =
       Inr ((demo_agent ''POST'')\<lparr>ag_reqPreHandlers := ag_reqPreHandlers (demo_agent ''POST'') @ [h]\<rparr>)
     \<and> h \<lparr>req_Method = ''POST'', req_URL = demo_url, req_Host = ''h'', req_Header = [], req_ContentLength = 0, req_Body = None\<rparr> = Inr (Some req')
     \<and> req_Body req' = Some b \<and> ParseQuery b = (q, None) \<and> values_of q ''k'' = [''a b'', ''&='']"
proof -
  have d: "distinct (map fst [(''k'', [''a b'', ''&=''])])" by simp
  have m: "ag_method (demo_agent ''POST'') = ''POST''" by (simp add: demo_agent_def newAgent_def)
  from form_roundtrip[OF d, of "demo_agent ''POST''" "\<lparr>req_Method = ''POST'', req_URL = demo_url, req_Host = ''h'',
      req_Header = [], req_ContentLength = 0, req_Body = None\<rparr>" "''k''"]
  show ?thesis unfolding m by (auto simp: values_of_def)
qed

definition demo_reply :: "CommonWrapper http_client" where
  "demo_reply req s = (Inr \<lparr>StatusCode = 200, resp_Header = [], resp_ContentLength = 10, resp_Body = (''{code:7}'', None)\<rparr>, s)"

definition demo_unmarshal :: "string \<Rightarrow> string \<Rightarrow> CommonWrapper \<Rightarrow> go_error option \<times> CommonWrapper" where
  "demo_unmarshal body ref c = (None, c\<lparr>cw_Code := 7, cw_Message := ''no credit''\<rparr>)"

definition demo_json_agent :: "(unit, CommonWrapper wrapper, CommonWrapper) agent" where
  "demo_json_agent = (newAgent ''http://h/'' ''GET'')\<lparr>ag_ctx := Some demo_ctx, ag_expectedStatusCodes := [200],
     ag_respHandler := Some (json_HandleResponse demo_unmarshal ''ret''),
     ag_respWrapper := Some (common_wrapper ''wrapper'' id (\<lambda>c s. c))\<rparr>"

theorem application_codes_witness:
  "\<exists>e a1 s2. doHTTP (\<lambda>u. Inr demo_url) demo_reply executeHandle demo_env demo_json_agent (NewCommonWrapper [404]) = (Inl e, a1, s2)
     \<and> CodeOf (Some e) = 7 \<and> \<not> IsRetryableError (Some e)"
proof -
  obtain c1 rid h where
    "injectTraceHeaders (Inr ''ab'') 0 (Inr ''abcde'') Second demo_order demo_ctx [] = ((c1, rid, None), h)"
    by (rule demo_inject)
  moreover have "ctx_deadline demo_ctx = Some (2 * Second)"
    by (simp add: demo_ctx_def CtxSetOperator_def WithDeadline_def Background_def)
  ultimately obtain req a1 where p: "prepareRequest (\<lambda>u. Inr demo_url) demo_env demo_json_agent = (Inr req, rid, a1)"
    by (simp add: prepareRequest_def demo_env_def demo_json_agent_def newAgent_def no_service_def Let_def)
  let ?s = "NewCommonWrapper [404]"
  have f: "200 \<in> set (ag_expectedStatusCodes demo_json_agent)" "ag_respHandler demo_json_agent = Some (json_HandleResponse demo_unmarshal ''ret'')"
    "ag_respWrapper demo_json_agent = Some (common_wrapper ''wrapper'' id (\<lambda>c s. c))" "ag_retryOpt demo_json_agent = None"
    by (simp_all add: demo_json_agent_def newAgent_def)
  define s2 where "s2 = (SetData (Data ''ret'') ?s)\<lparr>cw_Code := 7, cw_Message := ''no credit''\<rparr>"
  have u: "demo_unmarshal ''{code:7}'' ''wrapper'' (SetData (Data ''ret'') (id ?s)) = (None, s2)"
    by (simp add: demo_unmarshal_def s2_def)
  have cl: "demo_reply req ?s =
      (Inr \<lparr>StatusCode = 200, resp_Header = [], resp_ContentLength = 10, resp_Body = (''{code:7}'', None)\<rparr>, ?s)"
    by (rule demo_reply_def)
  have c: "cw_Code (id s2) = 7" "cw_allowCodes (id s2) = [404]" by (simp_all add: s2_def SetData_def NewCommonWrapper_def)
  have "\<exists>res. doHTTP (\<lambda>u. Inr demo_url) demo_reply executeHandle demo_env demo_json_agent ?s = (res, a1, s2)
    \<and> (case res of
         Inr x \<Rightarrow> x = None \<and> (cw_Code (id s2) = 0 \<or> cw_Code (id s2) \<in> set (cw_allowCodes (id s2)))
       | Inl e \<Rightarrow> cw_Code (id s2) \<noteq> 0 \<and> cw_Code (id s2) \<notin> set (cw_allowCodes (id s2)) \<and> tells (id s2) e
           \<and> (IsRetryableError (Some e) \<longleftrightarrow> (case ag_retryOpt demo_json_agent of Some opt \<Rightarrow> RetryAppError opt | None \<Rightarrow> False)))"
    by (rule application_codes[where client = demo_reply and s = ?s and get = id and put = "\<lambda>c s. c", OF p cl _ f(2,3) _ _ u])
      (simp_all add: f)
  then obtain res where d: "doHTTP (\<lambda>u. Inr demo_url) demo_reply executeHandle demo_env demo_json_agent ?s = (res, a1, s2)"
    and r: "case res of
         Inr x \<Rightarrow> x = None \<and> (cw_Code (id s2) = 0 \<or> cw_Code (id s2) \<in> set (cw_allowCodes (id s2)))
       | Inl e \<Rightarrow> cw_Code (id s2) \<noteq> 0 \<and> cw_Code (id s2) \<notin> set (cw_allowCodes (id s2)) \<and> tells (id s2) e
           \<and> (IsRetryableError (Some e) \<longleftrightarrow> (case ag_retryOpt demo_json_agent of Some opt \<Rightarrow> RetryAppError opt | None \<Rightarrow> False))"
    by blast
  show ?thesis
  proof (cases res)
    case (Inl e)
    with r c f(4) have "CodeOf (Some e) = 7" "\<not> IsRetryableError (Some e)" by (simp_all add: tells_def)
    with d Inl show ?thesis by blast
  next
    case (Inr x)
    with r show ?thesis unfolding c by simp
  qed
qed

end
