(* ===== verification/Httpx_Release.thy ===== *)
theory Httpx_Release
  imports Httpx_Agent Trace_Logging
begin

text \<open>
  \<open>httpx/agent.go\<close>: what a call does besides sending and answering. \<open>Httpx_Agent\<close> models the results;
  here the same functions also say, in order, which lines they log, which response bodies they receive and
  close, which timers they stop and when they cancel the context of the call. \<open>took n\<close> is \<open>time.Since(start)\<close>
  at the end of attempt \<open>n\<close>, and \<open>path\<close> the field \<open>Path\<close> of a URL. The loggers of levels INFO, WARN and ERROR
  return, as those of \<open>trace/logging\<close> do. The agent is a new one: its \<open>cancel\<close> is nil before \<open>init\<close>.

  Lemmas: leaving the events out gives the functions of \<open>Httpx_Agent\<close>; every attempt that sends logs its start
  and its outcome with the identifiers of the request; every body is closed and the context is cancelled, except
  for the stream handed to the caller, which does both when it is closed.
\<close>

section \<open>Events\<close>

datatype 'x call_event =
    LogInfo "'x ctx" string
  | LogWarn "'x ctx" string
  | LogError "'x ctx" string
  | BodyOpened
  | BodyClosed
  | TimerStopped
  | CtxCancelled

text \<open>The effect of a line on the logging package.\<close>

fun log_event :: "'x call_event \<Rightarrow> ('x, 'l) log_package \<Rightarrow> ('x, 'l) log_package" where
  "log_event (LogInfo ctx msg) p = snd (log_CtxInfof ctx msg p)"
| "log_event (LogWarn ctx msg) p = snd (log_CtxWarnf ctx msg p)"
| "log_event (LogError ctx msg) p = snd (log_CtxErrorf ctx msg p)"
| "log_event _ p = p"

definition agent_ctx :: "('x, 'p, 's) agent \<Rightarrow> 'x ctx" where
  "agent_ctx a = (case ag_ctx a of None \<Rightarrow> Background | Some c \<Rightarrow> c)"

definition log_start :: "(url \<Rightarrow> string) \<Rightarrow> ('x, 'p, 's) agent \<Rightarrow> http_request \<Rightarrow> 'x call_event" where
  "log_start path a req =
     LogInfo (agent_ctx a) (''httpx request start method='' @ req_Method req @ '' path='' @ path (req_URL req))"

definition logEnd ::
    "(url \<Rightarrow> string) \<Rightarrow> ('x, 'p, 's) agent \<Rightarrow> http_request \<Rightarrow> int \<Rightarrow> duration \<Rightarrow> go_error option \<Rightarrow> 'x call_event" where
  "logEnd path a req statusCode since err =
     (let line = ''httpx request end method='' @ req_Method req @ '' path='' @ path (req_URL req)
                   @ '' status_code='' @ FormatInt statusCode @ '' duration_ms='' @ FormatInt (Milliseconds since)
      in case err of
           None \<Rightarrow> LogInfo (agent_ctx a) line
         | Some e \<Rightarrow>
             if IsExpected (Some e) then LogWarn (agent_ctx a) (line @ '' error='' @ Error e)
             else LogError (agent_ctx a) (line @ '' error='' @ Error e))"

section \<open>Calls with their events\<close>

definition doHTTP_events ::
    "(url \<Rightarrow> string) \<Rightarrow> (string \<Rightarrow> url result) \<Rightarrow> 's http_client \<Rightarrow> executeMode \<Rightarrow> duration \<Rightarrow> attempt_env
       \<Rightarrow> ('x, 'p, 's) agent \<Rightarrow> 's \<Rightarrow> (http_response option result \<times> ('x, 'p, 's) agent \<times> 's) \<times> 'x call_event list" where
  "doHTTP_events path parse client mode since E a s =
     (case prepareRequest parse E a of
        (Inl e, requestID, a) \<Rightarrow> ((Inl (wrapCallError a requestID e), a, s), [])
      | (Inr req, requestID, a) \<Rightarrow>
          (let begun = log_start path a req; ended = (\<lambda>code err. logEnd path a req code since err) in
           case client req s of
             (Inl e, s) \<Rightarrow>
               let err = wrapCallError a requestID
                           (mark_retryable (isRetryableTransportError e) (WrapError ''request do failed: '' e []))
               in ((Inl err, a, s), [begun, ended 0 (Some err)])
           | (Inr resp, s) \<Rightarrow>
               let code = StatusCode resp in
               if \<not> isInExpectedStatusCodes a code then
                 let (body, readErr) = resp_Body resp;
                     cause = NewErrHttp code body;
                     cause = (case readErr of
                                None \<Rightarrow> cause
                              | Some r \<Rightarrow> WrapError [] cause ('': read body failed: '' @ Error r));
                     err = wrapCallError a requestID (mark_retryable (isInRetryStatusCodes a code) cause)
                 in ((Inl err, a, s), [begun, BodyOpened, ended code (Some err), BodyClosed])
               else
                 case mode of
                   executeStream \<Rightarrow> ((Inr (Some resp), a, s), [begun, BodyOpened, ended code None])
                 | executeHandle \<Rightarrow>
                     (case ag_respHandler a of
                        None \<Rightarrow> ((Inr None, a, s), [begun, BodyOpened, ended code None, BodyClosed])
                      | Some handle \<Rightarrow>
                          (case handle resp (ag_respWrapper a) s of
                             (None, s) \<Rightarrow> ((Inr None, a, s), [begun, BodyOpened, ended code None, BodyClosed])
                           | (Some e, s) \<Rightarrow>
                               let err = wrapCallError a requestID
                                     (mark_retryable (case ag_retryOpt a of Some opt \<Rightarrow> RetryAppError opt | None \<Rightarrow> False) e)
                               in ((Inl err, a, s), [begun, BodyOpened, ended code (Some err), BodyClosed])))))"

fun retry_events ::
    "(url \<Rightarrow> string) \<Rightarrow> (string \<Rightarrow> url result) \<Rightarrow> 's http_client \<Rightarrow> executeMode \<Rightarrow> (nat \<Rightarrow> duration) \<Rightarrow> (nat \<Rightarrow> attempt_env)
       \<Rightarrow> RetryOpt \<Rightarrow> nat \<Rightarrow> nat \<Rightarrow> ('x, 'p, 's) agent \<Rightarrow> 's
       \<Rightarrow> (http_response option result \<times> ('x, 'p, 's) agent \<times> 's) \<times> 'x call_event list" where
  "retry_events path parse client mode took envs opt 0 attempt a s = ((Inl (OpaqueError []), a, s), [])"
| "retry_events path parse client mode took envs opt (Suc left) attempt a s =
     (case doHTTP_events path parse client mode (took attempt) (envs attempt) a s of
        ((Inr resp, a, s), evs) \<Rightarrow> ((Inr resp, a, s), evs)
      | ((Inl err, a, s), evs) \<Rightarrow>
          if left = 0 \<or> \<not> shouldRetry err then ((Inl err, a, s), evs)
          else
            let delay = retryDelay (ae_jitter (envs attempt)) opt attempt in
            if (case Option.bind (ag_ctx a) ctx_deadline of
                  Some d \<Rightarrow> d - ae_now_wait (envs attempt) \<le> delay
                | None \<Rightarrow> False)
            then ((Inl err, a, s), evs)
            else
              case ae_done (envs attempt) of
                Some e \<Rightarrow> ((Inl (wrapCallError a [] e), a, s), evs @ [TimerStopped])
              | None \<Rightarrow>
                  (case retry_events path parse client mode took envs opt left (Suc attempt) a s of
                     (r, evs') \<Rightarrow> (r, evs @ evs')))"

definition execute_events ::
    "(url \<Rightarrow> string) \<Rightarrow> (string \<Rightarrow> url result) \<Rightarrow> 's http_client \<Rightarrow> executeMode \<Rightarrow> (nat \<Rightarrow> duration) \<Rightarrow> (nat \<Rightarrow> attempt_env)
       \<Rightarrow> ('x, 'p, 's) agent \<Rightarrow> 's \<Rightarrow> (http_response option result \<times> ('x, 'p, 's) agent \<times> 's) \<times> 'x call_event list" where
  "execute_events path parse client mode took envs a s =
     (case ag_retryOpt a of
        None \<Rightarrow> doHTTP_events path parse client mode (took 1) (envs 1) a s
      | Some opt \<Rightarrow> retry_events path parse client mode took envs opt (max_attempts a opt) 1 a s)"

text \<open>
  \<open>Do\<close> cancels the context of the call when it returns, \<open>DoStream\<close> only when it fails; \<open>init\<close> sets the cancel
  function as its last step that can fail.
\<close>

definition call_events ::
    "(url \<Rightarrow> string) \<Rightarrow> (string \<Rightarrow> url result) \<Rightarrow> 's http_client \<Rightarrow> executeMode \<Rightarrow> string result \<Rightarrow> time
       \<Rightarrow> (nat \<Rightarrow> duration) \<Rightarrow> (nat \<Rightarrow> attempt_env) \<Rightarrow> ('x, 'p, 's) agent_op list \<Rightarrow> ('x, 'p, 's) agent \<Rightarrow> 's
       \<Rightarrow> (http_response option result \<times> 's) \<times> 'x call_event list" where
  "call_events path parse dflt mode rnd now took envs ops a s =
     (case agent_init dflt rnd now ops a of
        (Some e, a) \<Rightarrow> ((Inl (wrapCallError a [] e), s), [])
      | (None, a) \<Rightarrow>
          (case execute_events path parse (case ag_client a of Some c \<Rightarrow> c | None \<Rightarrow> dflt) mode took envs a s of
             ((res, a, s), evs) \<Rightarrow>
               ((res, s),
                case mode of
                  executeHandle \<Rightarrow> evs @ [CtxCancelled]
                | executeStream \<Rightarrow> (case res of Inl e \<Rightarrow> evs @ [CtxCancelled] | Inr resp \<Rightarrow> evs))))"

text \<open>\<open>Close\<close> of the body of a stream, given what closing the connection returns; \<open>Ops\<close> appends options.\<close>

definition stream_Close :: "go_error option \<Rightarrow> go_error option \<times> 'x call_event list" where
  "stream_Close err = (err, [BodyClosed, CtxCancelled])"

definition agent_Ops :: "('x, 'p, 's) agent_op list \<Rightarrow> ('x, 'p, 's) agent_op list \<Rightarrow> ('x, 'p, 's) agent_op list" where
  "agent_Ops existed ops = existed @ ops"

text \<open>The settings of \<open>NewClient\<close>, over those of \<open>http.DefaultTransport\<close>.\<close>

record transport_settings =
  ts_DialTimeout :: duration
  ts_DialKeepAlive :: duration
  ts_MaxIdleConns :: int
  ts_MaxIdleConnsPerHost :: int
  ts_IdleConnTimeout :: duration
  ts_TLSHandshakeTimeout :: duration

abbreviation (input) defaultConnectTimout :: duration where "defaultConnectTimout \<equiv> 3 * Second"

definition NewClient :: "transport_settings \<Rightarrow> transport_settings" where
  "NewClient defaults =
     defaults\<lparr>ts_DialTimeout := defaultConnectTimout, ts_DialKeepAlive := 30 * Second, ts_MaxIdleConns := 100,
       ts_MaxIdleConnsPerHost := 100, ts_IdleConnTimeout := 90 * Second, ts_TLSHandshakeTimeout := defaultConnectTimout\<rparr>"

section \<open>Results\<close>

lemma doHTTP_events_result: "fst (doHTTP_events path parse client mode since E a s) = doHTTP parse client mode E a s"
  by (simp add: doHTTP_events_def doHTTP_def Let_def split: prod.split sum.split executeMode.split option.split)

lemma retry_events_result:
  "fst (retry_events path parse client mode took envs opt n k a s) = retry_loop parse client mode envs opt n k a s"
proof (induction n arbitrary: k a s)
  case (Suc n)
  obtain r a1 s1 evs where d: "doHTTP_events path parse client mode (took k) (envs k) a s = ((r, a1, s1), evs)"
    by (metis prod.collapse)
  then have "doHTTP parse client mode (envs k) a s = (r, a1, s1)"
    using doHTTP_events_result[of path parse client mode "took k" "envs k" a s] by simp
  with d Suc.IH[of "Suc k" a1 s1] show ?case by (auto simp: Let_def split: sum.split option.split prod.split)
qed simp

lemma execute_events_result:
  "fst (execute_events path parse client mode took envs a s) = executeHTTP parse client mode envs a s"
  by (simp add: execute_events_def executeHTTP_def retryDoHTTP_def doHTTP_events_result retry_events_result split: option.split)

lemma call_events_result:
  "fst (call_events path parse dflt mode rnd now took envs ops a s) = run_agent parse dflt mode rnd now envs ops a s"
proof -
  obtain x a1 where i: "agent_init dflt rnd now ops a = (x, a1)" by fastforce
  let ?c = "case ag_client a1 of Some c \<Rightarrow> c | None \<Rightarrow> dflt"
  obtain res a2 s2 evs where x: "execute_events path parse ?c mode took envs a1 s = ((res, a2, s2), evs)"
    by (metis prod.collapse)
  then have "executeHTTP parse ?c mode envs a1 s = (res, a2, s2)"
    using execute_events_result[of path parse ?c mode took envs a1 s] by simp
  with i x show ?thesis by (simp add: call_events_def run_agent_def split: option.split)
qed

section \<open>Lines\<close>

fun line_ctx :: "'x call_event \<Rightarrow> 'x ctx option" where
  "line_ctx (LogInfo ctx msg) = Some ctx"
| "line_ctx (LogWarn ctx msg) = Some ctx"
| "line_ctx (LogError ctx msg) = Some ctx"
| "line_ctx _ = None"

text \<open>A line that names the trace and the request.\<close>

definition identified :: "'x call_event \<Rightarrow> bool" where
  "identified ev \<longleftrightarrow> (\<forall>c. line_ctx ev = Some c \<longrightarrow> CtxGetTraceID c \<noteq> None \<and> CtxGetRequestID c \<noteq> None)"

lemma line_ctx_logEnd [simp]: "line_ctx (logEnd path a req code since err) = Some (agent_ctx a)"
  by (simp add: logEnd_def Let_def split: option.split)

lemma line_ctx_start [simp]: "line_ctx (log_start path a req) = Some (agent_ctx a)"
  by (simp add: log_start_def)

lemma line_neq [simp]:
  "logEnd path a req code since err \<noteq> BodyOpened" "logEnd path a req code since err \<noteq> BodyClosed"
  "logEnd path a req code since err \<noteq> CtxCancelled" "log_start path a req \<noteq> BodyOpened"
  "log_start path a req \<noteq> BodyClosed" "log_start path a req \<noteq> CtxCancelled"
  by (auto simp: logEnd_def log_start_def Let_def split: option.split)

lemmas line_neq_sym [simp] = line_neq[symmetric]

lemma inject_identified:
  assumes "injectTraceHeaders rnd1 now1 rnd2 now2 order c h = ((c1, rid, None), h1)"
  shows "CtxGetTraceID c1 \<noteq> None \<and> CtxGetRequestID c1 = Some rid"
proof -
  obtain c2 t where e: "ensureTraceContext rnd1 (Some c) = (c2, Inr t)"
    using assms by (cases "ensureTraceContext rnd1 (Some c)"; cases "snd (ensureTraceContext rnd1 (Some c))")
      (auto simp: injectTraceHeaders_def)
  then have "c1 = CtxSetRequestID c2 rid" using assms
    by (auto simp: injectTraceHeaders_def Let_def split: sum.splits option.splits if_splits)
  with ensureTraceContext_keeps[OF e] show ?thesis by (simp add: ctx_named_defs)
qed

lemma prepare_identified:
  assumes "prepareRequest parse E a = (Inr req, rid, a')"
  shows "CtxGetTraceID (agent_ctx a') \<noteq> None \<and> CtxGetRequestID (agent_ctx a') = Some rid"
proof -
  have "\<exists>c h c1 h1. injectTraceHeaders (ae_rnd_trace E) (ae_now_request E) (ae_rnd_request E) (ae_now_inject E) (ae_order E) c h
      = ((c1, rid, None), h1) \<and> ag_ctx a' = Some c1"
    using assms by (fastforce simp: prepareRequest_def Let_def split: if_splits sum.splits prod.splits option.splits)
  then show ?thesis using inject_identified by (fastforce simp: agent_ctx_def)
qed

section \<open>Release\<close>

definition open_bodies :: "'x call_event list \<Rightarrow> int" where
  "open_bodies evs = int (count_list evs BodyOpened) - int (count_list evs BodyClosed)"

lemma open_bodies_simps [simp]:
  "open_bodies [] = 0" "open_bodies (BodyOpened # evs) = open_bodies evs + 1" "open_bodies (BodyClosed # evs) = open_bodies evs - 1"
  "ev \<noteq> BodyOpened \<Longrightarrow> ev \<noteq> BodyClosed \<Longrightarrow> open_bodies (ev # evs) = open_bodies evs"
  "open_bodies (evs @ evs') = open_bodies evs + open_bodies evs'"
  by (simp_all add: open_bodies_def)

text \<open>What the events of a part of a call leave behind: nothing but the stream of a success in stream mode.\<close>

definition streamed :: "executeMode \<Rightarrow> http_response option result \<Rightarrow> bool" where
  "streamed mode res \<longleftrightarrow> mode = executeStream \<and> (\<exists>resp. res = Inr resp)"

definition leaves :: "bool \<Rightarrow> 'x call_event list \<Rightarrow> bool" where
  "leaves b evs \<longleftrightarrow> open_bodies evs = (if b then 1 else 0) \<and> CtxCancelled \<notin> set evs \<and> (\<forall>ev \<in> set evs. identified ev)"

lemma doHTTP_events_leaves:
  assumes "doHTTP_events path parse client mode since E a s = ((res, a', s'), evs)"
  shows "leaves (streamed mode res) evs"
proof -
  obtain x rid a1 where p: "prepareRequest parse E a = (x, rid, a1)" by (metis prod_cases3)
  show ?thesis
  proof (cases x)
    case (Inl e)
    with assms p show ?thesis by (auto simp: doHTTP_events_def leaves_def streamed_def)
  next
    case (Inr req)
    note i = prepare_identified[OF p[unfolded Inr]]
    have l: "identified (logEnd path a1 req code since err)" "identified (log_start path a1 req)" "identified BodyOpened"
      "identified BodyClosed" for code err using i by (auto simp: identified_def)
    show ?thesis using assms l
      by (auto simp: p Inr doHTTP_events_def Let_def leaves_def streamed_def
          split: prod.splits sum.splits if_splits executeMode.splits option.splits)
  qed
qed

lemma leaves_append: "leaves False evs \<Longrightarrow> leaves b evs' \<Longrightarrow> leaves b (evs @ evs')"
  by (auto simp: leaves_def)

lemma leaves_timer: "leaves False evs \<Longrightarrow> leaves False (evs @ [TimerStopped])"
  by (simp add: leaves_def identified_def)

lemma retry_events_leaves:
  "retry_events path parse client mode took envs opt n k a s = ((res, a', s'), evs) \<Longrightarrow> leaves (streamed mode res) evs"
proof (induction n arbitrary: k a s res a' s' evs)
  case 0
  then show ?case by (auto simp: leaves_def streamed_def)
next
  case (Suc n)
  obtain r a1 s1 ev1 where d: "doHTTP_events path parse client mode (took k) (envs k) a s = ((r, a1, s1), ev1)"
    by (metis prod.collapse)
  note l = doHTTP_events_leaves[OF d]
  show ?case
  proof (cases r)
    case (Inr resp)
    with Suc.prems d l show ?thesis by simp
  next
    case (Inl e)
    then have "leaves False ev1" using l by (simp add: streamed_def)
    then show ?thesis using Suc.prems d Inl Suc.IH[of "Suc k" a1 s1]
      by (auto simp: Let_def streamed_def split: if_splits option.splits prod.splits intro: leaves_timer leaves_append)
  qed
qed

lemma execute_events_leaves:
  "execute_events path parse client mode took envs a s = ((res, a', s'), evs) \<Longrightarrow> leaves (streamed mode res) evs"
  by (auto simp: execute_events_def split: option.splits dest: doHTTP_events_leaves retry_events_leaves)

section \<open>Properties\<close>

text \<open>
  C32. A call leaks nothing: once the agent is initialised, the context of a call is cancelled exactly once, at its
  end, and every response body it received has been closed, whatever the outcome; the exception is a
  successful stream, which leaves one body open and the context alive until the caller closes it, and closing it
  does both. Results are those of the call, and every line it logs names its trace and its request.
\<close>

theorem call_releases:
  assumes "call_events path parse dflt mode rnd now took envs ops a s = ((res, s'), evs)"
    and "fst (agent_init dflt rnd now ops a) = None"
  shows "run_agent parse dflt mode rnd now envs ops a s = (res, s') \<and> (\<forall>ev \<in> set evs. identified ev)
    \<and> (let all = (if streamed mode res then evs @ snd (stream_Close err) else evs) in
        open_bodies all = 0 \<and> count_list all CtxCancelled = 1 \<and> last all = CtxCancelled)
    \<and> (streamed mode res \<longrightarrow> open_bodies evs = 1 \<and> CtxCancelled \<notin> set evs)"
proof -
  have r: "run_agent parse dflt mode rnd now envs ops a s = (res, s')"
    using call_events_result[where path = path and took = took] assms(1) by (metis fst_conv)
  obtain a1 where i: "agent_init dflt rnd now ops a = (None, a1)" using assms(2) by (metis prod.collapse)
  obtain res1 a2 s2 ev1 where x:
    "execute_events path parse (case ag_client a1 of Some c \<Rightarrow> c | None \<Rightarrow> dflt) mode took envs a1 s = ((res1, a2, s2), ev1)"
    by (metis prod.collapse)
  note l = execute_events_leaves[OF x]
  have ev: "res = res1" "evs = (if streamed mode res1 then ev1 else ev1 @ [CtxCancelled])"
    using assms(1) i x by (auto simp: call_events_def streamed_def split: executeMode.splits sum.splits)
  have "identified CtxCancelled" by (simp add: identified_def)
  with l ev r show ?thesis by (auto simp: leaves_def stream_Close_def Let_def)
qed

theorem call_releases_witness:
  "\<exists>res s' evs. call_events u_rest (\<lambda>u. Inr demo_url) demo_client executeHandle (Inr ''ab'') 0 (\<lambda>n. 0) (\<lambda>n. demo_env) []
      (demo_agent ''GET'') 0 = ((res, s'), evs) \<and> open_bodies evs = 0 \<and> count_list evs CtxCancelled = 1"
proof -
  obtain res s' evs where c: "call_events u_rest (\<lambda>u. Inr demo_url) demo_client executeHandle (Inr ''ab'') 0 (\<lambda>n. 0)
      (\<lambda>n. demo_env) [] (demo_agent ''GET'') 0 = ((res, s'), evs)" by (metis prod.collapse)
  have i: "fst (agent_init demo_client (Inr ''ab'') 0 [] (demo_agent ''GET'')) = None"
    by (auto simp: agent_init_def Let_def demo_agent_def ensureTraceContext_def NewTraceID_def split: prod.splits sum.splits option.splits list.splits)
  from call_releases[OF c i] c show ?thesis by (simp add: streamed_def Let_def)
qed

text \<open>
  The lines of an attempt: none if no request was sent, otherwise its start and its outcome. The outcome is logged
  as INFO if the attempt succeeded, as WARN if its error carries the code of an expected failure, as ERROR otherwise.
\<close>

lemma attempt_lines:
  assumes "doHTTP_events path parse client mode since E a s = ((res, a', s'), evs)"
  shows "(filter (\<lambda>ev. line_ctx ev \<noteq> None) evs = [] \<and> s' = s)
    \<or> (\<exists>req code. filter (\<lambda>ev. line_ctx ev \<noteq> None) evs =
          [log_start path a' req, logEnd path a' req code since (case res of Inl e \<Rightarrow> Some e | Inr r \<Rightarrow> None)])"
  using assms
  by (auto simp: doHTTP_events_def Let_def split: prod.splits sum.splits if_splits executeMode.splits option.splits) blast+

lemma logEnd_level:
  "(\<exists>c m. logEnd path a req code since err = LogInfo c m) \<longleftrightarrow> err = None"
  "(\<exists>c m. logEnd path a req code since err = LogWarn c m) \<longleftrightarrow> err \<noteq> None \<and> IsExpected err"
  "(\<exists>c m. logEnd path a req code since err = LogError c m) \<longleftrightarrow> IsUnexpected err"
  by (auto simp: logEnd_def Let_def IsUnexpected_def split: option.split)

end
