(* ===== verification/Dkit_Workers.thy ===== *)
theory Dkit_Workers
  imports Redis_Elect Mongo_Elect
begin

text \<open>
  The goroutines of the elections, \<open>goElect\<close> and \<open>goHeartBeat\<close> of \<open>dkit/redis/elect.go\<close> and
  \<open>dkit/mongo/elect.go\<close>: a first run, then one for every tick until the close channel is closed. A tick
  comes with what happened to the store while the worker waited, and with what the round reads from
  outside (the time, what others do between its commands). Log output is left out.

  A Redis server with a clock (locale \<open>redis_clock\<close>) shows that the half-lease period of the tickers keeps a
  healthy leader in office and a healthy node alive.
\<close>

section \<open>The workers\<close>

text \<open>
  The period of the tickers that \<open>goElect\<close> and \<open>goHeartBeat\<close> start. A tick that comes at \<open>t + k * period\<close>
  starts a round then, or up to \<open>late\<close> after it when the worker or its scheduling is slow.
\<close>

definition electTicker :: "election_option \<Rightarrow> duration" where
  "electTicker opt = go_div (eo_UnhealthyTime opt) 2"

record 'r elect_wake =
  ew_env :: "'r \<Rightarrow> 'r"
  ew_now :: time
  ew_mid :: "'r \<Rightarrow> 'r"

fun elect_ticks :: "'r elect_wake list \<Rightarrow> 'r redis_election \<Rightarrow> 'r \<Rightarrow> 'r redis_election \<times> 'r" where
  "elect_ticks [] e r = (e, r)"
| "elect_ticks (w # ws) e r =
     (case runElectionOnce (ew_now w) (ew_mid w) e (ew_env w r) of (e, r) \<Rightarrow> elect_ticks ws e r)"

fun on_ticks :: "duration \<Rightarrow> duration \<Rightarrow> time \<Rightarrow> 'r elect_wake list \<Rightarrow> bool" where
  "on_ticks period late t [] \<longleftrightarrow> True"
| "on_ticks period late t (w # ws) \<longleftrightarrow>
     t + period \<le> ew_now w \<and> ew_now w \<le> t + period + late \<and> on_ticks period late (t + period) ws"

definition goElect :: "time \<Rightarrow> ('r \<Rightarrow> 'r) \<Rightarrow> 'r elect_wake list \<Rightarrow> 'r redis_election \<Rightarrow> 'r \<Rightarrow> 'r redis_election \<times> 'r" where
  "goElect now mid ws e r = (case runElectionOnce now mid e r of (e, r) \<Rightarrow> elect_ticks ws e r)"

fun beat_ticks :: "('r \<Rightarrow> 'r) list \<Rightarrow> 'r redis_election \<Rightarrow> 'r \<Rightarrow> 'r" where
  "beat_ticks [] e r = r"
| "beat_ticks (env # envs) e r = (case heartBeat e (env r) of (err, r) \<Rightarrow> beat_ticks envs e r)"

definition goHeartBeat :: "('r \<Rightarrow> 'r) list \<Rightarrow> 'r redis_election \<Rightarrow> 'r \<Rightarrow> 'r" where
  "goHeartBeat envs e r = (case heartBeat e r of (err, r) \<Rightarrow> beat_ticks envs e r)"

fun mongo_elect_ticks :: "'c elect_wake list \<Rightarrow> ('c, 'h) mongo_election \<Rightarrow> 'c \<Rightarrow> ('c, 'h) mongo_election \<times> 'c" where
  "mongo_elect_ticks [] e c = (e, c)"
| "mongo_elect_ticks (w # ws) e c =
     (case mongo_runElectionOnce (ew_now w) (ew_mid w) e (ew_env w c) of (e, c) \<Rightarrow> mongo_elect_ticks ws e c)"

definition mongo_goElect ::
    "time \<Rightarrow> ('c \<Rightarrow> 'c) \<Rightarrow> 'c elect_wake list \<Rightarrow> ('c, 'h) mongo_election \<Rightarrow> 'c \<Rightarrow> ('c, 'h) mongo_election \<times> 'c" where
  "mongo_goElect now mid ws e c =
     (case mongo_runElectionOnce now mid e c of (e, c) \<Rightarrow> mongo_elect_ticks ws e c)"

fun mongo_beat_ticks :: "(('h \<Rightarrow> 'h) \<times> time) list \<Rightarrow> ('c, 'h) mongo_election \<Rightarrow> 'h \<Rightarrow> 'h" where
  "mongo_beat_ticks [] e h = h"
| "mongo_beat_ticks ((env, now) # ws) e h = (case mongo_heartBeat now e (env h) of (err, h) \<Rightarrow> mongo_beat_ticks ws e h)"

definition mongo_goHeartBeat :: "time \<Rightarrow> (('h \<Rightarrow> 'h) \<times> time) list \<Rightarrow> ('c, 'h) mongo_election \<Rightarrow> 'h \<Rightarrow> 'h" where
  "mongo_goHeartBeat now ws e h = (case mongo_heartBeat now e h of (err, h) \<Rightarrow> mongo_beat_ticks ws e h)"

section \<open>A server with a clock\<close>

text \<open>
  \<open>tm r\<close> is the time of the server, \<open>dl r k\<close> when key \<open>k\<close> expires. Expiry times have milliseconds.
\<close>

definition lease :: "'r redis_election \<Rightarrow> duration" where
  "lease e = Milliseconds (eo_UnhealthyTime (el_opt e)) * Millisecond"

locale redis_clock = redis_server cli live
  for cli :: "'r redis_client" and live :: "'r \<Rightarrow> string \<Rightarrow> string option" +
  fixes tm :: "'r \<Rightarrow> time" and dl :: "'r \<Rightarrow> string \<Rightarrow> time"
  assumes Set_expiry: "rc_Set cli r k v ttl = (Inr u, r') \<Longrightarrow> Millisecond \<le> ttl \<Longrightarrow>
      tm r' + Milliseconds ttl * Millisecond \<le> dl r' k"
    and pexpire_expiry: "rc_call_pexpire cli r k ms = (n, r') \<Longrightarrow> 0 < ms \<Longrightarrow> live r k \<noteq> None \<Longrightarrow>
      tm r' + ms * Millisecond \<le> dl r' k"

text \<open>
  A wait shorter than \<open>d\<close> in which nobody else touches key \<open>k\<close>: the key keeps its value until it expires.
\<close>

definition undisturbed ::
    "('r \<Rightarrow> string \<Rightarrow> string option) \<Rightarrow> ('r \<Rightarrow> time) \<Rightarrow> ('r \<Rightarrow> string \<Rightarrow> time) \<Rightarrow> string \<Rightarrow> duration \<Rightarrow> ('r \<Rightarrow> 'r) \<Rightarrow> bool" where
  "undisturbed live tm dl k d env \<longleftrightarrow>
     (\<forall>x. tm (env x) < tm x + d \<and> (\<forall>v. live x k = Some v \<longrightarrow> tm (env x) < dl x k \<longrightarrow> live (env x) k = Some v))"

text \<open>
  A wait for the next tick of the election worker is such a wait within the lease, even if the round starts
  late by nearly another period: two periods are the lease, less what its milliseconds cut off.
\<close>

lemma electTicker_half:
  assumes "0 \<le> eo_UnhealthyTime opt"
  shows "2 * electTicker opt \<le> eo_UnhealthyTime opt" and "eo_UnhealthyTime opt \<le> 2 * electTicker opt + 1"
  using assms by (simp_all add: electTicker_def go_div_nonneg)

lemma undisturbed_tick:
  assumes "lease_ok e" and "late + Millisecond \<le> electTicker (el_opt e)"
    and "undisturbed live tm dl k (electTicker (el_opt e) + late) env"
  shows "undisturbed live tm dl k (lease e) env"
proof -
  have pos: "0 \<le> eo_UnhealthyTime (el_opt e)" using assms(1) by (simp add: lease_ok_def)
  then have "eo_UnhealthyTime (el_opt e) < lease e + Millisecond"
    by (simp add: lease_def Milliseconds_def go_div_nonneg)
  with electTicker_half(1)[OF pos] assms(2) have "electTicker (el_opt e) + late \<le> lease e" by linarith
  then have "tm (env x) < tm x + lease e" if "tm (env x) < tm x + (electTicker (el_opt e) + late)" for x
    using that by linarith
  with assms(3) show ?thesis unfolding undisturbed_def by blast
qed

text \<open>Key \<open>k\<close> is held by \<open>v\<close> for at least \<open>d\<close> more.\<close>

definition held ::
    "('r \<Rightarrow> string \<Rightarrow> string option) \<Rightarrow> ('r \<Rightarrow> time) \<Rightarrow> ('r \<Rightarrow> string \<Rightarrow> time) \<Rightarrow> string \<Rightarrow> string \<Rightarrow> duration \<Rightarrow> 'r \<Rightarrow> bool" where
  "held live tm dl k v d r \<longleftrightarrow> live r k = Some v \<and> tm r + d \<le> dl r k"

lemma held_wait: "held live tm dl k v d r \<Longrightarrow> undisturbed live tm dl k d env \<Longrightarrow> live (env r) k = Some v"
  by (force simp: held_def undisturbed_def)

text \<open>A server that answers, as far as the workers ask.\<close>

definition redis_answers :: "'r redis_client \<Rightarrow> bool" where
  "redis_answers c \<longleftrightarrow> (\<forall>x s. \<exists>n x'. rc_Eval c x s = (Inr n, x')) \<and> (\<forall>x k v d. \<exists>u x'. rc_Set c x k v d = (Inr u, x'))"

context redis_clock
begin

lemma renewal_holds:
  assumes "redis_answers cli" and "el_redisCli e = cli" and "lease_ok e" and "IsLeader e"
    and "live r (leaderKey e) = Some (eo_NodeKey (el_opt e))" and "may_elect now (el_opt e)"
  obtains r' where "runElectionOnce now mid e r = (markReady e, r')"
    and "held live tm dl (leaderKey e) (eo_NodeKey (el_opt e)) (lease e) r'"
proof -
  let ?k = "leaderKey e" and ?v = "eo_NodeKey (el_opt e)" and ?ms = "Milliseconds (eo_UnhealthyTime (el_opt e))"
  obtain n r' where ev: "rc_Eval cli r (continueLeaderScript cli ?k ?v ?ms) = (Inr n, r')"
    using assms(1) unfolding redis_answers_def by blast
  from Eval_ran[OF ev] have s: "rc_call_pexpire cli r ?k ?ms = (n, r')"
    using assms(5) by (simp add: continueLeaderScript_def call_get)
  note ms = lease_ok_ms[OF assms(3)]
  from call_pexpire[OF ms s] assms(5) have n: "n \<noteq> 0" "live r' = live r" by auto
  have "held live tm dl ?k ?v (lease e) r'"
    using pexpire_expiry[OF s ms] n assms(5) by (simp add: held_def lease_def)
  moreover have "runElectionOnce now mid e r = (markReady e, r')"
    using assms(2,4,6) ev n by (simp add: runElectionOnce_def elect_def continueLeader_def)
  ultimately show ?thesis by (rule that[rotated])
qed

lemma leader_in_office:
  assumes "redis_answers cli" and "el_redisCli e = cli" and "lease_ok e"
    and "\<forall>w \<in> set ws. may_elect (ew_now w) (el_opt e) \<and> undisturbed live tm dl (leaderKey e) (lease e) (ew_env w)"
    and "IsLeader e" and "held live tm dl (leaderKey e) (eo_NodeKey (el_opt e)) (lease e) r"
  shows "case elect_ticks ws e r of (e', r') \<Rightarrow> IsLeader e' \<and> el_leader e' = el_leader e
    \<and> held live tm dl (leaderKey e) (eo_NodeKey (el_opt e)) (lease e) r'"
  using assms(2-6)
proof (induction ws arbitrary: e r)
  case (Cons w ws)
  have "live (ew_env w r) (leaderKey e) = Some (eo_NodeKey (el_opt e))"
    using held_wait Cons.prems(3,5) by fastforce
  moreover have "may_elect (ew_now w) (el_opt e)" using Cons.prems(3) by simp
  ultimately obtain r' where r': "runElectionOnce (ew_now w) (ew_mid w) e (ew_env w r) = (markReady e, r')"
    "held live tm dl (leaderKey e) (eo_NodeKey (el_opt e)) (lease e) r'"
    using renewal_holds[OF assms(1) Cons.prems(1,2,4)] by blast
  have same: "lease_ok (markReady e)" "lease (markReady e) = lease e"
    using Cons.prems(2) by (simp_all add: lease_ok_def lease_def)
  have "case elect_ticks ws (markReady e) r' of (e', r') \<Rightarrow> IsLeader e' \<and> el_leader e' = el_leader (markReady e)
    \<and> held live tm dl (leaderKey (markReady e)) (eo_NodeKey (el_opt (markReady e))) (lease (markReady e)) r'"
    by (rule Cons.IH) (use Cons.prems r'(2) same in simp_all)
  with r'(1) same show ?case by simp
qed simp

lemma goElect_in_office:
  assumes "redis_answers cli" and "el_redisCli e = cli" and "lease_ok e" and "IsLeader e"
    and "live r (leaderKey e) = Some (eo_NodeKey (el_opt e))" and "may_elect now (el_opt e)"
    and "\<forall>w \<in> set ws. may_elect (ew_now w) (el_opt e) \<and> undisturbed live tm dl (leaderKey e) (lease e) (ew_env w)"
    and "undisturbed live tm dl (leaderKey e) (lease e) env"
  shows "case goElect now mid ws e r of (e', r') \<Rightarrow> IsLeader e' \<and> el_leader e' = el_leader e
    \<and> live (env r') (leaderKey e) = Some (eo_NodeKey (el_opt e))"
proof -
  obtain r1 where r1: "runElectionOnce now mid e r = (markReady e, r1)"
    "held live tm dl (leaderKey e) (eo_NodeKey (el_opt e)) (lease e) r1"
    by (rule renewal_holds[OF assms(1-6)])
  have same: "lease_ok (markReady e)" "lease (markReady e) = lease e"
    using assms(3) by (simp_all add: lease_ok_def lease_def)
  have "case elect_ticks ws (markReady e) r1 of (e', r') \<Rightarrow> IsLeader e' \<and> el_leader e' = el_leader (markReady e)
    \<and> held live tm dl (leaderKey (markReady e)) (eo_NodeKey (el_opt (markReady e))) (lease (markReady e)) r'"
    by (rule leader_in_office[OF assms(1)]) (use assms r1(2) same in simp_all)
  with r1(1) same held_wait[OF _ assms(8)] show ?thesis by (auto simp: goElect_def split: prod.splits)
qed

text \<open>The same with the ticker of the code: every wait is one period, and up to \<open>late\<close> more.\<close>

lemma goElect_on_ticks:
  assumes "redis_answers cli" and "el_redisCli e = cli" and "lease_ok e" and "IsLeader e"
    and "live r (leaderKey e) = Some (eo_NodeKey (el_opt e))" and "may_elect now (el_opt e)"
    and late: "late + Millisecond \<le> electTicker (el_opt e)"
    and waits: "\<forall>env \<in> insert rest (ew_env ` set ws).
        undisturbed live tm dl (leaderKey e) (electTicker (el_opt e) + late) env"
    and may: "\<forall>w \<in> set ws. may_elect (ew_now w) (el_opt e)"
  shows "case goElect now mid ws e r of (e', r') \<Rightarrow> IsLeader e' \<and> el_leader e' = el_leader e
    \<and> live (rest r') (leaderKey e) = Some (eo_NodeKey (el_opt e))"
  by (rule goElect_in_office[OF assms(1-6)]) (use may waits in \<open>auto intro: undisturbed_tick[OF assms(3) late]\<close>)

lemma beat_holds:
  assumes "redis_answers cli" and "el_redisCli e = cli" and "lease_ok e"
  obtains r' where "heartBeat e r = (None, r')" and "held live tm dl (hb_key e (eo_NodeKey (el_opt e))) (eo_NodeKey (el_opt e)) (lease e) r'"
proof -
  let ?k = "hb_key e (eo_NodeKey (el_opt e))" and ?v = "eo_NodeKey (el_opt e)"
  obtain u r' where s: "rc_Set cli r ?k ?v (eo_UnhealthyTime (el_opt e)) = (Inr u, r')"
    using assms(1) unfolding redis_answers_def by blast
  have "held live tm dl ?k ?v (lease e) r'"
    using Set_stored[OF s] Set_expiry[OF s] assms(3) by (simp add: held_def lease_def lease_ok_def)
  moreover have "heartBeat e r = (None, r')" using assms(2) s by (simp add: heartBeat_def hb_key_def)
  ultimately show ?thesis by (rule that[rotated])
qed

lemma beats_hold:
  assumes "redis_answers cli" and "el_redisCli e = cli" and "lease_ok e"
  shows "held live tm dl (hb_key e (eo_NodeKey (el_opt e))) (eo_NodeKey (el_opt e)) (lease e) (goHeartBeat envs e r)"
proof -
  have "held live tm dl (hb_key e (eo_NodeKey (el_opt e))) (eo_NodeKey (el_opt e)) (lease e) r \<Longrightarrow>
    held live tm dl (hb_key e (eo_NodeKey (el_opt e))) (eo_NodeKey (el_opt e)) (lease e) (beat_ticks envs e r)" for r
  proof (induction envs arbitrary: r)
    case (Cons env envs)
    from beat_holds[OF assms, of "env r"] Cons.IH show ?case by (metis beat_ticks.simps(2) case_prod_conv)
  qed simp
  with beat_holds[OF assms, of r] show ?thesis by (metis goHeartBeat_def case_prod_conv)
qed

end

section \<open>The reference server\<close>

definition mem_deadline :: "mem_server \<Rightarrow> string \<Rightarrow> time" where
  "mem_deadline r k = (case map_of (ms_tab r) k of Some (v, e) \<Rightarrow> e | None \<Rightarrow> ms_now r)"

lemma mem_deadline_put [simp]:
  "mem_deadline (mem_put r k v ttl) k = ms_now r + max ttl 1" "ms_now (mem_put r k v ttl) = ms_now r"
  by (simp_all add: mem_deadline_def mem_put_def)

lemma Milliseconds_le: "Millisecond \<le> d \<Longrightarrow> Milliseconds d * Millisecond \<le> d"
  by (simp add: Milliseconds_def go_div_nonneg)

interpretation memt: redis_clock mem_client mem_live ms_now mem_deadline
proof (unfold_locales, goal_cases)
  case (1 r k v ttl u r')
  then have "r' = mem_put r k v ttl" by (simp add: mem_client_def)
  with Milliseconds_le[OF 1(2)] show ?case by simp
next
  case (2 r k ms n r')
  then obtain v where "r' = mem_put r k v (ms * Millisecond)" by (auto simp: mem_client_def)
  then show ?case by simp
qed

lemma mem_answers: "redis_answers mem_client"
  unfolding redis_answers_def mem_client_def by (auto split: prod.split)

lemma mem_wait: "0 \<le> d \<Longrightarrow> d < b \<Longrightarrow> undisturbed mem_live ms_now mem_deadline k b (\<lambda>x. mem_advance x d)"
  by (auto simp: undisturbed_def mem_advance_def mem_live_def mem_deadline_def split: option.splits if_splits)

section \<open>Properties\<close>

text \<open>
  C13. A healthy Redis leader stays in office. A leader named by the leader record, on a server that
  answers, keeps its flag and publishes no further event through every run of its election worker, as long
  as it may elect, the ticks come within the lease (the ticker runs at half of it, \<open>goElect_on_ticks\<close>) and
  nobody else touches the record; and during the wait after the last round the record still names it.
\<close>

theorem redis_leader_stays:
  assumes "redis_clock c lv tm dl" and "redis_answers c" and "el_redisCli e = c" and "lease_ok e" and "IsLeader e"
    and "lv r (leaderKey e) = Some (eo_NodeKey (el_opt e))" and "may_elect now (el_opt e)"
    and "\<forall>w \<in> set ws. may_elect (ew_now w) (el_opt e) \<and> undisturbed lv tm dl (leaderKey e) (lease e) (ew_env w)"
    and "undisturbed lv tm dl (leaderKey e) (lease e) env"
  shows "case goElect now mid ws e r of (e', r') \<Rightarrow> IsLeader e' \<and> el_leader e' = el_leader e
    \<and> lv (env r') (leaderKey e) = Some (eo_NodeKey (el_opt e))"
  by (rule redis_clock.goElect_in_office[OF assms])

theorem redis_leader_stays_witness:
  "let k = buildLeaderKey ''dkit'' ''jobs''; r = mem_put (demo_srv 0) k ''me'' (5 * Second);
       w = \<lparr>ew_env = \<lambda>x. mem_advance x (2500 * Millisecond), ew_now = 0, ew_mid = id\<rparr>;
       (e', r') = goElect 0 id [w, w, w] (set_flag True (demo_node ''me'')) r
   in IsLeader e' \<and> mem_live (mem_advance r' (2500 * Millisecond)) k = Some ''me''"
proof -
  let ?e = "set_flag True (demo_node ''me'')" and ?k = "buildLeaderKey ''dkit'' ''jobs''"
  let ?w = "\<lparr>ew_env = \<lambda>x. mem_advance x (2500 * Millisecond), ew_now = 0, ew_mid = id\<rparr>"
  have l: "lease ?e = 5 * Second" by (simp add: lease_def Milliseconds_def go_div_nonneg)
  have w: "undisturbed mem_live ms_now mem_deadline ?k (lease ?e) (\<lambda>x. mem_advance x (2500 * Millisecond))"
    unfolding l by (rule mem_wait) simp_all
  have h: "el_redisCli ?e = mem_client" "lease_ok ?e" "IsLeader ?e" "may_elect 0 (el_opt ?e)"
    "mem_live (mem_put (demo_srv 0) ?k ''me'' (5 * Second)) (leaderKey ?e) = Some (eo_NodeKey (el_opt ?e))"
    by (simp_all add: lease_ok_def)
  have ws: "\<forall>x \<in> set [?w, ?w, ?w]. may_elect (ew_now x) (el_opt ?e)
      \<and> undisturbed mem_live ms_now mem_deadline (leaderKey ?e) (lease ?e) (ew_env x)"
    using w by simp
  have k: "leaderKey ?e = ?k" "eo_NodeKey (el_opt ?e) = ''me''" by simp_all
  from redis_leader_stays[OF memt.redis_clock_axioms mem_answers h(1,2,3,5,4) ws w[folded k(1)], where mid = id, unfolded k]
  show ?thesis unfolding Let_def by (auto split: prod.splits)
qed

text \<open>
  A node whose heartbeat worker runs is alive: after every beat, and until the next is due, its key is live.
\<close>

lemma redis_node_alive:
  assumes "redis_clock c lv tm dl" and "redis_answers c" and "el_redisCli e = c" and "lease_ok e"
    and "undisturbed lv tm dl (hb_key e (eo_NodeKey (el_opt e))) (lease e) env"
  shows "lv (env (goHeartBeat envs e r)) (hb_key e (eo_NodeKey (el_opt e))) = Some (eo_NodeKey (el_opt e))"
  by (rule held_wait[OF redis_clock.beats_hold[OF assms(1-4)] assms(5)])

end
