(* ===== verification/Mongo_Workers.thy ===== *)
theory Mongo_Workers
  imports Dkit_Workers
begin

text \<open>
  What the workers of the MongoDB election achieve (\<open>mongo_goElect\<close> and \<open>mongo_goHeartBeat\<close> of
  \<open>Dkit_Workers\<close>): a healthy leader stays in office, and a healthy node is among the alive nodes. MongoDB
  has no lease of its own: the documents carry the time they expire at, as computed from the clock of the
  node, so the ticks are given with its clock readings.
\<close>

section \<open>Healthy collections\<close>

definition mongo_answers :: "('c, 'd) mongo_coll \<Rightarrow> bool" where
  "mongo_answers cls \<longleftrightarrow> (\<forall>c f u ups. \<exists>n m c'. mc_UpdateOne cls c f u ups = (Inr (n, m), c'))"

text \<open>
  Until time \<open>t\<close> others leave the document of \<open>k\<close> alone if it satisfies \<open>mine\<close> and has not expired at \<open>t\<close>:
  neither the TTL monitor nor a takeover touches it.
\<close>

definition spares ::
    "('c \<Rightarrow> string \<Rightarrow> 'd option) \<Rightarrow> ('d \<Rightarrow> time) \<Rightarrow> ('d \<Rightarrow> bool) \<Rightarrow> string \<Rightarrow> time \<Rightarrow> ('c \<Rightarrow> 'c) \<Rightarrow> bool" where
  "spares docs expires mine k t env \<longleftrightarrow>
     (\<forall>c d. docs c k = Some d \<longrightarrow> mine d \<longrightarrow> t \<le> expires d \<longrightarrow> docs (env c) k = Some d)"

text \<open>The document of \<open>k\<close> is ours and expires at \<open>t\<close>.\<close>

definition kept ::
    "('c \<Rightarrow> string \<Rightarrow> 'd option) \<Rightarrow> ('d \<Rightarrow> time) \<Rightarrow> ('d \<Rightarrow> bool) \<Rightarrow> string \<Rightarrow> time \<Rightarrow> 'c \<Rightarrow> bool" where
  "kept docs expires mine k t c \<longleftrightarrow> (\<exists>d. docs c k = Some d \<and> mine d \<and> expires d = t)"

lemma kept_wait:
  "kept docs ex mine k t c \<Longrightarrow> spares docs ex mine k t' env \<Longrightarrow> t' \<le> t \<Longrightarrow> kept docs ex mine k t (env c)"
  by (auto simp: kept_def spares_def)

section \<open>The election worker\<close>

definition leads_doc :: "('c, 'h) mongo_election \<Rightarrow> LeaderPayload \<Rightarrow> bool" where
  "leads_doc e d \<longleftrightarrow> lp_NodeKey d = nkey e"

text \<open>When the leader document expires that a node writes at \<open>now\<close>.\<close>

definition mongo_until :: "time \<Rightarrow> ('c, 'h) mongo_election \<Rightarrow> time" where
  "mongo_until now e = bson_time (now + eo_UnhealthyTime (me_opt e))"

text \<open>Every tick comes before what was written at the one before it expires.\<close>

fun in_time :: "time \<Rightarrow> ('c, 'h) mongo_election \<Rightarrow> 'c elect_wake list \<Rightarrow> bool" where
  "in_time now e [] \<longleftrightarrow> True"
| "in_time now e (w # ws) \<longleftrightarrow> ew_now w \<le> mongo_until now e \<and> in_time (ew_now w) e ws"

fun last_tick :: "time \<Rightarrow> 'c elect_wake list \<Rightarrow> time" where
  "last_tick now [] = now"
| "last_tick now (w # ws) = last_tick (ew_now w) ws"

text \<open>
  The ticker of the code is in time: its period is half the lease, so a round that starts late by up to a
  period, less a millisecond, finds the document the round before wrote.
\<close>

lemma on_ticks_in_time:
  assumes "0 \<le> eo_UnhealthyTime (me_opt e)" and "late + Millisecond \<le> electTicker (me_opt e)"
    and "on_ticks (electTicker (me_opt e)) late t ws" and "t \<le> now"
  shows "in_time now e ws"
  using assms(3,4)
proof (induction ws arbitrary: t now)
  case (Cons w ws)
  have "ew_now w \<le> now + eo_UnhealthyTime (me_opt e) - Millisecond"
    using Cons.prems assms(2) electTicker_half(1)[OF assms(1)] by simp
  moreover have "x - Millisecond \<le> bson_time x" for x unfolding bson_time_def by simp
  ultimately have "ew_now w \<le> mongo_until now e" unfolding mongo_until_def by (meson order_trans)
  moreover have "in_time (ew_now w) e ws"
    by (rule Cons.IH[of "t + electTicker (me_opt e)"]) (use Cons.prems in simp_all)
  ultimately show ?case by simp
qed simp

lemma workers_markReady [simp]:
  "leads_doc (mongo_markReady e) = leads_doc e" "mongo_until t (mongo_markReady e) = mongo_until t e"
  "in_time t (mongo_markReady e) ws = in_time t e ws" "mongo_leaderKey (mongo_markReady e) = mongo_leaderKey e"
  by (induction ws arbitrary: t) (simp_all add: leads_doc_def fun_eq_iff mongo_until_def mongo_leaderKey_def)

context mongo_leaders
begin

lemma mongo_renewal:
  assumes "mongo_answers cls" and "me_electCls e = cls" and "mongo_IsLeader e" and "may_elect now (me_opt e)"
    and "mongo_holder docs (iso_key e) c = Some (nkey e)"
  obtains c' where "mongo_runElectionOnce now mid e c = (mongo_markReady e, c')"
    and "kept docs lp_Expires (leads_doc e) (mongo_leaderKey e) (mongo_until now e) c'"
proof -
  let ?u = "renew_leader (now + eo_UnhealthyTime (me_opt e))"
  obtain n m c' where f: "mc_UpdateOne cls c (\<lambda>d. lp_ID d = mongo_leaderKey e \<and> lp_NodeKey d = nkey e) ?u None
      = (Inr (n, m), c')"
    using assms(1) unfolding mongo_answers_def by blast
  from assms(5) obtain d where d: "docs c (mongo_leaderKey e) = Some d" "lp_NodeKey d = nkey e"
    by (auto simp: mongo_holder_def mongo_leaderKey_def)
  have n: "n \<noteq> 0"
  proof
    assume "n = 0"
    with UpdateOne_none[of c _ ?u None m c'] f d docs_id[OF d(1)] show False by blast
  qed
  from UpdateOne_matched[OF f n] obtain k0 d0 where d0: "docs c k0 = Some d0" "lp_ID d0 = mongo_leaderKey e"
    "lp_NodeKey d0 = nkey e" "docs c' = (docs c)(k0 \<mapsto> ?u d0)" by auto
  with docs_id[OF d0(1)] have "kept docs lp_Expires (leads_doc e) (mongo_leaderKey e) (mongo_until now e) c'"
    by (simp add: kept_def leads_doc_def mongo_until_def renew_leader_def)
  moreover have "mongo_runElectionOnce now mid e c = (mongo_markReady e, c')"
    using assms(2-4) f n by (simp add: mongo_runElectionOnce_def mongo_elect_def mongo_continueLeader_def)
  ultimately show ?thesis by (rule that[rotated])
qed

lemma mongo_in_office:
  assumes "mongo_answers cls" and "me_electCls e = cls" and "mongo_IsLeader e" and "in_time now e ws"
    and "\<forall>w \<in> set ws. may_elect (ew_now w) (me_opt e)
      \<and> spares docs lp_Expires (leads_doc e) (mongo_leaderKey e) (ew_now w) (ew_env w)"
    and "kept docs lp_Expires (leads_doc e) (mongo_leaderKey e) (mongo_until now e) c"
  shows "case mongo_elect_ticks ws e c of (e', c') \<Rightarrow> mongo_IsLeader e' \<and> me_leader e' = me_leader e
    \<and> kept docs lp_Expires (leads_doc e) (mongo_leaderKey e) (mongo_until (last_tick now ws) e) c'"
  using assms(2-6)
proof (induction ws arbitrary: now e c)
  case (Cons w ws)
  have "kept docs lp_Expires (leads_doc e) (mongo_leaderKey e) (mongo_until now e) (ew_env w c)"
    using kept_wait[OF Cons.prems(5), of "ew_now w" "ew_env w"] Cons.prems(3,4) by simp
  then have "mongo_holder docs (iso_key e) (ew_env w c) = Some (nkey e)"
    by (auto simp: kept_def leads_doc_def mongo_holder_def mongo_leaderKey_def)
  moreover have "may_elect (ew_now w) (me_opt e)" using Cons.prems(4) by simp
  ultimately obtain c1 where c1: "mongo_runElectionOnce (ew_now w) (ew_mid w) e (ew_env w c) = (mongo_markReady e, c1)"
    "kept docs lp_Expires (leads_doc e) (mongo_leaderKey e) (mongo_until (ew_now w) e) c1"
    using mongo_renewal[OF assms(1) Cons.prems(1,2)] by blast
  from Cons.IH[of "mongo_markReady e" "ew_now w" c1] Cons.prems c1 show ?case by (simp split: prod.splits)
qed simp

lemma mongo_goElect_in_office:
  assumes "mongo_answers cls" and "me_electCls e = cls" and "mongo_IsLeader e"
    and "may_elect now (me_opt e)" and "mongo_holder docs (iso_key e) c = Some (nkey e)" and "in_time now e ws"
    and "\<forall>w \<in> set ws. may_elect (ew_now w) (me_opt e)
      \<and> spares docs lp_Expires (leads_doc e) (mongo_leaderKey e) (ew_now w) (ew_env w)"
  shows "case mongo_goElect now mid ws e c of (e', c') \<Rightarrow> mongo_IsLeader e' \<and> me_leader e' = me_leader e
    \<and> kept docs lp_Expires (leads_doc e) (mongo_leaderKey e) (mongo_until (last_tick now ws) e) c'"
proof -
  obtain c1 where c1: "mongo_runElectionOnce now mid e c = (mongo_markReady e, c1)"
    "kept docs lp_Expires (leads_doc e) (mongo_leaderKey e) (mongo_until now e) c1"
    by (rule mongo_renewal[OF assms(1-5)])
  from mongo_in_office[OF assms(1), of "mongo_markReady e" now ws c1] assms c1
  show ?thesis by (simp add: mongo_goElect_def split: prod.splits)
qed

text \<open>The same with the ticker of the code.\<close>

lemma mongo_goElect_on_ticks:
  assumes "mongo_answers cls" and "me_electCls e = cls" and "mongo_IsLeader e"
    and "may_elect now (me_opt e)" and "mongo_holder docs (iso_key e) c = Some (nkey e)"
    and "0 \<le> eo_UnhealthyTime (me_opt e)" and "late + Millisecond \<le> electTicker (me_opt e)"
    and "on_ticks (electTicker (me_opt e)) late now ws"
    and "\<forall>w \<in> set ws. may_elect (ew_now w) (me_opt e)
      \<and> spares docs lp_Expires (leads_doc e) (mongo_leaderKey e) (ew_now w) (ew_env w)"
  shows "case mongo_goElect now mid ws e c of (e', c') \<Rightarrow> mongo_IsLeader e' \<and> me_leader e' = me_leader e
    \<and> kept docs lp_Expires (leads_doc e) (mongo_leaderKey e) (mongo_until (last_tick now ws) e) c'"
  by (rule mongo_goElect_in_office[OF assms(1-5) on_ticks_in_time[OF assms(6-8) order_refl] assms(9)])

end

section \<open>The heartbeat worker\<close>

definition beat_doc :: "('c, 'h) mongo_election \<Rightarrow> Payload \<Rightarrow> bool" where
  "beat_doc e d \<longleftrightarrow> hp_IsolationKey d = iso_key e"

fun last_beat :: "time \<Rightarrow> (('h \<Rightarrow> 'h) \<times> time) list \<Rightarrow> time" where
  "last_beat now [] = now"
| "last_beat now ((env, t) # ws) = last_beat t ws"

locale mongo_beats = mongo_collection cls docs hp_NodeKey
  for cls :: "('h, Payload) mongo_coll" and docs :: "'h \<Rightarrow> string \<Rightarrow> Payload option"
begin

lemma beat_kept:
  assumes "mongo_answers cls" and "me_hbCls e = Some cls"
  obtains h' where "mongo_heartBeat now e h = (None, h')" and "kept docs hp_Expires (beat_doc e) (nkey e) (mongo_until now e) h'"
proof -
  let ?u = "\<lambda>d. d\<lparr>hp_Expires := mongo_until now e, hp_IsolationKey := iso_key e\<rparr>"
  let ?d = "\<lparr>hp_NodeKey = nkey e, hp_IsolationKey = iso_key e, hp_Expires = mongo_until now e\<rparr>"
  obtain n m h' where f: "mc_UpdateOne cls h (\<lambda>d. hp_NodeKey d = nkey e) ?u (Some ?d) = (Inr (n, m), h')"
    using assms(1) unfolding mongo_answers_def by blast
  have "kept docs hp_Expires (beat_doc e) (nkey e) (mongo_until now e) h'"
  proof (cases "n = 0")
    case True
    with UpdateOne_none f have "docs h' = (docs h)(nkey e \<mapsto> ?d)" by fastforce
    then show ?thesis by (simp add: kept_def beat_doc_def)
  next
    case False
    from UpdateOne_matched[OF f this] obtain k d where d: "docs h k = Some d" "hp_NodeKey d = nkey e"
      "docs h' = (docs h)(k \<mapsto> ?u d)" by auto
    with docs_id[OF d(1)] show ?thesis by (simp add: kept_def beat_doc_def)
  qed
  moreover have "mongo_heartBeat now e h = (None, h')"
    using assms(2) f by (simp add: mongo_heartBeat_def mongo_until_def Let_def)
  ultimately show ?thesis by (rule that[rotated])
qed

lemma mongo_beats_keep:
  assumes "mongo_answers cls" and "me_hbCls e = Some cls"
  shows "kept docs hp_Expires (beat_doc e) (nkey e) (mongo_until (last_beat now ws) e) (mongo_goHeartBeat now ws e h)"
proof -
  have "kept docs hp_Expires (beat_doc e) (nkey e) (mongo_until now e) h \<Longrightarrow>
    kept docs hp_Expires (beat_doc e) (nkey e) (mongo_until (last_beat now ws) e) (mongo_beat_ticks ws e h)" for now h
  proof (induction ws arbitrary: now h)
    case (Cons x ws)
    obtain env t where x: "x = (env, t)" by fastforce
    from beat_kept[OF assms, of t "env h"] Cons.IH x show ?case
      by (metis last_beat.simps(2) mongo_beat_ticks.simps(2) case_prod_conv)
  qed simp
  with beat_kept[OF assms, of now h] show ?thesis by (metis mongo_goHeartBeat_def case_prod_conv)
qed

lemma kept_alive:
  assumes "me_hbCls e = Some cls" and "kept docs hp_Expires (beat_doc e) (nkey e) t h" and "bson_time now \<le> t"
  shows "case mongo_AliveNodes now e h of (Inr ns, h') \<Rightarrow> nkey e \<in> set ns | (Inl err, h') \<Rightarrow> True"
proof -
  let ?f = "\<lambda>d. bson_time now \<le> hp_Expires d \<and> hp_IsolationKey d = iso_key e"
  from assms(2,3) obtain d where d: "docs h (nkey e) = Some d" "?f d" by (auto simp: kept_def beat_doc_def)
  have "nkey e \<in> hp_NodeKey ` set ds" if "mc_Find cls h ?f = (Inr ds, h')" for ds h'
    using Find_ok[OF that] d docs_id[OF d(1)] by force
  with assms(1) show ?thesis by (auto simp: mongo_AliveNodes_def split: sum.splits prod.splits)
qed

end

interpretation membt: mongo_beats "mem_coll hp_NodeKey" "mem_docs hp_NodeKey" ..

lemma mem_coll_answers: "mongo_answers (mem_coll idf)"
  by (auto simp: mongo_answers_def split: option.split)

section \<open>Healthy nodes\<close>

text \<open>
  C14. A MongoDB leader named by the leader document, on a collection that answers, keeps its flag and publishes no
  further event through every run of its election worker, as long as it may elect, every tick comes before the
  document last written expires (the ticker runs at half the lease, \<open>mongo_goElect_on_ticks\<close>), and nobody touches the document before that.
\<close>

theorem mongo_leader_stays:
  assumes "mongo_leaders cls docs" and "mongo_answers cls" and "me_electCls e = cls" and "mongo_IsLeader e"
    and "may_elect now (me_opt e)" and "mongo_holder docs (iso_key e) c = Some (nkey e)" and "in_time now e ws"
    and "\<forall>w \<in> set ws. may_elect (ew_now w) (me_opt e)
      \<and> spares docs lp_Expires (leads_doc e) (mongo_leaderKey e) (ew_now w) (ew_env w)"
  shows "case mongo_goElect now mid ws e c of (e', c') \<Rightarrow> mongo_IsLeader e' \<and> me_leader e' = me_leader e
    \<and> kept docs lp_Expires (leads_doc e) (mongo_leaderKey e) (mongo_until (last_tick now ws) e) c'"
  by (rule mongo_leaders.mongo_goElect_in_office[OF assms])

theorem mongo_leader_stays_witness:
  "let e = mongo_set_flag True (demo_mnode ''me'' ''jobs''); tick = (\<lambda>t. \<lparr>ew_env = id, ew_now = t, ew_mid = id\<rparr>);
       (e', c') = mongo_goElect 0 id [tick (2 * Second), tick (4 * Second)] e [demo_leader ''me'' (5 * Second)]
   in mongo_IsLeader e' \<and> (\<exists>d. mem_docs lp_ID c' ''leader-jobs'' = Some d \<and> lp_Expires d = 9 * Second)"
proof -
  let ?e = "mongo_set_flag True (demo_mnode ''me'' ''jobs'')" and ?c = "[demo_leader ''me'' (5 * Second)]"
  let ?tick = "\<lambda>t. \<lparr>ew_env = id, ew_now = t, ew_mid = id\<rparr>"
  let ?ws = "[?tick (2 * Second), ?tick (4 * Second)]"
  have u: "mongo_until t ?e = bson_time (t + 5 * Second)" for t by (simp add: mongo_until_def)
  have h: "me_electCls ?e = mem_coll lp_ID" "mongo_IsLeader ?e" "may_elect 0 (me_opt ?e)"
    "mongo_holder (mem_docs lp_ID) (iso_key ?e) ?c = Some (nkey ?e)"
    by (simp_all add: mongo_holder_def demo_leader_def)
  have t: "in_time 0 ?e ?ws" by (simp add: u bson_time_def)
  have w: "\<forall>w \<in> set ?ws. may_elect (ew_now w) (me_opt ?e)
      \<and> spares (mem_docs lp_ID) lp_Expires (leads_doc ?e) (mongo_leaderKey ?e) (ew_now w) (ew_env w)"
    by (simp add: spares_def)
  have k: "mongo_leaderKey ?e = ''leader-jobs''" by (simp add: mongo_leaderKey_def)
  have d: "mongo_until (last_tick 0 ?ws) ?e = 9 * Second" by (simp add: u bson_time_def)
  from mongo_leader_stays[OF memld.mongo_leaders_axioms mem_coll_answers h t w, where mid = id, unfolded k d]
  show ?thesis unfolding Let_def kept_def by (auto split: prod.splits)
qed

text \<open>A node whose heartbeat worker runs is listed alive until its last beat expires.\<close>

theorem mongo_node_alive:
  assumes "mongo_beats cls docs" and "mongo_answers cls" and "me_hbCls e = Some cls"
    and "spares docs hp_Expires (beat_doc e) (nkey e) t env" and "t \<le> mongo_until (last_beat now ws) e"
    and "mongo_AliveNodes t e (env (mongo_goHeartBeat now ws e h)) = (Inr ns, h')"
  shows "nkey e \<in> set ns"
proof -
  note k = kept_wait[OF mongo_beats.mongo_beats_keep[OF assms(1-3)] assms(4,5), of h]
  have "bson_time t \<le> mongo_until (last_beat now ws) e" using bson_time_le[of t] assms(5) by linarith
  from mongo_beats.kept_alive[OF assms(1,3) k this] assms(6) show ?thesis by simp
qed

end
