(* ===== verification/Redis_Holders.thy ===== *)
theory Redis_Holders
  imports Redis_Mutex
begin

text \<open>
  Systems of instances of the Redis mutex (\<open>dkit/redis/mutex.go\<close>) as a labelled step relation. Any number of
  instances (numbered), spread over any number of processes (\<open>proc i\<close> is the one of instance \<open>i\<close>, with a
  token counter of its own), share a server. The two commands of an attempt with a reentrant identity are
  separate steps, so that all other steps may come between them.

  Who holds a lock is part of the state and follows from what happened: an instance that held nothing
  holds the lock when an attempt succeeds; it holds it no longer when the lease expires, when it is replaced, or
  when an \<open>Unlock\<close>, its own or one of an instance that stores the same value, has removed the key.
  That holders do own the lock on the server, and that no two of them are strangers, are theorems.
\<close>

section \<open>Steps\<close>

record 'r redis_sys =
  sys_inst :: "nat \<Rightarrow> 'r redis_mutex"
  sys_pend :: "nat \<Rightarrow> string option"
  sys_held :: "nat \<Rightarrow> bool"
  sys_seq :: "nat \<Rightarrow> 64 word"
  sys_tokens :: "nat \<Rightarrow> string set"
  sys_ids :: "string set"
  sys_srv :: 'r

text \<open>
  \<open>sys_pend i\<close>: the identity with which instance \<open>i\<close> is about to compare the holder. \<open>sys_tokens p\<close>: the tokens process
  \<open>p\<close> has generated. \<open>sys_ids\<close>: the reentrant identities given so far.
\<close>

datatype redis_label =
    LTry nat "bool result"
  | LRefused nat
  | LUnlock nat "go_error option"
  | LNew nat
  | LExpire string
  | LOther

text \<open>The answer of \<open>TryLock\<close> after an attempt.\<close>

definition try_answer :: "go_error option \<Rightarrow> 'r redis_mutex \<Rightarrow> bool result" where
  "try_answer e m = (case e of Some err \<Rightarrow> Inl err | None \<Rightarrow> Inr (rm_lockValue m \<noteq> []))"

text \<open>
  What is asked of generated tokens: the counter of the process has not wrapped around, and no other process
  has generated the same token, that is, read the same nanosecond at the same count.
\<close>

definition token_ok :: "'r redis_sys \<Rightarrow> nat \<Rightarrow> time \<Rightarrow> bool" where
  "token_ok s p now \<longleftrightarrow> unat (sys_seq s p) < 2 ^ 64 - 1
     \<and> (\<forall>q. q \<noteq> p \<longrightarrow> fst (nextLockValue now (sys_seq s p)) \<notin> sys_tokens s q)"

definition new_tokens :: "'r redis_sys \<Rightarrow> nat \<Rightarrow> time \<Rightarrow> 64 word \<Rightarrow> nat \<Rightarrow> string set" where
  "new_tokens s p now seq' = (if seq' = sys_seq s p then sys_tokens s
     else (sys_tokens s)(p := insert (fst (nextLockValue now (sys_seq s p))) (sys_tokens s p)))"

definition shares :: "'r redis_sys \<Rightarrow> nat \<Rightarrow> nat \<Rightarrow> bool" where
  "shares s i j \<longleftrightarrow> rm_redisKey (sys_inst s i) = rm_redisKey (sys_inst s j)
     \<and> rm_lockValue (sys_inst s i) = rm_lockValue (sys_inst s j)"

inductive redis_step ::
    "(nat \<Rightarrow> nat) \<Rightarrow> 'r redis_client \<Rightarrow> ('r \<Rightarrow> string \<Rightarrow> string option) \<Rightarrow> 'r redis_sys \<Rightarrow> redis_label \<Rightarrow> 'r redis_sys \<Rightarrow> bool"
  for proc :: "nat \<Rightarrow> nat" and c :: "'r redis_client" and lv :: "'r \<Rightarrow> string \<Rightarrow> string option" where
  step_set: "sys_pend s i = None \<Longrightarrow>
     redis_try_set now (NewLockOption (rm_defaultTTL (sys_inst s i)) ops) (sys_inst s i) (sys_seq s (proc i), sys_srv s)
       = (Inl (e, m'), seq', r') \<Longrightarrow>
     token_ok s (proc i) now \<Longrightarrow>
     redis_step proc c lv s (LTry i (try_answer e m'))
       (s\<lparr>sys_inst := (sys_inst s)(i := m'),
          sys_held := (sys_held s)(i := sys_held s i \<or> rm_lockValue (sys_inst s i) = [] \<and> rm_lockValue m' \<noteq> []),
          sys_seq := (sys_seq s)(proc i := seq'),
          sys_tokens := new_tokens s (proc i) now seq',
          sys_ids := insert (ReentrantIdentity (NewLockOption (rm_defaultTTL (sys_inst s i)) ops)) (sys_ids s),
          sys_srv := r'\<rparr>)"
| step_taken: "sys_pend s i = None \<Longrightarrow>
     redis_try_set now (NewLockOption (rm_defaultTTL (sys_inst s i)) ops) (sys_inst s i) (sys_seq s (proc i), sys_srv s)
       = (Inr x, seq', r') \<Longrightarrow>
     redis_step proc c lv s (LRefused i)
       (s\<lparr>sys_pend := (sys_pend s)(i := Some x), sys_ids := insert x (sys_ids s), sys_srv := r'\<rparr>)"
| step_get: "sys_pend s i = Some x \<Longrightarrow> redis_try_get x (sys_inst s i) (sys_srv s) = (e, m', r') \<Longrightarrow>
     redis_step proc c lv s (LTry i (try_answer e m'))
       (s\<lparr>sys_inst := (sys_inst s)(i := m'), sys_pend := (sys_pend s)(i := None),
          sys_held := (sys_held s)(i := rm_lockValue m' \<noteq> []), sys_srv := r'\<rparr>)"
| step_unlock: "sys_pend s i = None \<Longrightarrow>
     redis_Unlock (sys_inst s i) (sys_seq s (proc i), sys_srv s) = (res, m', seq', r') \<Longrightarrow>
     redis_step proc c lv s (LUnlock i res)
       (s\<lparr>sys_inst := (sys_inst s)(i := m'),
          sys_held := (\<lambda>j. sys_held s j \<and> \<not> (shares s i j
             \<and> lv r' (rm_redisKey (sys_inst s i)) \<noteq> Some (rm_lockValue (sys_inst s i)))),
          sys_srv := r'\<rparr>)"
| step_new: "sys_pend s i = None \<Longrightarrow>
     redis_step proc c lv s (LNew i)
       (s\<lparr>sys_inst := (sys_inst s)(i := redis_NewMutex (NewMutexImpl (Some c) p ttl) key),
          sys_held := (sys_held s)(i := False)\<rparr>)"
| step_expire: "lv r' = (lv (sys_srv s))(k := None) \<Longrightarrow>
     redis_step proc c lv s (LExpire k)
       (s\<lparr>sys_held := (\<lambda>j. sys_held s j \<and> rm_redisKey (sys_inst s j) \<noteq> k), sys_srv := r'\<rparr>)"
| step_other: "(\<And>j. lv r' (rm_redisKey (sys_inst s j)) = lv (sys_srv s) (rm_redisKey (sys_inst s j))) \<Longrightarrow>
     redis_step proc c lv s LOther (s\<lparr>sys_srv := r'\<rparr>)"

inductive_cases redis_stepE: "redis_step proc c lv s l t"

inductive redis_reachable ::
    "(nat \<Rightarrow> nat) \<Rightarrow> 'r redis_client \<Rightarrow> ('r \<Rightarrow> string \<Rightarrow> string option) \<Rightarrow> 'r redis_sys \<Rightarrow> bool"
  for proc :: "nat \<Rightarrow> nat" and c :: "'r redis_client" and lv :: "'r \<Rightarrow> string \<Rightarrow> string option" where
  init: "(\<And>i. redis_fresh c (sys_inst s i) \<and> sys_pend s i = None \<and> \<not> sys_held s i \<and> sys_tokens s i = {}) \<Longrightarrow>
     redis_reachable proc c lv s"
| step: "redis_reachable proc c lv s \<Longrightarrow> redis_step proc c lv s l t \<Longrightarrow> redis_reachable proc c lv t"

section \<open>Values\<close>

text \<open>
  Every value an instance stores is a given identity or a generated token; tokens carry counts that were reached; and two
  instances store the same value only when it was given as an identity.
\<close>

definition counted :: "nat \<Rightarrow> string \<Rightarrow> bool" where
  "counted n x \<longleftrightarrow> (\<exists>now m. m \<le> n \<and> x = lock_token now m)"

definition vals_ok :: "string set \<Rightarrow> (nat \<Rightarrow> string set) \<Rightarrow> (nat \<Rightarrow> string) \<Rightarrow> bool" where
  "vals_ok ids T v \<longleftrightarrow> (\<forall>i. v i \<noteq> [] \<longrightarrow> v i \<in> ids \<or> (\<exists>q. v i \<in> T q))
     \<and> (\<forall>i j. i \<noteq> j \<longrightarrow> v i \<noteq> [] \<longrightarrow> v i = v j \<longrightarrow> v i \<in> ids)"

definition sys_val :: "'r redis_sys \<Rightarrow> nat \<Rightarrow> string" where
  "sys_val s i = rm_lockValue (sys_inst s i)"

lemma counted_mono: "counted n x \<Longrightarrow> n \<le> n' \<Longrightarrow> counted n' x"
  unfolding counted_def using order.trans by blast

lemma counted_next: "\<not> counted n (lock_token now (Suc n))" "counted (Suc n) (lock_token now (Suc n))"
  by (auto simp: counted_def dest: lock_token_inj)

lemma vals_ok_clear: "vals_ok ids T v \<Longrightarrow> vals_ok ids T (v(i := []))"
  unfolding vals_ok_def by (auto split: if_splits)

lemma vals_ok_more: "vals_ok ids T v \<Longrightarrow> ids \<subseteq> ids' \<Longrightarrow> (\<And>q. T q \<subseteq> T' q) \<Longrightarrow> vals_ok ids' T' v"
  unfolding vals_ok_def by (meson subsetD)

lemma vals_ok_id: "vals_ok ids T v \<Longrightarrow> x \<in> ids \<Longrightarrow> vals_ok ids T (v(i := x))"
  unfolding vals_ok_def by auto

lemma vals_ok_token:
  assumes "vals_ok ids T v" and "\<And>q. t \<notin> T q" and "t \<in> T' p" and "\<And>q. T q \<subseteq> T' q"
  shows "vals_ok ids T' (v(i := t))"
proof -
  have "v j \<in> ids" if "v j = t" "v j \<noteq> []" for j using assms(1,2) that unfolding vals_ok_def by metis
  moreover have "v j \<in> ids \<or> (\<exists>q. v j \<in> T' q)" if "v j \<noteq> []" for j
    using assms(1,4) that unfolding vals_ok_def by blast
  ultimately show ?thesis using assms(1,3) unfolding vals_ok_def by (auto split: if_splits)
qed

section \<open>What single steps do\<close>

text \<open>An attempt up to \<open>SET NX\<close>: by the old and the new value of the instance.\<close>

lemma try_set_value:
  assumes "redis_try_set now opt m (seq, r) = (x, seq', r')" and "rm_redisCli m = Some c"
  shows "(\<forall>e m'. x = Inl (e, m') \<longrightarrow> rm_redisCli m' = Some c \<and> rm_redisKey m' = rm_redisKey m
        \<and> (m' = m \<and> seq' \<in> {seq, seq + 1}
           \<or> rm_lockValue m = [] \<and> (ReentrantIdentity opt = [] \<and> seq' = seq + 1 \<and> rm_lockValue m' = lock_token now (unat (seq + 1))
              \<or> ReentrantIdentity opt \<noteq> [] \<and> seq' = seq \<and> rm_lockValue m' = ReentrantIdentity opt)))
    \<and> (\<forall>y. x = Inr y \<longrightarrow> rm_lockValue m = [] \<and> y \<noteq> [] \<and> seq' = seq)"
  using assms
  by (auto simp: redis_try_set_def nextLockValue_def Let_def split: sum.splits bool.splits prod.splits if_splits)

lemma try_get_value:
  assumes "redis_try_get x m r = (e, m', r')" and "rm_redisCli m = Some c" and "rm_lockValue m = []"
  shows "rm_redisCli m' = Some c \<and> rm_redisKey m' = rm_redisKey m \<and> rm_lockValue m' \<in> {[], x}"
  using assms by (auto simp: redis_try_get_def split: sum.splits option.splits if_splits prod.splits)

lemma Unlock_value:
  assumes "redis_Unlock m (seq, r) = (res, m', seq', r')"
  shows "seq' = seq \<and> (m' = m \<or> m' = m\<lparr>rm_lockValue := []\<rparr>)"
  using assms by (auto simp: redis_Unlock_def Let_def split: if_splits option.splits sum.splits prod.splits)

context redis_server
begin

text \<open>The same by what the server has: a key that is live stays as it is, and whoever stores a value has put it there.\<close>

lemma try_set_server:
  assumes "redis_try_set now opt m (seq, r) = (x, seq', r')" and "rm_redisCli m = Some cli"
  shows "(live r k = Some y \<longrightarrow> live r' k = Some y)
    \<and> (\<forall>e m'. x = Inl (e, m') \<longrightarrow> rm_lockValue m = [] \<longrightarrow> rm_lockValue m' \<noteq> [] \<longrightarrow>
          live r (rm_redisKey m) = None \<and> live r' (rm_redisKey m) = Some (rm_lockValue m'))"
  using assms
  by (auto simp: redis_try_set_def nextLockValue_def Let_def dest: SetNX_keeps SetNX_stored
      split: sum.splits bool.splits prod.splits if_splits)

lemma try_get_server:
  assumes "redis_try_get x m r = (e, m', r')" and "rm_redisCli m = Some cli" and "rm_lockValue m = []"
  shows "live r' = live r \<and> (rm_lockValue m' \<noteq> [] \<longrightarrow> live r (rm_redisKey m) = Some (rm_lockValue m'))"
  using assms by (auto simp: redis_try_get_def dest: Get_value Get_failed split: sum.splits option.splits if_splits prod.splits)

lemma Unlock_server:
  assumes "redis_Unlock m (seq, r) = (res, m', seq', r')" and "rm_redisCli m = Some cli"
    and "k \<noteq> rm_redisKey m \<or> live r k \<noteq> Some (rm_lockValue m)"
  shows "live r' k = live r k"
proof (cases "rm_lockValue m = []")
  case True
  with assms(1) show ?thesis by (simp add: redis_Unlock_def)
next
  case False
  obtain v r1 where ev: "rc_Eval cli r (deleteIfValueScript cli (rm_redisKey m) (rm_lockValue m)) = (v, r1)"
    by fastforce
  with False assms(1,2) have "r' = r1"
    by (auto simp: redis_Unlock_def split: sum.splits if_splits)
  with Eval_deleteIfValue_other[OF ev assms(3)] show ?thesis by simp
qed

end

section \<open>The invariant\<close>

definition redis_inv ::
    "(nat \<Rightarrow> nat) \<Rightarrow> 'r redis_client \<Rightarrow> ('r \<Rightarrow> string \<Rightarrow> string option) \<Rightarrow> 'r redis_sys \<Rightarrow> bool" where
  "redis_inv proc c lv s \<longleftrightarrow>
     (\<forall>i. rm_redisCli (sys_inst s i) = Some c
        \<and> (\<forall>x. sys_pend s i = Some x \<longrightarrow> rm_lockValue (sys_inst s i) = [] \<and> x \<in> sys_ids s)
        \<and> (sys_held s i \<longrightarrow> redis_owns c lv (sys_inst s i) (sys_seq s (proc i), sys_srv s)))
     \<and> (\<forall>q. \<forall>x \<in> sys_tokens s q. counted (unat (sys_seq s q)) x)
     \<and> vals_ok (sys_ids s) (sys_tokens s) (sys_val s)"

lemma redis_inv_inst:
  assumes "redis_inv proc c lv s"
  shows "rm_redisCli (sys_inst s i) = Some c"
    and "sys_pend s i = Some x \<Longrightarrow> rm_lockValue (sys_inst s i) = [] \<and> x \<in> sys_ids s"
    and "sys_held s i \<Longrightarrow> rm_lockValue (sys_inst s i) \<noteq> [] \<and> lv (sys_srv s) (rm_redisKey (sys_inst s i)) = Some (rm_lockValue (sys_inst s i))"
  using assms unfolding redis_inv_def redis_owns_def by auto

text \<open>One instance, the server and the bookkeeping change: what is left to show.\<close>

lemma redis_inv_upd:
  assumes inv: "redis_inv proc c lv s" and cli: "rm_redisCli m' = Some c"
    and pend: "\<And>x. p = Some x \<Longrightarrow> rm_lockValue m' = [] \<and> x \<in> ids" and ids: "sys_ids s \<subseteq> ids"
    and own: "h i \<Longrightarrow> rm_lockValue m' \<noteq> [] \<and> lv r' (rm_redisKey m') = Some (rm_lockValue m')"
    and others: "\<And>j. j \<noteq> i \<Longrightarrow> h j \<Longrightarrow> sys_held s j \<and> lv r' (rm_redisKey (sys_inst s j)) = lv (sys_srv s) (rm_redisKey (sys_inst s j))"
    and toks: "\<And>q x. x \<in> T q \<Longrightarrow> counted (unat (sq q)) x"
    and vals: "vals_ok ids T ((sys_val s)(i := rm_lockValue m'))"
  shows "redis_inv proc c lv \<lparr>sys_inst = (sys_inst s)(i := m'), sys_pend = (sys_pend s)(i := p), sys_held = h, sys_seq = sq,
     sys_tokens = T, sys_ids = ids, sys_srv = r'\<rparr>"
proof -
  have v: "sys_val \<lparr>sys_inst = (sys_inst s)(i := m'), sys_pend = (sys_pend s)(i := p), sys_held = h, sys_seq = sq,
     sys_tokens = T, sys_ids = ids, sys_srv = r'\<rparr> = (sys_val s)(i := rm_lockValue m')"
    by (simp add: sys_val_def fun_eq_iff)
  show ?thesis
    unfolding redis_inv_def v redis_owns_def
    using redis_inv_inst[OF inv] cli pend ids own others toks vals by (auto split: if_splits)
qed

lemma sys_forms:
  "s\<lparr>sys_inst := (sys_inst s)(i := m), sys_held := h, sys_seq := sq, sys_tokens := T, sys_ids := ids, sys_srv := r\<rparr>
     = \<lparr>sys_inst = (sys_inst s)(i := m), sys_pend = (sys_pend s)(i := sys_pend s i), sys_held = h, sys_seq = sq,
        sys_tokens = T, sys_ids = ids, sys_srv = r\<rparr>"
  "s\<lparr>sys_pend := (sys_pend s)(i := p), sys_ids := ids, sys_srv := r\<rparr>
     = \<lparr>sys_inst = (sys_inst s)(i := sys_inst s i), sys_pend = (sys_pend s)(i := p), sys_held = sys_held s, sys_seq = sys_seq s,
        sys_tokens = sys_tokens s, sys_ids = ids, sys_srv = r\<rparr>"
  "s\<lparr>sys_inst := (sys_inst s)(i := m), sys_pend := (sys_pend s)(i := p), sys_held := h, sys_srv := r\<rparr>
     = \<lparr>sys_inst = (sys_inst s)(i := m), sys_pend = (sys_pend s)(i := p), sys_held = h, sys_seq = sys_seq s,
        sys_tokens = sys_tokens s, sys_ids = sys_ids s, sys_srv = r\<rparr>"
  "s\<lparr>sys_inst := (sys_inst s)(i := m), sys_held := h, sys_srv := r\<rparr>
     = \<lparr>sys_inst = (sys_inst s)(i := m), sys_pend = (sys_pend s)(i := sys_pend s i), sys_held = h, sys_seq = sys_seq s,
        sys_tokens = sys_tokens s, sys_ids = sys_ids s, sys_srv = r\<rparr>"
  "s\<lparr>sys_inst := (sys_inst s)(i := m), sys_held := h\<rparr>
     = \<lparr>sys_inst = (sys_inst s)(i := m), sys_pend = (sys_pend s)(i := sys_pend s i), sys_held = h, sys_seq = sys_seq s,
        sys_tokens = sys_tokens s, sys_ids = sys_ids s, sys_srv = sys_srv s\<rparr>"
  "s\<lparr>sys_held := h, sys_srv := r\<rparr>
     = \<lparr>sys_inst = (sys_inst s)(i := sys_inst s i), sys_pend = (sys_pend s)(i := sys_pend s i), sys_held = h, sys_seq = sys_seq s,
        sys_tokens = sys_tokens s, sys_ids = sys_ids s, sys_srv = r\<rparr>"
  "s\<lparr>sys_srv := r\<rparr>
     = \<lparr>sys_inst = (sys_inst s)(i := sys_inst s i), sys_pend = (sys_pend s)(i := sys_pend s i), sys_held = sys_held s, sys_seq = sys_seq s,
        sys_tokens = sys_tokens s, sys_ids = sys_ids s, sys_srv = r\<rparr>"
  by simp_all

lemma new_tokens_counted:
  assumes "\<forall>q. \<forall>x \<in> sys_tokens s q. counted (unat (sys_seq s q)) x" and "unat (sys_seq s p) < 2 ^ 64 - 1"
    and "seq' \<in> {sys_seq s p, sys_seq s p + 1}" and "x \<in> new_tokens s p now seq' q"
  shows "counted (unat (((sys_seq s)(p := seq')) q)) x"
proof -
  have suc: "unat (sys_seq s p + 1) = Suc (unat (sys_seq s p))" using assms(2) by (simp add: unat_word_ariths)
  show ?thesis
  proof (cases "q = p \<and> seq' \<noteq> sys_seq s p")
    case True
    with assms(3,4) consider "x = lock_token now (unat (sys_seq s p + 1))" | "x \<in> sys_tokens s p"
      by (auto simp: new_tokens_def nextLockValue_def split: if_splits)
    then show ?thesis
    proof cases
      case 1
      with True assms(3) suc counted_next(2) show ?thesis by simp
    next
      case 2
      then have "counted (unat (sys_seq s p)) x" using assms(1) by blast
      from counted_mono[OF this, of "Suc (unat (sys_seq s p))"] True assms(3) suc show ?thesis by simp
    qed
  next
    case False
    with assms(1,4) show ?thesis by (auto simp: new_tokens_def split: if_splits)
  qed
qed

lemma new_tokens_mono: "sys_tokens s q \<subseteq> new_tokens s p now seq' q"
  by (auto simp: new_tokens_def)

text \<open>The values after an attempt that ended with \<open>SET NX\<close>.\<close>

lemma try_set_vals:
  assumes inv: "redis_inv proc c lv s" and tok: "token_ok s (proc i) now"
    and st: "redis_try_set now opt (sys_inst s i) (sys_seq s (proc i), r) = (Inl (e, m'), seq', r')"
  shows "vals_ok (insert (ReentrantIdentity opt) (sys_ids s)) (new_tokens s (proc i) now seq') ((sys_val s)(i := rm_lockValue m'))"
proof -
  let ?ids = "insert (ReentrantIdentity opt) (sys_ids s)" and ?T = "new_tokens s (proc i) now seq'"
  have vals: "vals_ok (sys_ids s) (sys_tokens s) (sys_val s)" and cnt: "\<forall>q. \<forall>x \<in> sys_tokens s q. counted (unat (sys_seq s q)) x"
    using inv unfolding redis_inv_def by blast+
  have more: "vals_ok ?ids ?T (sys_val s)"
    by (rule vals_ok_more[OF vals _ new_tokens_mono]) blast
  from try_set_value[OF st redis_inv_inst(1)[OF inv]] consider
      (same) "rm_lockValue m' = sys_val s i"
    | (token) "seq' = sys_seq s (proc i) + 1" "rm_lockValue m' = lock_token now (unat (sys_seq s (proc i) + 1))"
    | (ident) "rm_lockValue m' = ReentrantIdentity opt" by (auto simp: sys_val_def)
  then show ?thesis
  proof cases
    case same
    with more show ?thesis by (simp only: same fun_upd_triv)
  next
    case ident
    with vals_ok_id[OF more] show ?thesis by simp
  next
    case token
    let ?t = "lock_token now (unat (sys_seq s (proc i) + 1))"
    have suc: "unat (sys_seq s (proc i) + 1) = Suc (unat (sys_seq s (proc i)))"
      using tok by (simp add: token_ok_def unat_word_ariths)
    have new: "?t \<notin> sys_tokens s q" for q
      using tok cnt counted_next(1)[of "unat (sys_seq s (proc i))" now] suc
      by (cases "q = proc i") (auto simp: token_ok_def nextLockValue_def)
    have "vals_ok ?ids (sys_tokens s) (sys_val s)" by (rule vals_ok_more[OF vals]) auto
    moreover have "?t \<in> ?T (proc i)" using token(1) by (simp add: new_tokens_def nextLockValue_def)
    ultimately show ?thesis unfolding token(2) using new new_tokens_mono by (intro vals_ok_token)
  qed
qed

context redis_server
begin

lemma redis_step_inv:
  assumes "redis_step proc cli live s l t" and inv: "redis_inv proc cli live s"
  shows "redis_inv proc cli live t"
  using assms(1)
proof (cases rule: redis_step.cases)
  case (step_set i now ops e m' seq' r')
  let ?m = "sys_inst s i"
  note m = redis_inv_inst[OF inv, of i] and st = step_set(4)
  note val = try_set_value[OF st m(1)] and srv = try_set_server[OF st m(1)]
  have kept: "live r' k = Some y" if "live (sys_srv s) k = Some y" for k y using srv that by blast
  show ?thesis unfolding step_set(2) sys_forms(1)
  proof (rule redis_inv_upd[OF inv])
    show "rm_redisCli m' = Some cli" using val by blast
    show "rm_lockValue m' = [] \<and> x \<in> insert (ReentrantIdentity (NewLockOption (rm_defaultTTL ?m) ops)) (sys_ids s)"
      if "sys_pend s i = Some x" for x using that step_set(3) by simp
    show "rm_lockValue m' \<noteq> [] \<and> live r' (rm_redisKey m') = Some (rm_lockValue m')"
      if "((sys_held s)(i := sys_held s i \<or> rm_lockValue ?m = [] \<and> rm_lockValue m' \<noteq> [])) i"
    proof (cases "rm_lockValue ?m = []")
      case True
      with m(3) that have "rm_lockValue m' \<noteq> []" by auto
      with True srv val show ?thesis by auto
    next
      case False
      with that val have "m' = ?m" "sys_held s i" by auto
      with m(3) kept show ?thesis by simp
    qed
    show "sys_held s j \<and> live r' (rm_redisKey (sys_inst s j)) = live (sys_srv s) (rm_redisKey (sys_inst s j))"
      if "j \<noteq> i" "((sys_held s)(i := sys_held s i \<or> rm_lockValue ?m = [] \<and> rm_lockValue m' \<noteq> [])) j" for j
      using that kept redis_inv_inst(3)[OF inv, of j] by simp
    show "counted (unat (((sys_seq s)(proc i := seq')) q)) x" if "x \<in> new_tokens s (proc i) now seq' q" for q x
      by (rule new_tokens_counted[OF _ _ _ that]) (use inv val step_set(5) in \<open>auto simp: redis_inv_def token_ok_def\<close>)
    show "vals_ok (insert (ReentrantIdentity (NewLockOption (rm_defaultTTL ?m) ops)) (sys_ids s)) (new_tokens s (proc i) now seq')
        ((sys_val s)(i := rm_lockValue m'))" by (rule try_set_vals[OF inv step_set(5) st])
  qed auto
next
  case (step_taken i now ops x seq' r')
  let ?m = "sys_inst s i"
  note m = redis_inv_inst[OF inv, of i] and st = step_taken(4)
  note val = try_set_value[OF st m(1)] and srv = try_set_server[OF st m(1)]
  have kept: "live r' k = Some y" if "live (sys_srv s) k = Some y" for k y using srv that by blast
  have owned: "live r' (rm_redisKey (sys_inst s j)) = Some (rm_lockValue (sys_inst s j))" if "sys_held s j" for j
    using redis_inv_inst(3)[OF inv that] kept by blast
  have "vals_ok (sys_ids s) (sys_tokens s) (sys_val s)" using inv unfolding redis_inv_def by blast
  then have vals: "vals_ok (insert x (sys_ids s)) (sys_tokens s) ((sys_val s)(i := rm_lockValue ?m))"
    using vals_ok_more[of "sys_ids s" "sys_tokens s" "sys_val s"] by (simp add: subset_insertI flip: sys_val_def)
  show ?thesis unfolding step_taken(2) sys_forms(2)
    by (rule redis_inv_upd[OF inv m(1) _ _ _ _ _ vals])
      (use val inv redis_inv_inst(3)[OF inv] owned in \<open>auto simp: redis_inv_def\<close>)
next
  case (step_get i x e m' r')
  let ?m = "sys_inst s i"
  note m = redis_inv_inst[OF inv, of i]
  have nil: "rm_lockValue ?m = []" and x: "x \<in> sys_ids s" using m(2)[OF step_get(3)] by simp_all
  note val = try_get_value[OF step_get(4) m(1) nil] and srv = try_get_server[OF step_get(4) m(1) nil]
  have vals: "vals_ok (sys_ids s) (sys_tokens s) ((sys_val s)(i := rm_lockValue m'))"
    using inv val x vals_ok_clear vals_ok_id unfolding redis_inv_def by fastforce
  show ?thesis unfolding step_get(2) sys_forms(3)
    by (rule redis_inv_upd[OF inv _ _ _ _ _ _ vals])
      (use val srv inv in \<open>auto simp: redis_inv_def split: if_splits\<close>)
next
  case (step_unlock i res m' seq' r')
  let ?m = "sys_inst s i"
  note m = redis_inv_inst[OF inv, of i]
  note val = Unlock_value[OF step_unlock(4)] and srv = Unlock_server[OF step_unlock(4) m(1)]
  let ?h = "\<lambda>j. sys_held s j \<and> \<not> (shares s i j \<and> live r' (rm_redisKey ?m) \<noteq> Some (rm_lockValue ?m))"
  have kept: "live r' (rm_redisKey (sys_inst s j)) = Some (rm_lockValue (sys_inst s j))" if "?h j" for j
  proof (cases "shares s i j")
    case True
    with that show ?thesis by (simp add: shares_def)
  next
    case False
    with redis_inv_inst(3)[OF inv, of j] that
    have "rm_redisKey (sys_inst s j) \<noteq> rm_redisKey ?m \<or> live (sys_srv s) (rm_redisKey (sys_inst s j)) \<noteq> Some (rm_lockValue ?m)"
      by (auto simp: shares_def)
    from srv[OF this] redis_inv_inst(3)[OF inv, of j] that show ?thesis by simp
  qed
  have own: "m' = ?m" if "?h i"
  proof (rule ccontr)
    assume "m' \<noteq> ?m"
    with step_unlock(4) have res: "res = None" "rm_lockValue ?m \<noteq> []"
      by (auto simp: redis_Unlock_def Let_def split: if_splits option.splits sum.splits prod.splits)
    from redis_Unlock_cases[OF m(1) res(2) step_unlock(4)] res(1) have "live r' (rm_redisKey ?m) = None"
      by (auto split: if_splits)
    with that show False by (simp add: shares_def)
  qed
  have vals: "vals_ok (sys_ids s) (sys_tokens s) ((sys_val s)(i := rm_lockValue m'))"
    using inv val vals_ok_clear unfolding redis_inv_def by (auto simp flip: sys_val_def)
  show ?thesis unfolding step_unlock(2) sys_forms(4)
  proof (rule redis_inv_upd[OF inv _ _ _ _ _ _ vals])
    show "rm_redisCli m' = Some cli" using val m(1) by auto
    show "rm_lockValue m' = [] \<and> x \<in> sys_ids s" if "sys_pend s i = Some x" for x using that step_unlock(3) by simp
    show "rm_lockValue m' \<noteq> [] \<and> live r' (rm_redisKey m') = Some (rm_lockValue m')" if "?h i"
      using own[OF that] kept[OF that] redis_inv_inst(3)[OF inv, of i] that by simp
    show "sys_held s j \<and> live r' (rm_redisKey (sys_inst s j)) = live (sys_srv s) (rm_redisKey (sys_inst s j))" if "j \<noteq> i" "?h j" for j
      using kept[OF that(2)] redis_inv_inst(3)[OF inv, of j] that(2) by simp
  qed (use inv in \<open>auto simp: redis_inv_def\<close>)
next
  case (step_new i p ttl key)
  have vals: "vals_ok (sys_ids s) (sys_tokens s) ((sys_val s)(i := []))"
    using inv vals_ok_clear unfolding redis_inv_def by blast
  show ?thesis unfolding step_new(2) sys_forms(5)
    by (rule redis_inv_upd[OF inv])
      (use step_new(3) inv vals in \<open>auto simp: redis_inv_def redis_NewMutex_def NewMutexImpl_def\<close>)
next
  case (step_expire r' k)
  show ?thesis unfolding step_expire(2) sys_forms(6)[where s = s and i = undefined]
    by (rule redis_inv_upd[OF inv])
      (use step_expire(3) redis_inv_inst[OF inv] inv in \<open>auto simp: redis_inv_def simp flip: sys_val_def\<close>)
next
  case (step_other r')
  show ?thesis unfolding step_other(2) sys_forms(7)[where s = s and i = undefined]
    by (rule redis_inv_upd[OF inv])
      (use step_other(3) redis_inv_inst[OF inv] inv in \<open>auto simp: redis_inv_def simp flip: sys_val_def\<close>)
qed

lemma redis_reachable_inv: "redis_reachable proc cli live s \<Longrightarrow> redis_inv proc cli live s"
proof (induction rule: redis_reachable.induct)
  case (init s)
  then show ?case by (auto simp: redis_inv_def redis_fresh_def vals_ok_def sys_val_def)
next
  case (step s l t)
  then show ?case using redis_step_inv by blast
qed

end

text \<open>Holders of one key store the same value.\<close>

lemma holders_share:
  assumes "redis_inv proc c lv s" and "sys_held s i" and "sys_held s j"
    and "rm_redisKey (sys_inst s i) = rm_redisKey (sys_inst s j)"
  shows "rm_lockValue (sys_inst s i) = rm_lockValue (sys_inst s j) \<and> rm_lockValue (sys_inst s i) \<noteq> []
    \<and> (i = j \<or> rm_lockValue (sys_inst s i) \<in> sys_ids s)"
proof -
  from redis_inv_inst(3)[OF assms(1,2)] redis_inv_inst(3)[OF assms(1,3)] assms(4)
  have eq: "sys_val s i = sys_val s j" "sys_val s i \<noteq> []" by (simp_all add: sys_val_def)
  have "vals_ok (sys_ids s) (sys_tokens s) (sys_val s)" using assms(1) unfolding redis_inv_def by blast
  with eq have "i = j \<or> sys_val s i \<in> sys_ids s" unfolding vals_ok_def by blast
  with eq show ?thesis by (simp add: sys_val_def)
qed

text \<open>A successful attempt of an instance that stored nothing makes it a holder.\<close>

lemma try_makes_holder:
  assumes "redis_step proc c lv s (LTry j (Inr True)) t" and "redis_inv proc c lv s" and "rm_lockValue (sys_inst s j) = []"
  shows "sys_held t j \<and> rm_redisKey (sys_inst t j) = rm_redisKey (sys_inst s j) \<and> (\<forall>i. i \<noteq> j \<longrightarrow> sys_inst t i = sys_inst s i)"
  using assms(1)
proof (cases rule: redis_step.cases)
  case (step_set now ops e m' seq' r')
  with try_set_value[OF step_set(4) redis_inv_inst(1)[OF assms(2)]] assms(3) show ?thesis
    by (auto simp: try_answer_def split: option.splits)
next
  case (step_get x e m' r')
  with try_get_value[OF step_get(4) redis_inv_inst(1)[OF assms(2)] assms(3)] show ?thesis
    by (auto simp: try_answer_def split: option.splits)
qed

section \<open>Properties\<close>

text \<open>The systems of the witnesses: instances of one key, each in its own process; instance 0 took the lock at time 7.\<close>

definition demo_sys :: "mem_server redis_sys" where
  "demo_sys = \<lparr>sys_inst = (\<lambda>i. demo_mutex), sys_pend = (\<lambda>i. None), sys_held = (\<lambda>i. False), sys_seq = (\<lambda>p. 0),
     sys_tokens = (\<lambda>p. {}), sys_ids = {}, sys_srv = demo_server\<rparr>"

definition demo_held :: "mem_server redis_sys" where
  "demo_held = demo_sys\<lparr>sys_inst := (sys_inst demo_sys)(0 := demo_mutex\<lparr>rm_lockValue := lock_token 7 1\<rparr>),
     sys_held := (sys_held demo_sys)(0 := True), sys_seq := (sys_seq demo_sys)(0 := 1),
     sys_tokens := (sys_tokens demo_sys)(0 := {lock_token 7 1}), sys_ids := {[]},
     sys_srv := mem_put demo_server (buildMutexKey ''dkit'' ''job'') (lock_token 7 1) (30 * Second)\<rparr>"

text \<open>Instance 0 took it with the identity \<open>''me''\<close>; instance 1 was refused with the same identity.\<close>

definition demo_id :: "mem_server redis_sys" where
  "demo_id = demo_sys\<lparr>sys_inst := (sys_inst demo_sys)(0 := demo_mutex\<lparr>rm_lockValue := ''me''\<rparr>),
     sys_held := (sys_held demo_sys)(0 := True), sys_ids := {''me''},
     sys_srv := mem_put demo_server (buildMutexKey ''dkit'' ''job'') ''me'' (30 * Second)\<rparr>"

definition demo_asked :: "mem_server redis_sys" where
  "demo_asked = demo_id\<lparr>sys_pend := (sys_pend demo_id)(1 := Some ''me'')\<rparr>"

definition demo_shared :: "mem_server redis_sys" where
  "demo_shared = demo_asked\<lparr>sys_inst := (sys_inst demo_asked)(1 := demo_mutex\<lparr>rm_lockValue := ''me''\<rparr>),
     sys_pend := (sys_pend demo_asked)(1 := None), sys_held := (sys_held demo_asked)(1 := True)\<rparr>"

lemma demo_mutex_simps [simp]:
  "rm_redisCli demo_mutex = Some mem_client" "rm_lockValue demo_mutex = []" "rm_defaultTTL demo_mutex = 30 * Second"
  "rm_redisKey demo_mutex = buildMutexKey ''dkit'' ''job''"
  by (simp_all add: demo_mutex_def redis_NewMutex_def NewMutexImpl_def)

lemma demo_reentrant [simp]:
  "NewLockOption 30000000000 [Reentrant ''me''] =
     \<lparr>TTL = 30000000000, ReentrantIdentity = ''me'', SpinInterval = DefaultLockSpinInterval, MaxWaitTime = 0\<rparr>"
  by (simp add: NewLockOption_def Reentrant_def)

lemma demo_step: "redis_step id mem_client mem_live demo_sys (LTry 0 (Inr True)) demo_held"
proof -
  have "redis_try_set 7 (NewLockOption (rm_defaultTTL (sys_inst demo_sys 0)) []) (sys_inst demo_sys 0) (sys_seq demo_sys (id 0), sys_srv demo_sys)
      = (Inl (None, demo_mutex\<lparr>rm_lockValue := lock_token 7 1\<rparr>), 1, sys_srv demo_held)"
    by (simp add: redis_try_set_def demo_sys_def demo_held_def nextLockValue_def mem_client_def)
  from step_set[where proc = id and s = demo_sys and i = 0 and ops = "[]" and c = mem_client and lv = mem_live, OF _ this] show ?thesis
    by (simp add: demo_sys_def demo_held_def token_ok_def new_tokens_def nextLockValue_def try_answer_def)
qed

lemma demo_step_id: "redis_step id mem_client mem_live demo_sys (LTry 0 (Inr True)) demo_id"
proof -
  have "redis_try_set 7 (NewLockOption (rm_defaultTTL (sys_inst demo_sys 0)) [Reentrant ''me'']) (sys_inst demo_sys 0)
      (sys_seq demo_sys (id 0), sys_srv demo_sys) = (Inl (None, demo_mutex\<lparr>rm_lockValue := ''me''\<rparr>), 0, sys_srv demo_id)"
    by (simp add: redis_try_set_def demo_sys_def demo_id_def mem_client_def)
  from step_set[where proc = id and s = demo_sys and i = 0 and ops = "[Reentrant ''me'']" and c = mem_client and lv = mem_live, OF _ this]
  show ?thesis by (simp add: demo_sys_def demo_id_def token_ok_def new_tokens_def try_answer_def fun_upd_idem)
qed

lemma demo_step_asked: "redis_step id mem_client mem_live demo_id (LRefused 1) demo_asked"
proof -
  have "redis_try_set 8 (NewLockOption (rm_defaultTTL (sys_inst demo_id 1)) [Reentrant ''me'']) (sys_inst demo_id 1)
      (sys_seq demo_id (id 1), sys_srv demo_id) = (Inr ''me'', 0, sys_srv demo_id)"
    by (simp add: redis_try_set_def demo_sys_def demo_id_def mem_client_def)
  from step_taken[where proc = id and s = demo_id and i = 1 and ops = "[Reentrant ''me'']" and c = mem_client and lv = mem_live, OF _ this]
  show ?thesis by (simp add: demo_sys_def demo_id_def demo_asked_def)
qed

lemma demo_step_shared: "redis_step id mem_client mem_live demo_asked (LTry 1 (Inr True)) demo_shared"
proof -
  have "redis_try_get ''me'' (sys_inst demo_asked 1) (sys_srv demo_asked) = (None, demo_mutex\<lparr>rm_lockValue := ''me''\<rparr>, sys_srv demo_asked)"
    by (simp add: redis_try_get_def demo_sys_def demo_id_def demo_asked_def mem_client_def)
  from step_get[where proc = id and s = demo_asked and i = 1 and c = mem_client and lv = mem_live, OF _ this] show ?thesis
    by (simp add: demo_asked_def demo_shared_def try_answer_def)
qed

lemma demo_reachable:
  "redis_reachable id mem_client mem_live demo_held" "redis_reachable id mem_client mem_live demo_shared"
proof -
  have init: "redis_reachable id mem_client mem_live demo_sys"
    by (rule redis_reachable.init) (simp add: demo_sys_def redis_fresh_def)
  from init demo_step show "redis_reachable id mem_client mem_live demo_held" by (rule redis_reachable.step)
  from redis_reachable.step[OF redis_reachable.step[OF redis_reachable.step[OF init demo_step_id] demo_step_asked] demo_step_shared]
  show "redis_reachable id mem_client mem_live demo_shared" .
qed

text \<open>
  C1. Mutual exclusion of the Redis mutex: in every reachable system of mutex instances, in any number of
  processes, attempts with and without reentrant identities interleaving command by command with each other and with
  foreign commands on other keys, leases expiring at any moment and commands failing on the way, every instance that
  holds a lock owns it on the server; and two instances that hold the lock of one key are the same, or were
  given the same reentrant identity. An instance holds a lock from an attempt that succeeded while it held nothing until
  the lease expires, it is replaced, or an \<open>Unlock\<close> of it or of an instance with the same identity has removed the key.
  (A process makes fewer than \<open>2^64\<close> attempts, and no two processes generate the same token, which takes the same
  nanosecond at the same count.)
\<close>

theorem redis_mutual_exclusion:
  assumes "redis_server c lv" and "redis_reachable proc c lv s" and "sys_held s i" and "sys_held s j"
    and "rm_redisKey (sys_inst s i) = rm_redisKey (sys_inst s j)"
  shows "redis_owns c lv (sys_inst s i) (sys_seq s (proc i), sys_srv s)
    \<and> (i = j \<or> rm_lockValue (sys_inst s i) = rm_lockValue (sys_inst s j) \<and> rm_lockValue (sys_inst s i) \<in> sys_ids s - {[]})"
proof -
  note inv = redis_server.redis_reachable_inv[OF assms(1,2)]
  from holders_share[OF inv assms(3-5)] inv assms(3) show ?thesis unfolding redis_inv_def by blast
qed

theorem redis_mutual_exclusion_witness:
  "redis_reachable id mem_client mem_live demo_shared \<and> sys_held demo_shared 0 \<and> sys_held demo_shared 1
   \<and> rm_lockValue (sys_inst demo_shared 0) \<in> sys_ids demo_shared - {[]}"
proof -
  have "sys_held demo_shared 0" "sys_held demo_shared 1" "rm_redisKey (sys_inst demo_shared 0) = rm_redisKey (sys_inst demo_shared 1)"
    by (simp_all add: demo_shared_def demo_asked_def demo_id_def demo_sys_def)
  from redis_mutual_exclusion[OF mem.redis_server_axioms demo_reachable(2) this] this demo_reachable(2) show ?thesis by auto
qed

text \<open>
  C2. A held Redis lock is stable: while an instance holds the lock of its key, no step of the system ends that except
  its own release or that of an instance that stores the same value (which takes the same reentrant identity), its
  replacement, or the expiry of its lease. Meanwhile an attempt of another instance of that key that stores
  nothing succeeds only with the holder's reentrant identity, and no instance that stores
  another value can release the lock.
\<close>

theorem redis_lock_stable:
  assumes srv: "redis_server c lv" and reach: "redis_reachable proc c lv s" and st: "redis_step proc c lv s l t"
    and held: "sys_held s i" and l: "l \<noteq> LNew i" "l \<noteq> LExpire (rm_redisKey (sys_inst s i))"
    and un: "\<forall>j e. l = LUnlock j e \<longrightarrow> \<not> shares s j i"
  shows "sys_held t i \<and> redis_owns c lv (sys_inst t i) (sys_seq t (proc i), sys_srv t)
    \<and> (\<forall>j. rm_redisKey (sys_inst s j) = rm_redisKey (sys_inst s i) \<longrightarrow>
          (j \<noteq> i \<and> rm_lockValue (sys_inst s j) = [] \<and> l = LTry j (Inr True) \<longrightarrow>
             rm_lockValue (sys_inst t j) = rm_lockValue (sys_inst s i) \<and> rm_lockValue (sys_inst s i) \<in> sys_ids t)
          \<and> l \<noteq> LUnlock j None)"
proof (intro conjI allI impI)
  note inv = redis_server.redis_reachable_inv[OF srv reach]
  have reach': "redis_reachable proc c lv t" by (rule redis_reachable.step[OF reach st])
  have val: "rm_lockValue (sys_inst s i) \<noteq> []" using redis_inv_inst(3)[OF inv held] by simp
  have pend: "sys_pend s i = None" using redis_inv_inst(2)[OF inv, of i] val by (cases "sys_pend s i") auto
  show h: "sys_held t i"
    using st
  proof (cases rule: redis_step.cases)
    case (step_unlock j res m' seq' r')
    with un held show ?thesis by auto
  qed (use held l pend in auto)
  note inv' = redis_server.redis_reachable_inv[OF srv reach']
  show "redis_owns c lv (sys_inst t i) (sys_seq t (proc i), sys_srv t)" using inv' h unfolding redis_inv_def by blast
  fix j assume key: "rm_redisKey (sys_inst s j) = rm_redisKey (sys_inst s i)"
  show "rm_lockValue (sys_inst t j) = rm_lockValue (sys_inst s i)" "rm_lockValue (sys_inst s i) \<in> sys_ids t"
    if "j \<noteq> i \<and> rm_lockValue (sys_inst s j) = [] \<and> l = LTry j (Inr True)"
  proof -
    from that st inv have "sys_held t j" "rm_redisKey (sys_inst t j) = rm_redisKey (sys_inst s i)" "sys_inst t i = sys_inst s i"
      using try_makes_holder[of proc c lv s j t] key by auto
    with holders_share[OF inv' h \<open>sys_held t j\<close>] that
    show "rm_lockValue (sys_inst t j) = rm_lockValue (sys_inst s i)" "rm_lockValue (sys_inst s i) \<in> sys_ids t" by auto
  qed
  show "l \<noteq> LUnlock j None"
  proof
    assume lj: "l = LUnlock j None"
    with un key have neq: "rm_lockValue (sys_inst s j) \<noteq> rm_lockValue (sys_inst s i)" by (auto simp: shares_def)
    from st lj obtain m' seq' r' where un: "redis_Unlock (sys_inst s j) (sys_seq s (proc j), sys_srv s) = (None, m', seq', r')"
      by (auto elim!: redis_stepE)
    then have "rm_lockValue (sys_inst s j) \<noteq> []" by (auto simp: redis_Unlock_def)
    from redis_server.redis_Unlock_cases[OF srv redis_inv_inst(1)[OF inv] this un] redis_inv_inst(3)[OF inv held] key neq
    show False by simp
  qed
qed

theorem redis_lock_stable_witness:
  "\<exists>t. redis_step id mem_client mem_live demo_held (LTry 1 (Inr False)) t
     \<and> sys_held t 0 \<and> redis_owns mem_client mem_live (sys_inst t 0) (sys_seq t 0, sys_srv t)"
proof -
  have k: "mem_live (sys_srv demo_held) (buildMutexKey ''dkit'' ''job'') = Some (lock_token 7 1)"
    by (simp add: demo_held_def)
  have "redis_try_set 8 (NewLockOption (rm_defaultTTL (sys_inst demo_held 1)) []) (sys_inst demo_held 1)
      (sys_seq demo_held (id 1), sys_srv demo_held) = (Inl (None, demo_mutex), 1, sys_srv demo_held)"
    using k by (simp add: redis_try_set_def demo_sys_def demo_held_def nextLockValue_def mem_client_def)
  moreover have "lock_token 8 1 \<noteq> lock_token 7 1" by code_simp
  then have "token_ok demo_held (id 1) 8" by (simp add: token_ok_def demo_held_def demo_sys_def nextLockValue_def)
  ultimately obtain t where st: "redis_step id mem_client mem_live demo_held (LTry 1 (Inr False)) t"
    using step_set[where proc = id and s = demo_held and i = 1 and ops = "[]" and c = mem_client and lv = mem_live and now = 8]
    by (fastforce simp: try_answer_def demo_held_def demo_sys_def)
  have h: "sys_held demo_held 0" by (simp add: demo_held_def)
  from redis_lock_stable[OF mem.redis_server_axioms demo_reachable(1) st h] st show ?thesis by auto
qed

end
