(* ===== verification/Mongo_Leases.thy ===== *)
theory Mongo_Leases
  imports Mongo_Elect
begin

text \<open>
  The nodes of an election domain on MongoDB (\<open>dkit/mongo/elect.go\<close>) as a step relation with a clock: driver calls
  of rounds, first elections and takeovers of expired leader documents included, interleave with each other, with the
  TTL monitor and with nodes of other domains. \<open>mn_until i\<close> is the end of the lease that node \<open>i\<close> knows of: the
  expiry of the leader document as its last call left or found it. A node leads by lease when its flag is
  set, it is open, and this time has not passed.
\<close>

section \<open>Steps\<close>

record ('c, 'h) mongo_nodes =
  mn_node :: "nat \<Rightarrow> ('c, 'h) mongo_election"
  mn_pend :: "nat \<Rightarrow> (time \<times> leader_write) option"
  mn_until :: "nat \<Rightarrow> time"
  mn_clock :: time
  mn_coll :: 'c

definition doc_until :: "('c \<Rightarrow> string \<Rightarrow> LeaderPayload option) \<Rightarrow> ('c, 'h) mongo_election \<Rightarrow> 'c \<Rightarrow> time" where
  "doc_until docs e c = (case docs c (mongo_leaderKey e) of Some d \<Rightarrow> bson_time (lp_Expires d) | None \<Rightarrow> 0)"

text \<open>
  A campaign that is about to write has read the clock (\<open>now\<close>) after the last tick, and writes when the clock has
  reached it. \<open>Close\<close> waits for the worker, so a node closes between its rounds.
\<close>

inductive mongo_nstep ::
    "('c \<Rightarrow> string \<Rightarrow> LeaderPayload option) \<Rightarrow> string \<Rightarrow> ('c, 'h) mongo_nodes \<Rightarrow> ('c, 'h) mongo_nodes \<Rightarrow> bool"
  for docs :: "'c \<Rightarrow> string \<Rightarrow> LeaderPayload option" and ik :: string where
  n_round: "mn_pend s i = None \<Longrightarrow> \<not> me_closed (mn_node s i) \<Longrightarrow>
     mongo_round_start now (mn_node s i) (mn_coll s) = (Inl e', c') \<Longrightarrow>
     mongo_nstep docs ik s (s\<lparr>mn_node := (mn_node s)(i := e'), mn_until := (mn_until s)(i := doc_until docs e' c'), mn_coll := c'\<rparr>)"
| n_start: "mn_pend s i = None \<Longrightarrow> \<not> me_closed (mn_node s i) \<Longrightarrow> mn_clock s \<le> now \<Longrightarrow>
     mongo_round_start now (mn_node s i) (mn_coll s) = (Inr w, c') \<Longrightarrow>
     mongo_nstep docs ik s (s\<lparr>mn_pend := (mn_pend s)(i := Some (now, w)), mn_coll := c'\<rparr>)"
| n_write: "mn_pend s i = Some (now, w) \<Longrightarrow> now \<le> mn_clock s \<Longrightarrow>
     mongo_round_finish w (mn_node s i) (mn_coll s) = (e', c') \<Longrightarrow>
     mongo_nstep docs ik s (s\<lparr>mn_node := (mn_node s)(i := e'), mn_pend := (mn_pend s)(i := None),
       mn_until := (mn_until s)(i := doc_until docs e' c'), mn_coll := c'\<rparr>)"
| n_close: "mn_pend s i = None \<Longrightarrow> mongo_close_leader (mn_node s i) (mn_coll s) = (e', c') \<Longrightarrow>
     mongo_nstep docs ik s (s\<lparr>mn_node := (mn_node s)(i := e'), mn_coll := c'\<rparr>)"
| n_tick: "mn_clock s \<le> t \<Longrightarrow> mongo_nstep docs ik s (s\<lparr>mn_clock := t\<rparr>)"
| n_removed: "docs (mn_coll s) k = Some d \<Longrightarrow> bson_time (lp_Expires d) < mn_clock s \<Longrightarrow>
     docs c' = (docs (mn_coll s))(k := None) \<Longrightarrow> mongo_nstep docs ik s (s\<lparr>mn_coll := c'\<rparr>)"
| n_other: "docs c' (mongo_buildLeaderKey ik) = docs (mn_coll s) (mongo_buildLeaderKey ik) \<Longrightarrow> leaders_wf docs c' \<Longrightarrow>
     mongo_nstep docs ik s (s\<lparr>mn_coll := c'\<rparr>)"

text \<open>The nodes of domain \<open>ik\<close> with different node keys, none of which leads; documents of other runs may be there.\<close>

definition mongo_domain ::
    "('c, LeaderPayload) mongo_coll \<Rightarrow> ('c \<Rightarrow> string \<Rightarrow> LeaderPayload option) \<Rightarrow> string \<Rightarrow> ('c, 'h) mongo_nodes \<Rightarrow> bool" where
  "mongo_domain cls docs ik s \<longleftrightarrow> (\<forall>i. me_electCls (mn_node s i) = cls \<and> iso_key (mn_node s i) = ik
       \<and> mn_pend s i = None \<and> \<not> mongo_IsLeader (mn_node s i))
     \<and> inj (\<lambda>i. nkey (mn_node s i)) \<and> leaders_wf docs (mn_coll s)"

inductive mongo_nreach ::
    "('c, LeaderPayload) mongo_coll \<Rightarrow> ('c \<Rightarrow> string \<Rightarrow> LeaderPayload option) \<Rightarrow> string \<Rightarrow> ('c, 'h) mongo_nodes \<Rightarrow> bool"
  for cls :: "('c, LeaderPayload) mongo_coll" and docs :: "'c \<Rightarrow> string \<Rightarrow> LeaderPayload option" and ik :: string where
  start: "mongo_domain cls docs ik s \<Longrightarrow> mongo_nreach cls docs ik s"
| step: "mongo_nreach cls docs ik s \<Longrightarrow> mongo_nstep docs ik s t \<Longrightarrow> mongo_nreach cls docs ik t"

definition leads_by_lease :: "('c, 'h) mongo_nodes \<Rightarrow> nat \<Rightarrow> bool" where
  "leads_by_lease s i \<longleftrightarrow> mongo_IsLeader (mn_node s i) \<and> \<not> me_closed (mn_node s i) \<and> mn_clock s \<le> mn_until s i"

section \<open>The invariant\<close>

text \<open>The leader document names the node and lasts at least as long as it knows.\<close>

definition backed :: "('c \<Rightarrow> string \<Rightarrow> LeaderPayload option) \<Rightarrow> string \<Rightarrow> ('c, 'h) mongo_election \<Rightarrow> time \<Rightarrow> 'c \<Rightarrow> bool" where
  "backed docs ik e t c \<longleftrightarrow> (\<exists>d. docs c (mongo_buildLeaderKey ik) = Some d \<and> lp_NodeKey d = nkey e \<and> t \<le> bson_time (lp_Expires d))"

definition lease_inv ::
    "('c, LeaderPayload) mongo_coll \<Rightarrow> ('c \<Rightarrow> string \<Rightarrow> LeaderPayload option) \<Rightarrow> string \<Rightarrow> ('c, 'h) mongo_nodes \<Rightarrow> bool" where
  "lease_inv cls docs ik s \<longleftrightarrow>
     (\<forall>i. me_electCls (mn_node s i) = cls \<and> iso_key (mn_node s i) = ik
        \<and> (\<forall>t w. mn_pend s i = Some (t, w) \<longrightarrow> write_ok t (mn_node s i) w \<and> \<not> mongo_IsLeader (mn_node s i))
        \<and> (leads_by_lease s i \<longrightarrow> backed docs ik (mn_node s i) (mn_until s i) (mn_coll s)))
     \<and> inj (\<lambda>i. nkey (mn_node s i)) \<and> leaders_wf docs (mn_coll s)"

lemma lease_invD:
  assumes "lease_inv cls docs ik s"
  shows "me_electCls (mn_node s i) = cls" and "iso_key (mn_node s i) = ik" and "mongo_leaderKey (mn_node s i) = mongo_buildLeaderKey ik"
    and "mn_pend s i = Some (t, w) \<Longrightarrow> write_ok t (mn_node s i) w \<and> \<not> mongo_IsLeader (mn_node s i)"
    and "leads_by_lease s i \<Longrightarrow> backed docs ik (mn_node s i) (mn_until s i) (mn_coll s)"
    and "leaders_wf docs (mn_coll s)" and "nkey (mn_node s i) = nkey (mn_node s j) \<Longrightarrow> i = j"
  using assms unfolding lease_inv_def mongo_leaderKey_def by (auto dest: injD)

text \<open>A step of node \<open>i\<close>: what is left to show.\<close>

lemma lease_inv_upd:
  assumes inv: "lease_inv cls docs ik s" and e': "mongo_same (mn_node s i) e' \<or> me_opt e' = me_opt (mn_node s i) \<and> me_electCls e' = me_electCls (mn_node s i)"
    and p: "\<And>t w. p = Some (t, w) \<Longrightarrow> write_ok t (mn_node s i) w \<and> \<not> mongo_IsLeader e'"
    and wf: "leaders_wf docs c'"
    and others: "\<And>j. j \<noteq> i \<Longrightarrow> leads_by_lease s j \<Longrightarrow> docs c' (mongo_buildLeaderKey ik) = docs (mn_coll s) (mongo_buildLeaderKey ik)"
    and own: "mongo_IsLeader e' \<Longrightarrow> \<not> me_closed e' \<Longrightarrow> mn_clock s \<le> u \<Longrightarrow> backed docs ik (mn_node s i) u c'"
  shows "lease_inv cls docs ik \<lparr>mn_node = (mn_node s)(i := e'), mn_pend = (mn_pend s)(i := p), mn_until = (mn_until s)(i := u),
    mn_clock = mn_clock s, mn_coll = c'\<rparr>"
proof -
  have opt: "me_opt e' = me_opt (mn_node s i)" "me_electCls e' = me_electCls (mn_node s i)" using e' by (auto simp: mongo_same_def)
  have keys: "(\<lambda>j. nkey (((mn_node s)(i := e')) j)) = (\<lambda>j. nkey (mn_node s j))" using opt by (simp add: fun_eq_iff)
  have ok: "write_ok t e' w = write_ok t (mn_node s i) w" for t w
    using opt by (simp add: write_ok_def mongo_leaderKey_def split: leader_write.split)
  have o': "backed docs ik (mn_node s j) (mn_until s j) c'" if "j \<noteq> i" "leads_by_lease s j" for j
    using lease_invD(5)[OF inv that(2)] others[OF that] by (simp add: backed_def)
  show ?thesis
    unfolding lease_inv_def mongo_nodes.simps keys leads_by_lease_def
    using inv opt p wf o' own ok
    unfolding lease_inv_def leads_by_lease_def by (auto simp: backed_def)
qed

lemma node_forms:
  "s\<lparr>mn_node := (mn_node s)(i := e), mn_until := (mn_until s)(i := u), mn_coll := c\<rparr>
    = \<lparr>mn_node = (mn_node s)(i := e), mn_pend = (mn_pend s)(i := mn_pend s i), mn_until = (mn_until s)(i := u), mn_clock = mn_clock s, mn_coll = c\<rparr>"
  "s\<lparr>mn_pend := (mn_pend s)(i := p), mn_coll := c\<rparr>
    = \<lparr>mn_node = (mn_node s)(i := mn_node s i), mn_pend = (mn_pend s)(i := p), mn_until = (mn_until s)(i := mn_until s i), mn_clock = mn_clock s, mn_coll = c\<rparr>"
  "s\<lparr>mn_node := (mn_node s)(i := e), mn_pend := (mn_pend s)(i := p), mn_until := (mn_until s)(i := u), mn_coll := c\<rparr>
    = \<lparr>mn_node = (mn_node s)(i := e), mn_pend = (mn_pend s)(i := p), mn_until = (mn_until s)(i := u), mn_clock = mn_clock s, mn_coll = c\<rparr>"
  "s\<lparr>mn_node := (mn_node s)(i := e), mn_coll := c\<rparr>
    = \<lparr>mn_node = (mn_node s)(i := e), mn_pend = (mn_pend s)(i := mn_pend s i), mn_until = (mn_until s)(i := mn_until s i), mn_clock = mn_clock s, mn_coll = c\<rparr>"
  by simp_all

section \<open>What the calls do to the documents\<close>

lemma leaders_wf_put:
  "leaders_wf docs c \<Longrightarrow> docs c' = (docs c)(k \<mapsto> d) \<Longrightarrow> k = mongo_buildLeaderKey (lp_IsolationKey d) \<Longrightarrow> leaders_wf docs c'"
  by (auto simp: leaders_wf_def)

lemma leaders_wf_drop: "leaders_wf docs c \<Longrightarrow> docs c' = (docs c)(k := None) \<Longrightarrow> leaders_wf docs c'"
  by (auto simp: leaders_wf_def split: if_splits)

lemma leaders_wf_same: "leaders_wf docs c \<Longrightarrow> docs c' = docs c \<Longrightarrow> leaders_wf docs c'"
  by (simp add: leaders_wf_def)

lemma leaders_wf_at: "leaders_wf docs c \<Longrightarrow> docs c k = Some d \<Longrightarrow> k = mongo_buildLeaderKey (lp_IsolationKey d)"
  by (simp add: leaders_wf_def)

context mongo_leaders
begin

text \<open>The first part of a round renews the own document at most; the second part inserts where there is none, or takes over the document that was read.\<close>

lemma round_start_docs:
  assumes "me_electCls e = cls" and "leaders_wf docs c" and "mongo_round_start now e c = (x, c')"
  shows "docs c' = docs c \<or> (\<exists>d t. docs c (mongo_leaderKey e) = Some d \<and> lp_NodeKey d = nkey e
    \<and> docs c' = (docs c)(mongo_leaderKey e \<mapsto> renew_leader t d))"
proof -
  let ?u = "renew_leader (now + eo_UnhealthyTime (me_opt e))"
  obtain y c1 where f: "mc_UpdateOne cls c (\<lambda>x. lp_ID x = mongo_leaderKey e \<and> lp_NodeKey x = nkey e) ?u None = (y, c1)"
    by fastforce
  obtain z c2 where rd: "mongo_campaign_read now e c = (z, c2)" by fastforce
  from campaign_read_cases[OF assms(1,2) rd] have "docs c2 = docs c" by blast
  moreover have "docs c1 = docs c \<or> (\<exists>d. docs c (mongo_leaderKey e) = Some d \<and> lp_NodeKey d = nkey e
      \<and> docs c1 = (docs c)(mongo_leaderKey e \<mapsto> ?u d))" using UpdateOne_at[OF f] by simp
  moreover have "c' = c \<or> c' = c1 \<or> c' = c2"
    using assms(1,3) f rd by (auto simp: mongo_round_start_def mongo_continueLeader_def split: if_splits sum.splits prod.splits option.splits)
  ultimately show ?thesis by auto
qed

lemma round_finish_docs:
  assumes "me_electCls e = cls" and "write_ok now e w" and "mongo_round_finish w e c = (e', c')"
  shows "docs c' = docs c
    \<or> (\<exists>d. w = LInsert d \<and> docs c (mongo_leaderKey e) = None \<and> docs c' = (docs c)(mongo_leaderKey e \<mapsto> bson_leader d))
    \<or> (\<exists>d t doc. w = LTakeover d t \<and> docs c (mongo_leaderKey e) = Some doc \<and> bson_time (lp_Expires doc) = bson_time (lp_Expires d)
         \<and> docs c' = (docs c)(mongo_leaderKey e \<mapsto> take_leader (nkey e) t doc))"
proof (cases w)
  case (LInsert d)
  obtain y c1 where f: "mc_InsertOne cls c (bson_leader d) = (y, c1)" by fastforce
  have "c' = c1" using f LInsert assms(1,3)
    by (auto simp: mongo_round_finish_def mongo_campaign_write_def split: sum.splits if_splits)
  with LInsert assms(2) f InsertOne_ok[of c "bson_leader d"] InsertOne_failed[of c "bson_leader d"] show ?thesis
    by (cases y) (auto simp: write_ok_def)
next
  case (LTakeover d t)
  let ?g = "\<lambda>x. lp_NodeKey x = lp_NodeKey d \<and> bson_time (lp_Expires x) = bson_time (lp_Expires d)"
  obtain y c1 where f: "mc_UpdateOne cls c (\<lambda>x. lp_ID x = mongo_leaderKey e \<and> ?g x) (take_leader (nkey e) t) None = (y, c1)"
    by fastforce
  have "c' = c1" using f LTakeover assms
    by (auto simp: mongo_round_finish_def mongo_campaign_write_def write_ok_def split: sum.splits prod.splits)
  with UpdateOne_at[OF f] LTakeover show ?thesis by auto
qed

lemma backed_now:
  assumes "mongo_holder docs (iso_key e) c = Some (nkey e)" and "iso_key e = ik"
  shows "backed docs ik e (doc_until docs e c) c"
  using assms by (auto simp: mongo_holder_def backed_def doc_until_def mongo_leaderKey_def)

lemma lease_step_inv:
  assumes "mongo_nstep docs ik s t" and inv: "lease_inv cls docs ik s"
  shows "lease_inv cls docs ik t"
  using assms(1)
proof (cases rule: mongo_nstep.cases)
  case (n_round i now e' c')
  let ?e = "mn_node s i"
  note e = lease_invD(1-3)[OF inv, of i] and wf = lease_invD(6)[OF inv]
  note rs = round_start_cases[OF e(1) wf n_round(4)] and dc = round_start_docs[OF e(1) wf n_round(4)]
  have same: "mongo_same ?e e'" and flag: "mongo_IsLeader e' \<Longrightarrow> mongo_holder docs (iso_key ?e) c' = Some (nkey ?e)" using rs by blast+
  have key: "mongo_leaderKey e' = mongo_buildLeaderKey ik" using same e by (simp add: mongo_same_def mongo_leaderKey_def)
  show ?thesis unfolding n_round(1) node_forms(1)
  proof (rule lease_inv_upd[OF inv])
    show "leaders_wf docs c'"
      using dc
    proof (elim disjE exE conjE)
      fix d t assume d: "docs (mn_coll s) (mongo_leaderKey ?e) = Some d"
        "docs c' = (docs (mn_coll s))(mongo_leaderKey ?e \<mapsto> renew_leader t d)"
      from leaders_wf_at[OF wf d(1)] show ?thesis by (intro leaders_wf_put[OF wf d(2)]) simp
    qed (rule leaders_wf_same[OF wf])
    show "docs c' (mongo_buildLeaderKey ik) = docs (mn_coll s) (mongo_buildLeaderKey ik)" if "j \<noteq> i" "leads_by_lease s j" for j
      using dc lease_invD(5)[OF inv that(2)] lease_invD(7)[OF inv, of j i] that(1) e by (auto simp: backed_def)
    assume "mongo_IsLeader e'"
    from backed_now[OF flag[OF this] e(2)] show "backed docs ik ?e (doc_until docs e' c') c'"
      using key e by (simp add: doc_until_def)
  qed (use same n_round(2) in auto)
next
  case (n_start i now w c')
  note e = lease_invD(1-3)[OF inv, of i] and wf = lease_invD(6)[OF inv]
  note rs = round_start_cases[OF e(1) wf n_start(5)]
  show ?thesis unfolding n_start(1) node_forms(2)
    by (rule lease_inv_upd[OF inv]) (use rs wf in \<open>auto intro: leaders_wf_same\<close>)
next
  case (n_write i now w e' c')
  let ?e = "mn_node s i"
  note e = lease_invD(1-3)[OF inv, of i] and wf = lease_invD(6)[OF inv]
  have ok: "write_ok now ?e w" "\<not> mongo_IsLeader ?e" using lease_invD(4)[OF inv n_write(2)] by simp_all
  note rf = round_finish_cases[OF e(1) ok(1) n_write(4)] and dc = round_finish_docs[OF e(1) ok(1) n_write(4)]
  have key: "mongo_leaderKey e' = mongo_buildLeaderKey ik" using rf e by (simp add: mongo_same_def mongo_leaderKey_def)
  show ?thesis unfolding n_write(1) node_forms(3)
  proof (rule lease_inv_upd[OF inv])
    show "leaders_wf docs c'" using dc
    proof (elim disjE exE conjE)
      fix d assume d: "w = LInsert d" "docs c' = (docs (mn_coll s))(mongo_leaderKey ?e \<mapsto> bson_leader d)"
      from d(1) ok(1) show ?thesis
        by (intro leaders_wf_put[OF wf d(2)]) (simp add: write_ok_def mongo_leaderKey_def bson_leader_def)
    next
      fix d t doc assume d: "docs (mn_coll s) (mongo_leaderKey ?e) = Some doc"
        "docs c' = (docs (mn_coll s))(mongo_leaderKey ?e \<mapsto> take_leader (nkey ?e) t doc)"
      from leaders_wf_at[OF wf d(1)] show ?thesis by (intro leaders_wf_put[OF wf d(2)]) simp
    qed (rule leaders_wf_same[OF wf])
    show "docs c' (mongo_buildLeaderKey ik) = docs (mn_coll s) (mongo_buildLeaderKey ik)" if "j \<noteq> i" "leads_by_lease s j" for j
    proof (rule ccontr)
      assume ne: "\<not> ?thesis"
      from lease_invD(5)[OF inv that(2)] that(2) obtain doc where
        doc: "docs (mn_coll s) (mongo_buildLeaderKey ik) = Some doc" "mn_clock s \<le> bson_time (lp_Expires doc)"
        by (auto simp: backed_def leads_by_lease_def)
      from dc ne doc e obtain d t where "w = LTakeover d t" "bson_time (lp_Expires doc) = bson_time (lp_Expires d)" by auto
      with ok(1) n_write(3) doc(2) show False by (simp add: write_ok_def)
    qed
    assume "mongo_IsLeader e'"
    with rf ok(2) have "mongo_holder docs (iso_key ?e) c' = Some (nkey ?e)" by blast
    from backed_now[OF this e(2)] show "backed docs ik ?e (doc_until docs e' c') c'"
      using key e by (simp add: doc_until_def)
  qed (use rf in auto)
next
  case (n_close i e' c')
  let ?e = "mn_node s i"
  note e = lease_invD(1-3)[OF inv, of i] and wf = lease_invD(6)[OF inv]
  note dc = close_leader_docs[OF e(1) n_close(3)]
  have e': "me_closed e'" "me_opt e' = me_opt ?e \<and> me_electCls e' = me_electCls ?e"
    using n_close(3) by (auto simp: mongo_close_leader_def split: if_splits)
  show ?thesis unfolding n_close(1) node_forms(4)
  proof (rule lease_inv_upd[OF inv])
    show "leaders_wf docs c'" using dc wf by (auto intro: leaders_wf_same leaders_wf_drop)
    show "docs c' (mongo_buildLeaderKey ik) = docs (mn_coll s) (mongo_buildLeaderKey ik)" if "j \<noteq> i" "leads_by_lease s j" for j
      using dc lease_invD(5)[OF inv that(2)] lease_invD(7)[OF inv, of j i] that(1) e by (auto simp: backed_def)
  qed (use e' n_close(2) in auto)
next
  case (n_tick t)
  with inv show ?thesis by (auto simp: lease_inv_def leads_by_lease_def)
next
  case (n_removed k d c')
  have "docs c' (mongo_buildLeaderKey ik) = docs (mn_coll s) (mongo_buildLeaderKey ik)" if "leads_by_lease s j" for j
    using lease_invD(5)[OF inv that] that n_removed(2-4) by (auto simp: backed_def leads_by_lease_def)
  moreover have "leaders_wf docs c'" by (rule leaders_wf_drop[OF lease_invD(6)[OF inv] n_removed(4)])
  ultimately show ?thesis using inv n_removed(1) by (auto simp: lease_inv_def leads_by_lease_def backed_def)
next
  case (n_other c')
  with inv show ?thesis by (auto simp: lease_inv_def leads_by_lease_def backed_def)
qed

lemma mongo_nreach_inv: "mongo_nreach cls docs ik s \<Longrightarrow> lease_inv cls docs ik s"
proof (induction rule: mongo_nreach.induct)
  case (start s)
  then show ?case by (auto simp: mongo_domain_def lease_inv_def leads_by_lease_def)
next
  case (step s t)
  then show ?case using lease_step_inv by blast
qed

end

section \<open>Properties\<close>

text \<open>Node 0 finds the expired document of a node that is gone, and takes it over at time 7 s.\<close>

definition demo_ns0 :: "(LeaderPayload list, Payload list) mongo_nodes" where
  "demo_ns0 = \<lparr>mn_node = (\<lambda>i. demo_mnode (FormatUint i) ''jobs''), mn_pend = (\<lambda>i. None), mn_until = (\<lambda>i. 0),
     mn_clock = 7 * Second, mn_coll = [demo_leader ''gone'' (5 * Second)]\<rparr>"

definition demo_ns1 :: "(LeaderPayload list, Payload list) mongo_nodes" where
  "demo_ns1 = demo_ns0\<lparr>mn_pend := (mn_pend demo_ns0)(0 := Some (7 * Second, LTakeover (demo_leader ''gone'' (5 * Second)) (12 * Second)))\<rparr>"

definition demo_ns2 :: "(LeaderPayload list, Payload list) mongo_nodes" where
  "demo_ns2 = demo_ns1\<lparr>mn_node := (mn_node demo_ns1)(0 := mongo_markReady (mongo_set_flag True (demo_mnode (FormatUint 0) ''jobs''))),
     mn_pend := (mn_pend demo_ns1)(0 := None), mn_until := (mn_until demo_ns1)(0 := 12 * Second),
     mn_coll := [demo_leader (FormatUint 0) (12 * Second), demo_leader ''gone'' (5 * Second)]\<rparr>"

lemma demo_node_0 [simp]: "FormatUint 0 = ''0''"
  by code_simp

lemma demo_ns_reach: "mongo_nreach (mem_coll lp_ID) (mem_docs lp_ID) ''jobs'' demo_ns2"
proof -
  have "mongo_nreach (mem_coll lp_ID) (mem_docs lp_ID) ''jobs'' demo_ns0"
    by (rule mongo_nreach.start)
      (auto simp: mongo_domain_def demo_ns0_def leaders_wf_def demo_leader_def dest: FormatUint_inj intro!: injI simp del: FormatUint.simps)
  moreover have "mongo_nstep (mem_docs lp_ID) ''jobs'' demo_ns0 demo_ns1"
  proof -
    have "mongo_round_start (7 * Second) (mn_node demo_ns0 0) (mn_coll demo_ns0)
        = (Inr (LTakeover (demo_leader ''gone'' (5 * Second)) (12 * Second)), mn_coll demo_ns0)"
      by (simp add: demo_ns0_def mongo_round_start_def mongo_campaign_read_def demo_leader_def bson_leader_def bson_time_def Let_def
          del: FormatUint.simps)
    from n_start[where docs = "mem_docs lp_ID" and ik = "''jobs''", OF _ _ _ this] show ?thesis
      by (simp add: demo_ns0_def demo_ns1_def del: FormatUint.simps)
  qed
  moreover have "mongo_nstep (mem_docs lp_ID) ''jobs'' demo_ns1 demo_ns2"
  proof -
    have p: "mn_pend demo_ns1 0 = Some (7 * Second, LTakeover (demo_leader ''gone'' (5 * Second)) (12 * Second))" "7 * Second \<le> mn_clock demo_ns1"
      by (simp_all add: demo_ns1_def demo_ns0_def)
    have "mongo_round_finish (LTakeover (demo_leader ''gone'' (5 * Second)) (12 * Second)) (mn_node demo_ns1 0) (mn_coll demo_ns1)
        = (mongo_markReady (mongo_set_flag True (demo_mnode (FormatUint 0) ''jobs'')), mn_coll demo_ns2)"
      by (simp add: demo_ns2_def demo_ns1_def demo_ns0_def mongo_round_finish_def mongo_campaign_write_def demo_leader_def take_leader_def bson_time_def
          del: FormatUint.simps)
    from n_write[where docs = "mem_docs lp_ID" and ik = "''jobs''", OF p this] show ?thesis
      by (simp add: demo_ns2_def doc_until_def mongo_leaderKey_def demo_leader_def bson_time_def del: FormatUint.simps)
  qed
  ultimately show ?thesis by (blast intro: mongo_nreach.step)
qed

text \<open>
  C5. Single leader on MongoDB: from nodes of a domain that are not leaders, over a collection that may hold
  leader documents of earlier runs, through any interleaving of the driver calls of election rounds, takeovers of
  expired leader documents included, of shutdowns, of the TTL monitor and of nodes of other domains, with calls that may
  fail on the way and \<open>CanElect\<close> answering anything, the leader document names every open node whose flag is set and whose
  lease has not run out, with an expiry no earlier than that of the lease; so at most one node leads by lease. (The clocks
  of the nodes agree up to the time their calls take.)
\<close>

theorem mongo_single_leader:
  assumes "mongo_leaders cls docs" and "mongo_nreach cls docs ik s" and "leads_by_lease s i"
  shows "backed docs ik (mn_node s i) (mn_until s i) (mn_coll s) \<and> (\<forall>j. leads_by_lease s j \<longrightarrow> j = i)"
proof -
  note inv = mongo_leaders.mongo_nreach_inv[OF assms(1,2)]
  have "j = i" if "leads_by_lease s j" for j
    using lease_invD(5)[OF inv that] lease_invD(5)[OF inv assms(3)] lease_invD(7)[OF inv, of j i] by (auto simp: backed_def)
  with lease_invD(5)[OF inv assms(3)] show ?thesis by blast
qed

theorem mongo_single_leader_witness:
  "leads_by_lease demo_ns2 0 \<and> backed (mem_docs lp_ID) ''jobs'' (mn_node demo_ns2 0) (12 * Second) (mn_coll demo_ns2)
   \<and> {j. leads_by_lease demo_ns2 j} = {0}"
proof -
  have "leads_by_lease demo_ns2 0" "mn_until demo_ns2 0 = 12 * Second"
    by (simp_all add: leads_by_lease_def demo_ns2_def demo_ns1_def demo_ns0_def del: FormatUint.simps)
  with mongo_single_leader[OF memld.mongo_leaders_axioms demo_ns_reach this(1)] show ?thesis by auto
qed

end
