(* ===== verification/Spec2Isabelle.thy ===== *)
theory Spec2Isabelle
  imports Kit_Backends Config_Types Resource_Manager Mongox_Feed Mongox_Concurrent Httpx_Message Httpx_Release Mongo_Workers
    Redis_Holders Mongo_Leases
begin

text \<open>
  \<^bold>\<open>A verification development for core-go\<close>

  The repository is a library of building blocks for Go services: distributed locks, leader election and
  unique identifiers over Redis or MongoDB (\<open>dkit\<close>), values that travel with a request (\<open>pass\<close>,
  \<open>trace\<close>), an HTTP client with retries, discovery and deadlines (\<open>httpx\<close>), resources behind
  identifiers (\<open>resource\<close>), layered configuration (\<open>config\<close>), and errors, identifiers and repositories
  (\<open>model\<close>). This development translates its code into HOL and proves what makes it correct.

  \<^bold>\<open>How the code is modelled.\<close> Functions that compute are HOL functions; code with effects takes and
  returns the state it acts on; a Go \<open>error\<close> is a value of \<open>go_error\<close> (one constructor per error type),
  a fallible result is a sum. Strings are byte lists, \<open>int64\<close> arithmetic wraps where the code can reach
  the bounds, times are nanoseconds. What the code reads from outside (clock, random bytes, map order,
  network, file system, third-party packages) is an argument. Where the code relies on the documented
  behaviour of such a package this is a locale whose laws are the documentation; each locale is interpreted
  on an executable in-memory instance or on the definitions of the component that provides it. Map
  iteration in Go has no order: association lists stand for one order, and statements hold for all.

  \<^bold>\<open>Theories and sources.\<close>
  \<^item> \<open>Go_Prelude\<close>: what the code uses of \<open>strings\<close>, \<open>strconv\<close>, \<open>encoding/hex\<close>, 64-bit integers.
  \<^item> \<open>Datax_Errors\<close> (\<open>model/datax/error.go\<close>, \<open>httpx/error.go\<close>, \<open>resource/errors.go\<close>, \<open>dkit/errors.go\<close>):
    error values with rendering, \<open>Unwrap\<close>, \<open>errors.Is\<close> and \<open>As\<close>, classification.
  \<^item> \<open>Pass_Context\<close> (\<open>pass/pass.go\<close>), \<open>Httpx_Tracing\<close> (\<open>trace/trace.go\<close>, \<open>httpx/tracing.go\<close>): contexts, keys,
    headers from hop to hop, deadlines, locale, identifiers.
  \<^item> \<open>Snowflake\<close> (\<open>model/snowflake_id.go\<close>): codecs of identifiers.
  \<^item> \<open>Dkit_Lock\<close>, \<open>Dkit_Random\<close>, \<open>Dkit_Elect\<close> (\<open>dkit/dmutex.go\<close>, \<open>event.go\<close> and what the backends share).
  \<^item> \<open>Redis_Server\<close>, \<open>Redis_Keys\<close>, \<open>Redis_Mutex\<close>, \<open>Redis_Random\<close>, \<open>Redis_Elect\<close>, \<open>Redis_Atomic\<close> (\<open>dkit/redis\<close>):
    locale \<open>redis_server\<close> states what the commands and scripts promise. \<open>Redis_Holders\<close>: systems of mutex
    instances in several processes, whose attempts, reentrant ones in two commands, interleave with
    each other, with releases, expiry of leases and foreign writes. The nodes of an election are a step
    relation as well (locale \<open>election_backend\<close> of \<open>Dkit_Elect\<close>, on the commands of \<open>Redis_Elect\<close>).
  \<^item> \<open>Mongo_Server\<close>, \<open>Mongo_Mutex\<close>, \<open>Mongo_Random\<close>, \<open>Mongo_Elect\<close>, \<open>Mongo_Atomic\<close> (\<open>dkit/mongo\<close>): the same over a
    collection; reads and conditional writes of one attempt are separate steps, times have the
    millisecond resolution of BSON. \<open>Mongo_Leases\<close>: the nodes of an election domain with a clock, takeovers of
    expired leader documents, the TTL monitor and other domains.
  \<^item> \<open>Dkit_Kit\<close>, \<open>Kit_Backends\<close> (\<open>dkit/dkit.go\<close>, \<open>locator.go\<close>): the kit over any backend (locales
    \<open>mutex_factory\<close>, \<open>redis_backend\<close>, \<open>mongo_backend\<close>), lock helpers with deferred release and panics.
  \<^item> \<open>Dkit_Workers\<close>, \<open>Mongo_Workers\<close> (the goroutines of \<open>dkit/redis/elect.go\<close> and \<open>dkit/mongo/elect.go\<close>): loops
    over ticks, a Redis server with a clock (locale \<open>redis_clock\<close>), the MongoDB rounds (locale \<open>mongo_beats\<close>).
  \<^item> \<open>Httpx_Discovery\<close> (\<open>httpx/discovery.go\<close>), \<open>Httpx_Agent\<close> (\<open>httpx/agent.go\<close>): resolution, weighted picking,
    one attempt, the retry loop, call errors. \<open>Httpx_Release\<close> (\<open>httpx/agent.go\<close>): the events of a call (log
    lines, bodies, timers, cancellation), client settings, streams. \<open>Httpx_Message\<close> (\<open>httpx/req.go\<close>, \<open>resp.go\<close>, \<open>httpx.go\<close>): bodies and
    forms, response handlers, the application wrapper, over the queries of \<open>Net_Url\<close> (\<open>net/url\<close>).
  \<^item> \<open>Trace_Logging\<close> (\<open>trace/logging/logger.go\<close>): lines, loggers and the package functions.
  \<^item> \<open>Model_Audit\<close> (\<open>model/audit.go\<close>, \<open>types.go\<close>, \<open>util.go\<close>, \<open>test_util.go\<close>, \<open>datax/page.go\<close>): audits, repository
    options in contexts, the lock of an update, pagers and sorting.
  \<^item> \<open>Mongox_Value\<close>, \<open>Mongox_Repo\<close> (\<open>model/mongox/mongox.go\<close>): values as \<open>reflect\<close> sees them, patch payloads,
    tokens; \<open>CollectionLib\<close> with all its operations over a record of driver calls. \<open>Mongox_Store\<close>: what the
    driver documents (locales \<open>entity_codec\<close>, \<open>filter_semantics\<close>, \<open>update_semantics\<close>, \<open>entity_store\<close>).
    \<open>Mongox_Guard\<close> (locale \<open>repository\<close>): visibility, injected conditions, operations and histories.
    \<open>Mongox_Memory\<close>: a reference collection over lists of documents, on which the locales are interpreted.
    \<open>Mongox_Isolation\<close>, \<open>Mongox_Lock\<close>, \<open>Mongox_Patch\<close>, \<open>Mongox_Feed\<close>: the properties of the repository.
    \<open>Mongox_Concurrent\<close> (locale \<open>versioned_repository\<close>): steps of single driver calls of any number of clients.
  \<^item> \<open>Config_Map\<close>, \<open>Config_Load\<close>, \<open>Config_Types\<close> (\<open>config/config.go\<close>): nested maps, merging, flattening; environment,
    flags, typed overrides, validation, masking, \<open>Load\<close>; the types of what it loads.
  \<^item> \<open>Resource_Parse\<close>, \<open>Resource_Stream\<close>, \<open>Resource_Manager\<close> (\<open>resource\<close>): identifiers with \<open>url.ParseQuery\<close>;
    the limited reader (locale \<open>byte_source\<close>); options, data and HTTP handlers, manager, download.

  \<^bold>\<open>What is proved.\<close>
  \<^item> Safety of the distributed primitives: two holders of a lock are the same instance or share a reentrant
    identity, a held lock is lost only by a release with its value, its replacement or expiry, at most one
    Redis leader while leases last, at most one MongoDB leader whose lease has not expired, distinct numbers
    and identifiers; blocking \<open>Lock\<close> of an instance that holds nothing returns once its wait ends.
  \<^item> The kit starts a section only while the lock is owned and calls \<open>Unlock\<close> once however the section ends; when
    that succeeds the lock was owned to the end.
  \<^item> A healthy leader stays in office, on Redis and on MongoDB: rounds within the lease keep the flag and
    the record, the tickers of the code (half of the lease) are within it, and a healthy node stays alive.
  \<^item> Events, heartbeats and keys: leader events alternate and agree with the flag, the nodes a scan of an
    unchanging keyspace lists are exactly those with a live heartbeat, keys of different primitives never coincide.
  \<^item> Requests: values propagate from hop to hop without loss, the locale normalised, and budgets of a
    millisecond and more without growing; a call is sent boundedly often, refines its specification, sends
    nothing in an attempt that starts after its deadline, and its errors keep
    cause, code and retryability; however it ends, its bodies are closed and its context
    is cancelled once, a stream's when it is closed, and its lines name trace and request; discovery reaches healthy instances in proportion to their weights.
  \<^item> Configuration: loading refines the precedence of its layers, sensitive values outside lists come from the
    allowed sources, the summary hides them, the hash depends on content only; environment and flags keep the types
    the default file gives to its paths, as long as they are literals of them.
  \<^item> Resources: accepted identifiers are well-formed and round trip, a limited body ends at its limit, a
    download is atomic, an HTTP resource respects its limits.
  \<^item> The repository: no history of requests, with any filters, payloads and driver failures, changes a
    document it may not see (the calls that are excepted are those \<open>checked_op\<close> of \<open>Mongox_Guard\<close> excludes), and queries show visible documents only; pages are runs of one enumeration;
    updates and patches are compare-and-set on the version that was read, so no update is lost as long as versions differ;
    soft-deleted documents stay under checked calls; a created entity is read back; a patch writes exactly its payload, which
    holds the non-zero fields but times; following the tokens of a feed over the identifier ends and delivers every visible match once and in order; whatever the interleaving of
    the driver calls of concurrent updates, the document is what the changes make of it one after the other.
  \<^item> Application codes of wrapped answers reach the caller with their data; forms reach the server as they are.
  \<^item> Round trips of identifiers and header values; characterisations of the error functions.
  Lemmas named in the findings of the manifest show where the code does not do what it means to.

  \<^bold>\<open>Bounds and fuel.\<close> \<open>Lock\<close> loops run over the list of wake-ups of their ticker and timers, so a statement
  about every list covers every run; \<open>read_all\<close> takes fuel, and any fuel above the length of the body is
  enough; the retry loop recurses on the attempts left; a client of feeds makes at
  most \<open>n\<close> calls, and one more than there are full pages is enough. All other recursions terminate by a measure.

  \<^bold>\<open>Not modelled.\<close> The calls of the logger inside other components than the HTTP agent, the delays
  between the attempts of the retry package, \<open>mongox.Ptr\<close>. The text form of floats and times in page tokens,
  \<open>encoding/json\<close> and \<open>mime.ParseMediaType\<close> are parameters. \<open>FeedQuery\<close> allocates \<open>pageSize+1\<close> rows before it
  reads them and panics for sizes beyond what memory can hold; the model has no such bound. The steps of
  \<open>Mongox_Concurrent\<close> interleave updates; other operations of a repository run one after the other.
\<close>

end
